(* ===== verification/Prelude.thy ===== *)
theory Prelude
  imports Main "HOL-Library.Word"
begin

text \<open>
  Shared vocabulary of the development: the fixed-width integers of the C sources, byte slabs
  (a C object seen as the list of its bytes) with the two operations \<open>bslice\<close> (read a run of
  bytes) and \<open>bsplice\<close> (\<^verbatim>\<open>memcpy\<close> into a run of bytes), the little-endian and big-endian
  layout of 16- and 32-bit integers, C strings, and the allocator oracle. The lemma collections
  \<open>c_mem\<close> and \<open>le_bytes\<close> carry the rewriting rules the component theories use.
\<close>

unbundle bit_operations_syntax

named_theorems c_mem "reading and writing runs of bytes"
named_theorems le_bytes "byte layout of machine integers"

type_synonym u8 = "8 word"
type_synonym u16 = "16 word"
type_synonym u32 = "32 word"
type_synonym u64 = "64 word"
type_synonym bytes = "u8 list"

text \<open>C's \<^verbatim>\<open>int\<close> is an \<open>int\<close> here, kept in its 32-bit range by \<open>wrap_s32\<close> where code can leave it.\<close>

definition wrap_s32 :: "int \<Rightarrow> int" where
  "wrap_s32 x = sint (word_of_int x :: u32)"

section \<open>Byte slabs\<close>

definition bslice :: "nat \<Rightarrow> nat \<Rightarrow> 'a list \<Rightarrow> 'a list" where
  "bslice off n xs = take n (drop off xs)"

definition bsplice :: "nat \<Rightarrow> 'a list \<Rightarrow> 'a list \<Rightarrow> 'a list" where
  "bsplice off ys xs = take off xs @ ys @ drop (off + length ys) xs"

section \<open>Layout of machine integers\<close>

definition le16 :: "u16 \<Rightarrow> bytes" where
  "le16 w = [ucast w, ucast (drop_bit 8 w)]"

definition de16 :: "bytes \<Rightarrow> u16" where
  "de16 bs = (case bs of [a, b] \<Rightarrow> ucast a OR push_bit 8 (ucast b) | _ \<Rightarrow> 0)"

definition le32 :: "u32 \<Rightarrow> bytes" where
  "le32 w = [ucast w, ucast (drop_bit 8 w), ucast (drop_bit 16 w), ucast (drop_bit 24 w)]"

definition de32 :: "bytes \<Rightarrow> u32" where
  "de32 bs = (case bs of
      [a, b, c, d] \<Rightarrow> ucast a OR push_bit 8 (ucast b) OR push_bit 16 (ucast c) OR push_bit 24 (ucast d)
    | _ \<Rightarrow> 0)"

text \<open>\<open>htonl\<close>, \<open>ntohl\<close>, \<open>htons\<close> and \<open>ntohs\<close> swap bytes on the little-endian target.\<close>

definition swap32 :: "u32 \<Rightarrow> u32" where
  "swap32 w = de32 (rev (le32 w))"

definition swap16 :: "u16 \<Rightarrow> u16" where
  "swap16 w = de16 (rev (le16 w))"

section \<open>C strings\<close>

text \<open>The bytes before the first NUL, and the same with the NUL that \<open>strcpy\<close> copies.\<close>

definition cstr :: "bytes \<Rightarrow> bytes" where
  "cstr bs = takeWhile (\<lambda>b. b \<noteq> 0) bs"

definition has_nul :: "bytes \<Rightarrow> bool" where
  "has_nul bs \<longleftrightarrow> 0 \<in> set bs"

definition chr_bytes :: "string \<Rightarrow> bytes" where
  "chr_bytes s = map (\<lambda>c. of_char c) s"

section \<open>The allocator\<close>

text \<open>
  \<^verbatim>\<open>tls_mem_alloc\<close> ends in the C library's \<^verbatim>\<open>malloc\<close>, which is not part of the sources: it is a
  parameter of the operations that allocate. \<open>heap k n\<close> is the outcome of the \<open>k\<close>-th request, for
  \<open>n\<close> bytes: failure, or a block with whatever contents memory happens to have.
\<close>

type_synonym allocator = "nat \<Rightarrow> nat \<Rightarrow> bytes option"

definition alloc_ok :: "allocator \<Rightarrow> bool" where
  "alloc_ok heap \<longleftrightarrow> (\<forall>k n. case heap k n of None \<Rightarrow> True | Some b \<Rightarrow> length b = n)"

definition alloc_total :: "allocator \<Rightarrow> bool" where
  "alloc_total heap \<longleftrightarrow> (\<forall>k n. \<exists>b. heap k n = Some b \<and> length b = n)"

text \<open>An allocator that never fails.\<close>

definition zero_heap :: allocator where
  "zero_heap k n = Some (replicate n 0)"

section \<open>Lemmas: slices and splices\<close>

lemma length_bslice [simp]: "length (bslice off n xs) = min n (length xs - off)"
  by (simp add: bslice_def min.commute)

lemma length_bsplice [simp]:
  "off + length ys \<le> length xs \<Longrightarrow> length (bsplice off ys xs) = length xs"
  by (simp add: bsplice_def)

lemma nth_bslice [c_mem]: "i < n \<Longrightarrow> off + i < length xs \<Longrightarrow> bslice off n xs ! i = xs ! (off + i)"
  by (simp add: bslice_def)

lemma nth_bsplice [c_mem]:
  assumes "off + length ys \<le> length xs" and "i < length xs"
  shows "bsplice off ys xs ! i = (if off \<le> i \<and> i < off + length ys then ys ! (i - off) else xs ! i)"
  using assms by (auto simp: bsplice_def nth_append min_def)

lemma bslice_splice_same [c_mem]:
  "off + length ys \<le> length xs \<Longrightarrow> bslice off (length ys) (bsplice off ys xs) = ys"
  by (simp add: bslice_def bsplice_def)

lemma bslice_splice_same' [c_mem]:
  "n = length ys \<Longrightarrow> off + length ys \<le> length xs \<Longrightarrow> bslice off n (bsplice off ys xs) = ys"
  by (simp add: bslice_splice_same)

lemma bslice_splice_other [c_mem]:
  assumes "off + length ys \<le> length xs" and "o2 + n \<le> off \<or> off + length ys \<le> o2"
  shows "bslice o2 n (bsplice off ys xs) = bslice o2 n xs"
proof (rule nth_equalityI)
  show "length (bslice o2 n (bsplice off ys xs)) = length (bslice o2 n xs)"
    using assms by simp
next
  fix i assume "i < length (bslice o2 n (bsplice off ys xs))"
  then show "bslice o2 n (bsplice off ys xs) ! i = bslice o2 n xs ! i"
    using assms by (auto simp: nth_bslice nth_bsplice)
qed

lemma bsplice_slice_id [c_mem]: "off + n \<le> length xs \<Longrightarrow> bsplice off (bslice off n xs) xs = xs"
  by (rule nth_equalityI) (auto simp: nth_bsplice nth_bslice min_def)

lemma bsplice_append [c_mem]:
  assumes "off + length ys + length zs \<le> length xs" and "o2 = off + length ys"
  shows "bsplice o2 zs (bsplice off ys xs) = bsplice off (ys @ zs) xs"
  using assms by (simp add: bsplice_def ac_simps)

lemma bsplice_full [c_mem]: "length ys = length xs \<Longrightarrow> bsplice 0 ys xs = ys"
  by (simp add: bsplice_def)

lemma bslice_full [c_mem]: "length xs \<le> n \<Longrightarrow> bslice 0 n xs = xs"
  by (simp add: bslice_def)

lemma bslice_slice [c_mem]:
  "o2 + n2 \<le> n \<Longrightarrow> bslice o2 n2 (bslice off n xs) = bslice (off + o2) n2 xs"
  by (simp add: bslice_def drop_take add.commute min_def)

lemma nth_update_any: "j < length xs \<Longrightarrow> xs[i := x] ! j = (if i = j then x else xs ! j)"
  by (cases "i = j") auto

section \<open>Lemmas: machine integers\<close>

lemma length_le16 [simp]: "length (le16 w) = 2"
  by (simp add: le16_def)

lemma length_le32 [simp]: "length (le32 w) = 4"
  by (simp add: le32_def)

lemma u8_bit_beyond: "8 \<le> n \<Longrightarrow> \<not> bit (a :: u8) n"
  by (auto dest: bit_imp_le_length)

lemma word_xor_left_cancel: "a XOR b = a XOR c \<longleftrightarrow> b = c" for a b c :: "'a::len word"
  by (metis xor.assoc xor_self_eq xor.left_neutral)

lemma word_xor_eq_0: "a XOR b = 0 \<longleftrightarrow> a = b" for a b :: "'a::len word"
  by (metis word_xor_left_cancel xor_self_eq)

lemma u8_and_FF [simp]: "255 AND x = x" for x :: u8
proof -
  have "(255 :: u8) = - 1" by simp
  then show ?thesis by (metis and.left_neutral)
qed

lemma u8_unat_less: "unat (x :: u8) < 256"
  using unsigned_less [of x] by simp

lemma u32_unat_less: "unat (x :: u32) < 2 ^ 32"
  using unsigned_less [of x] by simp

lemma u32_unat_of_nat: "k < 2 ^ 32 \<Longrightarrow> unat (word_of_nat k :: u32) = k"
  by (simp add: unsigned_of_nat take_bit_eq_mod)

lemma u32_countdown: "n < unat x \<Longrightarrow> x - word_of_nat n \<noteq> (0 :: u32)"
proof
  assume n: "n < unat x" and "x - word_of_nat n = 0"
  then have x: "x = word_of_nat n" by simp
  have "n < 2 ^ 32" using n u32_unat_less [of x] by linarith
  then show False using n u32_unat_of_nat [of n] unfolding x by simp
qed

lemma upt_8: "[0..<8] = [0, 1, 2, 3, 4, 5, 6, 7 :: nat]"
  by code_simp

lemma upt_32: "[0..<32] = [0, 1, 2, 3, 4, 5, 6, 7, 8, 9, 10, 11, 12, 13, 14, 15, 16, 17, 18, 19,
    20, 21, 22, 23, 24, 25, 26, 27, 28, 29, 30, 31 :: nat]"
  by code_simp

text \<open>Two 32-bit words are equal when their 32 bits are; the list form unrolls by rewriting.\<close>

lemma u32_eqI: "list_all (\<lambda>n. bit a n = bit b n) [0..<32] \<Longrightarrow> a = b" for a b :: u32
  by (rule bit_word_eqI) (simp add: list_all_iff)

lemmas layout_bits = bit_or_iff bit_push_bit_iff bit_ucast_iff bit_drop_bit_eq u8_bit_beyond

lemma de16_le16 [simp, le_bytes]: "de16 (le16 w) = w"
  unfolding de16_def le16_def by (simp, rule bit_word_eqI) (auto simp: layout_bits)

lemma de32_le32 [simp, le_bytes]: "de32 (le32 w) = w"
proof (rule bit_word_eqI)
  fix n assume "n < LENGTH(32)"
  then consider "n < 8" | "8 \<le> n" "n < 16" | "16 \<le> n" "n < 24" | "24 \<le> n" "n < 32"
    by fastforce
  then show "bit (de32 (le32 w)) n = bit w n"
    by cases (auto simp: de32_def le32_def layout_bits)
qed

lemma length_2_cases: "length bs = 2 \<Longrightarrow> \<exists>a b. bs = [a, b]"
  by (auto simp: length_Suc_conv numeral_eq_Suc)

lemma length_4_cases: "length bs = 4 \<Longrightarrow> \<exists>a b c d. bs = [a, b, c, d]"
  by (auto simp: length_Suc_conv numeral_eq_Suc)

lemma le16_de16 [le_bytes]: "length bs = 2 \<Longrightarrow> le16 (de16 bs) = bs"
proof -
  assume "length bs = 2"
  then obtain a b where bs: "bs = [a, b]" using length_2_cases by blast
  show ?thesis unfolding bs de16_def le16_def
    by (auto intro!: bit_word_eqI simp: layout_bits)
qed

lemma le32_de32 [le_bytes]: "length bs = 4 \<Longrightarrow> le32 (de32 bs) = bs"
proof -
  assume "length bs = 4"
  then obtain a b c d where bs: "bs = [a, b, c, d]" using length_4_cases by blast
  show ?thesis unfolding bs de32_def le32_def
    by (auto intro!: bit_word_eqI simp: layout_bits)
qed

lemma swap32_swap32 [simp, le_bytes]: "swap32 (swap32 w) = w"
  by (simp add: swap32_def le32_de32)

lemma swap16_swap16 [simp, le_bytes]: "swap16 (swap16 w) = w"
  by (simp add: swap16_def le16_de16)

lemma swap32_inject [simp, le_bytes]: "swap32 a = swap32 b \<longleftrightarrow> a = b"
  by (metis swap32_swap32)

section \<open>Lemmas: C strings and the allocator\<close>

lemma cstr_append_nul [simp]: "0 \<notin> set s \<Longrightarrow> cstr (s @ 0 # r) = s"
  by (simp add: cstr_def takeWhile_append)

lemma cstr_no_nul: "0 \<notin> set (cstr bs)"
  by (auto simp: cstr_def dest: set_takeWhileD)

lemma cstr_length: "has_nul bs \<Longrightarrow> length (cstr bs) < length bs"
  unfolding has_nul_def cstr_def by (induction bs) auto

lemma alloc_total_ok: "alloc_total heap \<Longrightarrow> alloc_ok heap"
  unfolding alloc_total_def alloc_ok_def by (auto split: option.splits)
    (metis option.inject)

lemma alloc_total_zero_heap [simp]: "alloc_total zero_heap"
  by (simp add: alloc_total_def zero_heap_def)

lemma alloc_totalE:
  assumes "alloc_total heap"
  obtains b where "heap k n = Some b" "length b = n"
  using assms unfolding alloc_total_def by blast

lemma alloc_okD: "alloc_ok heap \<Longrightarrow> heap k n = Some b \<Longrightarrow> length b = n"
  unfolding alloc_ok_def by (auto dest: spec [of _ k] split: option.splits)

end
