(* ===== verification/Crc.thy ===== *)
theory Crc
  imports Prelude
begin

text \<open>
  The checksums of \<^verbatim>\<open>src/Platform/Common/utils/utils.c\<close>: the table-driven CRC-8
  (\<^verbatim>\<open>chk_crc8\<close>, \<^verbatim>\<open>get_crc8\<close>, \<^verbatim>\<open>calculate_crc8\<close>), the CRC-32 with its 32 unrolled parity
  equations (\<^verbatim>\<open>_cal_crc32\<close>, \<^verbatim>\<open>get_crc32\<close>) and the folded 64-bit sum (\<^verbatim>\<open>checksum\<close>). A buffer
  argument with its length is the list of exactly the bytes (words) the loop reads. The lemmas show
  that the table is the bitwise CRC-8 of the reflected polynomial 0xE0, that the parity equations
  are eight shift-register steps of the CRC-32 polynomial 0x04C11DB7, and that
  \<^verbatim>\<open>get_crc32\<close> is the standard reflected CRC-32 (0xEDB88320, all-ones start, complemented result).
\<close>

section \<open>CRC-8\<close>

definition crc8_tbl :: bytes where
  "crc8_tbl = [
    0x00, 0x91, 0xe3, 0x72, 0x07, 0x96, 0xe4, 0x75,
    0x0e, 0x9f, 0xed, 0x7c, 0x09, 0x98, 0xea, 0x7b,
    0x1c, 0x8d, 0xff, 0x6e, 0x1b, 0x8a, 0xf8, 0x69,
    0x12, 0x83, 0xf1, 0x60, 0x15, 0x84, 0xf6, 0x67,
    0x38, 0xa9, 0xdb, 0x4a, 0x3f, 0xae, 0xdc, 0x4d,
    0x36, 0xa7, 0xd5, 0x44, 0x31, 0xa0, 0xd2, 0x43,
    0x24, 0xb5, 0xc7, 0x56, 0x23, 0xb2, 0xc0, 0x51,
    0x2a, 0xbb, 0xc9, 0x58, 0x2d, 0xbc, 0xce, 0x5f,
    0x70, 0xe1, 0x93, 0x02, 0x77, 0xe6, 0x94, 0x05,
    0x7e, 0xef, 0x9d, 0x0c, 0x79, 0xe8, 0x9a, 0x0b,
    0x6c, 0xfd, 0x8f, 0x1e, 0x6b, 0xfa, 0x88, 0x19,
    0x62, 0xf3, 0x81, 0x10, 0x65, 0xf4, 0x86, 0x17,
    0x48, 0xd9, 0xab, 0x3a, 0x4f, 0xde, 0xac, 0x3d,
    0x46, 0xd7, 0xa5, 0x34, 0x41, 0xd0, 0xa2, 0x33,
    0x54, 0xc5, 0xb7, 0x26, 0x53, 0xc2, 0xb0, 0x21,
    0x5a, 0xcb, 0xb9, 0x28, 0x5d, 0xcc, 0xbe, 0x2f,
    0xe0, 0x71, 0x03, 0x92, 0xe7, 0x76, 0x04, 0x95,
    0xee, 0x7f, 0x0d, 0x9c, 0xe9, 0x78, 0x0a, 0x9b,
    0xfc, 0x6d, 0x1f, 0x8e, 0xfb, 0x6a, 0x18, 0x89,
    0xf2, 0x63, 0x11, 0x80, 0xf5, 0x64, 0x16, 0x87,
    0xd8, 0x49, 0x3b, 0xaa, 0xdf, 0x4e, 0x3c, 0xad,
    0xd6, 0x47, 0x35, 0xa4, 0xd1, 0x40, 0x32, 0xa3,
    0xc4, 0x55, 0x27, 0xb6, 0xc3, 0x52, 0x20, 0xb1,
    0xca, 0x5b, 0x29, 0xb8, 0xcd, 0x5c, 0x2e, 0xbf,
    0x90, 0x01, 0x73, 0xe2, 0x97, 0x06, 0x74, 0xe5,
    0x9e, 0x0f, 0x7d, 0xec, 0x99, 0x08, 0x7a, 0xeb,
    0x8c, 0x1d, 0x6f, 0xfe, 0x8b, 0x1a, 0x68, 0xf9,
    0x82, 0x13, 0x61, 0xf0, 0x85, 0x14, 0x66, 0xf7,
    0xa8, 0x39, 0x4b, 0xda, 0xaf, 0x3e, 0x4c, 0xdd,
    0xa6, 0x37, 0x45, 0xd4, 0xa1, 0x30, 0x42, 0xd3,
    0xb4, 0x25, 0x57, 0xc6, 0xb3, 0x22, 0x50, 0xc1,
    0xba, 0x2b, 0x59, 0xc8, 0xbd, 0x2c, 0x5e, 0xcf]"

fun calculate_crc8 :: "u8 \<Rightarrow> bytes \<Rightarrow> u8" where
  "calculate_crc8 crc8 [] = crc8"
| "calculate_crc8 crc8 (data # ptr) = calculate_crc8 (crc8_tbl ! unat (crc8 XOR data)) ptr"

definition get_crc8 :: "bytes \<Rightarrow> u8" where
  "get_crc8 ptr = calculate_crc8 0 ptr"

definition chk_crc8 :: "bytes \<Rightarrow> int" where
  "chk_crc8 ptr = (if calculate_crc8 0 ptr = 0 then 0 else -1)"

section \<open>CRC-32\<close>

definition crc_bits_in :: "u8 \<Rightarrow> bytes" where
  "crc_bits_in data_8 = map (\<lambda>i. drop_bit i data_8 AND 1) [0..<8]"

definition crc_bits_reg :: "u32 \<Rightarrow> bytes" where
  "crc_bits_reg crc_result = map (\<lambda>i. ucast (drop_bit i crc_result) AND 1) [0..<32]"

definition crc_out :: "bytes \<Rightarrow> bytes \<Rightarrow> bytes" where
  "crc_out d c = [
        d ! 1 XOR d ! 7 XOR c ! 30 XOR c ! 24,
        d ! 0 XOR d ! 1 XOR d ! 6 XOR d ! 7 XOR c ! 31 XOR c ! 30 XOR c ! 25 XOR c ! 24,
        d ! 0 XOR d ! 1 XOR d ! 5 XOR d ! 6 XOR d ! 7 XOR c ! 31 XOR c ! 30 XOR c ! 26 XOR c ! 25
          XOR c ! 24,
        d ! 0 XOR d ! 4 XOR d ! 5 XOR d ! 6 XOR c ! 31 XOR c ! 27 XOR c ! 26 XOR c ! 25,
        d ! 1 XOR d ! 3 XOR d ! 4 XOR d ! 5 XOR d ! 7 XOR c ! 30 XOR c ! 28 XOR c ! 27 XOR c ! 26
          XOR c ! 24,
        d ! 0 XOR d ! 1 XOR d ! 2 XOR d ! 3 XOR d ! 4 XOR d ! 6 XOR d ! 7 XOR c ! 31 XOR c ! 30 XOR
          c ! 29 XOR c ! 28 XOR c ! 27 XOR c ! 25 XOR c ! 24,
        d ! 0 XOR d ! 1 XOR d ! 2 XOR d ! 3 XOR d ! 5 XOR d ! 6 XOR c ! 31 XOR c ! 30 XOR c ! 29 XOR
          c ! 28 XOR c ! 26 XOR c ! 25,
        d ! 0 XOR d ! 2 XOR d ! 4 XOR d ! 5 XOR d ! 7 XOR c ! 31 XOR c ! 29 XOR c ! 27 XOR c ! 26
          XOR c ! 24,
        d ! 3 XOR d ! 4 XOR d ! 6 XOR d ! 7 XOR c ! 28 XOR c ! 27 XOR c ! 25 XOR c ! 24 XOR c ! 0,
        d ! 2 XOR d ! 3 XOR d ! 5 XOR d ! 6 XOR c ! 29 XOR c ! 28 XOR c ! 26 XOR c ! 25 XOR c ! 1,
        d ! 2 XOR d ! 4 XOR d ! 5 XOR d ! 7 XOR c ! 29 XOR c ! 27 XOR c ! 26 XOR c ! 24 XOR c ! 2,
        d ! 3 XOR d ! 4 XOR d ! 6 XOR d ! 7 XOR c ! 28 XOR c ! 27 XOR c ! 25 XOR c ! 24 XOR c ! 3,
        d ! 1 XOR d ! 2 XOR d ! 3 XOR d ! 5 XOR d ! 6 XOR d ! 7 XOR c ! 30 XOR c ! 29 XOR c ! 28 XOR
          c ! 26 XOR c ! 25 XOR c ! 24 XOR c ! 4,
        d ! 0 XOR d ! 1 XOR d ! 2 XOR d ! 4 XOR d ! 5 XOR d ! 6 XOR c ! 31 XOR c ! 30 XOR c ! 29 XOR
          c ! 27 XOR c ! 26 XOR c ! 25 XOR c ! 5,
        d ! 0 XOR d ! 1 XOR d ! 3 XOR d ! 4 XOR d ! 5 XOR c ! 31 XOR c ! 30 XOR c ! 28 XOR c ! 27
          XOR c ! 26 XOR c ! 6,
        d ! 0 XOR d ! 2 XOR d ! 3 XOR d ! 4 XOR c ! 31 XOR c ! 29 XOR c ! 28 XOR c ! 27 XOR c ! 7,
        d ! 2 XOR d ! 3 XOR d ! 7 XOR c ! 29 XOR c ! 28 XOR c ! 24 XOR c ! 8,
        d ! 1 XOR d ! 2 XOR d ! 6 XOR c ! 30 XOR c ! 29 XOR c ! 25 XOR c ! 9,
        d ! 0 XOR d ! 1 XOR d ! 5 XOR c ! 31 XOR c ! 30 XOR c ! 26 XOR c ! 10,
        d ! 0 XOR d ! 4 XOR c ! 31 XOR c ! 27 XOR c ! 11,
        d ! 3 XOR c ! 28 XOR c ! 12,
        d ! 2 XOR c ! 29 XOR c ! 13,
        d ! 7 XOR c ! 24 XOR c ! 14,
        d ! 1 XOR d ! 6 XOR d ! 7 XOR c ! 30 XOR c ! 25 XOR c ! 24 XOR c ! 15,
        d ! 0 XOR d ! 5 XOR d ! 6 XOR c ! 31 XOR c ! 26 XOR c ! 25 XOR c ! 16,
        d ! 4 XOR d ! 5 XOR c ! 27 XOR c ! 26 XOR c ! 17,
        d ! 1 XOR d ! 3 XOR d ! 4 XOR d ! 7 XOR c ! 30 XOR c ! 28 XOR c ! 27 XOR c ! 24 XOR c ! 18,
        d ! 0 XOR d ! 2 XOR d ! 3 XOR d ! 6 XOR c ! 31 XOR c ! 29 XOR c ! 28 XOR c ! 25 XOR c ! 19,
        d ! 1 XOR d ! 2 XOR d ! 5 XOR c ! 30 XOR c ! 29 XOR c ! 26 XOR c ! 20,
        d ! 0 XOR d ! 1 XOR d ! 4 XOR c ! 31 XOR c ! 30 XOR c ! 27 XOR c ! 21,
        d ! 0 XOR d ! 3 XOR c ! 31 XOR c ! 28 XOR c ! 22,
        d ! 2 XOR c ! 23 XOR c ! 29]"

definition cal_crc32 :: "u32 \<Rightarrow> u8 \<Rightarrow> u32" where
  "cal_crc32 crc_result data_8 =
     (let out = crc_out (crc_bits_in data_8) (crc_bits_reg crc_result)
      in foldl (\<lambda>r i. if out ! i \<noteq> 0 then r OR push_bit i 1 else r) 0 [0..<32])"

definition get_crc32 :: "bytes \<Rightarrow> u32" where
  "get_crc32 data =
     (let crc_result = foldl cal_crc32 0xffffffff data;
          val = foldl (\<lambda>v i. if bit crc_result i then v OR push_bit (31 - i) 1 else v) 0 [0..<32]
      in NOT val)"

section \<open>Folded sum\<close>

text \<open>The function-local \<^verbatim>\<open>static long long sum\<close> is passed in and out.\<close>

fun checksum_loop :: "u64 \<Rightarrow> u32 list \<Rightarrow> u64" where
  "checksum_loop acc [] = acc"
| "checksum_loop acc (w # data) = checksum_loop (acc + ucast w) data"

definition checksum :: "u64 \<Rightarrow> u32 list \<Rightarrow> u32 \<Rightarrow> u32 \<times> u64" where
  "checksum acc data init =
     (let acc' = checksum_loop (if init = 0 then 0 else acc) data
      in (NOT (ucast (signed_drop_bit 32 acc') + ucast acc'), acc'))"

section \<open>Reference definitions\<close>

text \<open>The bitwise CRC-8 (reflected polynomial 0xE0) of one byte.\<close>

definition crc8_shift :: "u8 \<Rightarrow> u8" where
  "crc8_shift c = (if bit c 0 then drop_bit 1 c XOR 0xE0 else drop_bit 1 c)"

definition crc8_byte :: "u8 \<Rightarrow> u8" where
  "crc8_byte c = crc8_shift (crc8_shift (crc8_shift (crc8_shift
     (crc8_shift (crc8_shift (crc8_shift (crc8_shift c)))))))"

text \<open>
  The shift register of CRC-32 fed most significant bit first, and the reflected register of the
  usual software CRC-32.
\<close>

definition crc32_shift :: "u32 \<Rightarrow> bool \<Rightarrow> u32" where
  "crc32_shift c b = (if bit c 31 \<noteq> b then 2 * c XOR 0x04C11DB7 else 2 * c)"

definition crc32_lsb :: "u32 \<Rightarrow> u32" where
  "crc32_lsb c = (if bit c 0 then drop_bit 1 c XOR 0xEDB88320 else drop_bit 1 c)"

definition crc32_std_byte :: "u32 \<Rightarrow> u8 \<Rightarrow> u32" where
  "crc32_std_byte c d = crc32_lsb (crc32_lsb (crc32_lsb (crc32_lsb
     (crc32_lsb (crc32_lsb (crc32_lsb (crc32_lsb (c XOR ucast d))))))))"

definition crc32_std :: "bytes \<Rightarrow> u32" where
  "crc32_std data = NOT (foldl crc32_std_byte 0xffffffff data)"

text \<open>Exclusive or on booleans, with the rules that put sums of bits into a normal form.\<close>

definition bxor :: "bool \<Rightarrow> bool \<Rightarrow> bool" where
  "bxor a b \<longleftrightarrow> (a \<noteq> b)"

fun crc8_rows :: "u8 \<Rightarrow> bytes \<Rightarrow> bool" where
  "crc8_rows i [] = True"
| "crc8_rows i (t # ts) = (t = crc8_byte i \<and> crc8_rows (i + 1) ts)"

section \<open>The CRC-8 table\<close>

lemma crc8_tbl_length: "length crc8_tbl = 256"
  by (simp add: crc8_tbl_def)

lemma crc8_shift_inj: "crc8_shift a = crc8_shift b \<Longrightarrow> a = b"
proof (rule bit_word_eqI)
  fix n assume eq: "crc8_shift a = crc8_shift b" and n: "n < LENGTH(8)"
  have top: "bit (crc8_shift c) 7 = bit c 0" for c :: u8
    by (auto simp: crc8_shift_def bit_xor_iff bit_drop_bit_eq u8_bit_beyond)
  have low: "bit c (Suc m) = (bit (crc8_shift c) m \<noteq> (bit c 0 \<and> bit (0xE0 :: u8) m))" if "m < 8" for c :: u8 and m
    using that by (auto simp: crc8_shift_def bit_xor_iff bit_drop_bit_eq)
  show "bit a n = bit b n"
    using n by (cases n) (auto simp: low top [symmetric] eq)
qed

lemma crc8_byte_inj: "crc8_byte a = crc8_byte b \<Longrightarrow> a = b"
  by (auto simp: crc8_byte_def dest!: crc8_shift_inj)

lemma crc8_rows_nth: "crc8_rows i ts \<Longrightarrow> k < length ts \<Longrightarrow> ts ! k = crc8_byte (i + word_of_nat k)"
  by (induction i ts arbitrary: k rule: crc8_rows.induct) (auto simp: nth_Cons' algebra_simps of_nat_diff)

lemma crc8_tbl_rows: "crc8_rows 0 crc8_tbl"
  unfolding crc8_tbl_def by (simp add: crc8_byte_def crc8_shift_def)
lemma crc8_tbl_nth: "crc8_tbl ! unat x = crc8_byte x"
  using crc8_rows_nth [OF crc8_tbl_rows, of "unat x"] u8_unat_less [of x]
  by (simp add: crc8_tbl_length)

lemma crc8_byte_zero: "crc8_byte 0 = 0"
  by (simp add: crc8_byte_def crc8_shift_def)

lemma crc8_byte_eq_0 [simp]: "crc8_byte c = 0 \<longleftrightarrow> c = 0"
  using crc8_byte_inj [of c 0] by (auto simp: crc8_byte_zero)

lemma calculate_crc8_append: "calculate_crc8 c (xs @ ys) = calculate_crc8 (calculate_crc8 c xs) ys"
  by (induction c xs rule: calculate_crc8.induct) auto

lemma calculate_crc8_inj: "calculate_crc8 a xs = calculate_crc8 b xs \<Longrightarrow> a = b"
proof (induction xs arbitrary: a b)
  case (Cons x xs)
  from Cons.prems have "crc8_byte (a XOR x) = crc8_byte (b XOR x)"
    by (auto simp: crc8_tbl_nth dest: Cons.IH)
  then have "(a XOR x) XOR x = (b XOR x) XOR x" by (auto dest: crc8_byte_inj)
  then show ?case by (simp add: xor.assoc)
qed simp

section \<open>The CRC-32 parity equations\<close>

lemma bxor_assoc: "bxor (bxor a b) c = bxor a (bxor b c)" by (auto simp: bxor_def)
lemma bxor_commute: "bxor a b = bxor b a" by (auto simp: bxor_def)
lemma bxor_left_commute: "bxor a (bxor b c) = bxor b (bxor a c)" by (auto simp: bxor_def)
lemma bxor_self: "bxor a a = False" by (auto simp: bxor_def)
lemma bxor_left_self: "bxor a (bxor a b) = b" by (auto simp: bxor_def)
lemma bxor_consts: "bxor False a = a" "bxor a False = a" by (auto simp: bxor_def)
lemmas bxor_ac = bxor_assoc bxor_commute bxor_left_commute bxor_self bxor_left_self bxor_consts

lemma bit_crc32_shift:
  "n < 32 \<Longrightarrow> bit (crc32_shift c b) n =
     bxor (0 < n \<and> bit c (n - 1)) (bit (0x04C11DB7 :: u32) n \<and> bxor (bit c 31) b)"
  by (auto simp: crc32_shift_def bit_xor_iff bit_double_iff bxor_def)

lemma of_bool_xor_bxor: "(of_bool p :: u8) XOR of_bool q = of_bool (bxor p q)"
  by (auto simp: bxor_def)

lemma crc_bits_in_nth: "i < 8 \<Longrightarrow> crc_bits_in d ! i = of_bool (bit d i)"
  by (simp add: crc_bits_in_def and_one_eq bit_iff_odd_drop_bit mod_2_eq_odd)

lemma ucast_odd: "(ucast (w :: u32) :: u8) AND 1 = of_bool (odd w)"
  by (rule bit_word_eqI) (auto simp: bit_and_iff bit_ucast_iff bit_1_iff bit_0 intro: gr0I)

lemma crc_bits_reg_nth: "i < 32 \<Longrightarrow> crc_bits_reg c ! i = of_bool (bit c i)"
  by (simp add: crc_bits_reg_def ucast_odd bit_iff_odd_drop_bit)

lemma foldl_set_bits:
  "bit (foldl (\<lambda>r i. if P i then r OR push_bit i 1 else r) (r0 :: u32) [0..<k]) n
     \<longleftrightarrow> bit r0 n \<or> n < k \<and> n < 32 \<and> P n"
  by (induction k) (auto simp: bit_or_iff bit_exp_iff less_Suc_eq)

lemma bit_cal_crc32:
  "n < 32 \<Longrightarrow> bit (cal_crc32 c d) n \<longleftrightarrow> crc_out (crc_bits_in d) (crc_bits_reg c) ! n \<noteq> 0"
  by (simp add: cal_crc32_def Let_def foldl_set_bits)

lemma cal_crc32_shifts: "cal_crc32 c d = foldl crc32_shift c (map (bit d) [0..<8])"
proof -
  have "list_all (\<lambda>n. bit (cal_crc32 c d) n = bit (foldl crc32_shift c (map (bit d) [0..<8])) n) [0..<32]"
    by (simp add: upt_8 upt_32 bit_cal_crc32 crc_out_def crc_bits_in_nth crc_bits_reg_nth
        of_bool_xor_bxor bit_crc32_shift) (simp add: bxor_ac)
  then show ?thesis by (rule u32_eqI)
qed
lemma bit_crc32_lsb:
  "n < 32 \<Longrightarrow> bit (crc32_lsb c) n =
     bxor (n < 31 \<and> bit c (n + 1)) (bit (0xEDB88320 :: u32) n \<and> bit c 0)"
  using bit_imp_le_length [of c 32]
  by (cases "n = 31") (auto simp: crc32_lsb_def bit_xor_iff bit_drop_bit_eq bxor_def)

lemma crc32_lsb_inj: "crc32_lsb a = crc32_lsb b \<Longrightarrow> a = b"
proof (rule bit_word_eqI)
  fix n assume eq: "crc32_lsb a = crc32_lsb b" and n: "n < LENGTH(32)"
  have top: "bit (crc32_lsb c) 31 = bit c 0" for c
    by (simp add: bit_crc32_lsb bxor_def)
  have low: "bit c (Suc m) = (bit (crc32_lsb c) m \<noteq> (bit (0xEDB88320 :: u32) m \<and> bit c 0))"
    if "m < 31" for c m
    using that by (auto simp: bit_crc32_lsb bxor_def)
  show "bit a n = bit b n"
    using n by (cases n) (auto simp: low top [symmetric] eq)
qed

lemma bit_crc32_seed:
  "n < 32 \<Longrightarrow> bit (word_reverse c XOR ucast (d :: u8)) n = bxor (bit c (31 - n)) (bit d n)"
  for c :: u32
  by (auto simp: bit_xor_iff bit_word_reverse_iff bit_ucast_iff bxor_def)

lemma crc32_reflect:
  "word_reverse (foldl crc32_shift c (map (bit d) [0..<8])) = crc32_std_byte (word_reverse c) d"
proof -
  have "list_all (\<lambda>n. bit (word_reverse (foldl crc32_shift c (map (bit d) [0..<8]))) n
      = bit (crc32_std_byte (word_reverse c) d) n) [0..<32]"
    by (simp add: upt_8 upt_32 bit_word_reverse_iff crc32_std_byte_def bit_crc32_shift bit_crc32_lsb
        bit_crc32_seed u8_bit_beyond numeral_2_eq_2 [symmetric]) (simp add: bxor_ac)
  then show ?thesis by (rule u32_eqI)
qed

lemma cal_crc32_reflect: "word_reverse (cal_crc32 c d) = crc32_std_byte (word_reverse c) d"
  by (simp add: cal_crc32_shifts crc32_reflect)

lemma foldl_set_mirrored:
  "k \<le> 32 \<Longrightarrow> bit (foldl (\<lambda>r i. if P i then r OR push_bit (31 - i) 1 else r) (r0 :: u32) [0..<k]) n
     \<longleftrightarrow> bit r0 n \<or> n < 32 \<and> 31 - n < k \<and> P (31 - n)"
proof (induction k)
  case (Suc k)
  then have "bit (push_bit (31 - k) 1 :: u32) n \<longleftrightarrow> n < 32 \<and> 31 - n = k"
    by (auto simp: bit_exp_iff)
  with Suc show ?case by (auto simp: bit_or_iff less_Suc_eq)
qed simp

lemma foldl_reverse_bits:
  "foldl (\<lambda>v i. if bit c i then v OR push_bit (31 - i) 1 else v) 0 [0..<32] = word_reverse c"
  for c :: u32
  by (rule bit_word_eqI) (auto simp: foldl_set_mirrored bit_word_reverse_iff)

lemma foldl_cal_crc32: "word_reverse (foldl cal_crc32 c data) = foldl crc32_std_byte (word_reverse c) data"
  by (induction data arbitrary: c) (simp_all add: cal_crc32_reflect)

lemma word_reverse_ones: "word_reverse (0xffffffff :: u32) = 0xffffffff"
proof -
  have "(0xffffffff :: u32) = - 1" by simp
  then show ?thesis
    by (simp only:) (rule bit_word_eqI, simp add: bit_word_reverse_iff)
qed

lemma get_crc32_std: "get_crc32 data = crc32_std data"
  by (simp add: get_crc32_def crc32_std_def Let_def foldl_reverse_bits foldl_cal_crc32
      word_reverse_ones)

lemma ucast_ucast_u8: "ucast (ucast (x :: u8) :: u32) = x"
  by (rule bit_word_eqI) (auto simp: bit_ucast_iff)

lemma crc32_std_byte_inj: "crc32_std_byte a x = crc32_std_byte b y \<Longrightarrow> a XOR ucast x = b XOR ucast y"
  by (auto simp: crc32_std_byte_def dest!: crc32_lsb_inj)

lemma crc32_fold_inj: "foldl crc32_std_byte a xs = foldl crc32_std_byte b xs \<Longrightarrow> a = b"
proof (induction xs arbitrary: a b)
  case (Cons x xs)
  then have "a XOR ucast x = b XOR ucast x"
    by (auto dest: crc32_std_byte_inj)
  then have "(a XOR ucast x) XOR ucast x = (b XOR ucast x) XOR ucast x" by simp
  then show ?case by (simp add: xor.assoc)
qed simp

lemma checksum_loop_append: "checksum_loop acc (xs @ ys) = checksum_loop (checksum_loop acc xs) ys"
  by (induction acc xs rule: checksum_loop.induct) auto

text \<open>The published check value of CRC-32, the CRC of the digits 1 to 9.\<close>

lemma crc32_std_check_value:
  "crc32_std [0x31, 0x32, 0x33, 0x34, 0x35, 0x36, 0x37, 0x38, 0x39] = 0xCBF43926"
  by (simp add: crc32_std_def crc32_std_byte_def crc32_lsb_def)

section \<open>Properties\<close>

text \<open>C16. The 32 unrolled parity equations and the bit reversal of \<^verbatim>\<open>get_crc32\<close> compute the standard
  reflected CRC-32 of the buffer, for every buffer.\<close>

theorem get_crc32_is_standard_crc32: "get_crc32 data = crc32_std data"
  by (rule get_crc32_std)

text \<open>\<^verbatim>\<open>get_crc32\<close> tells any two buffers apart that differ in exactly one byte: a stored record
  with one corrupted byte never verifies.\<close>

theorem get_crc32_detects_byte_change:
  "get_crc32 (xs @ a # ys) = get_crc32 (xs @ b # ys) \<longleftrightarrow> a = b"
proof
  assume "get_crc32 (xs @ a # ys) = get_crc32 (xs @ b # ys)"
  then have "crc32_std_byte (foldl crc32_std_byte 0xffffffff xs) a
      = crc32_std_byte (foldl crc32_std_byte 0xffffffff xs) b"
    by (auto simp: get_crc32_std crc32_std_def dest: crc32_fold_inj)
  then have "ucast a = (ucast b :: u32)"
    by (auto simp: word_xor_left_cancel dest!: crc32_std_byte_inj)
  then show "a = b"
    by (metis ucast_ucast_u8)
qed simp

text \<open>The CRC-8 loop over the 256-entry table is the bitwise CRC-8 with polynomial 0xE0.\<close>

theorem calculate_crc8_is_bitwise: "calculate_crc8 c data = foldl (\<lambda>c d. crc8_byte (c XOR d)) c data"
  by (induction c data rule: calculate_crc8.induct) (simp_all add: crc8_tbl_nth)

text \<open>\<^verbatim>\<open>chk_crc8\<close> accepts a block followed by its \<^verbatim>\<open>get_crc8\<close> and rejects it when any one byte of
  the block was altered.\<close>

theorem chk_crc8_accepts_and_detects:
  "chk_crc8 (xs @ b # ys @ [get_crc8 (xs @ a # ys)]) = (if a = b then 0 else -1)"
proof -
  have "calculate_crc8 0 (xs @ b # ys @ [get_crc8 (xs @ a # ys)])
      = crc8_byte (calculate_crc8 0 (xs @ b # ys) XOR calculate_crc8 0 (xs @ a # ys))"
    using calculate_crc8_append [of 0 "xs @ b # ys"] by (simp add: get_crc8_def crc8_tbl_nth)
  also have "\<dots> = 0 \<longleftrightarrow> calculate_crc8 0 (xs @ b # ys) = calculate_crc8 0 (xs @ a # ys)"
    by (simp add: word_xor_eq_0)
  also have "\<dots> \<longleftrightarrow> a = b"
    by (auto simp: calculate_crc8_append crc8_tbl_nth word_xor_left_cancel
        dest!: calculate_crc8_inj crc8_byte_inj)
  finally show ?thesis by (simp add: chk_crc8_def)
qed

text \<open>Summing a buffer in two calls, the second with \<open>init\<close> set, returns what one call on the
  whole buffer returns, whatever an earlier computation left in the static accumulator.\<close>

theorem checksum_resumes:
  "init \<noteq> 0 \<Longrightarrow> checksum (snd (checksum s0 xs 0)) ys init = checksum s1 (xs @ ys) 0"
  by (simp add: checksum_def Let_def checksum_loop_append)

theorem checksum_resumes_witness:
  "checksum (snd (checksum 9 [1, 2] 0)) [3] 1 = checksum 7 ([1, 2] @ [3]) 0"
  by (rule checksum_resumes) simp

end
