(* ===== verification/Str_Utils.thy ===== *)
theory Str_Utils
  imports Prelude
begin

text \<open>
  The string conversions of \<^verbatim>\<open>src/Platform/Common/utils/utils.c\<close>: decimal and hexadecimal parsing,
  dotted-quad addresses, MAC addresses, string duplication and the clock. A string argument is the list
  of bytes from the pointer to the end of the object it points into; the result \<open>None\<close> stands for reading
  past that end (or another undefined step of the C code). Otherwise the result is the returned status and
  what was stored through the output pointers.

  The lemmas show that the parsers invert the printers and characterise what is accepted.
\<close>

section \<open>Characters and decimal numbers\<close>

definition atodec :: "u8 \<Rightarrow> int" where
  "atodec ch = (if 48 \<le> ch \<and> ch \<le> 57 then uint ch - 48 else - 1)"

fun strtodec_loop :: "int \<Rightarrow> int \<Rightarrow> int \<Rightarrow> bytes \<Rightarrow> (int \<times> int option) option" where
  "strtodec_loop sign i dd [] = None"
| "strtodec_loop sign i dd (c # cs) =
    (if c = 0 then Some (if i < 0 then - 1 else 0, Some (wrap_s32 (dd * sign)))
     else let i = atodec c
     in if i < 0 then Some (- 1, None) else strtodec_loop sign i (wrap_s32 (dd * 10 + i)) cs)"

definition strtodec :: "bytes \<Rightarrow> (int \<times> int option) option" where
  "strtodec str = (case str of [] \<Rightarrow> None
     | c # cs \<Rightarrow> if c = 45 then strtodec_loop (- 1) (- 1) 0 cs else strtodec_loop 1 (- 1) 0 str)"

section \<open>Hexadecimal numbers\<close>

definition atohex :: "u8 \<Rightarrow> int" where
  "atohex ch = (if 48 \<le> ch \<and> ch \<le> 57 then uint ch - 48
     else if 97 \<le> ch \<and> ch \<le> 102 then uint ch - 97 + 10
     else if 65 \<le> ch \<and> ch \<le> 70 then uint ch - 65 + 10
     else - 1)"

fun strtohex_loop :: "int \<Rightarrow> nat \<Rightarrow> u32 \<Rightarrow> bytes \<Rightarrow> (int \<times> u32 option) option" where
  "strtohex_loop n i dd [] = None"
| "strtohex_loop n i dd (c # cs) =
    (if c = 0 then Some (if n < 0 then - 1 else 0, Some dd)
     else let n = atohex c
     in if n < 0 then Some (- 1, None)
        else if Suc i > 8 then Some (- 1, None)
        else strtohex_loop n (Suc i) (push_bit 4 dd + word_of_int n) cs)"

definition strtohex :: "bytes \<Rightarrow> (int \<times> u32 option) option" where
  "strtohex str = strtohex_loop (- 1) 0 0 str"

text \<open>\<open>des\<close> is the rest of the destination array; the result is what has been stored in it.\<close>

fun strtohexarray :: "bytes \<Rightarrow> nat \<Rightarrow> bytes \<Rightarrow> (int \<times> bytes) option" where
  "strtohexarray des 0 str = (case str of [] \<Rightarrow> None | c # _ \<Rightarrow> Some (if c = 0 then 0 else - 1, des))"
| "strtohexarray des (Suc cnt) str =
    (case str of [] \<Rightarrow> None
     | c # str \<Rightarrow>
        if atohex c < 0 then Some (- 1, des)
        else case str of [] \<Rightarrow> None
        | c' # str \<Rightarrow>
           if atohex c' < 0 then Some (- 1, des)
           else case des of [] \<Rightarrow> None
           | _ # des \<Rightarrow>
              map_option (\<lambda>(r, ds). (r, (push_bit 4 (word_of_int (atohex c)) AND 0xf0
                                           OR word_of_int (atohex c') AND 0x0f) # ds))
                (strtohexarray des cnt str))"

definition hex_to_digit :: "int \<Rightarrow> int" where
  "hex_to_digit c = (if 48 \<le> c \<and> c \<le> 57 then c - 48
     else if 65 \<le> c \<and> c \<le> 70 then c - (65 - 10)
     else if 97 \<le> c \<and> c \<le> 102 then c - (97 - 10)
     else - 1)"

definition digit_to_hex :: "int \<Rightarrow> int" where
  "digit_to_hex c = (if 0 \<le> c \<and> c \<le> 9 then c + 48 else if 10 \<le> c \<and> c \<le> 15 then c - 10 + 65 else - 1)"

fun hexstr_loop :: "u32 \<Rightarrow> bytes \<Rightarrow> int \<times> u32" where
  "hexstr_loop d [] = (0, d)"
| "hexstr_loop d (b # bs) =
    (let c = hex_to_digit (uint b)
     in if c < 0 then (- 1, d) else hexstr_loop (ucast (word_of_int c :: u8) OR push_bit 4 d) bs)"

definition hexstr_to_unit :: "bytes \<Rightarrow> (int \<times> u32) option" where
  "hexstr_to_unit buf = (if \<not> has_nul buf then None
     else if length (cstr buf) > 8 then Some (- 1, 0) else Some (hexstr_loop 0 (cstr buf)))"

section \<open>Addresses\<close>

text \<open>
  The scanning loop of \<^verbatim>\<open>strtoip\<close>, with \<open>head\<close> and \<open>tail\<close> as positions in the string. The dot that ends a
  number is overwritten by NUL while the number is parsed and put back afterwards, except on an error.
\<close>

function strtoip_loop :: "nat \<Rightarrow> u32 \<Rightarrow> nat \<Rightarrow> nat \<Rightarrow> bytes \<Rightarrow> (bytes + u32 \<times> nat \<times> bytes) option" where
  "strtoip_loop i ip head tail str =
    (if i \<ge> 3 then Some (Inr (ip, head, str))
     else if tail \<ge> length str then None
     else if str ! tail = 46 then
       (let cut = str[tail := 0]
        in case strtodec (drop head cut) of None \<Rightarrow> None
        | Some (r, n) \<Rightarrow>
           if r < 0 then Some (Inl cut)
           else if the n < 0 \<or> the n > 255 then Some (Inl cut)
           else strtoip_loop (Suc i) (push_bit 8 ip + word_of_int (the n)) (Suc tail) (Suc tail) (cut[tail := 46]))
     else strtoip_loop i ip head (Suc tail) str)"
  by pat_completeness auto
termination
  by (relation "measure (\<lambda>(i, ip, head, tail, str). length str - tail)") auto

declare strtoip_loop.simps [simp del]

text \<open>The status, the address if it is stored, and the string as it is left.\<close>

definition strtoip :: "bytes \<Rightarrow> (int \<times> u32 option \<times> bytes) option" where
  "strtoip str = (case strtoip_loop 0 0 0 0 str of None \<Rightarrow> None
     | Some (Inl str) \<Rightarrow> Some (- 1, None, str)
     | Some (Inr (ip, head, str)) \<Rightarrow>
        (case strtodec (drop head str) of None \<Rightarrow> None
         | Some (r, n) \<Rightarrow>
            if r < 0 then Some (- 1, None, str)
            else if the n < 0 \<or> the n > 255 then Some (- 1, None, str)
            else let ip = push_bit 8 ip + word_of_int (the n)
                 in Some (if ip = 0 then - 1 else 0, Some ip, str)))"

text \<open>\<^verbatim>\<open>%d\<close> of a number that is not negative, and \<^verbatim>\<open>%02x\<close> of a byte.\<close>

definition dec_char :: "nat \<Rightarrow> u8" where
  "dec_char n = word_of_nat (48 + n)"

fun print_dec :: "nat \<Rightarrow> bytes" where
  "print_dec n = (if n < 10 then [dec_char n] else print_dec (n div 10) @ [dec_char (n mod 10)])"

declare print_dec.simps [simp del]

definition hex_char :: "nat \<Rightarrow> u8" where
  "hex_char n = (if n < 10 then word_of_nat (48 + n) else word_of_nat (97 + n - 10))"

definition print_02x :: "u8 \<Rightarrow> bytes" where
  "print_02x b = [hex_char (unat b div 16), hex_char (unat b mod 16)]"

definition iptostr :: "u32 \<Rightarrow> bytes" where
  "iptostr ip = print_dec (unat (drop_bit 24 ip AND 0xff)) @ 46 # print_dec (unat (drop_bit 16 ip AND 0xff))
     @ 46 # print_dec (unat (drop_bit 8 ip AND 0xff)) @ 46 # print_dec (unat (drop_bit 0 ip AND 0xff)) @ [0]"

definition mactostr :: "bytes \<Rightarrow> bytes option" where
  "mactostr mac = (if length mac < 6 then None else Some (concat (map print_02x (take 6 mac)) @ [0]))"

section \<open>Conversions through the C library\<close>

definition isdigit :: "u8 \<Rightarrow> bool" where
  "isdigit c \<longleftrightarrow> 48 \<le> c \<and> c \<le> 57"

definition isspace :: "u8 \<Rightarrow> bool" where
  "isspace c \<longleftrightarrow> c = 32 \<or> 9 \<le> c \<and> c \<le> 13"

definition dec_value :: "bytes \<Rightarrow> nat" where
  "dec_value ds = foldl (\<lambda>v d. v * 10 + (unat d - 48)) 0 ds"

text \<open>\<^verbatim>\<open>atoi\<close> of a number that does not fit an \<^verbatim>\<open>int\<close> is undefined.\<close>

definition string_to_uint :: "bytes \<Rightarrow> (int \<times> u32 option) option" where
  "string_to_uint buf = (if \<not> has_nul buf then None
     else let s = cstr buf
     in if length s > 11 \<or> length s = 0 then Some (- 1, None)
        else if \<not> list_all isdigit s then Some (- 1, None)
        else if dec_value s \<ge> 2 ^ 31 then None
        else Some (0, Some (word_of_nat (dec_value s))))"

text \<open>\<^verbatim>\<open>sscanf\<close>'s \<^verbatim>\<open>%u\<close>: blanks, an optional sign, digits; the value of a signed number is negated
  modulo \<open>2 ^ 32\<close> (so is a number too big for 32 bits, which the C standard leaves open). \<open>None\<close> is a
  matching failure.\<close>

definition scan_u :: "bytes \<Rightarrow> (u32 \<times> bytes) option" where
  "scan_u s = (let s = dropWhile isspace s;
       neg = (case s of c # _ \<Rightarrow> c = 45 | [] \<Rightarrow> False);
       s = (case s of c # r \<Rightarrow> if c = 43 \<or> c = 45 then r else s | [] \<Rightarrow> s);
       ds = takeWhile isdigit s
     in if ds = [] then None
        else Some (if neg then - word_of_nat (dec_value ds) else word_of_nat (dec_value ds), dropWhile isdigit s))"

text \<open>\<^verbatim>\<open>sscanf\<close> with \<^verbatim>\<open>%u.%u.%u.%u%c\<close>: the numbers converted and the final character, if there is one.\<close>

fun scan_dotted :: "nat \<Rightarrow> bytes \<Rightarrow> u32 list \<times> u8 option" where
  "scan_dotted k s = (case scan_u s of None \<Rightarrow> ([], None)
     | Some (v, r) \<Rightarrow>
        (case k of 0 \<Rightarrow> ([v], case r of [] \<Rightarrow> None | c # _ \<Rightarrow> Some c)
         | Suc k \<Rightarrow> (case r of c # r \<Rightarrow> if c = 46 then (let (vs, e) = scan_dotted k r in (v # vs, e)) else ([v], None)
                   | [] \<Rightarrow> ([v], None))))"

fun store_quad :: "u32 list \<Rightarrow> bytes \<Rightarrow> int \<times> bytes" where
  "store_quad [] addr = (0, addr)"
| "store_quad (v # vs) addr = (if sint v > 255 then (- 1, addr) else store_quad vs (addr @ [ucast v]))"

text \<open>The status and the bytes stored in \<open>addr\<close>.\<close>

definition string_to_ipaddr :: "bytes \<Rightarrow> (int \<times> bytes) option" where
  "string_to_ipaddr buf = (if \<not> has_nul buf then None
     else let (vs, c) = scan_dotted 3 (cstr buf); rc = length vs + (if c = None then 0 else 1)
     in if rc \<noteq> 4 \<and> (rc \<noteq> 5 \<or> c \<noteq> Some 10) then Some (- 1, [])
        else Some (store_quad vs []))"

section \<open>Duplicates and the clock\<close>

text \<open>The result is the returned pointer: null or the new block.\<close>

definition strdup :: "allocator \<Rightarrow> nat \<Rightarrow> bytes option \<Rightarrow> bytes option option" where
  "strdup heap k s = (case s of None \<Rightarrow> Some None
     | Some b \<Rightarrow>
        if \<not> has_nul b then None
        else (case heap k (length (cstr b) + 1) of None \<Rightarrow> Some None
              | Some blk \<Rightarrow> Some (Some (bsplice 0 (cstr b) (replicate (length blk) 0)))))"

definition strndup :: "allocator \<Rightarrow> nat \<Rightarrow> bytes option \<Rightarrow> nat \<Rightarrow> bytes option option" where
  "strndup heap k s len = (case s of None \<Rightarrow> Some None
     | Some b \<Rightarrow>
        (case heap k (len + 1) of None \<Rightarrow> Some None
         | Some blk \<Rightarrow> if length b < len then None
             else Some (Some (bsplice 0 (take len b) (replicate (length blk) 0)))))"

definition gettimeofday :: "u32 \<Rightarrow> u32 \<times> u32" where
  "gettimeofday current_tick = (current_tick div 100, 10000 * (current_tick mod 100))"

section \<open>Lemmas: decimal numbers\<close>

lemma u8_of_nat_unat: "k < 256 \<Longrightarrow> unat (word_of_nat k :: u8) = k"
  by (simp add: unsigned_of_nat take_bit_eq_mod)

lemma dec_digit:
  assumes "n < 10"
  shows "atodec (dec_char n) = int n" "dec_char n \<noteq> 0" "isdigit (dec_char n)" "unat (dec_char n) = 48 + n"
proof -
  show u: "unat (dec_char n) = 48 + n" unfolding dec_char_def using assms by (intro u8_of_nat_unat) simp
  then have ui: "uint (dec_char n) = int (48 + n)" by (metis uint_nat)
  have "48 \<le> dec_char n" "dec_char n \<le> 57" unfolding word_le_nat_alt u using assms by simp_all
  then show "atodec (dec_char n) = int n" "isdigit (dec_char n)" unfolding atodec_def isdigit_def ui by simp_all
  show "dec_char n \<noteq> 0" using u by auto
qed

lemma wrap_s32_small: "- (2 ^ 31) \<le> x \<Longrightarrow> x < 2 ^ 31 \<Longrightarrow> wrap_s32 x = x"
  unfolding wrap_s32_def by (simp add: signed_take_bit_int_eq_self sint_sbintrunc')

lemma print_dec_digits: "list_all isdigit (print_dec n)" "print_dec n \<noteq> []"
proof (induction n rule: print_dec.induct)
  case (1 n)
  { case 1 show ?case using "1.IH" dec_digit(3) [of n] dec_digit(3) [of "n mod 10"] by (subst print_dec.simps) auto }
  { case 2 show ?case by (subst print_dec.simps) auto }
qed

lemma isdigit_chars: "isdigit c \<Longrightarrow> c \<noteq> 0 \<and> c \<noteq> 45 \<and> c \<noteq> 46 \<and> c \<noteq> 43 \<and> \<not> isspace c"
  by (auto simp: isdigit_def isspace_def word_le_nat_alt)

lemma strtodec_loop_print:
  "n < 2 ^ 31 \<Longrightarrow> strtodec_loop sign i 0 (print_dec n @ r) = strtodec_loop sign (int (n mod 10)) (int n) r"
proof (induction n arbitrary: r rule: print_dec.induct)
  case (1 n)
  show ?case
  proof (cases "n < 10")
    case True
    then show ?thesis
      by (subst print_dec.simps) (simp add: dec_digit Let_def wrap_s32_small)
  next
    case False
    have d: "n mod 10 < 10" "n div 10 < 2 ^ 31" using 1 by simp_all
    have "int (n div 10) * 10 + int (n mod 10) = int n" by presburger
    then show ?thesis
      using False 1 "1.IH" [OF False d(2)] dec_digit [OF d(1)] wrap_s32_small [of "int n"]
      by (subst print_dec.simps) (simp add: Let_def)
  qed
qed

lemma strtodec_print:
  assumes "n < 2 ^ 31"
  shows "strtodec (print_dec n @ 0 # r) = Some (0, Some (int n))"
proof -
  obtain c cs where c: "print_dec n = c # cs" "isdigit c"
    using print_dec_digits [of n] by (cases "print_dec n") auto
  have "strtodec (print_dec n @ 0 # r) = strtodec_loop 1 (- 1) 0 (print_dec n @ 0 # r)"
    using c isdigit_chars [OF c(2)] by (simp add: strtodec_def)
  then show ?thesis
    using strtodec_loop_print [OF assms, of 1 "- 1" "0 # r"] wrap_s32_small [of "int n"] assms by simp
qed

lemma isdigit_atodec: "isdigit c \<Longrightarrow> atodec c = int (unat c - 48)" "\<not> isdigit c \<Longrightarrow> atodec c = - 1"
  by (auto simp: isdigit_def atodec_def word_le_nat_alt of_nat_diff)

lemma dec_value_mono: "v \<le> foldl (\<lambda>v d. v * 10 + (unat d - 48)) v (ds :: bytes)"
proof (induction ds arbitrary: v)
  case (Cons d ds)
  have "v \<le> v * 10 + (unat d - 48)" by simp
  also note Cons [of "v * 10 + (unat d - 48)"]
  finally show ?case by simp
qed simp

lemma strtodec_loop_digits:
  assumes "sign = 1 \<or> sign = - 1" "list_all isdigit s" "foldl (\<lambda>v d. v * 10 + (unat d - 48)) dd s < 2 ^ 31"
  shows "strtodec_loop sign i (int dd) (s @ 0 # r) =
    Some (if s = [] \<and> i < 0 then - 1 else 0, Some (sign * int (foldl (\<lambda>v d. v * 10 + (unat d - 48)) dd s)))"
  using assms(2,3)
proof (induction s arbitrary: i dd)
  case Nil
  then show ?case using assms(1) wrap_s32_small [of "int dd * sign"] by (auto simp: mult.commute)
next
  case (Cons c s)
  let ?v = "dd * 10 + (unat c - 48)"
  have c: "isdigit c" "c \<noteq> 0" using Cons.prems isdigit_chars by auto
  have v: "?v < 2 ^ 31" using Cons.prems(2) dec_value_mono [of ?v s] by simp
  have "wrap_s32 (int dd * 10 + int (unat c - 48)) = int ?v"
    using wrap_s32_small [of "int ?v"] v by (simp add: algebra_simps)
  then show ?case
    using Cons.IH [of ?v "int (unat c - 48)"] Cons.prems c isdigit_atodec(1) [OF c(1)] by (simp add: Let_def)
qed

lemma strtodec_loop_refuses:
  assumes "\<not> list_all isdigit s" "0 \<notin> set s"
  shows "strtodec_loop sign i dd (s @ 0 # r) = Some (- 1, None)"
  using assms
proof (induction s arbitrary: i dd)
  case (Cons c s)
  then show ?case
    using isdigit_atodec [of c] by (cases "isdigit c") (auto simp: Let_def)
qed simp

section \<open>Lemmas: addresses\<close>

lemma strtoip_loop_skip:
  assumes "i < 3" "46 \<notin> set ds"
  shows "strtoip_loop i ip head (length pre) (pre @ ds @ r) = strtoip_loop i ip head (length (pre @ ds)) (pre @ ds @ r)"
  using assms(2)
proof (induction ds arbitrary: pre)
  case Nil
  then show ?case by simp
next
  case (Cons d ds)
  have "strtoip_loop i ip head (length pre) (pre @ (d # ds) @ r) =
      strtoip_loop i ip head (length (pre @ [d])) ((pre @ [d]) @ ds @ r)"
    using assms(1) Cons.prems by (subst strtoip_loop.simps) (auto simp: nth_append)
  then show ?case using Cons.IH [of "pre @ [d]"] Cons.prems by simp
qed

lemma strtoip_loop_number:
  assumes "i < 3" "n \<le> 255" "str = pre @ print_dec n @ 46 # r" "h = length pre"
  shows "strtoip_loop i ip h h str =
    strtoip_loop (Suc i) (push_bit 8 ip + word_of_nat n) (h + length (print_dec n) + 1) (h + length (print_dec n) + 1) str"
proof -
  let ?t = "length (pre @ print_dec n)"
  have "46 \<notin> set (print_dec n)"
    using print_dec_digits(1) [of n] isdigit_chars by (auto simp: list_all_iff)
  then have "strtoip_loop i ip h h str = strtoip_loop i ip h ?t str"
    using strtoip_loop_skip [OF assms(1), of "print_dec n" ip h pre "46 # r"] by (simp add: assms(3,4))
  moreover have "str ! ?t = 46" "?t < length str" by (simp_all add: assms(3) nth_append)
  moreover have "strtodec (drop h (str[?t := 0])) = Some (0, Some (int n))"
    using strtodec_print [of n r] assms(2) by (simp add: assms(3,4) list_update_append)
  ultimately show ?thesis
    using assms(1,2,4) by (subst (asm) (2) strtoip_loop.simps) (simp add: Let_def list_update_same_conv assms(3) list_update_append)
qed

lemma quad_bytes_join:
  "push_bit 8 (push_bit 8 (push_bit 8 (push_bit 8 0 + (drop_bit 24 ip AND 0xff)) + (drop_bit 16 ip AND 0xff))
     + (drop_bit 8 ip AND 0xff)) + (ip AND 0xff) = ip" for ip :: u32
proof -
  have j: "push_bit 8 a + (b AND 0xff) = push_bit 8 a OR (b AND 0xff)" for a b :: u32
  proof -
    have "(0xff :: u32) = mask 8" by (simp add: mask_eq_exp_minus_1)
    show ?thesis unfolding \<open>0xff = mask 8\<close> by (intro disjunctive_add) (auto simp: bit_simps)
  qed
  show ?thesis unfolding j by (rule u32_eqI) (simp add: upt_32 bit_simps)
qed

lemma byte_le_255: "unat (x AND 0xff :: u32) \<le> 255"
proof -
  have "x AND 0xff \<le> 0xff" by (rule word_and_le1)
  then show ?thesis by (simp add: word_le_nat_alt)
qed

lemma strtoip_quad:
  assumes "a \<le> 255" "b \<le> 255" "c \<le> 255" "d \<le> 255"
    and "str = print_dec a @ 46 # print_dec b @ 46 # print_dec c @ 46 # print_dec d @ 0 # r"
    and "ip = push_bit 8 (push_bit 8 (push_bit 8 (push_bit 8 0 + word_of_nat a) + word_of_nat b) + word_of_nat c) + word_of_nat d"
  shows "strtoip str = Some (if ip = 0 then - 1 else 0, Some ip, str)"
proof -
  let ?h1 = "length (print_dec a) + 1" and ?h2 = "length (print_dec a) + 1 + length (print_dec b) + 1"
  let ?h3 = "?h2 + length (print_dec c) + 1"
  let ?i1 = "push_bit 8 0 + word_of_nat a :: u32"
  let ?i2 = "push_bit 8 ?i1 + word_of_nat b" let ?i3 = "push_bit 8 ?i2 + word_of_nat c"
  have "strtoip_loop 0 0 0 0 str = strtoip_loop 1 ?i1 ?h1 ?h1 str"
    using strtoip_loop_number [OF _ assms(1), of 0 str "[]" _ 0 0] assms(5) by simp
  also have "\<dots> = strtoip_loop 2 ?i2 ?h2 ?h2 str"
    using strtoip_loop_number [OF _ assms(2), of 1 str "print_dec a @ [46]" _ ?h1 ?i1] assms(5) by (simp add: numeral_2_eq_2)
  also have "\<dots> = strtoip_loop 3 ?i3 ?h3 ?h3 str"
    using strtoip_loop_number [OF _ assms(3), of 2 str "print_dec a @ 46 # print_dec b @ [46]" _ ?h2 ?i2] assms(5)
    by (simp add: numeral_3_eq_3 numeral_2_eq_2)
  also have "\<dots> = Some (Inr (?i3, ?h3, str))"
    by (subst strtoip_loop.simps) simp
  finally have "strtoip_loop 0 0 0 0 str = Some (Inr (?i3, ?h3, str))" .
  moreover have "drop ?h3 str = print_dec d @ 0 # r"
  proof -
    let ?pre = "print_dec a @ 46 # print_dec b @ 46 # print_dec c @ [46]"
    have "str = ?pre @ print_dec d @ 0 # r" "?h3 = length ?pre" by (simp_all add: assms(5))
    then show ?thesis by (metis append_eq_conv_conj)
  qed
  ultimately show ?thesis
    using strtodec_print [of d r] assms(4,6) by (simp add: strtoip_def Let_def)
qed

lemma hex_char_ok: "n < 16 \<Longrightarrow> atohex (hex_char n) = int n \<and> hex_char n \<noteq> 0"
proof -
  have "list_all (\<lambda>n. atohex (hex_char n) = int n \<and> hex_char n \<noteq> 0) [0..<16]" by code_simp
  then show "n < 16 \<Longrightarrow> ?thesis" by (simp add: list_all_iff)
qed

lemma print_02x_ok:
  "push_bit 4 (word_of_nat (unat b div 16)) AND 0xf0 OR word_of_nat (unat b mod 16) AND 0x0f = b" for b :: u8
proof -
  have "list_all (\<lambda>n. push_bit 4 (word_of_nat (n div 16)) AND 0xf0 OR word_of_nat (n mod 16) AND 0x0f = (word_of_nat n :: u8)) [0..<256]"
    by code_simp
  then show ?thesis using u8_unat_less [of b] by (auto simp: list_all_iff dest: bspec [of _ _ "unat b"])
qed

lemma strtohexarray_print:
  "length des \<ge> length bs \<Longrightarrow>
    strtohexarray des (length bs) (concat (map print_02x bs) @ 0 # r) = Some (0, bs @ drop (length bs) des)"
proof (induction bs arbitrary: des)
  case Nil
  then show ?case by simp
next
  case (Cons b bs)
  obtain x xs where des: "des = x # xs" using Cons.prems by (cases des) auto
  have "unat b div 16 < 16" "unat b mod 16 < 16"
    using u8_unat_less [of b] by (simp_all add: less_mult_imp_div_less)
  then show ?case
    using Cons des hex_char_ok print_02x_ok [of b] by (simp add: print_02x_def)
qed

section \<open>Lemmas: sscanf\<close>

lemma dec_value_snoc: "dec_value (ds @ [d]) = dec_value ds * 10 + (unat d - 48)"
  by (simp add: dec_value_def)

lemma dec_value_print: "dec_value (print_dec n) = n"
proof (induction n rule: print_dec.induct)
  case (1 n)
  show ?case
  proof (cases "n < 10")
    case True
    then show ?thesis by (subst print_dec.simps) (simp add: dec_value_def dec_digit)
  next
    case False
    then show ?thesis
      using "1.IH" dec_digit(4) [of "n mod 10"] by (subst print_dec.simps) (simp add: dec_value_snoc)
  qed
qed

lemma scan_u_print:
  assumes "r = [] \<or> \<not> isdigit (hd r)"
  shows "scan_u (print_dec n @ r) = Some (word_of_nat n, r)"
proof -
  obtain c cs where c: "print_dec n = c # cs" "isdigit c"
    using print_dec_digits [of n] by (cases "print_dec n") auto
  have all: "\<forall>x \<in> set (print_dec n). isdigit x" using print_dec_digits(1) by (simp add: list_all_iff)
  have "takeWhile isdigit r = []" "dropWhile isdigit r = r" using assms by (cases r; simp)+
  then have "takeWhile isdigit (print_dec n @ r) = print_dec n" "dropWhile isdigit (print_dec n @ r) = r"
    using all by (simp_all add: takeWhile_append2 dropWhile_append2)
  then show ?thesis
    using c isdigit_chars [OF c(2)] dec_value_print [of n] by (simp add: scan_u_def Let_def)
qed

lemma not_isdigit_dot [simp]: "\<not> isdigit 46" "\<not> isdigit 10"
  by (simp_all add: isdigit_def word_le_nat_alt)

lemma print_dec_no_nul: "0 \<notin> set (print_dec n)"
  using print_dec_digits(1) [of n] isdigit_chars by (auto simp: list_all_iff)

lemma sint_byte: "n \<le> 255 \<Longrightarrow> sint (word_of_nat n :: u32) = int n"
  using wrap_s32_small [of "int n"] by (simp add: wrap_s32_def)

lemma scan_quad:
  assumes "e = [] \<or> \<not> isdigit (hd e)"
  shows "scan_dotted 3 (print_dec a @ 46 # print_dec b @ 46 # print_dec c @ 46 # print_dec d @ e) =
    ([word_of_nat a, word_of_nat b, word_of_nat c, word_of_nat d], case e of [] \<Rightarrow> None | x # _ \<Rightarrow> Some x)"
  using assms by (simp add: numeral_3_eq_3 scan_u_print)

lemma quad_byte: "ucast (x AND 0xff) = (ucast x :: u8)" for x :: u32
proof -
  have m: "(0xff :: u32) = mask 8" by (simp add: mask_eq_exp_minus_1)
  show ?thesis unfolding m by (auto intro!: bit_word_eqI simp: bit_simps)
qed

lemma ipaddr_quad:
  assumes "e = [] \<or> e = [10]"
  shows "string_to_ipaddr (print_dec (unat (drop_bit 24 ip AND 0xff)) @ 46 # print_dec (unat (drop_bit 16 ip AND 0xff))
     @ 46 # print_dec (unat (drop_bit 8 ip AND 0xff)) @ 46 # print_dec (unat (ip AND 0xff)) @ e @ [0]) = Some (0, rev (le32 ip))"
    (is "string_to_ipaddr (?a @ 46 # ?b @ 46 # ?c @ 46 # ?d @ e @ [0]) = _")
proof -
  have c: "cstr (?a @ 46 # ?b @ 46 # ?c @ 46 # ?d @ e @ [0]) = ?a @ 46 # ?b @ 46 # ?c @ 46 # ?d @ e"
    using cstr_append_nul [of "?a @ 46 # ?b @ 46 # ?c @ 46 # ?d @ e" "[]"] assms print_dec_no_nul by auto
  have e: "e = [] \<or> \<not> isdigit (hd e)" using assms by auto
  have s: "\<not> sint (word_of_nat (unat (x AND 0xff)) :: u32) > 255" for x :: u32
    using sint_byte [OF byte_le_255 [of x]] byte_le_255 [of x] by linarith
  show ?thesis
    unfolding string_to_ipaddr_def Let_def c scan_quad [OF e] has_nul_def
    using assms s by (auto simp: quad_byte le32_def)
qed

section \<open>Properties\<close>

text \<open>C18. \<^verbatim>\<open>strtoip\<close> reads back every address \<^verbatim>\<open>iptostr\<close> prints and leaves the string as it was; 0.0.0.0
  alone is reported as an error, with the address stored all the same.\<close>

theorem strtoip_iptostr:
  "strtoip (iptostr ip @ r) = Some (if ip = 0 then - 1 else 0, Some ip, iptostr ip @ r)"
proof (rule strtoip_quad)
  show "iptostr ip @ r = print_dec (unat (drop_bit 24 ip AND 0xff)) @ 46 # print_dec (unat (drop_bit 16 ip AND 0xff))
     @ 46 # print_dec (unat (drop_bit 8 ip AND 0xff)) @ 46 # print_dec (unat (ip AND 0xff)) @ 0 # r"
    by (simp add: iptostr_def)
  show "ip = push_bit 8 (push_bit 8 (push_bit 8 (push_bit 8 0 + word_of_nat (unat (drop_bit 24 ip AND 0xff)))
      + word_of_nat (unat (drop_bit 16 ip AND 0xff))) + word_of_nat (unat (drop_bit 8 ip AND 0xff)))
      + word_of_nat (unat (ip AND 0xff))"
  proof -
    have u: "word_of_nat (unat x) = x" for x :: u32 by simp
    show ?thesis unfolding u using quad_bytes_join [of ip] by (rule sym)
  qed
qed (rule byte_le_255)+

text \<open>\<^verbatim>\<open>strtohexarray\<close> reads back the six bytes of every MAC address \<^verbatim>\<open>mactostr\<close> prints.\<close>

theorem strtohexarray_mactostr:
  assumes "length mac = 6" "6 \<le> length des" "mactostr mac = Some str"
  shows "strtohexarray des 6 (str @ r) = Some (0, mac @ drop 6 des)"
  using strtohexarray_print [of mac des r] assms by (auto simp: mactostr_def split: if_splits)

theorem strtohexarray_mactostr_witness:
  "mactostr [0, 0x1a, 2, 3, 4, 0xff] = Some (chr_bytes ''001a020304ff'' @ [0])
    \<and> strtohexarray [9, 9, 9, 9, 9, 9] 6 (chr_bytes ''001a020304ff'' @ [0]) = Some (0, [0, 0x1a, 2, 3, 4, 0xff])"
proof -
  have m: "mactostr [0, 0x1a, 2, 3, 4, 0xff] = Some (chr_bytes ''001a020304ff'' @ [0])" by code_simp
  show ?thesis
    using strtohexarray_mactostr [OF _ _ m, of "[9, 9, 9, 9, 9, 9]" "[]"] m by simp
qed

text \<open>\<^verbatim>\<open>strtodec\<close> on a string with an optional minus sign: it accepts the non-empty strings of decimal
  digits and stores their value, signed; every other string is refused, and then nothing is stored unless
  there was no digit at all.\<close>

theorem strtodec_decimal:
  assumes "0 \<notin> set s" "list_all isdigit s \<longrightarrow> dec_value s < 2 ^ 31" "neg \<or> s = [] \<or> hd s \<noteq> 45"
  shows "strtodec ((if neg then 45 # s else s) @ 0 # r) =
    (if s = [] then Some (- 1, Some 0)
     else if list_all isdigit s then Some (0, Some ((if neg then - 1 else 1) * int (dec_value s)))
     else Some (- 1, None))"
proof -
  have "strtodec ((if neg then 45 # s else s) @ 0 # r) = strtodec_loop (if neg then - 1 else 1) (- 1) 0 (s @ 0 # r)"
    using assms(3) by (cases s) (auto simp: strtodec_def)
  then show ?thesis
    using strtodec_loop_digits [of "if neg then - 1 else 1" s 0 "- 1" r] strtodec_loop_refuses [of s _ "- 1" 0 r] assms(1,2)
    by (auto simp: dec_value_def)
qed

theorem strtodec_decimal_witness:
  "strtodec (chr_bytes ''-120'' @ [0]) = Some (0, Some (- 120))"
proof -
  have s: "chr_bytes ''-120'' = 45 # chr_bytes ''120''" "dec_value (chr_bytes ''120'') = 120"
    "list_all isdigit (chr_bytes ''120'')" "0 \<notin> set (chr_bytes ''120'')" "chr_bytes ''120'' \<noteq> []"
    by (simp_all add: chr_bytes_def dec_value_def isdigit_def of_char_def)
  show ?thesis
    using strtodec_decimal [of "chr_bytes ''120''" True "[]"] s by simp
qed

text \<open>\<^verbatim>\<open>string_to_ipaddr\<close> accepts every printed address, alone or ended by a newline, and stores its four
  bytes with the first number first.\<close>

theorem string_to_ipaddr_iptostr:
  "string_to_ipaddr (iptostr ip) = Some (0, rev (le32 ip))
    \<and> string_to_ipaddr (butlast (iptostr ip) @ [10, 0]) = Some (0, rev (le32 ip))"
  using ipaddr_quad [of "[]" ip] ipaddr_quad [of "[10]" ip]
  by (simp add: iptostr_def butlast_append)

text \<open>\<^verbatim>\<open>string_to_ipaddr\<close> also accepts numbers with a minus sign, which are not addresses.\<close>

theorem string_to_ipaddr_accepts_negative:
  "string_to_ipaddr (chr_bytes ''-1.2.-3.4'' @ [0]) = Some (0, [255, 2, 253, 4])"
  by code_simp

end
