(* ===== verification/Nor_Chip.thy ===== *)
theory Nor_Chip
  imports Prelude
begin

text \<open>
  The serial flash behind the driver \<^verbatim>\<open>src/Platform/Drivers/internalflash/wm_internal_fls.c\<close>. The
  controller and the chip are hardware, so they are a parameter of the driver's model: a function
  \<open>spi\<close> that runs one transaction. The driver stores a command word at 0x40002000 and then an
  address word at 0x40002004, which starts the transaction; the data window at 0x40002200 holds the
  bytes to be sent and afterwards the bytes received.

  The locale \<open>nor_area\<close> states what the driver relies on, as flash data sheets document it: the
  identification command, reads, the write-enable latch, page programming that only clears bits, and
  sector erase that sets them. Program and erase are promised above the write-protected area only,
  a whole number of sectors. \<open>keep\<close> is the part of the chip that these transactions leave alone, on which the protected
  area [0, low) may depend; \<open>nor_chip\<close> is the case of [0, 0x2000). The record \<open>nor\<close> with \<open>nor_exec\<close> is a chip that obeys these laws.
\<close>

type_synonym 'd spi = "u32 \<Rightarrow> u32 \<Rightarrow> bytes \<Rightarrow> 'd \<Rightarrow> bytes \<times> 'd"

text \<open>The address word of a transaction and the contents of a range of the chip.\<close>

definition spi_addr :: "u32 \<Rightarrow> u32" where
  "spi_addr addr = 0x10000000 OR push_bit 8 (addr AND 0xFFFFF)"

definition mem_bytes :: "(nat \<Rightarrow> u8) \<Rightarrow> nat \<Rightarrow> nat \<Rightarrow> bytes" where
  "mem_bytes m a n = map (\<lambda>i. m (a + i)) [0..<n]"

text \<open>Replacing a range, and blanking the 4096-byte sector that holds an address.\<close>

definition mem_write :: "nat \<Rightarrow> bytes \<Rightarrow> (nat \<Rightarrow> u8) \<Rightarrow> (nat \<Rightarrow> u8)" where
  "mem_write a buf m = (\<lambda>i. if a \<le> i \<and> i < a + length buf then buf ! (i - a) else m i)"

definition mem_erase :: "nat \<Rightarrow> (nat \<Rightarrow> u8) \<Rightarrow> (nat \<Rightarrow> u8)" where
  "mem_erase a m = (\<lambda>i. if i div 4096 = a div 4096 then 0xFF else m i)"

definition mem_program :: "nat \<Rightarrow> bytes \<Rightarrow> (nat \<Rightarrow> u8) \<Rightarrow> (nat \<Rightarrow> u8)" where
  "mem_program a buf m = (\<lambda>i. if a \<le> i \<and> i < a + length buf then m i AND buf ! (i - a) else m i)"

section \<open>The contract\<close>

locale nor_area =
  fixes spi :: "'d spi"
    and mem :: "'d \<Rightarrow> nat \<Rightarrow> u8"
    and wel :: "'d \<Rightarrow> bool"
    and ident :: "'d \<Rightarrow> u32"
    and keep :: "'d \<Rightarrow> 'k"
    and low :: "'k \<Rightarrow> nat"
  assumes window_length: "length (fst (spi cmd addr w d)) = length w"
    and ident_const: "ident (snd (spi cmd addr w d)) = ident d"
    and read_ident: "4 \<le> length w \<Longrightarrow> spi 0x2c09F 0x10000000 w d = (w', d') \<Longrightarrow>
      de32 (take 4 w') AND 0xFFFFFF = ident d \<and> mem d' = mem d \<and> keep d' = keep d"
    and read_data: "1 \<le> n \<Longrightarrow> n \<le> 1024 \<Longrightarrow> n \<le> length w \<Longrightarrow> unat (a AND 0xFFFFF) + n \<le> 2 ^ 20 \<Longrightarrow>
      spi (0xBC00C00B OR push_bit 16 ((word_of_nat n - 1) AND 0x3FF)) (spi_addr a) w d = (w', d') \<Longrightarrow>
      take n w' = mem_bytes (mem d) (unat (a AND 0xFFFFF)) n \<and> mem d' = mem d \<and> keep d' = keep d"
    and write_enable: "spi 0x6 0x10000000 w d = (w', d') \<Longrightarrow> w' = w \<and> wel d' \<and> mem d' = mem d \<and> keep d' = keep d"
    and program_page: "wel d \<Longrightarrow> 256 \<le> length w \<Longrightarrow> low (keep d) \<le> unat (a AND 0xFFFFF) \<Longrightarrow>
      256 dvd unat (a AND 0xFFFFF) \<Longrightarrow>
      spi (0x80009002 OR push_bit 16 (256 - 1)) (spi_addr a) w d = (w', d') \<Longrightarrow>
      mem d' = mem_program (unat (a AND 0xFFFFF)) (take 256 w) (mem d) \<and> keep d' = keep d"
    and erase_sector: "wel d \<Longrightarrow> low (keep d) \<le> unat (a AND 0xFFFFF) \<Longrightarrow>
      spi 0x80000820 (spi_addr a) w d = (w', d') \<Longrightarrow>
      mem d' = mem_erase (unat (a AND 0xFFFFF)) (mem d) \<and> keep d' = keep d"
    and low_sector: "low k \<le> p \<Longrightarrow> low k \<le> p - p mod 4096"

text \<open>A chip whose first two sectors are protected.\<close>

locale nor_chip = nor_area spi mem wel ident "\<lambda>_. ()" "\<lambda>_. 0x2000"
  for spi :: "'d spi" and mem :: "'d \<Rightarrow> nat \<Rightarrow> u8" and wel :: "'d \<Rightarrow> bool" and ident :: "'d \<Rightarrow> u32"

section \<open>A chip that obeys the contract\<close>

record nor =
  nor_mem :: "nat \<Rightarrow> u8"
  nor_wel :: bool
  nor_ident :: u32

definition nor_exec :: "nor spi" where
  "nor_exec cmd addr w d =
    (let opcode = cmd AND 0xFF;
         a = unat (drop_bit 8 addr AND 0xFFFFF);
         n = Suc (unat (drop_bit 16 cmd AND 0x3FF))
     in if opcode = 0x9F \<and> 4 \<le> length w then (bsplice 0 (le32 (nor_ident d)) w, d)
        else if opcode = 0x0B \<or> opcode = 0xEB then
          (if n \<le> length w then (bsplice 0 (mem_bytes (nor_mem d) a n) w, d) else (w, d))
        else if opcode = 0x06 then (w, d\<lparr>nor_wel := True\<rparr>)
        else if opcode = 0x02 then
          (if nor_wel d then (w, d\<lparr>nor_mem := mem_program a (take n w) (nor_mem d), nor_wel := False\<rparr>)
           else (w, d))
        else if opcode = 0x20 then
          (if nor_wel d then (w, d\<lparr>nor_mem := mem_erase a (nor_mem d), nor_wel := False\<rparr>) else (w, d))
        else (w, d))"

definition blank_nor :: nor where
  "blank_nor = \<lparr>nor_mem = (\<lambda>_. 0xFF), nor_wel = False, nor_ident = 0x1440C8\<rparr>"

section \<open>Lemmas on memory contents\<close>

lemma length_mem_bytes [simp]: "length (mem_bytes m a n) = n"
  by (simp add: mem_bytes_def)

lemma nth_mem_bytes [simp]: "i < n \<Longrightarrow> mem_bytes m a n ! i = m (a + i)"
  by (simp add: mem_bytes_def)

lemma mem_bytes_0 [simp]: "mem_bytes m a 0 = []"
  by (simp add: mem_bytes_def)

lemma mem_bytes_add: "mem_bytes m a (k + n) = mem_bytes m a k @ mem_bytes m (a + k) n"
  by (rule nth_equalityI) (auto simp: nth_append)

lemma take_mem_bytes [simp]: "k \<le> n \<Longrightarrow> take k (mem_bytes m a n) = mem_bytes m a k"
  by (rule nth_equalityI) auto

lemma drop_mem_bytes: "k \<le> n \<Longrightarrow> drop k (mem_bytes m a n) = mem_bytes m (a + k) (n - k)"
  by (rule nth_equalityI) (auto simp: add.assoc)

lemma mem_bytes_write_same [simp]: "n = length buf \<Longrightarrow> mem_bytes (mem_write a buf m) a n = buf"
  by (rule nth_equalityI) (auto simp: mem_write_def)

lemma mem_bytes_write_other:
  "b + n \<le> a \<or> a + length buf \<le> b \<Longrightarrow> mem_bytes (mem_write a buf m) b n = mem_bytes m b n"
  by (rule nth_equalityI) (auto simp: mem_write_def)

lemma mem_write_append: "mem_write (a + length xs) ys (mem_write a xs m) = mem_write a (xs @ ys) m"
  by (auto simp: mem_write_def nth_append fun_eq_iff)

lemma mem_write_Nil [simp]: "mem_write a [] m = m"
  by (auto simp: mem_write_def fun_eq_iff)

lemma mem_program_append:
  "b = a + length xs \<Longrightarrow> mem_program b ys (mem_program a xs m) = mem_program a (xs @ ys) m"
  by (auto simp: mem_program_def nth_append fun_eq_iff)

lemma mem_program_Nil [simp]: "mem_program a [] m = m"
  by (auto simp: mem_program_def fun_eq_iff)

text \<open>Programming a whole erased sector writes it; merging a range into it writes the range.\<close>

lemma sector_iff: "i div 4096 = a div 4096 \<longleftrightarrow> a \<le> i \<and> i < a + 4096" if "4096 dvd a" for a i :: nat
  using that by (auto elim!: dvdE simp: div_nat_eqI)

lemma mem_program_erased:
  assumes "4096 dvd a" "length c = 4096"
  shows "mem_program a c (mem_erase a m) = mem_write a c m"
  using assms by (auto simp: mem_program_def mem_erase_def mem_write_def sector_iff fun_eq_iff)

lemma mem_write_merge:
  assumes "off + length data \<le> n"
  shows "mem_write a (bsplice off data (mem_bytes m a n)) m = mem_write (a + off) data m"
proof
  fix i
  show "mem_write a (bsplice off data (mem_bytes m a n)) m i = mem_write (a + off) data m i"
    using assms by (auto simp: mem_write_def nth_bsplice diff_diff_left)
qed

lemma nor_decode_read:
  "drop_bit 16 (0xBC00C00B OR push_bit 16 ((x :: u32) AND 0x3FF)) AND 0x3FF = x AND 0x3FF"
  by (rule u32_eqI) (simp add: upt_32 bit_simps)

lemma nor_opcode_read: "(0xBC00C00B OR push_bit 16 ((x :: u32) AND 0x3FF)) AND 0xFF = 0x0B"
  by (rule u32_eqI) (simp add: upt_32 bit_simps)

lemma nor_decode_addr: "drop_bit 8 (spi_addr a) AND 0xFFFFF = a AND 0xFFFFF"
  unfolding spi_addr_def
  by (rule u32_eqI) (simp add: upt_32 bit_simps)

lemma nor_decode_len:
  assumes "1 \<le> n" "n \<le> 1024"
  shows "Suc (unat ((word_of_nat n - 1 :: u32) AND 0x3FF)) = n"
proof -
  have "(word_of_nat n - 1 :: u32) = word_of_nat (n - 1)"
    using assms by simp
  moreover have "(word_of_nat (n - 1) :: u32) AND 0x3FF = take_bit 10 (word_of_nat (n - 1))"
    by (simp add: take_bit_eq_mask mask_eq_exp_minus_1)
  ultimately have "unat ((word_of_nat n - 1 :: u32) AND 0x3FF) = take_bit 10 (take_bit 32 (n - 1))"
    by (simp add: unsigned_take_bit_eq unsigned_of_nat)
  also have "\<dots> = n - 1"
    using assms by (simp add: take_bit_eq_mod)
  finally show ?thesis using assms by simp
qed

interpretation nor: nor_chip nor_exec nor_mem nor_wel "\<lambda>d. nor_ident d AND 0xFFFFFF"
proof unfold_locales
  fix cmd addr w and d :: nor
  show "length (fst (nor_exec cmd addr w d)) = length w"
    by (auto simp: nor_exec_def Let_def)
next
  fix cmd addr w and d :: nor
  show "nor_ident (snd (nor_exec cmd addr w d)) AND 0xFFFFFF = nor_ident d AND 0xFFFFFF"
    by (auto simp: nor_exec_def Let_def)
next
  fix w w' and d d' :: nor
  assume "4 \<le> length w" "nor_exec 0x2c09F 0x10000000 w d = (w', d')"
  then show "de32 (take 4 w') AND 0xFFFFFF = nor_ident d AND 0xFFFFFF \<and> nor_mem d' = nor_mem d \<and> () = ()"
    by (auto simp: nor_exec_def bsplice_def)
next
  fix n w w' a and d d' :: nor
  assume n: "1 \<le> n" "n \<le> 1024" "n \<le> length w"
    and ex: "nor_exec (0xBC00C00B OR push_bit 16 ((word_of_nat n - 1) AND 0x3FF)) (spi_addr a) w d = (w', d')"
  show "take n w' = mem_bytes (nor_mem d) (unat (a AND 0xFFFFF)) n \<and> nor_mem d' = nor_mem d \<and> () = ()"
    using ex n unfolding nor_exec_def Let_def nor_opcode_read nor_decode_read nor_decode_addr
    by (auto simp: nor_decode_len bsplice_def)
next
  fix w w' and d d' :: nor
  assume "nor_exec 0x6 0x10000000 w d = (w', d')"
  then show "w' = w \<and> nor_wel d' \<and> nor_mem d' = nor_mem d \<and> () = ()"
    by (auto simp: nor_exec_def)
next
  fix w w' a and d d' :: nor
  assume "nor_wel d" "nor_exec (0x80009002 OR push_bit 16 (256 - 1)) (spi_addr a) w d = (w', d')"
  then show "nor_mem d' = mem_program (unat (a AND 0xFFFFF)) (take 256 w) (nor_mem d) \<and> () = ()"
    unfolding nor_exec_def Let_def nor_decode_addr by auto
next
  fix w w' a and d d' :: nor
  assume "nor_wel d" "nor_exec 0x80000820 (spi_addr a) w d = (w', d')"
  then show "nor_mem d' = mem_erase (unat (a AND 0xFFFFF)) (nor_mem d) \<and> () = ()"
    unfolding nor_exec_def Let_def nor_decode_addr by auto
next
  fix a :: nat
  assume "0x2000 \<le> a"
  then have "2 \<le> a div 4096" by simp
  then show "0x2000 \<le> a - a mod 4096" by (simp add: minus_mod_eq_div_mult)
qed

end
