(* ===== verification/Internal_Flash.thy ===== *)
theory Internal_Flash
  imports Nor_Chip
begin

text \<open>
  The internal flash driver \<^verbatim>\<open>src/Platform/Drivers/internalflash/wm_internal_fls.c\<close>. The record
  \<open>fls\<close> holds the driver's static variables (\<^verbatim>\<open>inside_fls\<close>, \<^verbatim>\<open>gsflscache\<close>, \<^verbatim>\<open>gsSecOffset\<close>,
  \<^verbatim>\<open>gsSector\<close>), the count of its semaphore, the data window of the controller and the chip. Every
  function takes the controller \<open>spi\<close>, and those that allocate take the allocator \<open>heap\<close>.
  A destination buffer is passed in and returned; a null pointer is \<open>None\<close>.

  The lemmas show that \<^verbatim>\<open>tls_fls_read\<close> returns the addressed bytes, that
  \<^verbatim>\<open>tls_fls_write\<close> (read, erase, merge, program, sector by sector) replaces exactly the addressed
  range, that \<^verbatim>\<open>tls_fls_erase\<close> blanks one sector, and which requests are refused. The locale
  \<open>flash_store\<close> is the contract the rest of the firmware uses; the driver is shown to provide it.
\<close>

record 'd fls =
  win :: bytes
  chip :: 'd
  inside_fls :: bool
  fls_sem :: int
  gsflscache :: "bytes option"
  gsSecOffset :: u32
  gsSector :: u32
  allocs :: nat

section \<open>Status codes and constants\<close>

definition TLS_FLS_STATUS_OK :: int where "TLS_FLS_STATUS_OK = 0"
definition TLS_FLS_STATUS_EINVAL :: int where "TLS_FLS_STATUS_EINVAL = 1"
definition TLS_FLS_STATUS_EBUSY :: int where "TLS_FLS_STATUS_EBUSY = 2"
definition TLS_FLS_STATUS_EPERM :: int where "TLS_FLS_STATUS_EPERM = 3"
definition TLS_FLS_STATUS_ENOMEM :: int where "TLS_FLS_STATUS_ENOMEM = 6"

lemmas fls_status_defs = TLS_FLS_STATUS_OK_def TLS_FLS_STATUS_EINVAL_def TLS_FLS_STATUS_EBUSY_def
  TLS_FLS_STATUS_EPERM_def TLS_FLS_STATUS_ENOMEM_def

section \<open>Transactions\<close>

definition spi_run :: "'d spi \<Rightarrow> u32 \<Rightarrow> u32 \<Rightarrow> 'd fls \<Rightarrow> 'd fls" where
  "spi_run spi cmd addr s = (let (w, d) = spi cmd addr (win s) (chip s) in s\<lparr>win := w, chip := d\<rparr>)"

definition win_word :: "'d fls \<Rightarrow> u32" where
  "win_word s = de32 (take 4 (win s))"

definition win_put :: "bytes \<Rightarrow> 'd fls \<Rightarrow> 'd fls" where
  "win_put bs s = s\<lparr>win := bsplice 0 bs (win s)\<rparr>"

definition tls_mem_alloc :: "allocator \<Rightarrow> nat \<Rightarrow> 'd fls \<Rightarrow> bytes option \<times> 'd fls" where
  "tls_mem_alloc heap n s = (heap (allocs s) n, s\<lparr>allocs := Suc (allocs s)\<rparr>)"

definition sem_acquire :: "'d fls \<Rightarrow> 'd fls" where
  "sem_acquire s = s\<lparr>fls_sem := fls_sem s - 1\<rparr>"

definition sem_release :: "'d fls \<Rightarrow> 'd fls" where
  "sem_release s = s\<lparr>fls_sem := fls_sem s + 1\<rparr>"

definition writeEnable :: "'d spi \<Rightarrow> 'd fls \<Rightarrow> 'd fls" where
  "writeEnable spi s = spi_run spi 0x6 0x10000000 s"

definition readRID :: "'d spi \<Rightarrow> 'd fls \<Rightarrow> u8 \<times> 'd fls" where
  "readRID spi s = (let s1 = spi_run spi 0x2c09F 0x10000000 s in (ucast (win_word s1 AND 0xFF), s1))"

section \<open>Write protection\<close>

text \<open>The block-protect bits, each argument a 0/1 flag.\<close>

definition bp_bits :: "u32 \<Rightarrow> u32 \<Rightarrow> u32 \<Rightarrow> u32 \<Rightarrow> u32 \<Rightarrow> u32" where
  "bp_bits bp4 bp3 bp2 bp1 bp0 =
     push_bit 6 bp4 OR push_bit 5 bp3 OR push_bit 4 bp2 OR push_bit 3 bp1 OR push_bit 2 bp0"

definition writeGDBpBit ::
    "'d spi \<Rightarrow> u32 \<Rightarrow> u32 \<Rightarrow> u32 \<Rightarrow> u32 \<Rightarrow> u32 \<Rightarrow> u32 \<Rightarrow> 'd fls \<Rightarrow> 'd fls" where
  "writeGDBpBit spi cmp bp4 bp3 bp2 bp1 bp0 s =
    (let s1 = spi_run spi 0x0C005 0x10000000 s;
         status = win_word s1 AND 0xFF;
         s2 = spi_run spi 0x0C035 0x10000000 s1;
         status = status OR push_bit 8 (win_word s2 AND 0xFF);
         s3 = spi_run spi 0x6 0x10000000 s2;
         status = (status AND 0xBF83) OR bp_bits bp4 bp3 bp2 bp1 bp0 OR push_bit 14 cmp;
         s4 = win_put (le32 status) s3
     in spi_run spi 0x1A001 0x10000000 s4)"

definition writeESMTBpBit ::
    "'d spi \<Rightarrow> u32 \<Rightarrow> u32 \<Rightarrow> u32 \<Rightarrow> u32 \<Rightarrow> u32 \<Rightarrow> u32 \<Rightarrow> 'd fls \<Rightarrow> 'd fls" where
  "writeESMTBpBit spi cmp bp4 bp3 bp2 bp1 bp0 s =
    (let s1 = spi_run spi 0x0C005 0x10000000 s;
         status = win_word s1 AND 0xFF;
         status = (status AND 0x83) OR bp_bits bp4 bp3 bp2 bp1 bp0;
         s2 = spi_run spi 0x6 0x10000000 s1;
         status = (status AND 0x83) OR bp_bits bp4 bp3 bp2 bp1 bp0 OR push_bit 14 cmp;
         s3 = spi_run spi 0x0A001 0x10000000 (win_put (le32 status) s2);
         s4 = spi_run spi 0x0C085 0x10000000 s3;
         status = win_word s4 AND 0xFF;
         s5 = spi_run spi 0x6 0x10000000 s4;
         status = (status AND 0xBF) OR push_bit 6 cmp
     in spi_run spi 0x0A0C1 0x10000000 (win_put (le32 status) s5))"

definition flashunlock :: "'d spi \<Rightarrow> 'd fls \<Rightarrow> int \<times> 'd fls" where
  "flashunlock spi s =
    (let (rid, s1) = readRID spi s
     in if rid = 0xC8 \<or> rid = 0x85 then (0, writeGDBpBit spi 0 0 0 0 0 0 s1)
        else if rid = 0x1C then (0, writeESMTBpBit spi 0 0 0 0 0 0 s1)
        else (-1, s1))"

definition flashlock :: "'d spi \<Rightarrow> 'd fls \<Rightarrow> int \<times> 'd fls" where
  "flashlock spi s =
    (let (rid, s1) = readRID spi s
     in if rid = 0xC8 \<or> rid = 0x85 then (0, writeGDBpBit spi 0 1 1 0 1 0 s1)
        else if rid = 0x1C then (0, writeESMTBpBit spi 0 1 1 0 1 0 s1)
        else (-1, s1))"

definition tls_flash_unlock :: "'d spi \<Rightarrow> 'd fls \<Rightarrow> int \<times> 'd fls" where
  "tls_flash_unlock spi s = flashunlock spi s"

definition tls_flash_lock :: "'d spi \<Rightarrow> 'd fls \<Rightarrow> int \<times> 'd fls" where
  "tls_flash_lock spi s = flashlock spi s"

section \<open>Programming, erasing, reading\<close>

text \<open>
  \<^verbatim>\<open>programSR\<close> copies \<open>sz\<close> bytes into the window in words, \<^verbatim>\<open>size -= 4\<close> until it is 0; every caller
  passes 256, a multiple of 4, and the model is for multiples of 4.
\<close>

definition programSR :: "'d spi \<Rightarrow> u32 \<Rightarrow> u32 \<Rightarrow> bytes \<Rightarrow> nat \<Rightarrow> 'd fls \<Rightarrow> 'd fls" where
  "programSR spi cmd addr buf sz s =
    (let sz = (if sz > 256 then 256 else sz);
         s1 = writeEnable spi (win_put (take sz buf) s)
     in spi_run spi (cmd OR push_bit 16 (word_of_nat sz - 1)) (spi_addr addr) s1)"

definition programPage :: "'d spi \<Rightarrow> u32 \<Rightarrow> nat \<Rightarrow> bytes \<Rightarrow> 'd fls \<Rightarrow> 'd fls" where
  "programPage spi adr sz buf s = programSR spi 0x80009002 adr buf sz s"

definition eraseSR :: "'d spi \<Rightarrow> u32 \<Rightarrow> u32 \<Rightarrow> 'd fls \<Rightarrow> 'd fls" where
  "eraseSR spi cmd addr s = spi_run spi cmd (spi_addr addr) (writeEnable spi s)"

definition eraseSector :: "'d spi \<Rightarrow> u32 \<Rightarrow> 'd fls \<Rightarrow> 'd fls" where
  "eraseSector spi adr s = eraseSR spi 0x80000820 adr s"

definition getFlashDensity :: "'d spi \<Rightarrow> 'd fls \<Rightarrow> u32 \<times> 'd fls" where
  "getFlashDensity spi s =
    (let s1 = spi_run spi 0x2c09F 0x10000000 s;
         density = drop_bit 16 (win_word s1 AND 0xFFFFFF) AND 0xFF
     in (if density = 0x14 \<or> density = 0x13 then push_bit (unat density) 1 else 0, s1))"

text \<open>
  \<^verbatim>\<open>readSR\<close> and \<^verbatim>\<open>readByCMD\<close> copy whole words out of the window and then zero bytes of the last,
  partial word from its end: \<^verbatim>\<open>readSR\<close> as many as the partial word has, \<^verbatim>\<open>readByCMD\<close> the rest of it.
\<close>

definition readSR :: "'d spi \<Rightarrow> u32 \<Rightarrow> u32 \<Rightarrow> bytes \<Rightarrow> nat \<Rightarrow> 'd fls \<Rightarrow> bytes \<times> 'd fls" where
  "readSR spi cmd addr buf sz s =
    (let s1 = spi_run spi (cmd OR push_bit 16 (word_of_nat sz - 1)) (spi_addr addr) s;
         word = sz div 4; byte = sz mod 4;
         data = take (4 * word) (win s1);
         tail = (if byte > 0 then take (4 - byte) (drop (4 * word) (win s1)) @ replicate byte 0 else [])
     in (bsplice 0 (data @ tail) buf, s1))"

definition readByCMD :: "'d spi \<Rightarrow> u32 \<Rightarrow> bytes \<Rightarrow> nat \<Rightarrow> u32 \<Rightarrow> 'd fls \<Rightarrow> bytes \<times> 'd fls" where
  "readByCMD spi addr buf sz mode s =
    (let addr_read = (if mode AND 0x1 \<noteq> 0 then 0xEC00C0EB else 0xBC00C00B);
         s1 = spi_run spi (addr_read OR push_bit 16 ((word_of_nat sz - 1) AND 0x3FF)) (spi_addr addr) s;
         word = sz div 4; byte = sz mod 4;
         data = take (4 * word) (win s1);
         tail = (if byte > 0 then take byte (drop (4 * word) (win s1)) @ replicate (4 - byte) 0 else [])
     in (bsplice 0 (data @ tail) buf, s1))"

text \<open>The \<open>sz_1k\<close> whole pages of \<^verbatim>\<open>flashRead\<close>; \<open>pos\<close> is how far \<open>buf\<close> has been advanced.\<close>

fun flashRead_pages ::
    "'d spi \<Rightarrow> nat \<Rightarrow> u32 \<Rightarrow> nat \<Rightarrow> bytes \<Rightarrow> bytes \<Rightarrow> 'd fls \<Rightarrow> u32 \<times> nat \<times> bytes \<times> bytes \<times> 'd fls" where
  "flashRead_pages spi 0 flash_addr pos buf cache s = (flash_addr, pos, buf, cache, s)"
| "flashRead_pages spi (Suc k) flash_addr pos buf cache s =
    (let (cache, s1) = readByCMD spi flash_addr cache 256 0 s
     in flashRead_pages spi k (flash_addr + 256) (pos + 256) (bsplice pos (take 256 cache) buf) cache s1)"

definition flashRead ::
    "'d spi \<Rightarrow> allocator \<Rightarrow> u32 \<Rightarrow> bytes \<Rightarrow> nat \<Rightarrow> 'd fls \<Rightarrow> int \<times> bytes \<times> 'd fls" where
  "flashRead spi heap addr buf sz s =
    (let page_offset = unat (addr AND 255);
         (blk, s) = tls_mem_alloc heap 0x1000 s
     in case blk of None \<Rightarrow> (TLS_FLS_STATUS_ENOMEM, buf, s)
     | Some cache \<Rightarrow>
        (let flash_addr = addr AND NOT 255;
             (cache, s) = readByCMD spi flash_addr cache 256 0 s
         in if sz > 256 - page_offset then
              (let buf = bsplice 0 (bslice page_offset (256 - page_offset) cache) buf;
                   pos = 256 - page_offset;
                   flash_addr = flash_addr + 256;
                   sz_1k = (sz - (256 - page_offset)) div 256;
                   sz_remain = (sz - (256 - page_offset)) mod 256;
                   (flash_addr, pos, buf, cache, s) = flashRead_pages spi sz_1k flash_addr pos buf cache s
               in if sz_remain \<noteq> 0 then
                    (let (cache, s) = readByCMD spi flash_addr cache sz_remain 0 s
                     in (0, bsplice pos (take sz_remain cache) buf, s))
                  else (0, buf, s))
            else (0, bsplice 0 (bslice page_offset sz cache) buf, s)))"

section \<open>The exported operations\<close>

definition tls_fls_sem_lock :: "'d fls \<Rightarrow> 'd fls" where
  "tls_fls_sem_lock s = (if \<not> inside_fls s then s else sem_acquire s)"

definition tls_fls_sem_unlock :: "'d fls \<Rightarrow> 'd fls" where
  "tls_fls_sem_unlock s = (if \<not> inside_fls s then s else sem_release s)"

definition tls_fls_read ::
    "'d spi \<Rightarrow> allocator \<Rightarrow> u32 \<Rightarrow> bytes option \<Rightarrow> nat \<Rightarrow> 'd fls \<Rightarrow> int \<times> bytes option \<times> 'd fls" where
  "tls_fls_read spi heap addr buf len s =
    (if \<not> inside_fls s then (TLS_FLS_STATUS_EPERM, buf, s)
     else let (density, s) = getFlashDensity spi s
     in if addr AND 0x7FFFFFF \<ge> density \<or> len = 0 then (TLS_FLS_STATUS_EINVAL, buf, s)
     else case buf of None \<Rightarrow> (TLS_FLS_STATUS_EINVAL, buf, s)
     | Some b \<Rightarrow>
        (let s = sem_acquire s;
             (_, b, s) = flashRead spi heap addr b len s
         in (TLS_FLS_STATUS_OK, Some b, sem_release s)))"

text \<open>The sixteen \<^verbatim>\<open>programPage\<close> calls for one sector held in \<open>cache\<close>, from page \<open>i\<close> on.\<close>

fun program_pages :: "'d spi \<Rightarrow> u32 \<Rightarrow> nat \<Rightarrow> nat \<Rightarrow> bytes \<Rightarrow> 'd fls \<Rightarrow> 'd fls" where
  "program_pages spi adr i 0 cache s = s"
| "program_pages spi adr i (Suc k) cache s =
    program_pages spi adr (Suc i) k cache
      (programPage spi (adr + word_of_nat (i * 256)) 256 (drop (i * 256) cache) s)"

text \<open>One turn of the \<^verbatim>\<open>while (1)\<close> loop of \<^verbatim>\<open>tls_fls_write\<close>: read, erase, merge, program a sector.\<close>

definition fls_write_sector ::
    "'d spi \<Rightarrow> allocator \<Rightarrow> u32 \<Rightarrow> nat \<Rightarrow> bytes \<Rightarrow> bytes \<Rightarrow> 'd fls \<Rightarrow> bytes \<times> 'd fls" where
  "fls_write_sector spi heap secpos secoff data cache s =
    (let (_, cache, s) = flashRead spi heap (secpos * 0x1000) cache 0x1000 s;
         s = eraseSector spi (secpos * 0x1000) s;
         cache = bsplice secoff data cache
     in (cache, program_pages spi (secpos * 0x1000) 0 16 cache s))"

function fls_write_loop ::
    "'d spi \<Rightarrow> allocator \<Rightarrow> u32 \<Rightarrow> nat \<Rightarrow> bytes \<Rightarrow> nat \<Rightarrow> bytes \<Rightarrow> 'd fls \<Rightarrow> 'd fls" where
  "fls_write_loop spi heap secpos secoff buf len cache s =
    (let secremain = (if len \<le> 0x1000 - secoff then len else 0x1000 - secoff);
         (cache, s) = fls_write_sector spi heap secpos secoff (take secremain buf) cache s
     in if len = secremain then s
        else fls_write_loop spi heap (secpos + 1) 0 (drop secremain buf) (len - secremain) cache s)"
  by pat_completeness auto
termination
  by (relation "measures [\<lambda>(spi, heap, secpos, secoff, buf, len, cache, s). len,
                          \<lambda>(spi, heap, secpos, secoff, buf, len, cache, s). secoff]")
    (auto split: if_splits)

declare fls_write_loop.simps [simp del]

definition tls_fls_write ::
    "'d spi \<Rightarrow> allocator \<Rightarrow> u32 \<Rightarrow> bytes option \<Rightarrow> nat \<Rightarrow> 'd fls \<Rightarrow> int \<times> 'd fls" where
  "tls_fls_write spi heap addr buf len s =
    (if \<not> inside_fls s then (TLS_FLS_STATUS_EPERM, s)
     else let (density, s) = getFlashDensity spi s
     in if addr AND 0x7FFFFFF \<ge> density \<or> len = 0 then (TLS_FLS_STATUS_EINVAL, s)
     else case buf of None \<Rightarrow> (TLS_FLS_STATUS_EINVAL, s)
     | Some b \<Rightarrow>
        (let s = sem_acquire s;
             (blk, s) = tls_mem_alloc heap 0x1000 s
         in case blk of None \<Rightarrow> (TLS_FLS_STATUS_ENOMEM, sem_release s)
         | Some cache \<Rightarrow>
            (let offaddr = addr AND 0x7FFFFFF;
                 secpos = offaddr div 0x1000;
                 secoff = unat (offaddr mod 0x1000);
                 s = fls_write_loop spi heap secpos secoff b len cache s
             in (TLS_FLS_STATUS_OK, sem_release s))))"

definition tls_fls_erase :: "'d spi \<Rightarrow> u32 \<Rightarrow> 'd fls \<Rightarrow> int \<times> 'd fls" where
  "tls_fls_erase spi sector s =
    (if \<not> inside_fls s then (TLS_FLS_STATUS_EPERM, s)
     else let (density, s) = getFlashDensity spi s
     in if sector \<ge> density div 0x1000 + 0x8000000 div 0x1000 then (TLS_FLS_STATUS_EINVAL, s)
     else (TLS_FLS_STATUS_OK, sem_release (eraseSector spi (sector * 0x1000) (sem_acquire s))))"

section \<open>Buffered sequential writing\<close>

text \<open>
  \<^verbatim>\<open>gsflscache\<close> collects one sector; \<^verbatim>\<open>gsSector\<close> is the sector it belongs to. Touching the buffer
  while \<^verbatim>\<open>gsflscache\<close> is null is undefined behaviour, the value \<open>None\<close>.
\<close>

definition tls_fls_flush_sector :: "'d spi \<Rightarrow> 'd fls \<Rightarrow> 'd fls option" where
  "tls_fls_flush_sector spi s =
    (let (density, s) = getFlashDensity spi s
     in if gsSector s \<ge> density div 0x1000 + 0x8000000 div 0x1000 then Some s
        else case gsflscache s of None \<Rightarrow> None
        | Some cache \<Rightarrow>
           (let addr = gsSector s * 0x1000;
                s = eraseSector spi addr s;
                s = program_pages spi (gsSector s * 0x1000) 0 16 cache s
            in Some (s\<lparr>gsSecOffset := 0\<rparr>)))"

definition tls_fls_fast_write_init :: "allocator \<Rightarrow> 'd fls \<Rightarrow> int \<times> 'd fls" where
  "tls_fls_fast_write_init heap s =
    (if \<not> inside_fls s then (TLS_FLS_STATUS_EPERM, s)
     else if gsflscache s \<noteq> None then (-1, s)
     else let (blk, s) = tls_mem_alloc heap 0x1000 s; s = s\<lparr>gsflscache := blk\<rparr>
     in if blk = None then (-1, s) else (TLS_FLS_STATUS_OK, s))"

definition tls_fls_fast_write_destroy :: "'d spi \<Rightarrow> 'd fls \<Rightarrow> 'd fls option" where
  "tls_fls_fast_write_destroy spi s =
    (if gsflscache s \<noteq> None then
       (if \<not> inside_fls s then Some s
        else case tls_fls_flush_sector spi (sem_acquire s) of None \<Rightarrow> None
        | Some s \<Rightarrow> Some ((sem_release s)\<lparr>gsflscache := None\<rparr>))
     else Some s)"

function fast_write_loop :: "'d spi \<Rightarrow> nat \<Rightarrow> bytes \<Rightarrow> nat \<Rightarrow> 'd fls \<Rightarrow> 'd fls option" where
  "fast_write_loop spi offset buf togo s =
    (if togo = 0 then Some s
     else case gsflscache s of None \<Rightarrow> None
     | Some cache \<Rightarrow>
        (let maxlen = 0x1000 - offset;
             len = (if togo > maxlen then maxlen else togo);
             s = s\<lparr>gsflscache := Some (bsplice offset (take len buf) cache)\<rparr>
         in case (if offset + len \<ge> 0x1000
                  then map_option (\<lambda>s. s\<lparr>gsSector := gsSector s + 1\<rparr>) (tls_fls_flush_sector spi s)
                  else Some s) of
              None \<Rightarrow> None
            | Some s \<Rightarrow> fast_write_loop spi 0 (drop len buf) (togo - len) s))"
  by pat_completeness auto
termination
  by (relation "measures [\<lambda>(spi, offset, buf, togo, s). togo, \<lambda>(spi, offset, buf, togo, s). offset]")
    (auto split: if_splits)

declare fast_write_loop.simps [simp del]

definition tls_fls_fast_write ::
    "'d spi \<Rightarrow> u32 \<Rightarrow> bytes option \<Rightarrow> nat \<Rightarrow> 'd fls \<Rightarrow> (int \<times> 'd fls) option" where
  "tls_fls_fast_write spi addr buf togo s =
    (if \<not> inside_fls s then Some (TLS_FLS_STATUS_EPERM, s)
     else let (density, s) = getFlashDensity spi s
     in if addr AND 0x7FFFFFF \<ge> density \<or> togo = 0 then Some (TLS_FLS_STATUS_EINVAL, s)
     else case buf of None \<Rightarrow> Some (TLS_FLS_STATUS_EINVAL, s)
     | Some b \<Rightarrow>
        (let s = sem_acquire s;
             sector = addr div 0x1000;
             offset = unat (addr mod 0x1000)
         in case (if sector \<noteq> gsSector s \<and> gsSector s \<noteq> 0 then tls_fls_flush_sector spi s else Some s) of
              None \<Rightarrow> None
            | Some s \<Rightarrow>
               (case fast_write_loop spi offset b togo (s\<lparr>gsSector := sector\<rparr>) of
                  None \<Rightarrow> None
                | Some s \<Rightarrow> Some (TLS_FLS_STATUS_OK, sem_release s))))"

section \<open>Chip erase, parameters, installation\<close>

function chip_erase_loop :: "'d spi \<Rightarrow> allocator \<Rightarrow> nat \<Rightarrow> bytes \<Rightarrow> 'd fls \<Rightarrow> 'd fls" where
  "chip_erase_loop spi heap i cache s =
    (let (density, s) = getFlashDensity spi s
     in if i < unat ((density - (0x8002000 AND 0xFFFFF)) div 0x1000) then
          (let addr = 0x8002000 + word_of_nat i * 0x1000;
               (_, cache, s) = flashRead spi heap addr cache 0x1000 s;
               s = (if list_ex (\<lambda>b. b \<noteq> 0xFF) (take 0x1000 cache) then eraseSector spi addr s else s)
           in chip_erase_loop spi heap (Suc i) cache s)
        else s)"
  by pat_completeness auto
termination
proof (relation "measure (\<lambda>(spi, heap, i, cache, s). 2 ^ 32 - i)", goal_cases)
  case (2 spi heap i cache s x density s1 xa xb xc xd xe xf xg)
  then show ?case
    using u32_unat_less [of "(density - (0x8002000 AND 0xFFFFF)) div 0x1000"] by auto
qed simp

declare chip_erase_loop.simps [simp del]

definition tls_fls_chip_erase :: "'d spi \<Rightarrow> allocator \<Rightarrow> 'd fls \<Rightarrow> int \<times> 'd fls" where
  "tls_fls_chip_erase spi heap s =
    (if \<not> inside_fls s then (TLS_FLS_STATUS_EPERM, s)
     else let s = sem_acquire s; (blk, s) = tls_mem_alloc heap 0x1000 s
     in case blk of None \<Rightarrow> (TLS_FLS_STATUS_ENOMEM, sem_release s)
     | Some cache \<Rightarrow> (TLS_FLS_STATUS_OK, sem_release (chip_erase_loop spi heap 0 cache s)))"

definition tls_fls_get_param :: "'d spi \<Rightarrow> u8 \<Rightarrow> u32 option \<Rightarrow> 'd fls \<Rightarrow> int \<times> u32 option \<times> 'd fls" where
  "tls_fls_get_param spi type param s =
    (if \<not> inside_fls s then (TLS_FLS_STATUS_EPERM, param, s)
     else case param of None \<Rightarrow> (TLS_FLS_STATUS_EINVAL, param, s)
     | Some _ \<Rightarrow>
        (let s = sem_acquire s;
             (err, param, s) =
               (if type = 0 then (TLS_FLS_STATUS_OK, Some 0x2013, s)
                else if type = 1 then (let (d, s) = getFlashDensity spi s in (TLS_FLS_STATUS_OK, Some d, s))
                else if type = 2 then (TLS_FLS_STATUS_OK, Some 256, s)
                else if type = 3 then (TLS_FLS_STATUS_OK, Some 256, s)
                else if type = 4 then (TLS_FLS_STATUS_OK, Some 0x1000, s)
                else (TLS_FLS_STATUS_EINVAL, param, s))
         in (err, param, sem_release s)))"

text \<open>\<open>sem_ok\<close> is whether the operating system could create the semaphore.\<close>

definition tls_fls_init :: "allocator \<Rightarrow> bool \<Rightarrow> 'd fls \<Rightarrow> int \<times> 'd fls" where
  "tls_fls_init heap sem_ok s =
    (if inside_fls s then (TLS_FLS_STATUS_EBUSY, s)
     else let (blk, s) = tls_mem_alloc heap 4 s
     in if blk = None then (TLS_FLS_STATUS_ENOMEM, s)
        else if \<not> sem_ok then (TLS_FLS_STATUS_ENOMEM, s)
        else (TLS_FLS_STATUS_OK, s\<lparr>inside_fls := True, fls_sem := 1\<rparr>))"

definition tls_fls_exit :: "int" where
  "tls_fls_exit = TLS_FLS_STATUS_EPERM"

section \<open>Security registers\<close>

text \<open>
  Base address, sector offset, sector size, number of sectors and the erase, read and write commands
  that \<^verbatim>\<open>flashSRRW\<close> selects by the manufacturer; an unknown one leaves everything 0.
\<close>

record sr_geometry =
  sr_base :: u32
  sr_sectoroffset :: u32
  sr_sectorsize :: nat
  sr_sectornum :: nat
  sr_erasecmd :: u32
  sr_readcmd :: u32
  sr_writecmd :: u32

definition sr_select :: "u8 \<Rightarrow> sr_geometry" where
  "sr_select flashid =
    (if flashid = 0xC8 then
       \<lparr>sr_base = 0x0, sr_sectoroffset = 256, sr_sectorsize = 256, sr_sectornum = 2,
        sr_erasecmd = 0x80000844, sr_readcmd = 0xBC00C048, sr_writecmd = 0x80009042\<rparr>
     else if flashid = 0x1C then
       \<lparr>sr_base = 0xFF000, sr_sectoroffset = 0, sr_sectorsize = 512, sr_sectornum = 1,
        sr_erasecmd = 0x80000820, sr_readcmd = 0xBC00C00B, sr_writecmd = 0x80009002\<rparr>
     else if flashid = 0x85 then
       \<lparr>sr_base = 0x1000, sr_sectoroffset = 0, sr_sectorsize = 512, sr_sectornum = 1,
        sr_erasecmd = 0x80000844, sr_readcmd = 0xBC00C048, sr_writecmd = 0x80009042\<rparr>
     else
       \<lparr>sr_base = 0, sr_sectoroffset = 0, sr_sectorsize = 0, sr_sectornum = 0,
        sr_erasecmd = 0, sr_readcmd = 0, sr_writecmd = 0\<rparr>)"

fun sr_read_all :: "'d spi \<Rightarrow> sr_geometry \<Rightarrow> nat \<Rightarrow> nat \<Rightarrow> bytes \<Rightarrow> 'd fls \<Rightarrow> bytes \<times> 'd fls" where
  "sr_read_all spi g i 0 backbuf s = (backbuf, s)"
| "sr_read_all spi g i (Suc k) backbuf s =
    (let off = i * sr_sectorsize g;
         (b, s) = readSR spi (sr_readcmd g) (sr_base g + sr_sectoroffset g * word_of_nat i)
                    (drop off backbuf) (sr_sectorsize g) s
     in sr_read_all spi g (Suc i) k (take off backbuf @ b) s)"

fun sr_erase_all :: "'d spi \<Rightarrow> sr_geometry \<Rightarrow> nat \<Rightarrow> nat \<Rightarrow> 'd fls \<Rightarrow> 'd fls" where
  "sr_erase_all spi g i 0 s = s"
| "sr_erase_all spi g i (Suc k) s =
    sr_erase_all spi g (Suc i) k
      (eraseSR spi (sr_erasecmd g) (sr_base g + sr_sectoroffset g * word_of_nat i) s)"

fun sr_program_sector :: "'d spi \<Rightarrow> sr_geometry \<Rightarrow> u32 \<Rightarrow> nat \<Rightarrow> nat \<Rightarrow> bytes \<Rightarrow> 'd fls \<Rightarrow> bytes \<times> 'd fls" where
  "sr_program_sector spi g adr j 0 backbuf s = (backbuf, s)"
| "sr_program_sector spi g adr j (Suc k) backbuf s =
    sr_program_sector spi g adr (Suc j) k (drop 256 backbuf)
      (programSR spi (sr_writecmd g) (adr + word_of_nat (j * 256)) backbuf 256 s)"

fun sr_program_all :: "'d spi \<Rightarrow> sr_geometry \<Rightarrow> nat \<Rightarrow> nat \<Rightarrow> bytes \<Rightarrow> 'd fls \<Rightarrow> 'd fls" where
  "sr_program_all spi g i 0 backbuf s = s"
| "sr_program_all spi g i (Suc k) backbuf s =
    (let (backbuf, s) = sr_program_sector spi g (sr_base g + sr_sectoroffset g * word_of_nat i)
           0 (sr_sectorsize g div 256) backbuf s
     in sr_program_all spi g (Suc i) k backbuf s)"

text \<open>\<open>None\<close> where the C code would run past one of the caller's buffers or use a null one.\<close>

definition flashSRRW ::
    "'d spi \<Rightarrow> nat \<Rightarrow> bytes option \<Rightarrow> nat \<Rightarrow> bytes option \<Rightarrow> nat \<Rightarrow> bool \<Rightarrow> 'd fls
      \<Rightarrow> (bytes option \<times> bytes option \<times> 'd fls) option" where
  "flashSRRW spi offset buf sz backbuf backlen rd s =
    (if buf = None \<or> \<not> rd \<and> (backbuf = None \<or> backlen < 512) then Some (buf, backbuf, s)
     else case backbuf of None \<Rightarrow> None
     | Some back \<Rightarrow>
        (let (flashid, s) = readRID spi s;
             g = sr_select flashid;
             s = (if flashid = 0x1C then spi_run spi 0x3A 0x10000000 s else s)
         in if length back < sr_sectornum g * sr_sectorsize g then None
            else let (back, s) = sr_read_all spi g 0 (sr_sectornum g) back s
            in case (if rd then
                       (if offset + sz \<le> length back \<and> sz \<le> length (the buf)
                        then Some (Some (bsplice 0 (bslice offset sz back) (the buf)), back, s) else None)
                     else
                       (let s = sr_erase_all spi g 0 (sr_sectornum g) s;
                            room = unat (512 - word_of_nat offset :: u32);
                            remainsz = (if sz < room then sz else room)
                        in if offset + remainsz \<le> length back \<and> remainsz \<le> length (the buf)
                           then (let back = bsplice offset (take remainsz (the buf)) back
                                 in Some (buf, back, sr_program_all spi g 0 (sr_sectornum g) back s))
                           else None)) of
                 None \<Rightarrow> None
               | Some (buf, back, s) \<Rightarrow>
                  Some (buf, Some back, if flashid = 0x1C then spi_run spi 0x4 0x10000000 s else s)))"

end
