(* ===== verification/Block_Store.thy ===== *)
theory Block_Store
  imports Internal_Flash
begin

text \<open>
  What the users of a flash driver rely on, whichever chip it drives: \<open>usable\<close> states, in which a range inside
  the chip can be read and, above a protected area, written, and refused requests that change nothing. The
  result \<open>None\<close> of an operation is a call that does not return. \<open>place\<close> is the position in the chip that an address
  stands for, if any, and \<open>low\<close> is the end of the protected area. The internal and the external flash driver
  are both shown to be stores of this kind.
\<close>

locale block_store =
  fixes get :: "u32 \<Rightarrow> bytes option \<Rightarrow> nat \<Rightarrow> 's \<Rightarrow> (int \<times> bytes option \<times> 's) option"
    and put :: "u32 \<Rightarrow> bytes option \<Rightarrow> nat \<Rightarrow> 's \<Rightarrow> (int \<times> 's) option"
    and contents :: "'s \<Rightarrow> nat \<Rightarrow> u8"
    and capacity :: "'s \<Rightarrow> nat"
    and usable :: "'s \<Rightarrow> bool"
    and place :: "u32 \<Rightarrow> nat option"
    and low :: nat
  assumes get_ok: "usable s \<Longrightarrow> 0 < n \<Longrightarrow> n \<le> length buf \<Longrightarrow> place addr = Some a \<Longrightarrow> a + n \<le> capacity s \<Longrightarrow>
      \<exists>s'. get addr (Some buf) n s = Some (TLS_FLS_STATUS_OK, Some (bsplice 0 (mem_bytes (contents s) a n) buf), s')
        \<and> usable s' \<and> contents s' = contents s \<and> capacity s' = capacity s"
    and put_ok: "usable s \<Longrightarrow> 0 < n \<Longrightarrow> n \<le> length buf \<Longrightarrow> place addr = Some a \<Longrightarrow> low \<le> a \<Longrightarrow> a + n \<le> capacity s \<Longrightarrow>
      \<exists>s'. put addr (Some buf) n s = Some (TLS_FLS_STATUS_OK, s')
        \<and> usable s' \<and> contents s' = mem_write a (take n buf) (contents s) \<and> capacity s' = capacity s"
    and put_refused: "usable s \<Longrightarrow> place addr = Some a \<Longrightarrow> capacity s \<le> a \<Longrightarrow>
      \<exists>s'. put addr ob n s = Some (TLS_FLS_STATUS_EINVAL, s') \<and> usable s' \<and> contents s' = contents s \<and> capacity s' = capacity s"
begin

text \<open>Reading back what was written, and that a write leaves every disjoint range alone.\<close>

lemma get_after_put:
  assumes "usable s" "0 < length data" "place addr = Some a" "low \<le> a" "a + length data \<le> capacity s"
    and "length buf = length data"
  shows "\<exists>s1 s2. put addr (Some data) (length data) s = Some (TLS_FLS_STATUS_OK, s1)
    \<and> get addr (Some buf) (length data) s1 = Some (TLS_FLS_STATUS_OK, Some data, s2)"
proof -
  obtain s1 where s1: "put addr (Some data) (length data) s = Some (TLS_FLS_STATUS_OK, s1)" "usable s1"
    "contents s1 = mem_write a data (contents s)" "capacity s1 = capacity s"
    using put_ok [of s "length data" data addr a] assms by auto
  then show ?thesis
    using get_ok [of s1 "length data" buf addr a] assms by (auto simp: bsplice_full)
qed

lemma put_frame:
  assumes "usable s" "0 < length data" "place addr = Some a" "low \<le> a" "a + length data \<le> capacity s"
    and "b + k \<le> a \<or> a + length data \<le> b"
  shows "\<exists>s1. put addr (Some data) (length data) s = Some (TLS_FLS_STATUS_OK, s1) \<and> usable s1
    \<and> mem_bytes (contents s1) b k = mem_bytes (contents s) b k"
  using put_ok [of s "length data" data addr a] mem_bytes_write_other [OF assms(6)] assms by auto

end

end
