(* ===== verification/Flash_Correct.thy ===== *)
theory Flash_Correct
  imports Block_Store
begin

text \<open>
  Correctness of the internal flash driver over the chip contract \<open>nor_chip\<close>: reads return the
  addressed bytes and change nothing, writes replace exactly the addressed range however it falls
  on sectors, erase blanks one sector, and the refused requests. The contract the other components
  rely on is the locale \<open>flash_store\<close>, which the driver provides.
\<close>

section \<open>Addresses\<close>

text \<open>The 20 address bits the controller uses.\<close>

definition off20 :: "u32 \<Rightarrow> nat" where
  "off20 a = unat (a AND 0xFFFFF)"

lemma and_FFFFF: "a AND 0xFFFFF = take_bit 20 a" for a :: u32
  by (simp add: take_bit_eq_mask mask_eq_exp_minus_1)

lemma off20_mod: "off20 a = unat a mod 2 ^ 20"
  by (simp add: off20_def and_FFFFF take_bit_eq_mod unat_mod)

lemma off20_less: "off20 a < 2 ^ 20"
  by (simp add: off20_mod)

lemma mod_mod_20: "(x mod 2 ^ 32) mod 2 ^ 20 = x mod (2 ^ 20 :: nat)"
  by (rule mod_mod_cancel) (simp add: le_imp_power_dvd)

lemma off20_of_nat: "off20 (word_of_nat k) = k mod 2 ^ 20"
  using mod_mod_20 [of k] by (simp add: off20_mod unsigned_of_nat take_bit_eq_mod)

lemma off20_add: "off20 (a + b) = (off20 a + off20 b) mod 2 ^ 20"
  using mod_mod_20 [of "unat a + unat b"] by (simp add: off20_mod unat_word_ariths mod_simps)

lemma off20_mult: "off20 (a * b) = (off20 a * off20 b) mod 2 ^ 20"
  using mod_mod_20 [of "unat a * unat b"] by (simp add: off20_mod unat_word_ariths mod_simps)

lemma off20_numeral: "off20 0x1000 = 0x1000" "off20 1 = 1" "off20 0x100 = 0x100"
  by (simp_all add: off20_mod)

lemma and_255_off20: "unat (a AND 255) = off20 a mod 256"
proof -
  have "a AND 255 = take_bit 8 a" by (simp add: take_bit_eq_mask mask_eq_exp_minus_1)
  then have "unat (a AND 255) = unat a mod 2 ^ 8"
    by (simp add: take_bit_eq_mod unat_mod)
  also have "\<dots> = unat a mod 2 ^ 20 mod 2 ^ 8"
    by (rule mod_mod_cancel [symmetric]) (simp add: le_imp_power_dvd)
  finally show ?thesis by (simp add: off20_mod)
qed

lemma mod_page_base: "(n - n mod 256) mod 1048576 = n mod 1048576 - n mod 1048576 mod (256 :: nat)"
proof -
  obtain q r where n: "n = 1048576 * q + r" and r: "r < 1048576"
    by (metis mod_less_divisor mult_div_mod_eq zero_less_numeral)
  have "n mod 256 = r mod 256"
    unfolding n by (simp add: mod_add_eq [symmetric] mod_mult_left_eq [symmetric])
  then have "n - n mod 256 = (r - r mod 256) + q * 1048576"
    unfolding n by (simp add: mult.commute)
  moreover have "n mod 1048576 = r"
    unfolding n using r by simp
  moreover have "(r - r mod 256 + q * 1048576) mod 1048576 = r - r mod 256"
    using r by (simp only: mod_mult_self1) (simp add: less_imp_diff_less)
  ultimately show ?thesis by metis
qed

lemma page_in_range: "x - x mod 256 + 256 \<le> 2 ^ 20" if "x < 2 ^ 20" for x :: nat
proof -
  have "x div 256 < 4096" using that by (simp add: less_mult_imp_div_less)
  then show ?thesis by (simp add: minus_mod_eq_mult_div)
qed

lemma page_base_off20: "off20 (a AND NOT 255) = off20 a - off20 a mod 256"
proof -
  have "(a AND NOT 255) + (a AND 255) = a"
    by (subst disjunctive_add) (auto intro!: bit_word_eqI simp: bit_simps)
  then have "a AND NOT 255 = a - (a AND 255)"
    by (metis add_diff_cancel_right')
  then have "unat (a AND NOT 255) = unat a - unat (a AND 255)"
    by (simp add: unat_sub word_and_le2)
  also have "unat (a AND 255) = unat a mod 256"
    unfolding and_255_off20 off20_mod by (rule mod_mod_cancel) simp
  finally have "off20 (a AND NOT 255) = (unat a - unat a mod 256) mod 1048576"
    by (simp add: off20_mod)
  also have "\<dots> = unat a mod 1048576 - unat a mod 1048576 mod 256"
    by (rule mod_page_base)
  finally show ?thesis by (simp add: off20_mod)
qed

lemmas page_base = page_base_off20 page_base_off20 [simplified]

section \<open>What transactions leave alone\<close>

text \<open>The driver's own variables, the length of the window and the identity of the chip.\<close>

definition drv_eq :: "'d fls \<Rightarrow> 'd fls \<Rightarrow> bool" where
  "drv_eq s t \<longleftrightarrow> length (win t) = length (win s) \<and> inside_fls t = inside_fls s
     \<and> fls_sem t = fls_sem s \<and> gsflscache t = gsflscache s \<and> gsSecOffset t = gsSecOffset s
     \<and> gsSector t = gsSector s"

lemma drv_eq_refl [simp]: "drv_eq s s"
  by (simp add: drv_eq_def)

lemma drv_eq_trans [trans]: "drv_eq s t \<Longrightarrow> drv_eq t u \<Longrightarrow> drv_eq s u"
  by (simp add: drv_eq_def)

lemma drv_eqD:
  assumes "drv_eq s t"
  shows "length (win t) = length (win s)" "inside_fls t = inside_fls s" "fls_sem t = fls_sem s"
    "gsflscache t = gsflscache s" "gsSecOffset t = gsSecOffset s" "gsSector t = gsSector s"
  using assms by (simp_all add: drv_eq_def)

definition fls_ready :: "'d fls \<Rightarrow> bool" where
  "fls_ready s \<longleftrightarrow> inside_fls s \<and> length (win s) = 1024"

lemma fls_ready_drv_eq: "drv_eq s t \<Longrightarrow> fls_ready t = fls_ready s"
  by (simp add: drv_eq_def fls_ready_def)

section \<open>Copying out of the window\<close>

definition read_cmd :: "nat \<Rightarrow> u32" where
  "read_cmd n = 0xBC00C00B OR push_bit 16 ((word_of_nat n - 1) AND 0x3FF)"

definition window_words :: "nat \<Rightarrow> bytes \<Rightarrow> bytes" where
  "window_words sz w = take (4 * (sz div 4)) w @
     (if sz mod 4 > 0 then take (sz mod 4) (drop (4 * (sz div 4)) w) @ replicate (4 - sz mod 4) 0 else [])"

lemma readByCMD_0:
  "readByCMD spi addr buf sz 0 s =
    (let s1 = spi_run spi (read_cmd sz) (spi_addr addr) s in (bsplice 0 (window_words sz (win s1)) buf, s1))"
  by (simp add: readByCMD_def read_cmd_def window_words_def Let_def)

lemma window_words:
  assumes "n \<le> length w"
  shows "take n (window_words n w) = take n w" "n \<le> length (window_words n w)"
    "length (window_words n w) \<le> n + 3"
proof -
  let ?w = "n div 4" and ?b = "n mod 4"
  have nb: "4 * ?w + ?b = n" by simp
  have split: "take n w = take (4 * ?w) w @ take ?b (drop (4 * ?w) w)"
    by (metis nb take_add)
  have room: "4 * ?w \<le> length w" "?b \<le> length w - 4 * ?w"
    using assms nb by linarith+
  have l1: "length (take (4 * ?w) w) = 4 * ?w" "length (take ?b (drop (4 * ?w) w)) = ?b"
    using room by (simp_all add: min_absorb2)
  have len: "length (window_words n w) = 4 * ?w + (if ?b > 0 then 4 else 0)"
    using l1 by (simp add: window_words_def)
  have "?b < 4" by simp
  then show "n \<le> length (window_words n w)" "length (window_words n w) \<le> n + 3"
    unfolding len by presburger+
  show "take n (window_words n w) = take n w"
  proof (cases "?b = 0")
    case True
    then show ?thesis using split l1 nb by (simp add: window_words_def)
  next
    case False
    then have "window_words n w = take n w @ replicate (4 - ?b) 0"
      by (simp add: window_words_def split)
    then show ?thesis using assms by simp
  qed
qed

section \<open>Capacity and offsets\<close>

text \<open>The size the density byte of the identification stands for, and the offset in the chip.\<close>

definition ident_density :: "u32 \<Rightarrow> u32" where
  "ident_density i = (let density = drop_bit 16 i AND 0xFF
     in if density = 0x14 \<or> density = 0x13 then push_bit (unat density) 1 else 0)"

definition fls_off :: "u32 \<Rightarrow> nat" where
  "fls_off addr = unat (addr AND 0x7FFFFFF)"

lemma ident_density_le: "unat (ident_density i) \<le> 2 ^ 20"
  by (auto simp: ident_density_def Let_def)

lemma ident_density_sectors: "4096 dvd unat (ident_density i)"
  by (auto simp: ident_density_def Let_def)

lemma fls_off_less: "addr AND 0x7FFFFFF < x \<longleftrightarrow> fls_off addr < unat x"
  by (simp add: fls_off_def word_less_nat_alt)

lemma fls_off_off20: "fls_off addr < 2 ^ 20 \<Longrightarrow> off20 addr = fls_off addr"
proof -
  assume a: "fls_off addr < 2 ^ 20"
  have "addr AND 0xFFFFF = (addr AND 0x7FFFFFF) AND 0xFFFFF"
    by (rule u32_eqI) (simp add: upt_32 bit_simps)
  then have "off20 addr = off20 (addr AND 0x7FFFFFF)" by (simp add: off20_def)
  then show ?thesis using a by (simp add: off20_mod fls_off_def)
qed

lemma sector_base_nat:
  assumes "y < 2 ^ 32"
  shows "y div 4096 mod 2 ^ 32 * 4096 mod 2 ^ 32 = y div 4096 * (4096 :: nat)"
proof -
  have "y div 4096 \<le> y" "y div 4096 * 4096 \<le> y" by (simp_all add: div_times_less_eq_dividend)
  then show ?thesis using assms by (simp add: mod_less)
qed

lemma sector_off20:
  assumes "fls_off addr < 2 ^ 20"
  shows "off20 ((addr AND 0x7FFFFFF) div 0x1000 * 0x1000) = fls_off addr - fls_off addr mod 4096"
    "unat ((addr AND 0x7FFFFFF) mod 0x1000) = fls_off addr mod 4096"
proof -
  have "unat ((addr AND 0x7FFFFFF) div 0x1000 * 0x1000) = fls_off addr div 4096 * 4096"
    unfolding unat_word_ariths fls_off_def
    using sector_base_nat [OF u32_unat_less [of "addr AND 0x7FFFFFF"]] by (simp add: unat_div)
  then show "off20 ((addr AND 0x7FFFFFF) div 0x1000 * 0x1000) = fls_off addr - fls_off addr mod 4096"
    using assms by (simp add: off20_mod minus_mod_eq_div_mult le_less_trans [OF div_times_less_eq_dividend])
  show "unat ((addr AND 0x7FFFFFF) mod 0x1000) = fls_off addr mod 4096"
    by (simp add: unat_mod fls_off_def)
qed

lemma sector_floor:
  fixes a :: nat
  shows "4096 dvd a - a mod 4096" "a - a mod 4096 + a mod 4096 = a" "a - a mod 4096 \<le> a"
    "0x2000 \<le> a \<Longrightarrow> 0x2000 \<le> a - a mod 4096"
proof -
  show "4096 dvd a - a mod 4096" by (rule dvd_minus_mod)
  assume "0x2000 \<le> a"
  then have "2 \<le> a div 4096" by (simp add: less_eq_div_iff_mult_less_eq)
  then show "0x2000 \<le> a - a mod 4096" by (simp add: minus_mod_eq_div_mult)
qed simp_all

lemma sector_end_le: "x - x mod 4096 + 4096 \<le> 2 ^ 20" if "x < 2 ^ 20" for x :: nat
proof -
  have "x div 4096 < 256" using that by (simp add: less_mult_imp_div_less)
  then show ?thesis by (simp add: minus_mod_eq_mult_div)
qed

lemma sector_limit_unat:
  assumes "unat density \<le> 2 ^ 20"
  shows "unat (density div 0x1000 + 0x8000 :: u32) = unat density div 0x1000 + 0x8000"
proof -
  have "unat density div 0x1000 \<le> 2 ^ 20" using assms div_le_dividend le_trans by blast
  then show ?thesis by (simp add: unat_word_ariths unat_div)
qed

section \<open>Operations over a chip that keeps the contract\<close>

context nor_area
begin

definition becomes :: "(nat \<Rightarrow> u8) \<Rightarrow> 'd fls \<Rightarrow> 'd fls \<Rightarrow> bool" where
  "becomes m s t \<longleftrightarrow> drv_eq s t \<and> mem (chip t) = m \<and> ident (chip t) = ident (chip s) \<and> keep (chip t) = keep (chip s)"

lemma becomes_trans:
  "becomes m s t \<Longrightarrow> becomes m' t u \<Longrightarrow> becomes m' s u"
  by (auto simp: becomes_def dest: drv_eq_trans)

lemma becomes_ready: "becomes m s t \<Longrightarrow> fls_ready t = fls_ready s"
  by (auto simp: becomes_def dest: fls_ready_drv_eq)

lemma becomesD: "becomes m s t \<Longrightarrow> mem (chip t) = m \<and> ident (chip t) = ident (chip s) \<and> keep (chip t) = keep (chip s) \<and> length (win t) = length (win s)"
  by (auto simp: becomes_def drv_eq_def)

lemma becomes_allocs [simp]: "becomes (mem (chip s)) s (s\<lparr>allocs := k\<rparr>)"
  by (simp add: becomes_def drv_eq_def)

lemma spi_run_becomes:
  "keep (snd (spi cmd addr (win s) (chip s))) = keep (chip s) \<Longrightarrow>
    becomes (mem (snd (spi cmd addr (win s) (chip s)))) s (spi_run spi cmd addr s)"
  using window_length [of cmd addr "win s" "chip s"] ident_const [of cmd addr "win s" "chip s"]
  by (auto simp: spi_run_def becomes_def drv_eq_def split: prod.splits)

lemma win_put_becomes: "length bs \<le> length (win s) \<Longrightarrow> becomes (mem (chip s)) s (win_put bs s)"
  by (simp add: win_put_def becomes_def drv_eq_def)

lemma writeEnable_ok: "becomes (mem (chip s)) s (writeEnable spi s) \<and> win (writeEnable spi s) = win s
    \<and> wel (chip (writeEnable spi s))"
proof -
  obtain w d where wd: "spi 0x6 0x10000000 (win s) (chip s) = (w, d)" by fastforce
  show ?thesis
    using write_enable [OF wd] spi_run_becomes [of "0x6" "0x10000000" s] wd
    by (simp add: writeEnable_def spi_run_def)
qed

subsection \<open>Reading\<close>

lemma readByCMD_ok:
  assumes len: "length (win s) = 1024" and n: "1 \<le> n" "n \<le> 256" and room: "n + 3 \<le> length buf"
    and a: "off20 addr + n \<le> 2 ^ 20" and run: "readByCMD spi addr buf n 0 s = (buf', s')"
  shows "take n buf' = mem_bytes (mem (chip s)) (off20 addr) n \<and> length buf' = length buf
    \<and> becomes (mem (chip s)) s s'"
proof -
  obtain w d where wd: "spi (read_cmd n) (spi_addr addr) (win s) (chip s) = (w, d)" by fastforce
  have rd: "take n w = mem_bytes (mem (chip s)) (off20 addr) n \<and> mem d = mem (chip s) \<and> keep d = keep (chip s)"
    using read_data [of n "win s" addr "chip s" w d] n len a wd unfolding read_cmd_def off20_def by simp
  have lw: "length w = 1024"
    using window_length [of "read_cmd n" "spi_addr addr" "win s" "chip s"] wd len by simp
  have out: "buf' = bsplice 0 (window_words n w) buf" and s': "s' = spi_run spi (read_cmd n) (spi_addr addr) s"
    using run wd by (auto simp: readByCMD_0 spi_run_def)
  have "take n buf' = take n w" "length buf' = length buf"
    using room window_words [of n w] lw n by (auto simp: out bsplice_def)
  then show ?thesis
    using rd wd spi_run_becomes [of "read_cmd n" "spi_addr addr" s] by (simp add: s')
qed

lemma flashRead_pages_ok:
  assumes "length (win s) = 1024" "length cache = 4096" "off20 fa = A mod 2 ^ 20" "A + 256 * k \<le> 2 ^ 20"
    and "pos + 256 * k \<le> length buf"
    and "flashRead_pages spi k fa pos buf cache s = (fa', pos', buf', cache', s')"
  shows "buf' = bsplice pos (mem_bytes (mem (chip s)) A (256 * k)) buf \<and> pos' = pos + 256 * k
    \<and> length cache' = 4096 \<and> off20 fa' = (A + 256 * k) mod 2 ^ 20 \<and> becomes (mem (chip s)) s s'"
  using assms
proof (induction k arbitrary: fa A pos buf cache s)
  case 0
  then show ?case by (auto simp: bsplice_def becomes_def)
next
  case (Suc k)
  obtain c1 s1 where rd: "readByCMD spi fa cache 256 0 s = (c1, s1)" by fastforce
  have A: "A < 2 ^ 20" "off20 fa = A" using Suc.prems by auto
  have r: "take 256 c1 = mem_bytes (mem (chip s)) A 256" "length c1 = 4096" "becomes (mem (chip s)) s s1"
    using readByCMD_ok [OF Suc.prems(1) _ _ _ _ rd] A Suc.prems by auto
  let ?b = "bsplice pos (take 256 c1) buf"
  have lb: "length ?b = length buf" using Suc.prems r by simp
  have fa: "off20 (fa + 256) = (A + 256) mod 2 ^ 20"
    using off20_add [of fa 256] off20_numeral(3) A by simp
  have "buf' = bsplice (pos + 256) (mem_bytes (mem (chip s1)) (A + 256) (256 * k)) ?b \<and> pos' = pos + 256 + 256 * k
    \<and> length cache' = 4096 \<and> off20 fa' = (A + 256 + 256 * k) mod 2 ^ 20 \<and> becomes (mem (chip s1)) s1 s'"
    using Suc.prems r rd lb fa becomesD [OF r(3)]
    by (intro Suc.IH) (auto simp del: off20_numeral)
  moreover have "mem (chip s1) = mem (chip s)" using becomesD [OF r(3)] by simp
  ultimately show ?case
    using r Suc.prems becomes_trans [OF r(3)]
    by (auto simp: mem_bytes_add bsplice_append add.assoc)
qed

text \<open>The part behind the first page: whole pages and a rest.\<close>

lemma flashRead_rest:
  assumes w: "length (win s) = 1024" "length c = 4096" and fa: "off20 fa0 = A mod 2 ^ 20"
    and r': "r' < 256" "A + (256 * k + r') \<le> 2 ^ 20" "h + (256 * k + r') \<le> length b"
    and pg: "flashRead_pages spi k fa0 h b c s = (fa, pos, b2, c2, s2)"
    and rd: "r' \<noteq> 0 \<Longrightarrow> readByCMD spi fa c2 r' 0 s2 = (c3, s3)"
  shows "(if r' = 0 then b2 else bsplice pos (take r' c3) b2) = bsplice h (mem_bytes (mem (chip s)) A (256 * k + r')) b
    \<and> becomes (mem (chip s)) s (if r' = 0 then s2 else s3)"
proof -
  let ?m = "mem (chip s)"
  have p2: "b2 = bsplice h (mem_bytes ?m A (256 * k)) b" "pos = h + 256 * k" "length c2 = 4096"
    "off20 fa = (A + 256 * k) mod 2 ^ 20" "becomes ?m s s2"
    using flashRead_pages_ok [OF w fa _ _ pg] r' by simp_all
  show ?thesis
  proof (cases "r' = 0")
    case False
    have "off20 fa = A + 256 * k" "off20 fa + r' \<le> 2 ^ 20" "1 \<le> r'" "r' \<le> 256"
      using False r' p2(4) by simp_all
    then have r3: "take r' c3 = mem_bytes ?m (A + 256 * k) r'" "becomes ?m s2 s3"
      using readByCMD_ok [OF _ _ _ _ _ rd [OF False]] becomesD [OF p2(5)] p2(3) w by simp_all
    have "bsplice pos (take r' c3) b2 = bsplice h (mem_bytes ?m A (256 * k) @ mem_bytes ?m (A + 256 * k) r') b"
      unfolding r3(1) p2(1,2) using r'(3) by (intro bsplice_append) simp_all
    then show ?thesis using False becomes_trans [OF p2(5) r3(2)] by (simp add: mem_bytes_add)
  qed (use p2 in simp)
qed

lemma flashRead_ok:
  assumes heap: "alloc_total heap" and win: "length (win s) = 1024" and sz: "1 \<le> sz" "sz \<le> length buf"
    and a: "off20 addr + sz \<le> 2 ^ 20"
    and run: "flashRead spi heap addr buf sz s = (r, buf', s')"
  shows "r = 0 \<and> buf' = bsplice 0 (mem_bytes (mem (chip s)) (off20 addr) sz) buf \<and> becomes (mem (chip s)) s s'"
proof -
  let ?m = "mem (chip s)" and ?A = "off20 addr" and ?po = "off20 addr mod 256"
  let ?B = "off20 addr - off20 addr mod 256"
  obtain cache where cache: "heap (allocs s) 0x1000 = Some cache" "length cache = 4096"
    using alloc_totalE [OF heap] .
  let ?s0 = "s\<lparr>allocs := Suc (allocs s)\<rparr>"
  obtain c1 s1 where rd: "readByCMD spi (addr AND NOT 255) cache 256 0 ?s0 = (c1, s1)" by fastforce
  have page: "?B + 256 \<le> 2 ^ 20" "?B + ?po = ?A" "?po < 256"
    using page_in_range [OF off20_less [of addr]] by simp_all
  have r1: "take 256 c1 = mem_bytes ?m ?B 256" "length c1 = 4096" "becomes ?m ?s0 s1"
    using readByCMD_ok [OF _ _ _ _ _ rd] win cache page by (auto simp: page_base)
  have b1: "becomes ?m s s1" using becomes_trans [OF becomes_allocs r1(3)] .
  have slice: "bslice ?po k c1 = mem_bytes ?m ?A k" if "?po + k \<le> 256" for k
  proof -
    have "bslice ?po k c1 = bslice ?po k (take 256 c1)" using that by (simp add: bslice_def drop_take min_absorb1)
    then show ?thesis using that page r1(1) by (simp add: bslice_def drop_mem_bytes)
  qed
  show ?thesis
  proof (cases "sz > 256 - ?po")
    case False
    then show ?thesis
      using run cache rd b1 slice [of sz] by (simp add: flashRead_def tls_mem_alloc_def and_255_off20)
  next
    case True
    define h where "h = 256 - ?po"
    define k where "k = (sz - h) div 256"
    define r' where "r' = (sz - h) mod 256"
    note run' = run [unfolded flashRead_def tls_mem_alloc_def and_255_off20 Let_def, folded h_def, folded k_def r'_def]
    have szs: "sz = h + (256 * k + r')" "r' < 256" and h: "?B + 256 = ?A + h" "?po + h \<le> 256" "h < sz"
      using True page unfolding k_def r'_def by (simp_all add: h_def)
    let ?b1 = "bsplice 0 (mem_bytes ?m ?A h) buf"
    obtain fa pos b2 c2 s2 where pg:
      "flashRead_pages spi k ((addr AND NOT 255) + 256) h ?b1 c1 s1 = (fa, pos, b2, c2, s2)"
      by (metis prod_cases5)
    obtain c3 s3 where rd3: "readByCMD spi fa c2 r' 0 s2 = (c3, s3)" by fastforce
    have fa1: "off20 ((addr AND NOT 255) + 256) = (?A + h) mod 2 ^ 20"
      using off20_add [of "addr AND NOT 255" 256] unfolding off20_numeral(3) page_base_off20 h(1) .
    have w1: "length (win s1) = 1024" "mem (chip s1) = ?m" using becomesD [OF b1] win by simp_all
    have rest: "(if r' = 0 then b2 else bsplice pos (take r' c3) b2) = bsplice h (mem_bytes ?m (?A + h) (256 * k + r')) ?b1"
      "becomes ?m s1 (if r' = 0 then s2 else s3)"
      using flashRead_rest [OF w1(1) r1(2) fa1 szs(2) _ _ pg rd3] sz szs(1) a w1(2) by simp_all
    have "bsplice h (mem_bytes ?m (?A + h) (256 * k + r')) ?b1 = bsplice 0 (mem_bytes ?m ?A sz) buf"
      unfolding szs(1) mem_bytes_add using sz szs(1) by (intro bsplice_append) simp_all
    then show ?thesis
      using run' cache rd pg rd3 rest becomes_trans [OF b1 rest(2)] h(3) slice [OF h(2)] by (auto split: if_splits)
  qed
qed

subsection \<open>Programming and erasing\<close>

lemma programPage_ok:
  assumes "length (win s) = 1024" "256 \<le> length buf" "low (keep (chip s)) \<le> off20 adr" "256 dvd off20 adr"
  shows "becomes (mem_program (off20 adr) (take 256 buf) (mem (chip s))) s (programPage spi adr 256 buf s)"
proof -
  let ?s1 = "win_put (take 256 buf) s"
  let ?s2 = "writeEnable spi ?s1"
  let ?cmd = "0x80009002 OR push_bit 16 (256 - 1) :: u32"
  have s1: "becomes (mem (chip s)) s ?s1" "take 256 (win ?s1) = take 256 buf" "length (win ?s1) = 1024"
    using assms by (simp_all add: win_put_becomes) (simp_all add: win_put_def bsplice_def)
  have s2: "becomes (mem (chip s)) s ?s2" "win ?s2 = win ?s1" "wel (chip ?s2)" "mem (chip ?s2) = mem (chip s)" "keep (chip ?s2) = keep (chip s)"
    using writeEnable_ok [of ?s1] becomes_trans [OF s1(1)] becomesD [OF s1(1)] by (auto dest: becomesD)
  obtain w d where wd: "spi ?cmd (spi_addr adr) (win ?s2) (chip ?s2) = (w, d)" by fastforce
  have "mem d = mem_program (off20 adr) (take 256 buf) (mem (chip s)) \<and> keep d = keep (chip ?s2)"
    using program_page [OF s2(3) _ _ _ wd] assms s1 s2 by (simp add: off20_def)
  then show ?thesis
    using becomes_trans [OF s2(1) spi_run_becomes [of ?cmd "spi_addr adr" ?s2]] wd
    by (simp add: programPage_def programSR_def Let_def)
qed

lemma eraseSector_ok:
  assumes "low (keep (chip s)) \<le> off20 adr"
  shows "becomes (mem_erase (off20 adr) (mem (chip s))) s (eraseSector spi adr s)"
proof -
  let ?s2 = "writeEnable spi s"
  have s2: "becomes (mem (chip s)) s ?s2" "wel (chip ?s2)" "mem (chip ?s2) = mem (chip s)" "keep (chip ?s2) = keep (chip s)"
    using writeEnable_ok [of s] by (auto dest: becomesD)
  obtain w d where wd: "spi 0x80000820 (spi_addr adr) (win ?s2) (chip ?s2) = (w, d)" by fastforce
  have "mem d = mem_erase (off20 adr) (mem (chip s)) \<and> keep d = keep (chip ?s2)"
    using erase_sector [OF s2(2) _ wd] assms s2 by (simp add: off20_def)
  then show ?thesis
    using becomes_trans [OF s2(1) spi_run_becomes [of "0x80000820" "spi_addr adr" ?s2]] wd
    by (simp add: eraseSector_def eraseSR_def)
qed

lemma program_pages_ok:
  assumes "length (win s) = 1024" "length cache = 4096" "off20 adr = S" "256 dvd S" "low (keep (chip s)) \<le> S"
    "S + 4096 \<le> 2 ^ 20" "i + k \<le> 16"
  shows "becomes (mem_program (S + i * 256) (bslice (i * 256) (k * 256) cache) (mem (chip s))) s
    (program_pages spi adr i k cache s)"
  using assms
proof (induction k arbitrary: i s)
  case 0
  then show ?case by (simp add: bslice_def becomes_def)
next
  case (Suc k)
  let ?adr = "adr + word_of_nat (i * 256)" and ?m = "mem (chip s)"
  let ?s1 = "programPage spi ?adr 256 (drop (i * 256) cache) s"
  have i: "i < 16" "S + i * 256 < 2 ^ 20" using Suc.prems by auto
  have adr: "off20 ?adr = S + i * 256"
    unfolding off20_add off20_of_nat using Suc.prems i by simp
  have s1: "becomes (mem_program (S + i * 256) (take 256 (drop (i * 256) cache)) ?m) s ?s1"
    using programPage_ok [of s "drop (i * 256) cache" ?adr] Suc.prems i unfolding adr by simp
  have cat: "bslice (i * 256) (Suc k * 256) cache =
      take 256 (drop (i * 256) cache) @ bslice (Suc i * 256) (k * 256) cache"
    by (simp add: bslice_def take_add add.commute)
  have "length (take 256 (drop (i * 256) cache)) = 256" using Suc.prems by simp
  then show ?case
    using Suc.IH [of ?s1 "Suc i"] becomes_trans [OF s1] becomesD [OF s1] Suc.prems
    by (simp add: cat mem_program_append del: mult_Suc) (simp add: mem_program_append add.assoc)
qed

subsection \<open>The write loop\<close>

lemma fls_write_sector_ok:
  assumes heap: "alloc_total heap" and win: "length (win s) = 1024" and cache: "length cache = 4096"
    and S: "off20 (secpos * 0x1000) = S" "4096 dvd S" "low (keep (chip s)) \<le> S" "S + 4096 \<le> 2 ^ 20"
    and data: "secoff + length data \<le> 4096"
    and run: "fls_write_sector spi heap secpos secoff data cache s = (cache', s')"
  shows "length cache' = 4096 \<and> becomes (mem_write (S + secoff) data (mem (chip s))) s s'"
proof -
  let ?m = "mem (chip s)" and ?adr = "secpos * 0x1000"
  obtain r c1 s1 where rd: "flashRead spi heap ?adr cache 0x1000 s = (r, c1, s1)" by (metis prod_cases3)
  have r1: "c1 = mem_bytes ?m S 4096" "becomes ?m s s1"
    using flashRead_ok [OF heap win _ _ _ rd] cache S by (auto simp: bsplice_full)
  let ?c = "bsplice secoff data c1" and ?s2 = "eraseSector spi ?adr s1"
  have c: "length ?c = 4096" using data r1 by simp
  have s2: "becomes (mem_erase S ?m) s ?s2"
    using becomes_trans [OF r1(2) eraseSector_ok [of s1 ?adr]] S becomesD [OF r1(2)] by simp
  have "256 dvd S" using S(2) dvd_trans [of 256 4096 S] by simp
  then have "becomes (mem_program S ?c (mem_erase S ?m)) s (program_pages spi ?adr 0 16 ?c ?s2)"
    using program_pages_ok [of ?s2 ?c ?adr S 0 16] becomes_trans [OF s2] becomesD [OF s2] S c win
    by (simp add: bslice_full)
  then have "becomes (mem_write (S + secoff) data ?m) s (program_pages spi ?adr 0 16 ?c ?s2)"
    using mem_program_erased [OF S(2) c, of ?m] mem_write_merge [OF data, of S ?m] r1(1) by simp
  then show ?thesis
    using run rd c by (auto simp: fls_write_sector_def Let_def)
qed

lemma fls_write_loop_ok:
  assumes "alloc_total heap" "length (win s) = 1024" "length cache = 4096"
    and "off20 (secpos * 0x1000) = S" "4096 dvd S" "low (keep (chip s)) \<le> S" "S < 2 ^ 20"
    and "secoff < 4096" "len \<le> length buf" "S + secoff + len \<le> 2 ^ 20"
  shows "becomes (mem_write (S + secoff) (take len buf) (mem (chip s))) s
    (fls_write_loop spi heap secpos secoff buf len cache s)"
  using assms
proof (induction len arbitrary: secpos S secoff buf cache s rule: less_induct)
  case (less len)
  define n where "n = (if len \<le> 0x1000 - secoff then len else 0x1000 - secoff)"
  have n: "n \<le> len" "secoff + n \<le> 4096" "n < len \<Longrightarrow> secoff + n = 4096" "n < len \<Longrightarrow> 0 < n"
    using less.prems by (auto simp: n_def)
  obtain c1 s1 where st: "fls_write_sector spi heap secpos secoff (take n buf) cache s = (c1, s1)"
    by fastforce
  have Ssec: "S + 4096 \<le> 2 ^ 20" using less.prems(5,7) by (auto elim!: dvdE)
  have tk: "secoff + length (take n buf) \<le> 4096" using n less.prems(9) by simp
  have s1: "length c1 = 4096" "becomes (mem_write (S + secoff) (take n buf) (mem (chip s))) s s1"
    using fls_write_sector_ok [OF less.prems(1-6) Ssec tk st] by auto
  have unfold: "fls_write_loop spi heap secpos secoff buf len cache s =
      (if len = n then s1 else fls_write_loop spi heap (secpos + 1) 0 (drop n buf) (len - n) c1 s1)"
    by (subst fls_write_loop.simps) (simp add: Let_def n_def [symmetric] st)
  show ?case
  proof (cases "len = n")
    case True
    then show ?thesis using s1 unfold by simp
  next
    case False
    then have lt: "n < len" "secoff + n = 4096" "0 < n" using n by auto
    let ?S = "S + 4096"
    have S': "?S < 2 ^ 20" using lt less.prems(10) by linarith
    have "off20 ((secpos + 1) * 0x1000) = (off20 (secpos * 0x1000) + off20 0x1000) mod 2 ^ 20"
      by (simp only: distrib_right off20_add mult_1)
    then have off: "off20 ((secpos + 1) * 0x1000) = ?S" using less.prems(4) S' by (simp add: off20_numeral)
    have len': "len - n \<le> length (drop n buf)" "?S + 0 + (len - n) \<le> 2 ^ 20" "len - n < len"
      using less.prems(9,10) lt by auto
    have w1: "length (win s1) = 1024" using becomesD [OF s1(2)] less.prems(2) by simp
    have IH: "becomes (mem_write (?S + 0) (take (len - n) (drop n buf)) (mem (chip s1))) s1
        (fls_write_loop spi heap (secpos + 1) 0 (drop n buf) (len - n) c1 s1)"
      using less.prems(5,6) S' becomesD [OF s1(2)] by (intro less.IH [OF len'(3) less.prems(1) w1 s1(1) off _ _ _ _ len'(1,2)]) auto
    have "mem_write ?S (take (len - n) (drop n buf)) (mem_write (S + secoff) (take n buf) (mem (chip s)))
        = mem_write (S + secoff) (take n buf @ take (len - n) (drop n buf)) (mem (chip s))"
      using mem_write_append [of "S + secoff" "take n buf"] lt less.prems(9) by (simp add: add.assoc)
    also have "take n buf @ take (len - n) (drop n buf) = take len buf"
      using lt take_add [of n "len - n" buf] by simp
    finally show ?thesis
      using becomes_trans [OF s1(2) IH] becomesD [OF s1(2)] unfold False by simp
  qed
qed

subsection \<open>Capacity\<close>

lemma getFlashDensity_ok:
  assumes "length (win s) = 1024" "getFlashDensity spi s = (density, s')"
  shows "density = ident_density (ident (chip s)) \<and> becomes (mem (chip s)) s s'"
proof -
  let ?s1 = "spi_run spi 0x2c09F 0x10000000 s"
  obtain w d where wd: "spi 0x2c09F 0x10000000 (win s) (chip s) = (w, d)" by fastforce
  have "de32 (take 4 w) AND 0xFFFFFF = ident (chip s) \<and> mem d = mem (chip s) \<and> keep d = keep (chip s)"
    using read_ident [OF _ wd] assms by simp
  moreover have "getFlashDensity spi s = (ident_density (win_word ?s1 AND 0xFFFFFF), ?s1)"
    by (simp only: getFlashDensity_def ident_density_def Let_def)
  moreover have "win_word ?s1 = de32 (take 4 w)"
    using wd by (simp add: spi_run_def win_word_def)
  ultimately show ?thesis
    using assms(2) wd spi_run_becomes [of "0x2c09F" "0x10000000" s] by simp
qed

end

subsection \<open>The contract of the driver\<close>

text \<open>
  What the users of the flash driver rely on: \<open>usable\<close> states, in which a range inside the chip can be
  read and, above the protected area, written, and refused requests that change nothing.
\<close>

locale flash_store =
  fixes rd :: "u32 \<Rightarrow> bytes option \<Rightarrow> nat \<Rightarrow> 's \<Rightarrow> int \<times> bytes option \<times> 's"
    and wr :: "u32 \<Rightarrow> bytes option \<Rightarrow> nat \<Rightarrow> 's \<Rightarrow> int \<times> 's"
    and contents :: "'s \<Rightarrow> nat \<Rightarrow> u8"
    and capacity :: "'s \<Rightarrow> nat"
    and usable :: "'s \<Rightarrow> bool"
  assumes read_ok: "usable s \<Longrightarrow> 0 < n \<Longrightarrow> n \<le> length buf \<Longrightarrow> fls_off addr + n \<le> capacity s \<Longrightarrow>
      \<exists>s'. rd addr (Some buf) n s = (TLS_FLS_STATUS_OK, Some (bsplice 0 (mem_bytes (contents s) (fls_off addr) n) buf), s')
        \<and> usable s' \<and> contents s' = contents s \<and> capacity s' = capacity s"
    and write_ok: "usable s \<Longrightarrow> 0 < n \<Longrightarrow> n \<le> length buf \<Longrightarrow> 0x2000 \<le> fls_off addr \<Longrightarrow>
      fls_off addr + n \<le> capacity s \<Longrightarrow>
      \<exists>s'. wr addr (Some buf) n s = (TLS_FLS_STATUS_OK, s')
        \<and> usable s' \<and> contents s' = mem_write (fls_off addr) (take n buf) (contents s) \<and> capacity s' = capacity s"
    and write_refused: "usable s \<Longrightarrow> capacity s \<le> fls_off addr \<Longrightarrow>
      \<exists>s'. wr addr ob n s = (TLS_FLS_STATUS_EINVAL, s') \<and> usable s' \<and> contents s' = contents s \<and> capacity s' = capacity s"

sublocale flash_store \<subseteq> block: block_store "\<lambda>a b n s. Some (rd a b n s)" "\<lambda>a b n s. Some (wr a b n s)" contents capacity usable
  "\<lambda>a. Some (fls_off a)" "0x2000"
  by unfold_locales (auto simp: read_ok write_ok write_refused)

context flash_store
begin

lemma read_after_write:
  assumes "usable s" "0 < length data" "0x2000 \<le> fls_off addr" "fls_off addr + length data \<le> capacity s"
    and "length buf = length data"
  shows "\<exists>s1 s2. wr addr (Some data) (length data) s = (TLS_FLS_STATUS_OK, s1)
    \<and> rd addr (Some buf) (length data) s1 = (TLS_FLS_STATUS_OK, Some data, s2)"
  using block.get_after_put [of s data addr "fls_off addr" buf] assms by simp

end

subsection \<open>The driver keeps it\<close>

definition fls_capacity :: "('d \<Rightarrow> u32) \<Rightarrow> 'd fls \<Rightarrow> nat" where
  "fls_capacity ident s = unat (ident_density (ident (chip s)))"

locale area_driver = nor_area +
  fixes heap :: allocator
  assumes heap_total: "alloc_total heap"
begin

lemma becomes_sem:
  assumes "becomes m (sem_acquire s) t"
  shows "becomes m s (sem_release t)"
  using assms by (simp add: becomes_def drv_eq_def sem_acquire_def sem_release_def)

lemma becomes_capacity: "becomes m s t \<Longrightarrow> fls_capacity ident t = fls_capacity ident s"
  by (simp add: becomes_def fls_capacity_def)

lemma density_ready:
  assumes "fls_ready s" "getFlashDensity spi s = (density, s')"
  shows "inside_fls s" "inside_fls s'" "unat density = fls_capacity ident s" "becomes (mem (chip s)) s s'"
    "length (win s') = 1024" "mem (chip s') = mem (chip s)" "ident (chip s') = ident (chip s)"
  using getFlashDensity_ok [OF _ assms(2)] assms(1)
  by (auto simp: fls_ready_def fls_capacity_def becomes_def drv_eq_def)

lemma capacity_le: "fls_capacity ident s \<le> 2 ^ 20"
  unfolding fls_capacity_def by (rule ident_density_le)

lemma tls_fls_read_ok:
  assumes "fls_ready s" "0 < n" "n \<le> length buf" "fls_off addr + n \<le> fls_capacity ident s"
  shows "\<exists>s'. tls_fls_read spi heap addr (Some buf) n s =
      (TLS_FLS_STATUS_OK, Some (bsplice 0 (mem_bytes (mem (chip s)) (fls_off addr) n) buf), s')
    \<and> becomes (mem (chip s)) s s'"
proof -
  obtain density s1 where d: "getFlashDensity spi s = (density, s1)" by fastforce
  note dr = density_ready [OF assms(1) d]
  obtain r b s2 where f: "flashRead spi heap addr buf n (sem_acquire s1) = (r, b, s2)" by (metis prod_cases3)
  have off: "off20 addr = fls_off addr"
    using assms(2,4) capacity_le [of s] by (intro fls_off_off20) linarith
  have sm: "length (win (sem_acquire s1)) = 1024" "mem (chip (sem_acquire s1)) = mem (chip s)"
    using dr by (simp_all add: sem_acquire_def)
  have fr: "b = bsplice 0 (mem_bytes (mem (chip s)) (fls_off addr) n) buf" "becomes (mem (chip s)) (sem_acquire s1) s2"
    using flashRead_ok [OF heap_total sm(1) _ _ _ f] sm(2) off assms capacity_le [of s] by auto
  have "\<not> density \<le> addr AND 0x7FFFFFF"
    using assms(2,4) dr(3) fls_off_less [of addr density] by (simp add: not_le)
  then show ?thesis
    using d f fr becomes_trans [OF dr(4) becomes_sem [OF fr(2)]] dr(1) assms(2)
    by (simp add: tls_fls_read_def Let_def)
qed

lemma tls_fls_write_ok:
  assumes "fls_ready s" "0 < n" "n \<le> length buf" "low (keep (chip s)) \<le> fls_off addr" "fls_off addr + n \<le> fls_capacity ident s"
  shows "\<exists>s'. tls_fls_write spi heap addr (Some buf) n s = (TLS_FLS_STATUS_OK, s')
    \<and> becomes (mem_write (fls_off addr) (take n buf) (mem (chip s))) s s'"
proof -
  obtain density s1 where d: "getFlashDensity spi s = (density, s1)" by fastforce
  note dr = density_ready [OF assms(1) d]
  let ?s2 = "sem_acquire s1"
  obtain cache where c: "heap (allocs ?s2) 0x1000 = Some cache" "length cache = 0x1000"
    using alloc_totalE [OF heap_total] .
  let ?s3 = "?s2\<lparr>allocs := Suc (allocs ?s2)\<rparr>"
  let ?off = "addr AND 0x7FFFFFF" and ?a = "fls_off addr"
  let ?s4 = "fls_write_loop spi heap (?off div 0x1000) (unat (?off mod 0x1000)) buf n cache ?s3"
  have lt: "?a < 2 ^ 20" "?a + n \<le> 2 ^ 20" using assms(2,5) capacity_le [of s] by linarith+
  define S where "S = ?a - ?a mod 4096"
  have S: "4096 dvd S" "S + ?a mod 4096 = ?a" "low (keep (chip s)) \<le> S" "S < 2 ^ 20"
    using lt(1) low_sector [OF assms(4)] sector_floor [of ?a] by (auto simp: S_def)
  have "becomes (mem_write ?a (take n buf) (mem (chip s))) ?s3 ?s4"
    using fls_write_loop_ok [OF heap_total, of ?s3 cache "?off div 0x1000" S "unat (?off mod 0x1000)" n buf]
      sector_off20 [OF lt(1)] S lt assms(3) c(2) dr becomesD [OF dr(4)] by (simp add: S_def [symmetric] sem_acquire_def)
  then have "becomes (mem_write ?a (take n buf) (mem (chip s))) ?s2 ?s4"
    using becomes_trans [OF becomes_allocs] by blast
  then have "becomes (mem_write ?a (take n buf) (mem (chip s))) s (sem_release ?s4)"
    using becomes_trans [OF dr(4)] becomes_sem by blast
  moreover have "\<not> density \<le> ?off"
    using assms(2,5) dr(3) fls_off_less [of addr density] by (simp add: not_le)
  ultimately show ?thesis
    using d c dr(1) assms(2) by (simp add: tls_fls_write_def tls_mem_alloc_def Let_def)
qed

lemma tls_fls_write_out_of_range:
  assumes "fls_ready s" "fls_capacity ident s \<le> fls_off addr"
  shows "\<exists>s'. tls_fls_write spi heap addr buf n s = (TLS_FLS_STATUS_EINVAL, s') \<and> becomes (mem (chip s)) s s'"
proof -
  obtain density s1 where d: "getFlashDensity spi s = (density, s1)" by fastforce
  note dr = density_ready [OF assms(1) d]
  have "density \<le> addr AND 0x7FFFFFF"
    using assms(2) dr(3) fls_off_less [of addr density] by (simp add: not_le [symmetric])
  then show ?thesis
    using d dr(1,4) by (simp add: tls_fls_write_def Let_def)
qed

lemma tls_fls_erase_ok:
  assumes "fls_ready s" "unat sector < fls_capacity ident s div 0x1000 + 0x8000" "low (keep (chip s)) \<le> off20 (sector * 0x1000)"
  shows "\<exists>s'. tls_fls_erase spi sector s = (TLS_FLS_STATUS_OK, s')
    \<and> becomes (mem_erase (off20 (sector * 0x1000)) (mem (chip s))) s s'"
proof -
  obtain density s1 where d: "getFlashDensity spi s = (density, s1)" by fastforce
  note dr = density_ready [OF assms(1) d]
  let ?s2 = "sem_acquire s1" and ?m = "mem_erase (off20 (sector * 0x1000)) (mem (chip s))"
  have "becomes ?m ?s2 (eraseSector spi (sector * 0x1000) ?s2)"
    using eraseSector_ok [of ?s2 "sector * 0x1000"] assms(3) becomesD [OF dr(4)] by (simp add: sem_acquire_def)
  then have "becomes ?m s (sem_release (eraseSector spi (sector * 0x1000) ?s2))"
    using becomes_trans [OF dr(4)] becomes_sem by blast
  moreover have "unat (density div 0x1000 + 0x8000) = fls_capacity ident s div 0x1000 + 0x8000"
    using sector_limit_unat [of density] dr(3) capacity_le [of s] by simp
  then have "\<not> density div 0x1000 + 0x8000 \<le> sector"
    using assms(2) by (simp add: word_le_nat_alt)
  ultimately show ?thesis
    using d dr(1) by (simp add: tls_fls_erase_def Let_def)
qed

end

locale nor_driver = area_driver spi mem wel ident "\<lambda>_. ()" "\<lambda>_. 0x2000" heap
  for spi :: "'d spi" and mem :: "'d \<Rightarrow> nat \<Rightarrow> u8" and wel :: "'d \<Rightarrow> bool" and ident :: "'d \<Rightarrow> u32" and heap :: allocator

sublocale nor_driver \<subseteq> flash_store "tls_fls_read spi heap" "tls_fls_write spi heap"
  "\<lambda>s. mem (chip s)" "fls_capacity ident" fls_ready
proof unfold_locales
  fix s n addr and buf :: bytes
  assume "fls_ready s" "0 < n" "n \<le> length buf" "fls_off addr + n \<le> fls_capacity ident s"
  then show "\<exists>s'. tls_fls_read spi heap addr (Some buf) n s =
      (TLS_FLS_STATUS_OK, Some (bsplice 0 (mem_bytes (mem (chip s)) (fls_off addr) n) buf), s')
    \<and> fls_ready s' \<and> mem (chip s') = mem (chip s) \<and> fls_capacity ident s' = fls_capacity ident s"
    using tls_fls_read_ok becomes_ready becomes_capacity becomesD by blast
next
  fix s n addr and buf :: bytes
  assume "fls_ready s" "0 < n" "n \<le> length buf" "0x2000 \<le> fls_off addr" "fls_off addr + n \<le> fls_capacity ident s"
  then show "\<exists>s'. tls_fls_write spi heap addr (Some buf) n s = (TLS_FLS_STATUS_OK, s') \<and> fls_ready s'
    \<and> mem (chip s') = mem_write (fls_off addr) (take n buf) (mem (chip s)) \<and> fls_capacity ident s' = fls_capacity ident s"
    using tls_fls_write_ok becomes_ready becomes_capacity becomesD by blast
next
  fix s n addr and buf :: "bytes option"
  assume "fls_ready s" "fls_capacity ident s \<le> fls_off addr"
  then show "\<exists>s'. tls_fls_write spi heap addr buf n s = (TLS_FLS_STATUS_EINVAL, s') \<and> fls_ready s'
    \<and> mem (chip s') = mem (chip s) \<and> fls_capacity ident s' = fls_capacity ident s"
    using tls_fls_write_out_of_range becomes_ready becomes_capacity becomesD by blast
qed

context nor_driver
begin

lemmas nor_becomes_def = becomes_def
lemmas nor_density_ready = density_ready
lemmas nor_read_ok = tls_fls_read_ok
lemmas nor_write_ok = tls_fls_write_ok
lemmas nor_erase_ok = tls_fls_erase_ok

lemma driver_is_store:
  "flash_store (tls_fls_read spi heap) (tls_fls_write spi heap) (\<lambda>s. mem (chip s)) (fls_capacity ident) fls_ready"
  by unfold_locales

end

text \<open>The driver over the concrete chip, with an allocator that hands out zeroed blocks.\<close>

definition blank_fls :: "nor fls" where
  "blank_fls = \<lparr>win = replicate 1024 0, chip = blank_nor, inside_fls = True, fls_sem = 1, gsflscache = None,
     gsSecOffset = 0, gsSector = 0, allocs = 0\<rparr>"

interpretation nor_drv: nor_driver nor_exec nor_mem nor_wel "\<lambda>d. nor_ident d AND 0xFFFFFF" zero_heap
  by unfold_locales simp

lemma blank_fls_ready [simp]: "fls_ready blank_fls"
  by (simp add: fls_ready_def blank_fls_def)

lemma blank_fls_fields [simp]: "inside_fls blank_fls" "length (win blank_fls) = 1024"
  "gsSector blank_fls = 0" "gsflscache blank_fls = None"
  by (simp_all add: blank_fls_def)

lemma blank_fls_capacity [simp]: "fls_capacity (\<lambda>d. nor_ident d AND 0xFFFFFF) blank_fls = 2 ^ 20"
  by (simp add: fls_capacity_def blank_fls_def blank_nor_def ident_density_def)

section \<open>The semaphore\<close>

text \<open>Whatever the chip and the allocator do, no transaction touches the semaphore.\<close>

lemma sem_spi_run [simp]: "fls_sem (spi_run spi cmd addr s) = fls_sem s" "inside_fls (spi_run spi cmd addr s) = inside_fls s"
  by (simp_all add: spi_run_def split: prod.splits)

lemma sem_getFlashDensity: "getFlashDensity spi s = (d, s') \<Longrightarrow> fls_sem s' = fls_sem s \<and> inside_fls s' = inside_fls s"
  by (auto simp: getFlashDensity_def Let_def)

lemma sem_readByCMD: "readByCMD spi addr buf sz mode s = (b, s') \<Longrightarrow> fls_sem s' = fls_sem s"
  by (auto simp: readByCMD_def Let_def)

lemma sem_flashRead_pages: "flashRead_pages spi k fa pos buf cache s = (fa', pos', b, c, s') \<Longrightarrow> fls_sem s' = fls_sem s"
  by (induction k arbitrary: fa pos buf cache s) (auto simp: Let_def dest!: sem_readByCMD split: prod.splits)

lemma sem_flashRead: "flashRead spi heap addr buf sz s = (r, b, s') \<Longrightarrow> fls_sem s' = fls_sem s"
  by (auto simp: flashRead_def tls_mem_alloc_def Let_def dest!: sem_readByCMD sem_flashRead_pages
      split: option.splits prod.splits if_splits)

lemma sem_programPage [simp]: "fls_sem (programPage spi adr sz buf s) = fls_sem s"
  by (simp add: programPage_def programSR_def writeEnable_def win_put_def Let_def)

lemma sem_program_pages [simp]: "fls_sem (program_pages spi adr i k cache s) = fls_sem s"
  by (induction k arbitrary: i s) auto

lemma sem_eraseSector [simp]: "fls_sem (eraseSector spi adr s) = fls_sem s"
  by (simp add: eraseSector_def eraseSR_def writeEnable_def)

lemma sem_fls_write_loop: "fls_sem (fls_write_loop spi heap secpos secoff buf len cache s) = fls_sem s"
proof (induction spi heap secpos secoff buf len cache s rule: fls_write_loop.induct)
  case (1 spi heap secpos secoff buf len cache s)
  show ?case
    by (subst fls_write_loop.simps)
      (auto simp: Let_def fls_write_sector_def "1.IH" dest!: sem_flashRead split: prod.splits if_splits)
qed

lemma sem_chip_erase_loop: "fls_sem (chip_erase_loop spi heap i cache s) = fls_sem s"
proof (induction spi heap i cache s rule: chip_erase_loop.induct)
  case (1 spi heap i cache s)
  show ?case
    by (subst chip_erase_loop.simps)
      (auto simp: Let_def "1.IH" dest!: sem_flashRead sem_getFlashDensity split: prod.splits if_splits)
qed

section \<open>Properties of the driver\<close>

text \<open>C17. \<^verbatim>\<open>tls_fls_read\<close> of a non-empty range inside the chip succeeds, fills the front of the
  caller's buffer with exactly the bytes of the range, whatever page boundaries it crosses, and changes
  neither the chip nor the driver.\<close>

theorem tls_fls_read_returns_contents:
  assumes "nor_driver spi mem wel ident heap" "fls_ready s" "0 < n" "n \<le> length buf"
    and "fls_off addr + n \<le> fls_capacity ident s"
  shows "\<exists>s'. tls_fls_read spi heap addr (Some buf) n s =
      (TLS_FLS_STATUS_OK, Some (mem_bytes (mem (chip s)) (fls_off addr) n @ drop n buf), s')
    \<and> mem (chip s') = mem (chip s) \<and> drv_eq s s'"
  using nor_driver.nor_read_ok [OF assms] nor_driver.nor_becomes_def [OF assms(1)]
  by (auto simp: bsplice_def)

theorem tls_fls_read_returns_contents_witness:
  "\<exists>s'. tls_fls_read nor_exec zero_heap 0x08000100 (Some [1, 2, 3]) 2 blank_fls =
      (TLS_FLS_STATUS_OK, Some [0xFF, 0xFF, 3], s')"
proof -
  have "fls_off 0x08000100 = 256" by (simp add: fls_off_def)
  then have "\<exists>s'. tls_fls_read nor_exec zero_heap 0x08000100 (Some [1, 2, 3]) 2 blank_fls =
      (TLS_FLS_STATUS_OK, Some (mem_bytes (nor_mem (chip blank_fls)) 256 2 @ drop 2 [1, 2, 3]), s')"
    using tls_fls_read_returns_contents [OF nor_drv.nor_driver_axioms blank_fls_ready, of 2 "[1, 2, 3]" "0x08000100"]
    by auto
  then show ?thesis by (simp add: mem_bytes_def blank_fls_def blank_nor_def upt_rec)
qed

text \<open>C3. \<^verbatim>\<open>tls_fls_write\<close> of a non-empty range inside the chip and above the boot sectors succeeds; the
  range then holds the data, every other byte of the chip is what it was (the sectors it erases are
  rewritten around the range), and the driver's own state is unchanged.\<close>

theorem tls_fls_write_replaces_range:
  assumes "nor_driver spi mem wel ident heap" "fls_ready s" "0 < n" "n \<le> length buf" "0x2000 \<le> fls_off addr"
    and "fls_off addr + n \<le> fls_capacity ident s"
  shows "\<exists>s'. tls_fls_write spi heap addr (Some buf) n s = (TLS_FLS_STATUS_OK, s')
    \<and> mem (chip s') = mem_write (fls_off addr) (take n buf) (mem (chip s)) \<and> drv_eq s s'"
  using nor_driver.nor_write_ok [OF assms] nor_driver.nor_becomes_def [OF assms(1)]
  by auto

theorem tls_fls_write_replaces_range_witness:
  "\<exists>s'. tls_fls_write nor_exec zero_heap 0x08003FFE (Some [1, 2, 3]) 3 blank_fls = (TLS_FLS_STATUS_OK, s')
    \<and> nor_mem (chip s') = mem_write 0x3FFE [1, 2, 3] (nor_mem (chip blank_fls))"
  using tls_fls_write_replaces_range [OF nor_drv.nor_driver_axioms blank_fls_ready, of 3 "[1, 2, 3]" "0x08003FFE"]
  by (auto simp: fls_off_def)

text \<open>What \<^verbatim>\<open>tls_fls_write\<close> wrote is what \<^verbatim>\<open>tls_fls_read\<close> returns.\<close>

theorem tls_fls_read_after_write:
  assumes "nor_driver spi mem wel ident heap" "fls_ready s" "0 < length data" "0x2000 \<le> fls_off addr"
    and "fls_off addr + length data \<le> fls_capacity ident s" "length buf = length data"
  shows "\<exists>s1 s2. tls_fls_write spi heap addr (Some data) (length data) s = (TLS_FLS_STATUS_OK, s1)
    \<and> tls_fls_read spi heap addr (Some buf) (length data) s1 = (TLS_FLS_STATUS_OK, Some data, s2)"
  using flash_store.read_after_write [OF nor_driver.driver_is_store [OF assms(1)] assms(2-6)] .

theorem tls_fls_read_after_write_witness:
  "\<exists>s1 s2. tls_fls_write nor_exec zero_heap 0x08002FFF (Some [9, 8]) 2 blank_fls = (TLS_FLS_STATUS_OK, s1)
    \<and> tls_fls_read nor_exec zero_heap 0x08002FFF (Some [0, 0]) 2 s1 = (TLS_FLS_STATUS_OK, Some [9, 8], s2)"
proof -
  have eval: "fls_off 0x08002FFF = 0x2FFF" "length [9, 8 :: u8] = 2" "length [0, 0 :: u8] = 2"
    by (simp_all add: fls_off_def)
  show ?thesis
    using tls_fls_read_after_write
      [OF nor_drv.nor_driver_axioms blank_fls_ready, of "[9, 8]" "0x08002FFF" "[0, 0]", unfolded eval]
    by simp
qed

text \<open>\<^verbatim>\<open>tls_fls_erase\<close> of a sector of the chip above the boot sectors sets its 4096 bytes to 0xFF and
  leaves the other sectors alone.\<close>

theorem tls_fls_erase_blanks_sector:
  assumes "nor_driver spi mem wel ident heap" "fls_ready s"
    and "unat sector < fls_capacity ident s div 0x1000 + 0x8000" "0x2000 \<le> off20 (sector * 0x1000)"
  shows "\<exists>s'. tls_fls_erase spi sector s = (TLS_FLS_STATUS_OK, s') \<and> drv_eq s s'
    \<and> (\<forall>i. mem (chip s') i = (if i div 4096 = off20 (sector * 0x1000) div 4096 then 0xFF else mem (chip s) i))"
  using nor_driver.nor_erase_ok [OF assms] nor_driver.nor_becomes_def [OF assms(1)]
  by (auto simp: mem_erase_def)

theorem tls_fls_erase_blanks_sector_witness:
  "\<exists>s'. tls_fls_erase nor_exec 0x8003 blank_fls = (TLS_FLS_STATUS_OK, s') \<and> nor_mem (chip s') 0x3010 = 0xFF"
  using tls_fls_erase_blanks_sector [OF nor_drv.nor_driver_axioms blank_fls_ready, of "0x8003"]
  by (auto simp: off20_def)

text \<open>Requests before the driver is installed, without a buffer, of no bytes or outside the chip are
  refused with EPERM or EINVAL and leave the contents of the chip as they were.\<close>

theorem flash_requests_refused:
  assumes "nor_driver spi mem wel ident heap" "length (win s) = 1024"
    and "\<not> inside_fls s \<or> n = 0 \<or> buf = None \<or> fls_capacity ident s \<le> fls_off addr"
    and "tls_fls_read spi heap addr buf n s = (r, buf', s1)" "tls_fls_write spi heap addr buf n s = (w, s2)"
  shows "r = (if inside_fls s then TLS_FLS_STATUS_EINVAL else TLS_FLS_STATUS_EPERM) \<and> buf' = buf \<and> w = r
    \<and> mem (chip s1) = mem (chip s) \<and> mem (chip s2) = mem (chip s)"
proof (cases "inside_fls s")
  case False
  then show ?thesis using assms(4,5) by (auto simp: tls_fls_read_def tls_fls_write_def)
next
  case True
  obtain density s0 where d: "getFlashDensity spi s = (density, s0)" by fastforce
  have "fls_ready s" using True assms(2) by (simp add: fls_ready_def)
  note dr = nor_driver.nor_density_ready [OF assms(1) this d]
  have "density \<le> addr AND 0x7FFFFFF \<longleftrightarrow> fls_capacity ident s \<le> fls_off addr"
    using dr(3) fls_off_less [of addr density] by (simp add: not_le [symmetric])
  then show ?thesis
    using assms(3,4,5) True d dr(6) by (auto simp: tls_fls_read_def tls_fls_write_def Let_def split: if_splits option.splits)
qed

theorem flash_requests_refused_witness:
  "fst (tls_fls_read nor_exec zero_heap 0x08100000 (Some [0]) 1 blank_fls) = TLS_FLS_STATUS_EINVAL
    \<and> fst (tls_fls_write nor_exec zero_heap 0x08100000 (Some [0]) 1 blank_fls) = TLS_FLS_STATUS_EINVAL"
proof -
  obtain r b s1 where rd: "tls_fls_read nor_exec zero_heap 0x08100000 (Some [0]) 1 blank_fls = (r, b, s1)"
    by (metis prod_cases3)
  obtain w s2 where wr: "tls_fls_write nor_exec zero_heap 0x08100000 (Some [0]) 1 blank_fls = (w, s2)"
    by fastforce
  show ?thesis
    using flash_requests_refused [OF nor_drv.nor_driver_axioms _ _ rd wr] rd wr
    by (auto simp: fls_off_def)
qed

text \<open>Every exported operation gives the semaphore back on every path, its error paths and failed
  allocations included, whatever the hardware does.\<close>

theorem flash_semaphore_balanced:
  "fls_sem (snd (snd (tls_fls_read spi heap addr buf n s))) = fls_sem s
    \<and> fls_sem (snd (tls_fls_write spi heap addr buf n s)) = fls_sem s
    \<and> fls_sem (snd (tls_fls_erase spi sector s)) = fls_sem s
    \<and> fls_sem (snd (tls_fls_chip_erase spi heap s)) = fls_sem s
    \<and> fls_sem (snd (snd (tls_fls_get_param spi t param s))) = fls_sem s
    \<and> fls_sem (tls_fls_sem_unlock (tls_fls_sem_lock s)) = fls_sem s"
proof (intro conjI)
  show "fls_sem (snd (snd (tls_fls_read spi heap addr buf n s))) = fls_sem s"
    by (auto simp: tls_fls_read_def Let_def sem_acquire_def sem_release_def
        dest!: sem_getFlashDensity sem_flashRead split: prod.splits option.splits)
  show "fls_sem (snd (tls_fls_write spi heap addr buf n s)) = fls_sem s"
    by (auto simp: tls_fls_write_def Let_def sem_acquire_def sem_release_def tls_mem_alloc_def sem_fls_write_loop
        dest!: sem_getFlashDensity split: prod.splits option.splits)
  show "fls_sem (snd (tls_fls_erase spi sector s)) = fls_sem s"
    by (auto simp: tls_fls_erase_def Let_def sem_acquire_def sem_release_def
        dest!: sem_getFlashDensity split: prod.splits)
  show "fls_sem (snd (tls_fls_chip_erase spi heap s)) = fls_sem s"
    by (auto simp: tls_fls_chip_erase_def Let_def sem_acquire_def sem_release_def tls_mem_alloc_def
        sem_chip_erase_loop split: option.splits)
  show "fls_sem (snd (snd (tls_fls_get_param spi t param s))) = fls_sem s"
    by (auto simp: tls_fls_get_param_def Let_def sem_acquire_def sem_release_def
        dest!: sem_getFlashDensity split: prod.splits option.splits)
  show "fls_sem (tls_fls_sem_unlock (tls_fls_sem_lock s)) = fls_sem s"
    by (simp add: tls_fls_sem_lock_def tls_fls_sem_unlock_def sem_acquire_def sem_release_def)
qed

end
