(* ===== verification/Flash_Fast.thy ===== *)
theory Flash_Fast
  imports Flash_Correct
begin

text \<open>
  Buffered sequential writing of the internal flash driver (\<^verbatim>\<open>tls_fls_fast_write_init\<close>,
  \<^verbatim>\<open>tls_fls_fast_write\<close>, \<^verbatim>\<open>tls_fls_fast_write_destroy\<close>), which the firmware update uses. The abstract
  state is a position \<open>P\<close> and the logical contents \<open>fw_view\<close>: the chip overlaid with the part of the
  sector buffer that has been filled. Each call is shown to refine a write at the position, for every
  way the data falls on sector ends and calls.
\<close>

section \<open>Abstract state of a writing session\<close>

definition fw_sector :: "nat \<Rightarrow> u32" where
  "fw_sector P = word_of_nat (0x8000 + P div 4096)"

definition fw_addr :: "nat \<Rightarrow> u32" where
  "fw_addr P = word_of_nat (0x8000000 + P)"

definition fw_at :: "nat \<Rightarrow> 'd fls \<Rightarrow> bool" where
  "fw_at P s \<longleftrightarrow> fls_ready s \<and> gsSector s = fw_sector P
     \<and> (case gsflscache s of None \<Rightarrow> False | Some cache \<Rightarrow> length cache = 4096)"

definition fw_view :: "('d \<Rightarrow> nat \<Rightarrow> u8) \<Rightarrow> nat \<Rightarrow> 'd fls \<Rightarrow> nat \<Rightarrow> u8" where
  "fw_view mem P s = (case gsflscache s of None \<Rightarrow> mem (chip s)
     | Some cache \<Rightarrow> mem_write (P - P mod 4096) (take (P mod 4096) cache) (mem (chip s)))"

text \<open>A run of calls with consecutive pieces of data.\<close>

fun fast_write_chunks :: "'d spi \<Rightarrow> nat \<Rightarrow> bytes list \<Rightarrow> 'd fls \<Rightarrow> 'd fls option" where
  "fast_write_chunks spi P [] s = Some s"
| "fast_write_chunks spi P (c # cs) s =
    (case tls_fls_fast_write spi (fw_addr P) (Some c) (length c) s of
       None \<Rightarrow> None
     | Some (r, s) \<Rightarrow> if r = TLS_FLS_STATUS_OK then fast_write_chunks spi (P + length c) cs s else None)"

section \<open>Sectors of a position\<close>

lemma fw_sector_unat: "P \<le> 2 ^ 20 \<Longrightarrow> unat (fw_sector P) = 0x8000 + P div 4096"
proof -
  assume "P \<le> 2 ^ 20"
  then have "P div 4096 \<le> 2 ^ 20" using div_le_dividend le_trans by blast
  then show ?thesis unfolding fw_sector_def by (intro u32_unat_of_nat) simp
qed

lemma fw_sector_off20: "P < 2 ^ 20 \<Longrightarrow> off20 (fw_sector P * 0x1000) = P - P mod 4096"
proof -
  assume P: "P < 2 ^ 20"
  have "fw_sector P * 0x1000 = word_of_nat ((0x8000 + P div 4096) * 4096)"
    by (simp add: fw_sector_def)
  then have "off20 (fw_sector P * 0x1000) = (0x8000000 + P div 4096 * 4096) mod 2 ^ 20"
    by (simp only: off20_of_nat distrib_right) simp
  also have "\<dots> = (P div 4096 * 4096) mod 2 ^ 20"
    using mod_mult_self1 [of "P div 4096 * 4096" 128 "2 ^ 20"] by (simp only: add.commute) simp
  also have "\<dots> = P div 4096 * 4096"
    using P div_times_less_eq_dividend [of P 4096] by simp
  finally show ?thesis by (simp add: minus_mod_eq_div_mult)
qed

lemma fw_addr_sector:
  assumes "P < 2 ^ 20"
  shows "fw_addr P div 0x1000 = fw_sector P" "unat (fw_addr P mod 0x1000) = P mod 4096"
    "fls_off (fw_addr P) = P"
proof -
  have u: "unat (fw_addr P) = 0x8000000 + P"
    unfolding fw_addr_def using assms by (intro u32_unat_of_nat) simp
  have "unat (fw_addr P div 0x1000) = unat (fw_sector P)"
    using u assms by (simp add: unat_div fw_sector_unat)
  then show "fw_addr P div 0x1000 = fw_sector P" by (rule unsigned_word_eqI)
  have "unat (fw_addr P mod 0x1000) = unat (fw_addr P) mod 4096" by (simp add: unat_mod)
  then show "unat (fw_addr P mod 0x1000) = P mod 4096"
    unfolding u using mod_mult_self2 [of P 4096 32768] by (simp add: add.commute)
  have "fw_addr P AND 0x7FFFFFF = take_bit 27 (fw_addr P)"
    by (simp add: take_bit_eq_mask mask_eq_exp_minus_1)
  then have "fls_off (fw_addr P) = (0x8000000 + P) mod 2 ^ 27"
    by (simp add: fls_off_def take_bit_eq_mod unat_mod u)
  then show "fls_off (fw_addr P) = P" using assms mod_add_self1 [of "2 ^ 27" P] by simp
qed

lemma fw_sector_next: "P mod 4096 + n = 4096 \<Longrightarrow> fw_sector (P + n) = fw_sector P + 1"
proof -
  assume a: "P mod 4096 + n = 4096"
  have "P + n = 4096 * (P div 4096) + 4096" using a mult_div_mod_eq [of 4096 P] by linarith
  then have "(P + n) div 4096 = Suc (P div 4096)" by simp
  then show ?thesis by (simp add: fw_sector_def)
qed

lemma fw_same_sector:
  fixes P n :: nat
  assumes "P mod 4096 + n < 4096"
  shows "(P + n) mod 4096 = P mod 4096 + n" "(P + n) div 4096 = P div 4096"
proof -
  have e: "P + n = (P mod 4096 + n) + 4096 * (P div 4096)" by simp
  show "(P + n) mod 4096 = P mod 4096 + n"
    by (subst e) (simp only: mod_mult_self2 mod_less [OF assms])
  show "(P + n) div 4096 = P div 4096"
    by (subst e, subst div_mult_self2) (simp_all only: div_less [OF assms] add_0_right zero_neq_numeral not_False_eq_True)
qed

lemma fw_at_ready: "fw_at P s \<Longrightarrow> fls_ready s"
  by (simp add: fw_at_def)

section \<open>Refinement\<close>

context nor_driver
begin

lemma tls_fls_flush_sector_ok:
  assumes at: "fw_at P s" "gsflscache s = Some cache" and P: "0x2000 \<le> P" "P < fls_capacity ident s" "4096 dvd fls_capacity ident s"
  shows "\<exists>s'. tls_fls_flush_sector spi s = Some (s'\<lparr>gsSecOffset := 0\<rparr>)
    \<and> becomes (mem_write (P - P mod 4096) cache (mem (chip s))) s s'"
proof -
  let ?S = "P - P mod 4096" and ?m = "mem (chip s)"
  have cache: "length cache = 4096" and ready: "fls_ready s" and sec: "gsSector s = fw_sector P"
    using at by (auto simp: fw_at_def)
  obtain density s1 where d: "getFlashDensity spi s = (density, s1)" by fastforce
  note dr = density_ready [OF ready d]
  have s1: "gsSector s1 = fw_sector P" "gsflscache s1 = Some cache"
    using dr(4) at sec by (simp_all add: becomes_def drv_eq_def)
  have P20: "P < 2 ^ 20" using P capacity_le [of s] by linarith
  note off = fw_sector_off20 [OF P20]
  have S: "4096 dvd ?S" "0x2000 \<le> ?S" "256 dvd ?S" "?S + 4096 \<le> 2 ^ 20"
    using sector_floor [of P] P sector_end_le [OF P20] dvd_trans [of 256 4096 ?S] by auto
  let ?s2 = "eraseSector spi (fw_sector P * 0x1000) s1"
  have s2: "becomes (mem_erase ?S ?m) s ?s2"
    using becomes_trans [OF dr(4) eraseSector_ok [of "fw_sector P * 0x1000" s1]] off S dr by simp
  let ?s3 = "program_pages spi (fw_sector P * 0x1000) 0 16 cache ?s2"
  have "becomes (mem_program ?S cache (mem_erase ?S ?m)) s ?s3"
    using program_pages_ok [of ?s2 cache "fw_sector P * 0x1000" ?S 0 16] becomes_trans [OF s2] becomesD [OF s2]
      S off cache ready by (simp add: bslice_full fls_ready_def)
  then have s3: "becomes (mem_write ?S cache ?m) s ?s3"
    using mem_program_erased [OF S(1) cache] by simp
  have "P div 4096 < fls_capacity ident s div 4096" using P by (auto elim!: dvdE simp: less_mult_imp_div_less)
  then have "\<not> density div 0x1000 + 0x8000 \<le> fw_sector P"
    using sector_limit_unat [of density] fw_sector_unat [of P] dr(3) capacity_le [of s] P20
    by (simp add: word_le_nat_alt)
  moreover have "gsSector ?s2 = fw_sector P"
    using s2 sec by (simp add: becomes_def drv_eq_def)
  ultimately have "tls_fls_flush_sector spi s = Some (?s3\<lparr>gsSecOffset := 0\<rparr>)"
    using d s1 by (simp add: tls_fls_flush_sector_def Let_def)
  then show ?thesis using s3 by blast
qed

lemma fw_at_update:
  assumes "fw_at P s" "fw_sector Q = fw_sector P" "length cache = 4096"
  shows "fw_at Q (s\<lparr>gsflscache := Some cache\<rparr>)"
  using assms by (simp add: fw_at_def fls_ready_def)

text \<open>One turn of the loop: the data goes to the buffer and, when that is full, to the chip.\<close>

lemma fast_write_step:
  assumes at: "fw_at P s" "gsflscache s = Some cache" and P: "0x2000 \<le> P" "P < fls_capacity ident s" "4096 dvd fls_capacity ident s"
    and data: "P mod 4096 + length data \<le> 4096"
  defines "t \<equiv> s\<lparr>gsflscache := Some (bsplice (P mod 4096) data cache)\<rparr>"
  shows "\<exists>s'. (if P mod 4096 + length data \<ge> 0x1000
         then map_option (\<lambda>s. s\<lparr>gsSector := gsSector s + 1\<rparr>) (tls_fls_flush_sector spi t) else Some t) = Some s'
    \<and> fw_at (P + length data) s' \<and> fw_view mem (P + length data) s' = mem_write P data (fw_view mem P s)
    \<and> ident (chip s') = ident (chip s) \<and> fls_sem s' = fls_sem s
    \<and> gsflscache s' = Some (bsplice (P mod 4096) data cache)"
proof -
  let ?S = "P - P mod 4096" and ?c = "bsplice (P mod 4096) data cache" and ?m = "mem (chip s)"
  have cache: "length cache = 4096" using at by (simp add: fw_at_def)
  have c: "length ?c = 4096" using cache data by simp
  have tk: "take (P mod 4096 + length data) ?c = take (P mod 4096) cache @ data"
    using cache data by (simp add: bsplice_def)
  have wr: "mem_write ?S (take (P mod 4096) cache @ data) ?m = mem_write P data (fw_view mem P s)"
    using mem_write_append [of ?S "take (P mod 4096) cache" data ?m] cache at by (simp add: fw_view_def)
  have att: "fw_at P t" unfolding t_def using fw_at_update [OF at(1) refl c] .
  show ?thesis
  proof (cases "P mod 4096 + length data = 4096")
    case False
    then have lt: "P mod 4096 + length data < 4096" using data by simp
    note sm = fw_same_sector [OF lt]
    have "P + length data - (P + length data) mod 4096 = ?S"
      using sm(2) by (simp add: minus_mod_eq_mult_div)
    moreover have "fw_at (P + length data) t"
      unfolding t_def using at(1) c sm(2) by (intro fw_at_update) (simp_all add: fw_sector_def)
    ultimately show ?thesis
      using lt tk wr sm(1) by (simp add: t_def fw_view_def)
  next
    case True
    obtain u where u: "tls_fls_flush_sector spi t = Some (u\<lparr>gsSecOffset := 0\<rparr>)"
      "becomes (mem_write ?S ?c (mem (chip t))) t u"
      using tls_fls_flush_sector_ok [OF att _ P(1)] P by (auto simp: t_def fls_capacity_def)
    have "(P + length data) mod 4096 = 0"
      using True mod_add_left_eq [of P 4096 "length data"] by simp
    moreover have "take 4096 ?c = ?c" using c by simp
    ultimately show ?thesis
      using u att True tk wr fw_sector_next [OF True] fls_ready_drv_eq [of t u]
      by (auto simp: fw_at_def fw_view_def becomes_def drv_eq_def t_def fls_ready_def)
  qed
qed

lemma fast_write_loop_ok:
  assumes "fw_at P s" "0x2000 \<le> P" "4096 dvd fls_capacity ident s" "togo \<le> length buf" "P + togo \<le> fls_capacity ident s"
  shows "\<exists>s'. fast_write_loop spi (P mod 4096) buf togo s = Some s' \<and> fw_at (P + togo) s'
    \<and> fw_view mem (P + togo) s' = mem_write P (take togo buf) (fw_view mem P s)
    \<and> ident (chip s') = ident (chip s) \<and> fls_sem s' = fls_sem s
    \<and> (0 < togo \<and> P mod 4096 + togo \<le> 4096 \<longrightarrow>
         gsflscache s' = Some (bsplice (P mod 4096) (take togo buf) (the (gsflscache s))))"
  using assms
proof (induction togo arbitrary: P buf s rule: less_induct)
  case (less togo)
  show ?case
  proof (cases "togo = 0")
    case True
    then show ?thesis using less.prems(1) by (subst fast_write_loop.simps) simp
  next
    case False
    obtain cache where c: "gsflscache s = Some cache"
      using less.prems(1) by (auto simp: fw_at_def split: option.splits)
    define n where "n = (if togo > 4096 - P mod 4096 then 4096 - P mod 4096 else togo)"
    have n: "0 < n" "n \<le> togo" "P mod 4096 + n \<le> 4096" "n < togo \<Longrightarrow> P mod 4096 + n = 4096"
      using False by (auto simp: n_def less_imp_le)
    have ln: "length (take n buf) = n" using n less.prems(4) by simp
    let ?t = "s\<lparr>gsflscache := Some (bsplice (P mod 4096) (take n buf) cache)\<rparr>"
    obtain s1 where s1: "(if P mod 4096 + n \<ge> 0x1000
         then map_option (\<lambda>s. s\<lparr>gsSector := gsSector s + 1\<rparr>) (tls_fls_flush_sector spi ?t) else Some ?t) = Some s1"
      "fw_at (P + n) s1" "fw_view mem (P + n) s1 = mem_write P (take n buf) (fw_view mem P s)"
      "ident (chip s1) = ident (chip s)" "fls_sem s1 = fls_sem s"
      "gsflscache s1 = Some (bsplice (P mod 4096) (take n buf) cache)"
      using fast_write_step [OF less.prems(1) c less.prems(2) _ less.prems(3), of "take n buf"] less.prems(5) False n ln
      by auto
    have cap: "fls_capacity ident s1 = fls_capacity ident s" using s1(4) by (simp add: fls_capacity_def)
    have unfold: "fast_write_loop spi (P mod 4096) buf togo s = fast_write_loop spi 0 (drop n buf) (togo - n) s1"
      unfolding fast_write_loop.simps [of spi "P mod 4096" buf togo s] c Let_def option.case n_def [symmetric] s1(1)
      using False by simp
    have mem: "mem_write (P + n) (take (togo - n) (drop n buf)) (mem_write P (take n buf) m) = mem_write P (take togo buf) m" for m
      using mem_write_append [of P "take n buf"] ln n take_add [of n "togo - n" buf] by simp
    show ?thesis
    proof (cases "n = togo")
      case True
      then show ?thesis using unfold s1 c by (simp add: fast_write_loop.simps)
    next
      case False
      then have al: "(P + n) mod 4096 = 0" and far: "\<not> P mod 4096 + togo \<le> 4096"
        using n mod_add_left_eq [of P 4096 n] by simp_all
      show ?thesis
        using less.IH [of "togo - n" "P + n" s1 "drop n buf"] s1(2-5) less.prems n cap mem
          far diff_le_mono [OF less.prems(4), of n] unfolding unfold al by (auto simp: add.assoc)
    qed
  qed
qed

lemma tls_fls_fast_write_ok:
  assumes at: "fw_at P s \<or> fls_ready s \<and> gsSector s = 0 \<and> P mod 4096 = 0 \<and> (\<exists>c. gsflscache s = Some c \<and> length c = 4096)"
    and P: "0x2000 \<le> P" "4096 dvd fls_capacity ident s" "0 < length buf" "P + length buf \<le> fls_capacity ident s"
  shows "\<exists>s'. tls_fls_fast_write spi (fw_addr P) (Some buf) (length buf) s = Some (TLS_FLS_STATUS_OK, s')
    \<and> fw_at (P + length buf) s' \<and> fw_view mem (P + length buf) s' = mem_write P buf (fw_view mem P s)
    \<and> fls_capacity ident s' = fls_capacity ident s \<and> fls_sem s' = fls_sem s
    \<and> (P mod 4096 + length buf \<le> 4096 \<longrightarrow>
         gsflscache s' = Some (bsplice (P mod 4096) buf (the (gsflscache s))))"
proof -
  have ready: "fls_ready s" using at by (auto simp: fw_at_def)
  obtain density s1 where d: "getFlashDensity spi s = (density, s1)" by fastforce
  note dr = density_ready [OF ready d]
  have P20: "P < 2 ^ 20" using P capacity_le [of s] by linarith
  note ad = fw_addr_sector [OF P20]
  let ?s2 = "(sem_acquire s1)\<lparr>gsSector := fw_sector P\<rparr>"
  have g: "gsSector s1 = gsSector s" "gsflscache s1 = gsflscache s" "fls_sem s1 = fls_sem s"
    using dr(4) by (simp_all add: becomes_def drv_eq_def)
  have s2: "fw_at P ?s2" "fw_view mem P ?s2 = fw_view mem P s" "fls_capacity ident ?s2 = fls_capacity ident s"
    using at dr g by (auto simp: fw_at_def fw_view_def fls_ready_def sem_acquire_def fls_capacity_def split: option.splits)
  obtain s3 where s3: "fast_write_loop spi (P mod 4096) buf (length buf) ?s2 = Some s3" "fw_at (P + length buf) s3"
    "fw_view mem (P + length buf) s3 = mem_write P buf (fw_view mem P s)" "ident (chip s3) = ident (chip ?s2)"
    "fls_sem s3 = fls_sem s - 1"
    "P mod 4096 + length buf \<le> 4096 \<longrightarrow> gsflscache s3 = Some (bsplice (P mod 4096) buf (the (gsflscache s)))"
    using fast_write_loop_ok [OF s2(1) P(1), of "length buf" buf] s2 P g by (auto simp: sem_acquire_def)
  have "gsSector s = fw_sector P \<or> gsSector s = 0" using at by (auto simp: fw_at_def)
  moreover have "P < fls_capacity ident s" using P(3,4) by linarith
  then have "\<not> density \<le> fw_addr P AND 0x7FFFFFF"
    using dr(3) ad(3) fls_off_less [of "fw_addr P" density] by (simp add: not_le)
  ultimately have "tls_fls_fast_write spi (fw_addr P) (Some buf) (length buf) s = Some (TLS_FLS_STATUS_OK, sem_release s3)"
    using d dr(1) g ad s3(1) P(3) by (auto simp: tls_fls_fast_write_def Let_def sem_acquire_def)
  then show ?thesis
    using s3 s2(3) dr by (auto simp: fw_at_def fw_view_def fls_ready_def sem_release_def sem_acquire_def fls_capacity_def
        split: option.splits)
qed

lemma fast_write_chunks_ok:
  assumes "fw_at P s" "0x2000 \<le> P" "4096 dvd fls_capacity ident s" "\<forall>c \<in> set cs. c \<noteq> []"
    "P + length (concat cs) \<le> fls_capacity ident s"
  shows "\<exists>s'. fast_write_chunks spi P cs s = Some s' \<and> fw_at (P + length (concat cs)) s'
    \<and> fw_view mem (P + length (concat cs)) s' = mem_write P (concat cs) (fw_view mem P s)
    \<and> fls_capacity ident s' = fls_capacity ident s \<and> fls_sem s' = fls_sem s"
  using assms
proof (induction cs arbitrary: P s)
  case Nil
  then show ?case by simp
next
  case (Cons c cs)
  obtain s1 where s1: "tls_fls_fast_write spi (fw_addr P) (Some c) (length c) s = Some (TLS_FLS_STATUS_OK, s1)"
    "fw_at (P + length c) s1" "fw_view mem (P + length c) s1 = mem_write P c (fw_view mem P s)"
    "fls_capacity ident s1 = fls_capacity ident s" "fls_sem s1 = fls_sem s"
    using tls_fls_fast_write_ok [of P s c] Cons.prems by auto
  then show ?case
    using Cons.IH [of "P + length c" s1] Cons.prems mem_write_append [of P c "concat cs"]
    by (auto simp: add.assoc)
qed

lemma tls_fls_fast_write_destroy_ok:
  assumes at: "fw_at P s" "gsflscache s = Some cache" and P: "0x2000 \<le> P" "P < fls_capacity ident s" "4096 dvd fls_capacity ident s"
  shows "\<exists>s'. tls_fls_fast_write_destroy spi s = Some s' \<and> gsflscache s' = None \<and> fls_sem s' = fls_sem s
    \<and> mem (chip s') = mem_write (P - P mod 4096) cache (mem (chip s))
    \<and> fls_ready s' \<and> fls_capacity ident s' = fls_capacity ident s"
proof -
  have at': "fw_at P (sem_acquire s)" "gsflscache (sem_acquire s) = Some cache"
    "fls_capacity ident (sem_acquire s) = fls_capacity ident s"
    using at by (simp_all add: fw_at_def fls_ready_def sem_acquire_def fls_capacity_def)
  obtain u where "tls_fls_flush_sector spi (sem_acquire s) = Some (u\<lparr>gsSecOffset := 0\<rparr>)"
    "becomes (mem_write (P - P mod 4096) cache (mem (chip (sem_acquire s)))) (sem_acquire s) u"
    using tls_fls_flush_sector_ok [OF at'(1,2) P(1)] P at'(3) by auto
  then show ?thesis
    using at by (simp add: tls_fls_fast_write_destroy_def fw_at_def fls_ready_def becomes_def drv_eq_def
        sem_acquire_def sem_release_def fls_capacity_def)
qed

text \<open>Closing brings the chip to the logical contents, up to the rest of the last sector.\<close>

lemma destroy_view:
  assumes "length cache = 4096" "gsflscache s = Some cache" "i < Q \<or> Q - Q mod 4096 + 4096 \<le> i"
  shows "mem_write (Q - Q mod 4096) cache (mem (chip s)) i = fw_view mem Q s i"
proof -
  have "Q - Q mod 4096 + Q mod 4096 = Q" "Q mod 4096 < 4096" by simp_all
  then show ?thesis using assms by (auto simp: fw_view_def mem_write_def min_def)
qed

text \<open>A whole session; \<open>Q\<close> is where the data ends.\<close>

lemma fast_write_session_ok:
  assumes s: "fls_ready s" "gsSector s = 0" "gsflscache s = None"
    and P: "0x2000 \<le> P" "P mod 4096 = 0" "cs \<noteq> []" "\<forall>c \<in> set cs. c \<noteq> []"
    and Q: "Q = P + length (concat cs)" "Q < fls_capacity ident s"
  shows "\<exists>s1 s2 s3. tls_fls_fast_write_init heap s = (TLS_FLS_STATUS_OK, s1)
    \<and> fast_write_chunks spi P cs s1 = Some s2 \<and> tls_fls_fast_write_destroy spi s2 = Some s3
    \<and> gsflscache s3 = None \<and> fls_sem s3 = fls_sem s
    \<and> (\<forall>i. i < Q \<or> Q - Q mod 4096 + 4096 \<le> i \<longrightarrow>
         mem (chip s3) i = mem_write P (concat cs) (mem (chip s)) i)"
proof -
  obtain blk where blk: "heap (allocs s) 0x1000 = Some blk" "length blk = 0x1000"
    using alloc_totalE [OF heap_total] .
  let ?s1 = "s\<lparr>allocs := Suc (allocs s), gsflscache := Some blk\<rparr>"
  have init: "tls_fls_fast_write_init heap s = (TLS_FLS_STATUS_OK, ?s1)"
    using blk s by (simp add: tls_fls_fast_write_init_def tls_mem_alloc_def fls_ready_def)
  have cap: "4096 dvd fls_capacity ident s" "fls_capacity ident ?s1 = fls_capacity ident s"
    by (simp_all add: fls_capacity_def ident_density_sectors)
  obtain c cs' where cs: "cs = c # cs'" using P(3) by (cases cs) auto
  obtain u where u: "tls_fls_fast_write spi (fw_addr P) (Some c) (length c) ?s1 = Some (TLS_FLS_STATUS_OK, u)"
    "fw_at (P + length c) u" "fw_view mem (P + length c) u = mem_write P c (mem (chip s))"
    "fls_capacity ident u = fls_capacity ident s" "fls_sem u = fls_sem s"
    using tls_fls_fast_write_ok [of P ?s1 c] s P Q blk cap cs by (auto simp: fls_ready_def fw_view_def)
  obtain s2 where s2: "fast_write_chunks spi (P + length c) cs' u = Some s2" "fw_at Q s2"
    "fw_view mem Q s2 = mem_write P (concat cs) (mem (chip s))"
    "fls_capacity ident s2 = fls_capacity ident s" "fls_sem s2 = fls_sem s"
    using fast_write_chunks_ok [OF u(2), of cs'] u P Q cap cs mem_write_append [of P c "concat cs'" "mem (chip s)"]
    by (auto simp: add.assoc)
  obtain cache where cache: "gsflscache s2 = Some cache" "length cache = 4096"
    using s2(2) by (auto simp: fw_at_def split: option.splits)
  have "0x2000 \<le> Q" using P Q by simp
  then obtain s3 where s3: "tls_fls_fast_write_destroy spi s2 = Some s3" "gsflscache s3 = None" "fls_sem s3 = fls_sem s2"
    "mem (chip s3) = mem_write (Q - Q mod 4096) cache (mem (chip s2))"
    using tls_fls_fast_write_destroy_ok [OF s2(2) cache(1)] s2(4) Q(2) cap(1) by auto
  have "mem (chip s3) i = fw_view mem Q s2 i" if "i < Q \<or> Q - Q mod 4096 + 4096 \<le> i" for i
    using destroy_view [OF cache(2,1) that] s3(4) by simp
  then show ?thesis using init u(1) s2 s3 cs by auto
qed

text \<open>A session that fills exactly one sector.\<close>

lemma fast_write_one_sector:
  assumes s: "fls_ready s" "gsSector s = 0" "gsflscache s = None"
    and P: "0x2000 \<le> P" "P mod 4096 = 0" "length data = 4096" "P + 4096 < fls_capacity ident s"
  shows "\<exists>s1 s2 s3. tls_fls_fast_write_init heap s = (TLS_FLS_STATUS_OK, s1)
    \<and> tls_fls_fast_write spi (fw_addr P) (Some data) 4096 s1 = Some (TLS_FLS_STATUS_OK, s2)
    \<and> tls_fls_fast_write_destroy spi s2 = Some s3
    \<and> mem (chip s3) = mem_write (P + 4096) data (mem_write P data (mem (chip s)))"
proof -
  obtain blk where blk: "heap (allocs s) 0x1000 = Some blk" "length blk = 0x1000"
    using alloc_totalE [OF heap_total] .
  let ?s1 = "s\<lparr>allocs := Suc (allocs s), gsflscache := Some blk\<rparr>"
  have init: "tls_fls_fast_write_init heap s = (TLS_FLS_STATUS_OK, ?s1)"
    using blk s by (simp add: tls_fls_fast_write_init_def tls_mem_alloc_def fls_ready_def)
  have cap: "4096 dvd fls_capacity ident s" "fls_capacity ident ?s1 = fls_capacity ident s"
    by (simp_all add: fls_capacity_def ident_density_sectors)
  obtain u where u: "tls_fls_fast_write spi (fw_addr P) (Some data) 4096 ?s1 = Some (TLS_FLS_STATUS_OK, u)"
    "fw_at (P + 4096) u" "fw_view mem (P + 4096) u = mem_write P data (mem (chip s))"
    "fls_capacity ident u = fls_capacity ident s" "gsflscache u = Some data"
    using tls_fls_fast_write_ok [of P ?s1 data] s P blk cap by (auto simp: fls_ready_def fw_view_def bsplice_full)
  have al: "(P + 4096) mod 4096 = 0" using P(2) by simp
  have "mem (chip u) = mem_write P data (mem (chip s))"
    using u(3,5) unfolding fw_view_def al by simp
  then show ?thesis
    using tls_fls_fast_write_destroy_ok [OF u(2,5)] u(1,4) init P cap(1) unfolding al by auto
qed

end

section \<open>Properties\<close>



text \<open>A session whose data ends exactly at a sector end also overwrites the following sector: closing it
  flushes the buffer once more, into the sector after the data, with a second copy of the last sector.\<close>

theorem fast_write_overwrites_next_sector:
  assumes "nor_driver spi mem wel ident heap" "fls_ready s" "gsSector s = 0" "gsflscache s = None"
    and "0x2000 \<le> P" "P mod 4096 = 0" "length data = 4096" "P + 4096 < fls_capacity ident s"
  shows "\<exists>s1 s2 s3. tls_fls_fast_write_init heap s = (TLS_FLS_STATUS_OK, s1)
    \<and> tls_fls_fast_write spi (fw_addr P) (Some data) 4096 s1 = Some (TLS_FLS_STATUS_OK, s2)
    \<and> tls_fls_fast_write_destroy spi s2 = Some s3
    \<and> mem_bytes (mem (chip s3)) (P + 4096) 4096 = data"
proof -
  have "mem_bytes (mem_write (P + 4096) data m) (P + 4096) 4096 = data" for m
    using mem_bytes_write_same [of 4096 data "P + 4096" m] assms(7) by simp
  then show ?thesis
    using nor_driver.fast_write_one_sector [OF assms] by metis
qed

theorem fast_write_overwrites_next_sector_witness:
  "\<exists>s3. mem_bytes (nor_mem (chip s3)) 0x4000 4096 = replicate 4096 7
    \<and> (\<exists>s1 s2. tls_fls_fast_write nor_exec (fw_addr 0x3000) (Some (replicate 4096 7)) 4096 s1 = Some (TLS_FLS_STATUS_OK, s2)
         \<and> tls_fls_fast_write_destroy nor_exec s2 = Some s3)"
  using fast_write_overwrites_next_sector [OF nor_drv.nor_driver_axioms blank_fls_ready, of "0x3000" "replicate 4096 7"]
  by auto

end
