(* ===== verification/Dhcp.thy ===== *)
theory Dhcp
  imports Prelude
begin

text \<open>
  The DHCP server of the soft access point, \<^verbatim>\<open>src/Src/App/dhcpserver/dhcp_server.c\<close>, for lwIP 2.0.3 (the
  configured version). The record \<open>dhcp_server\<close> is the static variable \<^verbatim>\<open>DhcpServer\<close> with its table of
  eight clients; \<open>tick_armed\<close> is whether the tick is in lwIP's timer list. A client pointer is an index into
  the table. The network services the code calls are inputs collected in \<open>dhcp_env\<close> (whether memory and
  packet buffers are available, the list of associated stations, the own MAC address), and what the server
  sends is returned as a list of \<open>dhcp_out\<close>.
\<close>

datatype DHCP_CLIENT_STATE = DHCP_CLIENT_STATE_IDLE | DHCP_CLIENT_STATE_SELECT
  | DHCP_CLIENT_STATE_REQUEST | DHCP_CLIENT_STATE_BIND

record dhcp_client =
  State :: DHCP_CLIENT_STATE
  Timeout :: u32
  IpAddr :: u32
  MacAddr :: bytes
  Lease :: u32

record dhcp_server =
  Enable :: bool
  Socket :: bool
  ServerIpAddr :: u32
  StartIpAddr :: u32
  SubnetMask :: u32
  GateWay :: u32
  Dns1 :: u32
  Dns2 :: u32
  LeaseTime :: u32
  Clients :: "dhcp_client list"
  tick_armed :: bool

record dhcp_env =
  mem_ok :: bool
  pbuf_ok :: bool
  sta_num :: nat
  sta_buf :: bytes
  own_mac :: bytes

datatype dhcp_out = Udp_send u32 u16 bytes | Arp_static u32 bytes

definition zero_mac :: bytes where "zero_mac = [0, 0, 0, 0, 0, 0]"

definition DHCP_MSG_DISCOVER :: u8 where "DHCP_MSG_DISCOVER = 1"
definition DHCP_MSG_OFFER :: u8 where "DHCP_MSG_OFFER = 2"
definition DHCP_MSG_REQUEST :: u8 where "DHCP_MSG_REQUEST = 3"
definition DHCP_MSG_DECLINE :: u8 where "DHCP_MSG_DECLINE = 4"
definition DHCP_MSG_ACK :: u8 where "DHCP_MSG_ACK = 5"
definition DHCP_MSG_NAK :: u8 where "DHCP_MSG_NAK = 6"
definition DHCP_MSG_RELEASE :: u8 where "DHCP_MSG_RELEASE = 7"
definition DHCP_MSG_INFORM :: u8 where "DHCP_MSG_INFORM = 8"
definition DHCP_DEFAULT_LEASE_TIME :: u32 where "DHCP_DEFAULT_LEASE_TIME = 7200"
definition DHCP_DEFFAULT_TIMEOUT :: u32 where "DHCP_DEFFAULT_TIMEOUT = 10"
definition DHCP_MAGIC :: u32 where "DHCP_MAGIC = 0x63825363"

lemmas dhcp_consts = DHCP_MSG_DISCOVER_def DHCP_MSG_OFFER_def DHCP_MSG_REQUEST_def DHCP_MSG_DECLINE_def
  DHCP_MSG_ACK_def DHCP_MSG_NAK_def DHCP_MSG_RELEASE_def DHCP_MSG_INFORM_def
  DHCP_DEFAULT_LEASE_TIME_def DHCP_DEFFAULT_TIMEOUT_def DHCP_MAGIC_def

section \<open>Stations and the tick\<close>

definition CheckMacIsValid :: "dhcp_env \<Rightarrow> bytes \<Rightarrow> bool" where
  "CheckMacIsValid env mac \<longleftrightarrow> mem_ok env \<and> list_ex (\<lambda>cnt. bslice (6 * cnt) 6 (sta_buf env) = mac) [0..<sta_num env]"

definition tick_client :: "dhcp_env \<Rightarrow> dhcp_client \<Rightarrow> dhcp_client" where
  "tick_client env c =
    (if State c = DHCP_CLIENT_STATE_REQUEST then
       (if Timeout c \<noteq> 0 then
          (let c = c\<lparr>Timeout := Timeout c - 1\<rparr>
           in if Timeout c = 0 then c\<lparr>MacAddr := zero_mac, State := DHCP_CLIENT_STATE_IDLE\<rparr> else c)
        else c)
     else if State c = DHCP_CLIENT_STATE_BIND then
       (let (over, c) = (if Lease c \<noteq> 0 then (Lease c - 1 = 0, c\<lparr>Lease := Lease c - 1\<rparr>) else (False, c))
        in if over then c\<lparr>State := DHCP_CLIENT_STATE_IDLE\<rparr>
           else if \<not> CheckMacIsValid env (MacAddr c) then c\<lparr>State := DHCP_CLIENT_STATE_IDLE\<rparr>
           else c)
     else c)"

definition DhcpTickHandle :: "dhcp_env \<Rightarrow> dhcp_server \<Rightarrow> dhcp_server" where
  "DhcpTickHandle env s = (if \<not> Enable s then s\<lparr>tick_armed := False\<rparr>
     else s\<lparr>Clients := map (tick_client env) (Clients s), tick_armed := True\<rparr>)"

section \<open>Options of a message\<close>

record dhcp_opts =
  Ret :: u8
  MsgType :: u8
  ReqIpAddr :: u32
  ServerId :: u32

text \<open>
  The options up to the end of the message structure. Reading at or past that end is undefined, the value
  \<open>None\<close>: the loop tests \<^verbatim>\<open>*pDhcpOptions\<close> before it tests the pointer against the end.
\<close>

function ParseDhcpOptions :: "bytes \<Rightarrow> dhcp_opts \<Rightarrow> dhcp_opts option" where
  "ParseDhcpOptions [] a = None"
| "ParseDhcpOptions (t # r) a =
    (if t = 255 then Some a
     else if t = 0 then ParseDhcpOptions r a
     else case r of [] \<Rightarrow> None
     | Len # v \<Rightarrow>
        if t = 53 then
          (case v of [] \<Rightarrow> None
           | x # _ \<Rightarrow> ParseDhcpOptions (drop (unat Len) v) (a\<lparr>MsgType := x, Ret := Ret a OR 0x01\<rparr>))
        else if t = 50 then
          (if length v < 4 then None
           else ParseDhcpOptions (drop (unat Len) v) (a\<lparr>ReqIpAddr := de32 (take 4 v), Ret := Ret a OR 0x02\<rparr>))
        else if t = 54 then
          (if length v < 4 then None
           else ParseDhcpOptions (drop (unat Len) v) (a\<lparr>ServerId := de32 (take 4 v), Ret := Ret a OR 0x04\<rparr>))
        else ParseDhcpOptions (drop (unat Len) v) a)"
  by pat_completeness auto
termination
  by (relation "measure (\<lambda>(bs, a). length bs)") auto

section \<open>The client table\<close>

record client_scan =
  pFreeClient :: "nat option"
  pReqClient :: "nat option"
  pMyHistoryClient :: "nat option"
  pHistoryClient :: "nat option"
  pMyClient :: "nat option"
  IpUnavailable :: bool

definition scan_start :: client_scan where
  "scan_start = \<lparr>pFreeClient = None, pReqClient = None, pMyHistoryClient = None, pHistoryClient = None,
     pMyClient = None, IpUnavailable = False\<rparr>"

definition scan_entry :: "bytes \<Rightarrow> u32 \<Rightarrow> nat \<Rightarrow> dhcp_client \<Rightarrow> client_scan \<Rightarrow> client_scan" where
  "scan_entry mac req i c a =
    (if State c = DHCP_CLIENT_STATE_IDLE then
       a\<lparr>pMyHistoryClient := if pMyHistoryClient a = None \<and> MacAddr c = mac then Some i else pMyHistoryClient a,
         pReqClient := if pReqClient a = None \<and> IpAddr c = req then Some i else pReqClient a,
         pFreeClient := if pFreeClient a = None \<and> MacAddr c = zero_mac then Some i else pFreeClient a,
         pHistoryClient := if pHistoryClient a = None \<and> MacAddr c \<noteq> zero_mac then Some i else pHistoryClient a\<rparr>
     else if MacAddr c = mac then a\<lparr>pMyClient := Some i\<rparr>
     else if IpAddr c = req then a\<lparr>IpUnavailable := True\<rparr>
     else a)"

fun scan_table :: "bytes \<Rightarrow> u32 \<Rightarrow> nat \<Rightarrow> dhcp_client list \<Rightarrow> client_scan \<Rightarrow> client_scan" where
  "scan_table mac req i [] a = a"
| "scan_table mac req i (c # cs) a = scan_table mac req (Suc i) cs (scan_entry mac req i c a)"

text \<open>Ending a negotiation: the entry becomes idle, and forgets the client unless it was bound.\<close>

definition drop_client :: "nat \<Rightarrow> dhcp_client list \<Rightarrow> dhcp_client list" where
  "drop_client i cs = (let c = cs ! i;
       c = (if State c \<noteq> DHCP_CLIENT_STATE_BIND then c\<lparr>MacAddr := zero_mac\<rparr> else c)
     in cs[i := c\<lparr>State := DHCP_CLIENT_STATE_IDLE\<rparr>])"

definition lookup_discover :: "client_scan \<Rightarrow> dhcp_client list \<Rightarrow> nat option \<times> dhcp_client list" where
  "lookup_discover a cs =
    (case pMyClient a of
       Some m \<Rightarrow>
        (let cs = cs[m := (cs ! m)\<lparr>State := DHCP_CLIENT_STATE_IDLE\<rparr>]
         in case pReqClient a of
              Some q \<Rightarrow>
               (Some q, if State (cs ! m) \<noteq> DHCP_CLIENT_STATE_BIND then cs[m := (cs ! m)\<lparr>MacAddr := zero_mac\<rparr>] else cs)
            | None \<Rightarrow> (Some m, cs))
     | None \<Rightarrow>
        ((if pReqClient a \<noteq> None then pReqClient a
          else if pMyHistoryClient a \<noteq> None then pMyHistoryClient a
          else if pFreeClient a \<noteq> None then pFreeClient a
          else pHistoryClient a), cs))"

definition lookup_request :: "dhcp_server \<Rightarrow> u32 \<Rightarrow> client_scan \<Rightarrow> dhcp_client list \<Rightarrow> nat option \<times> dhcp_client list" where
  "lookup_request s srv a cs =
    (let mine = (srv = 0 \<or> ServerIpAddr s = srv)
     in case pMyClient a of
          Some m \<Rightarrow>
           (if IpUnavailable a then (None, drop_client m cs)
            else case pReqClient a of
              Some q \<Rightarrow> (if mine then Some q else None, drop_client m cs)
            | None \<Rightarrow> (if mine then Some m else None, cs))
        | None \<Rightarrow> (if IpUnavailable a then None else if mine then pReqClient a else None, cs))"

definition lookup_release :: "client_scan \<Rightarrow> dhcp_client list \<Rightarrow> nat option \<times> dhcp_client list" where
  "lookup_release a cs = (None, case pMyClient a of Some m \<Rightarrow> drop_client m cs | None \<Rightarrow> cs)"

definition ClientTableLookup :: "bytes \<Rightarrow> u8 \<Rightarrow> u32 \<Rightarrow> u32 \<Rightarrow> dhcp_server \<Rightarrow> nat option \<times> dhcp_server" where
  "ClientTableLookup mac msg req srv s =
    (let a = scan_table mac req 0 (Clients s) scan_start;
         (ret, cs) =
           (if msg = DHCP_MSG_DISCOVER then lookup_discover a (Clients s)
            else if msg = DHCP_MSG_REQUEST then lookup_request s srv a (Clients s)
            else if msg = DHCP_MSG_RELEASE then lookup_release a (Clients s)
            else if msg = DHCP_MSG_DECLINE then lookup_release a (Clients s)
            else (None, Clients s))
     in (ret, s\<lparr>Clients := (case ret of None \<Rightarrow> cs | Some i \<Rightarrow> cs[i := (cs ! i)\<lparr>MacAddr := mac\<rparr>])\<rparr>))"

section \<open>Messages sent\<close>

text \<open>The zeroed message structure with the fields the code sets, up to the options.\<close>

definition dhcp_header :: "u32 \<Rightarrow> u32 \<Rightarrow> u32 \<Rightarrow> bytes \<Rightarrow> bytes" where
  "dhcp_header xid yiaddr siaddr mac =
    [2, 1, 6, 0] @ le32 (swap32 xid) @ [0, 0, 0, 0] @ [0, 0, 0, 0] @ le32 yiaddr @ le32 siaddr @ [0, 0, 0, 0]
     @ take 6 mac @ replicate 10 0 @ replicate 64 0 @ replicate 128 0 @ le32 (swap32 DHCP_MAGIC)"

definition option_addr :: "u8 \<Rightarrow> u32 \<Rightarrow> bytes" where
  "option_addr code a = [code, 4] @ le32 a"

definition option_dns :: "u32 \<Rightarrow> u32 \<Rightarrow> bytes" where
  "option_dns dns1 dns2 = [6, 8] @ le32 dns1 @ le32 dns2"

definition option_msg_type :: "u8 \<Rightarrow> bytes" where
  "option_msg_type t = [53, 1, t]"

definition option_lease_time :: "u32 \<Rightarrow> bytes" where
  "option_lease_time t = [51, 4] @ le32 (swap32 t)"

definition lease_options :: "u8 \<Rightarrow> dhcp_server \<Rightarrow> bytes" where
  "lease_options t s = option_msg_type t @ option_lease_time DHCP_DEFAULT_LEASE_TIME
     @ option_addr 54 (ServerIpAddr s) @ option_addr 1 (SubnetMask s) @ option_addr 3 (GateWay s)
     @ option_dns (Dns1 s) (Dns2 s) @ [255]"

definition DHCPNakGenAndSend :: "dhcp_env \<Rightarrow> bytes \<Rightarrow> u32 \<Rightarrow> dhcp_server \<Rightarrow> dhcp_out list" where
  "DHCPNakGenAndSend env mac xid s = (if \<not> pbuf_ok env then []
     else [Udp_send 0xFFFFFFFF 68 (dhcp_header xid 0 (ServerIpAddr s) mac @ option_msg_type DHCP_MSG_NAK @ [255])])"

definition send_lease :: "dhcp_client \<Rightarrow> bytes \<Rightarrow> u16 \<Rightarrow> bytes \<Rightarrow> dhcp_out list" where
  "send_lease c mac flags msg = (if drop_bit 15 flags = 1 then [Udp_send 0xFFFFFFFF 68 msg]
     else [Arp_static (IpAddr c) mac, Udp_send (IpAddr c) 68 msg])"

definition DHCPAckGenAndSend :: "dhcp_env \<Rightarrow> dhcp_client \<Rightarrow> bytes \<Rightarrow> u32 \<Rightarrow> u16 \<Rightarrow> dhcp_server \<Rightarrow> dhcp_out list" where
  "DHCPAckGenAndSend env c mac xid flags s = (if \<not> pbuf_ok env then []
     else send_lease c mac flags (dhcp_header xid (IpAddr c) 0 mac @ lease_options DHCP_MSG_ACK s))"

definition DHCPOfferGenAndSend :: "dhcp_env \<Rightarrow> dhcp_client \<Rightarrow> bytes \<Rightarrow> u32 \<Rightarrow> u16 \<Rightarrow> dhcp_server \<Rightarrow> dhcp_out list" where
  "DHCPOfferGenAndSend env c mac xid flags s = (if \<not> pbuf_ok env then []
     else send_lease c mac flags (dhcp_header xid (IpAddr c) 0 mac @ lease_options DHCP_MSG_OFFER s))"

section \<open>The state machine of a client\<close>

definition CleanClientHistory :: "bytes \<Rightarrow> dhcp_client list \<Rightarrow> dhcp_client list" where
  "CleanClientHistory mac cs = map (\<lambda>c. if State c = DHCP_CLIENT_STATE_IDLE \<and> MacAddr c = mac
     then c\<lparr>MacAddr := zero_mac\<rparr> else c) cs"

text \<open>The two things the switch does to a client: offer the address, or acknowledge the lease.\<close>

definition sme_offer :: "dhcp_env \<Rightarrow> nat \<Rightarrow> u32 \<Rightarrow> u16 \<Rightarrow> dhcp_server \<Rightarrow> dhcp_out list \<times> dhcp_server" where
  "sme_offer env i xid flags s = (let c = Clients s ! i
     in (DHCPOfferGenAndSend env c (MacAddr c) xid flags s,
         s\<lparr>Clients := (Clients s)[i := c\<lparr>Timeout := DHCP_DEFFAULT_TIMEOUT, State := DHCP_CLIENT_STATE_REQUEST\<rparr>]\<rparr>))"

definition sme_ack :: "dhcp_env \<Rightarrow> nat \<Rightarrow> u32 \<Rightarrow> u16 \<Rightarrow> dhcp_server \<Rightarrow> dhcp_out list \<times> dhcp_server" where
  "sme_ack env i xid flags s = (let c = Clients s ! i
     in (DHCPAckGenAndSend env c (MacAddr c) xid flags s,
         s\<lparr>Clients := CleanClientHistory (MacAddr c)
           ((Clients s)[i := c\<lparr>Lease := DHCP_DEFAULT_LEASE_TIME, State := DHCP_CLIENT_STATE_BIND\<rparr>])\<rparr>))"

definition DhcpClientSMEHandle ::
    "dhcp_env \<Rightarrow> nat \<Rightarrow> u8 \<Rightarrow> u32 \<Rightarrow> u16 \<Rightarrow> dhcp_server \<Rightarrow> dhcp_out list \<times> dhcp_server" where
  "DhcpClientSMEHandle env i msg xid flags s =
    (case State (Clients s ! i) of
       DHCP_CLIENT_STATE_IDLE \<Rightarrow>
        (if msg = DHCP_MSG_DISCOVER then
           sme_offer env i xid flags
             (s\<lparr>Clients := (Clients s)[i := (Clients s ! i)\<lparr>State := DHCP_CLIENT_STATE_SELECT\<rparr>]\<rparr>)
         else if msg = DHCP_MSG_REQUEST then sme_ack env i xid flags s
         else sme_offer env i xid flags s)
     | DHCP_CLIENT_STATE_SELECT \<Rightarrow> sme_offer env i xid flags s
     | DHCP_CLIENT_STATE_REQUEST \<Rightarrow> sme_ack env i xid flags s
     | DHCP_CLIENT_STATE_BIND \<Rightarrow> sme_ack env i xid flags s)"

definition DHCPS_GetIpByMac :: "bytes \<Rightarrow> dhcp_server \<Rightarrow> u32 option" where
  "DHCPS_GetIpByMac mac s = map_option IpAddr (find (\<lambda>c. MacAddr c = mac) (Clients s))"

definition DHCPS_SetDns :: "u8 \<Rightarrow> u32 \<Rightarrow> dhcp_server \<Rightarrow> dhcp_server" where
  "DHCPS_SetDns numdns dns s =
    (let s = (if numdns = 0 then s\<lparr>Dns1 := dns\<rparr> else s) in if numdns = 1 then s\<lparr>Dns2 := dns\<rparr> else s)"

section \<open>Receiving a message\<close>

text \<open>\<open>packet\<close> is the payload of the datagram; it is copied into the zeroed 548-byte message structure.\<close>

definition dhcp_msg :: "bytes \<Rightarrow> bytes" where
  "dhcp_msg packet = take 548 packet @ replicate (548 - length packet) 0"

definition msg_accepted :: "dhcp_env \<Rightarrow> bytes \<Rightarrow> bool" where
  "msg_accepted env packet \<longleftrightarrow> (let m = dhcp_msg packet; chaddr = bslice 28 6 m
     in packet \<noteq> [] \<and> m ! 0 = 1 \<and> swap32 (de32 (bslice 236 4 m)) = DHCP_MAGIC \<and> m ! 1 = 1
        \<and> own_mac env \<noteq> chaddr \<and> CheckMacIsValid env chaddr)"

text \<open>The last part of \<^verbatim>\<open>DHCPS_RecvCb\<close>: find the entry, then refuse or run the state machine.\<close>

definition dhcp_dispatch ::
    "dhcp_env \<Rightarrow> bytes \<Rightarrow> u8 \<Rightarrow> u32 \<Rightarrow> u32 \<Rightarrow> u32 \<Rightarrow> u16 \<Rightarrow> dhcp_server \<Rightarrow> dhcp_out list \<times> dhcp_server" where
  "dhcp_dispatch env mac msg req srv xid flags s =
    (let (pClient, s) = ClientTableLookup mac msg req srv s
     in case pClient of
          None \<Rightarrow> (if msg \<noteq> DHCP_MSG_RELEASE \<and> msg \<noteq> DHCP_MSG_DECLINE then DHCPNakGenAndSend env mac xid s else [], s)
        | Some i \<Rightarrow> DhcpClientSMEHandle env i msg xid flags s)"

definition DHCPS_RecvCb :: "dhcp_env \<Rightarrow> bytes \<Rightarrow> dhcp_server \<Rightarrow> (dhcp_out list \<times> dhcp_server) option" where
  "DHCPS_RecvCb env packet s =
    (if \<not> msg_accepted env packet then Some ([], s)
     else let m = dhcp_msg packet
     in case ParseDhcpOptions (drop 240 m) \<lparr>Ret = 0, MsgType = 0xff, ReqIpAddr = 0, ServerId = 0\<rparr> of
          None \<Rightarrow> None
        | Some o1 \<Rightarrow>
           if Ret o1 AND 0x01 = 0 then Some ([], s)
           else if MsgType o1 = DHCP_MSG_INFORM then Some ([], s)
           else Some (dhcp_dispatch env (bslice 28 6 m) (MsgType o1) (ReqIpAddr o1) (ServerId o1)
                        (swap32 (de32 (bslice 4 4 m))) (swap16 (de16 (bslice 10 2 m))) s))"

section \<open>Administration\<close>

fun delete_client :: "bytes \<Rightarrow> dhcp_client list \<Rightarrow> int \<times> dhcp_client list" where
  "delete_client mac [] = (- 5, [])"
| "delete_client mac (c # cs) =
    (if State c \<noteq> DHCP_CLIENT_STATE_IDLE \<and> MacAddr c = mac then
       (if State c \<noteq> DHCP_CLIENT_STATE_BIND then (- 4, c # cs)
        else (0, c\<lparr>State := DHCP_CLIENT_STATE_IDLE\<rparr> # cs))
     else let (r, cs) = delete_client mac cs in (r, c # cs))"

definition DHCPS_ClientDelete :: "bytes option \<Rightarrow> dhcp_server \<Rightarrow> int \<times> dhcp_server" where
  "DHCPS_ClientDelete pMac s =
    (if \<not> Enable s then (- 6, s)
     else case pMac of None \<Rightarrow> (- 2, s)
     | Some mac \<Rightarrow> (let (r, cs) = delete_client mac (Clients s) in (r, s\<lparr>Clients := cs\<rparr>)))"

text \<open>The address \<open>i\<close> places after \<open>val\<close> in its network, both in host order.\<close>

definition pool_addr :: "u32 \<Rightarrow> u32 \<Rightarrow> u32 \<Rightarrow> u32" where
  "pool_addr Mask val i =
    (let tmp = val AND NOT Mask;
         tmp = (if (tmp + i) mod (NOT Mask) \<noteq> 0 then (tmp + i) mod (NOT Mask) else 1)
     in (val AND Mask) OR tmp)"

definition zero_server :: dhcp_server where
  "zero_server = \<lparr>Enable = False, Socket = False, ServerIpAddr = 0, StartIpAddr = 0, SubnetMask = 0, GateWay = 0,
     Dns1 = 0, Dns2 = 0, LeaseTime = 0,
     Clients = replicate 8 \<lparr>State = DHCP_CLIENT_STATE_IDLE, Timeout = 0, IpAddr = 0, MacAddr = zero_mac, Lease = 0\<rparr>,
     tick_armed = False\<rparr>"

definition pool_client :: "u32 \<Rightarrow> u32 \<Rightarrow> nat \<Rightarrow> dhcp_client" where
  "pool_client Mask start i = \<lparr>State = DHCP_CLIENT_STATE_IDLE, Timeout = 0,
     IpAddr = swap32 (pool_addr Mask (swap32 start) (word_of_nat i)), MacAddr = zero_mac, Lease = DHCP_DEFAULT_LEASE_TIME\<rparr>"

text \<open>
  The interface of the network interface is its state and addresses (in network order); \<open>udp_ok\<close> is whether
  \<^verbatim>\<open>udp_new\<close> succeeds. A mask of all ones makes \<^verbatim>\<open>~Mask\<close> zero and the remainder undefined.
\<close>

definition DHCPS_Start :: "bool \<Rightarrow> u32 \<Rightarrow> u32 \<Rightarrow> bool \<Rightarrow> dhcp_server \<Rightarrow> (int \<times> dhcp_server) option" where
  "DHCPS_Start netif_up ip_addr netmask udp_ok s =
    (if \<not> netif_up then Some (- 1, s)
     else let Val = swap32 ip_addr; Mask = swap32 netmask
     in if NOT Mask = 0 then None
        else let start = swap32 (pool_addr Mask Val 1);
                 s = zero_server\<lparr>ServerIpAddr := ip_addr, StartIpAddr := start, SubnetMask := netmask, GateWay := ip_addr,
                   Dns1 := ip_addr, LeaseTime := DHCP_DEFAULT_LEASE_TIME,
                   Clients := map (pool_client Mask start) [0..<8], tick_armed := tick_armed s\<rparr>
             in if \<not> udp_ok then Some (- 3, s)
                else Some (0, s\<lparr>Socket := True, tick_armed := True, Enable := True\<rparr>))"

definition DHCPS_Stop :: "dhcp_server \<Rightarrow> dhcp_server" where
  "DHCPS_Stop s = zero_server"

section \<open>The table scan\<close>

definition active :: "dhcp_client \<Rightarrow> bool" where
  "active c \<longleftrightarrow> State c \<noteq> DHCP_CLIENT_STATE_IDLE"

text \<open>What each pointer of the scan says about the entries \<open>cs\<close> seen so far.\<close>

definition points_to :: "nat option \<Rightarrow> dhcp_client list \<Rightarrow> (dhcp_client \<Rightarrow> bool) \<Rightarrow> bool" where
  "points_to p cs P \<longleftrightarrow> (case p of None \<Rightarrow> \<forall>c \<in> set cs. \<not> P c | Some i \<Rightarrow> i < length cs \<and> P (cs ! i))"

definition scan_ok :: "bytes \<Rightarrow> u32 \<Rightarrow> dhcp_client list \<Rightarrow> client_scan \<Rightarrow> bool" where
  "scan_ok mac req cs a \<longleftrightarrow>
     points_to (pMyClient a) cs (\<lambda>c. active c \<and> MacAddr c = mac)
   \<and> points_to (pReqClient a) cs (\<lambda>c. \<not> active c \<and> IpAddr c = req)
   \<and> points_to (pMyHistoryClient a) cs (\<lambda>c. \<not> active c \<and> MacAddr c = mac)
   \<and> points_to (pFreeClient a) cs (\<lambda>c. \<not> active c \<and> MacAddr c = zero_mac)
   \<and> points_to (pHistoryClient a) cs (\<lambda>c. \<not> active c \<and> MacAddr c \<noteq> zero_mac)
   \<and> IpUnavailable a = (\<exists>c \<in> set cs. active c \<and> MacAddr c \<noteq> mac \<and> IpAddr c = req)"

lemma points_to_snoc:
  assumes "points_to p cs P"
  shows "points_to (if P c then Some (length cs) else p) (cs @ [c]) P"
    "points_to (if p = None \<and> P c then Some (length cs) else p) (cs @ [c]) P"
  using assms by (auto simp: points_to_def nth_append split: option.splits)

lemma scan_entry_fields:
  "pMyClient (scan_entry mac req i c a) = (if active c \<and> MacAddr c = mac then Some i else pMyClient a)"
  "pReqClient (scan_entry mac req i c a) = (if pReqClient a = None \<and> \<not> active c \<and> IpAddr c = req then Some i else pReqClient a)"
  "pMyHistoryClient (scan_entry mac req i c a) =
    (if pMyHistoryClient a = None \<and> \<not> active c \<and> MacAddr c = mac then Some i else pMyHistoryClient a)"
  "pFreeClient (scan_entry mac req i c a) = (if pFreeClient a = None \<and> \<not> active c \<and> MacAddr c = zero_mac then Some i else pFreeClient a)"
  "pHistoryClient (scan_entry mac req i c a) =
    (if pHistoryClient a = None \<and> \<not> active c \<and> MacAddr c \<noteq> zero_mac then Some i else pHistoryClient a)"
  "IpUnavailable (scan_entry mac req i c a) = (IpUnavailable a \<or> active c \<and> MacAddr c \<noteq> mac \<and> IpAddr c = req)"
  by (simp_all add: scan_entry_def active_def)

lemma scan_entry_ok:
  assumes "scan_ok mac req cs a"
  shows "scan_ok mac req (cs @ [c]) (scan_entry mac req (length cs) c a)"
  using assms unfolding scan_ok_def scan_entry_fields
  by (intro conjI points_to_snoc) auto

lemma scan_table_ok:
  assumes "scan_ok mac req pre a"
  shows "scan_ok mac req (pre @ cs) (scan_table mac req (length pre) cs a)"
  using assms
proof (induction cs arbitrary: pre a)
  case Nil
  then show ?case by simp
next
  case (Cons c cs)
  then show ?case using Cons.IH [OF scan_entry_ok [OF Cons.prems, of c]] by simp
qed

lemma scan_ok: "scan_ok mac req cs (scan_table mac req 0 cs scan_start)"
  using scan_table_ok [of mac req "[]" scan_start cs] by (simp add: scan_ok_def scan_start_def points_to_def)

section \<open>Tables in which a client is active once\<close>

definition distinct_active :: "dhcp_client list \<Rightarrow> bool" where
  "distinct_active cs \<longleftrightarrow> (\<forall>i < length cs. \<forall>j < length cs.
     active (cs ! i) \<and> active (cs ! j) \<and> MacAddr (cs ! i) = MacAddr (cs ! j) \<longrightarrow> i = j)"

text \<open>\<open>mac\<close> is active in no entry but possibly \<open>i\<close>.\<close>

definition only_at :: "bytes \<Rightarrow> nat \<Rightarrow> dhcp_client list \<Rightarrow> bool" where
  "only_at mac i cs \<longleftrightarrow> (\<forall>j < length cs. j \<noteq> i \<and> active (cs ! j) \<longrightarrow> MacAddr (cs ! j) \<noteq> mac)"

lemma active_update [simp]:
  "active (c\<lparr>MacAddr := m\<rparr>) = active c" "active (c\<lparr>Timeout := t\<rparr>) = active c" "active (c\<lparr>Lease := t\<rparr>) = active c"
  "active (c\<lparr>State := x\<rparr>) = (x \<noteq> DHCP_CLIENT_STATE_IDLE)"
  by (simp_all add: active_def)

lemma distinct_active_idle: "distinct_active cs \<Longrightarrow> \<not> active c \<Longrightarrow> distinct_active (cs[i := c])"
  by (auto simp: distinct_active_def nth_update_any split: if_splits)

lemma distinct_active_set: "distinct_active cs \<Longrightarrow> only_at (MacAddr c) i cs \<Longrightarrow> distinct_active (cs[i := c])"
  unfolding distinct_active_def only_at_def by (auto simp: nth_update_any split: if_splits)

lemma distinct_active_map:
  assumes "distinct_active cs" "\<And>c. active (f c) \<Longrightarrow> active c \<and> MacAddr (f c) = MacAddr c"
  shows "distinct_active (map f cs)"
  using assms unfolding distinct_active_def by simp metis

lemma only_at_idle: "only_at mac i cs \<Longrightarrow> \<not> active c \<Longrightarrow> only_at mac i (cs[k := c])"
  by (auto simp: only_at_def nth_update_any split: if_splits)

lemma only_at_same: "only_at mac i (cs[i := c]) = only_at mac i cs"
  by (auto simp: only_at_def nth_update_any split: if_splits)

lemma only_atI: "distinct_active cs \<Longrightarrow> m < length cs \<Longrightarrow> active (cs ! m) \<Longrightarrow> MacAddr (cs ! m) = mac \<Longrightarrow> only_at mac m cs"
  by (auto simp: distinct_active_def only_at_def)

lemma only_at_none: "\<forall>c \<in> set cs. \<not> (active c \<and> MacAddr c = mac) \<Longrightarrow> only_at mac i cs"
  by (auto simp: only_at_def)

lemma map_ip_update: "IpAddr c = IpAddr (cs ! i) \<Longrightarrow> map IpAddr (cs[i := c]) = map IpAddr cs"
  by (metis list_update_beyond list_update_id map_update not_le)

section \<open>What a lookup leaves\<close>

definition lookup_res :: "bytes \<Rightarrow> dhcp_client list \<Rightarrow> nat option \<Rightarrow> dhcp_client list \<Rightarrow> bool" where
  "lookup_res mac cs r cs' \<longleftrightarrow> length cs' = length cs \<and> map IpAddr cs' = map IpAddr cs \<and> distinct_active cs'
     \<and> (\<forall>i. r = Some i \<longrightarrow> i < length cs \<and> only_at mac i cs')"

lemma drop_client_facts:
  assumes "distinct_active cs"
  shows "distinct_active (drop_client m cs)" "length (drop_client m cs) = length cs"
    "map IpAddr (drop_client m cs) = map IpAddr cs" "only_at mac i cs \<Longrightarrow> only_at mac i (drop_client m cs)"
  using assms by (auto simp: drop_client_def Let_def intro: distinct_active_idle only_at_idle map_ip_update)

lemma only_at_drop:
  assumes "only_at mac m cs" "\<not> active (cs[m := c] ! m)" "m < length cs"
  shows "only_at mac q (cs[m := c])"
  using assms by (auto simp: only_at_def nth_update_any split: if_splits)

lemma lookup_discover_ok:
  assumes "scan_ok mac req cs a" "distinct_active cs" "lookup_discover a cs = (r, cs')"
  shows "lookup_res mac cs r cs'"
proof (cases "pMyClient a")
  case (Some m)
  have m: "m < length cs" "only_at mac m cs"
    using assms(1,2) Some by (auto simp: scan_ok_def points_to_def intro!: only_atI)
  have q: "q < length cs" if "pReqClient a = Some q" for q
    using assms(1) that by (auto simp: scan_ok_def points_to_def)
  show ?thesis
    using assms(2,3) Some m q
    by (auto simp: lookup_discover_def lookup_res_def Let_def intro!: distinct_active_idle map_ip_update only_at_drop
        split: option.splits)
next
  case None
  have all: "only_at mac i cs" for i
    using assms(1) None by (intro only_at_none) (auto simp: scan_ok_def points_to_def)
  show ?thesis
    using assms None all
    by (auto simp: lookup_discover_def lookup_res_def scan_ok_def points_to_def split: if_splits option.splits)
qed

lemma lookup_request_ok:
  assumes "scan_ok mac req cs a" "distinct_active cs" "lookup_request s srv a cs = (r, cs')"
  shows "lookup_res mac cs r cs'"
proof (cases "pMyClient a")
  case (Some m)
  have m: "m < length cs" "only_at mac m cs"
    using assms(1,2) Some by (auto simp: scan_ok_def points_to_def intro!: only_atI)
  have q: "q < length cs \<and> only_at mac q (drop_client m cs)" if "pReqClient a = Some q" for q
    using assms(1) that m by (auto simp: scan_ok_def points_to_def drop_client_def Let_def intro!: only_at_drop)
  show ?thesis
    using assms(2,3) Some m q
    by (auto simp: lookup_request_def lookup_res_def Let_def drop_client_facts split: if_splits option.splits)
next
  case None
  have all: "only_at mac i cs" for i
    using assms(1) None by (intro only_at_none) (auto simp: scan_ok_def points_to_def)
  show ?thesis
    using assms None all
    by (auto simp: lookup_request_def lookup_res_def scan_ok_def points_to_def Let_def split: if_splits option.splits)
qed

lemma lookup_release_ok: "distinct_active cs \<Longrightarrow> lookup_release a cs = (r, cs') \<Longrightarrow> lookup_res mac cs r cs'"
  by (auto simp: lookup_release_def lookup_res_def drop_client_facts split: option.splits)

lemma ClientTableLookup_ok:
  assumes "distinct_active (Clients s)" "ClientTableLookup mac msg req srv s = (r, s')"
  shows "lookup_res mac (Clients s) r (Clients s') \<and> s' = s\<lparr>Clients := Clients s'\<rparr>
    \<and> (\<forall>i. r = Some i \<longrightarrow> MacAddr (Clients s' ! i) = mac)"
proof -
  let ?a = "scan_table mac req 0 (Clients s) scan_start"
  obtain r1 cs where l: "(if msg = DHCP_MSG_DISCOVER then lookup_discover ?a (Clients s)
            else if msg = DHCP_MSG_REQUEST then lookup_request s srv ?a (Clients s)
            else if msg = DHCP_MSG_RELEASE then lookup_release ?a (Clients s)
            else if msg = DHCP_MSG_DECLINE then lookup_release ?a (Clients s)
            else (None, Clients s)) = (r1, cs)" by fastforce
  then have lr: "lookup_res mac (Clients s) r1 cs"
    using lookup_discover_ok [OF scan_ok assms(1)] lookup_request_ok [OF scan_ok assms(1)] lookup_release_ok [OF assms(1)]
    by (auto simp: lookup_res_def assms(1) split: if_splits)
  have s': "r = r1" "s' = s\<lparr>Clients := (case r1 of None \<Rightarrow> cs | Some i \<Rightarrow> cs[i := (cs ! i)\<lparr>MacAddr := mac\<rparr>])\<rparr>"
    using assms(2) l unfolding ClientTableLookup_def Let_def by auto
  show ?thesis
  proof (cases r1)
    case None
    then show ?thesis using s' lr by simp
  next
    case (Some i)
    then have i: "i < length cs" "only_at mac i cs" "distinct_active cs" using lr by (auto simp: lookup_res_def)
    then have "distinct_active (cs[i := (cs ! i)\<lparr>MacAddr := mac\<rparr>])" by (intro distinct_active_set) simp_all
    then show ?thesis
      using s' lr Some i by (auto simp: lookup_res_def only_at_same map_ip_update)
  qed
qed

section \<open>What the state machine leaves\<close>

lemma CleanClientHistory_facts:
  "length (CleanClientHistory mac cs) = length cs" "map IpAddr (CleanClientHistory mac cs) = map IpAddr cs"
  "distinct_active cs \<Longrightarrow> distinct_active (CleanClientHistory mac cs)"
  unfolding CleanClientHistory_def by (auto intro!: distinct_active_map simp: active_def split: if_splits)

definition table_kept :: "dhcp_server \<Rightarrow> dhcp_server \<Rightarrow> bool" where
  "table_kept s s' \<longleftrightarrow> length (Clients s') = length (Clients s) \<and> map IpAddr (Clients s') = map IpAddr (Clients s)
     \<and> distinct_active (Clients s') \<and> ServerIpAddr s' = ServerIpAddr s"

lemma table_kept_trans: "table_kept s t \<Longrightarrow> table_kept t u \<Longrightarrow> table_kept s u"
  by (simp add: table_kept_def)

lemma DhcpClientSMEHandle_ok:
  assumes "distinct_active (Clients s)" "only_at (MacAddr (Clients s ! i)) i (Clients s)" "i < length (Clients s)"
    and "DhcpClientSMEHandle env i msg xid flags s = (out, s')"
  shows "table_kept s s'"
  using assms
  by (auto simp: DhcpClientSMEHandle_def sme_offer_def sme_ack_def Let_def table_kept_def CleanClientHistory_facts
      map_ip_update intro!: distinct_active_set CleanClientHistory_facts(3)
      split: DHCP_CLIENT_STATE.splits if_splits)

lemma dhcp_dispatch_ok:
  assumes "distinct_active (Clients s)" "dhcp_dispatch env mac msg req srv xid flags s = (out, s')"
  shows "table_kept s s'"
proof -
  obtain r t where l: "ClientTableLookup mac msg req srv s = (r, t)" by fastforce
  note lk = ClientTableLookup_ok [OF assms(1) l]
  then have srv: "ServerIpAddr t = ServerIpAddr s" by (metis dhcp_server.surjective dhcp_server.update_convs(10) dhcp_server.select_convs(3))
  have t: "table_kept s t" using lk srv by (simp add: table_kept_def lookup_res_def)
  show ?thesis
  proof (cases r)
    case None
    then show ?thesis using assms(2) l t by (simp add: dhcp_dispatch_def split: if_splits)
  next
    case (Some i)
    then have h: "DhcpClientSMEHandle env i msg xid flags t = (out, s')"
      using assms(2) l by (simp add: dhcp_dispatch_def)
    show ?thesis
      using DhcpClientSMEHandle_ok [OF _ _ _ h] table_kept_trans [OF t] lk Some by (simp add: lookup_res_def)
  qed
qed

lemma DHCPS_RecvCb_cases:
  assumes "DHCPS_RecvCb env packet s = Some (out, s')"
  obtains "out = []" "s' = s"
    | mac msg req srv xid flags where "dhcp_dispatch env mac msg req srv xid flags s = (out, s')"
  using assms by (auto simp: DHCPS_RecvCb_def Let_def split: if_splits option.splits)

lemma DHCPS_RecvCb_ok:
  assumes "distinct_active (Clients s)" "DHCPS_RecvCb env packet s = Some (out, s')"
  shows "table_kept s s'"
  using assms(2)
proof (cases rule: DHCPS_RecvCb_cases)
  case 1
  then show ?thesis using assms(1) by (simp add: table_kept_def)
next
  case 2
  then show ?thesis using dhcp_dispatch_ok [OF assms(1)] by blast
qed

lemma tick_ok: "distinct_active (Clients s) \<Longrightarrow> table_kept s (DhcpTickHandle env s)"
  unfolding DhcpTickHandle_def table_kept_def
  by (auto intro!: distinct_active_map simp: tick_client_def Let_def active_def split: if_splits)

lemma delete_client_ok:
  "delete_client mac cs = (r, cs') \<Longrightarrow> length cs' = length cs
    \<and> (\<forall>i < length cs. cs' ! i = cs ! i \<or> cs' ! i = (cs ! i)\<lparr>State := DHCP_CLIENT_STATE_IDLE\<rparr>)"
proof (induction cs arbitrary: r cs')
  case Nil
  then show ?case by simp
next
  case (Cons c cs)
  obtain r1 cs1 where d: "delete_client mac cs = (r1, cs1)" by fastforce
  have "cs' = c # cs \<or> cs' = c\<lparr>State := DHCP_CLIENT_STATE_IDLE\<rparr> # cs \<or> cs' = c # cs1"
    using Cons.prems d by (auto split: if_splits)
  then show ?case using Cons.IH [OF d] by (auto simp: nth_Cons split: nat.splits)
qed

lemma delete_ok:
  assumes "distinct_active (Clients s)" "DHCPS_ClientDelete mac s = (r, s')"
  shows "table_kept s s'"
proof -
  have "table_kept s (s\<lparr>Clients := cs\<rparr>)" if "delete_client m (Clients s) = (q, cs)" for m q cs
  proof -
    note d = delete_client_ok [OF that]
    have "active (cs ! i) \<Longrightarrow> active (Clients s ! i) \<and> MacAddr (cs ! i) = MacAddr (Clients s ! i)"
      if "i < length (Clients s)" for i using d that by (auto simp: active_def)
    then have "distinct_active cs"
      using assms(1) d unfolding distinct_active_def by metis
    moreover have "map IpAddr cs = map IpAddr (Clients s)"
      by (rule nth_equalityI) (use d in auto)
    ultimately show ?thesis using d by (simp add: table_kept_def)
  qed
  moreover have "table_kept s s" using assms(1) by (simp add: table_kept_def)
  ultimately show ?thesis
    using assms(2) by (auto simp: DHCPS_ClientDelete_def split: if_splits option.splits prod.splits)
qed

lemma dns_ok: "distinct_active (Clients s) \<Longrightarrow> table_kept s (DHCPS_SetDns n d s)"
  by (simp add: DHCPS_SetDns_def table_kept_def)

section \<open>Runs of the server\<close>

inductive dhcp_step :: "dhcp_server \<Rightarrow> dhcp_server \<Rightarrow> bool" where
  recv: "DHCPS_RecvCb env packet s = Some (out, s') \<Longrightarrow> dhcp_step s s'"
| tick: "dhcp_step s (DhcpTickHandle env s)"
| del: "DHCPS_ClientDelete mac s = (r, s') \<Longrightarrow> dhcp_step s s'"
| dns: "dhcp_step s (DHCPS_SetDns n d s)"

inductive dhcp_run :: "dhcp_server \<Rightarrow> dhcp_server \<Rightarrow> bool" where
  start: "dhcp_run s s"
| step: "dhcp_run s t \<Longrightarrow> dhcp_step t u \<Longrightarrow> dhcp_run s u"

inductive_cases dhcp_stepE: "dhcp_step s s'"

lemma dhcp_step_ok: "dhcp_step s s' \<Longrightarrow> distinct_active (Clients s) \<Longrightarrow> table_kept s s'"
  by (induction rule: dhcp_step.induct) (auto intro: DHCPS_RecvCb_ok tick_ok delete_ok dns_ok)

lemma dhcp_run_ok:
  assumes "dhcp_run s s'" "distinct_active (Clients s)"
  shows "table_kept s s'"
  using assms
proof (induction rule: dhcp_run.induct)
  case (start s)
  then show ?case by (simp add: table_kept_def)
next
  case (step s t u)
  then have "table_kept s t" by simp
  then show ?case using dhcp_step_ok [OF step.hyps(2)] table_kept_trans by (auto simp: table_kept_def)
qed

end
