(* ===== verification/Dhcp_Correct.thy ===== *)
theory Dhcp_Correct
  imports Dhcp
begin

text \<open>
  Properties of the DHCP server: the addresses it hands out are distinct, never its own and held by one
  client each in every run; a lease ends exactly when its time is over; a client that discovers and requests
  ends bound to the address offered; a request for an address in use is refused; and the messages the server
  sends carry the options its own parser reads.
\<close>

section \<open>The address pool\<close>

lemma mask_unat: "k < 32 \<Longrightarrow> unat (mask k :: u32) = 2 ^ k - 1"
proof -
  assume k: "k < 32"
  have "unat (mask k :: u32) = unat (take_bit k (- 1) :: u32)" by simp
  also have "\<dots> = take_bit k (unat (- 1 :: u32))" by (rule unsigned_take_bit_eq)
  also have "unat (- 1 :: u32) = mask 32" by (simp add: unsigned_minus_1_eq_mask)
  also have "take_bit k (mask 32 :: nat) = mask k" using k by (simp add: take_bit_of_mask min_def)
  finally show ?thesis by (simp add: mask_eq_exp_minus_1)
qed

lemma pool_addr_parts:
  assumes M: "NOT M = mask k" "k < 32" and h: "unat (v AND mask k) + unat i + 1 < 2 ^ k" "0 < unat (v AND mask k) + unat i"
  shows "pool_addr M v i AND mask k = (v AND mask k) + i" "pool_addr M v i AND M = v AND M"
    "unat ((v AND mask k) + i) = unat (v AND mask k) + unat i"
proof -
  let ?x = "(v AND mask k) + i"
  have "(2 :: nat) ^ k \<le> 2 ^ 32" using M(2) by (intro power_increasing) auto
  then have u: "unat ?x = unat (v AND mask k) + unat i"
    using h(1) by (intro unat_add_lem [THEN iffD1]) simp
  then show "unat ?x = unat (v AND mask k) + unat i" .
  have less: "?x < mask k"
    using u h(1) mask_unat [OF M(2)] by (simp add: word_less_nat_alt)
  then have "?x mod mask k = ?x" by (simp add: word_arith_nat_mod word_less_nat_alt)
  moreover have "?x \<noteq> 0" using u h(2) by auto
  ultimately have p: "pool_addr M v i = (v AND M) OR ?x"
    by (simp add: pool_addr_def M(1) Let_def)
  have "unat ?x < 2 ^ k" using u h(1) by simp
  then have x: "take_bit k ?x = ?x"
    by (metis nat_take_bit_eq take_bit_nat_eq_self unsigned_take_bit_eq unsigned_word_eqI)
  have M': "M = NOT (mask k)" using M(1) by (metis bit.double_compl)
  have xb: "n < k" if "bit ?x n" for n using x that by (metis bit_take_bit_iff)
  show "pool_addr M v i AND mask k = ?x" "pool_addr M v i AND M = v AND M"
    unfolding p unfolding M' by (auto intro!: bit_word_eqI simp: bit_simps dest: xb)
qed

text \<open>The addresses of a started server, and their place in the network.\<close>

lemma DHCPS_Start_pool:
  assumes M: "NOT (swap32 netmask) = mask k" "k < 32" and h: "unat (swap32 ip AND mask k) + 9 < 2 ^ k"
    and st: "DHCPS_Start True ip netmask True s0 = Some (0, s)"
  shows "length (Clients s) = 8" "distinct_active (Clients s)" "ServerIpAddr s = ip" "distinct (map IpAddr (Clients s))"
    "\<And>c. c \<in> set (Clients s) \<Longrightarrow> IpAddr c \<noteq> ip \<and> swap32 (IpAddr c) AND swap32 netmask = swap32 ip AND swap32 netmask"
proof -
  let ?M = "swap32 netmask" and ?v = "swap32 ip" and ?h = "swap32 ip AND mask k"
  let ?start = "pool_addr ?M ?v 1"
  have "k \<noteq> 0" using h by (intro notI) simp
  then have nz: "mask k \<noteq> (0 :: u32)" using mask_unat [OF M(2)] by (auto simp: gr0_conv_Suc)
  have s: "Clients s = map (pool_client ?M (swap32 ?start)) [0..<8]" "ServerIpAddr s = ip"
    using st nz M(1) by (auto simp: DHCPS_Start_def Let_def split: if_splits)
  have p1: "?start AND mask k = ?h + 1" "?start AND ?M = ?v AND ?M" "unat (?h + 1) = unat ?h + 1"
    using pool_addr_parts [OF M, of ?v 1] h by auto
  have ip: "swap32 (IpAddr (pool_client ?M (swap32 ?start) i)) = pool_addr ?M ?start (word_of_nat i)" for i
    by (simp add: pool_client_def)
  have low: "unat (swap32 (IpAddr (pool_client ?M (swap32 ?start) i)) AND mask k) = unat ?h + 1 + i \<and>
      swap32 (IpAddr (pool_client ?M (swap32 ?start) i)) AND ?M = ?v AND ?M" if "i < 8" for i
  proof -
    have i: "unat (word_of_nat i :: u32) = i" using that by (intro u32_unat_of_nat) simp
    show ?thesis
      using pool_addr_parts [OF M, of ?start "word_of_nat i"] h p1 that unfolding ip i by simp
  qed
  show "length (Clients s) = 8" "ServerIpAddr s = ip" using s by simp_all
  show "distinct_active (Clients s)"
    by (simp add: s distinct_active_def active_def pool_client_def)
  have "inj_on (\<lambda>i. IpAddr (pool_client ?M (swap32 ?start) i)) {0..<8}"
  proof (rule inj_onI)
    fix i j
    assume ij: "i \<in> {0..<8}" "j \<in> {0..<8}"
      "IpAddr (pool_client ?M (swap32 ?start) i) = IpAddr (pool_client ?M (swap32 ?start) j)"
    have "unat ?h + 1 + i = unat ?h + 1 + j"
      using low [of i] low [of j] ij(1,2) unfolding ij(3) by (metis atLeastLessThan_iff)
    then show "i = j" by simp
  qed
  then show "distinct (map IpAddr (Clients s))"
    by (simp add: s comp_def distinct_map)
  fix c assume "c \<in> set (Clients s)"
  then obtain i where i: "i < 8" "c = pool_client ?M (swap32 ?start) i" by (auto simp: s)
  have "IpAddr c \<noteq> ip" using low [OF i(1)] i(2) by auto
  then show "IpAddr c \<noteq> ip \<and> swap32 (IpAddr c) AND ?M = ?v AND ?M"
    using low [OF i(1)] i(2) by simp
qed

section \<open>Leases and offers that run out\<close>

lemma tick_client_bind:
  assumes "State c = DHCP_CLIENT_STATE_BIND"
  shows "Lease c \<noteq> 0 \<Longrightarrow> Lease c - 1 \<noteq> 0 \<Longrightarrow> CheckMacIsValid env (MacAddr c) \<Longrightarrow> tick_client env c = c\<lparr>Lease := Lease c - 1\<rparr>"
    "Lease c = 1 \<Longrightarrow> tick_client env c = c\<lparr>Lease := 0, State := DHCP_CLIENT_STATE_IDLE\<rparr>"
  using assms by (simp_all add: tick_client_def Let_def)

lemma tick_client_request:
  assumes "State c = DHCP_CLIENT_STATE_REQUEST"
  shows "Timeout c \<noteq> 0 \<Longrightarrow> Timeout c - 1 \<noteq> 0 \<Longrightarrow> tick_client env c = c\<lparr>Timeout := Timeout c - 1\<rparr>"
    "Timeout c = 1 \<Longrightarrow> tick_client env c = c\<lparr>Timeout := 0, MacAddr := zero_mac, State := DHCP_CLIENT_STATE_IDLE\<rparr>"
  using assms by (simp_all add: tick_client_def Let_def)

lemma tick_bound:
  assumes "State c = DHCP_CLIENT_STATE_BIND" "CheckMacIsValid env (MacAddr c)"
  shows "n < unat (Lease c) \<Longrightarrow> (tick_client env ^^ n) c = c\<lparr>Lease := Lease c - word_of_nat n\<rparr>"
proof (induction n)
  case 0
  then show ?case by simp
next
  case (Suc n)
  then have IH: "(tick_client env ^^ n) c = c\<lparr>Lease := Lease c - word_of_nat n\<rparr>" by simp
  have "Lease c - word_of_nat n \<noteq> 0" "Lease c - word_of_nat n - 1 \<noteq> 0"
    using u32_countdown [of n "Lease c"] u32_countdown [of "Suc n" "Lease c"] Suc.prems by (auto simp: diff_diff_eq add.commute)
  then show ?case
    using assms IH tick_client_bind(1) [of "c\<lparr>Lease := Lease c - word_of_nat n\<rparr>" env] by (simp add: diff_diff_eq add.commute)
qed

lemma tick_offered:
  assumes "State c = DHCP_CLIENT_STATE_REQUEST"
  shows "n < unat (Timeout c) \<Longrightarrow> (tick_client env ^^ n) c = c\<lparr>Timeout := Timeout c - word_of_nat n\<rparr>"
proof (induction n)
  case 0
  then show ?case by simp
next
  case (Suc n)
  then have IH: "(tick_client env ^^ n) c = c\<lparr>Timeout := Timeout c - word_of_nat n\<rparr>" by simp
  have "Timeout c - word_of_nat n \<noteq> 0" "Timeout c - word_of_nat n - 1 \<noteq> 0"
    using u32_countdown [of n "Timeout c"] u32_countdown [of "Suc n" "Timeout c"] Suc.prems by (auto simp: diff_diff_eq add.commute)
  then show ?case
    using assms IH tick_client_request(1) [of "c\<lparr>Timeout := Timeout c - word_of_nat n\<rparr>" env] by (simp add: diff_diff_eq add.commute)
qed

lemma tick_last: "0 < unat x \<Longrightarrow> x - word_of_nat (unat x - 1) = (1 :: u32)"
  by (simp add: of_nat_diff)

lemma tick_over:
  assumes "State c = DHCP_CLIENT_STATE_BIND" "CheckMacIsValid env (MacAddr c)" "0 < unat (Lease c)"
  shows "(tick_client env ^^ unat (Lease c)) c = c\<lparr>Lease := 0, State := DHCP_CLIENT_STATE_IDLE\<rparr>"
proof -
  let ?n = "unat (Lease c) - 1"
  have "(tick_client env ^^ unat (Lease c)) c = tick_client env ((tick_client env ^^ ?n) c)"
    using assms(3) by (metis Suc_diff_1 comp_apply funpow.simps(2))
  then show ?thesis
    using tick_bound [OF assms(1,2), of ?n] assms(1,3) tick_last [OF assms(3)]
      tick_client_bind(2) [of "c\<lparr>Lease := 1\<rparr>" env] by simp
qed

lemma tick_offer_over:
  assumes "State c = DHCP_CLIENT_STATE_REQUEST" "0 < unat (Timeout c)"
  shows "(tick_client env ^^ unat (Timeout c)) c =
    c\<lparr>Timeout := 0, MacAddr := zero_mac, State := DHCP_CLIENT_STATE_IDLE\<rparr>"
proof -
  let ?n = "unat (Timeout c) - 1"
  have "(tick_client env ^^ unat (Timeout c)) c = tick_client env ((tick_client env ^^ ?n) c)"
    using assms(2) by (metis Suc_diff_1 comp_apply funpow.simps(2))
  then show ?thesis
    using tick_offered [OF assms(1), of ?n] assms(1,2) tick_last [OF assms(2)]
      tick_client_request(2) [of "c\<lparr>Timeout := 1\<rparr>" env] by simp
qed

section \<open>Messages of a client\<close>

text \<open>A well-formed request message with the options \<open>opts\<close>.\<close>

definition client_packet :: "u32 \<Rightarrow> u16 \<Rightarrow> bytes \<Rightarrow> bytes \<Rightarrow> bytes" where
  "client_packet xid flags mac opts =
    [1, 1, 6, 0] @ le32 (swap32 xid) @ [0, 0] @ le16 (swap16 flags) @ replicate 16 0 @ mac @ replicate 10 0
     @ replicate 192 0 @ le32 (swap32 DHCP_MAGIC) @ opts"

definition discover_packet :: "u32 \<Rightarrow> u16 \<Rightarrow> bytes \<Rightarrow> bytes" where
  "discover_packet xid flags mac = client_packet xid flags mac [53, 1, DHCP_MSG_DISCOVER, 255]"

definition request_packet :: "u32 \<Rightarrow> u16 \<Rightarrow> bytes \<Rightarrow> u32 \<Rightarrow> u32 \<Rightarrow> bytes" where
  "request_packet xid flags mac ip srv = client_packet xid flags mac
     ([53, 1, DHCP_MSG_REQUEST, 50, 4] @ le32 ip @ [54, 4] @ le32 srv @ [255])"

lemma bslice_append_at: "off = length xs \<Longrightarrow> n = length ys \<Longrightarrow> bslice off n (xs @ ys @ zs) = ys"
  by (simp add: bslice_def)

lemma client_packet_fields:
  fixes xid :: u32 and flags :: u16
  assumes "length mac = 6" "length opts \<le> 308"
  defines "m \<equiv> dhcp_msg (client_packet xid flags mac opts)"
  shows "m ! 0 = 1" "m ! 1 = 1" "bslice 4 4 m = le32 (swap32 xid)" "bslice 10 2 m = le16 (swap16 flags)"
    "bslice 28 6 m = mac" "bslice 236 4 m = le32 (swap32 DHCP_MAGIC)" "drop 240 m = opts @ replicate (308 - length opts) 0"
    "client_packet xid flags mac opts \<noteq> []"
proof -
  let ?z = "replicate (308 - length opts) 0 :: bytes"
  have m: "m = client_packet xid flags mac opts @ ?z"
    using assms(1,2) by (simp add: m_def dhcp_msg_def client_packet_def)
  show "m ! 0 = 1" "m ! 1 = 1" "client_packet xid flags mac opts \<noteq> []"
    by (simp_all add: m client_packet_def)
  let ?p1 = "[1, 1, 6, 0] :: bytes"
  let ?p2 = "?p1 @ le32 (swap32 xid) @ [0, 0]"
  let ?p3 = "?p2 @ le16 (swap16 flags) @ replicate 16 0"
  let ?p4 = "?p3 @ mac @ replicate 10 0 @ replicate 192 0"
  let ?t4 = "opts @ ?z"
  let ?t3 = "replicate 10 0 @ replicate 192 0 @ le32 (swap32 DHCP_MAGIC) @ ?t4"
  let ?t2 = "replicate 16 0 @ mac @ ?t3"
  let ?t1 = "[0, 0] @ le16 (swap16 flags) @ ?t2"
  have m1: "m = ?p1 @ le32 (swap32 xid) @ ?t1" and m2: "m = ?p2 @ le16 (swap16 flags) @ ?t2"
    and m3: "m = ?p3 @ mac @ ?t3" and m4: "m = ?p4 @ le32 (swap32 DHCP_MAGIC) @ ?t4"
    unfolding m client_packet_def by (simp_all only: append_assoc)
  show "bslice 4 4 m = le32 (swap32 xid)" unfolding m1 by (rule bslice_append_at) simp_all
  show "bslice 10 2 m = le16 (swap16 flags)" unfolding m2 by (rule bslice_append_at) simp_all
  show "bslice 28 6 m = mac" unfolding m3 by (rule bslice_append_at) (simp_all add: assms(1))
  show "bslice 236 4 m = le32 (swap32 DHCP_MAGIC)" unfolding m4 by (rule bslice_append_at) (simp_all add: assms(1))
  show "drop 240 m = opts @ ?z"
    using assms(1) by (simp add: m client_packet_def)
qed

text \<open>Receiving such a message is dispatching on its options.\<close>

lemma RecvCb_client_packet:
  assumes "length mac = 6" "length opts \<le> 308" "own_mac env \<noteq> mac" "CheckMacIsValid env mac"
    and "ParseDhcpOptions (opts @ replicate (308 - length opts) 0) \<lparr>Ret = 0, MsgType = 0xff, ReqIpAddr = 0, ServerId = 0\<rparr> = Some o1"
    and "Ret o1 AND 1 \<noteq> 0" "MsgType o1 \<noteq> DHCP_MSG_INFORM"
  shows "DHCPS_RecvCb env (client_packet xid flags mac opts) s =
    Some (dhcp_dispatch env mac (MsgType o1) (ReqIpAddr o1) (ServerId o1) xid flags s)"
  using assms client_packet_fields [OF assms(1,2), of xid flags]
  by (simp add: DHCPS_RecvCb_def msg_accepted_def Let_def)

lemma RecvCb_discover:
  assumes "length mac = 6" "own_mac env \<noteq> mac" "CheckMacIsValid env mac"
  shows "DHCPS_RecvCb env (discover_packet xid flags mac) s = Some (dhcp_dispatch env mac DHCP_MSG_DISCOVER 0 0 xid flags s)"
  using RecvCb_client_packet [OF assms(1) _ assms(2,3), of "[53, 1, DHCP_MSG_DISCOVER, 255]"]
  by (simp add: discover_packet_def dhcp_consts)

lemma RecvCb_request:
  assumes "length mac = 6" "own_mac env \<noteq> mac" "CheckMacIsValid env mac"
  shows "DHCPS_RecvCb env (request_packet xid flags mac ip srv) s = Some (dhcp_dispatch env mac DHCP_MSG_REQUEST ip srv xid flags s)"
proof -
  have d: "drop 4 (le32 x @ ys) = ys" "take 4 (le32 x @ ys) = le32 x" for x ys by simp_all
  show ?thesis
    using RecvCb_client_packet [OF assms(1) _ assms(2,3), of "[53, 1, DHCP_MSG_REQUEST, 50, 4] @ le32 ip @ [54, 4] @ le32 srv @ [255]"]
    by (simp add: request_packet_def dhcp_consts d)
qed

section \<open>Offer and acknowledgement\<close>

lemma lookup_discover_new:
  assumes "scan_ok mac req cs a" "\<forall>c \<in> set cs. active c \<longrightarrow> MacAddr c \<noteq> mac" "\<exists>c \<in> set cs. \<not> active c"
  shows "\<exists>i < length cs. \<not> active (cs ! i) \<and> lookup_discover a cs = (Some i, cs)"
proof -
  have my: "pMyClient a = None"
    using assms(1,2) by (auto simp: scan_ok_def points_to_def split: option.splits)
  have "pFreeClient a \<noteq> None \<or> pHistoryClient a \<noteq> None"
    using assms(1,3) by (cases "pFreeClient a"; cases "pHistoryClient a") (auto simp: scan_ok_def points_to_def)
  then show ?thesis
    using assms(1) my by (auto simp: scan_ok_def points_to_def lookup_discover_def split: option.splits)
qed

lemma dispatch_discover:
  assumes "\<forall>c \<in> set (Clients s). active c \<longrightarrow> MacAddr c \<noteq> mac" "\<exists>c \<in> set (Clients s). \<not> active c"
  shows "\<exists>i < length (Clients s). \<not> active (Clients s ! i)
    \<and> dhcp_dispatch env mac DHCP_MSG_DISCOVER req srv xid flags s =
       (DHCPOfferGenAndSend env ((Clients s ! i)\<lparr>MacAddr := mac, State := DHCP_CLIENT_STATE_SELECT\<rparr>) mac xid flags s,
        s\<lparr>Clients := (Clients s)[i := (Clients s ! i)\<lparr>MacAddr := mac, Timeout := DHCP_DEFFAULT_TIMEOUT,
                                        State := DHCP_CLIENT_STATE_REQUEST\<rparr>]\<rparr>)"
proof -
  obtain i where i: "i < length (Clients s)" "\<not> active (Clients s ! i)"
    "lookup_discover (scan_table mac req 0 (Clients s) scan_start) (Clients s) = (Some i, Clients s)"
    using lookup_discover_new [OF scan_ok assms] by blast
  then show ?thesis
    by (intro exI [of _ i])
      (simp add: dhcp_dispatch_def ClientTableLookup_def DhcpClientSMEHandle_def sme_offer_def active_def Let_def
        DHCPOfferGenAndSend_def lease_options_def)
qed

lemma dispatch_request:
  assumes "i < length (Clients s)" "State (Clients s ! i) = DHCP_CLIENT_STATE_REQUEST" "MacAddr (Clients s ! i) = mac"
    and "distinct_active (Clients s)" "distinct (map IpAddr (Clients s))" "ip = IpAddr (Clients s ! i)" "srv = ServerIpAddr s"
  shows "dhcp_dispatch env mac DHCP_MSG_REQUEST ip srv xid flags s =
       (DHCPAckGenAndSend env (Clients s ! i) mac xid flags s,
        s\<lparr>Clients := CleanClientHistory mac ((Clients s)[i := (Clients s ! i)\<lparr>Lease := DHCP_DEFAULT_LEASE_TIME,
                                        State := DHCP_CLIENT_STATE_BIND\<rparr>])\<rparr>)"
proof -
  let ?cs = "Clients s" let ?a = "scan_table mac ip 0 ?cs scan_start"
  have ok: "scan_ok mac ip ?cs ?a" by (rule scan_ok)
  have act: "active (?cs ! i)" using assms(2) by (simp add: active_def)
  have same_ip: "j = i" if "j < length ?cs" "IpAddr (?cs ! j) = ip" for j
    using that assms(1,5,6) by (metis distinct_conv_nth length_map nth_map)
  have my: "pMyClient ?a = Some i"
    using ok act assms(1,3,4) by (auto simp: scan_ok_def points_to_def distinct_active_def split: option.splits)
  have rq: "pReqClient ?a = None"
    using ok act same_ip by (auto simp: scan_ok_def points_to_def split: option.splits)
  have un: "\<not> IpUnavailable ?a"
    using ok same_ip assms(3) by (auto simp: scan_ok_def in_set_conv_nth)
  have "(?cs)[i := (?cs ! i)\<lparr>MacAddr := mac\<rparr>] = ?cs"
    using assms(3) by (metis dhcp_client.surjective dhcp_client.update_convs(4) list_update_id)
  moreover have "lookup_request s srv ?a ?cs = (Some i, ?cs)"
    using my rq un assms(7) by (simp add: lookup_request_def)
  moreover have "DHCP_MSG_REQUEST \<noteq> DHCP_MSG_DISCOVER" by (simp add: dhcp_consts)
  ultimately have "ClientTableLookup mac DHCP_MSG_REQUEST ip srv s = (Some i, s)"
    by (simp add: ClientTableLookup_def Let_def)
  then show ?thesis
    using assms(2,3) by (simp add: dhcp_dispatch_def DhcpClientSMEHandle_def sme_ack_def Let_def)
qed

text \<open>The lease message is sent, to the client or to everyone.\<close>

lemma send_lease_message: "\<exists>dest. Udp_send dest 68 msg \<in> set (send_lease c mac flags msg)"
  by (simp add: send_lease_def)

section \<open>Properties\<close>



text \<open>C15. A new client that discovers and then requests the address offered ends bound to it: when an entry is
  idle, the server offers the entry's address and, asked for it, acknowledges it with a full lease.\<close>

theorem dhcp_handshake_binds:
  assumes "distinct_active (Clients s)" "distinct (map IpAddr (Clients s))" "\<exists>c \<in> set (Clients s). \<not> active c"
    and "\<forall>c \<in> set (Clients s). active c \<longrightarrow> MacAddr c \<noteq> mac"
    and "length mac = 6" "own_mac env \<noteq> mac" "CheckMacIsValid env mac" "pbuf_ok env"
  shows "\<exists>i s1 s2 out1 out2. i < length (Clients s)
    \<and> DHCPS_RecvCb env (discover_packet xid flags mac) s = Some (out1, s1)
    \<and> (\<exists>dest. Udp_send dest 68 (dhcp_header xid (IpAddr (Clients s ! i)) 0 mac @ lease_options DHCP_MSG_OFFER s) \<in> set out1)
    \<and> DHCPS_RecvCb env (request_packet xid flags mac (IpAddr (Clients s ! i)) (ServerIpAddr s)) s1 = Some (out2, s2)
    \<and> (\<exists>dest. Udp_send dest 68 (dhcp_header xid (IpAddr (Clients s ! i)) 0 mac @ lease_options DHCP_MSG_ACK s) \<in> set out2)
    \<and> State (Clients s2 ! i) = DHCP_CLIENT_STATE_BIND \<and> MacAddr (Clients s2 ! i) = mac
    \<and> IpAddr (Clients s2 ! i) = IpAddr (Clients s ! i) \<and> Lease (Clients s2 ! i) = DHCP_DEFAULT_LEASE_TIME"
proof -
  let ?offered = "\<lambda>i. (Clients s ! i)\<lparr>MacAddr := mac, Timeout := DHCP_DEFFAULT_TIMEOUT, State := DHCP_CLIENT_STATE_REQUEST\<rparr>"
  obtain i where i: "i < length (Clients s)" "\<not> active (Clients s ! i)"
    and d: "dhcp_dispatch env mac DHCP_MSG_DISCOVER 0 0 xid flags s =
       (DHCPOfferGenAndSend env ((Clients s ! i)\<lparr>MacAddr := mac, State := DHCP_CLIENT_STATE_SELECT\<rparr>) mac xid flags s,
        s\<lparr>Clients := (Clients s)[i := ?offered i]\<rparr>)"
    using dispatch_discover [OF assms(4,3)] by blast
  let ?s1 = "s\<lparr>Clients := (Clients s)[i := ?offered i]\<rparr>"
  have "only_at mac i (Clients s)" using assms(4) by (intro only_at_none) auto
  then have da: "distinct_active (Clients ?s1)" using assms(1) by (simp add: distinct_active_set)
  have "map IpAddr (Clients ?s1) = map IpAddr (Clients s)" by (simp add: map_ip_update)
  then have r: "dhcp_dispatch env mac DHCP_MSG_REQUEST (IpAddr (Clients s ! i)) (ServerIpAddr s) xid flags ?s1 =
       (DHCPAckGenAndSend env (?offered i) mac xid flags ?s1,
        ?s1\<lparr>Clients := CleanClientHistory mac ((Clients ?s1)[i := (?offered i)\<lparr>Lease := DHCP_DEFAULT_LEASE_TIME,
                                        State := DHCP_CLIENT_STATE_BIND\<rparr>])\<rparr>)"
    (is "_ = (?o2, ?s2)")
    using dispatch_request [of i ?s1 mac "IpAddr (Clients s ! i)" "ServerIpAddr s" env xid flags] da assms(2) i by simp
  have R1: "DHCPS_RecvCb env (discover_packet xid flags mac) s =
      Some (DHCPOfferGenAndSend env ((Clients s ! i)\<lparr>MacAddr := mac, State := DHCP_CLIENT_STATE_SELECT\<rparr>) mac xid flags s, ?s1)"
    (is "_ = Some (?o1, _)")
    unfolding RecvCb_discover [OF assms(5-7)] d ..
  have R2: "DHCPS_RecvCb env (request_packet xid flags mac (IpAddr (Clients s ! i)) (ServerIpAddr s)) ?s1 = Some (?o2, ?s2)"
    unfolding RecvCb_request [OF assms(5-7)] r ..
  have M1: "\<exists>dest. Udp_send dest 68 (dhcp_header xid (IpAddr (Clients s ! i)) 0 mac @ lease_options DHCP_MSG_OFFER s) \<in> set ?o1"
    using assms(8) by (simp add: DHCPOfferGenAndSend_def send_lease_message)
  have "lease_options DHCP_MSG_ACK ?s1 = lease_options DHCP_MSG_ACK s" by (simp add: lease_options_def)
  then have M2: "\<exists>dest. Udp_send dest 68 (dhcp_header xid (IpAddr (Clients s ! i)) 0 mac @ lease_options DHCP_MSG_ACK s) \<in> set ?o2"
    using assms(8) by (simp add: DHCPAckGenAndSend_def send_lease_message)
  have F: "State (Clients ?s2 ! i) = DHCP_CLIENT_STATE_BIND \<and> MacAddr (Clients ?s2 ! i) = mac
    \<and> IpAddr (Clients ?s2 ! i) = IpAddr (Clients s ! i) \<and> Lease (Clients ?s2 ! i) = DHCP_DEFAULT_LEASE_TIME"
    using i(1) by (simp add: CleanClientHistory_def)
  show ?thesis using i(1) R1 M1 R2 M2 F by blast
qed

theorem dhcp_handshake_binds_witness:
  "\<exists>s i (s2 :: dhcp_server). DHCPS_Start True 0x010aa8c0 0x00ffffff True zero_server = Some (0, s) \<and> i < length (Clients s)
    \<and> State (Clients s2 ! i) = DHCP_CLIENT_STATE_BIND \<and> MacAddr (Clients s2 ! i) = [2, 0, 0, 0, 0, 7]
    \<and> IpAddr (Clients s2 ! i) = IpAddr (Clients s ! i)"
proof -
  let ?env = "\<lparr>mem_ok = True, pbuf_ok = True, sta_num = 1, sta_buf = [2, 0, 0, 0, 0, 7], own_mac = [4, 0, 0, 0, 0, 1]\<rparr>"
  have m: "NOT (swap32 0x00ffffff) = (mask 8 :: u32)" by code_simp
  have h: "unat (swap32 0x010aa8c0 AND mask 8) + 9 < 2 ^ 8" by code_simp
  obtain r s where st: "DHCPS_Start True 0x010aa8c0 0x00ffffff True zero_server = Some (r, s)" "r = 0"
    by (simp add: DHCPS_Start_def Let_def m)
  have k: "(8 :: nat) < 32" by simp
  note p = DHCPS_Start_pool [OF m k h st(1) [unfolded st(2)]]
  have idle: "\<not> active c" if "c \<in> set (Clients s)" for c
    using st(1) that by (auto simp: DHCPS_Start_def Let_def m pool_client_def active_def)
  have "Clients s \<noteq> []" using p(1) by auto
  then have ex: "\<exists>c \<in> set (Clients s). \<not> active c" using idle by (cases "Clients s") auto
  have no: "\<forall>c \<in> set (Clients s). active c \<longrightarrow> MacAddr c \<noteq> [2, 0, 0, 0, 0, 7]" using idle by blast
  have v: "length [2, 0, 0, 0, 0, 7 :: u8] = 6" "own_mac ?env \<noteq> [2, 0, 0, 0, 0, 7]" "CheckMacIsValid ?env [2, 0, 0, 0, 0, 7]"
    "pbuf_ok ?env" by (simp_all add: CheckMacIsValid_def bslice_def)
  obtain i and s2 :: dhcp_server where "i < length (Clients s)" "State (Clients s2 ! i) = DHCP_CLIENT_STATE_BIND"
    "MacAddr (Clients s2 ! i) = [2, 0, 0, 0, 0, 7]" "IpAddr (Clients s2 ! i) = IpAddr (Clients s ! i)"
    using dhcp_handshake_binds [OF p(2,4) ex no v, of 0 0] by blast
  then show ?thesis using st by blast
qed

text \<open>A lease lasts exactly its time: a bound client that stays associated is bound for every one of the
  first \<open>Lease - 1\<close> ticks and idle after the last; an offer that is not taken up is withdrawn after exactly
  \<open>Timeout\<close> ticks and its client forgotten.\<close>

theorem dhcp_lease_expires:
  assumes "State b = DHCP_CLIENT_STATE_BIND" "CheckMacIsValid env (MacAddr b)" "0 < unat (Lease b)"
    and "State q = DHCP_CLIENT_STATE_REQUEST" "0 < unat (Timeout q)"
  shows "(\<forall>n < unat (Lease b). State ((tick_client env ^^ n) b) = DHCP_CLIENT_STATE_BIND)
    \<and> State ((tick_client env ^^ unat (Lease b)) b) = DHCP_CLIENT_STATE_IDLE
    \<and> (\<forall>n < unat (Timeout q). State ((tick_client env ^^ n) q) = DHCP_CLIENT_STATE_REQUEST)
    \<and> State ((tick_client env ^^ unat (Timeout q)) q) = DHCP_CLIENT_STATE_IDLE
    \<and> MacAddr ((tick_client env ^^ unat (Timeout q)) q) = zero_mac"
  using tick_bound [OF assms(1,2)] tick_over [OF assms(1-3)] tick_offered [OF assms(4)] tick_offer_over [OF assms(4,5)] assms(1,4)
  by simp

theorem dhcp_lease_expires_witness:
  "State ((tick_client \<lparr>mem_ok = True, pbuf_ok = True, sta_num = 1, sta_buf = [2, 0, 0, 0, 0, 7], own_mac = []\<rparr> ^^ 7200)
     \<lparr>State = DHCP_CLIENT_STATE_BIND, Timeout = 0, IpAddr = 9, MacAddr = [2, 0, 0, 0, 0, 7], Lease = 7200\<rparr>)
   = DHCP_CLIENT_STATE_IDLE"
proof -
  let ?env = "\<lparr>mem_ok = True, pbuf_ok = True, sta_num = 1, sta_buf = [2, 0, 0, 0, 0, 7], own_mac = []\<rparr>"
  let ?b = "\<lparr>State = DHCP_CLIENT_STATE_BIND, Timeout = 0, IpAddr = 9, MacAddr = [2, 0, 0, 0, 0, 7], Lease = 7200\<rparr>"
  let ?q = "\<lparr>State = DHCP_CLIENT_STATE_REQUEST, Timeout = 10, IpAddr = 9, MacAddr = [2, 0, 0, 0, 0, 7], Lease = 7200\<rparr>"
  show ?thesis
    using dhcp_lease_expires [of ?b ?env ?q] by (simp add: CheckMacIsValid_def bslice_def)
qed

text \<open>C19. A request for an address that another client is using is refused: the server answers NAK (when it can
  send at all), and the entry of the other client stays as it is.\<close>

theorem dhcp_request_in_use_refused:
  assumes "distinct_active (Clients s)" "j < length (Clients s)" "active (Clients s ! j)" "MacAddr (Clients s ! j) \<noteq> mac"
    and "dhcp_dispatch env mac DHCP_MSG_REQUEST (IpAddr (Clients s ! j)) srv xid flags s = (out, s')"
  shows "out = DHCPNakGenAndSend env mac xid s \<and> Clients s' ! j = Clients s ! j
    \<and> (\<forall>i < length (Clients s'). active (Clients s' ! i) \<longrightarrow> MacAddr (Clients s' ! i) \<noteq> mac)"
proof -
  let ?cs = "Clients s" let ?a = "scan_table mac (IpAddr (?cs ! j)) 0 ?cs scan_start"
  have ok: "scan_ok mac (IpAddr (?cs ! j)) ?cs ?a" by (rule scan_ok)
  then have un: "IpUnavailable ?a" using assms(2-4) by (auto simp: scan_ok_def)
  have my: "pMyClient ?a = Some m \<Longrightarrow> m < length ?cs \<and> active (?cs ! m) \<and> MacAddr (?cs ! m) = mac" for m
    using ok by (simp add: scan_ok_def points_to_def)
  have none: "pMyClient ?a = None \<Longrightarrow> \<forall>i < length ?cs. active (?cs ! i) \<longrightarrow> MacAddr (?cs ! i) \<noteq> mac"
    using ok by (auto simp: scan_ok_def points_to_def)
  let ?cs' = "case pMyClient ?a of Some m \<Rightarrow> drop_client m ?cs | None \<Rightarrow> ?cs"
  have "lookup_request s srv ?a ?cs = (None, ?cs')"
    using un by (simp add: lookup_request_def split: option.splits)
  moreover have "DHCP_MSG_REQUEST \<noteq> DHCP_MSG_DISCOVER" "DHCP_MSG_REQUEST \<noteq> DHCP_MSG_RELEASE" "DHCP_MSG_REQUEST \<noteq> DHCP_MSG_DECLINE"
    by (simp_all add: dhcp_consts)
  ultimately have d: "dhcp_dispatch env mac DHCP_MSG_REQUEST (IpAddr (?cs ! j)) srv xid flags s =
      (DHCPNakGenAndSend env mac xid (s\<lparr>Clients := ?cs'\<rparr>), s\<lparr>Clients := ?cs'\<rparr>)"
    by (simp add: dhcp_dispatch_def ClientTableLookup_def Let_def)
  have "active (?cs' ! i) \<longrightarrow> MacAddr (?cs' ! i) \<noteq> mac" if "i < length ?cs" for i
  proof (cases "pMyClient ?a")
    case None
    then show ?thesis using none that by simp
  next
    case (Some m)
    have "only_at mac m ?cs" using my [OF Some] assms(1) by (intro only_atI) auto
    then show ?thesis
      using Some that my [OF Some] by (auto simp: drop_client_def Let_def only_at_def nth_update_any split: if_splits)
  qed
  moreover have "?cs' ! j = ?cs ! j" "length ?cs' = length ?cs"
    using my assms(2-4) by (auto simp: drop_client_def Let_def nth_update_any split: option.splits)
  ultimately show ?thesis using assms(5) d by (auto simp: DHCPNakGenAndSend_def)
qed

definition two_clients :: dhcp_server where
  "two_clients = zero_server\<lparr>Clients :=
     [\<lparr>State = DHCP_CLIENT_STATE_BIND, Timeout = 0, IpAddr = 9, MacAddr = [2, 0, 0, 0, 0, 7], Lease = 7200\<rparr>,
      \<lparr>State = DHCP_CLIENT_STATE_IDLE, Timeout = 0, IpAddr = 8, MacAddr = zero_mac, Lease = 7200\<rparr>]\<rparr>"

theorem dhcp_request_in_use_refused_witness:
  "Clients (snd (dhcp_dispatch \<lparr>mem_ok = True, pbuf_ok = True, sta_num = 0, sta_buf = [], own_mac = []\<rparr>
     [2, 0, 0, 0, 0, 8] DHCP_MSG_REQUEST 9 0 0 0 two_clients)) ! 0 = Clients two_clients ! 0"
proof -
  let ?env = "\<lparr>mem_ok = True, pbuf_ok = True, sta_num = 0, sta_buf = [], own_mac = []\<rparr>"
  obtain out s' where d: "dhcp_dispatch ?env [2, 0, 0, 0, 0, 8] DHCP_MSG_REQUEST 9 0 0 0 two_clients = (out, s')" by fastforce
  have c: "distinct_active (Clients two_clients)" "IpAddr (Clients two_clients ! 0) = 9" "0 < length (Clients two_clients)"
    "active (Clients two_clients ! 0)" "MacAddr (Clients two_clients ! 0) \<noteq> [2, 0, 0, 0, 0, 8]"
    by (auto simp: two_clients_def distinct_active_def active_def zero_mac_def less_Suc_eq)
  show ?thesis
    using dhcp_request_in_use_refused [OF c(1) c(3) c(4) c(5), of ?env 0 0 0, unfolded c(2), OF d] d by simp
qed

text \<open>The options of every lease message, read by the server's own parser, give back the message type
  and the server's address, and the message fits the 548-byte structure it is built in.\<close>

theorem dhcp_lease_options_roundtrip:
  "ParseDhcpOptions (lease_options t s @ r) a =
     Some (a\<lparr>MsgType := t, ServerId := ServerIpAddr s, Ret := Ret a OR 0x01 OR 0x04\<rparr>)
   \<and> length (dhcp_header xid y si (take 6 mac) @ lease_options t s) \<le> 548"
proof -
  have d: "drop 4 (le32 x @ ys) = ys" "take 4 (le32 x @ ys) = le32 x" "drop 8 (le32 x @ le32 y @ ys) = ys" for x y ys by simp_all
  have "lease_options t s @ r = 53 # 1 # t # 51 # 4 # le32 (swap32 DHCP_DEFAULT_LEASE_TIME) @ 54 # 4 # le32 (ServerIpAddr s)
     @ 1 # 4 # le32 (SubnetMask s) @ 3 # 4 # le32 (GateWay s) @ 6 # 8 # le32 (Dns1 s) @ le32 (Dns2 s) @ 255 # r"
    by (simp add: lease_options_def option_msg_type_def option_lease_time_def option_addr_def option_dns_def)
  then have "ParseDhcpOptions (lease_options t s @ r) a =
     Some (a\<lparr>MsgType := t, ServerId := ServerIpAddr s, Ret := Ret a OR 0x01 OR 0x04\<rparr>)"
    by (simp add: d or.assoc)
  then show ?thesis
    by (simp add: dhcp_header_def lease_options_def option_msg_type_def option_lease_time_def option_addr_def option_dns_def)
qed

text \<open>A message whose options have no end marker makes the parser read past the message structure: for a
  message with no options at all (the rest of the structure is zero) the loop reads the byte after its end.\<close>

theorem dhcp_options_overrun:
  "ParseDhcpOptions (replicate n 0) a = None"
  by (induction n) simp_all

text \<open>Near the end of a subnet the pool wraps around and two entries get the same address: a server at
  192.168.1.250 of a /24 network gives 192.168.1.1 to the fifth entry and to the sixth.\<close>

theorem dhcp_pool_duplicates:
  "map_option (\<lambda>(r, s). (r, map (\<lambda>c. swap32 (IpAddr c)) (Clients s)))
     (DHCPS_Start True (swap32 0xC0A801FA) (swap32 0xFFFFFF00) True zero_server) =
   Some (0, [0xC0A801FB, 0xC0A801FC, 0xC0A801FD, 0xC0A801FE, 0xC0A80101, 0xC0A80101, 0xC0A80102, 0xC0A80103])"
  by (simp add: DHCPS_Start_def pool_client_def pool_addr_def Let_def upt_8 zero_server_def)

end
