(* ===== verification/Params.thy ===== *)
theory Params
  imports Flash_Correct Crc
begin

text \<open>
  The parameter manager \<^verbatim>\<open>src/Platform/Common/Params/wm_param.c\<close>. The structures it keeps in memory
  and writes to flash are byte slabs with the layout of \<^verbatim>\<open>struct tls_sys_param\<close> (808 bytes) and
  \<^verbatim>\<open>struct tls_param_flash\<close> (828 bytes: a header of 16 bytes, the parameters, a CRC); a field is its
  offset and length. Each switch over parameter identifiers is a table from the
  identifier to the copies its case makes, in the order of the code. The flash driver is a record of
  operations \<open>flash_ops\<close>, so that the manager rests on the driver's contract only. The result \<open>None\<close>
  is undefined behaviour: a null pointer, or a copy past the end of an object.
\<close>

record 's flash_ops =
  fls_read :: "u32 \<Rightarrow> bytes option \<Rightarrow> nat \<Rightarrow> 's \<Rightarrow> int \<times> bytes option \<times> 's"
  fls_write :: "u32 \<Rightarrow> bytes option \<Rightarrow> nat \<Rightarrow> 's \<Rightarrow> int \<times> 's"
  fls_erase :: "u32 \<Rightarrow> 's \<Rightarrow> int \<times> 's"

definition driver_ops :: "'d spi \<Rightarrow> allocator \<Rightarrow> 'd fls flash_ops" where
  "driver_ops spi heap = \<lparr>fls_read = tls_fls_read spi heap, fls_write = tls_fls_write spi heap, fls_erase = tls_fls_erase spi\<rparr>"

text \<open>The build options the code tests.\<close>

record param_cfg =
  cfg_ap :: bool
  cfg_wps :: bool
  cfg_11n :: bool

record 's params =
  flash_param :: bytes
  sram_param :: bytes
  user_default_param :: bytes
  sys_param_lock :: int
  updp_mode :: u8
  param_allocs :: nat
  dev :: 's

definition TLS_PARAM_STATUS_OK :: int where "TLS_PARAM_STATUS_OK = 0"
definition TLS_PARAM_STATUS_EINVALID :: int where "TLS_PARAM_STATUS_EINVALID = 1"
definition TLS_PARAM_STATUS_EMEM :: int where "TLS_PARAM_STATUS_EMEM = 2"
definition TLS_PARAM_STATUS_EIO :: int where "TLS_PARAM_STATUS_EIO = 3"
definition TLS_PARAM_STATUS_EPERM :: int where "TLS_PARAM_STATUS_EPERM = 4"
definition TLS_PARAM_STATUS_EINVALIDID :: int where "TLS_PARAM_STATUS_EINVALIDID = 5"

lemmas param_status_defs = TLS_PARAM_STATUS_OK_def TLS_PARAM_STATUS_EINVALID_def TLS_PARAM_STATUS_EMEM_def
  TLS_PARAM_STATUS_EIO_def TLS_PARAM_STATUS_EPERM_def TLS_PARAM_STATUS_EINVALIDID_def

definition TLS_PARAM_MAGIC :: u32 where "TLS_PARAM_MAGIC = 0x4947414d"
definition TLS_USER_MAGIC :: u32 where "TLS_USER_MAGIC = 0x574D3031"
definition TLS_FLASH_PARAM1_ADDR :: u32 where "TLS_FLASH_PARAM1_ADDR = 0x80FD000"
definition TLS_FLASH_PARAM2_ADDR :: u32 where "TLS_FLASH_PARAM2_ADDR = 0x80FE000"
definition TLS_FLASH_PARAM_RESTORE_ADDR :: u32 where "TLS_FLASH_PARAM_RESTORE_ADDR = 0x80FF000"
definition TLS_FLASH_PARAM_DEFAULT :: u32 where "TLS_FLASH_PARAM_DEFAULT = 0x80F0000"

section \<open>The parameter structure\<close>

text \<open>The fields of \<^verbatim>\<open>struct tls_sys_param\<close> with their offsets and lengths.\<close>

type_synonym sys_field = "nat \<times> nat"

definition F_all :: sys_field where "F_all = (0, 808)"
definition F_hardware_version :: sys_field where "F_hardware_version = (0, 8)"
definition F_bssid :: sys_field where "F_bssid = (8, 8)"
definition F_ssid :: sys_field where "F_ssid = (16, 36)"
definition F_channel_enable :: sys_field where "F_channel_enable = (52, 1)"
definition F_channel :: sys_field where "F_channel = (53, 1)"
definition F_wireless_region :: sys_field where "F_wireless_region = (54, 1)"
definition F_encry :: sys_field where "F_encry = (55, 1)"
definition F_wireless_protocol :: sys_field where "F_wireless_protocol = (56, 1)"
definition F_auto_create_adhoc :: sys_field where "F_auto_create_adhoc = (57, 1)"
definition F_auto_retrycnt :: sys_field where "F_auto_retrycnt = (58, 1)"
definition F_auto_roam :: sys_field where "F_auto_roam = (59, 1)"
definition F_auto_powersave :: sys_field where "F_auto_powersave = (60, 1)"
definition F_ssid_broadcast_enable :: sys_field where "F_ssid_broadcast_enable = (61, 1)"
definition F_channellist :: sys_field where "F_channellist = (62, 2)"
definition F_key :: sys_field where "F_key = (64, 68)"
definition F_wbgr :: sys_field where "F_wbgr = (132, 4)"
definition F_wps :: sys_field where "F_wps = (136, 12)"
definition F_ipcfg :: sys_field where "F_ipcfg = (148, 24)"
definition F_local_dnsname :: sys_field where "F_local_dnsname = (172, 32)"
definition F_local_device_name :: sys_field where "F_local_device_name = (204, 32)"
definition F_oray_client_setting :: sys_field where "F_oray_client_setting = (236, 68)"
definition F_upnp_enable :: sys_field where "F_upnp_enable = (304, 1)"
definition F_user_port_mode :: sys_field where "F_user_port_mode = (306, 1)"
definition F_uart_cfg :: sys_field where "F_uart_cfg = (308, 8)"
definition F_auto_mode :: sys_field where "F_auto_mode = (316, 1)"
definition F_transparent_trigger_length :: sys_field where "F_transparent_trigger_length = (318, 2)"
definition F_transparent_trigger_period :: sys_field where "F_transparent_trigger_period = (320, 2)"
definition F_remote_socket_cfg :: sys_field where "F_remote_socket_cfg = (322, 36)"
definition F_debug_mode :: sys_field where "F_debug_mode = (360, 4)"
definition F_EscapeChar :: sys_field where "F_EscapeChar = (372, 1)"
definition F_EscapePeriod :: sys_field where "F_EscapePeriod = (374, 2)"
definition F_IoMode :: sys_field where "F_IoMode = (376, 1)"
definition F_CmdMode :: sys_field where "F_CmdMode = (377, 1)"
definition F_PassWord :: sys_field where "F_PassWord = (378, 6)"
definition F_WebsCfg :: sys_field where "F_WebsCfg = (384, 4)"
definition F_oneshotflag :: sys_field where "F_oneshotflag = (388, 1)"
definition F_psk :: sys_field where "F_psk = (391, 33)"
definition F_original_key :: sys_field where "F_original_key = (424, 68)"
definition F_original_ssid :: sys_field where "F_original_ssid = (492, 36)"
definition F_auto_reconnect :: sys_field where "F_auto_reconnect = (528, 1)"
definition F_quick_connect :: sys_field where "F_quick_connect = (532, 2)"
definition F_key_changed :: sys_field where "F_key_changed = (534, 1)"
definition F_ssid_changed :: sys_field where "F_ssid_changed = (535, 1)"
definition F_apsta_ssid :: sys_field where "F_apsta_ssid = (536, 36)"
definition F_apsta_psk :: sys_field where "F_apsta_psk = (572, 33)"
definition F_channel4softap :: sys_field where "F_channel4softap = (606, 1)"
definition F_encry4softap :: sys_field where "F_encry4softap = (607, 1)"
definition F_key4softap :: sys_field where "F_key4softap = (608, 68)"
definition F_ipcfg4softap :: sys_field where "F_ipcfg4softap = (676, 24)"
definition F_wbgr4softap :: sys_field where "F_wbgr4softap = (700, 4)"
definition F_sntp_service1 :: sys_field where "F_sntp_service1 = (704, 32)"
definition F_sntp_service2 :: sys_field where "F_sntp_service2 = (736, 32)"
definition F_sntp_service3 :: sys_field where "F_sntp_service3 = (768, 32)"
definition F_params_tem :: sys_field where "F_params_tem = (800, 8)"

lemmas field_defs = F_all_def F_hardware_version_def F_bssid_def F_ssid_def F_channel_enable_def F_channel_def
  F_wireless_region_def F_encry_def F_wireless_protocol_def F_auto_create_adhoc_def
  F_auto_retrycnt_def F_auto_roam_def F_auto_powersave_def F_ssid_broadcast_enable_def
  F_channellist_def F_key_def F_wbgr_def F_wps_def F_ipcfg_def F_local_dnsname_def
  F_local_device_name_def F_oray_client_setting_def F_upnp_enable_def F_user_port_mode_def
  F_uart_cfg_def F_auto_mode_def F_transparent_trigger_length_def F_transparent_trigger_period_def
  F_remote_socket_cfg_def F_debug_mode_def F_EscapeChar_def F_EscapePeriod_def F_IoMode_def
  F_CmdMode_def F_PassWord_def F_WebsCfg_def F_oneshotflag_def F_psk_def F_original_key_def
  F_original_ssid_def F_auto_reconnect_def F_quick_connect_def F_key_changed_def F_ssid_changed_def
  F_apsta_ssid_def F_apsta_psk_def F_channel4softap_def F_encry4softap_def F_key4softap_def
  F_ipcfg4softap_def F_wbgr4softap_def F_sntp_service1_def F_sntp_service2_def F_sntp_service3_def
  F_params_tem_def

definition layout :: "sys_field list" where
  "layout = [F_hardware_version, F_bssid, F_ssid, F_channel_enable, F_channel, F_wireless_region, F_encry,
    F_wireless_protocol, F_auto_create_adhoc, F_auto_retrycnt, F_auto_roam, F_auto_powersave,
    F_ssid_broadcast_enable, F_channellist, F_key, F_wbgr, F_wps, F_ipcfg, F_local_dnsname,
    F_local_device_name, F_oray_client_setting, F_upnp_enable, F_user_port_mode, F_uart_cfg,
    F_auto_mode, F_transparent_trigger_length, F_transparent_trigger_period, F_remote_socket_cfg,
    F_debug_mode, F_EscapeChar, F_EscapePeriod, F_IoMode, F_CmdMode, F_PassWord, F_WebsCfg,
    F_oneshotflag, F_psk, F_original_key, F_original_ssid, F_auto_reconnect, F_quick_connect,
    F_key_changed, F_ssid_changed, F_apsta_ssid, F_apsta_psk, F_channel4softap, F_encry4softap,
    F_key4softap, F_ipcfg4softap, F_wbgr4softap, F_sntp_service1, F_sntp_service2, F_sntp_service3,
    F_params_tem]"

section \<open>The switches\<close>

text \<open>
  A case copies a field (\<^verbatim>\<open>MEMCPY\<close> or an assignment of its size), or a string with its NUL (\<^verbatim>\<open>strcpy\<close>, and
  \<^verbatim>\<open>strncpy\<close> with the length of the source). The case \<^verbatim>\<open>TLS_PARAM_ID_AUTO_TRIGGER_PERIOD\<close> (28) of
  \<^verbatim>\<open>param_to_flash\<close> has no \<^verbatim>\<open>break\<close> and goes on into \<^verbatim>\<open>TLS_PARAM_ID_DEBUG_MODE\<close>.
\<close>

datatype param_case = Copy sys_field | Strcpy sys_field

definition to_flash_cases_1 :: "param_cfg \<Rightarrow> (int \<times> param_case list) list" where
  "to_flash_cases_1 cfg =
     [(- 1, [Copy F_all]), (0, [Copy F_ssid]), (1, [Copy F_encry]), (2, [Copy F_key]), (3, [Copy F_ipcfg]),
       (4, [Copy F_auto_mode]), (5, [Copy F_remote_socket_cfg]), (6, [Copy F_bssid]), (7, [Copy F_channel]),
       (8, [Copy F_channel_enable]), (9, [Copy F_wireless_region]), (10, [Copy F_wireless_protocol]),
       (11, [Copy F_auto_create_adhoc]), (12, [Copy F_auto_roam]), (13, [Copy F_auto_retrycnt]),
       (14, [Copy F_wbgr]), (15, [Copy F_user_port_mode]), (29, [Copy F_EscapeChar]),
       (30, [Copy F_EscapePeriod]), (16, [Copy F_transparent_trigger_length]),
       (28, [Copy F_transparent_trigger_period, Copy F_debug_mode]), (17, [Copy F_debug_mode]),
       (18, [Copy F_hardware_version]), (19, [Copy F_ssid_broadcast_enable]), (20, [Copy F_local_dnsname]),
       (21, [Copy F_local_device_name]), (22, [Copy F_auto_powersave])]"

definition to_flash_cases_2 :: "param_cfg \<Rightarrow> (int \<times> param_case list) list" where
  "to_flash_cases_2 cfg =
     [(23, [Copy F_oray_client_setting]), (24, [Copy F_upnp_enable]), (26, [Copy F_uart_cfg])]
     @ (if cfg_wps cfg then
      [(27, [Copy F_wps])] else [])
     @ [(34, [Copy F_channellist]), (36, [Copy F_oneshotflag]), (37, [Copy F_psk]),
       (38, [Copy F_original_key]), (39, [Copy F_original_ssid]), (40, [Copy F_auto_reconnect]),
       (31, [Copy F_IoMode]), (32, [Copy F_CmdMode]), (33, [Copy F_PassWord]), (35, [Copy F_WebsCfg]),
       (41, [Copy F_quick_connect]), (42, [Copy F_key_changed]), (43, [Copy F_ssid_changed])]
     @ (if cfg_ap cfg then
      [(44, [Copy F_apsta_ssid]), (45, [Copy F_apsta_psk]), (46, [Copy F_encry4softap]),
       (47, [Copy F_key4softap]), (48, [Copy F_ipcfg4softap]), (49, [Copy F_channel4softap]),
       (50, [Copy F_wbgr4softap])] else [])
     @ [(51, [Strcpy F_sntp_service1]), (52, [Strcpy F_sntp_service2]), (53, [Strcpy F_sntp_service3]),
       (54, [Copy F_params_tem])]"

definition set_cases_1 :: "param_cfg \<Rightarrow> (int \<times> param_case list) list" where
  "set_cases_1 cfg =
     [(- 1, [Copy F_all]), (0, [Copy F_ssid]), (1, [Copy F_encry]), (2, [Copy F_key]), (3, [Copy F_ipcfg]),
       (4, [Copy F_auto_mode]), (5, [Copy F_remote_socket_cfg]), (6, [Copy F_bssid]), (7, [Copy F_channel]),
       (34, [Copy F_channellist]), (8, [Copy F_channel_enable]), (9, [Copy F_wireless_region]),
       (10, [Copy F_wireless_protocol]), (11, [Copy F_auto_create_adhoc]), (12, [Copy F_auto_roam]),
       (13, [Copy F_auto_retrycnt]), (14, [Copy F_wbgr]), (15, [Copy F_user_port_mode]),
       (16, [Copy F_transparent_trigger_length]), (28, [Copy F_transparent_trigger_period]),
       (29, [Copy F_EscapeChar]), (30, [Copy F_EscapePeriod]), (31, [Copy F_IoMode]),
       (32, [Copy F_CmdMode]), (33, [Copy F_PassWord]), (35, [Copy F_WebsCfg]), (17, [Copy F_debug_mode])]"

definition set_cases_2 :: "param_cfg \<Rightarrow> (int \<times> param_case list) list" where
  "set_cases_2 cfg =
     [(18, [Copy F_hardware_version]), (19, [Copy F_ssid_broadcast_enable]),
       (20, [Strcpy F_local_dnsname]), (21, [Strcpy F_local_device_name]), (22, [Copy F_auto_powersave]),
       (23, [Copy F_oray_client_setting]), (24, [Copy F_upnp_enable]), (26, [Copy F_uart_cfg])]
     @ (if cfg_wps cfg then
      [(27, [Copy F_wps])] else [])
     @ [(36, [Copy F_oneshotflag]), (37, [Copy F_psk]), (38, [Copy F_original_key]),
       (39, [Copy F_original_ssid]), (40, [Copy F_auto_reconnect]), (41, [Copy F_quick_connect]),
       (42, [Copy F_key_changed]), (43, [Copy F_ssid_changed])]
     @ (if cfg_ap cfg then
      [(44, [Copy F_apsta_ssid]), (45, [Copy F_apsta_psk]), (46, [Copy F_encry4softap]),
       (47, [Copy F_key4softap]), (48, [Copy F_ipcfg4softap]), (49, [Copy F_channel4softap]),
       (50, [Copy F_wbgr4softap])] else [])
     @ [(51, [Strcpy F_sntp_service1]), (52, [Strcpy F_sntp_service2]), (53, [Strcpy F_sntp_service3]),
       (54, [Copy F_params_tem])]"

definition get_cases_1 :: "param_cfg \<Rightarrow> (int \<times> param_case list) list" where
  "get_cases_1 cfg =
     [(- 1, [Copy F_all]), (0, [Copy F_ssid]), (1, [Copy F_encry]), (2, [Copy F_key]), (3, [Copy F_ipcfg]),
       (4, [Copy F_auto_mode]), (5, [Copy F_remote_socket_cfg]), (6, [Copy F_bssid]), (7, [Copy F_channel]),
       (34, [Copy F_channellist]), (8, [Copy F_channel_enable]), (9, [Copy F_wireless_region]),
       (10, [Copy F_wireless_protocol]), (11, [Copy F_auto_create_adhoc]), (12, [Copy F_auto_roam]),
       (13, [Copy F_auto_retrycnt]), (14, [Copy F_wbgr]), (15, [Copy F_user_port_mode]),
       (16, [Copy F_transparent_trigger_length]), (28, [Copy F_transparent_trigger_period]),
       (29, [Copy F_EscapeChar]), (30, [Copy F_EscapePeriod]), (31, [Copy F_IoMode]),
       (32, [Copy F_CmdMode]), (33, [Copy F_PassWord]), (35, [Copy F_WebsCfg]), (17, [Copy F_debug_mode])]"

definition get_cases_2 :: "param_cfg \<Rightarrow> (int \<times> param_case list) list" where
  "get_cases_2 cfg =
     [(18, [Copy F_hardware_version]), (19, [Copy F_ssid_broadcast_enable]),
       (20, [Strcpy F_local_dnsname]), (21, [Strcpy F_local_device_name]), (22, [Copy F_auto_powersave]),
       (23, [Copy F_oray_client_setting]), (24, [Copy F_upnp_enable]), (26, [Copy F_uart_cfg])]
     @ (if cfg_wps cfg then
      [(27, [Copy F_wps])] else [])
     @ [(36, [Copy F_oneshotflag]), (37, [Copy F_psk]), (38, [Copy F_original_key]),
       (39, [Copy F_original_ssid]), (40, [Copy F_auto_reconnect]), (41, [Copy F_quick_connect]),
       (42, [Copy F_key_changed]), (43, [Copy F_ssid_changed])]
     @ (if cfg_ap cfg then
      [(44, [Copy F_apsta_ssid]), (45, [Copy F_apsta_psk]), (46, [Copy F_encry4softap]),
       (47, [Copy F_key4softap]), (48, [Copy F_ipcfg4softap]), (49, [Copy F_channel4softap]),
       (50, [Copy F_wbgr4softap])] else [])
     @ [(51, [Strcpy F_sntp_service1]), (52, [Strcpy F_sntp_service2]), (53, [Strcpy F_sntp_service3]),
       (54, [Copy F_params_tem])]"

definition to_flash_cases :: "param_cfg \<Rightarrow> (int \<times> param_case list) list" where
  "to_flash_cases cfg = to_flash_cases_1 cfg @ to_flash_cases_2 cfg"

definition set_cases :: "param_cfg \<Rightarrow> (int \<times> param_case list) list" where
  "set_cases cfg = set_cases_1 cfg @ set_cases_2 cfg"

definition get_cases :: "param_cfg \<Rightarrow> (int \<times> param_case list) list" where
  "get_cases cfg = get_cases_1 cfg @ get_cases_2 cfg"

text \<open>The copies of one case: from the structure to the flash image, from the argument, and to the argument.\<close>

definition to_flash_one :: "bytes \<Rightarrow> param_case \<Rightarrow> bytes \<Rightarrow> bytes option" where
  "to_flash_one src c dest = (case c of
      Copy f \<Rightarrow> (let (off, n) = f in Some (bsplice off (bslice off n src) dest))
    | Strcpy f \<Rightarrow> (let (off, _) = f; s = drop off src
        in if \<not> has_nul s then None else Some (bsplice off (cstr s @ [0]) dest)))"

definition set_one :: "bytes \<Rightarrow> param_case \<Rightarrow> bytes \<Rightarrow> bytes option" where
  "set_one argv c param = (case c of
      Copy f \<Rightarrow> (let (off, n) = f in if length argv < n then None else Some (bsplice off (take n argv) param))
    | Strcpy f \<Rightarrow> (let (off, _) = f
        in if \<not> has_nul argv \<or> length param < off + length (cstr argv) + 1 then None
           else Some (bsplice off (cstr argv @ [0]) param)))"

definition get_one :: "bytes \<Rightarrow> param_case \<Rightarrow> bytes \<Rightarrow> bytes option" where
  "get_one src c argv = (case c of
      Copy f \<Rightarrow> (let (off, n) = f in if length argv < n then None else Some (bsplice 0 (bslice off n src) argv))
    | Strcpy f \<Rightarrow> (let (off, _) = f; s = drop off src
        in if \<not> has_nul s \<or> length argv < length (cstr s) + 1 then None else Some (bsplice 0 (cstr s @ [0]) argv)))"

fun run_cases :: "(param_case \<Rightarrow> bytes \<Rightarrow> bytes option) \<Rightarrow> param_case list \<Rightarrow> bytes \<Rightarrow> bytes option" where
  "run_cases f [] x = Some x"
| "run_cases f (c # cs) x = (case f c x of None \<Rightarrow> None | Some y \<Rightarrow> run_cases f cs y)"

section \<open>Writing an image\<close>

text \<open>The header of \<^verbatim>\<open>struct tls_param_flash\<close>.\<close>

definition image_magic :: "bytes \<Rightarrow> u32" where "image_magic b = de32 (bslice 0 4 b)"
definition image_partition :: "bytes \<Rightarrow> u16" where "image_partition b = de16 (bslice 4 2 b)"
definition image_count :: "bytes \<Rightarrow> u16" where "image_count b = de16 (bslice 6 2 b)"
definition image_length :: "bytes \<Rightarrow> u16" where "image_length b = de16 (bslice 14 2 b)"
definition image_params :: "bytes \<Rightarrow> bytes" where "image_params b = bslice 16 808 b"

definition partition_addr :: "u16 \<Rightarrow> u32" where
  "partition_addr n = (if n = 0 then TLS_FLASH_PARAM1_ADDR else TLS_FLASH_PARAM2_ADDR)"

definition param_alloc :: "allocator \<Rightarrow> nat \<Rightarrow> 's params \<Rightarrow> bytes option \<times> 's params" where
  "param_alloc heap n p = (heap (param_allocs p) n, p\<lparr>param_allocs := Suc (param_allocs p)\<rparr>)"

definition param_flash_verify ::
    "'s flash_ops \<Rightarrow> allocator \<Rightarrow> u32 \<Rightarrow> bytes \<Rightarrow> nat \<Rightarrow> 's params \<Rightarrow> int \<times> 's params" where
  "param_flash_verify F heap data_addr data_buffer len p =
    (let (blk, p) = param_alloc heap len p
     in case blk of None \<Rightarrow> (0, p)
     | Some buffer \<Rightarrow>
        (let (err, b, d) = fls_read F data_addr (Some buffer) len (dev p); p = p\<lparr>dev := d\<rparr>
         in if err \<noteq> TLS_FLS_STATUS_OK then (0, p)
            else if take len (the b) = take len data_buffer then (1, p) else (0, p)))"

text \<open>The new header and CRC of the image, with a count or partition below 0 meaning the next one.\<close>

definition stamp_image :: "int \<Rightarrow> int \<Rightarrow> bytes \<Rightarrow> bytes" where
  "stamp_image modify_count partition_num b =
    (let b = bsplice 0 (le32 TLS_PARAM_MAGIC) b;
         b = bsplice 14 (le16 828) b;
         b = bsplice 6 (le16 (if modify_count < 0 then image_count b + 1 else word_of_int modify_count)) b;
         b = bsplice 4 (le16 (if partition_num < 0 then (image_partition b + 1) AND 1 else word_of_int partition_num)) b;
         b = bsplice 8 [0, 0, 0, 0, 0, 0] b
     in bsplice 824 (le32 (get_crc32 (take 824 b))) b)"

definition param_to_flash ::
    "param_cfg \<Rightarrow> 's flash_ops \<Rightarrow> allocator \<Rightarrow> int \<Rightarrow> int \<Rightarrow> int \<Rightarrow> 's params \<Rightarrow> (int \<times> 's params) option" where
  "param_to_flash cfg F heap pid modify_count partition_num p =
    (if pid < - 1 \<or> pid \<ge> 55 then Some (TLS_PARAM_STATUS_EINVALID, p)
     else case map_of (to_flash_cases cfg) pid of
       None \<Rightarrow> Some (TLS_PARAM_STATUS_EINVALIDID, p)
     | Some cs \<Rightarrow>
        (case run_cases (to_flash_one (sram_param p)) cs (image_params (flash_param p)) of
           None \<Rightarrow> None
         | Some dest \<Rightarrow>
            (let image = stamp_image modify_count partition_num (bsplice 16 dest (flash_param p));
                 addr = partition_addr (image_partition image);
                 (err, d) = fls_write F addr (Some image) 828 (dev p);
                 p = p\<lparr>flash_param := image, dev := d\<rparr>
             in if err \<noteq> TLS_FLS_STATUS_OK then Some (TLS_PARAM_STATUS_EIO, p)
                else let (ok, p) = param_flash_verify F heap addr image 828 p
                in Some (if ok = 1 then TLS_PARAM_STATUS_OK else TLS_PARAM_STATUS_EIO, p))))"

section \<open>Defaults\<close>

fun put_fields :: "(nat \<times> bytes) list \<Rightarrow> bytes \<Rightarrow> bytes" where
  "put_fields [] b = b"
| "put_fields ((off, v) # r) b = put_fields r (bsplice off v b)"

definition factory_default_hardware :: bytes where
  "factory_default_hardware = [0x48, 1, 0, 0, 0, 0, 0, 0]"

text \<open>The assignments of \<^verbatim>\<open>tls_param_load_factory_default\<close>, in order.\<close>

definition factory_radio :: "param_cfg \<Rightarrow> (nat \<times> bytes) list" where
  "factory_radio cfg =
    [(0, factory_default_hardware), (54, [1]), (53, [1]), (62, le16 0x3FFF),
     (132, [if cfg_11n cfg then 2 else 0]), (133, [if cfg_11n cfg then 25 else 9]),
     (61, [1]), (55, [0]), (56, [1]), (58, [255]), (59, [0]), (60, [0]), (528, [0]), (316, [0]),
     (318, le16 512), (308, le32 115200), (312, [0]), (313, [0]), (306, [0])]"

definition factory_net :: "(nat \<times> bytes) list" where
  "factory_net =
    [(148, [1]), (152, [192, 168, 1, 1]), (156, [255, 255, 255, 0]), (160, [192, 168, 1, 1]),
     (164, [192, 168, 1, 1]), (168, [192, 168, 1, 1]),
     (172, chr_bytes ''local.winnermicro'' @ [0]), (204, chr_bytes ''tln13sp01'' @ [0]),
     (322, [0]), (323, [1]), (324, le16 60000), (326, replicate 32 0), (372, [0x2b]), (374, le16 200),
     (384, [1]), (386, le16 80), (360, le32 0), (378, [0x30, 0x30, 0x30, 0x30, 0x30, 0x30])]"

definition factory_softap :: "(nat \<times> bytes) list" where
  "factory_softap =
    [(606, [11]), (607, [0]), (676, [1]), (680, [192, 168, 0, 1]), (684, [255, 255, 255, 0]),
     (688, [192, 168, 0, 1]), (692, [192, 168, 0, 1]), (696, [0, 0, 0, 0]), (700, [0]), (701, [9]),
     (704, chr_bytes ''cn.ntp.org.cn'' @ [0]), (736, chr_bytes ''ntp.sjtu.edu.cn'' @ [0]),
     (768, chr_bytes ''us.pool.ntp.org'' @ [0])]"

definition factory_params :: "param_cfg \<Rightarrow> bytes" where
  "factory_params cfg = put_fields (factory_radio cfg @ factory_net @ factory_softap) (replicate 808 0)"

definition tls_param_load_factory_default :: "param_cfg \<Rightarrow> 's params \<Rightarrow> 's params" where
  "tls_param_load_factory_default cfg p = p\<lparr>sram_param := factory_params cfg\<rparr>"

section \<open>Loading\<close>

text \<open>
  One partition of \<^verbatim>\<open>tls_param_init\<close>: read it into the buffer \<open>flash\<close>, check magic and CRC, and load it when
  it is newer than what has been loaded. The length comes from the image; a CRC over a length that the
  buffer does not have is undefined. The boolean result is whether the partition is damaged.
\<close>

definition init_partition ::
    "'s flash_ops \<Rightarrow> nat \<Rightarrow> bytes \<Rightarrow> 's params \<Rightarrow> (bool \<times> bytes \<times> 's params) option" where
  "init_partition F i flash p =
    (let (_, b, d) = fls_read F (if i = 0 then TLS_FLASH_PARAM1_ADDR else TLS_FLASH_PARAM2_ADDR) (Some flash) 828 (dev p);
         flash = the b; p = p\<lparr>dev := d\<rparr>; len = unat (image_length flash)
     in if image_magic flash \<noteq> TLS_PARAM_MAGIC then Some (True, flash, p)
        else if len < 4 \<or> len > 828 then None
        else if get_crc32 (take (len - 4) flash) \<noteq> de32 (bslice (len - 4) 4 flash) then Some (True, flash, p)
        else let p = (if image_magic (flash_param p) = 0 \<or> image_count (flash_param p) < image_count flash then
                        (let fp = bsplice 0 (take (if len \<noteq> 828 then len - 4 else 828) flash) (flash_param p)
                         in p\<lparr>flash_param := fp, sram_param := image_params fp\<rparr>)
                      else p)
             in Some (False, replicate 828 0, p))"

record init_scan =
  is_damage0 :: bool
  is_damage1 :: bool
  damaged :: nat

definition note_damage :: "nat \<Rightarrow> bool \<Rightarrow> init_scan \<Rightarrow> init_scan" where
  "note_damage i bad a = (if \<not> bad then a
     else (if i = 0 then a\<lparr>is_damage0 := True\<rparr> else a\<lparr>is_damage1 := True\<rparr>)\<lparr>damaged := Suc (damaged a)\<rparr>)"

definition no_damage :: init_scan where
  "no_damage = \<lparr>is_damage0 = False, is_damage1 = False, damaged = 0\<rparr>"

text \<open>The loop over the partitions, which starts again once after an attempt to restore the area.\<close>

function init_loop ::
    "'s flash_ops \<Rightarrow> nat \<Rightarrow> bool \<Rightarrow> init_scan \<Rightarrow> bytes \<Rightarrow> 's params \<Rightarrow> (init_scan \<times> 's params) option" where
  "init_loop F i tryrestore a flash p =
    (if i \<ge> 2 then Some (a, p)
     else case init_partition F i flash p of None \<Rightarrow> None
     | Some (bad, flash, p) \<Rightarrow>
        (let a = note_damage i bad a
         in if \<not> tryrestore \<and> damaged a \<ge> 2 then
              (let (_, d) = fls_erase F TLS_FLASH_PARAM_RESTORE_ADDR (dev p)
               in init_loop F 0 True no_damage flash
                    (p\<lparr>flash_param := replicate 828 0, sram_param := replicate 808 0, dev := d\<rparr>))
            else init_loop F (Suc i) tryrestore a flash p))"
  by pat_completeness auto
termination
  by (relation "measures [\<lambda>(F, i, t, a, flash, p). if t then 0 else 1, \<lambda>(F, i, t, a, flash, p). 2 - i]") auto

declare init_loop.simps [simp del]

text \<open>Rewriting the damaged partitions from \<open>i\<close> on, until one fails.\<close>

fun restore_damaged ::
    "param_cfg \<Rightarrow> 's flash_ops \<Rightarrow> allocator \<Rightarrow> (nat \<times> bool) list \<Rightarrow> 's params \<Rightarrow> (int \<times> 's params) option" where
  "restore_damaged cfg F heap [] p = Some (TLS_PARAM_STATUS_OK, p)"
| "restore_damaged cfg F heap ((i, bad) # r) p =
    (if \<not> bad then restore_damaged cfg F heap r p
     else case param_to_flash cfg F heap (- 1) (- 1) (int i) p of None \<Rightarrow> None
     | Some (err, p) \<Rightarrow> if err \<noteq> TLS_PARAM_STATUS_OK then Some (TLS_PARAM_STATUS_EIO, p)
                      else restore_damaged cfg F heap r p)"

text \<open>Writing the defaults to both partitions.\<close>

definition write_both ::
    "param_cfg \<Rightarrow> 's flash_ops \<Rightarrow> allocator \<Rightarrow> 's params \<Rightarrow> (int \<times> 's params) option" where
  "write_both cfg F heap p =
    (case param_to_flash cfg F heap (- 1) 1 0 p of None \<Rightarrow> None
     | Some (err, p) \<Rightarrow>
        if err \<noteq> TLS_PARAM_STATUS_OK then Some (TLS_PARAM_STATUS_EIO, p)
        else case param_to_flash cfg F heap (- 1) 1 1 p of None \<Rightarrow> None
        | Some (err, p) \<Rightarrow> Some (if err \<noteq> TLS_PARAM_STATUS_OK then TLS_PARAM_STATUS_EIO else err, p))"

text \<open>\<open>sem_ok\<close> is whether the semaphore could be created.\<close>

definition tls_param_init ::
    "param_cfg \<Rightarrow> 's flash_ops \<Rightarrow> allocator \<Rightarrow> bool \<Rightarrow> 's params \<Rightarrow> (int \<times> 's params) option" where
  "tls_param_init cfg F heap sem_ok p =
    (if image_magic (flash_param p) = TLS_PARAM_MAGIC then Some (TLS_PARAM_STATUS_EPERM, p)
     else if \<not> sem_ok then Some (TLS_PARAM_STATUS_EMEM, p)
     else let p = p\<lparr>sys_param_lock := 0, flash_param := replicate 828 0, sram_param := replicate 808 0\<rparr>;
              (blk, p) = param_alloc heap 828 p
     in map_option (\<lambda>(err, p). (err, p\<lparr>sys_param_lock := sys_param_lock p + 1\<rparr>))
       (case blk of None \<Rightarrow> Some (TLS_PARAM_STATUS_EMEM, p)
        | Some _ \<Rightarrow>
           (case init_loop F 0 False no_damage (replicate 828 0) p of None \<Rightarrow> None
            | Some (a, p) \<Rightarrow>
               if damaged a \<ge> 2 then write_both cfg F heap (tls_param_load_factory_default cfg p)
               else restore_damaged cfg F heap [(0, is_damage0 a), (1, is_damage1 a)] p)))"

section \<open>Setting and getting\<close>

definition lock_params :: "'s params \<Rightarrow> 's params" where
  "lock_params p = p\<lparr>sys_param_lock := sys_param_lock p - 1\<rparr>"

definition unlock_params :: "'s params \<Rightarrow> 's params" where
  "unlock_params p = p\<lparr>sys_param_lock := sys_param_lock p + 1\<rparr>"

definition tls_param_set ::
    "param_cfg \<Rightarrow> 's flash_ops \<Rightarrow> allocator \<Rightarrow> int \<Rightarrow> bytes option \<Rightarrow> bool \<Rightarrow> 's params \<Rightarrow> (int \<times> 's params) option" where
  "tls_param_set cfg F heap pid argv to_flash p =
    (if pid < - 1 \<or> pid \<ge> 55 \<or> argv = None then Some (TLS_PARAM_STATUS_EINVALID, p)
     else let p = lock_params p; user = (updp_mode p \<noteq> 0)
     in case map_of (set_cases cfg) pid of
          None \<Rightarrow> Some (TLS_PARAM_STATUS_EINVALIDID, unlock_params p)
        | Some cs \<Rightarrow>
           (case run_cases (set_one (the argv)) cs (if user then user_default_param p else sram_param p) of
              None \<Rightarrow> None
            | Some b \<Rightarrow>
               (let p = (if user then p\<lparr>user_default_param := b\<rparr> else p\<lparr>sram_param := b\<rparr>)
                in if to_flash \<and> \<not> user then
                     map_option (\<lambda>(err, p). (err, unlock_params p)) (param_to_flash cfg F heap pid (- 1) (- 1) p)
                   else Some (TLS_PARAM_STATUS_OK, unlock_params p))))"

definition tls_param_get ::
    "param_cfg \<Rightarrow> int \<Rightarrow> bytes option \<Rightarrow> bool \<Rightarrow> 's params \<Rightarrow> (int \<times> bytes option \<times> 's params) option" where
  "tls_param_get cfg pid argv from_flash p =
    (if pid < - 1 \<or> pid \<ge> 55 then Some (TLS_PARAM_STATUS_EINVALID, argv, p)
     else let src = (if from_flash then image_params (flash_param p) else sram_param p)
     in case map_of (get_cases cfg) pid of
          None \<Rightarrow> Some (TLS_PARAM_STATUS_EINVALIDID, argv, unlock_params (lock_params p))
        | Some cs \<Rightarrow>
           (case argv of None \<Rightarrow> None
            | Some buf \<Rightarrow>
               (case run_cases (get_one src) cs buf of
                  None \<Rightarrow> None
                | Some b \<Rightarrow> Some (TLS_PARAM_STATUS_OK, Some b, unlock_params (lock_params p)))))"

definition tls_param_to_flash ::
    "param_cfg \<Rightarrow> 's flash_ops \<Rightarrow> allocator \<Rightarrow> int \<Rightarrow> 's params \<Rightarrow> (int \<times> 's params) option" where
  "tls_param_to_flash cfg F heap pid p =
    (let p = lock_params p
     in if pid = - 1 \<and> sram_param p = image_params (flash_param p) then Some (TLS_FLS_STATUS_OK, unlock_params p)
        else map_option (\<lambda>(err, p). (err, unlock_params p)) (param_to_flash cfg F heap pid (- 1) (- 1) p))"

definition tls_param_to_default ::
    "param_cfg \<Rightarrow> 's flash_ops \<Rightarrow> allocator \<Rightarrow> 's params \<Rightarrow> (int \<times> 's params) option" where
  "tls_param_to_default cfg F heap p =
    (case param_to_flash cfg F heap (- 1) 1 0 (tls_param_load_factory_default cfg p) of None \<Rightarrow> None
     | Some (err, p) \<Rightarrow>
        if err \<noteq> 0 then Some (err, p)
        else map_option (\<lambda>(err, p). (err, p\<lparr>flash_param := bsplice 0 (le32 0) (flash_param p)\<rparr>))
               (param_to_flash cfg F heap (- 1) 1 1 p))"

section \<open>User defaults\<close>

text \<open>\<open>stk\<close> is what the uninitialised local variables happen to hold.\<close>

definition tls_param_load_user ::
    "'s flash_ops \<Rightarrow> bytes \<Rightarrow> bytes \<Rightarrow> 's params \<Rightarrow> int \<times> bytes \<times> 's params" where
  "tls_param_load_user F stk param p =
    (let offset = TLS_FLASH_PARAM_DEFAULT;
         (_, m, d) = fls_read F offset (Some stk) 4 (dev p)
     in if de32 (the m) \<noteq> TLS_USER_MAGIC then (TLS_PARAM_STATUS_EINVALID, param, p\<lparr>dev := d\<rparr>)
        else let offset = offset + 4;
                 (_, b, d) = fls_read F offset (Some (replicate 808 0)) 808 d;
                 offset = offset + 808;
                 (_, c, d) = fls_read F offset (Some stk) 4 d
             in (if de32 (the c) \<noteq> get_crc32 (the b) then TLS_PARAM_STATUS_EINVALID else TLS_PARAM_STATUS_OK,
                 the b, p\<lparr>dev := d\<rparr>))"

definition tls_param_save_user_default :: "'s flash_ops \<Rightarrow> 's params \<Rightarrow> int \<times> 's params" where
  "tls_param_save_user_default F p =
    (let offset = TLS_FLASH_PARAM_DEFAULT;
         (_, d) = fls_write F offset (Some (le32 TLS_USER_MAGIC)) 4 (dev p);
         offset = offset + 4;
         (_, d) = fls_write F offset (Some (user_default_param p)) 808 d;
         offset = offset + 808;
         (_, d) = fls_write F offset (Some (le32 (get_crc32 (user_default_param p)))) 4 d
     in (TLS_PARAM_STATUS_OK, p\<lparr>dev := d\<rparr>))"

record tls_user_param =
  u_wireless_protocol :: u8
  u_auto_mode :: u8
  u_dhcp_enable :: u8
  u_user_port_mode :: u8
  u_ip :: bytes
  u_netmask :: bytes
  u_gateway :: bytes
  u_dns :: bytes
  u_baudrate :: u32
  u_socket_protocol :: u8
  u_socket_client_or_server :: u8
  u_socket_port_num :: u16
  u_socket_host :: bytes
  u_auto_powersave :: u8
  u_PassWord :: bytes

definition user_fields :: "tls_user_param \<Rightarrow> (nat \<times> bytes) list" where
  "user_fields u =
    [(56, [u_wireless_protocol u]), (316, [u_auto_mode u]), (308, le32 (u_baudrate u)), (306, [u_user_port_mode u]),
     (148, [u_dhcp_enable u]), (60, [u_auto_powersave u]),
     (152, u_ip u), (156, u_netmask u), (160, u_gateway u), (164, u_dns u), (168, u_dns u),
     (322, [u_socket_protocol u]), (323, [u_socket_client_or_server u]), (324, le16 (u_socket_port_num u)),
     (326, u_socket_host u), (378, u_PassWord u),
     (0, factory_default_hardware), (54, [1]), (53, [1]), (62, le16 0x3FFF), (132, [0]), (133, [9]), (61, [1]), (55, [0]),
     (58, [255]), (59, [0]), (318, le16 512), (312, [0]), (313, [0]),
     (172, chr_bytes ''local.winnermicro'' @ [0]), (204, chr_bytes ''tln13sp01'' @ [0]),
     (372, [0x2b]), (374, le16 200), (360, le32 0)]"

definition tls_param_save_user :: "'s flash_ops \<Rightarrow> tls_user_param \<Rightarrow> 's params \<Rightarrow> int \<times> 's params" where
  "tls_param_save_user F u p =
    (let p = p\<lparr>user_default_param := put_fields (user_fields u) (user_default_param p)\<rparr>;
         (_, p) = tls_param_save_user_default F p
     in (TLS_PARAM_STATUS_OK, p))"

definition tls_param_get_updp_mode :: "'s params \<Rightarrow> u8" where
  "tls_param_get_updp_mode p = updp_mode p"

definition tls_param_set_updp_mode :: "u8 \<Rightarrow> 's params \<Rightarrow> 's params" where
  "tls_param_set_updp_mode mode p = p\<lparr>updp_mode := mode\<rparr>"

end
