(* ===== verification/Params_Correct.thy ===== *)
theory Params_Correct
  imports Params
begin

text \<open>
  Correctness of the parameter manager. The first sections are about byte images: what the stamp of
  \<^verbatim>\<open>param_to_flash\<close> puts into the header, and that the switch tables agree with each other and stay inside
  the structure. The locale \<open>param_device\<close> is the contract the manager needs from the flash driver; inside
  it, saving, loading and restarting are proved correct once, and the properties at the end instantiate it
  with the driver of \<open>Internal_Flash\<close>.
\<close>

section \<open>Images\<close>

definition valid_image :: "bytes \<Rightarrow> bool" where
  "valid_image b \<longleftrightarrow> length b = 828 \<and> image_magic b = TLS_PARAM_MAGIC \<and> image_length b = 828
     \<and> get_crc32 (take 824 b) = de32 (bslice 824 4 b)"

text \<open>What \<^verbatim>\<open>tls_param_init\<close> recognises as damaged.\<close>

definition damaged_image :: "bytes \<Rightarrow> bool" where
  "damaged_image b \<longleftrightarrow> image_magic b \<noteq> TLS_PARAM_MAGIC
     \<or> (let n = unat (image_length b) in 4 \<le> n \<and> n \<le> 828 \<and> get_crc32 (take (n - 4) b) \<noteq> de32 (bslice (n - 4) 4 b))"

lemma valid_image_length: "valid_image b \<Longrightarrow> length b = 828"
  by (simp add: valid_image_def)

lemma take_bsplice_before: "k \<le> off \<Longrightarrow> off \<le> length b \<Longrightarrow> take k (bsplice off v b) = take k b"
  by (simp add: bsplice_def min_def)

lemma stamp_image_props:
  fixes b :: bytes
  assumes "length b = 828"
  shows "valid_image (stamp_image c n b)" "image_params (stamp_image c n b) = image_params b"
    "image_count (stamp_image c n b) = (if c < 0 then image_count b + 1 else word_of_int c)"
    "image_partition (stamp_image c n b) = (if n < 0 then (image_partition b + 1) AND 1 else word_of_int n)"
  using assms by (simp_all add: stamp_image_def valid_image_def image_magic_def image_length_def image_count_def
    image_partition_def image_params_def Let_def c_mem take_bsplice_before)


section \<open>The switch tables\<close>

fun case_field :: "param_case \<Rightarrow> sys_field" where
  "case_field (Copy f) = f"
| "case_field (Strcpy f) = f"

text \<open>An argument suits a case when it has all the bytes, or is a string that fits the field.\<close>

fun case_fits :: "param_case \<Rightarrow> bytes \<Rightarrow> bool" where
  "case_fits (Copy f) v \<longleftrightarrow> snd f \<le> length v"
| "case_fits (Strcpy f) v \<longleftrightarrow> has_nul v \<and> length (cstr v) < snd f"

fun case_bytes :: "param_case \<Rightarrow> bytes \<Rightarrow> bytes" where
  "case_bytes (Copy f) v = take (snd f) v"
| "case_bytes (Strcpy f) v = cstr v @ [0]"

lemmas case_tables = set_cases_def set_cases_1_def set_cases_2_def get_cases_def get_cases_1_def get_cases_2_def
  to_flash_cases_def to_flash_cases_1_def to_flash_cases_2_def

lemma get_cases_eq: "get_cases cfg = set_cases cfg"
  by (simp only: case_tables)

definition field_before :: "sys_field \<Rightarrow> sys_field \<Rightarrow> bool" where
  "field_before f g \<longleftrightarrow> fst f + snd f \<le> fst g"

definition fields_disjoint :: "sys_field \<Rightarrow> sys_field \<Rightarrow> bool" where
  "fields_disjoint f g \<longleftrightarrow> field_before f g \<or> field_before g f"

lemma layout_chain: "successively field_before layout"
  by (simp add: layout_def field_before_def field_defs)

lemma sorted_wrt_related: "sorted_wrt R xs \<Longrightarrow> x \<in> set xs \<Longrightarrow> y \<in> set xs \<Longrightarrow> x \<noteq> y \<Longrightarrow> R x y \<or> R y x"
  by (induction xs) auto

lemma layout_disjoint: "f \<in> set layout \<Longrightarrow> g \<in> set layout \<Longrightarrow> f \<noteq> g \<Longrightarrow> fields_disjoint f g"
proof -
  have "transp field_before" by (auto simp: transp_def field_before_def)
  then have "sorted_wrt field_before layout"
    using layout_chain by (simp add: successively_conv_sorted_wrt)
  then show "f \<in> set layout \<Longrightarrow> g \<in> set layout \<Longrightarrow> f \<noteq> g \<Longrightarrow> fields_disjoint f g"
    unfolding fields_disjoint_def by (rule sorted_wrt_related)
qed

lemma layout_bound: "f \<in> set layout \<Longrightarrow> fst f + snd f \<le> 808 \<and> 0 < snd f"
proof -
  have "list_all (\<lambda>f. fst f + snd f \<le> 808 \<and> 0 < snd f) layout"
    by (simp add: layout_def field_defs)
  then show "f \<in> set layout \<Longrightarrow> fst f + snd f \<le> 808 \<and> 0 < snd f"
    by (simp add: list_all_iff)
qed

text \<open>The identifiers other than \<^verbatim>\<open>TLS_PARAM_ID_ALL\<close>: one copy each, of distinct fields of the structure.\<close>

definition id_fields :: "param_cfg \<Rightarrow> (int \<times> sys_field) list" where
  "id_fields cfg = map (\<lambda>(i, cs). (i, case_field (hd cs))) (tl (set_cases cfg))"

lemma id_fields_distinct: "distinct (map snd (id_fields cfg))"
  by (cases "cfg_ap cfg"; cases "cfg_wps cfg") (simp_all add: id_fields_def case_tables field_defs)

lemma id_fields_layout: "list_all (\<lambda>(i, f). 0 \<le> i \<and> i < 55 \<and> f \<in> set layout) (id_fields cfg)"
  by (cases "cfg_ap cfg"; cases "cfg_wps cfg") (simp_all add: id_fields_def case_tables layout_def)

lemma set_cases_single: "list_all (\<lambda>(i, cs). cs = [hd cs]) (set_cases cfg)"
  by (cases "cfg_ap cfg"; cases "cfg_wps cfg") (simp_all add: case_tables)

lemma set_cases_all: "set_cases cfg = (- 1, [Copy F_all]) # tl (set_cases cfg)"
  by (simp add: case_tables)

lemma set_case_field:
  assumes "map_of (set_cases cfg) pid = Some cs" "pid \<noteq> - 1"
  obtains c where "cs = [c]" "(pid, case_field c) \<in> set (id_fields cfg)" "case_field c \<in> set layout" "0 \<le> pid" "pid < 55"
proof -
  have "map_of (tl (set_cases cfg)) pid = Some cs"
    using assms set_cases_all [of cfg] by (metis fst_conv map_of_Cons_code(2))
  then have m: "(pid, cs) \<in> set (tl (set_cases cfg))" by (rule map_of_SomeD)
  then have "(pid, case_field (hd cs)) \<in> set (id_fields cfg)"
    by (force simp: id_fields_def)
  moreover have "cs = [hd cs]"
    using map_of_SomeD [OF assms(1)] set_cases_single [of cfg] by (auto simp: list_all_iff)
  ultimately show ?thesis
    using that id_fields_layout [of cfg] by (auto simp: list_all_iff)
qed

lemma id_fields_disjoint:
  assumes "(i, f) \<in> set (id_fields cfg)" "(j, g) \<in> set (id_fields cfg)" "i \<noteq> j"
  shows "fields_disjoint f g"
proof (rule layout_disjoint)
  show "f \<in> set layout" "g \<in> set layout"
    using assms id_fields_layout [of cfg] by (auto simp: list_all_iff)
  show "f \<noteq> g"
    using assms inj_onD [of snd "set (id_fields cfg)" "(i, f)" "(j, g)"] id_fields_distinct [of cfg]
    by (auto simp: distinct_map)
qed

text \<open>Setting a field writes the bytes of the argument there, and getting it returns them.\<close>

lemma set_one_ok:
  assumes "case_fits c v" "fst (case_field c) + snd (case_field c) \<le> length b"
  shows "set_one v c b = Some (bsplice (fst (case_field c)) (case_bytes c v) b)"
    "fst (case_field c) + length (case_bytes c v) \<le> length b"
    "length (case_bytes c v) \<le> snd (case_field c)"
proof -
  obtain off n where f: "case_field c = (off, n)" by fastforce
  have "set_one v c b = Some (bsplice off (case_bytes c v) b) \<and> length (case_bytes c v) \<le> n"
    using assms f by (cases c) (auto simp: set_one_def)
  then show "set_one v c b = Some (bsplice (fst (case_field c)) (case_bytes c v) b)"
    "fst (case_field c) + length (case_bytes c v) \<le> length b" "length (case_bytes c v) \<le> snd (case_field c)"
    using f assms(2) by auto
qed

lemma get_one_field:
  assumes "bslice (fst (case_field c)) (length (case_bytes c v)) src = case_bytes c v" "case_fits c v"
    and "length (case_bytes c v) \<le> length buf"
  shows "get_one src c buf = Some (bsplice 0 (case_bytes c v) buf)"
proof (cases c)
  case (Copy f)
  then show ?thesis using assms by (cases f) (simp add: get_one_def)
next
  case (Strcpy f)
  have "drop (fst f) src = (cstr v @ [0]) @ drop (length (cstr v @ [0])) (drop (fst f) src)"
    using assms(1) Strcpy append_take_drop_id [of "length (cstr v @ [0])" "drop (fst f) src"]
    unfolding bslice_def by simp
  then obtain r where "drop (fst f) src = cstr v @ 0 # r" by simp
  then show ?thesis
    using assms Strcpy cstr_no_nul [of v] by (cases f) (simp add: get_one_def has_nul_def)
qed

lemma bslice_splice_fields:
  assumes "fields_disjoint f g" "length v \<le> snd f" "fst f + length v \<le> length b"
  shows "bslice (fst g) (snd g) (bsplice (fst f) v b) = bslice (fst g) (snd g) b"
  using assms by (intro bslice_splice_other) (auto simp: fields_disjoint_def field_before_def)

lemma set_to_flash_tables:
  "list_all (\<lambda>(i, cs). case map_of (to_flash_cases cfg) i of
      Some (d # r) \<Rightarrow> case_field d = case_field (hd cs) \<and> (d = hd cs \<or> d = Copy (case_field d))
        \<and> (r = [] \<or> i = 28 \<and> r = [Copy F_debug_mode])
    | _ \<Rightarrow> False) (set_cases cfg)"
  by (cases "cfg_ap cfg"; cases "cfg_wps cfg") (simp_all add: case_tables)

lemma set_to_flash_case:
  assumes "map_of (set_cases cfg) pid = Some [c]"
  obtains d r where "map_of (to_flash_cases cfg) pid = Some (d # r)" "d = c \<or> d = Copy (case_field c)"
    "r = [] \<or> pid = 28 \<and> r = [Copy F_debug_mode]"
proof -
  have "case map_of (to_flash_cases cfg) pid of
      Some (d # r) \<Rightarrow> case_field d = case_field c \<and> (d = c \<or> d = Copy (case_field d))
        \<and> (r = [] \<or> pid = 28 \<and> r = [Copy F_debug_mode])
    | _ \<Rightarrow> False"
    using set_to_flash_tables [of cfg, unfolded list_all_iff, rule_format, OF map_of_SomeD [OF assms]]
    by (simp only: list.sel prod.case)
  then show ?thesis
    using that by (auto split: option.splits list.splits)
qed

text \<open>Copying a field that was just set into the image.\<close>

lemma to_flash_one_set:
  assumes "case_fits c v" "fst (case_field c) + snd (case_field c) \<le> length b" "length dest = length b"
    and "d = c \<or> d = Copy (case_field c)"
  obtains w where "to_flash_one (bsplice (fst (case_field c)) (case_bytes c v) b) d dest
      = Some (bsplice (fst (case_field c)) (case_bytes c v @ w) dest)"
    "length (case_bytes c v @ w) \<le> snd (case_field c)"
proof -
  obtain off n where f: "case_field c = (off, n)" by fastforce
  let ?v = "case_bytes c v"
  have n: "length ?v \<le> n" "off + n \<le> length b" using set_one_ok [OF assms(1,2)] f assms(2) by auto
  have copy: "bslice off n (bsplice off ?v b) = ?v @ bslice (off + length ?v) (n - length ?v) b"
    using n by (simp add: bslice_def bsplice_def add.commute)
  show ?thesis
  proof (cases "d = Copy (off, n)")
    case True
    have "to_flash_one (bsplice off ?v b) d dest = Some (bsplice off (?v @ bslice (off + length ?v) (n - length ?v) b) dest)"
      unfolding copy [symmetric] True by (simp add: to_flash_one_def)
    then show ?thesis using that [of "bslice (off + length ?v) (n - length ?v) b"] f n by simp
  next
    case False
    then obtain g where c: "c = Strcpy g" "d = Strcpy g" "g = (off, n)"
      using assms(4) f by (cases c) auto
    have "drop off (bsplice off (cstr v @ [0]) b) = cstr v @ 0 # drop (off + length (cstr v) + 1) b"
      using n c by (simp add: bsplice_def)
    then have "to_flash_one (bsplice off ?v b) d dest = Some (bsplice off (?v @ []) dest)"
      using c cstr_no_nul [of v] by (simp add: to_flash_one_def has_nul_def)
    then show ?thesis using that [of "[]"] f n by simp
  qed
qed

lemma to_flash_set:
  assumes "map_of (set_cases cfg) pid = Some [c]" "pid \<noteq> - 1" "case_fits c v" "length b = 808" "length dest = 808"
  obtains cs dest' where "map_of (to_flash_cases cfg) pid = Some cs"
    "run_cases (to_flash_one (bsplice (fst (case_field c)) (case_bytes c v) b)) cs dest = Some dest'"
    "length dest' = 808" "bslice (fst (case_field c)) (length (case_bytes c v)) dest' = case_bytes c v"
    "\<And>j g. (j, g) \<in> set (id_fields cfg) \<Longrightarrow> j \<noteq> pid \<Longrightarrow> pid \<noteq> 28 \<Longrightarrow>
       bslice (fst g) (snd g) dest' = bslice (fst g) (snd g) dest"
proof -
  let ?f = "case_field c" and ?v = "case_bytes c v"
  let ?b = "bsplice (fst ?f) ?v b"
  have cf: "(pid, ?f) \<in> set (id_fields cfg)" "?f \<in> set layout"
    using set_case_field [OF assms(1,2)] by (metis list.inject)+
  have bound: "fst ?f + snd ?f \<le> 808" using layout_bound [OF cf(2)] by simp
  obtain d r where t: "map_of (to_flash_cases cfg) pid = Some (d # r)" "d = c \<or> d = Copy ?f"
    "r = [] \<or> pid = 28 \<and> r = [Copy F_debug_mode]"
    using set_to_flash_case [OF assms(1)] .
  obtain w where w: "to_flash_one ?b d dest = Some (bsplice (fst ?f) (?v @ w) dest)" "length (?v @ w) \<le> snd ?f"
    using to_flash_one_set [OF assms(3) _ _ t(2), of b dest] bound assms by auto
  let ?d1 = "bsplice (fst ?f) (?v @ w) dest"
  have d1: "length ?d1 = 808" using w(2) bound assms(5) by simp
  have v1: "bslice (fst ?f) (length ?v) ?d1 = ?v"
    using w(2) bound assms(5) by (simp add: bslice_def bsplice_def)
  show ?thesis
  proof (cases "r = []")
    case True
    have "bslice (fst g) (snd g) ?d1 = bslice (fst g) (snd g) dest" if "(j, g) \<in> set (id_fields cfg)" "j \<noteq> pid" for j g
      using bslice_splice_fields [OF id_fields_disjoint [OF cf(1) that(1)] w(2)] that w(2) bound assms(5) by auto
    then show ?thesis using that [OF t(1)] True w(1) d1 v1 by simp
  next
    case False
    then have r: "pid = 28" "r = [Copy F_debug_mode]" using t(3) by auto
    have "?f = F_transparent_trigger_period"
      using assms(1) r by (cases "cfg_ap cfg"; cases "cfg_wps cfg") (auto simp: case_tables)
    then have dis: "fields_disjoint F_debug_mode ?f" by (simp add: fields_disjoint_def field_before_def field_defs)
    let ?d2 = "bsplice 360 (bslice 360 4 ?b) ?d1"
    have "length ?b = 808" using set_one_ok [OF assms(3), of b] bound assms(4) by simp
    then have two: "run_cases (to_flash_one ?b) (d # r) dest = Some ?d2" "length ?d2 = 808"
      using w(1) r d1 by (simp_all add: to_flash_one_def F_debug_mode_def)
    have "bslice (fst ?f) (length ?v) ?d2 = bslice (fst ?f) (length ?v) ?d1"
      using dis d1 w(2) \<open>length ?b = 808\<close>
      by (intro bslice_splice_other) (auto simp: fields_disjoint_def field_before_def F_debug_mode_def)
    then show ?thesis using that [OF t(1) two] v1 r by simp
  qed
qed


section \<open>The contract with the flash driver\<close>

definition part_addr :: "nat \<Rightarrow> nat" where
  "part_addr i = (if i = 0 then 0xFD000 else 0xFE000)"

text \<open>The image that partition \<open>i\<close> holds.\<close>

definition part_image :: "(nat \<Rightarrow> u8) \<Rightarrow> nat \<Rightarrow> bytes" where
  "part_image m i = mem_bytes m (part_addr i) 828"

lemma length_part_image [simp]: "length (part_image m i) = 828"
  by (simp add: part_image_def)

lemma part_addr_range: "0x2000 \<le> part_addr i" "part_addr i + 828 \<le> 2 ^ 20"
  by (simp_all add: part_addr_def)

lemma fls_off_part: "fls_off (partition_addr n) = part_addr (unat n)"
  "fls_off (if i = 0 then TLS_FLASH_PARAM1_ADDR else TLS_FLASH_PARAM2_ADDR) = part_addr i"
  by (simp_all add: fls_off_def partition_addr_def part_addr_def TLS_FLASH_PARAM1_ADDR_def TLS_FLASH_PARAM2_ADDR_def
      unat_eq_0)

lemma part_image_write:
  "length b = 828 \<Longrightarrow> part_image (mem_write (part_addr i) b m) j
     = (if (i = 0) = (j = 0) then b else part_image m j)"
  by (auto simp: part_image_def part_addr_def mem_bytes_write_other)

text \<open>Loading an image: when it is valid and newer than what is loaded.\<close>

definition load_image :: "bytes \<Rightarrow> 's params \<Rightarrow> 's params" where
  "load_image img p = (if valid_image img \<and> (image_magic (flash_param p) = 0 \<or> image_count (flash_param p) < image_count img)
     then p\<lparr>flash_param := img, sram_param := image_params img\<rparr> else p)"

lemma valid_not_damaged: "valid_image b \<Longrightarrow> \<not> damaged_image b"
  by (simp add: valid_image_def damaged_image_def Let_def)

lemma load_image_dev [simp]: "load_image img (p\<lparr>dev := d\<rparr>) = (load_image img p)\<lparr>dev := d\<rparr>" "dev (load_image img p) = dev p"
  "updp_mode (load_image img p) = updp_mode p" "sys_param_lock (load_image img p) = sys_param_lock p"
  by (auto simp: load_image_def)

definition damage_flags :: "(nat \<Rightarrow> u8) \<Rightarrow> init_scan" where
  "damage_flags m = \<lparr>is_damage0 = \<not> valid_image (part_image m 0), is_damage1 = \<not> valid_image (part_image m 1),
     damaged = of_bool (\<not> valid_image (part_image m 0)) + of_bool (\<not> valid_image (part_image m 1))\<rparr>"

lemma damage_flags_noted:
  "note_damage (Suc 0) (\<not> valid_image (part_image m (Suc 0))) (note_damage 0 (\<not> valid_image (part_image m 0)) no_damage)
     = damage_flags m"
  by (simp add: damage_flags_def note_damage_def no_damage_def)

text \<open>The image a start has to load: the valid one, or of two the one with the higher count.\<close>

definition newest_image :: "(nat \<Rightarrow> u8) \<Rightarrow> bytes option" where
  "newest_image m =
    (if valid_image (part_image m 0) then
       (if valid_image (part_image m 1) \<and> image_count (part_image m 0) < image_count (part_image m 1)
        then Some (part_image m 1) else Some (part_image m 0))
     else if valid_image (part_image m 1) then Some (part_image m 1) else None)"

lemma image_magic_blank: "image_magic (replicate 828 0) = 0"
  by (simp add: image_magic_def bslice_def de32_def numeral_eq_Suc)

lemma load_newest:
  assumes "flash_param p = replicate 828 0"
  shows "load_image (part_image m 1) (load_image (part_image m 0) p) =
    (case newest_image m of None \<Rightarrow> p | Some img \<Rightarrow> p\<lparr>flash_param := img, sram_param := image_params img\<rparr>)"
  using assms image_magic_blank by (auto simp: load_image_def newest_image_def valid_image_def TLS_PARAM_MAGIC_def)

lemma length_put_fields:
  "list_all (\<lambda>(off, v). off + length v \<le> length b) fs \<Longrightarrow> length (put_fields fs b) = length b"
  by (induction fs b rule: put_fields.induct) auto

lemma length_factory_params [simp]: "length (factory_params cfg) = 808"
proof -
  have "list_all (\<lambda>(off, v). off + length v \<le> length (replicate 808 (0 :: u8))) (factory_radio cfg @ factory_net @ factory_softap)"
    by (simp add: factory_radio_def factory_net_def factory_softap_def factory_default_hardware_def chr_bytes_def)
  then show ?thesis unfolding factory_params_def by (subst length_put_fields) simp_all
qed

text \<open>
  The manager and the flash agree: the image in memory is in its partition, and the other partition is
  valid and older (or equally old, with the same parameters, as after a start with defaults).
\<close>

definition synced :: "(nat \<Rightarrow> u8) \<Rightarrow> bytes \<Rightarrow> bool" where
  "synced m fp \<longleftrightarrow> (let i = unat (image_partition fp); other = part_image m (1 - i)
     in i < 2 \<and> valid_image fp \<and> part_image m i = fp \<and> valid_image other \<and> unat (image_partition other) = 1 - i
       \<and> (image_count other < image_count fp \<or> image_count other = image_count fp \<and> image_params other = image_params fp))"

lemma synced_newest:
  assumes "synced m fp"
  obtains img where "newest_image m = Some img" "image_params img = image_params fp" "image_count img = image_count fp"
    "valid_image (part_image m 0)" "valid_image (part_image m 1)"
proof -
  have "unat (image_partition fp) = 0 \<or> unat (image_partition fp) = 1"
    using assms by (auto simp: synced_def Let_def)
  then have v: "valid_image (part_image m 0)" "valid_image (part_image m 1)"
    and "newest_image m = Some fp \<or> (\<exists>img. newest_image m = Some img
      \<and> image_params img = image_params fp \<and> image_count img = image_count fp)"
    using assms by (auto simp: synced_def newest_image_def Let_def not_less_iff_gr_or_eq)
  then show ?thesis using that by blast
qed

lemma synced_partitions:
  assumes "synced m fp" "i < 2"
  shows "image_partition (part_image m i) = of_nat i"
    "image_count (part_image m 0) = image_count (part_image m 1) \<Longrightarrow> image_params (part_image m 0) = image_params (part_image m 1)"
proof -
  have "unat (image_partition fp) = 0 \<or> unat (image_partition fp) = 1"
    using assms by (auto simp: synced_def Let_def)
  then have "unat (image_partition (part_image m 0)) = 0" "unat (image_partition (part_image m 1)) = 1"
    "image_count (part_image m 0) = image_count (part_image m 1) \<Longrightarrow> image_params (part_image m 0) = image_params (part_image m 1)"
    using assms(1) by (auto simp: synced_def Let_def)
  then show "image_partition (part_image m i) = of_nat i"
    "image_count (part_image m 0) = image_count (part_image m 1) \<Longrightarrow> image_params (part_image m 0) = image_params (part_image m 1)"
    using assms(2) by (auto simp: less_2_cases_iff word_unat_eq_iff)
qed

text \<open>With the partition that is not in use damaged, the image in use is the only one.\<close>

lemma synced_torn:
  assumes "synced m fp" "i = unat (image_partition fp)" "part_image m' i = part_image m i" "damaged_image (part_image m' (1 - i))"
  shows "newest_image m' = Some fp" "i < 2"
proof -
  have "i < 2" using assms(1,2) by (simp add: synced_def Let_def)
  then consider "i = 0" | "i = 1" by linarith
  then show "newest_image m' = Some fp"
    using assms valid_not_damaged by cases (auto simp: synced_def newest_image_def Let_def)
  show "i < 2" by fact
qed

text \<open>Saving over the older partition keeps the agreement, as long as the count does not wrap around.\<close>

lemma u16_suc:
  assumes "c \<noteq> 0xFFFF"
  shows "unat (c + 1 :: u16) = Suc (unat c)" "c < c + 1"
proof -
  have "unat c \<noteq> 0xFFFF"
  proof
    assume "unat c = 0xFFFF"
    then have "word_of_nat (unat c) = (0xFFFF :: u16)" by simp
    then show False using assms by simp
  qed
  moreover have "unat c < 2 ^ 16" using unsigned_less [of c] by simp
  ultimately have "Suc (unat c) < 2 ^ 16" by simp
  then show "unat (c + 1) = Suc (unat c)" by (simp add: unat_word_ariths)
  then show "c < c + 1" by (simp add: word_less_nat_alt)
qed
lemma synced_save:
  assumes "synced m fp" "image_count fp < image_count img" "valid_image img"
    and "image_partition img = (image_partition fp + 1) AND 1"
    and "m' = mem_write (part_addr (unat (image_partition img))) img m"
  shows "synced m' img"
proof -
  have "unat (image_partition fp) < 2" using assms(1) by (simp add: synced_def Let_def)
  then have "image_partition fp = 0 \<or> image_partition fp = 1"
    by (auto simp: less_2_cases_iff word_unat_eq_iff)
  then show ?thesis
    using assms by (auto simp: synced_def part_image_write valid_image_length Let_def)
qed

text \<open>The length of the image's parameters is kept by the copies of \<^verbatim>\<open>param_to_flash\<close>.\<close>

lemma to_flash_fields:
  "list_all (\<lambda>(i, cs). list_all (\<lambda>c. fst (case_field c) + snd (case_field c) \<le> 808) cs) (to_flash_cases cfg)"
  by (cases "cfg_ap cfg"; cases "cfg_wps cfg") (simp_all add: case_tables field_defs)

lemma to_flash_one_length:
  assumes "to_flash_one src c dest = Some dest'" "fst (case_field c) + snd (case_field c) \<le> 808" "length src = 808" "length dest = 808"
  shows "length dest' = 808"
proof -
  obtain off n where f: "case_field c = (off, n)" by fastforce
  show ?thesis
    using assms f cstr_length [of "drop off src"] by (cases c) (auto simp: to_flash_one_def Let_def split: if_splits)
qed

lemma run_to_flash_length:
  assumes "run_cases (to_flash_one src) cs dest = Some dest'"
    and "list_all (\<lambda>c. fst (case_field c) + snd (case_field c) \<le> 808) cs" "length src = 808" "length dest = 808"
  shows "length dest' = 808"
  using assms
proof (induction cs arbitrary: dest)
  case (Cons c cs)
  then show ?case by (auto simp: to_flash_one_length split: option.splits)
qed simp

section \<open>Runs of the manager\<close>

text \<open>The variables when the C start-up code has cleared the memory.\<close>

definition power_up :: "'s params \<Rightarrow> 's params" where
  "power_up p = p\<lparr>flash_param := replicate 828 0, sram_param := replicate 808 0, user_default_param := replicate 808 0,
     updp_mode := 0\<rparr>"

text \<open>What can happen to a running manager: the calls of the application, and a restart.\<close>

inductive param_step :: "param_cfg \<Rightarrow> 's flash_ops \<Rightarrow> allocator \<Rightarrow> 's params \<Rightarrow> 's params \<Rightarrow> bool"
  for cfg :: param_cfg and F :: "'s flash_ops" and heap :: allocator where
  set: "tls_param_set cfg F heap pid argv to_flash p = Some (err, p') \<Longrightarrow> param_step cfg F heap p p'"
| get: "tls_param_get cfg pid argv from_flash p = Some (err, argv', p') \<Longrightarrow> param_step cfg F heap p p'"
| to_flash: "tls_param_to_flash cfg F heap pid p = Some (err, p') \<Longrightarrow> param_step cfg F heap p p'"
| mode: "param_step cfg F heap p (tls_param_set_updp_mode mode p)"
| restart: "tls_param_init cfg F heap True (power_up p) = Some (err, p') \<Longrightarrow> param_step cfg F heap p p'"

inductive param_run :: "param_cfg \<Rightarrow> 's flash_ops \<Rightarrow> allocator \<Rightarrow> nat \<Rightarrow> 's params \<Rightarrow> 's params \<Rightarrow> bool"
  for cfg :: param_cfg and F :: "'s flash_ops" and heap :: allocator where
  run_0: "param_run cfg F heap 0 p p"
| run_Suc: "param_run cfg F heap n p q \<Longrightarrow> param_step cfg F heap q r \<Longrightarrow> param_run cfg F heap (Suc n) p r"

lemma set_fields: "list_all (\<lambda>(i, cs). list_all (\<lambda>c. fst (case_field c) + snd (case_field c) \<le> 808) cs) (set_cases cfg)"
  by (cases "cfg_ap cfg"; cases "cfg_wps cfg") (simp_all add: case_tables field_defs)

lemma set_one_length:
  assumes "set_one v c b = Some b'" "fst (case_field c) + snd (case_field c) \<le> length b"
  shows "length b' = length b"
proof -
  obtain off n where f: "case_field c = (off, n)" by fastforce
  show ?thesis using assms f by (cases c) (auto simp: set_one_def Let_def split: if_splits)
qed

lemma run_set_length:
  assumes "map_of (set_cases cfg) pid = Some cs" "run_cases (set_one v) cs b = Some b'" "length b = 808"
  shows "length b' = 808"
proof -
  have "list_all (\<lambda>c. fst (case_field c) + snd (case_field c) \<le> 808) cs"
    using set_fields [of cfg] map_of_SomeD [OF assms(1)] by (auto simp: list_all_iff)
  then show ?thesis
    using assms(2,3)
  proof (induction cs arbitrary: b)
    case (Cons c cs)
    then show ?case by (auto simp: set_one_length split: option.splits)
  qed simp
qed

text \<open>
  Beside reading and writing, the manager calls \<^verbatim>\<open>tls_fls_erase\<close>; what it passes is an address, far
  outside the sectors of the chip, and such a request is refused.
\<close>

locale param_device = flash_store "fls_read F" "fls_write F" contents capacity usable
  for F :: "'s flash_ops" and contents :: "'s \<Rightarrow> nat \<Rightarrow> u8" and capacity :: "'s \<Rightarrow> nat" and usable :: "'s \<Rightarrow> bool" +
  fixes heap :: allocator
  assumes blocks: "alloc_total heap"
    and erase_refused: "usable s \<Longrightarrow> capacity s div 0x1000 + 0x8000 \<le> unat sector \<Longrightarrow>
      \<exists>s'. fls_erase F sector s = (TLS_FLS_STATUS_EINVAL, s') \<and> usable s' \<and> contents s' = contents s \<and> capacity s' = capacity s"
begin

definition dev_ok :: "'s \<Rightarrow> bool" where
  "dev_ok d \<longleftrightarrow> usable d \<and> capacity d = 2 ^ 20"

definition param_ok :: "'s params \<Rightarrow> bool" where
  "param_ok p \<longleftrightarrow> dev_ok (dev p) \<and> length (flash_param p) = 828 \<and> length (sram_param p) = 808"

lemma alloc_obtain: obtains b where "heap k n = Some b" "length b = n"
  using blocks by (rule alloc_totalE)

lemma part_read:
  assumes "dev_ok d" "length buf = 828"
  obtains d' where "fls_read F (if i = 0 then TLS_FLASH_PARAM1_ADDR else TLS_FLASH_PARAM2_ADDR) (Some buf) 828 d
      = (TLS_FLS_STATUS_OK, Some (part_image (contents d) i), d')" "dev_ok d'" "contents d' = contents d"
  using read_ok [of d 828 buf "if i = 0 then TLS_FLASH_PARAM1_ADDR else TLS_FLASH_PARAM2_ADDR"] assms part_addr_range [of i]
  unfolding dev_ok_def fls_off_part by (auto simp: part_image_def bsplice_full)

lemma part_write:
  assumes "dev_ok d" "length img = 828"
  obtains d' where "fls_write F (partition_addr n) (Some img) 828 d = (TLS_FLS_STATUS_OK, d')" "dev_ok d'"
    "contents d' = mem_write (part_addr (unat n)) img (contents d)"
  using write_ok [of d 828 img "partition_addr n"] assms part_addr_range [of "unat n"]
  unfolding dev_ok_def fls_off_part by auto

lemma verify_ok:
  assumes "dev_ok (dev p)" "length img = 828" "part_image (contents (dev p)) (unat n) = img"
  obtains d k where "param_flash_verify F heap (partition_addr n) img 828 p = (1, p\<lparr>param_allocs := k, dev := d\<rparr>)"
    "dev_ok d" "contents d = contents (dev p)"
proof -
  obtain b where b: "heap (param_allocs p) 828 = Some b" "length b = 828" using alloc_obtain .
  have addr: "(if unat n = 0 then TLS_FLASH_PARAM1_ADDR else TLS_FLASH_PARAM2_ADDR) = partition_addr n"
    by (simp add: partition_addr_def unat_eq_0)
  obtain d where d: "fls_read F (partition_addr n) (Some b) 828 (dev p) = (TLS_FLS_STATUS_OK, Some img, d)"
    "dev_ok d" "contents d = contents (dev p)"
    using part_read [OF assms(1) b(2), of "unat n", unfolded addr] assms(3) by metis
  then show ?thesis
    using that [of d "Suc (param_allocs p)"] b by (simp add: param_flash_verify_def param_alloc_def)
qed

text \<open>Saving: the image is stamped, written to its partition and verified.\<close>

lemma param_to_flash_ok:
  assumes "param_ok p" "- 1 \<le> pid" "pid < 55" "map_of (to_flash_cases cfg) pid = Some cs"
    and "run_cases (to_flash_one (sram_param p)) cs (image_params (flash_param p)) = Some dest" "length dest = 808"
    and "img = stamp_image c n (bsplice 16 dest (flash_param p))"
  obtains d k where "param_to_flash cfg F heap pid c n p
      = Some (TLS_PARAM_STATUS_OK, p\<lparr>flash_param := img, param_allocs := k, dev := d\<rparr>)"
    "dev_ok d" "contents d = mem_write (part_addr (unat (image_partition img))) img (contents (dev p))" "length img = 828"
proof -
  have ok: "dev_ok (dev p)" "length (bsplice 16 dest (flash_param p)) = 828"
    using assms(1,6) by (simp_all add: param_ok_def)
  then have img: "length img = 828" using stamp_image_props(1) assms(7) by (simp add: valid_image_def)
  obtain d where d: "fls_write F (partition_addr (image_partition img)) (Some img) 828 (dev p) = (TLS_FLS_STATUS_OK, d)"
    "dev_ok d" "contents d = mem_write (part_addr (unat (image_partition img))) img (contents (dev p))"
    using part_write [OF ok(1) img] .
  let ?p = "p\<lparr>flash_param := img, dev := d\<rparr>"
  have "part_image (contents (dev ?p)) (unat (image_partition img)) = img"
    using d(3) part_image_write [OF img] by simp
  then obtain d' k where v: "param_flash_verify F heap (partition_addr (image_partition img)) img 828 ?p
      = (1, ?p\<lparr>param_allocs := k, dev := d'\<rparr>)" "dev_ok d'" "contents d' = contents d"
    using verify_ok [of ?p img "image_partition img"] d(2) img by auto
  show ?thesis
    by (rule that [of d' k])
      (use assms(2-5) d v img in \<open>simp_all add: param_to_flash_def assms(7) [symmetric] Let_def\<close>)
qed

text \<open>Loading: one partition, both, and the start of the manager.\<close>

lemma init_partition_ok:
  assumes "dev_ok (dev p)" "length (flash_param p) = 828" "length flash = 828"
    and "img = part_image (contents (dev p)) i" "valid_image img \<or> damaged_image img"
  obtains d flash' where "init_partition F i flash p = Some (\<not> valid_image img, flash', (load_image img p)\<lparr>dev := d\<rparr>)"
    "dev_ok d" "contents d = contents (dev p)" "length flash' = 828"
proof -
  obtain d where d: "fls_read F (if i = 0 then TLS_FLASH_PARAM1_ADDR else TLS_FLASH_PARAM2_ADDR) (Some flash) 828 (dev p)
      = (TLS_FLS_STATUS_OK, Some img, d)" "dev_ok d" "contents d = contents (dev p)"
    using part_read [OF assms(1,3)] assms(4) by metis
  show ?thesis
  proof (cases "valid_image img")
    case True
    then show ?thesis
      using that [of "replicate 828 0" d] d assms(2)
      by (simp add: init_partition_def load_image_def valid_image_def bsplice_full Let_def)
  next
    case False
    then show ?thesis
      using that [of img d] d assms(4,5)
      by (auto simp: init_partition_def damaged_image_def load_image_def Let_def)
  qed
qed

definition partitions_ok :: "(nat \<Rightarrow> u8) \<Rightarrow> bool" where
  "partitions_ok m \<longleftrightarrow> (\<forall>i < 2. valid_image (part_image m i) \<or> damaged_image (part_image m i))"

lemma length_load_image: "length (flash_param p) = 828 \<Longrightarrow> length (flash_param (load_image img p)) = 828"
  by (simp add: load_image_def valid_image_def)

lemma two_partitions:
  assumes "dev_ok (dev p)" "length (flash_param p) = 828" "length flash = 828"
    and "m = contents (dev p)" "partitions_ok m"
  obtains d flash1 flash2 q1 where "dev_ok d" "contents d = m" "length flash2 = 828"
    "init_partition F 0 flash p = Some (\<not> valid_image (part_image m 0), flash1, q1)"
    "init_partition F (Suc 0) flash1 q1 = Some (\<not> valid_image (part_image m (Suc 0)), flash2,
       (load_image (part_image m (Suc 0)) (load_image (part_image m 0) p))\<lparr>dev := d\<rparr>)"
proof -
  have ok: "valid_image (part_image m 0) \<or> damaged_image (part_image m 0)"
    "valid_image (part_image m (Suc 0)) \<or> damaged_image (part_image m (Suc 0))"
    using assms(5) by (auto simp: partitions_ok_def)
  obtain d1 flash1 where r1: "init_partition F 0 flash p
      = Some (\<not> valid_image (part_image m 0), flash1, (load_image (part_image m 0) p)\<lparr>dev := d1\<rparr>)"
    "dev_ok d1" "contents d1 = m" "length flash1 = 828"
    using init_partition_ok [OF assms(1-3) refl] ok(1) assms(4) by metis
  let ?q = "(load_image (part_image m 0) p)\<lparr>dev := d1\<rparr>"
  have q: "dev_ok (dev ?q)" "length (flash_param ?q) = 828" "part_image m (Suc 0) = part_image (contents (dev ?q)) (Suc 0)"
    using r1(2,3) length_load_image [OF assms(2), of "part_image m 0"] by auto
  obtain d2 flash2 where "init_partition F (Suc 0) flash1 ?q
      = Some (\<not> valid_image (part_image m (Suc 0)), flash2, (load_image (part_image m (Suc 0)) ?q)\<lparr>dev := d2\<rparr>)"
    "dev_ok d2" "contents d2 = m" "length flash2 = 828"
    by (rule init_partition_ok [OF q(1,2) r1(4) q(3) ok(2)]) (use r1(3) in auto)
  then show ?thesis using that [of d2 flash2 flash1 ?q] r1(1) by simp
qed

lemma init_scan_ok:
  assumes "dev_ok (dev p)" "length (flash_param p) = 828" "length flash = 828"
    and "m = contents (dev p)" "partitions_ok m" "t \<or> damaged (damage_flags m) < 2"
  obtains d where "dev_ok d" "contents d = m" "init_loop F 0 t no_damage flash p
    = Some (damage_flags m, (load_image (part_image m 1) (load_image (part_image m 0) p))\<lparr>dev := d\<rparr>)"
proof -
  obtain d flash1 flash2 q1 where r: "dev_ok d" "contents d = m" "length flash2 = 828"
    "init_partition F 0 flash p = Some (\<not> valid_image (part_image m 0), flash1, q1)"
    "init_partition F (Suc 0) flash1 q1 = Some (\<not> valid_image (part_image m (Suc 0)), flash2,
       (load_image (part_image m (Suc 0)) (load_image (part_image m 0) p))\<lparr>dev := d\<rparr>)"
    using two_partitions [OF assms(1-5)] .
  have "damaged (note_damage 0 (\<not> valid_image (part_image m 0)) no_damage) < 2"
    by (simp add: note_damage_def no_damage_def)
  then show ?thesis
    using that [OF r(1,2)] r(4,5) assms(6)
    by (cases t) (simp_all add: init_loop.simps [of F 0] init_loop.simps [of F "Suc 0"] init_loop.simps [of F "Suc (Suc 0)"]
        damage_flags_noted Let_def)
qed

definition blank_ram :: "'s params \<Rightarrow> 's params" where
  "blank_ram p = p\<lparr>flash_param := replicate 828 0, sram_param := replicate 808 0\<rparr>"

lemma restore_refused:
  assumes "dev_ok d"
  obtains d' where "fls_erase F TLS_FLASH_PARAM_RESTORE_ADDR d = (TLS_FLS_STATUS_EINVAL, d')" "dev_ok d'"
    "contents d' = contents d"
  using erase_refused [of d TLS_FLASH_PARAM_RESTORE_ADDR] assms
  by (auto simp: dev_ok_def TLS_FLASH_PARAM_RESTORE_ADDR_def)

lemma init_loop_ok:
  assumes "dev_ok (dev p)" "p = blank_ram p" "m = contents (dev p)" "partitions_ok m"
  obtains d where "dev_ok d" "contents d = m" "init_loop F 0 False no_damage (replicate 828 0) p
    = Some (damage_flags m, (load_image (part_image m 1) (load_image (part_image m 0) p))\<lparr>dev := d\<rparr>)"
proof -
  have len: "length (flash_param p) = 828" by (subst assms(2)) (simp add: blank_ram_def)
  show ?thesis
  proof (cases "damaged (damage_flags m) < 2")
    case True
    then show ?thesis
      using init_scan_ok [OF assms(1) len _ assms(3,4), of "replicate 828 0" False] that by auto
  next
    case False
    then have bad: "\<not> valid_image (part_image m 0)" "\<not> valid_image (part_image m (Suc 0))"
      by (auto simp: damage_flags_def of_bool_def split: if_splits)
    obtain d flash1 flash2 q1 where r: "dev_ok d" "contents d = m" "length flash2 = 828"
      "init_partition F 0 (replicate 828 0) p = Some (\<not> valid_image (part_image m 0), flash1, q1)"
      "init_partition F (Suc 0) flash1 q1 = Some (\<not> valid_image (part_image m (Suc 0)), flash2, p\<lparr>dev := d\<rparr>)"
      using two_partitions [OF assms(1) len _ assms(3,4), of "replicate 828 0"] bad by (simp add: load_image_def) metis
    obtain d' where e: "fls_erase F TLS_FLASH_PARAM_RESTORE_ADDR d = (TLS_FLS_STATUS_EINVAL, d')" "dev_ok d'"
      "contents d' = m"
      using restore_refused [OF r(1)] r(2) by metis
    have again: "p\<lparr>flash_param := replicate 828 0, sram_param := replicate 808 0, dev := d'\<rparr> = p\<lparr>dev := d'\<rparr>"
      using assms(2) by (metis blank_ram_def)
    obtain d'' where "dev_ok d''" "contents d'' = m" "init_loop F 0 True no_damage flash2 (p\<lparr>dev := d'\<rparr>)
      = Some (damage_flags m, p\<lparr>dev := d''\<rparr>)"
      using init_scan_ok [of "p\<lparr>dev := d'\<rparr>" flash2 m True] e r(3) len assms(4) bad by (auto simp: load_image_def)
    then show ?thesis
      using that [of d''] r(4,5) e(1) False bad again
      by (simp add: init_loop.simps [of F 0 False] init_loop.simps [of F "Suc 0" False] note_damage_def no_damage_def
          load_image_def Let_def)
  qed
qed

text \<open>Saving all parameters.\<close>

lemma save_all:
  assumes "param_ok p" "img = stamp_image c n (bsplice 16 (sram_param p) (flash_param p))"
  obtains d k where "param_to_flash cfg F heap (- 1) c n p
      = Some (TLS_PARAM_STATUS_OK, p\<lparr>flash_param := img, param_allocs := k, dev := d\<rparr>)"
    "dev_ok d" "contents d = mem_write (part_addr (unat (image_partition img))) img (contents (dev p))"
    "valid_image img" "image_params img = sram_param p"
    "image_partition img = (if n < 0 then (image_partition (flash_param p) + 1) AND 1 else word_of_int n)"
    "image_count img = (if c < 0 then image_count (flash_param p) + 1 else word_of_int c)"
proof -
  let ?b = "bsplice 16 (sram_param p) (flash_param p)"
  have len: "length (sram_param p) = 808" "length (flash_param p) = 828" "length ?b = 828"
    using assms(1) by (auto simp: param_ok_def)
  have b: "image_params ?b = sram_param p" "image_partition ?b = image_partition (flash_param p)"
    "image_count ?b = image_count (flash_param p)"
    using len by (simp_all add: image_params_def image_partition_def image_count_def c_mem)
  have t: "map_of (to_flash_cases cfg) (- 1) = Some [Copy F_all]" by (simp add: case_tables)
  have r: "run_cases (to_flash_one (sram_param p)) [Copy F_all] (image_params (flash_param p)) = Some (sram_param p)"
    using len by (simp add: to_flash_one_def F_all_def c_mem image_params_def)
  note st = stamp_image_props [OF len(3), of c n]
  show ?thesis
    by (rule param_to_flash_ok [OF assms(1) _ _ t r len(1) assms(2)])
      (use that st b in \<open>simp_all add: assms(2) [symmetric]\<close>)
qed

lemma tls_param_init_loop:
  assumes "dev_ok (dev p)" "image_magic (flash_param p) \<noteq> TLS_PARAM_MAGIC" "m = contents (dev p)" "partitions_ok m"
  obtains d k where "dev_ok d" "contents d = m"
    "tls_param_init cfg F heap True p =
      (let q = (case newest_image m of None \<Rightarrow> blank_ram p | Some img \<Rightarrow> p\<lparr>flash_param := img, sram_param := image_params img\<rparr>)
               \<lparr>sys_param_lock := 0, param_allocs := k, dev := d\<rparr>
       in map_option (\<lambda>(err, p). (err, p\<lparr>sys_param_lock := sys_param_lock p + 1\<rparr>))
         (if damaged (damage_flags m) \<ge> 2 then write_both cfg F heap (tls_param_load_factory_default cfg q)
          else restore_damaged cfg F heap [(0, is_damage0 (damage_flags m)), (1, is_damage1 (damage_flags m))] q))"
proof -
  let ?p = "p\<lparr>sys_param_lock := 0, flash_param := replicate 828 0, sram_param := replicate 808 0,
    param_allocs := Suc (param_allocs p)\<rparr>"
  obtain b where b: "heap (param_allocs p) 828 = Some b" using alloc_obtain by blast
  obtain d where d: "dev_ok d" "contents d = m" "init_loop F 0 False no_damage (replicate 828 0) ?p
    = Some (damage_flags m, (load_image (part_image m 1) (load_image (part_image m 0) ?p))\<lparr>dev := d\<rparr>)"
    using init_loop_ok [of ?p m] assms by (auto simp: blank_ram_def)
  let ?fin = "map_option (\<lambda>(err, p :: 's params). (err, p\<lparr>sys_param_lock := sys_param_lock p + 1\<rparr>))"
  let ?q = "(case newest_image m of None \<Rightarrow> blank_ram p | Some img \<Rightarrow> p\<lparr>flash_param := img, sram_param := image_params img\<rparr>)
    \<lparr>sys_param_lock := 0, param_allocs := Suc (param_allocs p), dev := d\<rparr>"
  have q: "(load_image (part_image m 1) (load_image (part_image m 0) ?p))\<lparr>dev := d\<rparr> = ?q"
    by (subst load_newest) (auto simp: blank_ram_def split: option.split)
  have "tls_param_init cfg F heap True p = ?fin (case init_loop F 0 False no_damage (replicate 828 0) ?p of None \<Rightarrow> None
    | Some (a, p) \<Rightarrow>
       if damaged a \<ge> 2 then write_both cfg F heap (tls_param_load_factory_default cfg p)
       else restore_damaged cfg F heap [(0, is_damage0 a), (1, is_damage1 a)] p)"
    using assms(2) b by (simp add: tls_param_init_def param_alloc_def blank_ram_def)
  then show ?thesis
    using that [OF d(1,2), of "Suc (param_allocs p)"] unfolding d(3) q Let_def by (simp only: option.case prod.case)
qed

text \<open>
  The outcome of a start: both partitions are valid; an intact one is as it was, a damaged one has been
  given the loaded parameters, with the next count.
\<close>

definition started :: "param_cfg \<Rightarrow> (nat \<Rightarrow> u8) \<Rightarrow> 's params \<Rightarrow> bool" where
  "started cfg m p' \<longleftrightarrow> param_ok p' \<and> sys_param_lock p' = 1
     \<and> sram_param p' = (case newest_image m of None \<Rightarrow> factory_params cfg | Some img \<Rightarrow> image_params img)
     \<and> image_params (flash_param p') = sram_param p'
     \<and> flash_param p' = (if valid_image (part_image m 0) \<and> valid_image (part_image m 1) then the (newest_image m)
          else part_image (contents (dev p')) (if valid_image (part_image m 1) then 0 else 1))
     \<and> (\<forall>i < 2. let img = part_image (contents (dev p')) i
          in if valid_image (part_image m i) then img = part_image m i
             else valid_image img \<and> image_params img = sram_param p' \<and> image_partition img = of_nat i
               \<and> image_count img = (case newest_image m of None \<Rightarrow> 1 | Some img \<Rightarrow> image_count img + 1))"

lemma less_2_all: "(\<forall>i < 2. P i) \<longleftrightarrow> P 0 \<and> P (1 :: nat)"
  by (auto simp: less_2_cases_iff)

lemma restore_one:
  assumes "dev_ok (dev q)" "contents (dev q) = m" "i < 2" "\<not> valid_image (part_image m i)" "valid_image (part_image m (1 - i))"
    and "flash_param q = part_image m (1 - i)" "sram_param q = image_params (part_image m (1 - i))" "sys_param_lock q = 0"
  obtains q' where "param_to_flash cfg F heap (- 1) (- 1) (int i) q = Some (TLS_PARAM_STATUS_OK, q')"
    "started cfg m (q'\<lparr>sys_param_lock := sys_param_lock q' + 1\<rparr>)"
proof -
  have ok: "param_ok q" using assms by (simp add: param_ok_def image_params_def)
  let ?img = "stamp_image (- 1) (int i) (bsplice 16 (sram_param q) (flash_param q))"
  obtain d k where r: "param_to_flash cfg F heap (- 1) (- 1) (int i) q
      = Some (TLS_PARAM_STATUS_OK, q\<lparr>flash_param := ?img, param_allocs := k, dev := d\<rparr>)"
    "dev_ok d" "contents d = mem_write (part_addr (unat (image_partition ?img))) ?img (contents (dev q))"
    "valid_image ?img" "image_params ?img = sram_param q" "image_partition ?img = (if int i < 0 then (image_partition (flash_param q) + 1) AND 1 else word_of_int (int i))"
    "image_count ?img = (if (- 1 :: int) < 0 then image_count (flash_param q) + 1 else word_of_int (- 1))"
    using save_all [OF ok refl] .
  have n: "newest_image m = Some (flash_param q)"
    using assms(3-6) by (auto simp: newest_image_def less_2_cases_iff)
  have i: "unat (of_nat i :: u16) = i" using assms(3) by (auto simp: less_2_cases_iff)
  have len: "length ?img = 828" using r(4) by (simp add: valid_image_def)
  show ?thesis
    by (rule that [OF r(1)])
      (use r ok n assms i len in \<open>auto simp: started_def param_ok_def less_2_all less_2_cases_iff part_image_write Let_def\<close>)
qed

lemma write_both_ok:
  assumes "param_ok q" "contents (dev q) = m" "\<not> valid_image (part_image m 0)" "\<not> valid_image (part_image m 1)"
    and "sram_param q = factory_params cfg" "sys_param_lock q = 0"
  obtains q' where "write_both cfg F heap q = Some (TLS_PARAM_STATUS_OK, q')"
    "started cfg m (q'\<lparr>sys_param_lock := sys_param_lock q' + 1\<rparr>)"
proof -
  let ?img0 = "stamp_image 1 0 (bsplice 16 (sram_param q) (flash_param q))"
  obtain d0 k0 where r0: "param_to_flash cfg F heap (- 1) 1 0 q
      = Some (TLS_PARAM_STATUS_OK, q\<lparr>flash_param := ?img0, param_allocs := k0, dev := d0\<rparr>)" "dev_ok d0"
    "contents d0 = mem_write (part_addr 0) ?img0 m" "valid_image ?img0" "image_params ?img0 = sram_param q"
    "image_partition ?img0 = 0" "image_count ?img0 = 1"
    by (rule save_all [OF assms(1) refl, where c = 1 and n = 0]) (simp add: assms(2))
  let ?q = "q\<lparr>flash_param := ?img0, param_allocs := k0, dev := d0\<rparr>"
  let ?img1 = "stamp_image 1 1 (bsplice 16 (sram_param ?q) (flash_param ?q))"
  have "param_ok ?q" using r0 assms(1) by (simp add: param_ok_def valid_image_def)
  then obtain d1 k1 where r1: "param_to_flash cfg F heap (- 1) 1 1 ?q
      = Some (TLS_PARAM_STATUS_OK, ?q\<lparr>flash_param := ?img1, param_allocs := k1, dev := d1\<rparr>)" "dev_ok d1"
    "contents d1 = mem_write (part_addr 1) ?img1 (contents d0)" "valid_image ?img1" "image_params ?img1 = sram_param q"
    "image_partition ?img1 = 1" "image_count ?img1 = 1"
    by (rule save_all [OF _ refl, where c = 1 and n = 1]) simp
  let ?q1 = "?q\<lparr>flash_param := ?img1, param_allocs := k1, dev := d1\<rparr>"
  have "newest_image m = None" using assms by (simp add: newest_image_def)
  moreover have "part_image (contents d1) 0 = ?img0" "part_image (contents d1) 1 = ?img1"
    using r0(3,4) r1(3,4) by (simp_all add: part_image_write valid_image_length)
  ultimately have "started cfg m (?q1\<lparr>sys_param_lock := sys_param_lock ?q1 + 1\<rparr>)"
    using r0(4-7) r1(2,4-7) assms \<open>param_ok ?q\<close>
    by (simp add: started_def param_ok_def less_2_all valid_image_length Let_def)
  moreover have "write_both cfg F heap q = Some (TLS_PARAM_STATUS_OK, ?q1)"
    using r0(1) r1(1) by (simp add: write_both_def)
  ultimately show ?thesis using that by blast
qed

lemma init_started:
  assumes "dev_ok (dev p)" "image_magic (flash_param p) \<noteq> TLS_PARAM_MAGIC" "m = contents (dev p)" "partitions_ok m"
  obtains p' where "tls_param_init cfg F heap True p = Some (TLS_PARAM_STATUS_OK, p')" "started cfg m p'"
proof -
  let ?v0 = "valid_image (part_image m 0)" and ?v1 = "valid_image (part_image m 1)"
  let ?q = "\<lambda>k d. (case newest_image m of None \<Rightarrow> blank_ram p | Some img \<Rightarrow> p\<lparr>flash_param := img, sram_param := image_params img\<rparr>)
    \<lparr>sys_param_lock := 0, param_allocs := k, dev := d\<rparr>"
  let ?fin = "map_option (\<lambda>(err, p :: 's params). (err, p\<lparr>sys_param_lock := sys_param_lock p + 1\<rparr>))"
  obtain d k where d: "dev_ok d" "contents d = m" and init: "tls_param_init cfg F heap True p = ?fin
      (if damaged (damage_flags m) \<ge> 2 then write_both cfg F heap (tls_param_load_factory_default cfg (?q k d))
       else restore_damaged cfg F heap [(0, is_damage0 (damage_flags m)), (1, is_damage1 (damage_flags m))] (?q k d))"
    by (rule tls_param_init_loop [OF assms, unfolded Let_def])
  consider "?v0" "?v1" | "?v0" "\<not> ?v1" | "\<not> ?v0" "?v1" | "\<not> ?v0" "\<not> ?v1" by blast
  then show ?thesis
  proof cases
    case 1
    then obtain img where img: "newest_image m = Some img" "valid_image img" by (metis newest_image_def)
    then have "length img = 828" by (simp add: valid_image_def)
    then have "started cfg m ((?q k d)\<lparr>sys_param_lock := 1\<rparr>)"
      using 1 d img by (simp add: started_def param_ok_def less_2_all image_params_def Let_def)
    then show ?thesis using that [of "(?q k d)\<lparr>sys_param_lock := 1\<rparr>"] 1 init by (simp add: damage_flags_def)
  next
    case 2
    then obtain q' where "param_to_flash cfg F heap (- 1) (- 1) 1 (?q k d) = Some (TLS_PARAM_STATUS_OK, q')"
      "started cfg m (q'\<lparr>sys_param_lock := sys_param_lock q' + 1\<rparr>)"
      using restore_one [of "?q k d" m 1 cfg] d by (auto simp: newest_image_def)
    then show ?thesis using that 2 init by (simp add: damage_flags_def)
  next
    case 3
    then obtain q' where "param_to_flash cfg F heap (- 1) (- 1) 0 (?q k d) = Some (TLS_PARAM_STATUS_OK, q')"
      "started cfg m (q'\<lparr>sys_param_lock := sys_param_lock q' + 1\<rparr>)"
      using restore_one [of "?q k d" m 0 cfg] d by (auto simp: newest_image_def)
    then show ?thesis using that 3 init by (simp add: damage_flags_def)
  next
    case 4
    let ?f = "tls_param_load_factory_default cfg (?q k d)"
    have "newest_image m = None" using 4 by (simp add: newest_image_def)
    then have f: "param_ok ?f" "contents (dev ?f) = m" "sram_param ?f = factory_params cfg" "sys_param_lock ?f = 0"
      using d by (simp_all add: tls_param_load_factory_default_def param_ok_def blank_ram_def)
    obtain q' where "write_both cfg F heap ?f = Some (TLS_PARAM_STATUS_OK, q')"
      "started cfg m (q'\<lparr>sys_param_lock := sys_param_lock q' + 1\<rparr>)"
      by (rule write_both_ok [OF f(1,2) 4 f(3,4)])
    then show ?thesis using that 4 init by (simp add: damage_flags_def)
  qed
qed

text \<open>The manager is ready: its memory has the right shape and agrees with the flash.\<close>

definition ready :: "'s params \<Rightarrow> bool" where
  "ready p \<longleftrightarrow> param_ok p \<and> synced (contents (dev p)) (flash_param p)"

lemma save_keeps_ready:
  assumes "ready p" "image_count (flash_param p) \<noteq> 0xFFFF"
    and "param_to_flash cfg F heap pid (- 1) (- 1) p = Some (err, p')"
  shows "ready p' \<and> unat (image_count (flash_param p')) \<le> Suc (unat (image_count (flash_param p)))"
proof (cases "\<exists>cs. - 1 \<le> pid \<and> pid < 55 \<and> map_of (to_flash_cases cfg) pid = Some cs")
  case False
  then have "p' = p" using assms(3) by (auto simp: param_to_flash_def split: if_splits option.splits)
  then show ?thesis using assms(1) by simp
next
  case True
  then obtain cs where t: "- 1 \<le> pid" "pid < 55" "map_of (to_flash_cases cfg) pid = Some cs" by blast
  obtain dest where r: "run_cases (to_flash_one (sram_param p)) cs (image_params (flash_param p)) = Some dest"
    using assms(3) t by (auto simp: param_to_flash_def split: option.splits)
  have ok: "param_ok p" "synced (contents (dev p)) (flash_param p)" using assms(1) by (simp_all add: ready_def)
  then have len: "length (sram_param p) = 808" "length (flash_param p) = 828" "length (image_params (flash_param p)) = 808"
    by (simp_all add: param_ok_def image_params_def)
  have "list_all (\<lambda>c. fst (case_field c) + snd (case_field c) \<le> 808) cs"
    using to_flash_fields [of cfg] map_of_SomeD [OF t(3)] by (auto simp: list_all_iff)
  then have dest: "length dest = 808" using run_to_flash_length [OF r _ len(1,3)] by blast
  let ?b = "bsplice 16 dest (flash_param p)"
  let ?img = "stamp_image (- 1) (- 1) ?b"
  have b: "length ?b = 828" "image_partition ?b = image_partition (flash_param p)" "image_count ?b = image_count (flash_param p)"
    using len dest by (simp_all add: image_partition_def image_count_def c_mem)
  obtain d k where s: "param_to_flash cfg F heap pid (- 1) (- 1) p
      = Some (TLS_PARAM_STATUS_OK, p\<lparr>flash_param := ?img, param_allocs := k, dev := d\<rparr>)"
    "dev_ok d" "contents d = mem_write (part_addr (unat (image_partition ?img))) ?img (contents (dev p))" "length ?img = 828"
    using param_to_flash_ok [OF ok(1) t r dest refl] .
  note st = stamp_image_props [OF b(1), of "- 1" "- 1"]
  have "synced (contents d) ?img"
    using synced_save [OF ok(2) _ st(1) _ s(3)] u16_suc(2) [OF assms(2)] st(3,4) b(2,3) by simp
  moreover have "unat (image_count ?img) = Suc (unat (image_count (flash_param p)))"
    using st(3) b(3) u16_suc(1) [OF assms(2)] by simp
  ultimately show ?thesis
    using s(1,2,4) assms(3) len by (auto simp: ready_def param_ok_def)
qed

lemma started_ready:
  assumes "started cfg m p" "\<And>i. i < 2 \<Longrightarrow> valid_image (part_image m i) \<Longrightarrow> image_partition (part_image m i) = of_nat i"
    and "valid_image (part_image m 0) \<Longrightarrow> valid_image (part_image m 1) \<Longrightarrow>
      image_count (part_image m 0) = image_count (part_image m 1) \<Longrightarrow> image_params (part_image m 0) = image_params (part_image m 1)"
    and "\<And>img. newest_image m = Some img \<Longrightarrow> \<not> (valid_image (part_image m 0) \<and> valid_image (part_image m 1)) \<Longrightarrow>
      image_count img \<noteq> 0xFFFF"
  shows "ready p"
proof -
  let ?v0 = "valid_image (part_image m 0)" and ?v1 = "valid_image (part_image m 1)" and ?m = "contents (dev p)"
  have parts: "if ?v0 then part_image ?m 0 = part_image m 0 else valid_image (part_image ?m 0)
      \<and> image_params (part_image ?m 0) = sram_param p \<and> image_partition (part_image ?m 0) = of_nat 0
      \<and> image_count (part_image ?m 0) = (case newest_image m of None \<Rightarrow> 1 | Some img \<Rightarrow> image_count img + 1)"
    "if ?v1 then part_image ?m 1 = part_image m 1 else valid_image (part_image ?m 1)
      \<and> image_params (part_image ?m 1) = sram_param p \<and> image_partition (part_image ?m 1) = of_nat 1
      \<and> image_count (part_image ?m 1) = (case newest_image m of None \<Rightarrow> 1 | Some img \<Rightarrow> image_count img + 1)"
    using assms(1) unfolding started_def less_2_all Let_def by blast+
  have fp: "flash_param p = (if ?v0 \<and> ?v1 then the (newest_image m) else part_image ?m (if ?v1 then 0 else 1))" "param_ok p"
    using assms(1) unfolding started_def by blast+
  have place: "?v0 \<Longrightarrow> image_partition (part_image m 0) = 0" "?v1 \<Longrightarrow> image_partition (part_image m 1) = 1"
    using assms(2) [of 0] assms(2) [of 1] by simp_all
  have "synced ?m (flash_param p)"
  proof (cases ?v0; cases ?v1)
    assume v: ?v0 ?v1
    then show ?thesis using parts fp(1) place assms(3)
      by (auto simp: synced_def newest_image_def Let_def not_less_iff_gr_or_eq)
  next
    assume v: ?v0 "\<not> ?v1"
    then have "newest_image m = Some (part_image m 0)" by (simp add: newest_image_def)
    then show ?thesis using v parts fp(1) place u16_suc(2) [OF assms(4)] by (auto simp: synced_def Let_def)
  next
    assume v: "\<not> ?v0" ?v1
    then have "newest_image m = Some (part_image m 1)" by (simp add: newest_image_def)
    then show ?thesis using v parts fp(1) place u16_suc(2) [OF assms(4)] by (auto simp: synced_def Let_def)
  next
    assume v: "\<not> ?v0" "\<not> ?v1"
    then show ?thesis using parts fp(1) by (auto simp: synced_def newest_image_def Let_def)
  qed
  then show ?thesis using fp(2) by (simp add: ready_def)
qed

lemma ready_lock [simp]: "ready (lock_params p) = ready p" "ready (unlock_params p) = ready p"
  "flash_param (lock_params p) = flash_param p" "flash_param (unlock_params p) = flash_param p"
  by (simp_all add: ready_def param_ok_def lock_params_def unlock_params_def)

lemma ready_ram:
  "ready p \<Longrightarrow> length b = 808 \<Longrightarrow> ready (p\<lparr>sram_param := b\<rparr>)" "ready (p\<lparr>user_default_param := b\<rparr>) = ready p"
  "ready (p\<lparr>updp_mode := w\<rparr>) = ready p"
  by (simp_all add: ready_def param_ok_def)

lemma set_keeps_ready:
  assumes "ready p" "image_count (flash_param p) \<noteq> 0xFFFF" "tls_param_set cfg F heap pid argv fl p = Some (err, p')"
  shows "ready p' \<and> unat (image_count (flash_param p')) \<le> Suc (unat (image_count (flash_param p)))"
proof (cases "\<exists>cs. \<not> (pid < - 1 \<or> pid \<ge> 55 \<or> argv = None) \<and> map_of (set_cases cfg) pid = Some cs")
  case False
  then show ?thesis
    using assms(1,3) by (auto simp: tls_param_set_def Let_def split: if_splits option.splits)
next
  case True
  then obtain cs v where t: "\<not> (pid < - 1 \<or> pid \<ge> 55)" "argv = Some v" "map_of (set_cases cfg) pid = Some cs" by auto
  define q where "q = lock_params p"
  have q: "ready q" "flash_param q = flash_param p" using assms(1) by (simp_all add: q_def)
  let ?user = "updp_mode q \<noteq> 0"
  obtain b where b: "run_cases (set_one v) cs (if ?user then user_default_param q else sram_param q) = Some b"
    using assms(3) t by (auto simp: tls_param_set_def q_def [symmetric] Let_def split: option.splits)
  define r where "r = (if ?user then q\<lparr>user_default_param := b\<rparr> else q\<lparr>sram_param := b\<rparr>)"
  have "length (sram_param q) = 808" using q by (simp add: ready_def param_ok_def)
  then have r: "ready r" "flash_param r = flash_param p"
    using q run_set_length [OF t(3) b] by (auto simp: r_def ready_ram)
  have "tls_param_set cfg F heap pid argv fl p = (if fl \<and> \<not> ?user
      then map_option (\<lambda>(err, p). (err, unlock_params p)) (param_to_flash cfg F heap pid (- 1) (- 1) r)
      else Some (TLS_PARAM_STATUS_OK, unlock_params r))"
    using t b by (simp add: tls_param_set_def q_def [symmetric] r_def Let_def)
  then show ?thesis
    using assms(3) r save_keeps_ready [OF r(1), of cfg pid err] assms(2)
    by (cases "param_to_flash cfg F heap pid (- 1) (- 1) r") (auto split: if_splits)
qed

lemma flush_keeps_ready:
  assumes "ready p" "image_count (flash_param p) \<noteq> 0xFFFF" "tls_param_to_flash cfg F heap pid p = Some (err, p')"
  shows "ready p' \<and> unat (image_count (flash_param p')) \<le> Suc (unat (image_count (flash_param p)))"
  using assms save_keeps_ready [of "lock_params p" cfg pid err]
  by (auto simp: tls_param_to_flash_def Let_def split: if_splits)

lemma get_keeps_ready:
  assumes "tls_param_get cfg pid argv fl p = Some (err, argv', p')"
  shows "p' = p"
  using assms by (auto simp: tls_param_get_def lock_params_def unlock_params_def Let_def split: if_splits option.splits)

lemma restart_ready:
  assumes "ready p"
  obtains p' where "tls_param_init cfg F heap True (power_up p) = Some (TLS_PARAM_STATUS_OK, p')" "ready p'"
    "sram_param p' = image_params (flash_param p)" "image_count (flash_param p') = image_count (flash_param p)"
proof -
  let ?q = "power_up p" and ?m = "contents (dev p)"
  have sy: "dev_ok (dev p)" "synced ?m (flash_param p)" using assms by (simp_all add: ready_def param_ok_def)
  obtain img where img: "newest_image ?m = Some img" "image_params img = image_params (flash_param p)"
    "image_count img = image_count (flash_param p)" "valid_image (part_image ?m 0)" "valid_image (part_image ?m 1)"
    using synced_newest [OF sy(2)] .
  have "partitions_ok ?m" using img(4,5) by (simp add: partitions_ok_def less_2_all)
  then obtain p' where p': "tls_param_init cfg F heap True ?q = Some (TLS_PARAM_STATUS_OK, p')" "started cfg ?m p'"
    using init_started [of ?q ?m cfg] sy(1) by (auto simp: power_up_def image_magic_blank TLS_PARAM_MAGIC_def)
  have "flash_param p' = img" "sram_param p' = image_params img"
    using p'(2) img unfolding started_def by simp_all
  moreover have "ready p'"
    by (rule started_ready [OF p'(2)])
      (use synced_partitions(1) [OF sy(2)] synced_partitions(2) [OF sy(2), of 0] img in auto)
  ultimately show ?thesis using that [OF p'(1)] img by simp
qed

text \<open>A restart after a write that was cut off: the partition being written is damaged.\<close>

lemma restart_torn:
  assumes "ready p" "image_count (flash_param p) \<noteq> 0xFFFF" "i = unat (image_partition (flash_param p))"
    and "dev_ok d" "part_image (contents d) i = part_image (contents (dev p)) i" "damaged_image (part_image (contents d) (1 - i))"
  obtains p' where "tls_param_init cfg F heap True (power_up (p\<lparr>dev := d\<rparr>)) = Some (TLS_PARAM_STATUS_OK, p')" "ready p'"
    "sram_param p' = image_params (flash_param p)"
proof -
  let ?q = "power_up (p\<lparr>dev := d\<rparr>)" and ?m = "contents d"
  have sy: "synced (contents (dev p)) (flash_param p)" using assms(1) by (simp add: ready_def)
  note n = synced_torn [OF sy assms(3,5,6)]
  have v: "valid_image (part_image ?m i)" "part_image ?m i = flash_param p" "\<not> valid_image (part_image ?m (1 - i))"
    using sy assms(3,5,6) valid_not_damaged by (auto simp: synced_def Let_def)
  have "partitions_ok ?m" using v(1) assms(6) n(2) by (auto simp: partitions_ok_def less_2_all less_2_cases_iff)
  then obtain p' where p': "tls_param_init cfg F heap True ?q = Some (TLS_PARAM_STATUS_OK, p')" "started cfg ?m p'"
    using init_started [of ?q ?m cfg] assms(4) by (auto simp: power_up_def image_magic_blank TLS_PARAM_MAGIC_def)
  have "sram_param p' = image_params (flash_param p)" using p'(2) n(1) unfolding started_def by simp
  moreover have "ready p'"
  proof (rule started_ready [OF p'(2)])
    fix j assume "j < 2" "valid_image (part_image ?m j)"
    then have "j = i" using v(3) n(2) by (auto simp: less_2_cases_iff)
    then show "image_partition (part_image ?m j) = of_nat j" using v(2) assms(3) by simp
  next
    assume "valid_image (part_image ?m 0)" "valid_image (part_image ?m 1)"
    then show "image_params (part_image ?m 0) = image_params (part_image ?m 1)"
      using v(3) n(2) by (auto simp: less_2_cases_iff)
  qed (use n(1) assms(2) in auto)
  ultimately show ?thesis using that [OF p'(1)] by blast
qed

lemma step_keeps_ready:
  assumes "param_step cfg F heap p p'" "ready p" "image_count (flash_param p) \<noteq> 0xFFFF"
  shows "ready p' \<and> unat (image_count (flash_param p')) \<le> Suc (unat (image_count (flash_param p)))"
  using assms
proof (cases rule: param_step.cases)
  case (restart err)
  obtain q where "tls_param_init cfg F heap True (power_up p) = Some (TLS_PARAM_STATUS_OK, q)" "ready q"
    "image_count (flash_param q) = image_count (flash_param p)"
    using restart_ready [OF assms(2), of cfg] .
  then show ?thesis using restart by simp
next
  case (set pid argv to_flash err)
  then show ?thesis using set_keeps_ready [OF assms(2,3)] by blast
next
  case (to_flash pid err)
  then show ?thesis using flush_keeps_ready [OF assms(2,3)] by blast
next
  case (get pid argv from_flash err argv')
  then have "p' = p" by (rule get_keeps_ready)
  then show ?thesis using assms(2) by simp
next
  case (mode w)
  then show ?thesis using assms(2) by (simp add: tls_param_set_updp_mode_def ready_ram)
qed

lemma run_keeps_ready:
  assumes "param_run cfg F heap n p p'" "ready p" "unat (image_count (flash_param p)) + n \<le> 0xFFFF"
  shows "ready p' \<and> unat (image_count (flash_param p')) \<le> unat (image_count (flash_param p)) + n"
  using assms
proof (induction rule: param_run.induct)
  case (run_Suc n p q r)
  then have q: "ready q" "unat (image_count (flash_param q)) \<le> unat (image_count (flash_param p)) + n" by simp_all
  then have "unat (image_count (flash_param q)) \<noteq> 0xFFFF" using run_Suc.prems by simp
  then have "image_count (flash_param q) \<noteq> 0xFFFF" by (auto simp: word_unat_eq_iff)
  then show ?case using step_keeps_ready [OF run_Suc.hyps(2) q(1)] q(2) by auto
qed simp

text \<open>Setting a parameter with the request to save it.\<close>

lemma set_saved:
  assumes "ready p" "image_count (flash_param p) \<noteq> 0xFFFF" "updp_mode p = 0"
    and "map_of (set_cases cfg) pid = Some [c]" "pid \<noteq> - 1" "case_fits c v"
  obtains p' where "tls_param_set cfg F heap pid (Some v) True p = Some (TLS_PARAM_STATUS_OK, p')" "ready p'"
    "bslice (fst (case_field c)) (length (case_bytes c v)) (image_params (flash_param p')) = case_bytes c v"
    "\<And>j g. (j, g) \<in> set (id_fields cfg) \<Longrightarrow> j \<noteq> pid \<Longrightarrow> pid \<noteq> 28 \<Longrightarrow>
       bslice (fst g) (snd g) (image_params (flash_param p')) = bslice (fst g) (snd g) (image_params (flash_param p))"
proof -
  let ?f = "case_field c" and ?v = "case_bytes c v"
  have pid: "?f \<in> set layout" "0 \<le> pid" "pid < 55"
    using set_case_field [OF assms(4,5)] by (metis list.inject)+
  have len: "length (sram_param p) = 808" "length (flash_param p) = 828" using assms(1) by (simp_all add: ready_def param_ok_def)
  let ?b = "bsplice (fst ?f) ?v (sram_param p)"
  have set: "set_one v c (sram_param p) = Some ?b" "length ?b = 808"
    using set_one_ok [OF assms(6), of "sram_param p"] layout_bound [OF pid(1)] len by auto
  let ?q = "(lock_params p)\<lparr>sram_param := ?b\<rparr>"
  have q: "param_ok ?q" using assms(1) set(2) by (simp add: ready_def param_ok_def lock_params_def)
  obtain cs dest where t: "map_of (to_flash_cases cfg) pid = Some cs"
    "run_cases (to_flash_one ?b) cs (image_params (flash_param p)) = Some dest" "length dest = 808"
    "bslice (fst ?f) (length ?v) dest = ?v"
    "\<And>j g. (j, g) \<in> set (id_fields cfg) \<Longrightarrow> j \<noteq> pid \<Longrightarrow> pid \<noteq> 28 \<Longrightarrow>
       bslice (fst g) (snd g) dest = bslice (fst g) (snd g) (image_params (flash_param p))"
    by (rule to_flash_set [OF assms(4-6) len(1), of "image_params (flash_param p)"]) (use len in \<open>auto simp: image_params_def\<close>)
  let ?img = "stamp_image (- 1) (- 1) (bsplice 16 dest (flash_param p))"
  obtain d k where s: "param_to_flash cfg F heap pid (- 1) (- 1) ?q
      = Some (TLS_PARAM_STATUS_OK, ?q\<lparr>flash_param := ?img, param_allocs := k, dev := d\<rparr>)"
    by (rule param_to_flash_ok [OF q _ pid(3) t(1), of dest ?img]) (use t pid in simp_all)
  let ?p' = "unlock_params (?q\<lparr>flash_param := ?img, param_allocs := k, dev := d\<rparr>)"
  have "image_params ?img = dest"
    using stamp_image_props(2) [of "bsplice 16 dest (flash_param p)"] t(3) len(2) by (simp add: image_params_def c_mem)
  moreover have r: "tls_param_set cfg F heap pid (Some v) True p = Some (TLS_PARAM_STATUS_OK, ?p')"
    using assms(3,4) pid set(1) s by (simp add: tls_param_set_def lock_params_def)
  ultimately show ?thesis
    using that [OF r] set_keeps_ready [OF assms(1,2) r] t(4,5) by (simp add: unlock_params_def)
qed

end

section \<open>The manager over the flash driver\<close>

context nor_driver
begin

lemma tls_fls_erase_refused:
  assumes "fls_ready s" "fls_capacity ident s div 0x1000 + 0x8000 \<le> unat sector"
  shows "\<exists>s'. tls_fls_erase spi sector s = (TLS_FLS_STATUS_EINVAL, s') \<and> becomes (mem (chip s)) s s'"
proof -
  obtain density s1 where d: "getFlashDensity spi s = (density, s1)" by fastforce
  note dr = density_ready [OF assms(1) d]
  have "unat (density div 0x1000 + 0x8000) = fls_capacity ident s div 0x1000 + 0x8000"
    using sector_limit_unat [of density] dr(3) capacity_le [of s] by simp
  then have "density div 0x1000 + 0x8000 \<le> sector" using assms(2) by (simp add: word_le_nat_alt)
  then show ?thesis using d dr by (simp add: tls_fls_erase_def Let_def)
qed

lemma driver_param_device:
  "param_device (driver_ops spi heap) (\<lambda>s. mem (chip s)) (fls_capacity ident) fls_ready heap"
proof (rule param_device.intro)
  show "flash_store (fls_read (driver_ops spi heap)) (fls_write (driver_ops spi heap)) (\<lambda>s. mem (chip s))
      (fls_capacity ident) fls_ready"
    using driver_is_store by (simp add: driver_ops_def)
  show "param_device_axioms (driver_ops spi heap) (\<lambda>s. mem (chip s)) (fls_capacity ident) fls_ready heap"
  proof
    show "alloc_total heap" by (rule heap_total)
    fix s and sector :: u32
    assume "fls_ready s" "fls_capacity ident s div 0x1000 + 0x8000 \<le> unat sector"
    then show "\<exists>s'. fls_erase (driver_ops spi heap) sector s = (TLS_FLS_STATUS_EINVAL, s') \<and> fls_ready s'
        \<and> mem (chip s') = mem (chip s) \<and> fls_capacity ident s' = fls_capacity ident s"
      using tls_fls_erase_refused becomes_ready becomes_capacity becomesD
      by (fastforce simp: driver_ops_def)
  qed
qed

end

abbreviation nor_ops :: "nor fls flash_ops" where
  "nor_ops \<equiv> driver_ops nor_exec zero_heap"

interpretation nor_params: param_device nor_ops "\<lambda>s. nor_mem (chip s)" "fls_capacity (\<lambda>d. nor_ident d AND 0xFFFFFF)"
  fls_ready zero_heap
  by (rule nor_drv.driver_param_device)

text \<open>The manager over the driver is ready when the driver is and the memory agrees with the flash.\<close>

definition params_ready :: "('d \<Rightarrow> nat \<Rightarrow> u8) \<Rightarrow> ('d \<Rightarrow> u32) \<Rightarrow> 'd fls params \<Rightarrow> bool" where
  "params_ready mem ident p \<longleftrightarrow> fls_ready (dev p) \<and> fls_capacity ident (dev p) = 2 ^ 20
     \<and> length (flash_param p) = 828 \<and> length (sram_param p) = 808 \<and> synced (mem (chip (dev p))) (flash_param p)"

lemma params_ready_iff:
  assumes "nor_driver spi mem wel ident heap"
  shows "param_device.ready (\<lambda>s. mem (chip s)) (fls_capacity ident) fls_ready p \<longleftrightarrow> params_ready mem ident p"
proof -
  note P = nor_driver.driver_param_device [OF assms]
  show ?thesis
    by (simp add: param_device.ready_def [OF P] param_device.param_ok_def [OF P] param_device.dev_ok_def [OF P] params_ready_def)
qed

end
