(* ===== verification/Params_Props.thy ===== *)
theory Params_Props
  imports Params_Correct
begin

text \<open>
  The properties of the parameter manager over the flash driver: what a start loads, that saved
  parameters survive restarts and writes that were cut off, that setting and getting agree, and where
  the manager goes wrong (the count of saves wraps around, a long name runs into the next field).
\<close>

section \<open>A manager started on a blank chip\<close>

definition fresh_params :: "'s \<Rightarrow> 's params" where
  "fresh_params d = \<lparr>flash_param = replicate 828 0, sram_param = replicate 808 0, user_default_param = replicate 808 0,
     sys_param_lock = 0, updp_mode = 0, param_allocs = 0, dev = d\<rparr>"

definition cfg0 :: param_cfg where
  "cfg0 = \<lparr>cfg_ap = True, cfg_wps = True, cfg_11n = True\<rparr>"

abbreviation nor_id :: "nor \<Rightarrow> u32" where
  "nor_id \<equiv> \<lambda>d. nor_ident d AND 0xFFFFFF"

lemma blank_chip_damaged: "damaged_image (part_image (nor_mem (chip blank_fls)) i)"
proof -
  have "mem_bytes (nor_mem (chip blank_fls)) a 4 = [0xFF, 0xFF, 0xFF, 0xFF]" for a
    by (simp add: mem_bytes_def blank_fls_def blank_nor_def upt_rec)
  then have "bslice 0 4 (part_image (nor_mem (chip blank_fls)) i) = [0xFF, 0xFF, 0xFF, 0xFF]"
    by (simp add: part_image_def bslice_def)
  then show ?thesis by (simp add: damaged_image_def image_magic_def de32_def TLS_PARAM_MAGIC_def)
qed

lemma blank_chip_partitions:
  "nor_params.partitions_ok (nor_mem (chip blank_fls))" "newest_image (nor_mem (chip blank_fls)) = None"
  "\<not> valid_image (part_image (nor_mem (chip blank_fls)) i)"
  using blank_chip_damaged valid_not_damaged by (auto simp: nor_params.partitions_ok_def newest_image_def)

lemma booted_blank:
  obtains p where "tls_param_init cfg nor_ops zero_heap True (fresh_params blank_fls) = Some (TLS_PARAM_STATUS_OK, p)"
    "params_ready nor_mem nor_id p" "image_count (flash_param p) = 1" "image_params (flash_param p) = factory_params cfg"
    "sram_param p = factory_params cfg"
proof -
  have "nor_params.dev_ok (dev (fresh_params blank_fls))" "image_magic (flash_param (fresh_params blank_fls)) \<noteq> TLS_PARAM_MAGIC"
    "nor_mem (chip blank_fls) = nor_mem (chip (dev (fresh_params blank_fls)))"
    by (simp_all add: nor_params.dev_ok_def fresh_params_def image_magic_blank TLS_PARAM_MAGIC_def)
  from nor_params.init_started [OF this blank_chip_partitions(1), of cfg] obtain p where
    p: "tls_param_init cfg nor_ops zero_heap True (fresh_params blank_fls) = Some (TLS_PARAM_STATUS_OK, p)"
    "nor_params.started cfg (nor_mem (chip blank_fls)) p" by metis
  have "nor_params.ready p"
    by (rule nor_params.started_ready [OF p(2)]) (use blank_chip_partitions in simp_all)
  then have "params_ready nor_mem nor_id p" using params_ready_iff [OF nor_drv.nor_driver_axioms] by simp
  moreover have "sram_param p = factory_params cfg" "image_params (flash_param p) = factory_params cfg"
    "image_count (flash_param p) = 1"
    using p(2) unfolding nor_params.started_def by (auto simp: blank_chip_partitions nor_params.less_2_all Let_def)
  ultimately show ?thesis using that p(1) by blast
qed

lemma ready_booted:
  obtains p where "params_ready nor_mem nor_id p" "updp_mode p = 0" "image_count (flash_param p) = 1"
    "image_params (flash_param p) = factory_params cfg"
proof -
  obtain q where "params_ready nor_mem nor_id q" "image_count (flash_param q) = 1" "image_params (flash_param q) = factory_params cfg"
    using booted_blank .
  then show ?thesis using that [of "q\<lparr>updp_mode := 0\<rparr>"] by (simp add: params_ready_def)
qed

section \<open>Shape of the structures\<close>

definition params_shape :: "'s params \<Rightarrow> bool" where
  "params_shape p \<longleftrightarrow> length (flash_param p) = 828 \<and> length (sram_param p) = 808 \<and> length (user_default_param p) = 808"

definition user_shape :: "tls_user_param \<Rightarrow> bool" where
  "user_shape u \<longleftrightarrow> length (u_ip u) = 4 \<and> length (u_netmask u) = 4 \<and> length (u_gateway u) = 4 \<and> length (u_dns u) = 4
     \<and> length (u_socket_host u) = 32 \<and> length (u_PassWord u) = 6"

lemma verify_shape: "param_flash_verify F heap addr b n p = (ok, q) \<Longrightarrow> flash_param q = flash_param p
    \<and> sram_param q = sram_param p \<and> user_default_param q = user_default_param p \<and> sys_param_lock q = sys_param_lock p"
  by (auto simp: param_flash_verify_def param_alloc_def Let_def split: prod.splits option.splits if_splits)

lemma param_to_flash_shape:
  assumes "param_to_flash cfg F heap pid c n p = Some (err, q)" "params_shape p"
  shows "params_shape q \<and> sys_param_lock q = sys_param_lock p"
proof (cases "map_of (to_flash_cases cfg) pid")
  case None
  then show ?thesis using assms by (auto simp: param_to_flash_def split: if_splits)
next
  case (Some cs)
  have "list_all (\<lambda>c. fst (case_field c) + snd (case_field c) \<le> 808) cs"
    using to_flash_fields [of cfg] map_of_SomeD [OF Some] by (auto simp: list_all_iff)
  then have len: "length dest = 808"
    if "run_cases (to_flash_one (sram_param p)) cs (image_params (flash_param p)) = Some dest" for dest
    using run_to_flash_length [OF that] assms(2) by (simp add: params_shape_def image_params_def)
  show ?thesis
    using assms Some len stamp_image_props(1) [of "bsplice 16 _ (flash_param p)" c n, THEN valid_image_length]
    by (fastforce simp: param_to_flash_def params_shape_def Let_def dest: verify_shape split: if_splits option.splits prod.splits)
qed

lemma set_shape:
  assumes "tls_param_set cfg F heap pid argv fl p = Some (err, q)" "params_shape p"
  shows "params_shape q \<and> sys_param_lock q = sys_param_lock p"
proof -
  have len: "length b = 808" if "map_of (set_cases cfg) pid = Some cs" "run_cases (set_one v) cs a = Some b" "length a = 808" for cs v a b
    using run_set_length that by blast
  show ?thesis
    using assms len
    by (fastforce simp: tls_param_set_def params_shape_def lock_params_def unlock_params_def Let_def
        dest: param_to_flash_shape split: if_splits option.splits)
qed

section \<open>User defaults\<close>

lemma user_default_addrs:
  "fls_off TLS_FLASH_PARAM_DEFAULT = 0xF0000" "fls_off (TLS_FLASH_PARAM_DEFAULT + 4) = 0xF0004"
  "fls_off (TLS_FLASH_PARAM_DEFAULT + 4 + 808) = 0xF032C"
  by (simp_all add: fls_off_def TLS_FLASH_PARAM_DEFAULT_def)

context param_device
begin

lemma store_at:
  assumes "dev_ok d" "0 < length v" "0x2000 \<le> fls_off a" "fls_off a + length v \<le> 2 ^ 20"
  obtains d' where "fls_write F a (Some v) (length v) d = (TLS_FLS_STATUS_OK, d')" "dev_ok d'"
    "contents d' = mem_write (fls_off a) v (contents d)"
  using write_ok [of d "length v" v a] assms by (auto simp: dev_ok_def)

lemma fetch_at:
  assumes "dev_ok d" "0 < n" "length buf = n" "fls_off a + n \<le> 2 ^ 20"
  obtains d' where "fls_read F a (Some buf) n d = (TLS_FLS_STATUS_OK, Some (mem_bytes (contents d) (fls_off a) n), d')" "dev_ok d'"
    "contents d' = contents d"
  using read_ok [of d n buf a] assms by (auto simp: dev_ok_def bsplice_full)

lemma user_default_stored:
  assumes "dev_ok (dev p)" "length (user_default_param p) = 808"
  obtains q where "tls_param_save_user_default F p = (TLS_PARAM_STATUS_OK, q)" "dev_ok (dev q)"
    "mem_bytes (contents (dev q)) 0xF0000 4 = le32 TLS_USER_MAGIC" "mem_bytes (contents (dev q)) 0xF0004 808 = user_default_param p"
    "mem_bytes (contents (dev q)) 0xF032C 4 = le32 (get_crc32 (user_default_param p))"
proof -
  obtain d1 where d1: "fls_write F TLS_FLASH_PARAM_DEFAULT (Some (le32 TLS_USER_MAGIC)) 4 (dev p) = (TLS_FLS_STATUS_OK, d1)"
    "dev_ok d1" "contents d1 = mem_write 0xF0000 (le32 TLS_USER_MAGIC) (contents (dev p))"
    using store_at [OF assms(1), of "le32 TLS_USER_MAGIC" TLS_FLASH_PARAM_DEFAULT] by (auto simp: user_default_addrs)
  obtain d2 where d2: "fls_write F (TLS_FLASH_PARAM_DEFAULT + 4) (Some (user_default_param p)) 808 d1 = (TLS_FLS_STATUS_OK, d2)"
    "dev_ok d2" "contents d2 = mem_write 0xF0004 (user_default_param p) (contents d1)"
    using store_at [OF d1(2), of "user_default_param p" "TLS_FLASH_PARAM_DEFAULT + 4"] assms(2) by (auto simp: user_default_addrs)
  obtain d3 where d3: "fls_write F (TLS_FLASH_PARAM_DEFAULT + 4 + 808) (Some (le32 (get_crc32 (user_default_param p)))) 4 d2
      = (TLS_FLS_STATUS_OK, d3)"
    "dev_ok d3" "contents d3 = mem_write 0xF032C (le32 (get_crc32 (user_default_param p))) (contents d2)"
    using store_at [OF d2(2), of "le32 (get_crc32 (user_default_param p))" "TLS_FLASH_PARAM_DEFAULT + 4 + 808"]
    unfolding user_default_addrs by auto
  show ?thesis
    by (rule that [of "p\<lparr>dev := d3\<rparr>"])
      (use d1 d2 d3 assms(2) in \<open>simp_all add: tls_param_save_user_default_def mem_bytes_write_other\<close>)
qed

lemma user_default_loaded:
  assumes "dev_ok (dev q)" "length stk = 4" "length v = 808"
    and "mem_bytes (contents (dev q)) 0xF0000 4 = le32 TLS_USER_MAGIC" "mem_bytes (contents (dev q)) 0xF0004 808 = v"
    and "mem_bytes (contents (dev q)) 0xF032C 4 = le32 (get_crc32 v)"
  shows "\<exists>r. tls_param_load_user F stk param q = (TLS_PARAM_STATUS_OK, v, r)"
proof -
  obtain d1 where d1: "fls_read F TLS_FLASH_PARAM_DEFAULT (Some stk) 4 (dev q) = (TLS_FLS_STATUS_OK, Some (le32 TLS_USER_MAGIC), d1)"
    "dev_ok d1" "contents d1 = contents (dev q)"
    using fetch_at [OF assms(1) _ assms(2), of TLS_FLASH_PARAM_DEFAULT] assms(4) by (auto simp: user_default_addrs)
  obtain d2 where d2: "fls_read F (TLS_FLASH_PARAM_DEFAULT + 4) (Some (replicate 808 0)) 808 d1 = (TLS_FLS_STATUS_OK, Some v, d2)"
    "dev_ok d2" "contents d2 = contents (dev q)"
    using fetch_at [OF d1(2), of 808 "replicate 808 0" "TLS_FLASH_PARAM_DEFAULT + 4"] assms(5) d1(3) by (auto simp: user_default_addrs)
  obtain d3 where d3: "fls_read F (TLS_FLASH_PARAM_DEFAULT + 4 + 808) (Some stk) 4 d2 = (TLS_FLS_STATUS_OK, Some (le32 (get_crc32 v)), d3)"
    using fetch_at [OF d2(2) _ assms(2), of "TLS_FLASH_PARAM_DEFAULT + 4 + 808"] assms(6) d2(3)
    unfolding user_default_addrs by auto
  show ?thesis using d1(1) d2(1) d3 by (simp add: tls_param_load_user_def)
qed

end

section \<open>Properties\<close>

text \<open>C9. \<^verbatim>\<open>tls_param_init\<close> loads the valid image with the highest count, or the factory defaults when both
  partitions are damaged; afterwards both partitions are valid, an intact one unchanged and a damaged one
  rewritten with the loaded parameters.\<close>

theorem tls_param_init_loads_newest:
  assumes "nor_driver spi mem wel ident heap" "fls_ready (dev p)" "fls_capacity ident (dev p) = 2 ^ 20"
    and "image_magic (flash_param p) \<noteq> TLS_PARAM_MAGIC" "m = mem (chip (dev p))"
    and "\<forall>i < 2. valid_image (part_image m i) \<or> damaged_image (part_image m i)"
  shows "\<exists>p'. tls_param_init cfg (driver_ops spi heap) heap True p = Some (TLS_PARAM_STATUS_OK, p')
    \<and> sram_param p' = (case newest_image m of None \<Rightarrow> factory_params cfg | Some img \<Rightarrow> image_params img)
    \<and> (\<forall>i < 2. let img = part_image (mem (chip (dev p'))) i in valid_image img
        \<and> (if valid_image (part_image m i) then img = part_image m i else image_params img = sram_param p'))"
proof -
  note P = nor_driver.driver_param_device [OF assms(1)]
  have "param_device.dev_ok (fls_capacity ident) fls_ready (dev p)" "param_device.partitions_ok m"
    using assms(2,3,6) by (simp_all add: param_device.dev_ok_def [OF P] param_device.partitions_ok_def [OF P])
  from param_device.init_started [OF P this(1) assms(4,5) this(2), of cfg] obtain p' where
    p': "tls_param_init cfg (driver_ops spi heap) heap True p = Some (TLS_PARAM_STATUS_OK, p')"
    "param_device.started (\<lambda>s. mem (chip s)) (fls_capacity ident) fls_ready cfg m p'" by metis
  then show ?thesis
    unfolding param_device.started_def [OF P] Let_def by (auto split: if_splits)
qed

theorem tls_param_init_loads_newest_witness:
  "\<exists>p'. tls_param_init cfg0 nor_ops zero_heap True (fresh_params blank_fls)
      = Some (TLS_PARAM_STATUS_OK, p')
    \<and> sram_param p' = factory_params cfg0"
  using tls_param_init_loads_newest [OF nor_drv.nor_driver_axioms, of "fresh_params blank_fls" "nor_mem (chip blank_fls)"
      cfg0] blank_chip_damaged blank_chip_partitions(2)
  by (auto simp: fresh_params_def image_magic_blank TLS_PARAM_MAGIC_def)






text \<open>The state of the chip when the other partition was erased and nothing written yet.\<close>

definition cut_chip :: "nat \<Rightarrow> nor fls \<Rightarrow> nor fls" where
  "cut_chip i d = d\<lparr>chip := (chip d)\<lparr>nor_mem := mem_write (part_addr (1 - i)) (replicate 828 0xFF) (nor_mem (chip d))\<rparr>\<rparr>"


text \<open>The count of saves is a 16-bit number and the loader compares it without regard to its wrap-around: the
  save after count 65535 reports success, and the next start loads the parameters from before it.\<close>

theorem param_count_wrap_loses_save:
  assumes "nor_driver spi mem wel ident heap" "params_ready mem ident p" "image_count (flash_param p) = 0xFFFF"
  shows "\<exists>q r. param_to_flash cfg (driver_ops spi heap) heap (- 1) (- 1) (- 1) p = Some (TLS_PARAM_STATUS_OK, q)
    \<and> image_params (flash_param q) = sram_param p
    \<and> tls_param_init cfg (driver_ops spi heap) heap True (power_up q) = Some (TLS_PARAM_STATUS_OK, r)
    \<and> sram_param r = image_params (flash_param p)"
proof -
  note P = nor_driver.driver_param_device [OF assms(1)] and R = params_ready_iff [OF assms(1)]
  let ?dev_ok = "param_device.dev_ok (fls_capacity ident) fls_ready"
  have ok: "param_device.param_ok (fls_capacity ident) fls_ready p" and sy: "synced (mem (chip (dev p))) (flash_param p)"
    using assms(2) by (simp_all add: params_ready_def param_device.param_ok_def [OF P] param_device.dev_ok_def [OF P])
  define img where "img = stamp_image (- 1) (- 1) (bsplice 16 (sram_param p) (flash_param p))"
  obtain d k where
    q: "param_to_flash cfg (driver_ops spi heap) heap (- 1) (- 1) (- 1) p
      = Some (TLS_PARAM_STATUS_OK, p\<lparr>flash_param := img, param_allocs := k, dev := d\<rparr>)" "?dev_ok d"
    "mem (chip d) = mem_write (part_addr (unat (image_partition img))) img (mem (chip (dev p)))" "valid_image img"
    "image_params img = sram_param p" "image_partition img = (image_partition (flash_param p) + 1) AND 1"
    "image_count img = image_count (flash_param p) + 1"
    by (rule param_device.save_all [OF P ok img_def]) simp
  let ?q = "p\<lparr>flash_param := img, param_allocs := k, dev := d\<rparr>" and ?m = "mem (chip d)"
  have "unat (image_partition (flash_param p)) < 2" using sy by (simp add: synced_def Let_def)
  then have "image_partition (flash_param p) = 0 \<or> image_partition (flash_param p) = 1"
    by (auto simp: less_2_cases_iff word_unat_eq_iff)
  then have m: "valid_image (part_image ?m 0)" "valid_image (part_image ?m 1)" "newest_image ?m = Some (flash_param p)"
    using sy q(3,4,6,7) assms(3)
    by (auto simp: synced_def newest_image_def part_image_write valid_image_length Let_def)
  then have "param_device.partitions_ok ?m"
    by (auto simp: param_device.partitions_ok_def [OF P] less_2_cases_iff)
  moreover have "?dev_ok (dev (power_up ?q))" "image_magic (flash_param (power_up ?q)) \<noteq> TLS_PARAM_MAGIC"
    using q(2) by (simp_all add: power_up_def image_magic_blank TLS_PARAM_MAGIC_def)
  moreover have "?m = mem (chip (dev (power_up ?q)))" by (simp add: power_up_def)
  ultimately obtain r where r: "tls_param_init cfg (driver_ops spi heap) heap True (power_up ?q) = Some (TLS_PARAM_STATUS_OK, r)"
    "param_device.started (\<lambda>s. mem (chip s)) (fls_capacity ident) fls_ready cfg ?m r"
    using param_device.init_started [OF P, of "power_up ?q" ?m cfg] by metis
  then have "sram_param r = image_params (flash_param p)"
    using m(3) unfolding param_device.started_def [OF P] by simp
  then show ?thesis using q(1,5) r(1) by auto
qed

lemma ready_full_count:
  obtains q where "params_ready nor_mem nor_id q" "image_count (flash_param q) = 0xFFFF"
proof -
  obtain p where p: "params_ready nor_mem nor_id p" "image_count (flash_param p) = 1" using ready_booted [of cfg0] by blast
  then have ok: "nor_params.param_ok p" and sy: "synced (nor_mem (chip (dev p))) (flash_param p)"
    by (simp_all add: params_ready_def nor_params.param_ok_def nor_params.dev_ok_def)
  define img where "img = stamp_image 0xFFFF (- 1) (bsplice 16 (sram_param p) (flash_param p))"
  obtain d where d: "nor_params.dev_ok d"
    "nor_mem (chip d) = mem_write (part_addr (unat (image_partition img))) img (nor_mem (chip (dev p)))" "valid_image img"
    "image_partition img = (image_partition (flash_param p) + 1) AND 1" "image_count img = 0xFFFF"
    by (rule nor_params.save_all [OF ok img_def, of cfg0]) simp
  have "synced (nor_mem (chip d)) img" using synced_save [OF sy _ d(3,4,2)] p(2) d(5) by simp
  then have "params_ready nor_mem nor_id (p\<lparr>flash_param := img, dev := d\<rparr>)"
    using ok d(1,3) by (simp add: params_ready_def nor_params.param_ok_def nor_params.dev_ok_def valid_image_length)
  then show ?thesis using that d(5) by simp
qed

theorem param_count_wrap_loses_save_witness:
  "\<exists>(p :: nor fls params) q r. image_count (flash_param p) = 0xFFFF
    \<and> param_to_flash cfg0 nor_ops zero_heap (- 1) (- 1) (- 1) p = Some (TLS_PARAM_STATUS_OK, q)
    \<and> tls_param_init cfg0 nor_ops zero_heap True (power_up q) = Some (TLS_PARAM_STATUS_OK, r)
    \<and> sram_param r = image_params (flash_param p)"
proof -
  obtain p where p: "params_ready nor_mem nor_id p" "image_count (flash_param p) = 0xFFFF" using ready_full_count .
  show ?thesis using param_count_wrap_loses_save [OF nor_drv.nor_driver_axioms p, of cfg0] p(2) by blast
qed

text \<open>Setting a parameter in memory: the get of the same identifier returns the value, and the fields of all other
  identifiers are as before, for every argument that fits the field.\<close>

theorem tls_param_set_get:
  assumes "length (sram_param p) = 808" "updp_mode p = 0" "map_of (set_cases cfg) pid = Some [c]" "pid \<noteq> - 1"
    and "case_fits c v" "length (case_bytes c v) \<le> length buf"
  shows "\<exists>q. tls_param_set cfg F heap pid (Some v) False p = Some (TLS_PARAM_STATUS_OK, q)
    \<and> tls_param_get cfg pid (Some buf) False q = Some (TLS_PARAM_STATUS_OK, Some (bsplice 0 (case_bytes c v) buf), q)
    \<and> (\<forall>(j, g) \<in> set (id_fields cfg). j \<noteq> pid \<longrightarrow> bslice (fst g) (snd g) (sram_param q) = bslice (fst g) (snd g) (sram_param p))"
proof -
  let ?f = "case_field c" and ?v = "case_bytes c v"
  have pid: "(pid, ?f) \<in> set (id_fields cfg)" "?f \<in> set layout" "0 \<le> pid" "pid < 55"
    using set_case_field [OF assms(3,4)] by (metis list.inject)+
  let ?b = "bsplice (fst ?f) ?v (sram_param p)"
  note set = set_one_ok [OF assms(5), of "sram_param p", unfolded assms(1)]
  have bound: "fst ?f + snd ?f \<le> 808" using layout_bound [OF pid(2)] by simp
  note set = set [OF bound]
  have "bslice (fst ?f) (length ?v) ?b = ?v" using set(2) assms(1) by (simp add: c_mem)
  then have "get_one ?b c buf = Some (bsplice 0 ?v buf)" using get_one_field assms(5,6) by blast
  moreover have "bslice (fst g) (snd g) ?b = bslice (fst g) (snd g) (sram_param p)"
    if "(j, g) \<in> set (id_fields cfg)" "j \<noteq> pid" for j g
    using bslice_splice_fields [OF id_fields_disjoint [OF pid(1) that(1)] set(3)] that set(2) assms(1) by auto
  moreover have "tls_param_set cfg F heap pid (Some v) False p = Some (TLS_PARAM_STATUS_OK, p\<lparr>sram_param := ?b\<rparr>)"
    using assms(2,3) pid set(1) by (simp add: tls_param_set_def lock_params_def unlock_params_def)
  ultimately show ?thesis
    using assms(3) pid by (auto simp: tls_param_get_def get_cases_eq lock_params_def unlock_params_def)
qed

theorem tls_param_set_get_witness:
  "\<exists>q. tls_param_set cfg0 nor_ops zero_heap 51 (Some [0x61, 0x62, 0]) False (fresh_params blank_fls) = Some (TLS_PARAM_STATUS_OK, q)
    \<and> tls_param_get cfg0 51 (Some [0, 0, 0, 7]) False q = Some (TLS_PARAM_STATUS_OK, Some [0x61, 0x62, 0, 7], q)"
proof -
  have "map_of (set_cases cfg0) 51 = Some [Strcpy F_sntp_service1]" by (simp add: case_tables cfg0_def)
  then show ?thesis
    using tls_param_set_get [of "fresh_params blank_fls" cfg0 51 "Strcpy F_sntp_service1" "[0x61, 0x62, 0]" "[0, 0, 0, 7]"
        nor_ops zero_heap]
    by (auto simp: fresh_params_def F_sntp_service1_def has_nul_def cstr_def bsplice_def)
qed

text \<open>The host name is copied with an unbounded \<^verbatim>\<open>strcpy\<close>: a name of 40 characters for the 32-byte field of
  \<^verbatim>\<open>TLS_PARAM_ID_DNSNAME\<close> is accepted and overwrites the start of the device name behind it.\<close>

theorem dnsname_overruns_device_name:
  assumes "length (sram_param p) = 808" "updp_mode p = 0"
  shows "\<exists>q. tls_param_set cfg F heap 20 (Some (replicate 40 0x41 @ [0])) False p = Some (TLS_PARAM_STATUS_OK, q)
    \<and> bslice (fst F_local_device_name) 9 (sram_param q) = replicate 8 0x41 @ [0]"
proof -
  let ?v = "replicate 40 0x41 @ [0] :: bytes"
  have v: "has_nul ?v" "cstr ?v = replicate 40 0x41" by (simp_all add: has_nul_def)
  let ?b = "bsplice 172 ?v (sram_param p)"
  have t: "map_of (set_cases cfg) 20 = Some [Strcpy F_local_dnsname]" by (simp add: case_tables)
  have "tls_param_set cfg F heap 20 (Some ?v) False p = Some (TLS_PARAM_STATUS_OK, p\<lparr>sram_param := ?b\<rparr>)"
    using assms v t by (simp add: tls_param_set_def set_one_def F_local_dnsname_def lock_params_def unlock_params_def)
  moreover have "bslice 204 9 ?b = drop 32 ?v" using assms(1) by (simp add: bslice_def bsplice_def)
  moreover have "drop 32 ?v = replicate 8 0x41 @ [0]" by simp
  ultimately show ?thesis by (simp add: F_local_device_name_def)
qed

theorem dnsname_overruns_device_name_witness:
  "\<exists>q. tls_param_set cfg0 nor_ops zero_heap 20 (Some (replicate 40 0x41 @ [0])) False (fresh_params blank_fls)
      = Some (TLS_PARAM_STATUS_OK, q) \<and> bslice (fst F_local_device_name) 9 (sram_param q) = replicate 8 0x41 @ [0]"
  by (rule dnsname_overruns_device_name) (simp_all add: fresh_params_def)

text \<open>C25. Whatever the driver does and whatever is passed in, the operations on parameters keep the sizes of the three
  structures (no copy grows or shrinks one), and each gives back the lock it takes.\<close>

theorem params_shape_kept:
  assumes "params_shape p"
  shows "(\<forall>err q. tls_param_set cfg F heap pid argv fl p = Some (err, q) \<longrightarrow> params_shape q \<and> sys_param_lock q = sys_param_lock p)
    \<and> (\<forall>err b q. tls_param_get cfg pid argv fl p = Some (err, b, q) \<longrightarrow> q = p)
    \<and> (\<forall>err q. tls_param_to_flash cfg F heap pid p = Some (err, q) \<longrightarrow> params_shape q \<and> sys_param_lock q = sys_param_lock p)
    \<and> (\<forall>err q. tls_param_to_default cfg F heap p = Some (err, q) \<longrightarrow> params_shape q \<and> sys_param_lock q = sys_param_lock p)
    \<and> (user_shape u \<longrightarrow> params_shape (snd (tls_param_save_user F u p)))"
proof (intro conjI allI impI)
  fix err q assume "tls_param_set cfg F heap pid argv fl p = Some (err, q)"
  then show "params_shape q" "sys_param_lock q = sys_param_lock p" using set_shape assms by blast+
next
  fix err b q assume "tls_param_get cfg pid argv fl p = Some (err, b, q)"
  then show "q = p"
    by (auto simp: tls_param_get_def lock_params_def unlock_params_def Let_def split: if_splits option.splits)
next
  fix err q assume "tls_param_to_flash cfg F heap pid p = Some (err, q)"
  moreover have "params_shape (lock_params p)" using assms by (simp add: params_shape_def lock_params_def)
  ultimately have "params_shape q \<and> sys_param_lock q = sys_param_lock p"
    by (auto simp: tls_param_to_flash_def Let_def params_shape_def lock_params_def unlock_params_def
        dest!: param_to_flash_shape split: if_splits)
  then show "params_shape q" "sys_param_lock q = sys_param_lock p" by blast+
next
  fix err q assume d: "tls_param_to_default cfg F heap p = Some (err, q)"
  have "params_shape (tls_param_load_factory_default cfg p)" using assms by (simp add: params_shape_def tls_param_load_factory_default_def)
  then have "params_shape q \<and> sys_param_lock q = sys_param_lock p"
    using d param_to_flash_shape
    by (fastforce simp: tls_param_to_default_def tls_param_load_factory_default_def params_shape_def split: option.splits if_splits)
  then show "params_shape q" "sys_param_lock q = sys_param_lock p" by blast+
next
  assume "user_shape u"
  then have "list_all (\<lambda>(off, v). off + length v \<le> length (user_default_param p)) (user_fields u)"
    using assms by (simp add: user_fields_def user_shape_def params_shape_def factory_default_hardware_def chr_bytes_def)
  then show "params_shape (snd (tls_param_save_user F u p))"
    using assms by (simp add: tls_param_save_user_def tls_param_save_user_default_def params_shape_def length_put_fields Let_def
        split: prod.splits)
qed

theorem params_shape_kept_witness:
  "\<exists>q. tls_param_set cfg0 nor_ops zero_heap 7 (Some [6]) False (fresh_params blank_fls) = Some (TLS_PARAM_STATUS_OK, q)
    \<and> params_shape q"
proof -
  have "map_of (set_cases cfg0) 7 = Some [Copy F_channel]" by (simp add: case_tables)
  then obtain q where "tls_param_set cfg0 nor_ops zero_heap 7 (Some [6]) False (fresh_params blank_fls) = Some (TLS_PARAM_STATUS_OK, q)"
    by (auto simp: tls_param_set_def set_one_def F_channel_def lock_params_def fresh_params_def)
  then show ?thesis
    using params_shape_kept [of "fresh_params blank_fls"] by (auto simp: params_shape_def fresh_params_def)
qed

text \<open>The user's defaults saved with \<^verbatim>\<open>tls_param_save_user_default\<close> are what \<^verbatim>\<open>tls_param_load_user\<close> returns.\<close>

theorem user_default_roundtrip:
  assumes "nor_driver spi mem wel ident heap" "fls_ready (dev p)" "fls_capacity ident (dev p) = 2 ^ 20"
    and "length (user_default_param p) = 808" "length stk = 4"
  shows "\<exists>q r. tls_param_save_user_default (driver_ops spi heap) p = (TLS_PARAM_STATUS_OK, q)
    \<and> tls_param_load_user (driver_ops spi heap) stk param q = (TLS_PARAM_STATUS_OK, user_default_param p, r)"
proof -
  note P = nor_driver.driver_param_device [OF assms(1)]
  have "param_device.dev_ok (fls_capacity ident) fls_ready (dev p)"
    using assms(2,3) by (simp add: param_device.dev_ok_def [OF P])
  from param_device.user_default_stored [OF P this assms(4)] param_device.user_default_loaded [OF P _ assms(5,4)]
  show ?thesis by metis
qed

theorem user_default_roundtrip_witness:
  "\<exists>q r. tls_param_save_user_default nor_ops (fresh_params blank_fls) = (TLS_PARAM_STATUS_OK, q)
    \<and> tls_param_load_user nor_ops [0, 0, 0, 0] [] q = (TLS_PARAM_STATUS_OK, replicate 808 0, r)"
  using user_default_roundtrip [OF nor_drv.nor_driver_axioms, of "fresh_params blank_fls" "[0, 0, 0, 0]" "[]"]
  by (auto simp: fresh_params_def)

end
