(* ===== verification/Crypto_Crc.thy ===== *)
theory Crypto_Crc
  imports Crc
begin

text \<open>
  The CRC part of \<^verbatim>\<open>src/Platform/Common/crypto/wm_crypto_hard.c\<close>. The engine itself is hardware: a
  parameter \<open>hw type mode key data\<close>, the value of the result register after the engine was started with
  \<open>key\<close> on \<open>data\<close>. What the driver relies on is that a message may be processed in blocks, the law of
  the locale \<open>crc_engine\<close>; the standard reflected CRC-32 obeys it.
\<close>

type_synonym crc_unit = "nat \<Rightarrow> nat \<Rightarrow> u32 \<Rightarrow> bytes \<Rightarrow> u32"

record psCrcContext =
  crc_state :: u32
  crc_type :: nat
  crc_mode :: nat

definition Reflect :: "u32 \<Rightarrow> nat \<Rightarrow> u32" where
  "Reflect ref ch = snd (foldl (\<lambda>(ref, value) i.
      (drop_bit 1 ref, if ref AND 1 \<noteq> 0 then value OR push_bit (ch - i) 1 else value)) (ref, 0) [1..<ch + 1])"

definition tls_crypto_crc_init :: "u32 \<Rightarrow> nat \<Rightarrow> nat \<Rightarrow> psCrcContext" where
  "tls_crypto_crc_init key ty mode = \<lparr>crc_state = key, crc_type = ty, crc_mode = mode\<rparr>"

definition tls_crypto_crc_update :: "crc_unit \<Rightarrow> bytes \<Rightarrow> psCrcContext \<Rightarrow> psCrcContext" where
  "tls_crypto_crc_update hw data ctx =
    (let ch = (if crc_type ctx = 0 then 8 else if crc_type ctx = 3 then 32 else 16);
         key = (if crc_mode ctx mod 2 = 1 then Reflect (crc_state ctx) ch else crc_state ctx)
     in ctx\<lparr>crc_state := hw (crc_type ctx) (crc_mode ctx) key (take (length data mod 0x10000) data)\<rparr>)"

definition tls_crypto_crc_final :: "psCrcContext \<Rightarrow> u32" where
  "tls_crypto_crc_final ctx = crc_state ctx"

section \<open>Reflection\<close>

lemma reflect_loop:
  "n \<le> 32 \<Longrightarrow> foldl (\<lambda>(ref, value) i. (drop_bit 1 ref, if ref AND 1 \<noteq> 0 then value OR push_bit (32 - i) 1 else value))
      (w, 0 :: u32) [1..<n + 1]
    = (drop_bit n w, foldl (\<lambda>v i. if bit w i then v OR push_bit (31 - i) 1 else v) 0 [0..<n])" for w :: u32
proof (induction n)
  case (Suc n)
  have "(drop_bit n w AND 1 \<noteq> 0) = bit w n"
    by (simp add: and_one_eq odd_iff_mod_2_eq_one [symmetric] bit_iff_odd_drop_bit)
  then show ?case using Suc by (simp add: drop_bit_drop_bit)
qed simp

lemma reflect_word_reverse: "Reflect w 32 = word_reverse w"
  unfolding Reflect_def using reflect_loop [of 32 w] foldl_reverse_bits [of w] by simp

section \<open>Messages in blocks\<close>

locale crc_engine =
  fixes hw :: crc_unit
  assumes hw_blocks: "length b < 0x10000 \<Longrightarrow> hw 3 3 (Reflect (hw 3 3 k a) 32) b = hw 3 3 k (a @ b)"
begin

text \<open>The CRC-32 with both reflections of a message fed in blocks, from the context of \<^verbatim>\<open>tls_crypto_crc_init\<close>.\<close>

lemma update_blocks:
  assumes "bs \<noteq> []" "\<And>b. b \<in> set bs \<Longrightarrow> length b < 0x10000"
  shows "foldl (\<lambda>c b. tls_crypto_crc_update hw b c) (tls_crypto_crc_init key 3 3) bs
    = \<lparr>crc_state = hw 3 3 (Reflect key 32) (concat bs), crc_type = 3, crc_mode = 3\<rparr>"
  using assms
proof (induction bs rule: rev_nonempty_induct)
  case (single b)
  then show ?case by (simp add: tls_crypto_crc_update_def tls_crypto_crc_init_def)
next
  case (snoc b bs)
  then show ?case by (simp add: tls_crypto_crc_update_def hw_blocks)
qed

lemma update_block:
  "length b < 0x10000 \<Longrightarrow> crc_state (tls_crypto_crc_update hw b (tls_crypto_crc_init key 3 3)) = hw 3 3 (Reflect key 32) b"
  by (simp add: tls_crypto_crc_update_def tls_crypto_crc_init_def)

end

text \<open>An engine that computes the standard CRC-32.\<close>

definition std_engine :: crc_unit where
  "std_engine ty mode key data = foldl crc32_std_byte (word_reverse key) data"

interpretation std_crc: crc_engine std_engine
  by unfold_locales (simp add: std_engine_def reflect_word_reverse)

end
