(* ===== verification/Fwup.thy ===== *)
theory Fwup
  imports Crypto_Crc Flash_Fast Params
begin

text \<open>
  The firmware updater \<^verbatim>\<open>src/Platform/Common/fwup/wm_fwup.c\<close>: sessions, the queue of requests and the
  task that serves it. A session receives an image header of 56 bytes and the image itself in requests,
  writes the image with the buffered writer of the flash driver, checks its CRC against the header and
  then writes the header for the boot loader. The state holds the module's variables, the variables the
  task keeps between requests, the parameter manager (with the flash driver under it) and the wireless
  library behind \<open>wifi_ops\<close>, whose source is not part of the repository. The result \<open>None\<close> is undefined
  behaviour: a null or freed pointer, or a read past the end of a request.
\<close>

definition TLS_FWUP_STATUS_OK :: int where "TLS_FWUP_STATUS_OK = 0"
definition TLS_FWUP_STATUS_EINVALID :: int where "TLS_FWUP_STATUS_EINVALID = 1"
definition TLS_FWUP_STATUS_EMEM :: int where "TLS_FWUP_STATUS_EMEM = 2"
definition TLS_FWUP_STATUS_EPERM :: int where "TLS_FWUP_STATUS_EPERM = 3"
definition TLS_FWUP_STATUS_EBUSY :: int where "TLS_FWUP_STATUS_EBUSY = 4"
definition TLS_FWUP_STATUS_ESESSIONID :: int where "TLS_FWUP_STATUS_ESESSIONID = 5"
definition TLS_FWUP_STATUS_EIO :: int where "TLS_FWUP_STATUS_EIO = 6"
definition TLS_FWUP_STATUS_ESIGNATURE :: int where "TLS_FWUP_STATUS_ESIGNATURE = 7"
definition TLS_FWUP_STATUS_ECRC :: int where "TLS_FWUP_STATUS_ECRC = 8"
definition TLS_FWUP_STATUS_EUNDEF :: int where "TLS_FWUP_STATUS_EUNDEF = 9"

definition TLS_FWUP_REQ_STATUS_IDLE :: int where "TLS_FWUP_REQ_STATUS_IDLE = 0"
definition TLS_FWUP_REQ_STATUS_BUSY :: int where "TLS_FWUP_REQ_STATUS_BUSY = 1"
definition TLS_FWUP_REQ_STATUS_SUCCESS :: int where "TLS_FWUP_REQ_STATUS_SUCCESS = 2"
definition TLS_FWUP_REQ_STATUS_FIO :: int where "TLS_FWUP_REQ_STATUS_FIO = 3"
definition TLS_FWUP_REQ_STATUS_FSIGNATURE :: int where "TLS_FWUP_REQ_STATUS_FSIGNATURE = 4"
definition TLS_FWUP_REQ_STATUS_FMEM :: int where "TLS_FWUP_REQ_STATUS_FMEM = 5"
definition TLS_FWUP_REQ_STATUS_FCRC :: int where "TLS_FWUP_REQ_STATUS_FCRC = 6"
definition TLS_FWUP_REQ_STATUS_FCOMPLETE :: int where "TLS_FWUP_REQ_STATUS_FCOMPLETE = 7"

definition TLS_FWUP_STATE_UNDEF :: u16 where "TLS_FWUP_STATE_UNDEF = 0xffff"
definition TLS_FWUP_STATE_BUSY :: u16 where "TLS_FWUP_STATE_BUSY = 1"
definition TLS_FWUP_STATE_COMPLETE :: u16 where "TLS_FWUP_STATE_COMPLETE = 2"
definition TLS_FWUP_STATE_ERROR_IO :: u16 where "TLS_FWUP_STATE_ERROR_IO = 4"
definition TLS_FWUP_STATE_ERROR_SIGNATURE :: u16 where "TLS_FWUP_STATE_ERROR_SIGNATURE = 8"
definition TLS_FWUP_STATE_ERROR_MEM :: u16 where "TLS_FWUP_STATE_ERROR_MEM = 16"
definition TLS_FWUP_STATE_ERROR_CRC :: u16 where "TLS_FWUP_STATE_ERROR_CRC = 32"
definition TLS_FWUP_STATE_ERROR :: u16 where
  "TLS_FWUP_STATE_ERROR = TLS_FWUP_STATE_ERROR_IO OR TLS_FWUP_STATE_ERROR_SIGNATURE OR TLS_FWUP_STATE_ERROR_MEM
     OR TLS_FWUP_STATE_ERROR_CRC"

lemmas fwup_status_defs = TLS_FWUP_STATUS_OK_def TLS_FWUP_STATUS_EINVALID_def TLS_FWUP_STATUS_EMEM_def
  TLS_FWUP_STATUS_EPERM_def TLS_FWUP_STATUS_EBUSY_def TLS_FWUP_STATUS_ESESSIONID_def TLS_FWUP_STATUS_EIO_def
  TLS_FWUP_STATUS_ESIGNATURE_def TLS_FWUP_STATUS_ECRC_def TLS_FWUP_STATUS_EUNDEF_def
lemmas fwup_req_defs = TLS_FWUP_REQ_STATUS_IDLE_def TLS_FWUP_REQ_STATUS_BUSY_def TLS_FWUP_REQ_STATUS_SUCCESS_def
  TLS_FWUP_REQ_STATUS_FIO_def TLS_FWUP_REQ_STATUS_FSIGNATURE_def TLS_FWUP_REQ_STATUS_FMEM_def
  TLS_FWUP_REQ_STATUS_FCRC_def TLS_FWUP_REQ_STATUS_FCOMPLETE_def
lemmas fwup_state_defs = TLS_FWUP_STATE_UNDEF_def TLS_FWUP_STATE_BUSY_def TLS_FWUP_STATE_COMPLETE_def
  TLS_FWUP_STATE_ERROR_IO_def TLS_FWUP_STATE_ERROR_SIGNATURE_def TLS_FWUP_STATE_ERROR_MEM_def
  TLS_FWUP_STATE_ERROR_CRC_def TLS_FWUP_STATE_ERROR_def

definition FLASH_BASE_ADDR :: u32 where "FLASH_BASE_ADDR = 0x8000000"
definition CODE_UPD_HEADER_ADDR :: u32 where "CODE_UPD_HEADER_ADDR = 0x80FC000"
definition CODE_RUN_HEADER_ADDR :: u32 where "CODE_RUN_HEADER_ADDR = 0x8010000"
definition CODE_UPD_START_ADDR :: u32 where "CODE_UPD_START_ADDR = 0x8090000"
definition USER_ADDR_START :: u32 where "USER_ADDR_START = 0x80F0000"
definition SIGNATURE_WORD :: u32 where "SIGNATURE_WORD = 0xa0ffff9f"

lemmas fwup_addr_defs = FLASH_BASE_ADDR_def CODE_UPD_HEADER_ADDR_def CODE_RUN_HEADER_ADDR_def
  CODE_UPD_START_ADDR_def USER_ADDR_START_def SIGNATURE_WORD_def

section \<open>Data\<close>

datatype tls_fwup_image_src = TLS_FWUP_IMAGE_SRC_LUART | TLS_FWUP_IMAGE_SRC_HUART | TLS_FWUP_IMAGE_SRC_HSPI
  | TLS_FWUP_IMAGE_SRC_WEB

record tls_fwup =
  fw_busy :: bool
  current_image_src :: tls_fwup_image_src
  current_state :: u16
  current_session_id :: u32
  received_len :: u32
  total_len :: u32
  updated_len :: u32
  program_base :: u32
  program_offset :: u32
  received_number :: int

text \<open>\<^verbatim>\<open>tls_fwup_init\<close> frees the structure on its error paths but keeps the pointer.\<close>

datatype fwup_ptr = Null | Freed | Live tls_fwup

text \<open>\<open>rq_data\<close> is the memory behind the pointer, at least the bytes of the request.\<close>

record fwup_request =
  rq_data :: bytes
  data_len :: nat
  rq_status :: int

record 'w wifi_ops =
  get_oneshot :: "'w \<Rightarrow> u8"
  set_oneshot :: "u8 \<Rightarrow> 'w \<Rightarrow> 'w"
  get_auto :: "'w \<Rightarrow> u8"
  set_auto :: "u8 \<Rightarrow> 'w \<Rightarrow> 'w"
  set_psflag :: "u8 \<Rightarrow> 'w \<Rightarrow> 'w"

text \<open>Outcomes of the operating system's calls: semaphore, queue and task creation.\<close>

record os_result =
  sem_created :: bool
  queue_created :: bool
  task_created :: bool

record ('d, 'w) fwup_sys =
  fwup :: fwup_ptr
  wait_list :: "fwup_request list"
  completed :: "fwup_request list"
  fwup_msgs :: nat
  current_hdr :: "bytes option"
  oneshotback :: u8
  booter :: bytes
  org_checksum :: u32
  imgheader :: "bytes \<times> bytes"
  prm :: "'d fls params"
  wifi :: 'w
  rand_calls :: nat
  fw_allocs :: nat
  sys_resets :: nat

definition flash_of :: "('d, 'w) fwup_sys \<Rightarrow> 'd fls" where
  "flash_of s = dev (prm s)"

definition set_flash :: "'d fls \<Rightarrow> ('d, 'w) fwup_sys \<Rightarrow> ('d, 'w) fwup_sys" where
  "set_flash d s = s\<lparr>prm := (prm s)\<lparr>dev := d\<rparr>\<rparr>"

definition fw_alloc :: "allocator \<Rightarrow> nat \<Rightarrow> ('d, 'w) fwup_sys \<Rightarrow> bytes option \<times> ('d, 'w) fwup_sys" where
  "fw_alloc heap n s = (heap (fw_allocs s) n, s\<lparr>fw_allocs := Suc (fw_allocs s)\<rparr>)"

text \<open>The fields of \<^verbatim>\<open>T_BOOTER\<close>.\<close>

definition bt_magic_no :: "bytes \<Rightarrow> u32" where "bt_magic_no b = de32 (bslice 0 4 b)"
definition bt_img_type :: "bytes \<Rightarrow> u16" where "bt_img_type b = de16 (bslice 4 2 b)"
definition bt_upd_img_addr :: "bytes \<Rightarrow> u32" where "bt_upd_img_addr b = de32 (bslice 20 4 b)"
definition bt_upd_img_len :: "bytes \<Rightarrow> u32" where "bt_upd_img_len b = de32 (bslice 24 4 b)"
definition bt_upd_checksum :: "bytes \<Rightarrow> u32" where "bt_upd_checksum b = de32 (bslice 28 4 b)"
definition bt_upd_no :: "bytes \<Rightarrow> u32" where "bt_upd_no b = de32 (bslice 32 4 b)"
definition bt_hd_checksum :: "bytes \<Rightarrow> u32" where "bt_hd_checksum b = de32 (bslice 52 4 b)"

section \<open>Headers\<close>

definition header_words :: "bytes \<Rightarrow> bytes list" where
  "header_words b = map (\<lambda>i. bslice (4 * i) 4 b) [0..<13]"

definition tls_fwup_img_header_check :: "crc_unit \<Rightarrow> bytes \<Rightarrow> bool" where
  "tls_fwup_img_header_check hw b =
    (if bt_magic_no b \<noteq> SIGNATURE_WORD then False
     else if bt_img_type b = 2 then False
     else let ctx = foldl (\<lambda>c v. tls_crypto_crc_update hw v c) (tls_crypto_crc_init 0xFFFFFFFF 3 3) (header_words b);
              value = tls_crypto_crc_final ctx
     in bt_hd_checksum b = value \<and> (bt_upd_img_addr b OR FLASH_BASE_ADDR) + bt_upd_img_len b \<le> USER_ADDR_START
        \<and> (bt_upd_img_addr b OR FLASH_BASE_ADDR) \<ge> CODE_UPD_START_ADDR)"

definition tls_fwup_img_update_header ::
    "'d spi \<Rightarrow> allocator \<Rightarrow> crc_unit \<Rightarrow> ('d, 'w) fwup_sys \<Rightarrow> ('d, 'w) fwup_sys" where
  "tls_fwup_img_update_header spi heap hw s =
    (let (_, h0, d) = tls_fls_read spi heap CODE_RUN_HEADER_ADDR (Some (fst (imgheader s))) 56 (flash_of s);
         (_, h1, d) = tls_fls_read spi heap CODE_UPD_HEADER_ADDR (Some (snd (imgheader s))) 56 d;
         current = (if tls_fwup_img_header_check hw (the h1)
                    then (if bt_upd_no (the h1) > bt_upd_no (the h0) then the h1 else the h0) else the h0);
         img = bsplice 32 (le32 (bt_upd_no current + 1)) (booter s);
         ctx = tls_crypto_crc_update hw (take 52 img) (tls_crypto_crc_init 0xFFFFFFFF 3 3);
         img = bsplice 52 (le32 (tls_crypto_crc_final ctx)) img;
         (_, d) = tls_fls_write spi heap CODE_UPD_HEADER_ADDR (Some img) 56 d
     in set_flash d (s\<lparr>imgheader := (the h0, the h1), booter := img\<rparr>))"

section \<open>The task\<close>

definition fwup_update_autoflag :: "'w wifi_ops \<Rightarrow> 'w \<Rightarrow> 'w" where
  "fwup_update_autoflag W w = (if get_auto W w = 3 then set_auto W 1 w else w)"

text \<open>
  What a request goes through: either it is finished early with a status, or it goes on. The structure
  \<^verbatim>\<open>fwup\<close> is passed beside the rest of the state.
\<close>

datatype 'a flow = Finish 'a | Go 'a

text \<open>A request in a session that has failed or is complete.\<close>

definition discard_status :: "u16 \<Rightarrow> int \<Rightarrow> int" where
  "discard_status st old =
    (if st AND TLS_FWUP_STATE_ERROR_IO \<noteq> 0 then TLS_FWUP_REQ_STATUS_FIO
     else if st AND TLS_FWUP_STATE_ERROR_SIGNATURE \<noteq> 0 then TLS_FWUP_REQ_STATUS_FSIGNATURE
     else if st AND TLS_FWUP_STATE_ERROR_MEM \<noteq> 0 then TLS_FWUP_REQ_STATUS_FMEM
     else if st AND TLS_FWUP_STATE_ERROR_CRC \<noteq> 0 then TLS_FWUP_REQ_STATUS_FCRC else old)"

text \<open>The header at the start of a session: the task copies a whole header from wherever the request's bytes start.\<close>

definition take_header ::
    "crc_unit \<Rightarrow> fwup_request \<Rightarrow> tls_fwup \<Rightarrow> ('d, 'w) fwup_sys
     \<Rightarrow> (bytes \<times> fwup_request \<times> tls_fwup \<times> ('d, 'w) fwup_sys) flow option" where
  "take_header hw r f s =
    (let buffer = rq_data r
     in if received_len f < 56 then
          (let len = 56 - unat (received_len f);
               len = (if data_len r < len then data_len r else len)
           in if length buffer < 56 then None
              else let s = s\<lparr>booter := take 56 buffer\<rparr>; r = r\<lparr>data_len := data_len r - len\<rparr>;
                       buffer = drop len buffer; f = f\<lparr>received_len := received_len f + word_of_nat len\<rparr>
              in if received_len f = 56 then
                   (if \<not> tls_fwup_img_header_check hw (booter s) then
                      Some (Finish (buffer, r\<lparr>rq_status := TLS_FWUP_REQ_STATUS_FIO\<rparr>,
                        f\<lparr>current_state := current_state f OR TLS_FWUP_STATE_ERROR_IO\<rparr>, s))
                    else Some (Go (buffer, r,
                      f\<lparr>program_base := bt_upd_img_addr (booter s) OR FLASH_BASE_ADDR, total_len := bt_upd_img_len (booter s),
                        updated_len := 0, received_len := received_len f + word_of_nat (data_len r)\<rparr>,
                      s\<lparr>org_checksum := bt_upd_checksum (booter s)\<rparr>)))
                 else Some (Go (buffer, r, f\<lparr>received_len := received_len f + word_of_nat (data_len r)\<rparr>, s)))
        else Some (Go (buffer, r, f\<lparr>received_len := received_len f + word_of_nat (data_len r)\<rparr>, s)))"

text \<open>The check of the image in flash, 1024 bytes at a time; \<open>None\<close> is a failed read.\<close>

function verify_image ::
    "'d spi \<Rightarrow> allocator \<Rightarrow> crc_unit \<Rightarrow> u32 \<Rightarrow> u32 \<Rightarrow> nat \<Rightarrow> bytes \<Rightarrow> psCrcContext \<Rightarrow> 'd fls \<Rightarrow> psCrcContext option \<times> 'd fls" where
  "verify_image spi heap hw base offset left buffer ctx d =
    (if left = 0 then (Some ctx, d)
     else let len = (if left > 1024 then 1024 else left);
              (err, b, d) = tls_fls_read spi heap (base + offset) (Some buffer) len d
     in if err \<noteq> TLS_FLS_STATUS_OK then (None, d)
        else verify_image spi heap hw base (offset + word_of_nat len) (left - len) (the b)
               (tls_crypto_crc_update hw (take len (the b)) ctx) d)"
  by pat_completeness auto
termination
  by (relation "measure (\<lambda>(spi, heap, hw, base, offset, left, buffer, ctx, d). left)") auto

declare verify_image.simps [simp del]

text \<open>The end of the image: close the writer, check the CRC, write the header.\<close>

definition finish_image ::
    "'d spi \<Rightarrow> allocator \<Rightarrow> crc_unit \<Rightarrow> 'w wifi_ops \<Rightarrow> fwup_request \<Rightarrow> tls_fwup \<Rightarrow> ('d, 'w) fwup_sys
     \<Rightarrow> (fwup_request \<times> tls_fwup \<times> ('d, 'w) fwup_sys) flow option" where
  "finish_image spi heap hw W r f s =
    (case tls_fls_fast_write_destroy spi (flash_of s) of None \<Rightarrow> None
     | Some d \<Rightarrow>
        (let s = set_flash d s; (blk, s) = fw_alloc heap 1024 s
         in case blk of
              None \<Rightarrow> Some (Finish (r\<lparr>rq_status := TLS_FWUP_REQ_STATUS_FMEM\<rparr>,
                        f\<lparr>current_state := current_state f OR TLS_FWUP_STATE_ERROR_MEM\<rparr>, s))
            | Some buffer \<Rightarrow>
               (let (res, d) = verify_image spi heap hw (program_base f) 0 (unat (total_len f)) buffer
                                 (tls_crypto_crc_init 0xFFFFFFFF 3 3) (flash_of s);
                    s = set_flash d s
                in case res of
                     None \<Rightarrow> Some (Finish (r\<lparr>rq_status := TLS_FWUP_REQ_STATUS_FIO\<rparr>,
                               f\<lparr>current_state := current_state f OR TLS_FWUP_STATE_ERROR_IO\<rparr>, s))
                   | Some ctx \<Rightarrow>
                      (if org_checksum s \<noteq> tls_crypto_crc_final ctx then
                         Some (Finish (r\<lparr>rq_status := TLS_FWUP_REQ_STATUS_FCRC\<rparr>,
                           f\<lparr>current_state := current_state f OR TLS_FWUP_STATE_ERROR_CRC\<rparr>, s))
                       else let s = tls_fwup_img_update_header spi heap hw s;
                                f = f\<lparr>current_state := current_state f OR TLS_FWUP_STATE_COMPLETE\<rparr>;
                                s = (if oneshotback s = 1 then s\<lparr>wifi := set_oneshot W (oneshotback s) (wifi s)\<rparr> else s)
                       in Some (Go (r, f, s))))))"

text \<open>The bytes of a request that belong to the image.\<close>

definition write_image ::
    "'d spi \<Rightarrow> allocator \<Rightarrow> crc_unit \<Rightarrow> 'w wifi_ops \<Rightarrow> bytes \<Rightarrow> fwup_request \<Rightarrow> tls_fwup \<Rightarrow> ('d, 'w) fwup_sys
     \<Rightarrow> (fwup_request \<times> tls_fwup \<times> ('d, 'w) fwup_sys) flow option" where
  "write_image spi heap hw W buffer r f s =
    (if data_len r = 0 then Some (Go (r, f, s))
     else if length buffer < data_len r then None
     else case tls_fls_fast_write spi (program_base f + program_offset f) (Some buffer) (data_len r) (flash_of s) of
       None \<Rightarrow> None
     | Some (err, d) \<Rightarrow>
        (let s = set_flash d s
         in if err \<noteq> TLS_FLS_STATUS_OK then
              Some (Finish (r\<lparr>rq_status := TLS_FWUP_REQ_STATUS_FIO\<rparr>,
                f\<lparr>current_state := current_state f OR TLS_FWUP_STATE_ERROR_IO\<rparr>, s))
            else let f = f\<lparr>program_offset := program_offset f + word_of_nat (data_len r),
                           updated_len := updated_len f + word_of_nat (data_len r)\<rparr>
            in if updated_len f \<ge> total_len f then finish_image spi heap hw W r f s
               else Some (Go (r, f, s))))"

definition serve_request ::
    "'d spi \<Rightarrow> allocator \<Rightarrow> crc_unit \<Rightarrow> 'w wifi_ops \<Rightarrow> fwup_request \<Rightarrow> tls_fwup \<Rightarrow> ('d, 'w) fwup_sys
     \<Rightarrow> (fwup_request \<times> tls_fwup \<times> ('d, 'w) fwup_sys) option" where
  "serve_request spi heap hw W r f s =
    (let r = r\<lparr>rq_status := TLS_FWUP_REQ_STATUS_BUSY\<rparr>
     in if current_state f AND TLS_FWUP_STATE_ERROR \<noteq> 0 then
          Some (r\<lparr>rq_status := discard_status (current_state f) (rq_status r)\<rparr>, f, s)
        else if current_state f AND TLS_FWUP_STATE_COMPLETE \<noteq> 0 then
          Some (r\<lparr>rq_status := TLS_FWUP_REQ_STATUS_FCOMPLETE\<rparr>, f, s)
        else case take_header hw r f s of
          None \<Rightarrow> None
        | Some (Finish (_, r, f, s)) \<Rightarrow> Some (r, f, s)
        | Some (Go (buffer, r, f, s)) \<Rightarrow>
           (case write_image spi heap hw W buffer r f s of
              None \<Rightarrow> None
            | Some (Finish x) \<Rightarrow> Some x
            | Some (Go (r, f, s)) \<Rightarrow> Some (r\<lparr>rq_status := TLS_FWUP_REQ_STATUS_SUCCESS\<rparr>, f, s)))"

text \<open>
  The label \<^verbatim>\<open>request_finish\<close>: the request leaves the list, its callback runs, and the system is reset
  when as much has been written as the header announced.
\<close>

definition request_finish ::
    "'w wifi_ops \<Rightarrow> fwup_request \<Rightarrow> tls_fwup \<Rightarrow> ('d, 'w) fwup_sys \<Rightarrow> tls_fwup \<times> ('d, 'w) fwup_sys" where
  "request_finish W r f s =
    (let s = s\<lparr>wait_list := tl (wait_list s)\<rparr>;
         f = (if wait_list s = [] then f\<lparr>current_state := current_state f AND NOT TLS_FWUP_STATE_BUSY\<rparr> else f);
         s = s\<lparr>completed := completed s @ [r]\<rparr>;
         s = (if updated_len f \<ge> total_len f
              then s\<lparr>wifi := fwup_update_autoflag W (wifi s), sys_resets := Suc (sys_resets s)\<rparr> else s)
     in (f, s))"

text \<open>The loop over the waiting requests. A reset is counted, and the loop goes on until it takes effect.\<close>

fun serve_list ::
    "'d spi \<Rightarrow> allocator \<Rightarrow> crc_unit \<Rightarrow> 'w wifi_ops \<Rightarrow> fwup_request list \<Rightarrow> tls_fwup \<Rightarrow> ('d, 'w) fwup_sys
     \<Rightarrow> (tls_fwup \<times> ('d, 'w) fwup_sys) option" where
  "serve_list spi heap hw W [] f s = Some (f, s)"
| "serve_list spi heap hw W (r # rs) f s =
    (case serve_request spi heap hw W r f s of None \<Rightarrow> None
     | Some (r, f, s) \<Rightarrow> (case request_finish W r f s of (f, s) \<Rightarrow> serve_list spi heap hw W rs f s))"

text \<open>One message of the task's queue: all requests waiting are served.\<close>

definition fwup_scheduler ::
    "'d spi \<Rightarrow> allocator \<Rightarrow> crc_unit \<Rightarrow> 'w wifi_ops \<Rightarrow> ('d, 'w) fwup_sys \<Rightarrow> ('d, 'w) fwup_sys option" where
  "fwup_scheduler spi heap hw W s =
    (if fwup_msgs s = 0 then Some s
     else let s = s\<lparr>fwup_msgs := fwup_msgs s - 1\<rparr>
     in case fwup s of
          Live f \<Rightarrow>
           (let f = (if wait_list s \<noteq> [] then f\<lparr>current_state := current_state f OR TLS_FWUP_STATE_BUSY\<rparr> else f)
            in map_option (\<lambda>(f, s). s\<lparr>fwup := Live f\<rparr>) (serve_list spi heap hw W (wait_list s) f s))
        | _ \<Rightarrow> None)"

section \<open>Sessions\<close>

definition fresh_fwup :: tls_fwup where
  "fresh_fwup = \<lparr>fw_busy = False, current_image_src = TLS_FWUP_IMAGE_SRC_LUART, current_state = 0, current_session_id = 0,
     received_len = 0, total_len = 0, updated_len = 0, program_base = 0, program_offset = 0, received_number = 0\<rparr>"

definition tls_fwup_init :: "allocator \<Rightarrow> os_result \<Rightarrow> ('d, 'w) fwup_sys \<Rightarrow> int \<times> ('d, 'w) fwup_sys" where
  "tls_fwup_init heap os s =
    (if fwup s \<noteq> Null then (TLS_FWUP_STATUS_EBUSY, s)
     else let (blk, s) = fw_alloc heap 52 s
     in if blk = None then (TLS_FWUP_STATUS_EMEM, s)
        else if \<not> sem_created os then (TLS_FWUP_STATUS_EMEM, s\<lparr>fwup := Freed\<rparr>)
        else let s = s\<lparr>wait_list := []\<rparr>
        in if \<not> queue_created os then (TLS_FWUP_STATUS_EMEM, s\<lparr>fwup := Freed\<rparr>)
           else if \<not> task_created os then (TLS_FWUP_STATUS_EMEM, s\<lparr>fwup := Freed\<rparr>)
           else (TLS_FWUP_STATUS_OK, s\<lparr>fwup := Live fresh_fwup, fwup_msgs := 0\<rparr>))"

text \<open>
  \<^verbatim>\<open>rand\<close> is the C library's: the \<open>k\<close>-th call returns \<open>rnd k\<close>. The loop draws until the number is not
  zero; a generator that only returns zero makes it run forever.
\<close>

partial_function (option) session_loop :: "(nat \<Rightarrow> u32) \<Rightarrow> nat \<Rightarrow> (u32 \<times> nat) option" where
  "session_loop rnd k = (if rnd k = 0 then session_loop rnd (Suc k) else Some (rnd k, Suc k))"

text \<open>The power-save parameter as \<^verbatim>\<open>tls_param_get(TLS_PARAM_ID_PSM, &enable, TRUE)\<close> returns it.\<close>

definition psm_enabled :: "param_cfg \<Rightarrow> ('d, 'w) fwup_sys \<Rightarrow> u8" where
  "psm_enabled cfg s = (case tls_param_get cfg 22 (Some [0]) True (prm s) of
      Some (_, Some b, _) \<Rightarrow> b ! 0 | _ \<Rightarrow> 0)"

definition clear_session :: "tls_fwup \<Rightarrow> tls_fwup" where
  "clear_session f = f\<lparr>current_state := 0, received_len := 0, total_len := 0, updated_len := 0, program_base := 0,
     program_offset := 0\<rparr>"

definition tls_fwup_enter ::
    "param_cfg \<Rightarrow> allocator \<Rightarrow> os_result \<Rightarrow> 'w wifi_ops \<Rightarrow> (nat \<Rightarrow> u32) \<Rightarrow> tls_fwup_image_src \<Rightarrow> ('d, 'w) fwup_sys
     \<Rightarrow> (u32 \<times> ('d, 'w) fwup_sys) option" where
  "tls_fwup_enter cfg heap os W rnd image_src s =
    (let (_, s) = tls_fwup_init heap os s
     in case fwup s of
          Null \<Rightarrow> Some (0, s)
        | Freed \<Rightarrow> None
        | Live f \<Rightarrow>
           (if fw_busy f then Some (0, s)
            else case session_loop rnd (rand_calls s) of None \<Rightarrow> None
            | Some (session_id, k) \<Rightarrow>
               (let (hdr, s) = fw_alloc heap 16 (s\<lparr>rand_calls := k\<rparr>);
                    f = (clear_session f)\<lparr>current_image_src := image_src, received_number := - 1,
                          current_session_id := session_id, fw_busy := True\<rparr>;
                    s = s\<lparr>current_hdr := map_option (\<lambda>_. replicate 16 0) hdr, fwup := Live f, oneshotback := get_oneshot W (wifi s)\<rparr>;
                    s = (if oneshotback s = 1 then s\<lparr>wifi := set_oneshot W 0 (wifi s)\<rparr> else s);
                    s = (if psm_enabled cfg s = 1 then s\<lparr>wifi := set_psflag W 0 (wifi s)\<rparr> else s);
                    (_, d) = tls_fls_fast_write_init heap (flash_of s)
                in Some (session_id, set_flash d s))))"

definition tls_fwup_exit ::
    "param_cfg \<Rightarrow> 'w wifi_ops \<Rightarrow> u32 \<Rightarrow> ('d, 'w) fwup_sys \<Rightarrow> (int \<times> ('d, 'w) fwup_sys) option" where
  "tls_fwup_exit cfg W session_id s =
    (case fwup s of
       Null \<Rightarrow> Some (TLS_FWUP_STATUS_EPERM, s)
     | Freed \<Rightarrow> None
     | Live f \<Rightarrow>
        (if \<not> fw_busy f then Some (TLS_FWUP_STATUS_EPERM, s)
         else if session_id \<noteq> current_session_id f then Some (TLS_FWUP_STATUS_ESESSIONID, s)
         else if current_state f AND TLS_FWUP_STATE_BUSY \<noteq> 0 then Some (TLS_FWUP_STATUS_EBUSY, s)
         else let f = (clear_session f)\<lparr>received_number := - 1, current_session_id := 0, fw_busy := False\<rparr>;
                  s = s\<lparr>current_hdr := map_option (\<lambda>_. replicate 16 0) (current_hdr s), fwup := Live f\<rparr>;
                  s = (if oneshotback s = 1 then s\<lparr>wifi := set_oneshot W (oneshotback s) (wifi s)\<rparr> else s);
                  s = s\<lparr>wifi := set_psflag W (psm_enabled cfg s) (wifi s)\<rparr>
         in Some (TLS_FWUP_STATUS_OK, s)))"

definition tls_fwup_get_current_session_id :: "('d, 'w) fwup_sys \<Rightarrow> u32 option" where
  "tls_fwup_get_current_session_id s = (case fwup s of Null \<Rightarrow> Some 0 | Freed \<Rightarrow> None | Live f \<Rightarrow> Some (current_session_id f))"

definition tls_fwup_set_update_numer :: "int \<Rightarrow> ('d, 'w) fwup_sys \<Rightarrow> (int \<times> ('d, 'w) fwup_sys) option" where
  "tls_fwup_set_update_numer number s =
    (case fwup s of Live f \<Rightarrow>
       (if wrap_s32 (number - received_number f) = 1 then Some (TLS_FWUP_STATUS_OK, s\<lparr>fwup := Live (f\<lparr>received_number := number\<rparr>)\<rparr>)
        else Some (uint TLS_FWUP_STATE_UNDEF, s))
     | _ \<Rightarrow> None)"

definition tls_fwup_get_current_update_numer :: "('d, 'w) fwup_sys \<Rightarrow> int option" where
  "tls_fwup_get_current_update_numer s = (case fwup s of Live f \<Rightarrow> Some (received_number f) | _ \<Rightarrow> None)"

definition tls_fwup_get_status :: "('d, 'w) fwup_sys \<Rightarrow> bool option" where
  "tls_fwup_get_status s = (case fwup s of Live f \<Rightarrow> Some (fw_busy f) | _ \<Rightarrow> None)"

definition tls_fwup_set_crc_error :: "u32 \<Rightarrow> ('d, 'w) fwup_sys \<Rightarrow> (int \<times> ('d, 'w) fwup_sys) option" where
  "tls_fwup_set_crc_error session_id s =
    (case fwup s of
       Null \<Rightarrow> Some (TLS_FWUP_STATUS_EPERM, s)
     | Freed \<Rightarrow> None
     | Live f \<Rightarrow>
        (if session_id \<noteq> current_session_id f then Some (TLS_FWUP_STATUS_ESESSIONID, s)
         else Some (TLS_FWUP_STATUS_OK, s\<lparr>fwup := Live (f\<lparr>current_state := current_state f OR TLS_FWUP_STATE_ERROR_CRC\<rparr>)\<rparr>)))"

definition tls_fwup_request_async ::
    "u32 \<Rightarrow> bytes option \<Rightarrow> nat \<Rightarrow> ('d, 'w) fwup_sys \<Rightarrow> (int \<times> ('d, 'w) fwup_sys) option" where
  "tls_fwup_request_async session_id data len s =
    (case fwup s of
       Null \<Rightarrow> Some (TLS_FWUP_STATUS_EPERM, s)
     | Freed \<Rightarrow> None
     | Live f \<Rightarrow>
        (if session_id \<noteq> current_session_id f then Some (TLS_FWUP_STATUS_ESESSIONID, s)
         else case data of
           None \<Rightarrow> Some (TLS_FWUP_STATUS_EINVALID, s)
         | Some b \<Rightarrow>
            (if len = 0 then Some (TLS_FWUP_STATUS_EINVALID, s)
             else let need_sched = (wait_list s = []);
                      s = s\<lparr>wait_list := wait_list s @ [\<lparr>rq_data = b, data_len = len, rq_status = TLS_FWUP_REQ_STATUS_IDLE\<rparr>]\<rparr>
             in Some (TLS_FWUP_STATUS_OK, if need_sched then s\<lparr>fwup_msgs := fwup_msgs s + 1\<rparr> else s))))"

definition request_result :: "int \<Rightarrow> int" where
  "request_result st =
    (if st = TLS_FWUP_REQ_STATUS_SUCCESS then TLS_FWUP_STATUS_OK
     else if st = TLS_FWUP_REQ_STATUS_FIO then TLS_FWUP_STATUS_EIO
     else if st = TLS_FWUP_REQ_STATUS_FSIGNATURE then TLS_FWUP_STATUS_ESIGNATURE
     else if st = TLS_FWUP_REQ_STATUS_FMEM then TLS_FWUP_STATUS_EMEM
     else if st = TLS_FWUP_REQ_STATUS_FCRC then TLS_FWUP_STATUS_ECRC
     else if st = TLS_FWUP_REQ_STATUS_FCOMPLETE then TLS_FWUP_STATUS_EIO
     else TLS_FWUP_STATUS_EUNDEF)"

text \<open>The caller waits for the task: between queueing and the result the task serves its queue.\<close>

definition tls_fwup_request_sync ::
    "'d spi \<Rightarrow> allocator \<Rightarrow> crc_unit \<Rightarrow> 'w wifi_ops \<Rightarrow> bool \<Rightarrow> u32 \<Rightarrow> bytes option \<Rightarrow> nat \<Rightarrow> ('d, 'w) fwup_sys
     \<Rightarrow> (int \<times> ('d, 'w) fwup_sys) option" where
  "tls_fwup_request_sync spi heap hw W sem_ok session_id data len s =
    (case fwup s of
       Null \<Rightarrow> Some (TLS_FWUP_STATUS_EPERM, s)
     | Freed \<Rightarrow> None
     | Live f \<Rightarrow>
        (if session_id \<noteq> current_session_id f then Some (TLS_FWUP_STATUS_ESESSIONID, s)
         else if data = None \<or> len = 0 then Some (TLS_FWUP_STATUS_EINVALID, s)
         else if \<not> sem_ok then Some (TLS_FWUP_STATUS_EMEM, s)
         else case tls_fwup_request_async session_id data len s of None \<Rightarrow> None
         | Some (_, s) \<Rightarrow>
            (case fwup_scheduler spi heap hw W s of None \<Rightarrow> None
             | Some s \<Rightarrow> Some (request_result (rq_status (last (completed s))), s))))"

definition tls_fwup_current_state :: "u32 \<Rightarrow> ('d, 'w) fwup_sys \<Rightarrow> u16 option" where
  "tls_fwup_current_state session_id s =
    (case fwup s of Null \<Rightarrow> Some TLS_FWUP_STATE_UNDEF | Freed \<Rightarrow> None
     | Live f \<Rightarrow> Some (if session_id \<noteq> current_session_id f then TLS_FWUP_STATE_UNDEF else current_state f))"

definition tls_fwup_reset :: "u32 \<Rightarrow> ('d, 'w) fwup_sys \<Rightarrow> (int \<times> ('d, 'w) fwup_sys) option" where
  "tls_fwup_reset session_id s =
    (case fwup s of
       Null \<Rightarrow> Some (TLS_FWUP_STATUS_EPERM, s)
     | Freed \<Rightarrow> None
     | Live f \<Rightarrow>
        (if \<not> fw_busy f then Some (TLS_FWUP_STATUS_EPERM, s)
         else if session_id \<noteq> current_session_id f then Some (TLS_FWUP_STATUS_ESESSIONID, s)
         else if current_state f AND TLS_FWUP_STATE_BUSY \<noteq> 0 then Some (TLS_FWUP_STATUS_EBUSY, s)
         else Some (TLS_FWUP_STATUS_OK,
           s\<lparr>current_hdr := map_option (\<lambda>_. replicate 16 0) (current_hdr s), fwup := Live (clear_session f)\<rparr>)))"

definition tls_fwup_clear_error :: "u32 \<Rightarrow> ('d, 'w) fwup_sys \<Rightarrow> (int \<times> ('d, 'w) fwup_sys) option" where
  "tls_fwup_clear_error session_id s =
    (case fwup s of
       Null \<Rightarrow> Some (TLS_FWUP_STATUS_EPERM, s)
     | Freed \<Rightarrow> None
     | Live f \<Rightarrow>
        (if \<not> fw_busy f then Some (TLS_FWUP_STATUS_EPERM, s)
         else if session_id \<noteq> current_session_id f then Some (TLS_FWUP_STATUS_ESESSIONID, s)
         else if current_state f AND TLS_FWUP_STATE_BUSY \<noteq> 0 then Some (TLS_FWUP_STATUS_EBUSY, s)
         else Some (TLS_FWUP_STATUS_OK, s\<lparr>fwup := Live (f\<lparr>current_state := current_state f AND NOT TLS_FWUP_STATE_ERROR\<rparr>)\<rparr>)))"

end
