(* ===== verification/Fwup_Correct.thy ===== *)
theory Fwup_Correct
  imports Fwup
begin

text \<open>
  Correctness of the firmware updater over the flash driver and the CRC engine. The locale
  \<open>fwup_platform\<close> joins the contracts of both. The predicate \<open>receiving\<close> is the abstract state of a
  session: the prefix of the image that has arrived; every request is shown to append its bytes to the
  prefix, and the last one to check the image and to install or refuse it.
\<close>

section \<open>Headers\<close>

definition header_crc :: "crc_unit \<Rightarrow> bytes \<Rightarrow> u32" where
  "header_crc hw b = hw 3 3 (Reflect 0xFFFFFFFF 32) (take 52 b)"

definition image_crc :: "crc_unit \<Rightarrow> bytes \<Rightarrow> u32" where
  "image_crc hw b = hw 3 3 (Reflect 0xFFFFFFFF 32) b"

lemma concat_words: "4 * n \<le> length b \<Longrightarrow> concat (map (\<lambda>i. bslice (4 * i) 4 b) [0..<n]) = take (4 * n) b"
proof (induction n)
  case (Suc n)
  then have "concat (map (\<lambda>i. bslice (4 * i) 4 b) [0..<Suc n]) = take (4 * n) b @ bslice (4 * n) 4 b" by simp
  also have "\<dots> = take (4 * n + 4) b" by (simp only: bslice_def take_add)
  finally show ?case by (simp add: add.commute)
qed simp

lemma header_words_concat: "length b = 56 \<Longrightarrow> concat (header_words b) = take 52 b"
  using concat_words [of 13 b] by (simp add: header_words_def)

text \<open>The header with a new number and checksum.\<close>

definition stamp_header :: "crc_unit \<Rightarrow> u32 \<Rightarrow> bytes \<Rightarrow> bytes" where
  "stamp_header hw n b = (let b = bsplice 32 (le32 n) b in bsplice 52 (le32 (header_crc hw b)) b)"

text \<open>The number of the new header: one more than that of the header in use.\<close>

definition next_upd_no :: "crc_unit \<Rightarrow> (nat \<Rightarrow> u8) \<Rightarrow> u32" where
  "next_upd_no hw m = (let h0 = mem_bytes m 0x10000 56; h1 = mem_bytes m 0xFC000 56
     in bt_upd_no (if tls_fwup_img_header_check hw h1 then (if bt_upd_no h1 > bt_upd_no h0 then h1 else h0) else h0) + 1)"

context crc_engine
begin

lemma header_check_iff:
  assumes "length b = 56"
  shows "tls_fwup_img_header_check hw b \<longleftrightarrow> bt_magic_no b = SIGNATURE_WORD \<and> bt_img_type b \<noteq> 2
    \<and> bt_hd_checksum b = header_crc hw b \<and> (bt_upd_img_addr b OR FLASH_BASE_ADDR) + bt_upd_img_len b \<le> USER_ADDR_START
    \<and> CODE_UPD_START_ADDR \<le> (bt_upd_img_addr b OR FLASH_BASE_ADDR)"
proof -
  have "crc_state (foldl (\<lambda>c v. tls_crypto_crc_update hw v c) (tls_crypto_crc_init 0xFFFFFFFF 3 3) (header_words b)) = header_crc hw b"
    by (subst update_blocks) (auto simp: header_words_concat [OF assms] header_crc_def, auto simp: header_words_def)
  then show ?thesis by (simp add: tls_fwup_img_header_check_def tls_crypto_crc_final_def Let_def)
qed

text \<open>Numbering a header keeps all fields the check reads and makes its checksum right.\<close>

lemma stamp_header_fields:
  assumes "length b = 56"
  shows "length (stamp_header hw n b) = 56" "bt_magic_no (stamp_header hw n b) = bt_magic_no b"
    "bt_img_type (stamp_header hw n b) = bt_img_type b" "bt_upd_img_addr (stamp_header hw n b) = bt_upd_img_addr b"
    "bt_upd_img_len (stamp_header hw n b) = bt_upd_img_len b" "bt_upd_checksum (stamp_header hw n b) = bt_upd_checksum b"
    "bt_upd_no (stamp_header hw n b) = n" "bt_hd_checksum (stamp_header hw n b) = header_crc hw (stamp_header hw n b)"
proof -
  have "take 52 (stamp_header hw n b) = take 52 (bsplice 32 (le32 n) b)"
    using assms by (simp add: stamp_header_def Let_def bsplice_def [of 52])
  then have "header_crc hw (stamp_header hw n b) = header_crc hw (bsplice 32 (le32 n) b)" by (simp add: header_crc_def)
  then show "bt_hd_checksum (stamp_header hw n b) = header_crc hw (stamp_header hw n b)"
    using assms by (simp add: stamp_header_def Let_def bt_hd_checksum_def c_mem)
qed (use assms in \<open>simp_all add: stamp_header_def Let_def bt_magic_no_def bt_img_type_def bt_upd_img_addr_def
  bt_upd_img_len_def bt_upd_no_def bt_upd_checksum_def c_mem\<close>)

lemma stamp_header_check:
  assumes "length b = 56"
  shows "tls_fwup_img_header_check hw (stamp_header hw n b) \<longleftrightarrow> bt_magic_no b = SIGNATURE_WORD \<and> bt_img_type b \<noteq> 2
    \<and> (bt_upd_img_addr b OR FLASH_BASE_ADDR) + bt_upd_img_len b \<le> USER_ADDR_START
    \<and> CODE_UPD_START_ADDR \<le> (bt_upd_img_addr b OR FLASH_BASE_ADDR)"
  using header_check_iff [OF stamp_header_fields(1) [OF assms], of n] stamp_header_fields [OF assms] by simp

lemma stamp_header_ok:
  "length b = 56 \<Longrightarrow> tls_fwup_img_header_check hw b \<Longrightarrow> tls_fwup_img_header_check hw (stamp_header hw n b)"
  using stamp_header_check header_check_iff by blast

end

section \<open>One request at a time\<close>

text \<open>The buffered writer does not look behind the bytes it is to write.\<close>

lemma fast_write_loop_junk: "n \<le> length b \<Longrightarrow> fast_write_loop spi off (b @ j) n d = fast_write_loop spi off b n d"
proof (induction spi off b n d rule: fast_write_loop.induct)
  case (1 spi off b n d)
  show ?case
  proof (cases "n = 0 \<or> gsflscache d = None")
    case True
    then show ?thesis by (auto simp: fast_write_loop.simps [of spi off _ n d])
  next
    case False
    then obtain cache where c: "gsflscache d = Some cache" by auto
    define len where "len = (if n > 0x1000 - off then 0x1000 - off else n)"
    define d1 where "d1 = d\<lparr>gsflscache := Some (bsplice off (take len b) cache)\<rparr>"
    define d2 where "d2 = (if off + len \<ge> 0x1000 then map_option (\<lambda>s. s\<lparr>gsSector := gsSector s + 1\<rparr>) (tls_fls_flush_sector spi d1) else Some d1)"
    have len: "len \<le> n" "len \<le> length b" using "1.prems" by (auto simp: len_def)
    have "fast_write_loop spi off xs n d = (case d2 of None \<Rightarrow> None | Some s \<Rightarrow> fast_write_loop spi 0 ys (n - len) s)"
      if "take len xs = take len b" "drop len xs = ys" for xs ys
      unfolding fast_write_loop.simps [of spi off xs n d] Let_def len_def [symmetric] that
      using False c by (simp add: d1_def d2_def)
    then have "fast_write_loop spi off (b @ j) n d = (case d2 of None \<Rightarrow> None | Some s \<Rightarrow> fast_write_loop spi 0 (drop len b @ j) (n - len) s)"
      "fast_write_loop spi off b n d = (case d2 of None \<Rightarrow> None | Some s \<Rightarrow> fast_write_loop spi 0 (drop len b) (n - len) s)"
      using len by simp_all
    moreover have "fast_write_loop spi 0 (drop len b @ j) (n - len) s = fast_write_loop spi 0 (drop len b) (n - len) s" if "d2 = Some s" for s
      using "1.IH" [OF _ c refl len_def d1_def] that False len "1.prems" by (simp add: d2_def)
    ultimately show ?thesis by (simp split: option.splits)
  qed
qed

lemma fast_write_junk:
  "tls_fls_fast_write spi addr (Some (b @ j)) (length b) d = tls_fls_fast_write spi addr (Some b) (length b) d"
  unfolding tls_fls_fast_write_def option.case fast_write_loop_junk [OF order_refl] ..

text \<open>A request for the bytes \<open>b\<close>, with \<open>j\<close> behind them in memory.\<close>

definition new_request :: "bytes \<Rightarrow> bytes \<Rightarrow> fwup_request" where
  "new_request b j = \<lparr>rq_data = b @ j, data_len = length b, rq_status = TLS_FWUP_REQ_STATUS_IDLE\<rparr>"

text \<open>The state after the only waiting request has been served with the outcome \<open>r\<close>, \<open>f\<close>, \<open>s\<close>.\<close>

definition after_request :: "'w wifi_ops \<Rightarrow> fwup_request \<Rightarrow> tls_fwup \<Rightarrow> ('d, 'w) fwup_sys \<Rightarrow> ('d, 'w) fwup_sys" where
  "after_request W r f s =
    (let s = s\<lparr>wait_list := [], completed := completed s @ [r]\<rparr>;
         f = f\<lparr>current_state := current_state f AND NOT TLS_FWUP_STATE_BUSY\<rparr>;
         s = (if updated_len f \<ge> total_len f
              then s\<lparr>wifi := fwup_update_autoflag W (wifi s), sys_resets := Suc (sys_resets s)\<rparr> else s)
     in s\<lparr>fwup := Live f\<rparr>)"

lemma sync_serves:
  assumes "fwup s = Live f" "current_session_id f = sid" "wait_list s = []" "fwup_msgs s = 0" "b \<noteq> []"
    and "serve_request spi heap hw W (new_request b j) (f\<lparr>current_state := current_state f OR TLS_FWUP_STATE_BUSY\<rparr>)
          (s\<lparr>wait_list := [new_request b j]\<rparr>) = Some (r, f', s')" "wait_list s' = [new_request b j]"
  shows "tls_fwup_request_sync spi heap hw W True sid (Some (b @ j)) (length b) s
    = Some (request_result (rq_status r), after_request W r f' s')"
proof -
  have "s\<lparr>wait_list := [new_request b j], fwup_msgs := 0\<rparr> = s\<lparr>wait_list := [new_request b j]\<rparr>"
    using assms(4) by (cases s) simp
  then have "serve_request spi heap hw W (new_request b j) (f\<lparr>current_state := current_state f OR TLS_FWUP_STATE_BUSY\<rparr>)
      (s\<lparr>wait_list := [new_request b j], fwup_msgs := 0\<rparr>) = Some (r, f', s')"
    using assms(6) by (simp only:)
  then have "fwup_scheduler spi heap hw W (s\<lparr>wait_list := [new_request b j], fwup_msgs := 1\<rparr>) = Some (after_request W r f' s')"
    using assms(1-5,7) by (simp add: fwup_scheduler_def request_finish_def after_request_def Let_def)
  moreover have "completed (after_request W r f' s') = completed s' @ [r]"
    by (simp add: after_request_def Let_def)
  ultimately show ?thesis
    using assms(1-5) by (simp add: tls_fwup_request_sync_def tls_fwup_request_async_def new_request_def)
qed

text \<open>Requests sent one after the other, with their results.\<close>

fun send_all ::
    "'d spi \<Rightarrow> allocator \<Rightarrow> crc_unit \<Rightarrow> 'w wifi_ops \<Rightarrow> u32 \<Rightarrow> bytes list \<Rightarrow> ('d, 'w) fwup_sys \<Rightarrow> (int list \<times> ('d, 'w) fwup_sys) option" where
  "send_all spi heap hw W sid [] s = Some ([], s)"
| "send_all spi heap hw W sid (b # bs) s =
    (case tls_fwup_request_sync spi heap hw W True sid (Some b) (length b) s of None \<Rightarrow> None
     | Some (err, s) \<Rightarrow> map_option (\<lambda>(errs, s). (err # errs, s)) (send_all spi heap hw W sid bs s))"

lemma state_bits:
  "(0 OR TLS_FWUP_STATE_BUSY) AND TLS_FWUP_STATE_ERROR = 0" "(0 OR TLS_FWUP_STATE_BUSY) AND TLS_FWUP_STATE_COMPLETE = 0"
  "(0 OR TLS_FWUP_STATE_BUSY) AND NOT TLS_FWUP_STATE_BUSY = 0"
  "((0 OR TLS_FWUP_STATE_BUSY) OR TLS_FWUP_STATE_COMPLETE) AND NOT TLS_FWUP_STATE_BUSY = TLS_FWUP_STATE_COMPLETE"
  "((0 OR TLS_FWUP_STATE_BUSY) OR TLS_FWUP_STATE_ERROR_CRC) AND NOT TLS_FWUP_STATE_BUSY = TLS_FWUP_STATE_ERROR_CRC"
  by (simp_all add: fwup_state_defs)

lemma u32_of_nat_le: "a < 2 ^ 32 \<Longrightarrow> b < 2 ^ 32 \<Longrightarrow> (word_of_nat a :: u32) \<le> word_of_nat b \<longleftrightarrow> a \<le> b"
  by (simp add: word_le_nat_alt u32_unat_of_nat)

text \<open>The header part of a request: after the header has arrived, and with the header in front.\<close>

lemma take_header_later:
  assumes "received_len f = word_of_nat (56 + k)" "k < 2 ^ 31"
  shows "take_header hw r f s = Some (Go (rq_data r, r, f\<lparr>received_len := received_len f + word_of_nat (data_len r)\<rparr>, s))"
proof -
  have "unat (received_len f) = 56 + k" unfolding assms(1) using assms(2) by (intro u32_unat_of_nat) simp
  then have "\<not> received_len f < 56" by (simp add: word_less_nat_alt)
  then show ?thesis by (simp add: take_header_def)
qed

lemma take_header_first:
  assumes "received_len f = 0" "rq_data r = hdr @ c @ j" "data_len r = 56 + length c" "length hdr = 56"
    and "tls_fwup_img_header_check hw hdr"
  shows "take_header hw r f s = Some (Go (c @ j, r\<lparr>data_len := length c\<rparr>,
      f\<lparr>received_len := word_of_nat (56 + length c), program_base := bt_upd_img_addr hdr OR FLASH_BASE_ADDR,
        total_len := bt_upd_img_len hdr, updated_len := 0\<rparr>,
      s\<lparr>booter := hdr, org_checksum := bt_upd_checksum hdr\<rparr>))"
  using assms by (simp add: take_header_def Let_def)

text \<open>The layout: an update area that starts at a sector and ends before the user's area.\<close>

definition update_area :: "nat \<Rightarrow> nat \<Rightarrow> bool" where
  "update_area P N \<longleftrightarrow> 0x90000 \<le> P \<and> P mod 4096 = 0 \<and> P + N \<le> 0xF0000 \<and> 0 < N"

text \<open>A header for the image area \<open>P\<close>, \<open>N\<close>.\<close>

definition header_for :: "crc_unit \<Rightarrow> nat \<Rightarrow> nat \<Rightarrow> bytes \<Rightarrow> bool" where
  "header_for hw P N hdr \<longleftrightarrow> length hdr = 56 \<and> tls_fwup_img_header_check hw hdr \<and> bt_upd_img_addr hdr OR FLASH_BASE_ADDR = fw_addr P
     \<and> bt_upd_img_len hdr = word_of_nat N"

text \<open>What a finished update leaves alone, for an image that ends at \<open>Q\<close>.\<close>

definition outside_update :: "nat \<Rightarrow> nat \<Rightarrow> nat \<Rightarrow> bool" where
  "outside_update P Q i \<longleftrightarrow> i < P \<or> Q - Q mod 4096 + 4096 \<le> i \<and> (i < 0xFC000 \<or> 0xFC000 + 56 \<le> i)"

text \<open>A module that can open a session: no session, nothing waiting, the flash driver up and its buffered writer closed.\<close>

definition update_ready :: "('d \<Rightarrow> u32) \<Rightarrow> ('d, 'w) fwup_sys \<Rightarrow> bool" where
  "update_ready ident s \<longleftrightarrow> (fwup s = Null \<or> (\<exists>f. fwup s = Live f \<and> \<not> fw_busy f) \<and> wait_list s = [] \<and> fwup_msgs s = 0)
     \<and> length (fst (imgheader s)) = 56 \<and> length (snd (imgheader s)) = 56
     \<and> fls_ready (flash_of s) \<and> fls_capacity ident (flash_of s) = 2 ^ 20 \<and> gsflscache (flash_of s) = None \<and> gsSector (flash_of s) = 0"

text \<open>Opening a session once the module is there.\<close>

lemma enter_live:
  assumes "tls_fwup_init heap os s = (e, s0)" "fwup s0 = Live f" "\<not> fw_busy f" "session_loop rnd (rand_calls s0) = Some (sid, k)"
  shows "\<exists>w. tls_fwup_enter cfg heap os W rnd src s = Some (sid, set_flash (snd (tls_fls_fast_write_init heap (flash_of s0)))
    (s0\<lparr>rand_calls := k, fw_allocs := Suc (fw_allocs s0), current_hdr := map_option (\<lambda>_. replicate 16 0) (heap (fw_allocs s0) 16),
      fwup := Live ((clear_session f)\<lparr>current_image_src := src, received_number := - 1, current_session_id := sid, fw_busy := True\<rparr>),
      oneshotback := get_oneshot W (wifi s0), wifi := w\<rparr>))"
proof -
  define s1 where "s1 = s0\<lparr>rand_calls := k, fw_allocs := Suc (fw_allocs s0), current_hdr := map_option (\<lambda>_. replicate 16 0) (heap (fw_allocs s0) 16),
      fwup := Live ((clear_session f)\<lparr>current_image_src := src, received_number := - 1, current_session_id := sid, fw_busy := True\<rparr>),
      oneshotback := get_oneshot W (wifi s0)\<rparr>"
  define s2 where "s2 = (if oneshotback s1 = 1 then s1\<lparr>wifi := set_oneshot W 0 (wifi s1)\<rparr> else s1)"
  define s3 where "s3 = (if psm_enabled cfg s2 = 1 then s2\<lparr>wifi := set_psflag W 0 (wifi s2)\<rparr> else s2)"
  have "\<exists>w. s2 = s1\<lparr>wifi := w\<rparr>" by (cases "oneshotback s1 = 1") (auto simp: s2_def intro: exI [of _ "wifi s1"])
  then have "\<exists>w. s3 = s1\<lparr>wifi := w\<rparr>" by (auto simp: s3_def)
  then obtain w where w: "s3 = s1\<lparr>wifi := w\<rparr>" ..
  have "tls_fwup_enter cfg heap os W rnd src s = Some (sid, set_flash (snd (tls_fls_fast_write_init heap (flash_of s3))) s3)"
    using assms by (simp add: tls_fwup_enter_def fw_alloc_def s3_def s2_def s1_def Let_def split_beta cong: if_cong)
  then show ?thesis unfolding w by (auto simp: s1_def flash_of_def)
qed

text \<open>The loop that draws the number of a session.\<close>

lemma session_loop_first:
  "(\<And>i. i < n \<Longrightarrow> rnd (k + i) = 0) \<Longrightarrow> rnd (k + n) \<noteq> 0 \<Longrightarrow> session_loop rnd k = Some (rnd (k + n), Suc (k + n))"
proof (induction n arbitrary: k)
  case (Suc n)
  have "rnd k = 0" using Suc.prems(1) [of 0] by simp
  moreover have "session_loop rnd (Suc k) = Some (rnd (Suc k + n), Suc (Suc k + n))"
    by (rule Suc.IH) (use Suc.prems(1) [of "Suc i" for i] Suc.prems(2) in simp_all)
  ultimately show ?case by (simp add: session_loop.simps [of rnd k])
qed (simp add: session_loop.simps)

lemma session_loop_returns:
  assumes "rnd (k + j) \<noteq> 0"
  obtains n where "n \<le> j" "session_loop rnd k = Some (rnd (k + n), Suc (k + n))" "rnd (k + n) \<noteq> 0" "\<And>i. i < n \<Longrightarrow> rnd (k + i) = 0"
proof -
  let ?n = "LEAST n. rnd (k + n) \<noteq> 0"
  have "rnd (k + ?n) \<noteq> 0" by (rule LeastI [where P = "\<lambda>n. rnd (k + n) \<noteq> 0", OF assms])
  moreover have "?n \<le> j" using assms by (rule Least_le)
  moreover have "rnd (k + i) = 0" if "i < ?n" for i using not_less_Least [OF that] by simp
  ultimately show ?thesis using that session_loop_first by blast
qed

lemma session_loop_nonzero:
  assumes "session_loop rnd k = Some r"
  shows "\<exists>j. rnd (k + j) = fst r \<and> fst r \<noteq> 0"
proof (rule session_loop.raw_induct [OF _ assms])
  fix loop :: "(nat \<Rightarrow> u32) \<Rightarrow> nat \<Rightarrow> (u32 \<times> nat) option" and rnd k and r :: "u32 \<times> nat"
  assume IH: "\<And>rnd k r. loop rnd k = Some r \<Longrightarrow> \<exists>j. rnd (k + j) = fst r \<and> fst r \<noteq> 0"
    and r: "(if rnd k = 0 then loop rnd (Suc k) else Some (rnd k, Suc k)) = Some r"
  show "\<exists>j. rnd (k + j) = fst r \<and> fst r \<noteq> 0"
  proof (cases "rnd k = 0")
    case True
    then obtain j where "rnd (Suc k + j) = fst r \<and> fst r \<noteq> 0" using IH [of rnd "Suc k" r] r by auto
    then show ?thesis by (intro exI [of _ "Suc j"]) simp
  next
    case False
    then show ?thesis using r by (intro exI [of _ 0]) auto
  qed
qed

section \<open>The platform\<close>

lemma fw_addr_add: "fw_addr P + word_of_nat k = fw_addr (P + k)"
  by (simp add: fw_addr_def)

locale fwup_platform = nor_driver spi mem wel ident heap + crc_engine hw
  for spi :: "'d spi" and mem :: "'d \<Rightarrow> nat \<Rightarrow> u8" and wel :: "'d \<Rightarrow> bool" and ident :: "'d \<Rightarrow> u32" and heap :: allocator
    and hw :: crc_unit
begin

text \<open>Reading the image back.\<close>

lemma verify_image_ok:
  assumes "fls_ready d" "fls_capacity ident d = 2 ^ 20" "P + off + left \<le> 2 ^ 20" "length buf = 1024"
  shows "\<exists>bs d'. verify_image spi heap hw (fw_addr P) (word_of_nat off) left buf ctx d
      = (Some (foldl (\<lambda>c b. tls_crypto_crc_update hw b c) ctx bs), d')
    \<and> concat bs = mem_bytes (mem (chip d)) (P + off) left \<and> (\<forall>b \<in> set bs. length b < 0x10000) \<and> (bs = [] \<longleftrightarrow> left = 0)
    \<and> fls_ready d' \<and> fls_capacity ident d' = 2 ^ 20 \<and> mem (chip d') = mem (chip d)"
  using assms
proof (induction left arbitrary: off buf ctx d rule: less_induct)
  case (less left)
  show ?case
  proof (cases "left = 0")
    case True
    then show ?thesis using less.prems by (subst verify_image.simps) (auto intro!: exI [of _ "[]"])
  next
    case False
    define n where "n = (if left > 1024 then 1024 else left)"
    have n: "0 < n" "n \<le> left" "n \<le> 1024" using False by (auto simp: n_def)
    let ?b = "bsplice 0 (mem_bytes (mem (chip d)) (P + off) n) buf"
    have off: "fls_off (fw_addr (P + off)) = P + off" using fw_addr_sector(3) [of "P + off"] less.prems(3) False by simp
    obtain d1 where d1: "tls_fls_read spi heap (fw_addr (P + off)) (Some buf) n d = (TLS_FLS_STATUS_OK, Some ?b, d1)"
      "becomes (mem (chip d)) d d1"
      using tls_fls_read_ok [of d n buf "fw_addr (P + off)"] less.prems n off by auto
    have st: "fls_ready d1" "fls_capacity ident d1 = 2 ^ 20" "mem (chip d1) = mem (chip d)"
      using becomes_ready [OF d1(2)] becomes_capacity [OF d1(2)] becomesD [OF d1(2)] less.prems by auto
    have b: "take n ?b = mem_bytes (mem (chip d)) (P + off) n" "length ?b = 1024"
      using n less.prems(4) by (simp_all add: bsplice_def)
    obtain bs d' where r: "verify_image spi heap hw (fw_addr P) (word_of_nat (off + n)) (left - n) ?b
        (tls_crypto_crc_update hw (mem_bytes (mem (chip d)) (P + off) n) ctx) d1
        = (Some (foldl (\<lambda>c b. tls_crypto_crc_update hw b c) (tls_crypto_crc_update hw (mem_bytes (mem (chip d)) (P + off) n) ctx) bs), d')"
      "concat bs = mem_bytes (mem (chip d)) (P + off + n) (left - n)" "\<forall>b \<in> set bs. length b < 0x10000"
      "fls_ready d'" "fls_capacity ident d' = 2 ^ 20" "mem (chip d') = mem (chip d)"
      using less.IH [of "left - n" d1 "off + n" ?b "tls_crypto_crc_update hw (mem_bytes (mem (chip d)) (P + off) n) ctx"] st b(2) n less.prems(3) False by (auto simp: add.assoc)
    have "verify_image spi heap hw (fw_addr P) (word_of_nat off) left buf ctx d
      = (Some (foldl (\<lambda>c b. tls_crypto_crc_update hw b c) ctx (mem_bytes (mem (chip d)) (P + off) n # bs)), d')"
      unfolding verify_image.simps [of spi heap hw _ _ left] n_def [symmetric]
      using False d1(1) r(1) b(1) by (simp add: fw_addr_add Let_def)
    moreover have "concat (mem_bytes (mem (chip d)) (P + off) n # bs) = mem_bytes (mem (chip d)) (P + off) left"
      using r(2) n mem_bytes_add [of "mem (chip d)" "P + off" n "left - n"] by simp
    moreover have "\<forall>b \<in> set (mem_bytes (mem (chip d)) (P + off) n # bs). length b < 0x10000" using r(3) n by simp
    ultimately show ?thesis using r(4-6) False by blast
  qed
qed

lemma verify_image_crc:
  assumes "fls_ready d" "fls_capacity ident d = 2 ^ 20" "P + N \<le> 2 ^ 20" "0 < N" "length buf = 1024"
  obtains ctx d' where "verify_image spi heap hw (fw_addr P) 0 N buf (tls_crypto_crc_init 0xFFFFFFFF 3 3) d = (Some ctx, d')"
    "tls_crypto_crc_final ctx = image_crc hw (mem_bytes (mem (chip d)) P N)"
    "fls_ready d'" "fls_capacity ident d' = 2 ^ 20" "mem (chip d') = mem (chip d)"
proof -
  obtain bs d' where r: "verify_image spi heap hw (fw_addr P) 0 N buf (tls_crypto_crc_init 0xFFFFFFFF 3 3) d
      = (Some (foldl (\<lambda>c b. tls_crypto_crc_update hw b c) (tls_crypto_crc_init 0xFFFFFFFF 3 3) bs), d')"
    "concat bs = mem_bytes (mem (chip d)) P N" "\<forall>b \<in> set bs. length b < 0x10000" "bs \<noteq> []"
    "fls_ready d'" "fls_capacity ident d' = 2 ^ 20" "mem (chip d') = mem (chip d)"
    using verify_image_ok [of d P 0 N buf "tls_crypto_crc_init 0xFFFFFFFF 3 3"] assms by auto
  then show ?thesis
    using that [OF r(1)] update_blocks [of bs "0xFFFFFFFF"] by (simp add: tls_crypto_crc_final_def image_crc_def)
qed

lemma header_addrs: "fls_off CODE_RUN_HEADER_ADDR = 0x10000" "fls_off CODE_UPD_HEADER_ADDR = 0xFC000"
  by (simp_all add: fls_off_def CODE_RUN_HEADER_ADDR_def CODE_UPD_HEADER_ADDR_def)

lemma update_header_ok:
  assumes "fls_ready (flash_of s)" "fls_capacity ident (flash_of s) = 2 ^ 20" "m = mem (chip (flash_of s))"
    and "length (booter s) = 56" "length (fst (imgheader s)) = 56" "length (snd (imgheader s)) = 56"
    and "img = stamp_header hw (next_upd_no hw m) (booter s)"
  obtains d h where "tls_fwup_img_update_header spi heap hw s = set_flash d (s\<lparr>imgheader := h, booter := img\<rparr>)"
    "fls_ready d" "mem (chip d) = mem_write 0xFC000 img m"
proof -
  obtain d1 where d1: "tls_fls_read spi heap CODE_RUN_HEADER_ADDR (Some (fst (imgheader s))) 56 (flash_of s)
      = (TLS_FLS_STATUS_OK, Some (mem_bytes m 0x10000 56), d1)" "becomes m (flash_of s) d1"
    using tls_fls_read_ok [of "flash_of s" 56 "fst (imgheader s)" CODE_RUN_HEADER_ADDR] assms
    by (auto simp: header_addrs bsplice_full)
  have s1: "fls_ready d1" "fls_capacity ident d1 = 2 ^ 20" "mem (chip d1) = m"
    using becomes_ready [OF d1(2)] becomes_capacity [OF d1(2)] becomesD [OF d1(2)] assms by auto
  obtain d2 where d2: "tls_fls_read spi heap CODE_UPD_HEADER_ADDR (Some (snd (imgheader s))) 56 d1
      = (TLS_FLS_STATUS_OK, Some (mem_bytes m 0xFC000 56), d2)" "becomes m d1 d2"
    using tls_fls_read_ok [of d1 56 "snd (imgheader s)" CODE_UPD_HEADER_ADDR] assms s1
    by (auto simp: header_addrs bsplice_full)
  have s2: "fls_ready d2" "fls_capacity ident d2 = 2 ^ 20" "mem (chip d2) = m"
    using becomes_ready [OF d2(2)] becomes_capacity [OF d2(2)] becomesD [OF d2(2)] s1 by auto
  have len: "length img = 56" using assms(4,7) by (simp add: stamp_header_def Let_def)
  obtain d3 where d3: "tls_fls_write spi heap CODE_UPD_HEADER_ADDR (Some img) 56 d2 = (TLS_FLS_STATUS_OK, d3)"
    "becomes (mem_write 0xFC000 img m) d2 d3"
    using tls_fls_write_ok [of d2 56 img CODE_UPD_HEADER_ADDR] s2 len by (auto simp: header_addrs)
  have crc: "crc_state (tls_crypto_crc_update hw (take 52 b) (tls_crypto_crc_init 0xFFFFFFFF 3 3)) = header_crc hw b" for b
    using update_block [of "take 52 b"] by (simp add: header_crc_def)
  have "tls_fwup_img_update_header spi heap hw s
      = set_flash d3 (s\<lparr>imgheader := (mem_bytes m 0x10000 56, mem_bytes m 0xFC000 56), booter := img\<rparr>)"
    using d1(1) d2(1) d3(1) crc assms(7)
    by (simp add: tls_fwup_img_update_header_def next_upd_no_def stamp_header_def tls_crypto_crc_final_def Let_def cong: if_cong)
  then show ?thesis using that d3(2) becomes_ready s2(1) becomesD by blast
qed

text \<open>
  The writer's side of a session: \<open>sofar\<close> is the part of the image that was written at \<open>P\<close>, over the
  contents \<open>m0\<close> of the chip.
\<close>

definition written :: "nat \<Rightarrow> (nat \<Rightarrow> u8) \<Rightarrow> bytes \<Rightarrow> 'd fls \<Rightarrow> bool" where
  "written P m0 sofar d \<longleftrightarrow> fls_capacity ident d = 2 ^ 20
     \<and> (if sofar = [] then fls_ready d \<and> gsSector d = 0 \<and> (\<exists>c. gsflscache d = Some c \<and> length c = 4096) \<and> mem (chip d) = m0
        else fw_at (P + length sofar) d \<and> fw_view mem (P + length sofar) d = mem_write P sofar m0)"

lemma write_more:
  assumes "written P m0 sofar d" "0x2000 \<le> P" "P mod 4096 = 0" "c \<noteq> []" "P + length sofar + length c \<le> 2 ^ 20"
  obtains d' where "tls_fls_fast_write spi (fw_addr (P + length sofar)) (Some c) (length c) d = Some (TLS_FLS_STATUS_OK, d')"
    "written P m0 (sofar @ c) d'"
proof -
  let ?Q = "P + length sofar"
  have cap: "fls_capacity ident d = 2 ^ 20" using assms(1) by (simp add: written_def)
  have at: "fw_at ?Q d \<or> fls_ready d \<and> gsSector d = 0 \<and> ?Q mod 4096 = 0 \<and> (\<exists>c. gsflscache d = Some c \<and> length c = 4096)"
    using assms(1,3) by (auto simp: written_def split: if_splits)
  have view: "fw_view mem ?Q d = mem_write P sofar m0"
    using assms(1,3) by (cases "sofar = []") (auto simp: written_def fw_view_def)
  obtain d' where d': "tls_fls_fast_write spi (fw_addr ?Q) (Some c) (length c) d = Some (TLS_FLS_STATUS_OK, d')"
    "fw_at (?Q + length c) d'" "fw_view mem (?Q + length c) d' = mem_write ?Q c (fw_view mem ?Q d)"
    "fls_capacity ident d' = fls_capacity ident d"
    using tls_fls_fast_write_ok [OF at, of c] assms cap by auto
  have "written P m0 (sofar @ c) d'"
    using d' assms(4) cap view mem_write_append [of P sofar c m0] by (simp add: written_def add.assoc)
  then show ?thesis using that d'(1) by blast
qed

text \<open>Closing the writer.\<close>

lemma close_writer:
  assumes "written P m0 img d" "0x2000 \<le> P" "img \<noteq> []" "Q = P + length img" "Q < 2 ^ 20"
  obtains d' where "tls_fls_fast_write_destroy spi d = Some d'" "fls_ready d'" "fls_capacity ident d' = 2 ^ 20"
    "\<And>i. i < Q \<or> Q - Q mod 4096 + 4096 \<le> i \<Longrightarrow> mem (chip d') i = mem_write P img m0 i"
proof -
  have w: "fls_capacity ident d = 2 ^ 20" "fw_at Q d" "fw_view mem Q d = mem_write P img m0"
    using assms by (auto simp: written_def)
  obtain cache where c: "gsflscache d = Some cache" "length cache = 4096"
    using w(2) by (auto simp: fw_at_def split: option.splits)
  obtain d' where d': "tls_fls_fast_write_destroy spi d = Some d'"
    "mem (chip d') = mem_write (Q - Q mod 4096) cache (mem (chip d))" "fls_ready d'" "fls_capacity ident d' = fls_capacity ident d"
    using tls_fls_fast_write_destroy_ok [OF w(2) c(1)] assms(2,4,5) w(1) by auto
  show ?thesis
    by (rule that [OF d'(1,3)]) (use d' w destroy_view [OF c(2,1), of _ Q] in auto)
qed

lemma mem_bytes_agree: "(\<And>i. a \<le> i \<Longrightarrow> i < a + n \<Longrightarrow> m i = m' i) \<Longrightarrow> mem_bytes m a n = mem_bytes m' a n"
  by (rule nth_equalityI) auto

text \<open>The contents of the chip when the buffered writer was closed behind the image.\<close>

lemma close_image:
  assumes "written P m0 img s" "0x90000 \<le> P" "P + length img \<le> 0xF0000" "img \<noteq> []"
  obtains d where "tls_fls_fast_write_destroy spi s = Some d" "fls_ready d" "fls_capacity ident d = 2 ^ 20"
    "mem_bytes (mem (chip d)) P (length img) = img" "next_upd_no hw (mem (chip d)) = next_upd_no hw m0"
    "mem_bytes (mem (chip d)) 0xFC000 56 = mem_bytes m0 0xFC000 56"
    "\<And>i. outside_update P (P + length img) i \<Longrightarrow> mem (chip d) i = m0 i"
proof -
  let ?Q = "P + length img"
  obtain d where d: "tls_fls_fast_write_destroy spi s = Some d" "fls_ready d" "fls_capacity ident d = 2 ^ 20"
    "\<And>i. i < ?Q \<or> ?Q - ?Q mod 4096 + 4096 \<le> i \<Longrightarrow> mem (chip d) i = mem_write P img m0 i"
    using close_writer [OF assms(1) _ assms(4) refl] assms(2,3) by auto
  have far: "?Q - ?Q mod 4096 + 4096 \<le> 0xFC000" using assms(3) by linarith
  have "mem_bytes (mem (chip d)) P (length img) = mem_bytes (mem_write P img m0) P (length img)"
    by (rule mem_bytes_agree) (use d(4) in simp)
  then have img: "mem_bytes (mem (chip d)) P (length img) = img" by simp
  have code: "mem_bytes (mem (chip d)) 0x10000 56 = mem_bytes m0 0x10000 56"
    by (rule mem_bytes_agree) (use d(4) assms(2) in \<open>simp add: mem_write_def\<close>)
  have boot: "mem_bytes (mem (chip d)) 0xFC000 56 = mem_bytes m0 0xFC000 56"
    by (rule mem_bytes_agree) (use d(4) far assms(3) in \<open>simp add: mem_write_def\<close>)
  have "mem (chip d) i = m0 i" if "outside_update P ?Q i" for i
    using d(4) [of i] that by (auto simp: outside_update_def mem_write_def)
  then show ?thesis using that [OF d(1-3) img _ boot] code boot by (simp add: next_upd_no_def)
qed

text \<open>The image is read back and its CRC compared.\<close>

lemma finish_image_checks:
  assumes "written P m0 img (flash_of s)" "0x90000 \<le> P" "P + length img \<le> 0xF0000" "img \<noteq> []"
    and "program_base f = fw_addr P" "total_len f = word_of_nat (length img)"
  obtains d where "finish_image spi heap hw W r f s =
      (let s = set_flash d (s\<lparr>fw_allocs := Suc (fw_allocs s)\<rparr>)
       in Some (if org_checksum s \<noteq> image_crc hw img
         then Finish (r\<lparr>rq_status := TLS_FWUP_REQ_STATUS_FCRC\<rparr>, f\<lparr>current_state := current_state f OR TLS_FWUP_STATE_ERROR_CRC\<rparr>, s)
         else let s = tls_fwup_img_update_header spi heap hw s
              in Go (r, f\<lparr>current_state := current_state f OR TLS_FWUP_STATE_COMPLETE\<rparr>,
                   if oneshotback s = 1 then s\<lparr>wifi := set_oneshot W (oneshotback s) (wifi s)\<rparr> else s)))"
    "fls_ready d" "fls_capacity ident d = 2 ^ 20"
    "mem_bytes (mem (chip d)) P (length img) = img" "next_upd_no hw (mem (chip d)) = next_upd_no hw m0"
    "mem_bytes (mem (chip d)) 0xFC000 56 = mem_bytes m0 0xFC000 56"
    "\<And>i. outside_update P (P + length img) i \<Longrightarrow> mem (chip d) i = m0 i"
proof -
  obtain d where d: "tls_fls_fast_write_destroy spi (flash_of s) = Some d" "fls_ready d" "fls_capacity ident d = 2 ^ 20"
    "mem_bytes (mem (chip d)) P (length img) = img" "next_upd_no hw (mem (chip d)) = next_upd_no hw m0"
    "mem_bytes (mem (chip d)) 0xFC000 56 = mem_bytes m0 0xFC000 56"
    "\<And>i. outside_update P (P + length img) i \<Longrightarrow> mem (chip d) i = m0 i"
    using close_image [OF assms(1-4)] by blast
  obtain buf where buf: "heap (fw_allocs s) 1024 = Some buf" "length buf = 1024" using alloc_totalE [OF heap_total] .
  have N: "0 < length img" "P + length img \<le> 2 ^ 20" "unat (total_len f) = length img"
    using assms(3,4,6) u32_unat_of_nat [of "length img"] by auto
  obtain ctx d2 where v: "verify_image spi heap hw (fw_addr P) 0 (length img) buf (tls_crypto_crc_init 0xFFFFFFFF 3 3) d = (Some ctx, d2)"
    "tls_crypto_crc_final ctx = image_crc hw img" "fls_ready d2" "fls_capacity ident d2 = 2 ^ 20" "mem (chip d2) = mem (chip d)"
    using verify_image_crc [OF d(2,3) N(2,1) buf(2)] d(4) by auto
  show ?thesis
    by (rule that [of d2]) (use d buf(1) v assms(5) N(3) in
      \<open>simp_all add: finish_image_def fw_alloc_def set_flash_def flash_of_def Let_def\<close>)
qed

text \<open>The end of the image: it is installed exactly when its CRC is the one of the header.\<close>

lemma finish_image_ok:
  assumes "written P m0 img (flash_of s)" "0x90000 \<le> P" "P + length img \<le> 0xF0000" "img \<noteq> []"
    and "program_base f = fw_addr P" "total_len f = word_of_nat (length img)"
    and "length (booter s) = 56" "length (fst (imgheader s)) = 56" "length (snd (imgheader s)) = 56"
  obtains s' where
    "finish_image spi heap hw W r f s = Some (if org_checksum s = image_crc hw img
       then Go (r, f\<lparr>current_state := current_state f OR TLS_FWUP_STATE_COMPLETE\<rparr>, s')
       else Finish (r\<lparr>rq_status := TLS_FWUP_REQ_STATUS_FCRC\<rparr>, f\<lparr>current_state := current_state f OR TLS_FWUP_STATE_ERROR_CRC\<rparr>, s'))"
    "wait_list s' = wait_list s" "completed s' = completed s" "fwup_msgs s' = fwup_msgs s" "sys_resets s' = sys_resets s"
    "mem_bytes (mem (chip (flash_of s'))) P (length img) = img"
    "mem_bytes (mem (chip (flash_of s'))) 0xFC000 56 = (if org_checksum s = image_crc hw img
       then stamp_header hw (next_upd_no hw m0) (booter s) else mem_bytes m0 0xFC000 56)"
    "\<forall>i. outside_update P (P + length img) i \<longrightarrow> mem (chip (flash_of s')) i = m0 i"
proof -
  obtain d where fin: "finish_image spi heap hw W r f s =
      (let s = set_flash d (s\<lparr>fw_allocs := Suc (fw_allocs s)\<rparr>)
       in Some (if org_checksum s \<noteq> image_crc hw img
         then Finish (r\<lparr>rq_status := TLS_FWUP_REQ_STATUS_FCRC\<rparr>, f\<lparr>current_state := current_state f OR TLS_FWUP_STATE_ERROR_CRC\<rparr>, s)
         else let s = tls_fwup_img_update_header spi heap hw s
              in Go (r, f\<lparr>current_state := current_state f OR TLS_FWUP_STATE_COMPLETE\<rparr>,
                   if oneshotback s = 1 then s\<lparr>wifi := set_oneshot W (oneshotback s) (wifi s)\<rparr> else s)))"
    and d: "fls_ready d" "fls_capacity ident d = 2 ^ 20" "mem_bytes (mem (chip d)) P (length img) = img"
      "next_upd_no hw (mem (chip d)) = next_upd_no hw m0" "mem_bytes (mem (chip d)) 0xFC000 56 = mem_bytes m0 0xFC000 56"
      "\<And>i. outside_update P (P + length img) i \<Longrightarrow> mem (chip d) i = m0 i"
    using finish_image_checks [OF assms(1-6), of W r] by blast
  define s2 where "s2 = set_flash d (s\<lparr>fw_allocs := Suc (fw_allocs s)\<rparr>)"
  have s2: "flash_of s2 = d" "booter s2 = booter s" "imgheader s2 = imgheader s" "oneshotback s2 = oneshotback s"
    "org_checksum s2 = org_checksum s" "wait_list s2 = wait_list s" "completed s2 = completed s" "fwup_msgs s2 = fwup_msgs s"
    "sys_resets s2 = sys_resets s"
    by (simp_all add: s2_def set_flash_def flash_of_def)
  show ?thesis
  proof (cases "org_checksum s = image_crc hw img")
    case False
    show ?thesis by (rule that [of s2]) (use False fin [folded s2_def] s2 d in \<open>simp_all add: Let_def\<close>)
  next
    case True
    define img' where "img' = stamp_header hw (next_upd_no hw m0) (booter s)"
    obtain d3 h where u: "tls_fwup_img_update_header spi heap hw s2 = set_flash d3 (s2\<lparr>imgheader := h, booter := img'\<rparr>)"
      "mem (chip d3) = mem_write 0xFC000 img' (mem (chip d))"
      by (rule update_header_ok [of s2 "mem (chip d)" img']) (use s2 d assms(7-9) in \<open>simp_all add: img'_def\<close>)
    have len: "length img' = 56" using assms(7) by (simp add: img'_def stamp_header_def Let_def)
    have "mem_bytes (mem (chip d3)) P (length img) = img"
      using mem_bytes_write_other [of P "length img" "0xFC000" img'] assms(3) d(3) u(2) by simp
    moreover have "mem_bytes (mem (chip d3)) 0xFC000 56 = img'" using u(2) len by (simp flip: len)
    moreover have "mem (chip d3) i = m0 i" if "outside_update P (P + length img) i" for i
      using d(6) [OF that] that u(2) len assms(3) by (auto simp: outside_update_def mem_write_def)
    moreover define s3 where "s3 = set_flash d3 (s2\<lparr>imgheader := h, booter := img'\<rparr>)"
    moreover have "flash_of s3 = d3" "oneshotback s3 = oneshotback s" "wait_list s3 = wait_list s" "completed s3 = completed s"
      "fwup_msgs s3 = fwup_msgs s" "sys_resets s3 = sys_resets s"
      using s2 by (simp_all add: s3_def set_flash_def flash_of_def)
    ultimately show ?thesis
      by (intro that [of "if oneshotback s3 = 1 then s3\<lparr>wifi := set_oneshot W (oneshotback s3) (wifi s3)\<rparr> else s3"])
        (use True fin [folded s2_def] u(1) s2(5) img'_def in \<open>simp_all add: flash_of_def Let_def\<close>)
  qed
qed

text \<open>How far a session has come: the structure \<open>f\<close> and the state agree with the prefix that was written.\<close>

definition progress :: "nat \<Rightarrow> nat \<Rightarrow> bytes \<Rightarrow> (nat \<Rightarrow> u8) \<Rightarrow> bytes \<Rightarrow> tls_fwup \<Rightarrow> ('d, 'w) fwup_sys \<Rightarrow> bool" where
  "progress P N hdr m0 sofar f s \<longleftrightarrow> program_base f = fw_addr P \<and> total_len f = word_of_nat N
     \<and> program_offset f = word_of_nat (length sofar) \<and> updated_len f = word_of_nat (length sofar)
     \<and> booter s = hdr \<and> org_checksum s = bt_upd_checksum hdr \<and> length hdr = 56
     \<and> length (fst (imgheader s)) = 56 \<and> length (snd (imgheader s)) = 56 \<and> written P m0 sofar (flash_of s)"

lemma write_image_advance:
  assumes "progress P N hdr m0 sofar f s" "update_area P N" "length sofar + length c \<le> N" "data_len r = length c" "c \<noteq> []"
  obtains d where "write_image spi heap hw W (c @ j) r f s =
      (let s = set_flash d s;
           f = f\<lparr>program_offset := word_of_nat (length (sofar @ c)), updated_len := word_of_nat (length (sofar @ c))\<rparr>
       in if N \<le> length (sofar @ c) then finish_image spi heap hw W r f s else Some (Go (r, f, s)))"
    "written P m0 (sofar @ c) d"
proof -
  have w: "written P m0 sofar (flash_of s)" and a: "0x2000 \<le> P" "P mod 4096 = 0" "P + length sofar + length c \<le> 2 ^ 20"
    and lt: "length (sofar @ c) < 2 ^ 32" "N < 2 ^ 32"
    using assms(1-3) by (auto simp: progress_def update_area_def)
  obtain d where d: "tls_fls_fast_write spi (fw_addr (P + length sofar)) (Some c) (length c) (flash_of s) = Some (TLS_FLS_STATUS_OK, d)"
    "written P m0 (sofar @ c) d"
    using write_more [OF w a(1,2) assms(5) a(3)] .
  have pos: "program_base f + program_offset f = fw_addr (P + length sofar)"
    using assms(1) by (simp add: progress_def fw_addr_add)
  have upd: "program_offset f + word_of_nat (length c) = word_of_nat (length (sofar @ c))"
    "updated_len f + word_of_nat (length c) = word_of_nat (length (sofar @ c))" "total_len f = word_of_nat N"
    using assms(1) by (simp_all add: progress_def)
  have "total_len f \<le> word_of_nat (length (sofar @ c)) \<longleftrightarrow> N \<le> length (sofar @ c)"
    unfolding upd(3) using u32_of_nat_le lt by blast
  then have "write_image spi heap hw W (c @ j) r f s =
      (let s = set_flash d s;
           f = f\<lparr>program_offset := word_of_nat (length (sofar @ c)), updated_len := word_of_nat (length (sofar @ c))\<rparr>
       in if N \<le> length (sofar @ c) then finish_image spi heap hw W r f s else Some (Go (r, f, s)))"
    using assms(4,5) d(1) pos upd(1,2) by (simp add: write_image_def fast_write_junk Let_def)
  then show ?thesis using that d(2) by blast
qed

lemma write_image_more:
  assumes "progress P N hdr m0 sofar f s" "update_area P N" "length sofar + length c < N" "data_len r = length c"
  obtains f' s' where "write_image spi heap hw W (c @ j) r f s = Some (Go (r, f', s'))" "progress P N hdr m0 (sofar @ c) f' s'"
    "f' = f\<lparr>program_offset := program_offset f', updated_len := updated_len f'\<rparr>" "s' = set_flash (flash_of s') s"
proof (cases "c = []")
  case True
  then show ?thesis using that [of f s] assms by (simp add: write_image_def set_flash_def flash_of_def)
next
  case False
  obtain d where "write_image spi heap hw W (c @ j) r f s =
      (let s = set_flash d s;
           f = f\<lparr>program_offset := word_of_nat (length (sofar @ c)), updated_len := word_of_nat (length (sofar @ c))\<rparr>
       in if N \<le> length (sofar @ c) then finish_image spi heap hw W r f s else Some (Go (r, f, s)))"
    "written P m0 (sofar @ c) d"
    by (rule write_image_advance [OF assms(1,2) _ assms(4) False]) (use assms(3) in simp)
  then show ?thesis
    using that [of "f\<lparr>program_offset := word_of_nat (length (sofar @ c)), updated_len := word_of_nat (length (sofar @ c))\<rparr>"
        "set_flash d s"] assms(1,3)
    by (simp add: progress_def set_flash_def flash_of_def Let_def)
qed

lemma write_image_last:
  assumes "progress P N hdr m0 sofar f s" "update_area P N" "length sofar + length c = N" "data_len r = length c" "c \<noteq> []"
    and "img = sofar @ c" "ok \<longleftrightarrow> image_crc hw img = bt_upd_checksum hdr"
  obtains f' s' where "write_image spi heap hw W (c @ j) r f s = Some (if ok then Go (r, f', s') else Finish (r\<lparr>rq_status := TLS_FWUP_REQ_STATUS_FCRC\<rparr>, f', s'))"
    "current_state f' = current_state f OR (if ok then TLS_FWUP_STATE_COMPLETE else TLS_FWUP_STATE_ERROR_CRC)"
    "updated_len f' = total_len f'" "wait_list s' = wait_list s" "completed s' = completed s" "sys_resets s' = sys_resets s"
    "mem_bytes (mem (chip (flash_of s'))) P N = img"
    "mem_bytes (mem (chip (flash_of s'))) 0xFC000 56 = (if ok then stamp_header hw (next_upd_no hw m0) hdr else mem_bytes m0 0xFC000 56)"
    "\<forall>i. outside_update P (P + N) i \<longrightarrow> mem (chip (flash_of s')) i = m0 i"
proof -
  obtain d where d: "write_image spi heap hw W (c @ j) r f s =
      (let s = set_flash d s;
           f = f\<lparr>program_offset := word_of_nat (length (sofar @ c)), updated_len := word_of_nat (length (sofar @ c))\<rparr>
       in if N \<le> length (sofar @ c) then finish_image spi heap hw W r f s else Some (Go (r, f, s)))"
    "written P m0 (sofar @ c) d"
    by (rule write_image_advance [OF assms(1,2) _ assms(4,5)]) (use assms(3) in simp)
  let ?s = "set_flash d s"
  let ?f = "f\<lparr>program_offset := word_of_nat (length (sofar @ c)), updated_len := word_of_nat (length (sofar @ c))\<rparr>"
  have len: "length img = N" using assms(3,6) by simp
  have s: "flash_of ?s = d" "booter ?s = hdr" "org_checksum ?s = bt_upd_checksum hdr" "wait_list ?s = wait_list s" "completed ?s = completed s"
    "sys_resets ?s = sys_resets s" "length (booter ?s) = 56" "length (fst (imgheader ?s)) = 56" "length (snd (imgheader ?s)) = 56"
    "program_base ?f = fw_addr P" "total_len ?f = word_of_nat (length img)"
    using assms(1) len by (simp_all add: progress_def set_flash_def flash_of_def)
  have a: "0x90000 \<le> P" "P + length img \<le> 0xF0000" "img \<noteq> []" using assms(2,5,6) len by (auto simp: update_area_def)
  have w: "written P m0 img (flash_of ?s)" using d(2) s(1) assms(6) by simp
  obtain s' where fin: "finish_image spi heap hw W r ?f ?s = Some (if org_checksum ?s = image_crc hw img
       then Go (r, ?f\<lparr>current_state := current_state ?f OR TLS_FWUP_STATE_COMPLETE\<rparr>, s')
       else Finish (r\<lparr>rq_status := TLS_FWUP_REQ_STATUS_FCRC\<rparr>, ?f\<lparr>current_state := current_state ?f OR TLS_FWUP_STATE_ERROR_CRC\<rparr>, s'))"
    "wait_list s' = wait_list ?s" "completed s' = completed ?s" "sys_resets s' = sys_resets ?s"
    "mem_bytes (mem (chip (flash_of s'))) P (length img) = img"
    "mem_bytes (mem (chip (flash_of s'))) 0xFC000 56 = (if org_checksum ?s = image_crc hw img
       then stamp_header hw (next_upd_no hw m0) (booter ?s) else mem_bytes m0 0xFC000 56)"
    "\<forall>i. outside_update P (P + length img) i \<longrightarrow> mem (chip (flash_of s')) i = m0 i"
    by (rule finish_image_ok [OF w a(1,2,3) s(10,11,7,8,9)])
  let ?f' = "?f\<lparr>current_state := current_state ?f OR (if ok then TLS_FWUP_STATE_COMPLETE else TLS_FWUP_STATE_ERROR_CRC)\<rparr>"
  have eq: "org_checksum ?s = image_crc hw img \<longleftrightarrow> ok" using assms(7) s(3) by auto
  have "write_image spi heap hw W (c @ j) r f s = finish_image spi heap hw W r ?f ?s"
    using d(1) assms(3) by (simp add: Let_def)
  also have "\<dots> = Some (if ok then Go (r, ?f', s') else Finish (r\<lparr>rq_status := TLS_FWUP_REQ_STATUS_FCRC\<rparr>, ?f', s'))"
    unfolding fin(1) eq by (cases ok) simp_all
  finally show ?thesis
    by (rule that) (use fin(2-) eq len assms(6) s in \<open>simp_all\<close>)
qed

text \<open>Between two requests of a session.\<close>

definition receiving :: "nat \<Rightarrow> nat \<Rightarrow> bytes \<Rightarrow> (nat \<Rightarrow> u8) \<Rightarrow> u32 \<Rightarrow> bytes \<Rightarrow> ('d, 'w) fwup_sys \<Rightarrow> bool" where
  "receiving P N hdr m0 sid sofar s \<longleftrightarrow> (\<exists>f. fwup s = Live f \<and> current_session_id f = sid \<and> current_state f = 0
     \<and> received_len f = word_of_nat (56 + length sofar) \<and> wait_list s = [] \<and> fwup_msgs s = 0 \<and> progress P N hdr m0 sofar f s)"

text \<open>The end of a session: installed, or refused for a wrong CRC; either way the system is reset.\<close>

definition concluded :: "nat \<Rightarrow> bytes \<Rightarrow> (nat \<Rightarrow> u8) \<Rightarrow> bytes \<Rightarrow> nat \<Rightarrow> ('d, 'w) fwup_sys \<Rightarrow> bool" where
  "concluded P hdr m0 img resets s \<longleftrightarrow> (let ok = (image_crc hw img = bt_upd_checksum hdr); m = mem (chip (flash_of s))
     in (\<exists>f. fwup s = Live f \<and> current_state f = (if ok then TLS_FWUP_STATE_COMPLETE else TLS_FWUP_STATE_ERROR_CRC))
        \<and> mem_bytes m P (length img) = img
        \<and> mem_bytes m 0xFC000 56 = (if ok then stamp_header hw (next_upd_no hw m0) hdr else mem_bytes m0 0xFC000 56)
        \<and> (\<forall>i. outside_update P (P + length img) i \<longrightarrow> m i = m0 i) \<and> sys_resets s = Suc resets)"

text \<open>The part of a request after its header was taken, for a request that does not end the image.\<close>

lemma sync_more:
  assumes s: "fwup s = Live f" "current_session_id f = sid" "current_state f = 0" "wait_list s = []" "fwup_msgs s = 0" "b \<noteq> []"
    and th: "take_header hw ((new_request b j)\<lparr>rq_status := TLS_FWUP_REQ_STATUS_BUSY\<rparr>) (f\<lparr>current_state := 0 OR TLS_FWUP_STATE_BUSY\<rparr>)
      (s\<lparr>wait_list := [new_request b j]\<rparr>) = Some (Go (c @ j, r1, f1, s1))"
    and f1: "current_session_id f1 = sid" "current_state f1 = 0 OR TLS_FWUP_STATE_BUSY" "received_len f1 = word_of_nat (56 + length (sofar @ c))"
    and s1: "wait_list s1 = [new_request b j]" "fwup_msgs s1 = 0" "sys_resets s1 = sys_resets s"
    and pr: "progress P N hdr m0 sofar f1 s1" "update_area P N" "length sofar + length c < N" "data_len r1 = length c"
  obtains s' where "tls_fwup_request_sync spi heap hw W True sid (Some (b @ j)) (length b) s = Some (TLS_FWUP_STATUS_OK, s')"
    "receiving P N hdr m0 sid (sofar @ c) s'" "sys_resets s' = sys_resets s"
proof -
  obtain f' s' where w: "write_image spi heap hw W (c @ j) r1 f1 s1 = Some (Go (r1, f', s'))" "progress P N hdr m0 (sofar @ c) f' s'"
    "f' = f1\<lparr>program_offset := program_offset f', updated_len := updated_len f'\<rparr>" "s' = set_flash (flash_of s') s1"
    using write_image_more [OF pr] .
  have f': "current_session_id f' = sid" "current_state f' = 0 OR TLS_FWUP_STATE_BUSY" "received_len f' = word_of_nat (56 + length (sofar @ c))"
    by (subst w(3), simp add: f1)+
  have s': "wait_list s' = [new_request b j]" "fwup_msgs s' = 0" "sys_resets s' = sys_resets s"
    by (subst w(4), simp add: s1 set_flash_def)+
  let ?r = "r1\<lparr>rq_status := TLS_FWUP_REQ_STATUS_SUCCESS\<rparr>"
  have sv: "serve_request spi heap hw W (new_request b j) (f\<lparr>current_state := current_state f OR TLS_FWUP_STATE_BUSY\<rparr>)
      (s\<lparr>wait_list := [new_request b j]\<rparr>) = Some (?r, f', s')"
    unfolding s(3) serve_request_def Let_def using th w(1) state_bits(1,2) by simp
  have lt: "length (sofar @ c) < 2 ^ 32" "N < 2 ^ 32" using pr(2,3) by (auto simp: update_area_def)
  have "\<not> total_len f' \<le> updated_len f'"
    using w(2) u32_of_nat_le [OF lt(2,1)] pr(3) by (simp add: progress_def)
  then have "receiving P N hdr m0 sid (sofar @ c) (after_request W ?r f' s')"
    "sys_resets (after_request W ?r f' s') = sys_resets s"
    using f' s' w(2) state_bits(3) by (auto simp: receiving_def after_request_def progress_def flash_of_def Let_def)
  moreover have "request_result (rq_status ?r) = TLS_FWUP_STATUS_OK" by (simp add: request_result_def)
  ultimately show ?thesis
    using that sync_serves [OF s(1,2,4,5,6) sv s'(1)] by simp
qed

text \<open>The same for the request that ends it.\<close>

lemma sync_last:
  assumes s: "fwup s = Live f" "current_session_id f = sid" "current_state f = 0" "wait_list s = []" "fwup_msgs s = 0" "b \<noteq> []"
    and th: "take_header hw ((new_request b j)\<lparr>rq_status := TLS_FWUP_REQ_STATUS_BUSY\<rparr>) (f\<lparr>current_state := 0 OR TLS_FWUP_STATE_BUSY\<rparr>)
      (s\<lparr>wait_list := [new_request b j]\<rparr>) = Some (Go (c @ j, r1, f1, s1))"
    and f1: "current_state f1 = 0 OR TLS_FWUP_STATE_BUSY" and s1: "wait_list s1 = [new_request b j]" "sys_resets s1 = sys_resets s"
    and pr: "progress P N hdr m0 sofar f1 s1" "update_area P N" "length sofar + length c = N" "data_len r1 = length c" "c \<noteq> []"
  obtains s' where "tls_fwup_request_sync spi heap hw W True sid (Some (b @ j)) (length b) s
      = Some (if image_crc hw (sofar @ c) = bt_upd_checksum hdr then TLS_FWUP_STATUS_OK else TLS_FWUP_STATUS_ECRC, s')"
    "concluded P hdr m0 (sofar @ c) (sys_resets s) s'"
proof -
  define ok where "ok \<longleftrightarrow> image_crc hw (sofar @ c) = bt_upd_checksum hdr"
  obtain f' s' where w: "write_image spi heap hw W (c @ j) r1 f1 s1 = Some (if ok then Go (r1, f', s') else Finish (r1\<lparr>rq_status := TLS_FWUP_REQ_STATUS_FCRC\<rparr>, f', s'))"
    "current_state f' = current_state f1 OR (if ok then TLS_FWUP_STATE_COMPLETE else TLS_FWUP_STATE_ERROR_CRC)"
    "updated_len f' = total_len f'" "wait_list s' = wait_list s1" "completed s' = completed s1" "sys_resets s' = sys_resets s1"
    "mem_bytes (mem (chip (flash_of s'))) P N = sofar @ c"
    "mem_bytes (mem (chip (flash_of s'))) 0xFC000 56 = (if ok then stamp_header hw (next_upd_no hw m0) hdr else mem_bytes m0 0xFC000 56)"
    "\<forall>i. outside_update P (P + N) i \<longrightarrow> mem (chip (flash_of s')) i = m0 i"
    using write_image_last [OF pr refl ok_def] .
  let ?r = "r1\<lparr>rq_status := if ok then TLS_FWUP_REQ_STATUS_SUCCESS else TLS_FWUP_REQ_STATUS_FCRC\<rparr>"
  have sv: "serve_request spi heap hw W (new_request b j) (f\<lparr>current_state := current_state f OR TLS_FWUP_STATE_BUSY\<rparr>)
      (s\<lparr>wait_list := [new_request b j]\<rparr>) = Some (?r, f', s')"
    unfolding s(3) serve_request_def Let_def using th w(1) state_bits(1,2) by (cases ok) simp_all
  have "request_result (rq_status ?r) = (if ok then TLS_FWUP_STATUS_OK else TLS_FWUP_STATUS_ECRC)"
    by (simp add: request_result_def fwup_req_defs)
  moreover have "current_state f' AND NOT TLS_FWUP_STATE_BUSY = (if ok then TLS_FWUP_STATE_COMPLETE else TLS_FWUP_STATE_ERROR_CRC)"
    unfolding w(2) f1 using state_bits(4,5) by simp
  then have "concluded P hdr m0 (sofar @ c) (sys_resets s) (after_request W ?r f' s')"
    using w(3,6-9) s1(2) pr(3) by (simp add: concluded_def after_request_def flash_of_def ok_def [symmetric] Let_def)
  ultimately show ?thesis
    using that sync_serves [OF s(1,2,4,5,6) sv] w(4) s1(1) by (simp add: ok_def)
qed

lemma receive_request:
  assumes "receiving P N hdr m0 sid sofar s" "update_area P N" "length sofar + length c \<le> N" "c \<noteq> []"
  obtains f r1 f1 s1 where "fwup s = Live f" "current_session_id f = sid" "current_state f = 0" "wait_list s = []" "fwup_msgs s = 0"
    "take_header hw ((new_request c j)\<lparr>rq_status := TLS_FWUP_REQ_STATUS_BUSY\<rparr>) (f\<lparr>current_state := 0 OR TLS_FWUP_STATE_BUSY\<rparr>)
      (s\<lparr>wait_list := [new_request c j]\<rparr>) = Some (Go (c @ j, r1, f1, s1))"
    "current_session_id f1 = sid" "current_state f1 = 0 OR TLS_FWUP_STATE_BUSY" "received_len f1 = word_of_nat (56 + length (sofar @ c))"
    "wait_list s1 = [new_request c j]" "fwup_msgs s1 = 0" "sys_resets s1 = sys_resets s"
    "progress P N hdr m0 sofar f1 s1" "data_len r1 = length c"
proof -
  obtain f where f: "fwup s = Live f" "current_session_id f = sid" "current_state f = 0" "wait_list s = []" "fwup_msgs s = 0"
    "received_len f = word_of_nat (56 + length sofar)" "progress P N hdr m0 sofar f s"
    using assms(1) by (auto simp: receiving_def)
  let ?r = "(new_request c j)\<lparr>rq_status := TLS_FWUP_REQ_STATUS_BUSY\<rparr>"
  let ?f = "f\<lparr>current_state := 0 OR TLS_FWUP_STATE_BUSY\<rparr>"
  let ?f1 = "?f\<lparr>received_len := received_len ?f + word_of_nat (data_len ?r)\<rparr>"
  let ?s = "s\<lparr>wait_list := [new_request c j]\<rparr>"
  have "take_header hw ?r ?f ?s = Some (Go (rq_data ?r, ?r, ?f1, ?s))"
    by (rule take_header_later [of _ "length sofar"]) (use assms(2,3) f(6) in \<open>simp_all add: update_area_def\<close>)
  moreover have "rq_data ?r = c @ j" "data_len ?r = length c" by (simp_all add: new_request_def)
  moreover have "received_len ?f1 = word_of_nat (56 + length (sofar @ c))" using f(6) by (simp add: new_request_def)
  moreover have "progress P N hdr m0 sofar ?f1 ?s" using f(7) by (simp add: progress_def flash_of_def)
  ultimately show ?thesis by (intro that [OF f(1-5), of ?r ?f1 ?s]) (simp_all add: f(2,5))
qed

text \<open>A session that was just opened.\<close>

definition opened :: "(nat \<Rightarrow> u8) \<Rightarrow> u32 \<Rightarrow> ('d, 'w) fwup_sys \<Rightarrow> bool" where
  "opened m0 sid s \<longleftrightarrow> (\<exists>f. fwup s = Live f \<and> current_session_id f = sid \<and> current_state f = 0 \<and> received_len f = 0
     \<and> program_offset f = 0 \<and> wait_list s = [] \<and> fwup_msgs s = 0
     \<and> length (fst (imgheader s)) = 56 \<and> length (snd (imgheader s)) = 56 \<and> written 0 m0 [] (flash_of s))"

lemma first_request:
  assumes "opened m0 sid s" "header_for hw P N hdr" "b = hdr @ c"
  obtains f r1 f1 s1 where "fwup s = Live f" "current_session_id f = sid" "current_state f = 0" "wait_list s = []" "fwup_msgs s = 0"
    "take_header hw ((new_request b j)\<lparr>rq_status := TLS_FWUP_REQ_STATUS_BUSY\<rparr>) (f\<lparr>current_state := 0 OR TLS_FWUP_STATE_BUSY\<rparr>)
      (s\<lparr>wait_list := [new_request b j]\<rparr>) = Some (Go (c @ j, r1, f1, s1))"
    "current_session_id f1 = sid" "current_state f1 = 0 OR TLS_FWUP_STATE_BUSY" "received_len f1 = word_of_nat (56 + length ([] @ c))"
    "wait_list s1 = [new_request b j]" "fwup_msgs s1 = 0" "sys_resets s1 = sys_resets s"
    "progress P N hdr m0 [] f1 s1" "data_len r1 = length c"
proof -
  obtain f where f: "fwup s = Live f" "current_session_id f = sid" "current_state f = 0" "wait_list s = []" "fwup_msgs s = 0"
    "received_len f = 0" "program_offset f = 0" "length (fst (imgheader s)) = 56" "length (snd (imgheader s)) = 56"
    "written 0 m0 [] (flash_of s)"
    using assms(1) by (auto simp: opened_def)
  have h: "length hdr = 56" "tls_fwup_img_header_check hw hdr" "bt_upd_img_addr hdr OR FLASH_BASE_ADDR = fw_addr P"
    "bt_upd_img_len hdr = word_of_nat N" using assms(2) by (auto simp: header_for_def)
  let ?r = "(new_request b j)\<lparr>rq_status := TLS_FWUP_REQ_STATUS_BUSY\<rparr>"
  let ?f = "f\<lparr>current_state := 0 OR TLS_FWUP_STATE_BUSY\<rparr>"
  let ?f1 = "?f\<lparr>received_len := word_of_nat (56 + length c), program_base := fw_addr P, total_len := word_of_nat N, updated_len := 0\<rparr>"
  let ?s = "s\<lparr>wait_list := [new_request b j]\<rparr>"
  let ?s1 = "?s\<lparr>booter := hdr, org_checksum := bt_upd_checksum hdr\<rparr>"
  have "take_header hw ?r ?f ?s = Some (Go (c @ j, ?r\<lparr>data_len := length c\<rparr>, ?f1, ?s1))"
    unfolding h(3,4) [symmetric]
    by (rule take_header_first) (use assms(3) f(6) h in \<open>simp_all add: new_request_def\<close>)
  moreover have "progress P N hdr m0 [] ?f1 ?s1" using f(7-10) h by (simp add: progress_def flash_of_def written_def)
  ultimately show ?thesis by (intro that [OF f(1-5), of "?r\<lparr>data_len := length c\<rparr>" ?f1 ?s1]) (simp_all add: f(2,5))
qed

text \<open>One request of an update: \<open>sent\<close> are the bytes of header and image that have arrived before it.\<close>

definition arrived :: "nat \<Rightarrow> nat \<Rightarrow> bytes \<Rightarrow> (nat \<Rightarrow> u8) \<Rightarrow> u32 \<Rightarrow> bytes \<Rightarrow> ('d, 'w) fwup_sys \<Rightarrow> bool" where
  "arrived P N hdr m0 sid sent s \<longleftrightarrow> sent = [] \<and> opened m0 sid s \<or> (\<exists>sofar. sent = hdr @ sofar \<and> receiving P N hdr m0 sid sofar s)"

lemma request_step:
  assumes "arrived P N hdr m0 sid sent s" "update_area P N" "header_for hw P N hdr" "sent @ b @ rest = hdr @ img" "length img = N"
    and "b \<noteq> []" "sent = [] \<Longrightarrow> 56 \<le> length b"
  obtains s' where "tls_fwup_request_sync spi heap hw W True sid (Some (b @ j)) (length b) s
      = Some (if rest \<noteq> [] \<or> image_crc hw img = bt_upd_checksum hdr then TLS_FWUP_STATUS_OK else TLS_FWUP_STATUS_ECRC, s')"
    "rest \<noteq> [] \<Longrightarrow> arrived P N hdr m0 sid (sent @ b) s'" "rest \<noteq> [] \<Longrightarrow> sys_resets s' = sys_resets s"
    "rest = [] \<Longrightarrow> concluded P hdr m0 img (sys_resets s) s'"
proof -
  have h: "length hdr = 56" using assms(3) by (simp add: header_for_def)
  obtain f c sofar r1 f1 s1 where r: "fwup s = Live f" "current_session_id f = sid" "current_state f = 0" "wait_list s = []" "fwup_msgs s = 0"
    "take_header hw ((new_request b j)\<lparr>rq_status := TLS_FWUP_REQ_STATUS_BUSY\<rparr>) (f\<lparr>current_state := 0 OR TLS_FWUP_STATE_BUSY\<rparr>)
      (s\<lparr>wait_list := [new_request b j]\<rparr>) = Some (Go (c @ j, r1, f1, s1))"
    "current_session_id f1 = sid" "current_state f1 = 0 OR TLS_FWUP_STATE_BUSY" "received_len f1 = word_of_nat (56 + length (sofar @ c))"
    "wait_list s1 = [new_request b j]" "fwup_msgs s1 = 0" "sys_resets s1 = sys_resets s"
    "progress P N hdr m0 sofar f1 s1" "data_len r1 = length c" "sent @ b = hdr @ sofar @ c" "rest = [] \<Longrightarrow> c \<noteq> []"
  proof (cases "sent = []")
    case True
    then have eq: "b @ rest = hdr @ img" "56 \<le> length b" using assms(4,7) by auto
    have "take 56 (b @ rest) = hdr" "drop 56 (b @ rest) = img" unfolding eq(1) using h by simp_all
    then have "take 56 b = hdr" "drop 56 b @ rest = img" using eq(2) by simp_all
    then obtain c where c: "b = hdr @ c" "c @ rest = img" using append_take_drop_id by metis
    have "opened m0 sid s" using assms(1) True h by (auto simp: arrived_def)
    moreover have "rest = [] \<Longrightarrow> c \<noteq> []" using c(2) assms(2,5) by (auto simp: update_area_def)
    ultimately show ?thesis using first_request [OF _ assms(3) c(1)] that c(1) True by (metis append_Nil)
  next
    case False
    then obtain sofar where s: "sent = hdr @ sofar" "receiving P N hdr m0 sid sofar s" using assms(1) by (auto simp: arrived_def)
    then have "length sofar + length b \<le> N" using assms(4,5) by auto
    then show ?thesis using receive_request [OF s(2) assms(2) _ assms(6)] that s(1) assms(6) by (metis append_assoc)
  qed
  have img: "img = (sofar @ c) @ rest" using assms(4) r(15) by (metis append_assoc same_append_eq)
  show ?thesis
  proof (cases "rest = []")
    case True
    then have n: "length sofar + length c = N" "sofar @ c = img" using img assms(5) by simp_all
    obtain s' where "tls_fwup_request_sync spi heap hw W True sid (Some (b @ j)) (length b) s
        = Some (if image_crc hw img = bt_upd_checksum hdr then TLS_FWUP_STATUS_OK else TLS_FWUP_STATUS_ECRC, s')"
      "concluded P hdr m0 img (sys_resets s) s'"
      using sync_last [OF r(1-5) assms(6) r(6,8,10,12,13) assms(2) n(1) r(14) r(16) [OF True]] n(2) by metis
    then show ?thesis using that [of s'] True by simp
  next
    case False
    then have n: "length sofar + length c < N" using img assms(5) by auto
    then obtain s' where "tls_fwup_request_sync spi heap hw W True sid (Some (b @ j)) (length b) s = Some (TLS_FWUP_STATUS_OK, s')"
      "receiving P N hdr m0 sid (sofar @ c) s'" "sys_resets s' = sys_resets s"
      using sync_more [OF r(1-5) assms(6) r(6-13) assms(2) n r(14)] by metis
    then show ?thesis using that [of s'] False r(15) by (auto simp: arrived_def)
  qed
qed

text \<open>Header and image, in any pieces that keep the header whole.\<close>

lemma replicate_pred: "xs \<noteq> [] \<Longrightarrow> replicate (length xs) x = x # replicate (length xs - Suc 0) x"
  by (cases xs) auto

lemma send_pieces:
  assumes "arrived P N hdr m0 sid sent s" "update_area P N" "header_for hw P N hdr" "sent @ concat pieces = hdr @ img" "length img = N"
    and "pieces \<noteq> []" "[] \<notin> set pieces" "sent = [] \<Longrightarrow> 56 \<le> length (hd pieces)"
  obtains s' where "send_all spi heap hw W sid pieces s = Some (replicate (length pieces - 1) TLS_FWUP_STATUS_OK
      @ [if image_crc hw img = bt_upd_checksum hdr then TLS_FWUP_STATUS_OK else TLS_FWUP_STATUS_ECRC], s')"
    "concluded P hdr m0 img (sys_resets s) s'"
  using assms
proof (induction pieces arbitrary: sent s thesis)
  case Nil
  then show ?case by simp
next
  case (Cons b pieces)
  have b: "b \<noteq> []" "sent @ b @ concat pieces = hdr @ img" "sent = [] \<Longrightarrow> 56 \<le> length b" using Cons.prems by auto
  obtain s1 where s1: "tls_fwup_request_sync spi heap hw W True sid (Some b) (length b) s
      = Some (if concat pieces \<noteq> [] \<or> image_crc hw img = bt_upd_checksum hdr then TLS_FWUP_STATUS_OK else TLS_FWUP_STATUS_ECRC, s1)"
    "concat pieces \<noteq> [] \<Longrightarrow> arrived P N hdr m0 sid (sent @ b) s1" "concat pieces \<noteq> [] \<Longrightarrow> sys_resets s1 = sys_resets s"
    "concat pieces = [] \<Longrightarrow> concluded P hdr m0 img (sys_resets s) s1"
    using request_step [OF Cons.prems(2-4) b(2) Cons.prems(6) b(1,3), of W "[]"] by auto
  show ?case
  proof (cases "pieces = []")
    case True
    then show ?thesis using Cons.prems(1) s1(1,4) by simp
  next
    case False
    then have ne: "concat pieces \<noteq> []" using Cons.prems(8) by (cases pieces) auto
    have "(sent @ b) @ concat pieces = hdr @ img" "[] \<notin> set pieces" "sent @ b = [] \<Longrightarrow> 56 \<le> length (hd pieces)"
      using b Cons.prems(8) by auto
    then obtain s' where rest: "send_all spi heap hw W sid pieces s1 = Some (replicate (length pieces - 1) TLS_FWUP_STATUS_OK
        @ [if image_crc hw img = bt_upd_checksum hdr then TLS_FWUP_STATUS_OK else TLS_FWUP_STATUS_ECRC], s')"
      "concluded P hdr m0 img (sys_resets s1) s'"
      using Cons.IH [OF _ s1(2) [OF ne] Cons.prems(3,4) _ Cons.prems(6) False] by blast
    have "concluded P hdr m0 img (sys_resets s) s'" using rest(2) s1(3) [OF ne] by simp
    then show ?thesis using Cons.prems(1) [of s'] s1(1) ne rest(1) replicate_pred [OF False, of TLS_FWUP_STATUS_OK] by simp
  qed
qed

text \<open>Opening a session.\<close>

lemma enter_opens:
  assumes "update_ready ident s" "session_loop rnd (rand_calls s) = Some (sid, k)"
    and "sem_created os" "queue_created os" "task_created os"
  obtains s' where "tls_fwup_enter cfg heap os W rnd src s = Some (sid, s')" "opened (mem (chip (flash_of s))) sid s'"
    "sys_resets s' = sys_resets s"
proof -
  obtain blk where blk: "heap (allocs (flash_of s)) 4096 = Some blk" "length blk = 4096" using alloc_totalE [OF heap_total] .
  have fl: "fls_ready (flash_of s)" "fls_capacity ident (flash_of s) = 2 ^ 20" "gsflscache (flash_of s) = None" "gsSector (flash_of s) = 0"
    and h: "length (fst (imgheader s)) = 56" "length (snd (imgheader s)) = 56"
    using assms(1) by (auto simp: update_ready_def)
  obtain f s0 where i: "snd (tls_fwup_init heap os s) = s0" "fwup s0 = Live f" "\<not> fw_busy f" "wait_list s0 = []" "fwup_msgs s0 = 0"
    "prm s0 = prm s" "rand_calls s0 = rand_calls s" "sys_resets s0 = sys_resets s" "imgheader s0 = imgheader s"
  proof (cases "fwup s = Null")
    case True
    obtain b where "heap (fw_allocs s) 52 = Some b" using alloc_totalE [OF heap_total] by metis
    then show ?thesis
      using that [OF refl, of fresh_fwup] True assms(3-5) by (simp add: tls_fwup_init_def fw_alloc_def fresh_fwup_def)
  next
    case False
    then show ?thesis using assms(1) that [OF refl] by (auto simp: update_ready_def tls_fwup_init_def)
  qed
  obtain e where e: "tls_fwup_init heap os s = (e, s0)" using i(1) by (metis prod.collapse)
  define d where "d = (flash_of s)\<lparr>gsflscache := Some blk, allocs := Suc (allocs (flash_of s))\<rparr>"
  have init: "tls_fls_fast_write_init heap (flash_of s) = (TLS_FLS_STATUS_OK, d)"
    using blk fl by (simp add: tls_fls_fast_write_init_def tls_mem_alloc_def fls_ready_def d_def)
  have d: "written 0 (mem (chip (flash_of s))) [] d" using fl blk(2) by (simp add: written_def d_def fls_ready_def fls_capacity_def)
  let ?f = "(clear_session f)\<lparr>current_image_src := src, received_number := - 1, current_session_id := sid, fw_busy := True\<rparr>"
  obtain w where "tls_fwup_enter cfg heap os W rnd src s = Some (sid, set_flash (snd (tls_fls_fast_write_init heap (flash_of s0)))
      (s0\<lparr>rand_calls := k, fw_allocs := Suc (fw_allocs s0), current_hdr := map_option (\<lambda>_. replicate 16 0) (heap (fw_allocs s0) 16),
        fwup := Live ?f, oneshotback := get_oneshot W (wifi s0), wifi := w\<rparr>))"
    using enter_live [OF e i(2,3)] assms(2) i(7) by metis
  then obtain s' where s': "tls_fwup_enter cfg heap os W rnd src s = Some (sid, s')" "fwup s' = Live ?f" "flash_of s' = d" "wait_list s' = []"
    "fwup_msgs s' = 0" "imgheader s' = imgheader s" "sys_resets s' = sys_resets s"
    using i init by (simp add: set_flash_def flash_of_def)
  have "opened (mem (chip (flash_of s))) sid s'"
    using s' d h by (simp add: opened_def clear_session_def)
  then show ?thesis using that s'(1,7) by blast
qed

text \<open>A whole update: from opening the session to the verdict on the image.\<close>

lemma update_run:
  assumes "update_ready ident s" "sem_created os" "queue_created os" "task_created os" "rnd (rand_calls s + j) \<noteq> 0"
    and "update_area P N" "header_for hw P N hdr" "img = c @ concat pieces" "length img = N" "[] \<notin> set pieces"
  obtains sid s1 s2 where "tls_fwup_enter cfg heap os W rnd src s = Some (sid, s1)" "sid \<noteq> 0"
    "send_all spi heap hw W sid ((hdr @ c) # pieces) s1 = Some (replicate (length pieces) TLS_FWUP_STATUS_OK
      @ [if image_crc hw img = bt_upd_checksum hdr then TLS_FWUP_STATUS_OK else TLS_FWUP_STATUS_ECRC], s2)"
    "concluded P hdr (mem (chip (flash_of s))) img (sys_resets s) s2"
proof -
  obtain n where n: "session_loop rnd (rand_calls s) = Some (rnd (rand_calls s + n), Suc (rand_calls s + n))"
    "rnd (rand_calls s + n) \<noteq> 0" using session_loop_returns [of rnd "rand_calls s" j] assms(5) by metis
  obtain s1 where s1: "tls_fwup_enter cfg heap os W rnd src s = Some (rnd (rand_calls s + n), s1)"
    "opened (mem (chip (flash_of s))) (rnd (rand_calls s + n)) s1" "sys_resets s1 = sys_resets s"
    using enter_opens [OF assms(1) n(1) assms(2-4)] .
  have "arrived P N hdr (mem (chip (flash_of s))) (rnd (rand_calls s + n)) [] s1" using s1(2) by (simp add: arrived_def)
  moreover have "[] @ concat ((hdr @ c) # pieces) = hdr @ img" "[] \<notin> set ((hdr @ c) # pieces)" "56 \<le> length (hd ((hdr @ c) # pieces))"
    using assms(7,8,10) by (auto simp: header_for_def)
  ultimately obtain s2 where "send_all spi heap hw W (rnd (rand_calls s + n)) ((hdr @ c) # pieces) s1
      = Some (replicate (length ((hdr @ c) # pieces) - 1) TLS_FWUP_STATUS_OK
        @ [if image_crc hw img = bt_upd_checksum hdr then TLS_FWUP_STATUS_OK else TLS_FWUP_STATUS_ECRC], s2)"
    "concluded P hdr (mem (chip (flash_of s))) img (sys_resets s1) s2"
    using send_pieces [OF _ assms(6,7) _ assms(9)] by blast
  then show ?thesis using that [OF s1(1) n(2)] s1(3) by simp
qed

end

end
