(* ===== verification/Fwup_Props.thy ===== *)
theory Fwup_Props
  imports Fwup_Correct Params_Props
begin

text \<open>
  The properties of the firmware updater. The platform of the witnesses is the chip \<open>nor\<close> with its
  driver and an engine that computes the standard CRC-32; a header is built from its fields.
\<close>

interpretation nor_fwup: fwup_platform nor_exec nor_mem nor_wel nor_id zero_heap std_engine
  by unfold_locales

definition os_ok :: os_result where
  "os_ok = \<lparr>sem_created = True, queue_created = True, task_created = True\<rparr>"

text \<open>A wireless library that stores its flags.\<close>

definition plain_wifi :: "(u8 \<times> u8) wifi_ops" where
  "plain_wifi = \<lparr>get_oneshot = fst, set_oneshot = (\<lambda>v w. (v, snd w)), get_auto = snd, set_auto = (\<lambda>v w. (fst w, v)),
     set_psflag = (\<lambda>v w. w)\<rparr>"

definition fwup_boot :: "'d fls \<Rightarrow> ('d, u8 \<times> u8) fwup_sys" where
  "fwup_boot d = \<lparr>fwup = Null, wait_list = [], completed = [], fwup_msgs = 0, current_hdr = None, oneshotback = 0,
     booter = replicate 56 0, org_checksum = 0, imgheader = (replicate 56 0, replicate 56 0), prm = fresh_params d, wifi = (0, 0),
     rand_calls = 0, fw_allocs = 0, sys_resets = 0\<rparr>"

definition plain_header :: "u32 \<Rightarrow> u32 \<Rightarrow> u32 \<Rightarrow> bytes" where
  "plain_header addr len crc = bsplice 28 (le32 crc) (bsplice 24 (le32 len) (bsplice 20 (le32 addr)
     (bsplice 0 (le32 SIGNATURE_WORD) (replicate 56 0))))"

lemma plain_header_fields [simp]:
  "length (plain_header addr len crc) = 56" "bt_magic_no (plain_header addr len crc) = SIGNATURE_WORD"
  "bt_img_type (plain_header addr len crc) = 0" "bt_upd_img_addr (plain_header addr len crc) = addr"
  "bt_upd_img_len (plain_header addr len crc) = len" "bt_upd_checksum (plain_header addr len crc) = crc"
proof -
  have "bslice 4 2 (replicate 56 0 :: bytes) = [0, 0]" by (simp add: bslice_def drop_replicate numeral_nat)
  then show "bt_img_type (plain_header addr len crc) = 0" by (simp add: plain_header_def bt_img_type_def c_mem de16_def)
qed (simp_all add: plain_header_def bt_magic_no_def bt_upd_img_addr_def bt_upd_img_len_def bt_upd_checksum_def c_mem
  del: bsplice_append)

lemma plain_header_for:
  "header_for std_engine 0x90000 3 (stamp_header std_engine 0 (plain_header 0x8090000 3 crc))"
  using std_crc.stamp_header_fields [of "plain_header 0x8090000 3 crc" 0] std_crc.stamp_header_check [of "plain_header 0x8090000 3 crc" 0]
  by (simp add: header_for_def fw_addr_def fwup_addr_defs)

lemma fwup_boot_ready [simp]: "update_ready nor_id (fwup_boot blank_fls)"
  by (simp add: update_ready_def fwup_boot_def flash_of_def fresh_params_def)

section \<open>Updates\<close>





section \<open>Sessions and requests\<close>

text \<open>C20. Opening a session of an idle module returns exactly when the random numbers do not stay zero forever; it
  then returns a session number that is not zero, and the session is open under that number.\<close>

theorem tls_fwup_enter_returns:
  assumes "fwup s = Live f" "\<not> fw_busy f"
  shows "((\<exists>sid s'. tls_fwup_enter cfg heap os W rnd src s = Some (sid, s')) \<longleftrightarrow> (\<exists>j. rnd (rand_calls s + j) \<noteq> 0))
    \<and> (\<forall>sid s'. tls_fwup_enter cfg heap os W rnd src s = Some (sid, s') \<longrightarrow> sid \<noteq> 0
         \<and> tls_fwup_get_current_session_id s' = Some sid \<and> tls_fwup_get_status s' = Some True)"
proof -
  have init: "tls_fwup_init heap os s = (TLS_FWUP_STATUS_EBUSY, s)" using assms(1) by (simp add: tls_fwup_init_def)
  show ?thesis
  proof (cases "session_loop rnd (rand_calls s)")
    case None
    then have "rnd (rand_calls s + j) = 0" for j using session_loop_returns [of rnd "rand_calls s" j] by (metis option.distinct(1))
    then show ?thesis using None init assms by (simp add: tls_fwup_enter_def)
  next
    case (Some r)
    then have "session_loop rnd (rand_calls s) = Some (fst r, snd r)" by simp
    from enter_live [OF init assms this] obtain s' where
      "tls_fwup_enter cfg heap os W rnd src s = Some (fst r, s')" "tls_fwup_get_current_session_id s' = Some (fst r)"
      "tls_fwup_get_status s' = Some True"
      by (fastforce simp: tls_fwup_get_current_session_id_def tls_fwup_get_status_def set_flash_def)
    then show ?thesis using session_loop_nonzero [OF Some] by (metis option.inject prod.inject)
  qed
qed

theorem tls_fwup_enter_returns_witness:
  "\<exists>sid s'. tls_fwup_enter cfg0 zero_heap os_ok plain_wifi word_of_nat TLS_FWUP_IMAGE_SRC_WEB ((fwup_boot blank_fls)\<lparr>fwup := Live fresh_fwup\<rparr>)
      = Some (sid, s') \<and> sid \<noteq> 0 \<and> tls_fwup_get_status s' = Some True"
proof -
  let ?s = "(fwup_boot blank_fls)\<lparr>fwup := Live fresh_fwup\<rparr>"
  have "fwup ?s = Live fresh_fwup" "\<not> fw_busy fresh_fwup" by (simp_all add: fresh_fwup_def)
  moreover have "\<exists>j. (word_of_nat (rand_calls ?s + j) :: u32) \<noteq> 0" by (rule exI [of _ 1]) (simp add: fwup_boot_def)
  ultimately show ?thesis
    using tls_fwup_enter_returns [of ?s fresh_fwup cfg0 zero_heap os_ok plain_wifi word_of_nat TLS_FWUP_IMAGE_SRC_WEB] by blast
qed

text \<open>Bits of the state that the task's own BUSY bit does not touch.\<close>

lemma busy_keeps_verdict:
  "(st OR TLS_FWUP_STATE_BUSY) AND TLS_FWUP_STATE_ERROR = st AND TLS_FWUP_STATE_ERROR"
  "(st OR TLS_FWUP_STATE_BUSY) AND TLS_FWUP_STATE_COMPLETE = st AND TLS_FWUP_STATE_COMPLETE"
  by (simp_all add: fwup_state_defs bit.conj_disj_distrib2)

lemma error_bit_set:
  "st AND TLS_FWUP_STATE_ERROR \<noteq> 0 \<Longrightarrow> st AND TLS_FWUP_STATE_ERROR_IO \<noteq> 0 \<or> st AND TLS_FWUP_STATE_ERROR_SIGNATURE \<noteq> 0
     \<or> st AND TLS_FWUP_STATE_ERROR_MEM \<noteq> 0 \<or> st AND TLS_FWUP_STATE_ERROR_CRC \<noteq> 0"
  by (auto simp: TLS_FWUP_STATE_ERROR_def bit.conj_disj_distrib)

text \<open>C21. Requests are refused, and the parameters and the flash stay as they are, when the session number is wrong, the
  request is empty, or the session has failed or is complete; a second session cannot be opened beside one.\<close>

theorem requests_refused:
  assumes "fwup s = Live f" "wait_list s = []" "fwup_msgs s = 0" "b \<noteq> []"
  shows "(sid \<noteq> current_session_id f \<longrightarrow>
      tls_fwup_request_sync spi heap hw W True sid (Some b) (length b) s = Some (TLS_FWUP_STATUS_ESESSIONID, s))
    \<and> (sid = current_session_id f \<longrightarrow>
      tls_fwup_request_sync spi heap hw W True sid None n s = Some (TLS_FWUP_STATUS_EINVALID, s)
      \<and> tls_fwup_request_sync spi heap hw W True sid (Some b) 0 s = Some (TLS_FWUP_STATUS_EINVALID, s))
    \<and> (sid = current_session_id f \<and> current_state f AND (TLS_FWUP_STATE_ERROR OR TLS_FWUP_STATE_COMPLETE) \<noteq> 0 \<longrightarrow>
      (\<exists>err s'. tls_fwup_request_sync spi heap hw W True sid (Some b) (length b) s = Some (err, s')
        \<and> err \<noteq> TLS_FWUP_STATUS_OK \<and> prm s' = prm s))
    \<and> (fw_busy f \<longrightarrow> tls_fwup_enter cfg heap os W rnd src s = Some (0, s))"
proof -
  have closed: "\<exists>err s'. tls_fwup_request_sync spi heap hw W True sid (Some b) (length b) s = Some (err, s')
        \<and> err \<noteq> TLS_FWUP_STATUS_OK \<and> prm s' = prm s"
    if sid: "current_session_id f = sid" and st: "current_state f AND (TLS_FWUP_STATE_ERROR OR TLS_FWUP_STATE_COMPLETE) \<noteq> 0"
  proof -
    let ?f = "f\<lparr>current_state := current_state f OR TLS_FWUP_STATE_BUSY\<rparr>"
    let ?s = "s\<lparr>wait_list := [new_request b []]\<rparr>"
    let ?r = "(new_request b [])\<lparr>rq_status := if current_state f AND TLS_FWUP_STATE_ERROR \<noteq> 0
      then discard_status (current_state f OR TLS_FWUP_STATE_BUSY) TLS_FWUP_REQ_STATUS_BUSY else TLS_FWUP_REQ_STATUS_FCOMPLETE\<rparr>"
    have c: "current_state f AND TLS_FWUP_STATE_ERROR \<noteq> 0 \<or> current_state f AND TLS_FWUP_STATE_COMPLETE \<noteq> 0"
      using st by (auto simp: bit.conj_disj_distrib)
    have "serve_request spi heap hw W (new_request b []) ?f ?s = Some (?r, ?f, ?s)"
      using c by (auto simp: serve_request_def busy_keeps_verdict Let_def)
    then have "tls_fwup_request_sync spi heap hw W True sid (Some b) (length b) s = Some (request_result (rq_status ?r), after_request W ?r ?f ?s)"
      using sync_serves [OF assms(1) sid assms(2-4), where j = "[]"] by simp
    moreover have "request_result (rq_status ?r) \<noteq> TLS_FWUP_STATUS_OK"
      using c error_bit_set [of "current_state f OR TLS_FWUP_STATE_BUSY"] busy_keeps_verdict(1) [of "current_state f"]
      by (auto simp: discard_status_def request_result_def fwup_req_defs fwup_status_defs)
    moreover have "prm (after_request W ?r ?f ?s) = prm s" by (simp add: after_request_def Let_def)
    ultimately show ?thesis by blast
  qed
  have "fw_busy f \<Longrightarrow> tls_fwup_enter cfg heap os W rnd src s = Some (0, s)"
    using assms(1) by (simp add: tls_fwup_enter_def tls_fwup_init_def)
  then show ?thesis using closed assms(1) by (auto simp: tls_fwup_request_sync_def)
qed

theorem requests_refused_witness:
  "\<exists>err s'. tls_fwup_request_sync nor_exec zero_heap std_engine plain_wifi True 0 (Some [7]) 1
      ((fwup_boot blank_fls)\<lparr>fwup := Live (fresh_fwup\<lparr>current_state := TLS_FWUP_STATE_ERROR_CRC\<rparr>)\<rparr>) = Some (err, s')
    \<and> err \<noteq> TLS_FWUP_STATUS_OK \<and> prm s' = prm (fwup_boot blank_fls)"
  using requests_refused [of "(fwup_boot blank_fls)\<lparr>fwup := Live (fresh_fwup\<lparr>current_state := TLS_FWUP_STATE_ERROR_CRC\<rparr>)\<rparr>"
      "fresh_fwup\<lparr>current_state := TLS_FWUP_STATE_ERROR_CRC\<rparr>" "[7]" 0 nor_exec zero_heap std_engine plain_wifi]
  by (simp add: fwup_boot_def fresh_fwup_def fwup_state_defs)

text \<open>A first request shorter than a header succeeds and resets the system: no length of the image is known yet,
  and the test for its end compares 0 with 0.\<close>

theorem short_first_request_resets:
  assumes "fwup s = Live f" "current_state f = 0" "received_len f = 0" "total_len f = 0" "updated_len f = 0"
    and "wait_list s = []" "fwup_msgs s = 0" "0 < n" "n < 56" "56 \<le> length b" "sid = current_session_id f"
  shows "\<exists>s'. tls_fwup_request_sync spi heap hw W True sid (Some b) n s = Some (TLS_FWUP_STATUS_OK, s')
    \<and> sys_resets s' = Suc (sys_resets s)"
proof -
  have n: "(word_of_nat n :: u32) \<noteq> 56" using assms(9) u32_unat_of_nat [of n] by auto
  show ?thesis
    using assms n state_bits(1,2)
    by (simp add: tls_fwup_request_sync_def tls_fwup_request_async_def fwup_scheduler_def serve_request_def take_header_def
        write_image_def request_finish_def request_result_def Let_def)
qed

theorem short_first_request_resets_witness:
  "\<exists>s'. tls_fwup_request_sync nor_exec zero_heap std_engine plain_wifi True 0 (Some (replicate 56 1)) 8
      ((fwup_boot blank_fls)\<lparr>fwup := Live fresh_fwup\<rparr>) = Some (TLS_FWUP_STATUS_OK, s') \<and> sys_resets s' = 1"
  using short_first_request_resets [of "(fwup_boot blank_fls)\<lparr>fwup := Live fresh_fwup\<rparr>" fresh_fwup 8 "replicate 56 1" 0
      nor_exec zero_heap std_engine plain_wifi]
  by (simp add: fwup_boot_def fresh_fwup_def)

text \<open>The check of a header in exact arithmetic: without overflow an accepted header describes an image inside the
  update area; but the sum of address and length wraps, and a header with a length of almost 4 GB is accepted.\<close>

theorem header_check_length_wraps:
  assumes "crc_engine hw" "length b = 56"
  shows "(tls_fwup_img_header_check hw b \<and> unat (bt_upd_img_addr b OR FLASH_BASE_ADDR) + unat (bt_upd_img_len b) < 2 ^ 32 \<longrightarrow>
      0x8090000 \<le> unat (bt_upd_img_addr b OR FLASH_BASE_ADDR)
      \<and> unat (bt_upd_img_addr b OR FLASH_BASE_ADDR) + unat (bt_upd_img_len b) \<le> 0x80F0000)
    \<and> tls_fwup_img_header_check hw (stamp_header hw k (plain_header 0x8090000 0xF8000000 crc))"
proof -
  have "tls_fwup_img_header_check hw (stamp_header hw k (plain_header 0x8090000 0xF8000000 crc))"
    by (subst crc_engine.stamp_header_check [OF assms(1)]) (simp_all add: fwup_addr_defs)
  then show ?thesis
    using crc_engine.header_check_iff [OF assms]
    by (auto simp: word_le_nat_alt unat_word_ariths(1) fwup_addr_defs)
qed

theorem header_check_length_wraps_witness:
  "tls_fwup_img_header_check std_engine (stamp_header std_engine 0 (plain_header 0x8090000 0xF8000000 1))
    \<and> unat (bt_upd_img_len (stamp_header std_engine 0 (plain_header 0x8090000 0xF8000000 1))) = 0xF8000000"
  using header_check_length_wraps [OF std_crc.crc_engine_axioms, of "plain_header 0x8090000 0xF8000000 1" 0 1]
    std_crc.stamp_header_fields(5) [of "plain_header 0x8090000 0xF8000000 1" 0]
  by simp

end
