(* ===== verification/Timers.thy ===== *)
theory Timers
  imports Prelude
begin

text \<open>
  The tasks of the wireless side with their timers and mailboxes: \<^verbatim>\<open>wm_wl_timers.c\<close>, \<^verbatim>\<open>wm_wl_mbox.c\<close> and
  \<^verbatim>\<open>wm_wl_task.c\<close> under \<^verbatim>\<open>src/Platform/Common/task\<close>. Each task has a list of timers in which an entry
  counts from the one before it, and a mailbox. Pointers are their addresses, 0 is \<^verbatim>\<open>NULL\<close>. The
  queues and the clock of the operating system are the parameter \<open>os_ops\<close>; what a called function does is
  the parameter \<open>call\<close>.
\<close>

type_synonym ptr = u32

record tls_timeo =
  tm_time :: u32
  tm_h :: ptr
  tm_arg :: ptr

text \<open>
  A message in a mailbox: one of the allocated ones by its contents, which nobody changes after it was
  posted, or the static one with the index \<open>i\<close> of \<^verbatim>\<open>wl_msg\<close>.
\<close>

datatype task_msg = TASK_MSG_TIMEOUT u32 ptr ptr | TASK_MSG_UNTIMEOUT ptr ptr | TASK_MSG_CALLBACK ptr ptr
  | TASK_MSG_CALLBACK_STATIC nat

record cbs_msg =
  cbs_function :: ptr
  cbs_ctx :: ptr
  cbs_cnt :: u8

record 'o os_ops =
  q_create :: "nat \<Rightarrow> nat \<Rightarrow> 'o \<Rightarrow> bool \<times> 'o"
  q_send :: "nat \<Rightarrow> task_msg \<Rightarrow> 'o \<Rightarrow> bool \<times> 'o"
  q_receive :: "nat \<Rightarrow> u32 \<Rightarrow> 'o \<Rightarrow> task_msg option \<times> 'o"
  os_time :: "'o \<Rightarrow> u32"
  time_delay :: "nat \<Rightarrow> 'o \<Rightarrow> 'o"

record 'o wl_sys =
  next_timeout :: "tls_timeo list list"
  task_mbox :: "bool list"
  wl_msg :: "cbs_msg list"
  wl_allocs :: nat
  os :: 'o

definition SYS_ARCH_TIMEOUT :: u32 where "SYS_ARCH_TIMEOUT = 0xffffffff"
definition HZ :: u32 where "HZ = 500"

section \<open>Mailboxes\<close>

definition tls_mbox_new :: "'o os_ops \<Rightarrow> nat \<Rightarrow> nat \<Rightarrow> 'o wl_sys \<Rightarrow> bool \<times> 'o wl_sys" where
  "tls_mbox_new Q mbox sz s =
    (let sz = (if sz = 0 then 10 else sz); (ok, o') = q_create Q mbox sz (os s)
     in (ok, s\<lparr>os := o', task_mbox := (if ok then (task_mbox s)[mbox := True] else task_mbox s)\<rparr>))"

definition tls_mbox_valid :: "nat \<Rightarrow> 'o wl_sys \<Rightarrow> bool" where
  "tls_mbox_valid mbox s = (task_mbox s ! mbox)"

text \<open>Up to \<open>n\<close> attempts to post, with a pause of 5 ticks after each that failed.\<close>

fun post_loop :: "'o os_ops \<Rightarrow> nat \<Rightarrow> task_msg \<Rightarrow> nat \<Rightarrow> 'o \<Rightarrow> 'o" where
  "post_loop Q mbox msg 0 o' = o'"
| "post_loop Q mbox msg (Suc n) o' =
    (case q_send Q mbox msg o' of (ok, o') \<Rightarrow> if ok then o' else post_loop Q mbox msg n (time_delay Q 5 o'))"

definition tls_mbox_post :: "'o os_ops \<Rightarrow> nat \<Rightarrow> task_msg \<Rightarrow> 'o wl_sys \<Rightarrow> 'o wl_sys" where
  "tls_mbox_post Q mbox msg s = s\<lparr>os := post_loop Q mbox msg 10 (os s)\<rparr>"

definition tls_mbox_trypost :: "'o os_ops \<Rightarrow> nat \<Rightarrow> task_msg \<Rightarrow> 'o wl_sys \<Rightarrow> bool \<times> 'o wl_sys" where
  "tls_mbox_trypost Q mbox msg s = (case q_send Q mbox msg (os s) of (ok, o') \<Rightarrow> (ok, s\<lparr>os := o'\<rparr>))"

text \<open>Milliseconds to ticks and back, in 32-bit arithmetic.\<close>

definition wait_ticks :: "u32 \<Rightarrow> u32" where
  "wait_ticks timeout =
    (let in_timeout = timeout * HZ div 1000 in if timeout \<noteq> 0 \<and> in_timeout = 0 then 1 else in_timeout)"

definition elapsed_ticks :: "u32 \<Rightarrow> u32 \<Rightarrow> u32" where
  "elapsed_ticks tick_start tick_stop =
    (if tick_stop \<ge> tick_start then tick_stop - tick_start else 0xFFFFFFFF - tick_start + tick_stop)"

definition tls_arch_mbox_fetch :: "'o os_ops \<Rightarrow> nat \<Rightarrow> u32 \<Rightarrow> 'o \<Rightarrow> u32 \<times> task_msg option \<times> 'o" where
  "tls_arch_mbox_fetch Q mbox timeout o' =
    (let tick_start = os_time Q o'; (msg, o') = q_receive Q mbox (wait_ticks timeout) o'
     in if msg = None then (SYS_ARCH_TIMEOUT, None, o')
        else (elapsed_ticks tick_start (os_time Q o') * 1000 div HZ, msg, o'))"

section \<open>Timers\<close>

text \<open>
  The loop of \<^verbatim>\<open>tls_timeout_p\<close>: the new timer goes behind \<open>t\<close> when it is the last one or the next one is
  later.
\<close>

fun timeout_behind :: "tls_timeo \<Rightarrow> tls_timeo list \<Rightarrow> tls_timeo list" where
  "timeout_behind timeout [] = []"
| "timeout_behind timeout (t # ts) =
    (let timeout = timeout\<lparr>tm_time := tm_time timeout - tm_time t\<rparr>
     in case ts of
          [] \<Rightarrow> [t, timeout]
        | n # rest \<Rightarrow>
           (if tm_time n > tm_time timeout then t # timeout # n\<lparr>tm_time := tm_time n - tm_time timeout\<rparr> # rest
            else t # timeout_behind timeout ts))"

definition add_timeo :: "tls_timeo \<Rightarrow> tls_timeo list \<Rightarrow> tls_timeo list" where
  "add_timeo timeout ts =
    (case ts of
       [] \<Rightarrow> [timeout]
     | t # rest \<Rightarrow>
        (if tm_time t > tm_time timeout then timeout # t\<lparr>tm_time := tm_time t - tm_time timeout\<rparr> # rest
         else timeout_behind timeout ts))"

text \<open>The assigned number is an index of \<^verbatim>\<open>next_timeout\<close>; the result \<open>None\<close> is an access outside the array.\<close>

definition tls_timeout_p ::
    "allocator \<Rightarrow> nat \<Rightarrow> u32 \<Rightarrow> ptr \<Rightarrow> ptr \<Rightarrow> 'o wl_sys \<Rightarrow> 'o wl_sys option" where
  "tls_timeout_p heap timeo_assigned msecs handler arg s =
    (let blk = heap (wl_allocs s) 16; s = s\<lparr>wl_allocs := Suc (wl_allocs s)\<rparr>
     in if blk = None then Some s
        else if timeo_assigned \<ge> length (next_timeout s) then None
        else Some (s\<lparr>next_timeout := (next_timeout s)[timeo_assigned :=
               add_timeo \<lparr>tm_time = msecs, tm_h = handler, tm_arg = arg\<rparr> (next_timeout s ! timeo_assigned)]\<rparr>))"

text \<open>The first entry with this handler and argument leaves the list; its time goes to the one behind it.\<close>

fun drop_timeo :: "ptr \<Rightarrow> ptr \<Rightarrow> tls_timeo list \<Rightarrow> tls_timeo list" where
  "drop_timeo handler arg [] = []"
| "drop_timeo handler arg (t # ts) =
    (if tm_h t = handler \<and> tm_arg t = arg
     then (case ts of [] \<Rightarrow> [] | n # rest \<Rightarrow> n\<lparr>tm_time := tm_time n + tm_time t\<rparr> # rest)
     else t # drop_timeo handler arg ts)"

definition tls_untimeout_p :: "nat \<Rightarrow> ptr \<Rightarrow> ptr \<Rightarrow> 'o wl_sys \<Rightarrow> 'o wl_sys option" where
  "tls_untimeout_p timeo_assigned handler arg s =
    (if timeo_assigned \<ge> length (next_timeout s) then None
     else Some (s\<lparr>next_timeout := (next_timeout s)[timeo_assigned := drop_timeo handler arg (next_timeout s ! timeo_assigned)]\<rparr>))"

text \<open>
  Waiting for a message while timers run out. \<open>call f x s\<close> is what calling \<open>f\<close> with \<open>x\<close> does; it may add
  timers. The result \<open>None\<close> is a wait that never ends or an access outside the array; a message \<open>None\<close>
  leaves the caller's pointer as it was.
\<close>

definition time_left :: "u32 \<Rightarrow> u32 \<Rightarrow> u32" where
  "time_left time time_needed = (if time_needed < time then time - time_needed else 0)"

definition await_first :: "'o os_ops \<Rightarrow> nat \<Rightarrow> tls_timeo \<Rightarrow> 'o \<Rightarrow> u32 \<times> task_msg option \<times> 'o" where
  "await_first Q mbox t o' = (if tm_time t > 0 then tls_arch_mbox_fetch Q mbox (tm_time t) o' else (SYS_ARCH_TIMEOUT, None, o'))"

definition expire_first :: "(ptr \<Rightarrow> ptr \<Rightarrow> 'o wl_sys \<Rightarrow> 'o wl_sys) \<Rightarrow> nat \<Rightarrow> tls_timeo \<Rightarrow> tls_timeo list \<Rightarrow> 'o wl_sys \<Rightarrow> 'o wl_sys" where
  "expire_first call timeo_assigned t ts s =
    (let s = s\<lparr>next_timeout := (next_timeout s)[timeo_assigned := ts]\<rparr>
     in if tm_h t \<noteq> 0 then call (tm_h t) (tm_arg t) s else s)"

partial_function (option) tls_timeouts_mbox_fetch_p ::
    "'o os_ops \<Rightarrow> (ptr \<Rightarrow> ptr \<Rightarrow> 'o wl_sys \<Rightarrow> 'o wl_sys) \<Rightarrow> nat \<Rightarrow> nat \<Rightarrow> 'o wl_sys \<Rightarrow> (task_msg option \<times> 'o wl_sys) option" where
  "tls_timeouts_mbox_fetch_p Q call timeo_assigned mbox s =
    (if timeo_assigned \<ge> length (next_timeout s) then None
     else case next_timeout s ! timeo_assigned of
       [] \<Rightarrow> (case tls_arch_mbox_fetch Q mbox 0 (os s) of (_, msg, o') \<Rightarrow> Some (msg, s\<lparr>os := o'\<rparr>))
     | t # ts \<Rightarrow>
        (case await_first Q mbox t (os s) of (time_needed, msg, o') \<Rightarrow>
           if time_needed = SYS_ARCH_TIMEOUT
           then tls_timeouts_mbox_fetch_p Q call timeo_assigned mbox (expire_first call timeo_assigned t ts (s\<lparr>os := o'\<rparr>))
           else Some (msg, s\<lparr>os := o', next_timeout :=
                  (next_timeout s)[timeo_assigned := t\<lparr>tm_time := time_left (tm_time t) time_needed\<rparr> # ts]\<rparr>)))"

definition tls_wl_timer_init :: "'o wl_sys \<Rightarrow> 'o wl_sys" where
  "tls_wl_timer_init s = s\<lparr>next_timeout := replicate 9 []\<rparr>"

section \<open>Tasks\<close>

record task_parameter =
  mbox_size :: nat
  mbox_id :: nat
  timeo_id :: nat

text \<open>One turn of a task's loop. The message pointer is stale when no message was fetched: the result is \<open>None\<close>.\<close>

definition task_thread ::
    "'o os_ops \<Rightarrow> allocator \<Rightarrow> (ptr \<Rightarrow> ptr \<Rightarrow> 'o wl_sys \<Rightarrow> 'o wl_sys) \<Rightarrow> task_parameter \<Rightarrow> 'o wl_sys \<Rightarrow> 'o wl_sys option" where
  "task_thread Q heap call task_param s =
    (case tls_timeouts_mbox_fetch_p Q call (timeo_id task_param) (mbox_id task_param) s of
       None \<Rightarrow> None
     | Some (None, s) \<Rightarrow> None
     | Some (Some msg, s) \<Rightarrow>
        (case msg of
           TASK_MSG_CALLBACK f ctx \<Rightarrow> Some (call f ctx s)
         | TASK_MSG_CALLBACK_STATIC i \<Rightarrow>
            (if i \<ge> length (wl_msg s) then None
             else let m = wl_msg s ! i
                  in Some (call (cbs_function m) (cbs_ctx m) (s\<lparr>wl_msg := (wl_msg s)[i := m\<lparr>cbs_cnt := cbs_cnt m - 1\<rparr>]\<rparr>)))
         | TASK_MSG_TIMEOUT msecs h arg \<Rightarrow> tls_timeout_p heap (timeo_id task_param) msecs h arg s
         | TASK_MSG_UNTIMEOUT h arg \<Rightarrow> tls_untimeout_p (timeo_id task_param) h arg s))"

definition tls_wl_task_run :: "'o os_ops \<Rightarrow> task_parameter \<Rightarrow> 'o wl_sys \<Rightarrow> int \<times> 'o wl_sys" where
  "tls_wl_task_run Q task_param s =
    (case tls_mbox_new Q (mbox_id task_param) (mbox_size task_param) s of (ok, s) \<Rightarrow> (if ok then 0 else - 1, s))"

text \<open>\<^verbatim>\<open>TLS_OS_SUCCESS\<close> is \<open>True\<close>, \<^verbatim>\<open>TLS_OS_ERROR\<close> is \<open>False\<close>.\<close>

definition tls_wl_task_callback_static ::
    "'o os_ops \<Rightarrow> task_parameter \<Rightarrow> ptr \<Rightarrow> ptr \<Rightarrow> bool \<Rightarrow> nat \<Rightarrow> 'o wl_sys \<Rightarrow> (bool \<times> 'o wl_sys) option" where
  "tls_wl_task_callback_static Q task_param function ctx block msg_id s =
    (if msg_id \<ge> length (wl_msg s) \<or> mbox_id task_param \<ge> length (task_mbox s) then None
     else if cbs_cnt (wl_msg s ! msg_id) > 0 then Some (False, s)
     else if tls_mbox_valid (mbox_id task_param) s then
       (let s = s\<lparr>wl_msg := (wl_msg s)[msg_id := (wl_msg s ! msg_id)\<lparr>cbs_function := function, cbs_ctx := ctx\<rparr>]\<rparr>;
            (ok, s) = (if block then (True, tls_mbox_post Q (mbox_id task_param) (TASK_MSG_CALLBACK_STATIC msg_id) s)
                       else tls_mbox_trypost Q (mbox_id task_param) (TASK_MSG_CALLBACK_STATIC msg_id) s)
        in if \<not> ok then Some (False, s)
           else Some (True, s\<lparr>wl_msg := (wl_msg s)[msg_id := (wl_msg s ! msg_id)\<lparr>cbs_cnt := cbs_cnt (wl_msg s ! msg_id) + 1\<rparr>]\<rparr>))
     else Some (False, s))"

definition tls_wl_task_callback ::
    "'o os_ops \<Rightarrow> allocator \<Rightarrow> task_parameter \<Rightarrow> ptr \<Rightarrow> ptr \<Rightarrow> bool \<Rightarrow> 'o wl_sys \<Rightarrow> (bool \<times> 'o wl_sys) option" where
  "tls_wl_task_callback Q heap task_param function ctx block s =
    (if mbox_id task_param \<ge> length (task_mbox s) then None
     else if tls_mbox_valid (mbox_id task_param) s then
       (let blk = heap (wl_allocs s) 20; s = s\<lparr>wl_allocs := Suc (wl_allocs s)\<rparr>
        in if blk = None then Some (False, s)
           else if block then Some (True, tls_mbox_post Q (mbox_id task_param) (TASK_MSG_CALLBACK function ctx) s)
           else Some (tls_mbox_trypost Q (mbox_id task_param) (TASK_MSG_CALLBACK function ctx) s))
     else Some (False, s))"

text \<open>The two functions that send a timer request to the task share their shape.\<close>

definition post_to_task :: "'o os_ops \<Rightarrow> allocator \<Rightarrow> task_parameter \<Rightarrow> task_msg \<Rightarrow> 'o wl_sys \<Rightarrow> (bool \<times> 'o wl_sys) option" where
  "post_to_task Q heap task_param msg s =
    (if mbox_id task_param \<ge> length (task_mbox s) then None
     else if tls_mbox_valid (mbox_id task_param) s then
       (let blk = heap (wl_allocs s) 20; s = s\<lparr>wl_allocs := Suc (wl_allocs s)\<rparr>
        in if blk = None then Some (False, s) else Some (True, tls_mbox_post Q (mbox_id task_param) msg s))
     else Some (False, s))"

definition tls_wl_task_add_timeout ::
    "'o os_ops \<Rightarrow> allocator \<Rightarrow> task_parameter \<Rightarrow> u32 \<Rightarrow> ptr \<Rightarrow> ptr \<Rightarrow> 'o wl_sys \<Rightarrow> (bool \<times> 'o wl_sys) option" where
  "tls_wl_task_add_timeout Q heap task_param msecs h arg s = post_to_task Q heap task_param (TASK_MSG_TIMEOUT msecs h arg) s"

definition tls_wl_task_untimeout ::
    "'o os_ops \<Rightarrow> allocator \<Rightarrow> task_parameter \<Rightarrow> ptr \<Rightarrow> ptr \<Rightarrow> 'o wl_sys \<Rightarrow> (bool \<times> 'o wl_sys) option" where
  "tls_wl_task_untimeout Q heap task_param h arg s = post_to_task Q heap task_param (TASK_MSG_UNTIMEOUT h arg) s"

text \<open>\<^verbatim>\<open>tls_wl_task_init\<close> clears \<^verbatim>\<open>sizeof(struct task_msg)\<close> bytes: the first of the static messages only.\<close>

definition tls_wl_task_init :: "'o wl_sys \<Rightarrow> 'o wl_sys" where
  "tls_wl_task_init s = s\<lparr>wl_msg := (wl_msg s)[0 := \<lparr>cbs_function = 0, cbs_ctx = 0, cbs_cnt = 0\<rparr>]\<rparr>"

end
