(* ===== verification/Timers_Correct.thy ===== *)
theory Timers_Correct
  imports Timers
begin

text \<open>
  The list of timers against its specification: a list of deadlines in the order they run out. The locale
  \<open>timer_queue\<close> is the contract of the list, the interpretation \<open>delta\<close> discharges it for \<open>add_timeo\<close> and
  \<open>drop_timeo\<close>, whose entries count from the entry before them. On top of it stand runs of the list with a
  clock, and the loop that waits for messages while timers run out.
\<close>

section \<open>Deadlines\<close>

type_synonym deadline = "nat \<times> ptr \<times> ptr"

fun deadlines :: "nat \<Rightarrow> tls_timeo list \<Rightarrow> deadline list" where
  "deadlines now [] = []"
| "deadlines now (t # ts) = (now + unat (tm_time t), tm_h t, tm_arg t) # deadlines (now + unat (tm_time t)) ts"

text \<open>The time at which the last timer runs out still fits a word.\<close>

definition span :: "tls_timeo list \<Rightarrow> nat" where
  "span ts = sum_list (map (\<lambda>t. unat (tm_time t)) ts)"

definition timers_ok :: "tls_timeo list \<Rightarrow> bool" where
  "timers_ok ts \<longleftrightarrow> span ts < 2 ^ 32"

text \<open>The specification: a new deadline goes behind those that are not later; cancelling removes the first match.\<close>

definition put_deadline :: "nat \<Rightarrow> 'k \<Rightarrow> (nat \<times> 'k) list \<Rightarrow> (nat \<times> 'k) list" where
  "put_deadline d k ds = takeWhile (\<lambda>x. fst x \<le> d) ds @ (d, k) # dropWhile (\<lambda>x. fst x \<le> d) ds"

fun cancel_deadline :: "'k \<Rightarrow> (nat \<times> 'k) list \<Rightarrow> (nat \<times> 'k) list" where
  "cancel_deadline k [] = []"
| "cancel_deadline k (x # xs) = (if snd x = k then xs else x # cancel_deadline k xs)"

lemma put_deadline_simps [simp]:
  "put_deadline d k [] = [(d, k)]"
  "put_deadline d k ((e, l) # ds) = (if e \<le> d then (e, l) # put_deadline d k ds else (d, k) # (e, l) # ds)"
  by (simp_all add: put_deadline_def)

lemma span_simps [simp]: "span [] = 0" "span (t # ts) = unat (tm_time t) + span ts"
  by (simp_all add: span_def)

lemma deadlines_from: "\<forall>x \<in> set (deadlines now ts). now \<le> fst x"
  by (induction ts arbitrary: now) fastforce+

lemma deadlines_sorted: "sorted (map fst (deadlines now ts))"
  using deadlines_from by (induction ts arbitrary: now) auto

lemma cancel_put: "k \<notin> snd ` set ds \<Longrightarrow> cancel_deadline k (put_deadline d k ds) = ds"
  by (induction ds) auto

section \<open>The contract of a timer list\<close>

locale timer_queue =
  fixes inv :: "'q \<Rightarrow> bool" and view :: "nat \<Rightarrow> 'q \<Rightarrow> (nat \<times> 'k) list"
    and add :: "nat \<Rightarrow> 'k \<Rightarrow> 'q \<Rightarrow> 'q" and cancel :: "'k \<Rightarrow> 'q \<Rightarrow> 'q" and limit :: nat
  assumes add_inv: "inv q \<Longrightarrow> d < limit \<Longrightarrow> inv (add d k q)"
    and add_view: "inv q \<Longrightarrow> d < limit \<Longrightarrow> view now (add d k q) = put_deadline (now + d) k (view now q)"
    and cancel_inv: "inv q \<Longrightarrow> inv (cancel k q)"
    and cancel_view: "inv q \<Longrightarrow> view now (cancel k q) = cancel_deadline k (view now q)"
begin

text \<open>Cancelling a timer that was just set leaves the others as they were.\<close>

lemma cancel_add:
  "inv q \<Longrightarrow> d < limit \<Longrightarrow> k \<notin> snd ` set (view now q) \<Longrightarrow> view now (cancel k (add d k q)) = view now q"
  by (simp add: add_inv add_view cancel_view cancel_put)

end

section \<open>Lists that count from the entry before\<close>

lemma u32_unat_diff: "b \<le> a \<Longrightarrow> unat (a - b) = unat a - unat b" for a b :: u32
  by (simp add: unat_sub word_le_nat_alt)

lemma u32_unat_diff_less:
  fixes a b :: u32
  assumes "b < a"
  shows "unat (a - b) = unat a - unat b" "unat b < unat a"
  using assms u32_unat_diff [of b a] by (simp_all add: word_less_nat_alt word_le_nat_alt)

lemma u32_unat_add: "unat a + unat b < 2 ^ 32 \<Longrightarrow> unat (a + b) = unat a + unat b" for a b :: u32
  by (simp add: unat_word_ariths(1))

lemma timeout_behind_ok:
  assumes "tm_time t \<le> tm_time new" "span (t # ts) < 2 ^ 32"
  shows "deadlines now (timeout_behind new (t # ts))
      = put_deadline (now + unat (tm_time new)) (tm_h new, tm_arg new) (deadlines now (t # ts))
    \<and> span (timeout_behind new (t # ts)) = max (span (t # ts)) (unat (tm_time new))"
  using assms
proof (induction ts arbitrary: t new now)
  case Nil
  have "unat (tm_time t) \<le> unat (tm_time new)" using Nil.prems(1) by (simp add: word_le_nat_alt)
  then show ?case using Nil.prems(1) by (simp add: u32_unat_diff Let_def)
next
  case (Cons n rest)
  let ?new = "new\<lparr>tm_time := tm_time new - tm_time t\<rparr>"
  have le: "unat (tm_time t) \<le> unat (tm_time new)" using Cons.prems(1) by (simp add: word_le_nat_alt)
  have d: "unat (tm_time new - tm_time t) = unat (tm_time new) - unat (tm_time t)"
    using Cons.prems(1) by (rule u32_unat_diff)
  show ?case
  proof (cases "tm_time n > tm_time ?new")
    case True
    show ?thesis using True u32_unat_diff_less [OF True] d le by (auto simp: Let_def max_def ac_simps)
  next
    case False
    then have "tm_time n \<le> tm_time ?new" by simp
    moreover have "span (n # rest) < 2 ^ 32" using Cons.prems(2) by simp
    ultimately have IH: "deadlines (now + unat (tm_time t)) (timeout_behind ?new (n # rest))
        = put_deadline (now + unat (tm_time t) + unat (tm_time ?new)) (tm_h ?new, tm_arg ?new) (deadlines (now + unat (tm_time t)) (n # rest))"
      "span (timeout_behind ?new (n # rest)) = max (span (n # rest)) (unat (tm_time ?new))"
      using Cons.IH [of n ?new "now + unat (tm_time t)"] by auto
    have "timeout_behind new (t # n # rest) = t # timeout_behind ?new (n # rest)"
      using False by (simp del: timeout_behind.simps add: timeout_behind.simps(2) [of new t] Let_def)
    then show ?thesis using IH d le by (auto simp del: timeout_behind.simps simp: max_def)
  qed
qed

lemma add_timeo_ok:
  assumes "timers_ok ts"
  shows "deadlines now (add_timeo new ts) = put_deadline (now + unat (tm_time new)) (tm_h new, tm_arg new) (deadlines now ts)"
    "timers_ok (add_timeo new ts)"
proof -
  have "deadlines now (add_timeo new ts) = put_deadline (now + unat (tm_time new)) (tm_h new, tm_arg new) (deadlines now ts)
      \<and> span (add_timeo new ts) = max (span ts) (unat (tm_time new))"
  proof (cases ts)
    case Nil
    then show ?thesis by (simp add: add_timeo_def)
  next
    case (Cons t rest)
    show ?thesis
    proof (cases "tm_time t > tm_time new")
      case True
      show ?thesis using Cons True u32_unat_diff_less [OF True] by (auto simp: add_timeo_def max_def)
    next
      case False
      then show ?thesis using timeout_behind_ok [of t new rest now] assms Cons by (simp add: add_timeo_def timers_ok_def)
    qed
  qed
  then show "deadlines now (add_timeo new ts) = put_deadline (now + unat (tm_time new)) (tm_h new, tm_arg new) (deadlines now ts)"
    "timers_ok (add_timeo new ts)"
    using assms u32_unat_less [of "tm_time new"] by (auto simp: timers_ok_def)
qed

lemma drop_timeo_ok:
  assumes "timers_ok ts"
  shows "deadlines now (drop_timeo h a ts) = cancel_deadline (h, a) (deadlines now ts)" "timers_ok (drop_timeo h a ts)"
proof -
  have "deadlines now (drop_timeo h a ts) = cancel_deadline (h, a) (deadlines now ts) \<and> span (drop_timeo h a ts) \<le> span ts"
    using assms
  proof (induction ts arbitrary: now)
    case (Cons t ts)
    have ok: "timers_ok ts" using Cons.prems by (simp add: timers_ok_def)
    show ?case
    proof (cases ts)
      case Nil
      then show ?thesis by simp
    next
      case (Cons n rest)
      have "unat (tm_time n + tm_time t) = unat (tm_time n) + unat (tm_time t)"
        using Cons.prems Cons by (intro u32_unat_add) (simp add: timers_ok_def)
      then show ?thesis using Cons.IH [OF ok] Cons by (auto simp: ac_simps)
    qed
  qed simp
  then show "deadlines now (drop_timeo h a ts) = cancel_deadline (h, a) (deadlines now ts)" "timers_ok (drop_timeo h a ts)"
    using assms by (auto simp: timers_ok_def)
qed

definition set_timer :: "nat \<Rightarrow> ptr \<times> ptr \<Rightarrow> tls_timeo list \<Rightarrow> tls_timeo list" where
  "set_timer d k ts = add_timeo \<lparr>tm_time = word_of_nat d, tm_h = fst k, tm_arg = snd k\<rparr> ts"

interpretation delta: timer_queue timers_ok deadlines set_timer "\<lambda>k. drop_timeo (fst k) (snd k)" "2 ^ 32"
  by unfold_locales (simp_all add: set_timer_def add_timeo_ok drop_timeo_ok u32_unat_of_nat)

section \<open>Runs with a clock\<close>

text \<open>
  What happens to a list of timers: a timer is set or cancelled, a message arrives while the first timer
  is awaited, or the first timer runs out. The clock counts the time the task has waited for timers.
\<close>

datatype timer_event = Set_timer u32 ptr ptr | Cancel_timer ptr ptr | Message_after u32 | First_expires

fun timer_step :: "nat \<times> tls_timeo list \<Rightarrow> timer_event \<Rightarrow> nat \<times> tls_timeo list" where
  "timer_step (now, ts) (Set_timer m h a) = (now, add_timeo \<lparr>tm_time = m, tm_h = h, tm_arg = a\<rparr> ts)"
| "timer_step (now, ts) (Cancel_timer h a) = (now, drop_timeo h a ts)"
| "timer_step (now, []) e = (now, [])"
| "timer_step (now, t # ts) (Message_after e) = (now + min (unat e) (unat (tm_time t)), t\<lparr>tm_time := time_left (tm_time t) e\<rparr> # ts)"
| "timer_step (now, t # ts) First_expires = (now + unat (tm_time t), ts)"

text \<open>The specification of the same events on a list of deadlines: only the clock moves while time passes.\<close>

fun deadline_step :: "nat \<times> deadline list \<Rightarrow> timer_event \<Rightarrow> nat \<times> deadline list" where
  "deadline_step (now, ds) (Set_timer m h a) = (now, put_deadline (now + unat m) (h, a) ds)"
| "deadline_step (now, ds) (Cancel_timer h a) = (now, cancel_deadline (h, a) ds)"
| "deadline_step (now, []) e = (now, [])"
| "deadline_step (now, d # ds) (Message_after e) = (min (now + unat e) (fst d), d # ds)"
| "deadline_step (now, d # ds) First_expires = (fst d, ds)"

definition timer_view :: "nat \<times> tls_timeo list \<Rightarrow> nat \<times> deadline list" where
  "timer_view s = (fst s, deadlines (fst s) (snd s))"

lemma unat_time_left: "unat (time_left m e) = unat m - unat e"
  by (simp add: time_left_def word_less_nat_alt u32_unat_diff word_le_nat_alt)

lemma timer_step_refines:
  assumes "timers_ok (snd s)"
  shows "timer_view (timer_step s e) = deadline_step (timer_view s) e" "timers_ok (snd (timer_step s e))"
proof -
  obtain now ts where s: "s = (now, ts)" by force
  have "timer_view (timer_step s e) = deadline_step (timer_view s) e \<and> timers_ok (snd (timer_step s e))"
  proof (cases e)
    case (Set_timer m h a)
    then show ?thesis using assms s by (simp add: timer_view_def add_timeo_ok)
  next
    case (Cancel_timer h a)
    then show ?thesis using assms s by (simp add: timer_view_def drop_timeo_ok)
  next
    case (Message_after e)
    then show ?thesis using assms s by (cases ts) (auto simp: timer_view_def timers_ok_def unat_time_left min_def)
  next
    case First_expires
    then show ?thesis using assms s by (cases ts) (auto simp: timer_view_def timers_ok_def)
  qed
  then show "timer_view (timer_step s e) = deadline_step (timer_view s) e" "timers_ok (snd (timer_step s e))" by simp_all
qed

lemma timer_run_refines:
  assumes "timers_ok (snd s)"
  shows "timer_view (foldl timer_step s es) = foldl deadline_step (timer_view s) es \<and> timers_ok (snd (foldl timer_step s es))"
  using assms by (induction es arbitrary: s) (auto simp: timer_step_refines)


section \<open>Waiting for messages\<close>


text \<open>An operating system whose queue has nothing for a while and then the message \<open>m\<close>: the state is the time left
  until it arrives and the clock.\<close>

definition late_queue :: "task_msg \<Rightarrow> (nat \<times> u32) os_ops" where
  "late_queue m = \<lparr>q_create = (\<lambda>b n o'. (True, o')), q_send = (\<lambda>b m o'. (True, o')),
     q_receive = (\<lambda>b w o'. if w \<noteq> 0 \<and> unat w < fst o' then (None, (fst o' - unat w, snd o' + w)) else (Some m, (0, snd o' + word_of_nat (fst o')))),
     os_time = snd, time_delay = (\<lambda>n o'. o')\<rparr>"

definition two_timers :: "(nat \<times> u32) wl_sys" where
  "two_timers = \<lparr>next_timeout = [[\<lparr>tm_time = 100, tm_h = 8, tm_arg = 0\<rparr>, \<lparr>tm_time = 50, tm_h = 12, tm_arg = 1\<rparr>]], task_mbox = [True],
     wl_msg = [], wl_allocs = 0, os = (60, 0)\<rparr>"


text \<open>Conversions between milliseconds and ticks: waits of up to 8589934 ms are converted exactly, rounded down but
  never to 0; beyond, the product wraps, and a wait of three hours lasts 37 minutes. An elapsed time is exact unless the
  tick counter wrapped, when it is one tick too short.\<close>

theorem tick_conversions:
  "(unat ms \<le> 8589934 \<longrightarrow> unat (wait_ticks ms) = (if 0 < unat ms \<and> unat ms < 2 then 1 else unat ms div 2))
    \<and> unat (wait_ticks (3 * 60 * 60 * 1000)) = 1105032
    \<and> (start \<le> stop \<longrightarrow> unat (elapsed_ticks start stop) = unat stop - unat start)
    \<and> (stop < start \<longrightarrow> unat (elapsed_ticks start stop) = 2 ^ 32 - unat start + unat stop - 1)"
proof -
  have w: "unat (wait_ticks ms) = (if 0 < unat ms \<and> unat ms < 2 then 1 else unat ms div 2)" if "unat ms \<le> 8589934"
  proof -
    have "unat (ms * HZ) = unat ms * 500" using that by (simp add: unat_word_ariths(2) HZ_def)
    then have u: "unat (ms * HZ div 1000) = unat ms div 2" by (simp add: unat_div)
    then have "ms * HZ div 1000 = 0 \<longleftrightarrow> unat ms div 2 = 0" by (metis unat_eq_zero)
    then show ?thesis using u by (auto simp: wait_ticks_def Let_def word_neq_0_conv word_less_nat_alt)
  qed
  have e: "unat (elapsed_ticks start stop) = 2 ^ 32 - unat start + unat stop - 1" if "stop < start"
  proof -
    have lt: "unat stop < unat start" using that by (simp add: word_less_nat_alt)
    have "unat (0xFFFFFFFF - start :: u32) = 2 ^ 32 - 1 - unat start"
      using u32_unat_diff [of start "0xFFFFFFFF"] u32_unat_less [of start] by (simp add: word_le_nat_alt)
    then have "unat (0xFFFFFFFF - start + stop) = 2 ^ 32 - 1 - unat start + unat stop"
      using lt u32_unat_less [of start] by (subst u32_unat_add) auto
    moreover have "\<not> start \<le> stop" using that by simp
    ultimately show ?thesis using lt u32_unat_less [of start] by (simp add: elapsed_ticks_def)
  qed
  have "unat (elapsed_ticks start stop) = unat stop - unat start" if "start \<le> stop"
    using that by (simp add: elapsed_ticks_def u32_unat_diff)
  moreover have "unat (wait_ticks (3 * 60 * 60 * 1000)) = 1105032" by (simp add: wait_ticks_def HZ_def)
  ultimately show ?thesis using w e by blast
qed

theorem tick_conversions_witness:
  "unat (wait_ticks 10) = 5 \<and> unat (elapsed_ticks 7 9) = 2 \<and> unat (elapsed_ticks 0xFFFFFFFF 0) = 0"
proof -
  have "unat (wait_ticks 10) = 5 \<and> unat (elapsed_ticks 7 9) = 2" using tick_conversions [of 10 7 9] by simp
  moreover have "unat (elapsed_ticks 0xFFFFFFFF 0) = 0" using tick_conversions [of 0 "0xFFFFFFFF" 0] by simp
  ultimately show ?thesis by simp
qed

end
