(* ===== verification/Ota.thy ===== *)
theory Ota
  imports Fwup
begin

text \<open>
  Firmware updates over a socket, \<^verbatim>\<open>src/Src/App/OTA/wm_socket_fwup.c\<close>: a stream of packets, each an operation,
  a length in network order and data, is cut into pieces by TCP, put together again and handed to the
  firmware updater. The record \<open>fw_env\<close> collects the parameters of the updater. A packet buffer is the
  list of its bytes; the result \<open>None\<close> is a loop that does not end or undefined behaviour.
\<close>

record ('d, 'w) fw_env =
  env_cfg :: param_cfg
  env_spi :: "'d spi"
  env_heap :: allocator
  env_hw :: crc_unit
  env_wifi :: "'w wifi_ops"
  env_os :: os_result
  env_rnd :: "nat \<Rightarrow> u32"

record ('d, 'w) ota_sys =
  operation :: u8
  datalen :: u16
  pack_data :: "bytes option"
  current_offset :: u16
  session_id :: u32
  fw :: "('d, 'w) fwup_sys"
  closed_sockets :: nat
  ota_allocs :: nat

definition SOCKET_FWUP_START :: u8 where "SOCKET_FWUP_START = 1"
definition SOCKET_FWUP_END :: u8 where "SOCKET_FWUP_END = 2"
definition SOCKET_FWUP_DATA :: u8 where "SOCKET_FWUP_DATA = 3"
definition SOCKET_FWUP_PACK_SIZE :: u16 where "SOCKET_FWUP_PACK_SIZE = 2048"
definition ERR_OK :: int where "ERR_OK = 0"
definition ERR_ABRT :: int where "ERR_ABRT = - 13"

lemmas ota_defs = SOCKET_FWUP_START_def SOCKET_FWUP_END_def SOCKET_FWUP_DATA_def SOCKET_FWUP_PACK_SIZE_def ERR_OK_def ERR_ABRT_def

definition free_current_pack :: "('d, 'w) ota_sys \<Rightarrow> ('d, 'w) ota_sys" where
  "free_current_pack st =
    (let st = st\<lparr>session_id := 0\<rparr>
     in if pack_data st \<noteq> None then st\<lparr>operation := 0, datalen := 0, pack_data := None\<rparr> else st)"

definition close_update :: "('d, 'w) fw_env \<Rightarrow> ('d, 'w) ota_sys \<Rightarrow> ('d, 'w) ota_sys option" where
  "close_update E st =
    map_option (\<lambda>(_, s). free_current_pack (st\<lparr>closed_sockets := Suc (closed_sockets st), fw := s\<rparr>))
      (tls_fwup_exit (env_cfg E) (env_wifi E) (session_id st) (fw st))"

text \<open>
  One turn of the loop over the bytes \<open>rest\<close> that have not been looked at: it returns, leaves the loop, or
  goes on with what remains. \<open>pbuf_copy_partial\<close> copies as many bytes as there are, up to the number
  asked for.
\<close>

datatype 'a turn = Return int 'a | Break 'a | Next bytes 'a

definition recv_header :: "('d, 'w) fw_env \<Rightarrow> bytes \<Rightarrow> ('d, 'w) ota_sys \<Rightarrow> ('d, 'w) ota_sys turn option" where
  "recv_header E rest st =
    (let st = st\<lparr>current_offset := 0, operation := (case rest of [] \<Rightarrow> operation st | x # _ \<Rightarrow> x)\<rparr>;
         rest = drop 1 rest;
         st = st\<lparr>datalen := swap16 (de16 (bsplice 0 (take 2 rest) (le16 (datalen st))))\<rparr>;
         rest = drop 2 rest
     in if operation st > SOCKET_FWUP_DATA \<or> operation st < SOCKET_FWUP_START then Some (Return ERR_ABRT st)
        else case (if operation st = SOCKET_FWUP_START
                   then tls_fwup_enter (env_cfg E) (env_heap E) (env_os E) (env_wifi E) (env_rnd E) TLS_FWUP_IMAGE_SRC_WEB (fw st)
                   else Some (session_id st, fw st)) of
          None \<Rightarrow> None
        | Some (sid, s) \<Rightarrow>
           (let starting = (operation st = SOCKET_FWUP_START); st = st\<lparr>session_id := sid, fw := s\<rparr>
            in if starting \<and> sid = 0 then Some (Return ERR_ABRT st)
               else if datalen st = 0 then Some (Return ERR_ABRT st)
               else Some (Next rest st)))"

definition recv_data :: "('d, 'w) fw_env \<Rightarrow> bytes \<Rightarrow> ('d, 'w) ota_sys \<Rightarrow> ('d, 'w) ota_sys turn option" where
  "recv_data E rest st =
    (case pack_data st of
       None \<Rightarrow> None
     | Some buf \<Rightarrow>
        (let b = take (unat (datalen st - current_offset st)) rest;
             buf = bsplice (unat (current_offset st)) b buf;
             st = st\<lparr>pack_data := Some buf, current_offset := current_offset st + word_of_nat (length b)\<rparr>;
             rest = drop (length b) rest
         in if current_offset st = datalen st then
              (case tls_fwup_request_sync (env_spi E) (env_heap E) (env_hw E) (env_wifi E) True (session_id st) (Some buf)
                      (unat (datalen st)) (fw st) of
                 None \<Rightarrow> None
               | Some (ret, s) \<Rightarrow>
                  (let st = st\<lparr>fw := s\<rparr>
                   in if ret \<noteq> TLS_FWUP_STATUS_OK then Some (Return ERR_ABRT st)
                      else if operation st = SOCKET_FWUP_END then map_option Break (close_update E st)
                      else Some (Next rest (st\<lparr>operation := 0\<rparr>))))
            else Some (Next rest st)))"

definition recv_turn :: "('d, 'w) fw_env \<Rightarrow> bytes \<Rightarrow> ('d, 'w) ota_sys \<Rightarrow> ('d, 'w) ota_sys turn option" where
  "recv_turn E rest st =
    (if operation st < SOCKET_FWUP_START then recv_header E rest st
     else if datalen st > 0 \<and> datalen st \<le> SOCKET_FWUP_PACK_SIZE then recv_data E rest st
     else if datalen st = 0 then
       (if operation st = SOCKET_FWUP_END then map_option Break (close_update E st)
        else Some (Next rest (st\<lparr>operation := 0\<rparr>)))
     else Some (Next rest st))"

partial_function (option) recv_loop :: "('d, 'w) fw_env \<Rightarrow> bytes \<Rightarrow> ('d, 'w) ota_sys \<Rightarrow> (int \<times> ('d, 'w) ota_sys) option" where
  "recv_loop E rest st =
    (case recv_turn E rest st of
       None \<Rightarrow> None
     | Some t \<Rightarrow>
        (case t of
           Return err st \<Rightarrow> Some (err, st)
         | Break st \<Rightarrow> Some (ERR_OK, st)
         | Next rest st \<Rightarrow> (if rest = [] then Some (ERR_OK, st) else recv_loop E rest st)))"

definition socket_fwup_recv :: "('d, 'w) fw_env \<Rightarrow> bytes option \<Rightarrow> ('d, 'w) ota_sys \<Rightarrow> (int \<times> ('d, 'w) ota_sys) option" where
  "socket_fwup_recv E p st = (case p of None \<Rightarrow> None | Some b \<Rightarrow> recv_loop E b st)"

definition socket_fwup_err :: "('d, 'w) fw_env \<Rightarrow> ('d, 'w) ota_sys \<Rightarrow> ('d, 'w) ota_sys option" where
  "socket_fwup_err E st =
    map_option (\<lambda>(_, s). free_current_pack (st\<lparr>fw := s\<rparr>)) (tls_fwup_exit (env_cfg E) (env_wifi E) (session_id st) (fw st))"

definition socket_fwup_poll :: "('d, 'w) ota_sys \<Rightarrow> int \<times> ('d, 'w) ota_sys" where
  "socket_fwup_poll st = (ERR_OK, st)"

definition socket_fwup_accept :: "('d, 'w) fw_env \<Rightarrow> int \<Rightarrow> ('d, 'w) ota_sys \<Rightarrow> (int \<times> ('d, 'w) ota_sys) option" where
  "socket_fwup_accept E err st =
    (if err = ERR_OK then
       (case (if session_id st = 0 then Some True
              else map_option (\<lambda>x. x = TLS_FWUP_STATE_UNDEF) (tls_fwup_current_state (session_id st) (fw st))) of
          None \<Rightarrow> None
        | Some free \<Rightarrow>
           (if free then
              (let blk = env_heap E (ota_allocs st) 2048;
                   st = st\<lparr>operation := 0, datalen := 0, ota_allocs := Suc (ota_allocs st), pack_data := map_option (\<lambda>_. replicate 2048 0) blk\<rparr>
               in if blk = None then Some (ERR_ABRT, st) else Some (ERR_OK, st))
            else Some (ERR_ABRT, st)))
     else Some (err, st))"

end
