(* ===== verification/Ota_Correct.thy ===== *)
theory Ota_Correct
  imports Ota Fwup_Props
begin

text \<open>
  Updates over a socket, composed with the firmware updater and the flash driver: however TCP cuts the
  stream of packets, as long as it cuts no packet header, the image that was sent is installed. The
  predicate \<open>pending\<close> relates the state between two calls of \<open>socket_fwup_recv\<close> to the part of the stream that
  is still to come.
\<close>

section \<open>Streams of packets\<close>

type_synonym packet = "u8 \<times> bytes"

definition packet_header :: "packet \<Rightarrow> bytes" where
  "packet_header p = fst p # rev (le16 (word_of_nat (length (snd p))))"

definition stream :: "packet list \<Rightarrow> bytes" where
  "stream ps = concat (map (\<lambda>p. packet_header p @ snd p) ps)"

definition payload :: "packet list \<Rightarrow> bytes" where
  "payload ps = concat (map snd ps)"

text \<open>The packets behind the first: data, and the end marker on the last one.\<close>

fun tail_packets :: "packet list \<Rightarrow> bool" where
  "tail_packets [] = False"
| "tail_packets [p] = (fst p = SOCKET_FWUP_END \<and> snd p \<noteq> [] \<and> length (snd p) \<le> 2048)"
| "tail_packets (p # ps) = (fst p = SOCKET_FWUP_DATA \<and> snd p \<noteq> [] \<and> length (snd p) \<le> 2048 \<and> tail_packets ps)"

text \<open>Positions of a stream that do not lie inside a packet header; \<open>todo\<close> is what is left of the current packet.\<close>

fun cut_ok :: "bytes \<Rightarrow> packet list \<Rightarrow> nat \<Rightarrow> bool" where
  "cut_ok todo [] n = (n \<le> length todo)"
| "cut_ok todo (p # ps) n = (n \<le> length todo \<or> length todo + 3 \<le> n \<and> cut_ok (snd p) ps (n - length todo - 3))"

lemma stream_simps [simp]: "stream [] = []" "stream (p # ps) = packet_header p @ snd p @ stream ps"
  "payload [] = []" "payload (p # ps) = snd p @ payload ps"
  by (simp_all add: stream_def payload_def)

lemma length_packet_header [simp]: "length (packet_header p) = 3"
  by (simp add: packet_header_def)

lemma cut_ok_zero [simp]: "cut_ok todo ps 0"
  by (cases ps) auto

lemma cut_ok_advance: "length xs \<le> length todo \<Longrightarrow> cut_ok todo ps (length xs + n) = cut_ok (drop (length xs) todo) ps n"
  by (cases ps) (auto simp: add.commute)

lemma cut_ok_header: "cut_ok [] (p # ps) n \<Longrightarrow> n \<noteq> 0 \<Longrightarrow> 3 \<le> n \<and> cut_ok (snd p) ps (n - 3)"
  by simp

lemma tail_packets_Cons:
  "tail_packets (p # ps) \<longleftrightarrow> snd p \<noteq> [] \<and> length (snd p) \<le> 2048 \<and> (if ps = [] then fst p = SOCKET_FWUP_END else fst p = SOCKET_FWUP_DATA \<and> tail_packets ps)"
  by (cases ps) auto

lemma u16_unat_of_nat: "k < 2 ^ 16 \<Longrightarrow> unat (word_of_nat k :: u16) = k"
  by (simp add: unsigned_of_nat take_bit_eq_mod)

lemma datalen_read:
  "swap16 (de16 (bsplice 0 (rev (le16 n)) (le16 m))) = n" "drop 2 (rev (le16 n) @ xs) = xs" "take 2 (rev (le16 n) @ xs) = rev (le16 n)"
proof -
  have "de16 (bsplice 0 (rev (le16 n)) (le16 m)) = swap16 n" by (simp add: bsplice_full swap16_def)
  then show "swap16 (de16 (bsplice 0 (rev (le16 n)) (le16 m))) = n" by simp
qed simp_all

text \<open>The calls of the receiver for a sequence of segments, all of which have to be accepted.\<close>

fun receive_all :: "('d, 'w) fw_env \<Rightarrow> bytes list \<Rightarrow> ('d, 'w) ota_sys \<Rightarrow> ('d, 'w) ota_sys option" where
  "receive_all E [] st = Some st"
| "receive_all E (seg # segs) st =
    (case socket_fwup_recv E (Some seg) st of
       None \<Rightarrow> None
     | Some (err, st) \<Rightarrow> if err = ERR_OK then receive_all E segs st else None)"

section \<open>The receiver\<close>

lemma exit_keeps_flash: "tls_fwup_exit cfg W sid s = Some (e, s') \<Longrightarrow> flash_of s' = flash_of s"
  by (auto simp: tls_fwup_exit_def flash_of_def Let_def split: fwup_ptr.splits if_splits)

lemma exit_defined: "fwup s = Live f \<Longrightarrow> \<exists>e s'. tls_fwup_exit cfg W sid s = Some (e, s')"
  by (simp add: tls_fwup_exit_def Let_def)

text \<open>The state with the bytes \<open>got\<close> of a packet in the buffer, and the request for a packet that is complete.\<close>

definition hold :: "bytes \<Rightarrow> bytes \<Rightarrow> ('d, 'w) ota_sys \<Rightarrow> ('d, 'w) ota_sys" where
  "hold got j st = st\<lparr>pack_data := Some (got @ j), current_offset := word_of_nat (length got)\<rparr>"

definition deliver :: "('d, 'w) fw_env \<Rightarrow> bytes \<Rightarrow> bytes \<Rightarrow> bytes \<Rightarrow> ('d, 'w) ota_sys \<Rightarrow> ('d, 'w) ota_sys turn option" where
  "deliver E got j rest st =
    (case tls_fwup_request_sync (env_spi E) (env_heap E) (env_hw E) (env_wifi E) True (session_id st) (Some (got @ j)) (length got) (fw st) of
       None \<Rightarrow> None
     | Some (ret, s) \<Rightarrow>
        (let st = (hold got j st)\<lparr>fw := s\<rparr>
         in if ret \<noteq> TLS_FWUP_STATUS_OK then Some (Return ERR_ABRT st)
            else if operation st = SOCKET_FWUP_END then map_option Break (close_update E st)
            else Some (Next rest (st\<lparr>operation := 0\<rparr>))))"

locale ota_platform = fwup_platform "env_spi E" mem wel ident "env_heap E" "env_hw E"
  for E :: "('d, 'w) fw_env" and mem :: "'d \<Rightarrow> nat \<Rightarrow> u8" and wel :: "'d \<Rightarrow> bool" and ident :: "'d \<Rightarrow> u32" +
  fixes P N :: nat and hdr img :: bytes and m0 :: "nat \<Rightarrow> u8"
  assumes os_calls: "sem_created (env_os E)" "queue_created (env_os E)" "task_created (env_os E)"
    and image: "update_area P N" "header_for (env_hw E) P N hdr" "length img = N" "image_crc (env_hw E) img = bt_upd_checksum hdr"
begin

definition has_buffer :: "('d, 'w) ota_sys \<Rightarrow> bool" where
  "has_buffer st \<longleftrightarrow> (\<exists>b. pack_data st = Some b \<and> length b = 2048)"

text \<open>Before the first packet, between two packets, inside a packet of which \<open>got\<close> has arrived, and at the end.\<close>

definition starting :: "packet list \<Rightarrow> ('d, 'w) ota_sys \<Rightarrow> bool" where
  "starting ps st \<longleftrightarrow> operation st = 0 \<and> has_buffer st \<and> update_ready ident (fw st) \<and> mem (chip (flash_of (fw st))) = m0
     \<and> (\<exists>j. env_rnd E (rand_calls (fw st) + j) \<noteq> 0)
     \<and> (\<exists>d qs. ps = (SOCKET_FWUP_START, d) # qs \<and> 56 \<le> length d \<and> length d \<le> 2048 \<and> tail_packets qs \<and> d @ payload qs = hdr @ img)"

definition between :: "bytes \<Rightarrow> packet list \<Rightarrow> ('d, 'w) ota_sys \<Rightarrow> bool" where
  "between sent ps st \<longleftrightarrow> operation st = 0 \<and> has_buffer st \<and> arrived P N hdr m0 (session_id st) sent (fw st) \<and> sent \<noteq> []
     \<and> tail_packets ps \<and> sent @ payload ps = hdr @ img"

definition inside :: "bytes \<Rightarrow> bytes \<Rightarrow> bytes \<Rightarrow> packet list \<Rightarrow> ('d, 'w) ota_sys \<Rightarrow> bool" where
  "inside sent got todo ps st \<longleftrightarrow> operation st = (if ps = [] then SOCKET_FWUP_END else operation st) \<and> SOCKET_FWUP_START \<le> operation st
     \<and> (ps \<noteq> [] \<longrightarrow> operation st \<noteq> SOCKET_FWUP_END \<and> tail_packets ps)
     \<and> datalen st = word_of_nat (length (got @ todo)) \<and> length (got @ todo) \<le> 2048 \<and> todo \<noteq> []
     \<and> current_offset st = word_of_nat (length got) \<and> (\<exists>j. pack_data st = Some (got @ j) \<and> length (got @ j) = 2048)
     \<and> arrived P N hdr m0 (session_id st) sent (fw st) \<and> (sent = [] \<longrightarrow> 56 \<le> length (got @ todo))
     \<and> sent @ got @ todo @ payload ps = hdr @ img"

definition finished :: "('d, 'w) ota_sys \<Rightarrow> bool" where
  "finished st \<longleftrightarrow> (let m = mem (chip (flash_of (fw st)))
     in mem_bytes m P N = img \<and> mem_bytes m 0xFC000 56 = stamp_header (env_hw E) (next_upd_no (env_hw E) m0) hdr
        \<and> (\<forall>i. outside_update P (P + N) i \<longrightarrow> m i = m0 i)) \<and> session_id st = 0 \<and> pack_data st = None"

definition pending :: "bytes \<Rightarrow> packet list \<Rightarrow> ('d, 'w) ota_sys \<Rightarrow> bool" where
  "pending todo ps st \<longleftrightarrow> (\<exists>sent got. inside sent got todo ps st)
     \<or> todo = [] \<and> (starting ps st \<or> (\<exists>sent. between sent ps st) \<or> ps = [] \<and> finished st)"

lemma turn_start:
  assumes "starting (p # ps) st"
  obtains st' where "recv_turn E (packet_header p @ xs) st = Some (Next xs st')" "pending (snd p) ps st'"
proof -
  obtain d j where p: "p = (SOCKET_FWUP_START, d)" "56 \<le> length d" "length d \<le> 2048" "tail_packets ps" "d @ payload ps = hdr @ img"
    and s: "operation st = 0" "has_buffer st" "update_ready ident (fw st)" "mem (chip (flash_of (fw st))) = m0"
      "env_rnd E (rand_calls (fw st) + j) \<noteq> 0"
    using assms by (auto simp: starting_def)
  obtain n where n: "session_loop (env_rnd E) (rand_calls (fw st)) = Some (env_rnd E (rand_calls (fw st) + n), Suc (rand_calls (fw st) + n))"
    "env_rnd E (rand_calls (fw st) + n) \<noteq> 0" using session_loop_returns [of "env_rnd E" "rand_calls (fw st)" j] s(5) by metis
  let ?sid = "env_rnd E (rand_calls (fw st) + n)"
  obtain s1 where s1: "tls_fwup_enter (env_cfg E) (env_heap E) (env_os E) (env_wifi E) (env_rnd E) TLS_FWUP_IMAGE_SRC_WEB (fw st) = Some (?sid, s1)"
    "opened m0 ?sid s1"
    using enter_opens [OF s(3) n(1) os_calls] s(4) by metis
  let ?st = "st\<lparr>current_offset := 0, operation := SOCKET_FWUP_START, datalen := word_of_nat (length d), session_id := ?sid, fw := s1\<rparr>"
  have len: "(word_of_nat (length d) :: u16) \<noteq> 0" using p(2,3) u16_unat_of_nat [of "length d"] by auto
  have op: "operation st < SOCKET_FWUP_START" using s(1) by (simp add: ota_defs)
  have "recv_turn E (packet_header p @ xs) st = recv_header E (packet_header p @ xs) st" using op by (simp add: recv_turn_def)
  also have "\<dots> = Some (Next xs ?st)"
    using p(1) s1(1) n(2) len by (simp add: recv_header_def packet_header_def datalen_read Let_def ota_defs)
  finally have t: "recv_turn E (packet_header p @ xs) st = Some (Next xs ?st)" .
  have "inside [] [] d ps ?st"
    using p s(2) s1(2) by (auto simp: inside_def arrived_def has_buffer_def ota_defs)
  then show ?thesis using that [OF t] p(1) by (auto simp: pending_def)
qed

lemma turn_header:
  assumes "between sent (p # ps) st"
  obtains st' where "recv_turn E (packet_header p @ xs) st = Some (Next xs st')" "pending (snd p) ps st'"
proof -
  have s: "operation st = 0" "has_buffer st" "arrived P N hdr m0 (session_id st) sent (fw st)" "sent \<noteq> []" "tail_packets (p # ps)"
    "sent @ snd p @ payload ps = hdr @ img" using assms by (auto simp: between_def)
  have p: "snd p \<noteq> []" "length (snd p) \<le> 2048" "if ps = [] then fst p = SOCKET_FWUP_END else fst p = SOCKET_FWUP_DATA \<and> tail_packets ps"
    using s(5) by (auto simp: tail_packets_Cons)
  let ?st = "st\<lparr>current_offset := 0, operation := fst p, datalen := word_of_nat (length (snd p))\<rparr>"
  have len: "(word_of_nat (length (snd p)) :: u16) \<noteq> 0" using p(1,2) u16_unat_of_nat [of "length (snd p)"] by auto
  have op: "operation st < SOCKET_FWUP_START" using s(1) by (simp add: ota_defs)
  have "recv_turn E (packet_header p @ xs) st = recv_header E (packet_header p @ xs) st" using op by (simp add: recv_turn_def)
  also have "\<dots> = Some (Next xs ?st)"
    using p len by (auto simp: recv_header_def packet_header_def datalen_read Let_def ota_defs split: if_splits)
  finally have t: "recv_turn E (packet_header p @ xs) st = Some (Next xs ?st)" .
  have "inside sent [] (snd p) ps ?st"
    using p s by (auto simp: inside_def has_buffer_def ota_defs split: if_splits)
  then show ?thesis using that [OF t] by (auto simp: pending_def)
qed

text \<open>Inside a packet the loop copies what it finds, up to the end of the packet.\<close>

lemma inside_turn:
  assumes "inside sent got todo ps st" "b = take (length todo) xs"
  obtains j where "length (got @ j) = 2048"
    "recv_turn E xs st = (if length b = length todo then deliver E (got @ b) (drop (length b) j) (drop (length b) xs) st
       else Some (Next (drop (length b) xs) (hold (got @ b) (drop (length b) j) st)))"
proof -
  obtain j where i: "SOCKET_FWUP_START \<le> operation st" "datalen st = word_of_nat (length (got @ todo))" "length (got @ todo) \<le> 2048" "todo \<noteq> []"
    "current_offset st = word_of_nat (length got)" "pack_data st = Some (got @ j)" "length (got @ j) = 2048"
    using assms(1) by (auto simp: inside_def)
  have dl: "unat (datalen st) = length (got @ todo)" unfolding i(2) using i(3) by (intro u16_unat_of_nat) simp
  have off: "unat (current_offset st) = length got" unfolding i(5) using i(3) by (intro u16_unat_of_nat) simp
  have rng: "\<not> operation st < SOCKET_FWUP_START" "datalen st > 0" "datalen st \<le> SOCKET_FWUP_PACK_SIZE"
    using dl i(1,3,4) by (auto simp: word_less_nat_alt word_le_nat_alt SOCKET_FWUP_PACK_SIZE_def)
  have "unat (datalen st - current_offset st) = unat (datalen st) - unat (current_offset st)"
    using dl off by (intro unat_sub) (simp add: word_le_nat_alt)
  then have togo: "unat (datalen st - current_offset st) = length todo" using dl off by simp
  have lb: "length b \<le> length todo" using assms(2) by simp
  have buf: "bsplice (length got) b (got @ j) = (got @ b) @ drop (length b) j" by (simp add: bsplice_def)
  have full: "(word_of_nat (length (got @ b)) = datalen st) = (length b = length todo)"
  proof
    assume "word_of_nat (length (got @ b)) = datalen st"
    then have "unat (word_of_nat (length (got @ b)) :: u16) = length (got @ todo)" using dl by simp
    moreover have "unat (word_of_nat (length (got @ b)) :: u16) = length (got @ b)" using lb i(3) by (intro u16_unat_of_nat) simp
    ultimately show "length b = length todo" by simp
  qed (simp add: i(2))
  have adv: "current_offset st + word_of_nat (length b) = word_of_nat (length (got @ b))" by (simp add: i(5))
  have "recv_data E xs st = (if length b = length todo then deliver E (got @ b) (drop (length b) j) (drop (length b) xs) st
       else Some (Next (drop (length b) xs) (hold (got @ b) (drop (length b) j) st)))"
  proof (cases "length b = length todo")
    case True
    have w: "word_of_nat (length (got @ b)) = datalen st" "unat (datalen st) = length (got @ b)" using full True dl by simp_all
    have "recv_data E xs st = deliver E (got @ b) (drop (length b) j) (drop (length b) xs) st"
      unfolding recv_data_def i(6) option.case Let_def togo assms(2) [symmetric] off buf adv deliver_def hold_def
      by (simp add: w del: length_append)
    then show ?thesis using True by simp
  next
    case False
    then have "word_of_nat (length (got @ b)) \<noteq> datalen st" using full by simp
    then have "recv_data E xs st = Some (Next (drop (length b) xs) (hold (got @ b) (drop (length b) j) st))"
      unfolding recv_data_def i(6) option.case Let_def togo assms(2) [symmetric] off buf adv hold_def
      by (simp del: length_append)
    then show ?thesis using False by simp
  qed
  then show ?thesis using that [OF i(7)] rng by (simp add: recv_turn_def)
qed

lemma turn_part:
  assumes "inside sent got todo ps st" "todo = xs @ ys" "ys \<noteq> []"
  obtains st' where "recv_turn E xs st = Some (Next [] st')" "pending ys ps st'"
proof -
  have b: "xs = take (length todo) xs" using assms(2) by simp
  obtain j where j: "length (got @ j) = 2048"
    "recv_turn E xs st = (if length xs = length todo then deliver E (got @ xs) (drop (length xs) j) (drop (length xs) xs) st
       else Some (Next (drop (length xs) xs) (hold (got @ xs) (drop (length xs) j) st)))"
    using inside_turn [OF assms(1) b] .
  have "inside sent (got @ xs) ys ps (hold (got @ xs) (drop (length xs) j) st)"
    using assms j(1) by (auto simp: inside_def hold_def)
  then show ?thesis using that [of "hold (got @ xs) (drop (length xs) j) st"] j(2) assms(2,3) by (auto simp: pending_def)
qed

lemma turn_full:
  assumes "inside sent got todo ps st"
  obtains st' where "recv_turn E (todo @ ys) st = Some (if ps = [] then Break st' else Next ys st')" "pending [] ps st'"
proof -
  have b: "todo = take (length todo) (todo @ ys)" by simp
  obtain j0 where j0: "length (got @ j0) = 2048"
    "recv_turn E (todo @ ys) st = (if length todo = length todo then deliver E (got @ todo) (drop (length todo) j0) (drop (length todo) (todo @ ys)) st
       else Some (Next (drop (length todo) (todo @ ys)) (hold (got @ todo) (drop (length todo) j0) st)))"
    using inside_turn [OF assms b] .
  define j where "j = drop (length todo) j0"
  have r: "recv_turn E (todo @ ys) st = deliver E (got @ todo) j ys st" using j0(2) by (simp add: j_def)
  have i: "ps = [] \<Longrightarrow> operation st = SOCKET_FWUP_END" "ps \<noteq> [] \<Longrightarrow> operation st \<noteq> SOCKET_FWUP_END \<and> tail_packets ps" "todo \<noteq> []"
    "arrived P N hdr m0 (session_id st) sent (fw st)" "sent = [] \<Longrightarrow> 56 \<le> length (got @ todo)" "sent @ (got @ todo) @ payload ps = hdr @ img"
    "length (got @ todo) \<le> 2048"
    using assms by (auto simp: inside_def split: if_splits)
  have len: "length ((got @ todo) @ j) = 2048" using i(7) j0(1) by (simp add: j_def)
  have rest: "payload ps = [] \<longleftrightarrow> ps = []" using i(2) by (cases ps) (auto simp: tail_packets_Cons)
  have ne: "got @ todo \<noteq> []" using i(3) by simp
  obtain s' where s': "tls_fwup_request_sync (env_spi E) (env_heap E) (env_hw E) (env_wifi E) True (session_id st) (Some ((got @ todo) @ j))
      (length (got @ todo)) (fw st) = Some (TLS_FWUP_STATUS_OK, s')"
    "payload ps \<noteq> [] \<Longrightarrow> arrived P N hdr m0 (session_id st) (sent @ got @ todo) s'" "payload ps = [] \<Longrightarrow> concluded P hdr m0 img (sys_resets (fw st)) s'"
    using request_step [OF i(4) image(1,2) i(6) image(3) ne i(5), of "env_wifi E" j] image(4) by auto
  let ?st = "(hold (got @ todo) j st)\<lparr>fw := s'\<rparr>"
  show ?thesis
  proof (cases "ps = []")
    case False
    then have "recv_turn E (todo @ ys) st = Some (Next ys (?st\<lparr>operation := 0\<rparr>))"
      using r s'(1) i(2) by (simp add: deliver_def hold_def Let_def)
    moreover have "between (sent @ got @ todo) ps (?st\<lparr>operation := 0\<rparr>)"
      using False s'(2) i(2,3,6) len rest by (simp add: between_def has_buffer_def hold_def)
    ultimately show ?thesis using that [of "?st\<lparr>operation := 0\<rparr>"] False by (auto simp: pending_def)
  next
    case True
    then have c: "concluded P hdr m0 img (sys_resets (fw st)) s'" using s'(3) by simp
    then obtain f where "fwup s' = Live f" by (auto simp: concluded_def Let_def)
    then obtain e s2 where s2: "tls_fwup_exit (env_cfg E) (env_wifi E) (session_id st) s' = Some (e, s2)" using exit_defined by blast
    let ?st2 = "free_current_pack (?st\<lparr>closed_sockets := Suc (closed_sockets st), fw := s2\<rparr>)"
    have "recv_turn E (todo @ ys) st = Some (Break ?st2)"
      using r s'(1) i(1) [OF True] s2 by (simp add: deliver_def close_update_def hold_def Let_def)
    moreover have "finished ?st2"
      using c exit_keeps_flash [OF s2] image(3,4)
      by (simp add: finished_def concluded_def free_current_pack_def hold_def Let_def)
    ultimately show ?thesis using that [of ?st2] True by (auto simp: pending_def)
  qed
qed

lemma recv_loop_next:
  "recv_turn E seg st = Some (Next rest st') \<Longrightarrow> recv_loop E seg st = (if rest = [] then Some (ERR_OK, st') else recv_loop E rest st')"
  by (subst recv_loop.simps) simp

text \<open>
  What one call of the receiver does to the stream that is still to come: it consumes the segment. A turn that
  goes on leaves the rest of the segment to the turns behind it.
\<close>

definition consumes :: "bytes \<Rightarrow> packet list \<Rightarrow> ('d, 'w) ota_sys \<Rightarrow> bytes \<Rightarrow> bytes \<Rightarrow> bool" where
  "consumes todo ps st seg later \<longleftrightarrow> (\<exists>todo' ps' st'. recv_loop E seg st = Some (ERR_OK, st') \<and> pending todo' ps' st'
     \<and> todo' @ stream ps' = later \<and> (\<forall>n. cut_ok todo ps (length seg + n) \<longrightarrow> cut_ok todo' ps' n))"

lemma consumes_turn:
  assumes t: "recv_turn E seg st = Some (Next rest st1)" "pending todo1 ps1 st1" "todo1 @ stream ps1 = rest @ later"
    and cuts: "\<And>n. cut_ok todo ps (length seg + n) \<Longrightarrow> cut_ok todo1 ps1 (length rest + n)"
    and ok: "cut_ok todo ps (length seg)"
    and go: "rest \<noteq> [] \<Longrightarrow> cut_ok todo1 ps1 (length rest) \<Longrightarrow> consumes todo1 ps1 st1 rest later"
  shows "consumes todo ps st seg later"
proof (cases "rest = []")
  case True
  then show ?thesis using recv_loop_next [OF t(1)] t(2,3) cuts unfolding consumes_def
    by (intro exI [of _ todo1] exI [of _ ps1] exI [of _ st1]) simp
next
  case False
  have "cut_ok todo1 ps1 (length rest)" using cuts [of 0] ok by simp
  then show ?thesis using go False recv_loop_next [OF t(1)] cuts unfolding consumes_def by simp blast
qed

lemma consumes_last:
  assumes "pending todo [] st" "todo = seg @ later" "seg \<noteq> []"
  shows "consumes todo [] st seg later"
proof -
  obtain sent got where i: "inside sent got todo [] st" using assms by (auto simp: pending_def)
  show ?thesis
  proof (cases "later = []")
    case True
    then obtain st' where "recv_turn E seg st = Some (Break st')" "pending [] [] st'"
      using turn_full [OF i, of "[]"] assms(2) by auto
    then show ?thesis using True assms(2) unfolding consumes_def
      by (intro exI [of _ "[]"] exI [of _ st']) (simp add: recv_loop.simps [of E seg])
  next
    case False
    obtain st' where "recv_turn E seg st = Some (Next [] st')" "pending later [] st'" using turn_part [OF i assms(2) False] .
    then show ?thesis by (rule consumes_turn) (use assms(2) in simp_all)
  qed
qed

lemma consumes_header:
  assumes "pending [] (p # ps) st" "stream (p # ps) = seg @ later" "seg \<noteq> []" "cut_ok [] (p # ps) (length seg)"
    and go: "\<And>st1 zs. pending (snd p) ps st1 \<Longrightarrow> snd p @ stream ps = zs @ later \<Longrightarrow> zs \<noteq> [] \<Longrightarrow> cut_ok (snd p) ps (length zs) \<Longrightarrow>
      consumes (snd p) ps st1 zs later"
  shows "consumes [] (p # ps) st seg later"
proof -
  have "3 \<le> length seg" using cut_ok_header [OF assms(4)] assms(3) by auto
  moreover have "take 3 (seg @ later) = packet_header p" "drop 3 (seg @ later) = snd p @ stream ps" unfolding assms(2) [symmetric] by simp_all
  ultimately have "take 3 seg = packet_header p" "drop 3 seg @ later = snd p @ stream ps" by simp_all
  then obtain zs where zs: "seg = packet_header p @ zs" "snd p @ stream ps = zs @ later" using append_take_drop_id by metis
  have "starting (p # ps) st \<or> (\<exists>sent. between sent (p # ps) st)" using assms(1) by (auto simp: pending_def inside_def)
  then obtain st1 where t: "recv_turn E seg st = Some (Next zs st1)" "pending (snd p) ps st1"
    using turn_start turn_header zs(1) by metis
  show ?thesis using t zs(2)
  proof (rule consumes_turn)
    show "cut_ok (snd p) ps (length zs + n)" if "cut_ok [] (p # ps) (length seg + n)" for n
      using cut_ok_header [OF that] zs(1) by simp
  qed (use assms(4) go [OF t(2) zs(2)] in simp_all)
qed

lemma recv_segment:
  assumes "pending todo ps st" "todo @ stream ps = seg @ later" "seg \<noteq> []" "cut_ok todo ps (length seg)"
  shows "consumes todo ps st seg later"
  using assms
proof (induction ps arbitrary: todo st seg)
  case Nil
  then show ?case by (simp add: consumes_last)
next
  case (Cons p ps)
  note header = consumes_header [of p ps _ _ later, OF _ _ _ _ Cons.IH]
  show ?case
  proof (cases "todo = []")
    case True
    then show ?thesis using header [of st seg] Cons.prems by (simp del: cut_ok.simps)
  next
    case False
    then obtain sent got where i: "inside sent got todo (p # ps) st" using Cons.prems(1) by (auto simp: pending_def)
    consider (part) ys where "todo = seg @ ys" "ys \<noteq> []" "later = ys @ stream (p # ps)" | (full) seg0 where "seg = todo @ seg0" "stream (p # ps) = seg0 @ later"
      using Cons.prems(2) unfolding append_eq_append_conv2 by fastforce
    then show ?thesis
    proof cases
      case part
      obtain st' where "recv_turn E seg st = Some (Next [] st')" "pending ys (p # ps) st'" using turn_part [OF i part(1,2)] .
      then show ?thesis
        by (rule consumes_turn)
          (use part Cons.prems(4) cut_ok_advance [of seg todo "p # ps"] in \<open>simp_all del: cut_ok.simps\<close>)
    next
      case full
      obtain st1 where t: "recv_turn E seg st = Some (Next seg0 st1)" "pending [] (p # ps) st1"
        using turn_full [OF i, of seg0] full(1) by auto
      have "cut_ok [] (p # ps) (length seg0 + n)" if "cut_ok todo (p # ps) (length seg + n)" for n
        using that cut_ok_advance [of todo todo "p # ps" "length seg0 + n"] full(1) by (simp add: add.assoc del: cut_ok.simps)
      then show ?thesis using t full(2) Cons.prems(4) header [OF t(2) full(2)]
        by (intro consumes_turn [OF t]) simp_all
    qed
  qed
qed

text \<open>The calls for all segments.\<close>

lemma recv_all:
  assumes "pending todo ps st" "todo @ stream ps = concat segs" "[] \<notin> set segs"
    and "\<forall>k \<le> length segs. cut_ok todo ps (length (concat (take k segs)))"
  shows "\<exists>st' todo' ps'. receive_all E segs st = Some st' \<and> pending todo' ps' st' \<and> todo' @ stream ps' = []"
  using assms
proof (induction segs arbitrary: todo ps st)
  case Nil
  then show ?case by auto
next
  case (Cons seg segs)
  have "cut_ok todo ps (length seg)" using Cons.prems(4) by (auto dest!: spec [of _ 1])
  moreover have "todo @ stream ps = seg @ concat segs" "seg \<noteq> []" using Cons.prems(2,3) by auto
  ultimately obtain todo' ps' st' where s: "recv_loop E seg st = Some (ERR_OK, st')" "pending todo' ps' st'" "todo' @ stream ps' = concat segs"
    "\<forall>n. cut_ok todo ps (length seg + n) \<longrightarrow> cut_ok todo' ps' n"
    using recv_segment [OF Cons.prems(1)] unfolding consumes_def by blast
  have "\<forall>k \<le> length segs. cut_ok todo' ps' (length (concat (take k segs)))"
  proof (intro allI impI)
    fix k assume "k \<le> length segs"
    then have "cut_ok todo ps (length (concat (take (Suc k) (seg # segs))))" using Cons.prems(4) by (metis Suc_le_mono length_Cons)
    then show "cut_ok todo' ps' (length (concat (take k segs)))" using s(4) by simp
  qed
  from Cons.IH [OF s(2,3) _ this] Cons.prems(3) s(1) show ?case by (simp add: socket_fwup_recv_def)
qed

lemma tail_packets_nonempty: "tail_packets ps \<Longrightarrow> stream ps \<noteq> []"
  by (cases ps) (auto simp: packet_header_def)

lemma pending_end: "pending todo ps st \<Longrightarrow> todo @ stream ps = [] \<Longrightarrow> finished st"
  using tail_packets_nonempty by (auto simp: pending_def inside_def starting_def between_def packet_header_def)

end

section \<open>Properties\<close>

text \<open>C1. An image sent to the socket, in packets of up to 2048 bytes of which the first holds at least the image header, is
  installed, however TCP cuts the stream as long as no cut lies inside a packet header: every segment is accepted, the image
  and a valid header for the boot loader with the next number are in flash, the flash outside is as it was, and the session
  is closed.\<close>

theorem socket_update_installs_image:
  assumes "fwup_platform (env_spi E) mem wel ident (env_heap E) (env_hw E)"
    and "sem_created (env_os E)" "queue_created (env_os E)" "task_created (env_os E)"
    and "update_ready ident (fw st)" "session_id st = 0" "env_rnd E (rand_calls (fw st) + j) \<noteq> 0" "before = mem (chip (flash_of (fw st)))"
    and "update_area P N" "header_for (env_hw E) P N hdr" "length img = N" "image_crc (env_hw E) img = bt_upd_checksum hdr"
    and "56 \<le> length d" "length d \<le> 2048" "tail_packets ps" "d @ payload ps = hdr @ img"
    and "concat segs = stream ((SOCKET_FWUP_START, d) # ps)" "[] \<notin> set segs"
    and "\<forall>k \<le> length segs. cut_ok [] ((SOCKET_FWUP_START, d) # ps) (length (concat (take k segs)))"
  shows "\<exists>st1 st2. socket_fwup_accept E ERR_OK st = Some (ERR_OK, st1) \<and> receive_all E segs st1 = Some st2
    \<and> (let m = mem (chip (flash_of (fw st2))); h = mem_bytes m 0xFC000 56
       in mem_bytes m P N = img \<and> tls_fwup_img_header_check (env_hw E) h \<and> bt_upd_no h = next_upd_no (env_hw E) before
          \<and> bt_upd_checksum h = image_crc (env_hw E) img \<and> (\<forall>i. outside_update P (P + N) i \<longrightarrow> m i = before i))
    \<and> session_id st2 = 0 \<and> pack_data st2 = None"
proof -
  have O: "ota_platform E mem wel ident P N hdr img"
    using assms(1-4,9-12) by (simp add: ota_platform_def ota_platform_axioms_def)
  have heap: "alloc_total (env_heap E)" using assms(1) by (simp add: fwup_platform_def nor_driver_def area_driver_def area_driver_axioms_def)
  obtain blk where blk: "env_heap E (ota_allocs st) 2048 = Some blk" using alloc_totalE [OF heap] by metis
  let ?st1 = "st\<lparr>operation := 0, datalen := 0, ota_allocs := Suc (ota_allocs st), pack_data := Some (replicate 2048 0)\<rparr>"
  have acc: "socket_fwup_accept E ERR_OK st = Some (ERR_OK, ?st1)" using assms(6) blk by (simp add: socket_fwup_accept_def)
  have "ota_platform.starting E mem ident hdr img before ((SOCKET_FWUP_START, d) # ps) ?st1"
    using assms(5,7,8,13-16) by (auto simp: ota_platform.starting_def [OF O] ota_platform.has_buffer_def [OF O])
  then have "ota_platform.pending E mem ident P N hdr img before [] ((SOCKET_FWUP_START, d) # ps) ?st1"
    by (simp add: ota_platform.pending_def [OF O])
  moreover have "[] @ stream ((SOCKET_FWUP_START, d) # ps) = concat segs" using assms(17) by simp
  ultimately obtain st2 todo ps' where r: "receive_all E segs ?st1 = Some st2"
    "ota_platform.pending E mem ident P N hdr img before todo ps' st2" "todo @ stream ps' = []"
    using ota_platform.recv_all [OF O _ _ assms(18,19)] by blast
  have fin: "ota_platform.finished E mem P N hdr img before st2" using ota_platform.pending_end [OF O r(2,3)] .
  have e: "crc_engine (env_hw E)" using assms(1) by (simp add: fwup_platform_def)
  have h: "length hdr = 56" "tls_fwup_img_header_check (env_hw E) hdr" using assms(10) by (auto simp: header_for_def)
  note stamp = crc_engine.stamp_header_fields [OF e h(1)] crc_engine.stamp_header_ok [OF e h]
  show ?thesis using acc r(1) fin assms(12) stamp by (auto simp: ota_platform.finished_def [OF O] Let_def)
qed

text \<open>The receiver on the chip \<open>nor\<close>, with a small image.\<close>

definition nor_env :: "(nor, u8 \<times> u8) fw_env" where
  "nor_env = \<lparr>env_cfg = cfg0, env_spi = nor_exec, env_heap = zero_heap, env_hw = std_engine, env_wifi = plain_wifi, env_os = os_ok, env_rnd = word_of_nat\<rparr>"

definition small_header :: bytes where
  "small_header = stamp_header std_engine 0 (plain_header 0x8090000 3 (image_crc std_engine [1, 2, 3]))"

definition ota_boot :: "(nor, u8 \<times> u8) ota_sys" where
  "ota_boot = \<lparr>operation = 0, datalen = 0, pack_data = None, current_offset = 0, session_id = 0, fw = fwup_boot blank_fls,
     closed_sockets = 0, ota_allocs = 0\<rparr>"

lemma nor_env_fields [simp]: "env_spi nor_env = nor_exec" "env_heap nor_env = zero_heap" "env_hw nor_env = std_engine" "env_rnd nor_env = word_of_nat"
  "sem_created (env_os nor_env)" "queue_created (env_os nor_env)" "task_created (env_os nor_env)"
  by (simp_all add: nor_env_def os_ok_def)

lemma small_header: "header_for std_engine 0x90000 3 small_header" "length small_header = 56"
  "image_crc std_engine [1, 2, 3] = bt_upd_checksum small_header"
  using plain_header_for by (simp_all add: small_header_def std_crc.stamp_header_fields)

interpretation nor_ota: ota_platform nor_env nor_mem nor_wel nor_id "0x90000" 3 small_header "[1, 2, 3]" "nor_mem blank_nor"
  using nor_fwup.fwup_platform_axioms small_header by (simp add: ota_platform_def ota_platform_axioms_def update_area_def)

theorem socket_update_installs_image_witness:
  "\<exists>st1 st2. socket_fwup_accept nor_env ERR_OK ota_boot = Some (ERR_OK, st1)
    \<and> receive_all nor_env [packet_header (SOCKET_FWUP_START, small_header @ [1]) @ small_header, [1] @ packet_header (SOCKET_FWUP_END, [2, 3]) @ [2], [3]] st1 = Some st2
    \<and> mem_bytes (nor_mem (chip (flash_of (fw st2)))) 0x90000 3 = [1, 2, 3]"
proof -
  let ?d = "small_header @ [1]" and ?ps = "[(SOCKET_FWUP_END, [2, 3 :: u8])]"
  let ?segs = "[packet_header (SOCKET_FWUP_START, ?d) @ small_header, [1] @ packet_header (SOCKET_FWUP_END, [2, 3]) @ [2], [3]]"
  have p: "fwup_platform (env_spi nor_env) nor_mem nor_wel nor_id (env_heap nor_env) (env_hw nor_env)"
    using nor_fwup.fwup_platform_axioms by simp
  have r: "update_ready nor_id (fw ota_boot)" "session_id ota_boot = 0" "env_rnd nor_env (rand_calls (fw ota_boot) + 1) \<noteq> 0"
    by (simp add: ota_boot_def, simp add: ota_boot_def, simp add: ota_boot_def fwup_boot_def)
  have i: "update_area 0x90000 3" "header_for (env_hw nor_env) 0x90000 3 small_header" "length [1, 2, 3 :: u8] = 3"
    "image_crc (env_hw nor_env) [1, 2, 3] = bt_upd_checksum small_header"
    using small_header by (simp_all add: update_area_def)
  have d: "56 \<le> length ?d" "length ?d \<le> 2048" "tail_packets ?ps" "?d @ payload ?ps = small_header @ [1, 2, 3]"
    "concat ?segs = stream ((SOCKET_FWUP_START, ?d) # ?ps)" "[] \<notin> set ?segs"
    using small_header(2) by (simp_all add: packet_header_def)
  have "\<forall>k \<le> length ?segs. cut_ok [] ((SOCKET_FWUP_START, ?d) # ?ps) (length (concat (take k ?segs)))"
    using small_header(2) by (auto simp: le_Suc_eq)
  from socket_update_installs_image [OF p nor_env_fields(5-7) r refl i d this] show ?thesis by (auto simp: Let_def)
qed

lemma oversized_loop:
  assumes "recv_loop E rest st = Some r"
  shows "\<not> (SOCKET_FWUP_START \<le> operation st \<and> SOCKET_FWUP_PACK_SIZE < datalen st \<and> rest \<noteq> [])"
proof (rule recv_loop.raw_induct [OF _ assms])
  fix loop :: "('a, 'b) fw_env \<Rightarrow> bytes \<Rightarrow> ('a, 'b) ota_sys \<Rightarrow> (int \<times> ('a, 'b) ota_sys) option" and E rest st r
  assume IH: "\<And>E rest st r. loop E rest st = Some r \<Longrightarrow> \<not> (SOCKET_FWUP_START \<le> operation st \<and> SOCKET_FWUP_PACK_SIZE < datalen st \<and> rest \<noteq> [])"
    and r: "(case recv_turn E rest st of None \<Rightarrow> None
      | Some t \<Rightarrow> (case t of Return err st \<Rightarrow> Some (err, st) | Break st \<Rightarrow> Some (ERR_OK, st)
          | Next rest st \<Rightarrow> if rest = [] then Some (ERR_OK, st) else loop E rest st)) = Some r"
  show "\<not> (SOCKET_FWUP_START \<le> operation st \<and> SOCKET_FWUP_PACK_SIZE < datalen st \<and> rest \<noteq> [])"
  proof
    assume a: "SOCKET_FWUP_START \<le> operation st \<and> SOCKET_FWUP_PACK_SIZE < datalen st \<and> rest \<noteq> []"
    have "\<not> operation st < SOCKET_FWUP_START" "\<not> datalen st \<le> SOCKET_FWUP_PACK_SIZE" using a by auto
    moreover have "datalen st \<noteq> 0" using a by (auto simp: SOCKET_FWUP_PACK_SIZE_def)
    ultimately have "recv_turn E rest st = Some (Next rest st)" by (simp add: recv_turn_def)
    then show False using IH [of E rest st r] r a by simp
  qed
qed

text \<open>C24. A packet that announces more than 2048 bytes of data makes the receiver loop forever as soon as a byte
  follows its header: no branch of the loop consumes it.\<close>

theorem oversized_packet_never_returns:
  assumes "operation st = 0" "op = SOCKET_FWUP_DATA \<or> op = SOCKET_FWUP_END" "2048 < n"
  shows "socket_fwup_recv E (Some (op # rev (le16 n) @ b # rest)) st = None"
proof -
  let ?st = "st\<lparr>current_offset := 0, operation := op, datalen := n\<rparr>"
  have "operation st < SOCKET_FWUP_START" "n \<noteq> 0" using assms(1,3) by (auto simp: ota_defs)
  then have "recv_turn E (op # rev (le16 n) @ b # rest) st = Some (Next (b # rest) ?st)"
    using assms(2) by (auto simp: recv_turn_def recv_header_def datalen_read Let_def ota_defs)
  then have "recv_loop E (op # rev (le16 n) @ b # rest) st = recv_loop E (b # rest) ?st"
    by (subst recv_loop.simps) simp
  also have "\<dots> = None"
    using oversized_loop [of E "b # rest" ?st] assms(2,3) by (cases "recv_loop E (b # rest) ?st") (auto simp: ota_defs)
  finally show ?thesis by (simp add: socket_fwup_recv_def)
qed

theorem oversized_packet_never_returns_witness:
  "socket_fwup_recv nor_env (Some (3 # rev (le16 4096) @ [7])) ota_boot = None"
  using oversized_packet_never_returns [of ota_boot 3 4096 nor_env 7 "[]"] by (simp add: ota_boot_def ota_defs)

end
