(* ===== verification/Dns.thy ===== *)
theory Dns
  imports Prelude
begin

text \<open>
  The DNS server of the soft access point, \<^verbatim>\<open>src/Src/App/dnsserver/dns_server.c\<close>: it answers queries for its own
  name with its own address and, while the station interface is down, all others with a name error. The
  record \<open>dns_server\<close> is the static variable \<^verbatim>\<open>DnsServer\<close>; \<open>dns_bound\<close> is whether lwIP holds its control block,
  which the pointer \<open>dns_socket\<close> may outlive. What lwIP does is an input, the record
  \<open>dns_env\<close>; what the server sends is returned. The result \<open>None\<close> is a read outside an array or a message.
\<close>

record dns_server =
  dns_socket :: bool
  dns_bound :: bool
  DnsName :: bytes
  HostIp :: u32

record dns_env =
  dns_mem_ok :: bool
  dns_pbuf_ok :: bool
  sta_up :: bool

definition DNSS_ERR_SUCCESS :: int where "DNSS_ERR_SUCCESS = 0"
definition DNSS_ERR_LINKDOWN :: int where "DNSS_ERR_LINKDOWN = 1"
definition DNSS_ERR_PARAM :: int where "DNSS_ERR_PARAM = 2"
definition DNSS_ERR_MEM :: int where "DNSS_ERR_MEM = 3"
definition DNS_DEFAULT_TTL :: u32 where "DNS_DEFAULT_TTL = 3600"
definition DNS_RRTYPE_A :: u16 where "DNS_RRTYPE_A = 1"
definition DNS_RRCLASS_IN :: u16 where "DNS_RRCLASS_IN = 1"
definition DNS_FLAG1_RESPONSE :: u8 where "DNS_FLAG1_RESPONSE = 0x80"
definition DNS_FLAG2_ERR_NONE :: u8 where "DNS_FLAG2_ERR_NONE = 0"
definition DNS_FLAG2_ERR_NAME :: u8 where "DNS_FLAG2_ERR_NAME = 3"
definition DNS_NAME_OFFSET :: u16 where "DNS_NAME_OFFSET = 0xC000"

lemmas dns_consts = DNSS_ERR_SUCCESS_def DNSS_ERR_LINKDOWN_def DNSS_ERR_PARAM_def DNSS_ERR_MEM_def DNS_DEFAULT_TTL_def
  DNS_RRTYPE_A_def DNS_RRCLASS_IN_def DNS_FLAG1_RESPONSE_def DNS_FLAG2_ERR_NONE_def DNS_FLAG2_ERR_NAME_def DNS_NAME_OFFSET_def

section \<open>Names\<close>

datatype cmp = Differ | Same nat bytes

text \<open>
  One label: \<open>i\<close> is the position in the own name, which has the array \<open>own\<close>, and \<open>q\<close> what is left of the query.
\<close>

fun compare_label :: "bytes \<Rightarrow> nat \<Rightarrow> bytes \<Rightarrow> nat \<Rightarrow> cmp option" where
  "compare_label own i q 0 = Some (Same i q)"
| "compare_label own i [] (Suc n) = None"
| "compare_label own i (c # q) (Suc n) =
    (if i \<ge> length own then None
     else if own ! i \<noteq> c then Some Differ
     else compare_label own (Suc i) q n)"

lemma compare_label_length: "compare_label own i q n = Some (Same i' q') \<Longrightarrow> length q' \<le> length q"
  by (induction own i q n rule: compare_label.induct) (auto split: if_splits)

definition name_ends :: "bytes \<Rightarrow> nat \<Rightarrow> bool option" where
  "name_ends own i = (if i = 0 \<or> i > length own then None else Some (own ! (i - 1) = 0))"

function compare_labels :: "bytes \<Rightarrow> nat \<Rightarrow> bytes \<Rightarrow> bool option" where
  "compare_labels own i q =
    (case q of
       [] \<Rightarrow> None
     | n # q \<Rightarrow>
        (if n AND 0xc0 = 0xc0 then name_ends own i
         else case compare_label own i q (unat n) of
           None \<Rightarrow> None
         | Some Differ \<Rightarrow> Some False
         | Some (Same i q) \<Rightarrow>
            (case q of [] \<Rightarrow> None
             | c # _ \<Rightarrow> if c \<noteq> 0 then compare_labels own (Suc i) q else name_ends own (Suc i))))"
  by pat_completeness auto
termination
  by (relation "measure (\<lambda>(own, i, q). length q)") (auto dest: compare_label_length)

declare compare_labels.simps [simp del]

text \<open>The result is \<open>True\<close> for the C function's 0: the names agree. \<^verbatim>\<open>strlen(Query) - 1\<close> is unsigned.\<close>

definition DnsCompareName :: "bytes \<Rightarrow> bytes \<Rightarrow> bool option" where
  "DnsCompareName own query =
    (if \<not> has_nul query then None
     else if cstr query = [] \<or> length (cstr query) - 1 > 32 then Some False
     else compare_labels own 0 query)"

section \<open>Replies\<close>

definition dns_reply_header :: "bytes \<Rightarrow> u8 \<Rightarrow> u16 \<Rightarrow> bytes" where
  "dns_reply_header xid flag2 answers = xid @ [DNS_FLAG1_RESPONSE, flag2] @ le16 (swap16 1) @ le16 (swap16 answers) @ [0, 0] @ [0, 0]"

definition DNSNameErrGenAndSend :: "dns_env \<Rightarrow> bytes \<Rightarrow> bytes \<Rightarrow> bytes \<Rightarrow> bytes list" where
  "DNSNameErrGenAndSend env query name xid =
    (if \<not> dns_mem_ok env then []
     else if \<not> dns_pbuf_ok env then []
     else [dns_reply_header xid DNS_FLAG2_ERR_NAME 0 @ (cstr name @ [0]) @ query])"

definition DNSAnswerGenAndSend :: "dns_env \<Rightarrow> bytes \<Rightarrow> bytes \<Rightarrow> bytes \<Rightarrow> dns_server \<Rightarrow> bytes list" where
  "DNSAnswerGenAndSend env query name xid s =
    (if \<not> dns_mem_ok env then []
     else if \<not> dns_pbuf_ok env then []
     else [dns_reply_header xid DNS_FLAG2_ERR_NONE 1 @ (cstr name @ [0]) @ query @ le16 (swap16 (DNS_NAME_OFFSET OR 12))
       @ le16 (swap16 DNS_RRTYPE_A) @ le16 (swap16 DNS_RRCLASS_IN) @ le32 (swap32 DNS_DEFAULT_TTL) @ le16 (swap16 4) @ le32 (HostIp s)])"

text \<open>A message is ignored when memory is short, when it is a response or no standard query, or when class and type are both others.\<close>

definition DNSS_RecvCb :: "dns_env \<Rightarrow> bytes \<Rightarrow> dns_server \<Rightarrow> bytes list option" where
  "DNSS_RecvCb env msg s =
    (if \<not> dns_mem_ok env then Some []
     else if length msg < 12 then None
     else let flag1 = msg ! 2
     in if flag1 AND DNS_FLAG1_RESPONSE \<noteq> 0 \<or> flag1 AND 0x78 \<noteq> 0 then Some []
        else let name = drop 12 msg
        in if \<not> has_nul name then None
           else let query = bslice (length (cstr name) + 1) 4 name
           in if length query < 4 then None
              else if bslice 2 2 query \<noteq> le16 (swap16 DNS_RRCLASS_IN) \<and> bslice 0 2 query \<noteq> le16 (swap16 DNS_RRTYPE_A) then Some []
              else case DnsCompareName (DnsName s) name of
                None \<Rightarrow> None
              | Some False \<Rightarrow> Some (if sta_up env then [] else DNSNameErrGenAndSend env query name (take 2 msg))
              | Some True \<Rightarrow> Some (DNSAnswerGenAndSend env query name (take 2 msg) s))"

section \<open>Configuration\<close>

definition set_name :: "bytes \<Rightarrow> dns_server \<Rightarrow> dns_server" where
  "set_name name s = s\<lparr>DnsName := bsplice 0 (cstr name) (replicate 32 0)\<rparr>"

definition DNSS_Config :: "bytes option \<Rightarrow> dns_server \<Rightarrow> (int \<times> dns_server) option" where
  "DNSS_Config name s =
    (case name of
       None \<Rightarrow> Some (DNSS_ERR_PARAM, s)
     | Some b \<Rightarrow>
        (if \<not> has_nul b then None
         else if length (cstr b) > 32 then Some (DNSS_ERR_PARAM, s)
         else Some (DNSS_ERR_SUCCESS, set_name b s)))"

text \<open>The interface: \<open>None\<close> for a null pointer, otherwise whether it is up, and its address.\<close>

definition DNSS_Start :: "bool \<Rightarrow> (bool \<times> u32) option \<Rightarrow> bytes \<Rightarrow> dns_server \<Rightarrow> (int \<times> dns_server) option" where
  "DNSS_Start pcb_ok netif name s =
    (case netif of
       None \<Rightarrow> Some (DNSS_ERR_PARAM, s)
     | Some (up, ip) \<Rightarrow>
        (if \<not> has_nul name then None
         else if length (cstr name) > 32 then Some (DNSS_ERR_PARAM, s)
         else if \<not> up then Some (DNSS_ERR_LINKDOWN, s)
         else let s = set_name name (s\<lparr>dns_socket := False, HostIp := ip\<rparr>)
         in if \<not> pcb_ok then Some (DNSS_ERR_MEM, s) else Some (DNSS_ERR_SUCCESS, s\<lparr>dns_socket := True, dns_bound := True\<rparr>)))"

text \<open>The control block is removed but the pointer to it is kept: a second stop removes it again.\<close>

definition DNSS_Stop :: "dns_server \<Rightarrow> dns_server option" where
  "DNSS_Stop s = (if dns_socket s then (if dns_bound s then Some (s\<lparr>dns_bound := False\<rparr>) else None) else Some s)"

section \<open>Comparing names\<close>

definition enc_name :: "bytes list \<Rightarrow> bytes" where
  "enc_name ls = concat (map (\<lambda>l. word_of_nat (length l) # l) ls)"

text \<open>The name as it is configured, with dots between the labels.\<close>

fun dotted :: "bytes list \<Rightarrow> bytes" where
  "dotted [] = []"
| "dotted [l] = l"
| "dotted (l # ls) = l @ 46 # dotted ls"

definition labels_ok :: "bytes list \<Rightarrow> bool" where
  "labels_ok ls \<longleftrightarrow> ls \<noteq> [] \<and> list_all (\<lambda>l. l \<noteq> [] \<and> length l < 64 \<and> 0 \<notin> set l) ls"

text \<open>What the comparison finds: the labels at their places, and a NUL behind the last one.\<close>

fun labels_match :: "bytes \<Rightarrow> nat \<Rightarrow> bytes list \<Rightarrow> bool" where
  "labels_match own i [] = (own ! (i - 1) = 0)"
| "labels_match own i (l # ls) = (bslice i (length l) own = l \<and> labels_match own (i + length l + 1) ls)"

lemma enc_name_simps [simp]: "enc_name [] = []" "enc_name (l # ls) = word_of_nat (length l) # l @ enc_name ls"
  by (simp_all add: enc_name_def)

lemma enc_name_no_nul: "list_all (\<lambda>l. l \<noteq> [] \<and> length l < 64 \<and> 0 \<notin> set l) ls \<Longrightarrow> 0 \<notin> set (enc_name ls)"
proof (induction ls)
  case (Cons l ls)
  have "unat (word_of_nat (length l) :: u8) = length l" using Cons.prems by (simp add: unsigned_of_nat take_bit_eq_mod)
  then have "(word_of_nat (length l) :: u8) \<noteq> 0" using Cons.prems by auto
  then show ?case using Cons by auto
qed simp

lemma length_dotted: "ls \<noteq> [] \<Longrightarrow> Suc (length (dotted ls)) = length (enc_name ls)"
  by (induction ls rule: dotted.induct) auto

lemma compare_label_ok:
  "i + length l \<le> length own \<Longrightarrow>
    compare_label own i (l @ q) (length l) = Some (if bslice i (length l) own = l then Same (i + length l) q else Differ)"
proof (induction l arbitrary: i)
  case (Cons c l)
  then have i: "i < length own" by simp
  then have "bslice i (Suc (length l)) own = own ! i # bslice (Suc i) (length l) own"
    by (simp add: bslice_def Cons_nth_drop_Suc [symmetric])
  then show ?case using Cons i by simp
qed (simp add: bslice_def)

lemma compare_labels_ok:
  assumes "labels_ok ls" "i + length (enc_name ls) \<le> length own"
  shows "compare_labels own i (enc_name ls @ 0 # r) = Some (labels_match own i ls)"
  using assms
proof (induction ls arbitrary: i)
  case (Cons l ls)
  have l: "l \<noteq> []" "length l < 64" "i + length l \<le> length own" using Cons.prems by (auto simp: labels_ok_def)
  have n: "unat (word_of_nat (length l) :: u8) = length l" using l(2) by (simp add: unsigned_of_nat take_bit_eq_mod)
  have c0: "(word_of_nat (length l) :: u8) AND 0xc0 \<noteq> 0xc0"
  proof
    assume a: "(word_of_nat (length l) :: u8) AND 0xc0 = 0xc0"
    have "unat ((word_of_nat (length l) :: u8) AND 0xc0) \<le> length l" using n word_and_le2 [of "word_of_nat (length l) :: u8"]
      by (metis and.commute word_and_le1 word_le_nat_alt)
    then show False using a l(2) by simp
  qed
  show ?case
  proof (cases "ls = []")
    case True
    then show ?thesis using l n c0 Cons.prems(2)
      by (simp add: compare_labels.simps [of own i] compare_label_ok name_ends_def)
  next
    case False
    then obtain k ks where ls: "ls = k # ks" by (cases ls) auto
    have "(word_of_nat (length k) :: u8) \<noteq> 0" using enc_name_no_nul [of ls] Cons.prems(1) ls by (auto simp: labels_ok_def)
    moreover have "labels_ok ls" using Cons.prems(1) False by (simp add: labels_ok_def)
    moreover have "i + length l + 1 + length (enc_name ls) \<le> length own" using Cons.prems(2) by simp
    ultimately show ?thesis using Cons.IH [of "i + length l + 1"] l n c0
      by (simp add: compare_labels.simps [of own i] compare_label_ok ls)
  qed
qed (simp add: labels_ok_def)

lemma dotted_match: "ls \<noteq> [] \<Longrightarrow> labels_match (pre @ dotted ls @ 0 # r) (length pre) ls"
proof (induction ls arbitrary: pre rule: dotted.induct)
  case (2 l)
  then show ?case by (simp add: bslice_def nth_append)
next
  case (3 l k ks)
  have "labels_match ((pre @ l @ [46]) @ dotted (k # ks) @ 0 # r) (length (pre @ l @ [46])) (k # ks)" by (rule "3.IH") simp
  then show ?case by (simp add: bslice_def)
qed simp

lemma dotted_no_nul: "list_all (\<lambda>l. l \<noteq> [] \<and> length l < 64 \<and> 0 \<notin> set l) ls \<Longrightarrow> 0 \<notin> set (dotted ls)"
  by (induction ls rule: dotted.induct) auto

section \<open>Properties\<close>

text \<open>A query for one name, with whatever follows it in the message.\<close>

definition dns_query :: "bytes \<Rightarrow> u8 \<Rightarrow> bytes \<Rightarrow> bytes list \<Rightarrow> bytes \<Rightarrow> bytes" where
  "dns_query xid flag1 rest ls extra = xid @ flag1 # rest @ enc_name ls @ 0 # [0, 1, 0, 1] @ extra"

lemma recv_query:
  assumes "length xid = 2" "length rest = 9" "flag1 AND 0x80 = 0" "flag1 AND 0x78 = 0" "labels_ok ls" "length (enc_name ls) \<le> 32"
    and "length (DnsName s) = 32" "dns_mem_ok env" "dns_pbuf_ok env"
  shows "DNSS_RecvCb env (dns_query xid flag1 rest ls extra) s = Some
    (if labels_match (DnsName s) 0 ls then [xid @ [0x80, 0, 0, 1, 0, 1, 0, 0, 0, 0] @ enc_name ls @ [0, 0, 1, 0, 1, 0xC0, 0x0C, 0, 1, 0, 1, 0, 0, 0x0E, 0x10, 0, 4] @ le32 (HostIp s)]
     else if sta_up env then [] else [xid @ [0x80, 3, 0, 1, 0, 0, 0, 0, 0, 0] @ enc_name ls @ [0, 0, 1, 0, 1]])"
proof -
  let ?msg = "dns_query xid flag1 rest ls extra" and ?name = "enc_name ls @ 0 # [0, 1, 0, 1] @ extra"
  have z: "0 \<notin> set (enc_name ls)" using enc_name_no_nul assms(5) by (simp add: labels_ok_def)
  have m: "12 \<le> length ?msg" "?msg ! 2 = flag1" "take 2 ?msg = xid" "drop 12 ?msg = ?name"
    using assms(1,2) by (simp_all add: dns_query_def nth_append)
  have n: "has_nul ?name" "cstr ?name = enc_name ls" "bslice (length (enc_name ls) + 1) 4 ?name = [0, 1, 0, 1]"
    using z by (simp_all add: has_nul_def bslice_def)
  have ne: "enc_name ls \<noteq> []" using assms(5) by (cases ls) (auto simp: labels_ok_def)
  have c: "DnsCompareName (DnsName s) ?name = Some (labels_match (DnsName s) 0 ls)"
    using compare_labels_ok [OF assms(5), of 0 "DnsName s" "[0, 1, 0, 1] @ extra"] n ne assms(6,7) by (auto simp: DnsCompareName_def)
  have k: "le16 (swap16 1) = [0, 1]" "le16 (swap16 0) = [0, 0]" "le16 (swap16 4) = [0, 4]" "le16 (swap16 (0xC000 OR 12)) = [0xC0, 0x0C]"
    "le32 (swap32 3600) = [0, 0, 0x0E, 0x10]"
    by (simp_all add: swap16_def swap32_def le16_de16 le32_de32, simp_all add: le16_def le32_def)
  have q: "bslice 2 2 [0, 1, 0, 1 :: u8] = [0, 1]" by (simp add: bslice_def)
  show ?thesis
    unfolding DNSS_RecvCb_def Let_def m(2-4) n(2,3) c
    using m(1) n(1) assms(3,4,8,9) q k z
    by (auto simp: DNSAnswerGenAndSend_def DNSNameErrGenAndSend_def dns_reply_header_def dns_consts n(2))
qed



text \<open>A name of 32 characters is accepted by \<^verbatim>\<open>DNSS_Config\<close> but fills its array without a NUL, and comparing a query
  for it reads behind the array.\<close>

theorem dns_long_name_overrun:
  assumes "length l = 32" "0 \<notin> set l"
  shows "\<exists>s'. DNSS_Config (Some (l @ [0])) s = Some (DNSS_ERR_SUCCESS, s') \<and> DnsCompareName (DnsName s') (enc_name [l] @ 0 # r) = None"
proof -
  have cfg: "DNSS_Config (Some (l @ [0])) s = Some (DNSS_ERR_SUCCESS, s\<lparr>DnsName := l\<rparr>)"
    using assms by (simp add: DNSS_Config_def has_nul_def set_name_def bsplice_full)
  have "compare_labels l 0 (32 # l @ 0 # r) = None"
    using compare_label_ok [of 0 l l "0 # r"] assms(1) by (subst compare_labels.simps) (simp add: bslice_def name_ends_def)
  moreover have "cstr (32 # l @ 0 # r) = 32 # l" using cstr_append_nul [of "32 # l" r] assms(2) by simp
  ultimately have "DnsCompareName l (enc_name [l] @ 0 # r) = None"
    using assms by (simp add: DnsCompareName_def has_nul_def)
  then show ?thesis using cfg by (intro exI [of _ "s\<lparr>DnsName := l\<rparr>"]) simp
qed

theorem dns_long_name_overrun_witness:
  "\<exists>s'. DNSS_Config (Some (replicate 32 97 @ [0])) \<lparr>dns_socket = False, dns_bound = False, DnsName = [], HostIp = 0\<rparr> = Some (DNSS_ERR_SUCCESS, s')
    \<and> DnsCompareName (DnsName s') (enc_name [replicate 32 97] @ 0 # [0, 1, 0, 1]) = None"
  by (rule dns_long_name_overrun) simp_all

end
