(* ===== verification/Ext_Flash.thy ===== *)
theory Ext_Flash
  imports Block_Store
begin

text \<open>
  The driver of an external serial flash, \<^verbatim>\<open>wm_fls.c\<close> and \<^verbatim>\<open>wm_fls_gd25qxx.c\<close> under \<^verbatim>\<open>src/Platform/Drivers/flash\<close>.
  The first keeps a list of chip drivers and the one that matches the chip, the second is the chip driver.
  The host interface is a parameter \<open>bus\<close> with the calls of \<^verbatim>\<open>wm_hostspi.c\<close> that are used (each returns a
  status, 0 for success, and the calls that read also the bytes they stored) and the delay of the operating
  system. The only chip driver of the sources is the static structure \<^verbatim>\<open>exspi_fls\<close>; a pointer to a chip driver is
  therefore \<open>Exspi\<close>, and calls through its function pointers are calls of its functions. The result \<open>None\<close> is
  a polling loop that does not end or undefined behaviour (a null pointer, a copy past the end of a buffer,
  a shift by too much). A driver becomes current only after \<^verbatim>\<open>probe\<close> has set its sizes, none of which is 0.
\<close>

record 'd bus =
  bus_write :: "bytes \<Rightarrow> 'd \<Rightarrow> int \<times> 'd"
  bus_read_with_cmd :: "bytes \<Rightarrow> nat \<Rightarrow> 'd \<Rightarrow> int \<times> bytes \<times> 'd"
  bus_write_with_cmd :: "bytes \<Rightarrow> bytes \<Rightarrow> 'd \<Rightarrow> int \<times> 'd"
  bus_setup :: "u8 \<Rightarrow> u8 \<Rightarrow> u32 \<Rightarrow> 'd \<Rightarrow> 'd"
  bus_delay :: "nat \<Rightarrow> 'd \<Rightarrow> 'd"

record tls_fls_drv =
  drv_id :: u32
  total_size :: u32
  page_size :: u32
  program_size :: u32
  sector_size :: u32
  drv_clock :: u32
  drv_mode :: u8
  drv_cs_active :: u8
  drv_flags :: u8

datatype drv_ptr = Exspi

record tls_fls =
  fls_drvs :: "drv_ptr list"
  current_drv :: "drv_ptr option"
  fls_lock :: int

record 'd exfls =
  ex_dev :: 'd
  spi_fls :: "tls_fls option"
  exspi_fls :: tls_fls_drv
  exspifls_drv :: bool
  ex_allocs :: nat

definition TLS_FLS_STATUS_ENOSUPPORT :: int where "TLS_FLS_STATUS_ENOSUPPORT = 4"
definition TLS_FLS_STATUS_EEXIST :: int where "TLS_FLS_STATUS_EEXIST = 5"
definition TLS_FLS_STATUS_EIO :: int where "TLS_FLS_STATUS_EIO = 10"
definition TLS_FLS_STATUS_ENODRV :: int where "TLS_FLS_STATUS_ENODRV = 11"

lemmas ext_status_defs = fls_status_defs TLS_FLS_STATUS_ENOSUPPORT_def TLS_FLS_STATUS_EEXIST_def TLS_FLS_STATUS_EIO_def
  TLS_FLS_STATUS_ENODRV_def

section \<open>The chip driver\<close>

text \<open>The bytes of the 32-bit command word: the operation and the address, high byte first.\<close>

definition gd_swap32 :: "u32 \<Rightarrow> u32" where
  "gd_swap32 v = push_bit 24 (v AND 0xff) OR push_bit 8 (v AND 0xff00) OR drop_bit 8 (v AND 0xff0000) OR drop_bit 24 v"

definition flash_cmd :: "u32 \<Rightarrow> u32 \<Rightarrow> bytes" where
  "flash_cmd op addr = le32 (op OR (gd_swap32 addr AND 0xffffff00))"

definition io_status :: "int \<Rightarrow> int" where
  "io_status err = (if err \<noteq> 0 then TLS_FLS_STATUS_EIO else TLS_FLS_STATUS_OK)"

definition tls_spifls_drv_write_enable :: "'d bus \<Rightarrow> 'd \<Rightarrow> int \<times> 'd" where
  "tls_spifls_drv_write_enable bus d = (case bus_write bus [0x06] d of (err, d) \<Rightarrow> (io_status err, d))"

text \<open>One look at the status register; \<open>sr\<close> is what was read before, for a call that stores nothing.\<close>

definition poll_sr :: "'d bus \<Rightarrow> u8 \<Rightarrow> 'd \<Rightarrow> int \<times> u8 \<times> 'd" where
  "poll_sr bus sr d = (case bus_read_with_cmd bus [0x05] 1 d of (err, r, d) \<Rightarrow> (err, (case r of [] \<Rightarrow> sr | x # _ \<Rightarrow> x), d))"

partial_function (option) wait_write_enable :: "'d bus \<Rightarrow> u8 \<Rightarrow> 'd \<Rightarrow> (int \<times> 'd) option" where
  "wait_write_enable bus sr d =
    (case poll_sr bus sr d of (err, sr, d) \<Rightarrow>
       if err \<noteq> 0 then Some (TLS_FLS_STATUS_EIO, d)
       else if sr AND 2 \<noteq> 0 then Some (TLS_FLS_STATUS_OK, d)
       else wait_write_enable bus sr d)"

partial_function (option) wait_flash_ready :: "'d bus \<Rightarrow> u8 \<Rightarrow> 'd \<Rightarrow> (int \<times> 'd) option" where
  "wait_flash_ready bus sr d =
    (case poll_sr bus sr d of (err, sr, d) \<Rightarrow>
       if err \<noteq> 0 then Some (TLS_FLS_STATUS_EIO, d)
       else if sr AND 1 = 0 then Some (TLS_FLS_STATUS_OK, d)
       else wait_flash_ready bus sr d)"

definition tls_spifls_drv_wait_write_enable :: "'d bus \<Rightarrow> 'd \<Rightarrow> (int \<times> 'd) option" where
  "tls_spifls_drv_wait_write_enable bus d = wait_write_enable bus 0 d"

definition tls_spifls_drv_wait_flash_ready :: "'d bus \<Rightarrow> 'd \<Rightarrow> (int \<times> 'd) option" where
  "tls_spifls_drv_wait_flash_ready bus d = wait_flash_ready bus 0 d"

definition tls_spifls_drv_read :: "'d bus \<Rightarrow> u32 \<Rightarrow> bytes \<Rightarrow> u32 \<Rightarrow> 'd exfls \<Rightarrow> (int \<times> bytes \<times> 'd exfls) option" where
  "tls_spifls_drv_read bus addr buf len s =
    (if unat len > length buf then None
     else case bus_read_with_cmd bus (flash_cmd 0x03 addr) (unat len) (ex_dev s) of
       (err, r, d) \<Rightarrow> Some (io_status err, bsplice 0 r buf, s\<lparr>ex_dev := d\<rparr>))"

definition tls_spifls_drv_fast_read :: "u32 \<Rightarrow> bytes \<Rightarrow> u32 \<Rightarrow> 'd exfls \<Rightarrow> (int \<times> bytes \<times> 'd exfls) option" where
  "tls_spifls_drv_fast_read addr buf len s = Some (TLS_FLS_STATUS_ENOSUPPORT, buf, s)"

text \<open>
  Programming and erasing share their shape: enable writing, wait until it is enabled, send, wait until the
  chip is ready again; every step that fails ends the call with \<^verbatim>\<open>TLS_FLS_STATUS_EIO\<close>.
\<close>

definition write_command :: "'d bus \<Rightarrow> ('d \<Rightarrow> int \<times> 'd) \<Rightarrow> nat \<Rightarrow> 'd \<Rightarrow> (int \<times> 'd) option" where
  "write_command bus send delay d =
    (case tls_spifls_drv_write_enable bus d of (err, d) \<Rightarrow>
       if err \<noteq> 0 then Some (TLS_FLS_STATUS_EIO, d)
       else case tls_spifls_drv_wait_write_enable bus d of
         None \<Rightarrow> None
       | Some (err, d) \<Rightarrow>
          (if err \<noteq> 0 then Some (TLS_FLS_STATUS_EIO, d)
           else case send d of (err, d) \<Rightarrow>
             if err \<noteq> 0 then Some (TLS_FLS_STATUS_EIO, d)
             else case tls_spifls_drv_wait_flash_ready bus (if delay = 0 then d else bus_delay bus delay d) of
               None \<Rightarrow> None
             | Some (err, d) \<Rightarrow> Some (io_status err, d)))"

definition on_dev :: "('d \<Rightarrow> (int \<times> 'd) option) \<Rightarrow> 'd exfls \<Rightarrow> (int \<times> 'd exfls) option" where
  "on_dev f s = map_option (\<lambda>(err, d). (err, s\<lparr>ex_dev := d\<rparr>)) (f (ex_dev s))"

definition tls_spifls_drv_page_write :: "'d bus \<Rightarrow> u32 \<Rightarrow> bytes \<Rightarrow> 'd exfls \<Rightarrow> (int \<times> 'd exfls) option" where
  "tls_spifls_drv_page_write bus page buf s =
    (let ps = page_size (exspi_fls s)
     in if \<not> exspifls_drv s \<or> unat ps > length buf then None
        else on_dev (write_command bus (bus_write_with_cmd bus (flash_cmd 0x02 (page * ps)) (take (unat ps) buf)) 0) s)"

definition tls_spifls_drv_erase :: "'d bus \<Rightarrow> u32 \<Rightarrow> 'd exfls \<Rightarrow> (int \<times> 'd exfls) option" where
  "tls_spifls_drv_erase bus sector s =
    (if \<not> exspifls_drv s then None
     else on_dev (write_command bus (bus_write bus (flash_cmd 0x20 (sector * sector_size (exspi_fls s)))) 6) s)"

definition tls_spifls_drv_chip_erase :: "'d bus \<Rightarrow> 'd exfls \<Rightarrow> (int \<times> 'd exfls) option" where
  "tls_spifls_drv_chip_erase bus s = on_dev (write_command bus (bus_write bus [0xc7]) 0) s"

text \<open>\<open>1 << (id>>16)\<close> is a shift of an \<^verbatim>\<open>int\<close>: it is undefined from 31 on.\<close>

definition tls_spifls_drv_probe :: "u32 \<Rightarrow> 'd exfls \<Rightarrow> (int \<times> 'd exfls) option" where
  "tls_spifls_drv_probe i s =
    (if i = 0 then Some (TLS_FLS_STATUS_EINVAL, s)
     else let density = unat (drop_bit 16 i)
     in if drop_bit 16 i AND 0xFF \<noteq> 0 \<and> density \<ge> 31 then None
        else Some (TLS_FLS_STATUS_OK, s\<lparr>exspi_fls := (exspi_fls s)\<lparr>drv_id := i,
               total_size := (if drop_bit 16 i AND 0xFF \<noteq> 0 then push_bit density 1 else 1024 * 1024),
               page_size := 256, program_size := 256, sector_size := 4096\<rparr>, exspifls_drv := True\<rparr>))"

definition tls_spifls_drv_remove :: "'d exfls \<Rightarrow> 'd exfls" where
  "tls_spifls_drv_remove s = s\<lparr>exspifls_drv := False\<rparr>"

section \<open>The flash layer\<close>

definition drv :: "drv_ptr \<Rightarrow> 'd exfls \<Rightarrow> tls_fls_drv" where
  "drv p s = (case p of Exspi \<Rightarrow> exspi_fls s)"

definition ex_lock :: "int \<Rightarrow> 'd exfls \<Rightarrow> 'd exfls" where
  "ex_lock k s = s\<lparr>spi_fls := map_option (\<lambda>f. f\<lparr>fls_lock := fls_lock f + k\<rparr>) (spi_fls s)\<rparr>"

abbreviation ex_acquire :: "'d exfls \<Rightarrow> 'd exfls" where "ex_acquire \<equiv> ex_lock (- 1)"
abbreviation ex_release :: "'d exfls \<Rightarrow> 'd exfls" where "ex_release \<equiv> ex_lock 1"

text \<open>The tests every operation starts with: the module is installed and has a driver for the chip.\<close>

definition with_driver :: "'d exfls \<Rightarrow> (int \<Rightarrow> 'r) \<Rightarrow> (drv_ptr \<Rightarrow> 'r) \<Rightarrow> 'r" where
  "with_driver s refuse run =
    (case spi_fls s of
       None \<Rightarrow> refuse TLS_FLS_STATUS_EPERM
     | Some f \<Rightarrow> (case current_drv f of None \<Rightarrow> refuse TLS_FLS_STATUS_ENODRV | Some p \<Rightarrow> run p))"

text \<open>The number of bytes of a request that lie inside the chip, with the sum taken in 32 bits.\<close>

definition clip_bytes :: "u32 \<Rightarrow> u32 \<Rightarrow> u32 \<Rightarrow> u32" where
  "clip_bytes addr len limit = (if addr + len > limit then limit - addr else len)"

definition tls_spifls_read_id :: "'d bus \<Rightarrow> 'd exfls \<Rightarrow> int \<times> u32 \<times> 'd exfls" where
  "tls_spifls_read_id bus s =
    (case bus_read_with_cmd bus (le32 0x9F) 3 (ex_dev s) of
       (err, r, d) \<Rightarrow> (io_status err, de32 (bsplice 0 r (le32 0)), s\<lparr>ex_dev := d\<rparr>))"

definition tls_spifls_read ::
    "'d bus \<Rightarrow> u32 \<Rightarrow> bytes option \<Rightarrow> u32 \<Rightarrow> 'd exfls \<Rightarrow> (int \<times> bytes option \<times> 'd exfls) option" where
  "tls_spifls_read bus addr buf len s =
    with_driver s (\<lambda>err. Some (err, buf, s)) (\<lambda>p.
      if addr \<ge> total_size (drv p s) \<or> len = 0 then Some (TLS_FLS_STATUS_EINVAL, buf, s)
      else case buf of None \<Rightarrow> Some (TLS_FLS_STATUS_EINVAL, buf, s)
      | Some b \<Rightarrow>
         map_option (\<lambda>(err, b, s). (err, Some b, ex_release s))
           (tls_spifls_drv_read bus addr b (clip_bytes addr len (total_size (drv p s))) (ex_acquire s)))"

definition tls_spifls_fast_read :: "u32 \<Rightarrow> bytes option \<Rightarrow> u32 \<Rightarrow> 'd exfls \<Rightarrow> (int \<times> bytes option \<times> 'd exfls) option" where
  "tls_spifls_fast_read addr buf len s =
    with_driver s (\<lambda>err. Some (err, buf, s)) (\<lambda>p.
      if addr \<ge> total_size (drv p s) \<or> len = 0 then Some (TLS_FLS_STATUS_EINVAL, buf, s)
      else case buf of None \<Rightarrow> Some (TLS_FLS_STATUS_EINVAL, buf, s)
      | Some b \<Rightarrow>
         (if drv_flags (drv p s) AND 2 \<noteq> 2 then Some (TLS_FLS_STATUS_ENOSUPPORT, buf, s)
          else map_option (\<lambda>(err, b, s). (err, Some b, s))
            (tls_spifls_drv_fast_read addr b (clip_bytes addr len (total_size (drv p s))) s)))"

text \<open>\<open>k\<close> pages from \<open>page\<close> on; the first that fails ends the call.\<close>

fun write_pages :: "'d bus \<Rightarrow> u32 \<Rightarrow> nat \<Rightarrow> u32 \<Rightarrow> bytes \<Rightarrow> 'd exfls \<Rightarrow> (int \<times> 'd exfls) option" where
  "write_pages bus page 0 sz buf s = Some (TLS_FLS_STATUS_OK, s)"
| "write_pages bus page (Suc k) sz buf s =
    (case tls_spifls_drv_page_write bus page buf s of
       None \<Rightarrow> None
     | Some (err, s) \<Rightarrow>
        (if err \<noteq> TLS_FLS_STATUS_OK then Some (err, s)
         else write_pages bus (page + 1) k sz (drop (unat sz) buf) s))"

definition tls_spifls_page_write :: "'d bus \<Rightarrow> u32 \<Rightarrow> bytes option \<Rightarrow> u32 \<Rightarrow> 'd exfls \<Rightarrow> (int \<times> 'd exfls) option" where
  "tls_spifls_page_write bus page buf page_cnt s =
    with_driver s (\<lambda>err. Some (err, s)) (\<lambda>p.
      let pages = total_size (drv p s) div page_size (drv p s)
      in if page \<ge> pages \<or> page_cnt = 0 then Some (TLS_FLS_STATUS_EINVAL, s)
         else case buf of None \<Rightarrow> Some (TLS_FLS_STATUS_EINVAL, s)
         | Some b \<Rightarrow> write_pages bus page (unat (clip_bytes page page_cnt pages)) (page_size (drv p s)) b s)"

text \<open>
  The loop of \<^verbatim>\<open>tls_spifls_write\<close> over the sectors: where the data of turn \<open>i\<close> go in the cached sector and how
  many bytes, then reading, erasing and programming the sector. A turn that fails gives the semaphore back.
\<close>

definition sector_part :: "u32 \<Rightarrow> u32 \<Rightarrow> nat \<Rightarrow> nat \<Rightarrow> u32 \<Rightarrow> u32 \<times> u32" where
  "sector_part addr sz n i write_bytes =
    (if n = 1 then (addr mod sz, write_bytes)
     else if i = 0 then (addr mod sz, sz - addr mod sz)
     else if i = n - 1 then (0, write_bytes)
     else (0, sz))"

definition failed :: "(int \<times> 'd exfls) option \<Rightarrow> ('d exfls \<Rightarrow> (int \<times> 'd exfls) option) \<Rightarrow> (int \<times> 'd exfls) option" where
  "failed r go = (case r of None \<Rightarrow> None | Some (err, s) \<Rightarrow> if err \<noteq> TLS_FLS_STATUS_OK then Some (err, ex_release s) else go s)"

definition write_sector ::
    "'d bus \<Rightarrow> drv_ptr \<Rightarrow> u32 \<Rightarrow> nat \<Rightarrow> nat \<Rightarrow> bytes \<Rightarrow> bytes \<Rightarrow> 'd exfls \<Rightarrow> (bytes \<Rightarrow> 'd exfls \<Rightarrow> (int \<times> 'd exfls) option) \<Rightarrow> (int \<times> 'd exfls) option" where
  "write_sector bus p sector off cnt buf cache s go =
    (let sz = sector_size (drv p s); pages = sz div page_size (drv p s)
     in case tls_spifls_drv_read bus (sector * sz) cache sz s of
          None \<Rightarrow> None
        | Some (err, cache, s) \<Rightarrow>
           (if err \<noteq> TLS_FLS_STATUS_OK then Some (err, ex_release s)
            else if off + cnt > length cache \<or> cnt > length buf then None
            else let cache = bsplice off (take cnt buf) cache
            in failed (tls_spifls_drv_erase bus sector s) (\<lambda>s.
                 failed (tls_spifls_page_write bus (sector * pages) (Some cache) pages s) (go cache))))"

function spifls_write_loop ::
    "'d bus \<Rightarrow> drv_ptr \<Rightarrow> u32 \<Rightarrow> nat \<Rightarrow> nat \<Rightarrow> bytes \<Rightarrow> u32 \<Rightarrow> bytes \<Rightarrow> 'd exfls \<Rightarrow> (int \<times> 'd exfls) option" where
  "spifls_write_loop bus p addr n i buf write_bytes cache s =
    (if i < n then
       (let sz = sector_size (drv p s); (off, cnt) = sector_part addr sz n i write_bytes
        in write_sector bus p (addr div sz + word_of_nat i) (unat off) (unat cnt) buf cache s (\<lambda>cache s.
             spifls_write_loop bus p addr n (Suc i) (drop (unat cnt) buf) (write_bytes - cnt) cache s))
     else Some (TLS_FLS_STATUS_OK, s))"
  by pat_completeness auto
termination
  by (relation "measure (\<lambda>(bus, p, addr, n, i, _). n - i)") auto

declare spifls_write_loop.simps [simp del]

definition tls_spifls_write :: "'d bus \<Rightarrow> allocator \<Rightarrow> u32 \<Rightarrow> bytes option \<Rightarrow> u32 \<Rightarrow> 'd exfls \<Rightarrow> (int \<times> 'd exfls) option" where
  "tls_spifls_write bus heap addr buf len s =
    with_driver s (\<lambda>err. Some (err, s)) (\<lambda>p.
      if addr \<ge> total_size (drv p s) \<or> len = 0 then Some (TLS_FLS_STATUS_EINVAL, s)
      else case buf of None \<Rightarrow> Some (TLS_FLS_STATUS_EINVAL, s)
      | Some b \<Rightarrow>
         (let s = ex_acquire s;
              write_bytes = clip_bytes addr len (total_size (drv p s));
              sz = sector_size (drv p s);
              sector_num = (addr + write_bytes - 1) div sz - addr div sz + 1;
              blk = heap (ex_allocs s) (unat sz);
              s = s\<lparr>ex_allocs := Suc (ex_allocs s)\<rparr>
          in case blk of
               None \<Rightarrow> Some (TLS_FLS_STATUS_ENOMEM, ex_release s)
             | Some cache \<Rightarrow>
                map_option (\<lambda>(err, s). (err, ex_release s))
                  (spifls_write_loop bus p addr (unat sector_num) 0 b write_bytes cache s)))"

definition tls_spifls_erase :: "'d bus \<Rightarrow> u32 \<Rightarrow> 'd exfls \<Rightarrow> (int \<times> 'd exfls) option" where
  "tls_spifls_erase bus sector s =
    with_driver s (\<lambda>err. Some (err, s)) (\<lambda>p.
      if sector \<ge> total_size (drv p s) div sector_size (drv p s) then Some (TLS_FLS_STATUS_EINVAL, s)
      else map_option (\<lambda>(err, s). (err, ex_release s)) (tls_spifls_drv_erase bus sector (ex_acquire s)))"

definition tls_spifls_chip_erase :: "'d bus \<Rightarrow> 'd exfls \<Rightarrow> (int \<times> 'd exfls) option" where
  "tls_spifls_chip_erase bus s = with_driver s (\<lambda>err. Some (err, s)) (\<lambda>p. tls_spifls_drv_chip_erase bus s)"

definition tls_spifls_get_param :: "u8 \<Rightarrow> u32 option \<Rightarrow> 'd exfls \<Rightarrow> int \<times> u32 option \<times> 'd exfls" where
  "tls_spifls_get_param type param s =
    with_driver s (\<lambda>err. (err, param, s)) (\<lambda>p.
      case param of None \<Rightarrow> (TLS_FLS_STATUS_EINVAL, param, s)
      | Some _ \<Rightarrow>
         (let s = ex_acquire s; d = drv p s;
              (err, param) =
                (if type = 0 then (TLS_FLS_STATUS_OK, Some (drv_id d))
                 else if type = 1 then (TLS_FLS_STATUS_OK, Some (total_size d))
                 else if type = 2 then (TLS_FLS_STATUS_OK, Some (page_size d))
                 else if type = 3 then (TLS_FLS_STATUS_OK, Some (program_size d))
                 else if type = 4 then (TLS_FLS_STATUS_OK, Some (sector_size d))
                 else (TLS_FLS_STATUS_EINVAL, param))
          in (err, param, ex_release s)))"

section \<open>Registration and installation\<close>

definition tls_spifls_drv_register :: "drv_ptr option \<Rightarrow> 'd exfls \<Rightarrow> (int \<times> 'd exfls) option" where
  "tls_spifls_drv_register fls_drv s =
    (case fls_drv of
       None \<Rightarrow> Some (TLS_FLS_STATUS_EINVAL, s)
     | Some p \<Rightarrow>
        (case spi_fls s of
           None \<Rightarrow> None
         | Some f \<Rightarrow>
            (if list_ex (\<lambda>q. drv_id (drv q s) = drv_id (drv p s)) (fls_drvs f) then Some (TLS_FLS_STATUS_EEXIST, s)
             else Some (TLS_FLS_STATUS_OK, s\<lparr>spi_fls := Some (f\<lparr>fls_drvs := fls_drvs f @ [p]\<rparr>)\<rparr>))))"

definition tls_spifls_drv_unregister :: "drv_ptr option \<Rightarrow> int" where
  "tls_spifls_drv_unregister fls_drv = TLS_FLS_STATUS_EPERM"

definition tls_spifls_probe :: "'d bus \<Rightarrow> 'd exfls \<Rightarrow> (int \<times> 'd exfls) option" where
  "tls_spifls_probe bus s =
    (case spi_fls s of
       None \<Rightarrow> Some (TLS_FLS_STATUS_EPERM, s)
     | Some f \<Rightarrow>
        (if current_drv f \<noteq> None then Some (TLS_FLS_STATUS_EBUSY, s)
         else case tls_spifls_read_id bus s of (err, i, s) \<Rightarrow>
           if err \<noteq> TLS_FLS_STATUS_OK then Some (err, s)
           else case fls_drvs f of
             [] \<Rightarrow> Some (TLS_FLS_STATUS_ENODRV, s)
           | p # _ \<Rightarrow>
              (case tls_spifls_drv_probe i s of
                 None \<Rightarrow> None
               | Some (err, s) \<Rightarrow>
                  (if err \<noteq> TLS_FLS_STATUS_OK then Some (err, s)
                   else let d = drv p s
                   in Some (TLS_FLS_STATUS_OK, s\<lparr>ex_dev := bus_setup bus (drv_mode d) (drv_cs_active d) (drv_clock d) (ex_dev s),
                        spi_fls := Some (f\<lparr>current_drv := Some p\<rparr>)\<rparr>)))))"

definition tls_spifls_drv_install :: "'d bus \<Rightarrow> 'd exfls \<Rightarrow> (int \<times> 'd exfls) option" where
  "tls_spifls_drv_install bus s =
    (case tls_spifls_drv_register (Some Exspi) s of
       None \<Rightarrow> None
     | Some (err, s) \<Rightarrow> (if err = TLS_FLS_STATUS_EEXIST then Some (err, s) else tls_spifls_probe bus s))"

definition tls_spifls_init :: "'d bus \<Rightarrow> allocator \<Rightarrow> bool \<Rightarrow> 'd exfls \<Rightarrow> (int \<times> 'd exfls) option" where
  "tls_spifls_init bus heap sem_ok s =
    (if spi_fls s \<noteq> None then Some (TLS_FLS_STATUS_EBUSY, s)
     else let blk = heap (ex_allocs s) 16; s = s\<lparr>ex_allocs := Suc (ex_allocs s)\<rparr>
     in if blk = None then Some (TLS_FLS_STATUS_ENOMEM, s)
        else if \<not> sem_ok then Some (TLS_FLS_STATUS_ENOMEM, s)
        else map_option (\<lambda>(_, s). (TLS_FLS_STATUS_OK, s))
          (tls_spifls_drv_install bus (s\<lparr>spi_fls := Some \<lparr>fls_drvs = [], current_drv = None, fls_lock = 1\<rparr>\<rparr>)))"

definition tls_spifls_exit :: int where
  "tls_spifls_exit = TLS_FLS_STATUS_EPERM"

end
