(* ===== verification/Ext_Flash_Correct.thy ===== *)
theory Ext_Flash_Correct
  imports Ext_Flash
begin

text \<open>
  Correctness of the external flash driver. The locale \<open>ext_chip\<close> is what data sheets promise of the chip behind the
  bus: the bytes of the commands, the status register with its write-enable latch and its busy flag, which a
  finite number of polls sees cleared, programming that only clears bits and erasing that sets them. Over it the
  driver is shown to be a \<open>block_store\<close>, as the internal one is. The last section is about the lock.
\<close>

section \<open>Commands\<close>

definition chip_cmd :: "u8 \<Rightarrow> nat \<Rightarrow> bytes" where
  "chip_cmd op a = [op, word_of_nat (a div 2 ^ 16), word_of_nat (a div 2 ^ 8), word_of_nat a]"

lemma u8_eqI: "list_all (\<lambda>n. bit a n = bit b n) [0..<8] \<Longrightarrow> a = b" for a b :: u8
  by (rule bit_word_eqI) (simp add: list_all_iff)

lemma flash_cmd_bytes:
  "flash_cmd (ucast op) addr = [op, ucast (drop_bit 16 addr), ucast (drop_bit 8 addr), ucast addr]" for op :: u8
proof -
  let ?w = "ucast op OR (gd_swap32 addr AND 0xffffff00) :: u32"
  have "ucast ?w = op" by (rule u8_eqI) (simp add: upt_8 bit_simps)
  moreover have "ucast (drop_bit 8 ?w) = (ucast (drop_bit 16 addr) :: u8)"
    by (rule u8_eqI) (simp add: upt_8 gd_swap32_def bit_simps u8_bit_beyond)
  moreover have "ucast (drop_bit 16 ?w) = (ucast (drop_bit 8 addr) :: u8)"
    by (rule u8_eqI) (simp add: upt_8 gd_swap32_def bit_simps u8_bit_beyond)
  moreover have "ucast (drop_bit 24 ?w) = (ucast addr :: u8)"
    by (rule u8_eqI) (simp add: upt_8 gd_swap32_def bit_simps u8_bit_beyond)
  ultimately show ?thesis by (simp add: flash_cmd_def le32_def)
qed

lemma ucast_word_of_nat: "ucast (w :: u32) = (word_of_nat (unat w) :: u8)"
  by (simp add: of_nat_unat)

lemma flash_cmd_chip: "flash_cmd (ucast op) addr = chip_cmd op (unat addr)" for op :: u8
proof -
  have "unat (drop_bit k addr) = unat addr div 2 ^ k" for k
    unfolding unsigned_drop_bit_eq using u32_unat_less [of addr] by (simp add: drop_bit_eq_div take_bit_nat_eq_self)
  then show ?thesis unfolding flash_cmd_bytes chip_cmd_def ucast_word_of_nat by simp
qed

section \<open>The chip\<close>

text \<open>A driver that was installed and has found its chip, which is not busy; the size of the chip.\<close>

definition ext_ready :: "('d \<Rightarrow> nat) \<Rightarrow> 'd exfls \<Rightarrow> bool" where
  "ext_ready busy s \<longleftrightarrow> (\<exists>f. spi_fls s = Some f \<and> current_drv f = Some Exspi) \<and> exspifls_drv s \<and> page_size (exspi_fls s) = 256
     \<and> sector_size (exspi_fls s) = 4096 \<and> unat (total_size (exspi_fls s)) \<le> 2 ^ 24 \<and> 4096 dvd unat (total_size (exspi_fls s))
     \<and> busy (ex_dev s) = 0"

definition ext_capacity :: "'d exfls \<Rightarrow> nat" where
  "ext_capacity s = unat (total_size (exspi_fls s))"

locale ext_chip =
  fixes bus :: "'d bus"
    and mem :: "'d \<Rightarrow> nat \<Rightarrow> u8"
    and wel :: "'d \<Rightarrow> bool"
    and busy :: "'d \<Rightarrow> nat"
    and ident :: "'d \<Rightarrow> bytes"
  assumes enable: "busy d = 0 \<Longrightarrow> bus_write bus [0x06] d = (e, d') \<Longrightarrow>
      e = 0 \<and> wel d' \<and> busy d' = 0 \<and> mem d' = mem d \<and> ident d' = ident d"
    and status: "bus_read_with_cmd bus [0x05] 1 d = (e, r, d') \<Longrightarrow>
      e = 0 \<and> (\<exists>sr. r = [sr] \<and> (bit sr 0 \<longleftrightarrow> busy d \<noteq> 0) \<and> (bit sr 1 \<longleftrightarrow> wel d)) \<and> busy d' \<le> busy d - 1
      \<and> (busy d = 0 \<longrightarrow> wel d' = wel d) \<and> mem d' = mem d \<and> ident d' = ident d"
    and read_data: "busy d = 0 \<Longrightarrow> 0 < n \<Longrightarrow> a + n \<le> 2 ^ 24 \<Longrightarrow> bus_read_with_cmd bus (chip_cmd 0x03 a) n d = (e, r, d') \<Longrightarrow>
      e = 0 \<and> r = mem_bytes (mem d) a n \<and> busy d' = 0 \<and> mem d' = mem d \<and> ident d' = ident d"
    and program_page: "busy d = 0 \<Longrightarrow> wel d \<Longrightarrow> 256 dvd a \<Longrightarrow> a < 2 ^ 24 \<Longrightarrow> length data = 256 \<Longrightarrow>
      bus_write_with_cmd bus (chip_cmd 0x02 a) data d = (e, d') \<Longrightarrow>
      e = 0 \<and> mem d' = mem_program a data (mem d) \<and> ident d' = ident d"
    and erase_sector: "busy d = 0 \<Longrightarrow> wel d \<Longrightarrow> a < 2 ^ 24 \<Longrightarrow> bus_write bus (chip_cmd 0x20 a) d = (e, d') \<Longrightarrow>
      e = 0 \<and> mem d' = mem_erase a (mem d) \<and> ident d' = ident d"
    and erase_chip: "busy d = 0 \<Longrightarrow> wel d \<Longrightarrow> bus_write bus [0xc7] d = (e, d') \<Longrightarrow>
      e = 0 \<and> mem d' = (\<lambda>_. 0xFF) \<and> ident d' = ident d"
    and read_ident: "busy d = 0 \<Longrightarrow> bus_read_with_cmd bus [0x9F, 0, 0, 0] 3 d = (e, r, d') \<Longrightarrow>
      e = 0 \<and> r = ident d \<and> length r = 3 \<and> busy d' = 0 \<and> mem d' = mem d \<and> ident d' = ident d"
    and delay: "busy (bus_delay bus k d) \<le> busy d \<and> mem (bus_delay bus k d) = mem d \<and> ident (bus_delay bus k d) = ident d"
    and configure: "busy (bus_setup bus mode cs clk d) = busy d \<and> mem (bus_setup bus mode cs clk d) = mem d
      \<and> ident (bus_setup bus mode cs clk d) = ident d"
begin

text \<open>Both polling loops return: the first at once, the second after as many polls as the chip is busy.\<close>

lemma bit_and_2: "sr AND 2 \<noteq> 0 \<longleftrightarrow> bit sr 1" for sr :: u8
  by (simp add: and_exp_eq_0_iff_not_bit [of sr 1, simplified])

lemma bit_and_1: "sr AND 1 = 0 \<longleftrightarrow> \<not> bit sr 0" for sr :: u8
  by (simp add: and_one_eq bit_0 odd_iff_mod_2_eq_one even_iff_mod_2_eq_zero)

lemma wait_enabled:
  assumes "busy d = 0" "wel d"
  obtains d' where "tls_spifls_drv_wait_write_enable bus d = Some (TLS_FLS_STATUS_OK, d')"
    "busy d' = 0" "wel d'" "mem d' = mem d" "ident d' = ident d"
proof -
  obtain e r d' where p: "bus_read_with_cmd bus [0x05] 1 d = (e, r, d')" by (metis prod_cases3)
  from status [OF p] assms obtain sr where "e = 0" "r = [sr]" "bit sr 1" "busy d' = 0" "wel d'" "mem d' = mem d" "ident d' = ident d"
    by auto
  moreover from this p have "tls_spifls_drv_wait_write_enable bus d = Some (TLS_FLS_STATUS_OK, d')"
    unfolding tls_spifls_drv_wait_write_enable_def by (subst wait_write_enable.simps) (simp add: poll_sr_def bit_and_2)
  ultimately show ?thesis using that by blast
qed

lemma wait_ready:
  "\<exists>d'. wait_flash_ready bus sr d = Some (TLS_FLS_STATUS_OK, d') \<and> busy d' = 0 \<and> mem d' = mem d \<and> ident d' = ident d"
proof (induction "busy d" arbitrary: sr d rule: less_induct)
  case less
  obtain e r d' where p: "bus_read_with_cmd bus [0x05] 1 d = (e, r, d')" by (metis prod_cases3)
  from status [OF p] obtain sr' where r: "e = 0" "r = [sr']" "bit sr' 0 \<longleftrightarrow> busy d \<noteq> 0" "busy d' \<le> busy d - 1"
    "mem d' = mem d" "ident d' = ident d" by auto
  show ?case
  proof (cases "busy d = 0")
    case True
    then show ?thesis using p r by (subst wait_flash_ready.simps) (simp add: poll_sr_def bit_and_1)
  next
    case False
    then have "busy d' < busy d" using r(4) by simp
    from less [OF this, of sr'] False show ?thesis
      using p r by (subst wait_flash_ready.simps) (simp add: poll_sr_def bit_and_1)
  qed
qed

lemma write_command_ok:
  assumes "busy d = 0"
    and send: "\<And>d1 e d2. busy d1 = 0 \<Longrightarrow> wel d1 \<Longrightarrow> mem d1 = mem d \<Longrightarrow> send d1 = (e, d2) \<Longrightarrow> e = 0 \<and> mem d2 = m \<and> ident d2 = ident d1"
  shows "\<exists>d'. write_command bus send k d = Some (TLS_FLS_STATUS_OK, d') \<and> busy d' = 0 \<and> mem d' = m \<and> ident d' = ident d"
proof -
  obtain e d1 where w: "bus_write bus [0x06] d = (e, d1)" by fastforce
  note e = enable [OF assms(1) w]
  obtain d2 where d2: "tls_spifls_drv_wait_write_enable bus d1 = Some (TLS_FLS_STATUS_OK, d2)"
    "busy d2 = 0" "wel d2" "mem d2 = mem d1" "ident d2 = ident d1" using wait_enabled e by blast
  obtain e3 d3 where s: "send d2 = (e3, d3)" by fastforce
  have d3: "e3 = 0" "mem d3 = m" "ident d3 = ident d" using send [OF d2(2,3) _ s] d2 e by auto
  let ?d4 = "if k = 0 then d3 else bus_delay bus k d3"
  have d4: "mem ?d4 = m" "ident ?d4 = ident d" using d3 delay by auto
  obtain d5 where "wait_flash_ready bus 0 ?d4 = Some (TLS_FLS_STATUS_OK, d5)" "busy d5 = 0" "mem d5 = m" "ident d5 = ident d"
    using wait_ready [of 0 ?d4] d4 by auto
  then show ?thesis using w e d2(1) s d3(1)
    by (simp add: write_command_def tls_spifls_drv_write_enable_def io_status_def TLS_FLS_STATUS_OK_def
        tls_spifls_drv_wait_flash_ready_def)
qed


section \<open>The chip driver\<close>

text \<open>The driver's variables stay as they are, the chip is ready and its contents are \<open>m\<close>.\<close>

definition ex_becomes :: "(nat \<Rightarrow> u8) \<Rightarrow> 'd exfls \<Rightarrow> 'd exfls \<Rightarrow> bool" where
  "ex_becomes m s t \<longleftrightarrow> mem (ex_dev t) = m \<and> busy (ex_dev t) = 0 \<and> ident (ex_dev t) = ident (ex_dev s) \<and> spi_fls t = spi_fls s
     \<and> exspi_fls t = exspi_fls s \<and> exspifls_drv t = exspifls_drv s"

lemma ex_becomes_trans: "ex_becomes m s t \<Longrightarrow> ex_becomes m' t u \<Longrightarrow> ex_becomes m' s u"
  by (simp add: ex_becomes_def)

lemma ex_becomesD: "ex_becomes m s t \<Longrightarrow> mem (ex_dev t) = m"
  by (simp add: ex_becomes_def)

lemma drv_read_ok:
  assumes "busy (ex_dev s) = 0" "0 < unat n" "unat n \<le> length buf" "unat a + unat n \<le> 2 ^ 24"
  shows "\<exists>s'. tls_spifls_drv_read bus a buf n s = Some (TLS_FLS_STATUS_OK, bsplice 0 (mem_bytes (mem (ex_dev s)) (unat a) (unat n)) buf, s')
    \<and> ex_becomes (mem (ex_dev s)) s s'"
proof -
  obtain e r d where r: "bus_read_with_cmd bus (chip_cmd 0x03 (unat a)) (unat n) (ex_dev s) = (e, r, d)" by (metis prod_cases3)
  have "flash_cmd 0x03 a = chip_cmd 0x03 (unat a)" using flash_cmd_chip [of "0x03" a] by simp
  then show ?thesis using read_data [OF assms(1,2,4) r] r assms(3)
    by (simp add: tls_spifls_drv_read_def io_status_def ex_becomes_def)
qed

lemma on_dev_ok:
  assumes "busy (ex_dev s) = 0"
    and "\<And>d1 e d2. busy d1 = 0 \<Longrightarrow> wel d1 \<Longrightarrow> mem d1 = mem (ex_dev s) \<Longrightarrow> send d1 = (e, d2) \<Longrightarrow> e = 0 \<and> mem d2 = m \<and> ident d2 = ident d1"
  shows "\<exists>s'. on_dev (write_command bus send k) s = Some (TLS_FLS_STATUS_OK, s') \<and> ex_becomes m s s'"
proof -
  obtain d' where "write_command bus send k (ex_dev s) = Some (TLS_FLS_STATUS_OK, d')" "busy d' = 0" "mem d' = m" "ident d' = ident (ex_dev s)"
    using write_command_ok [OF assms] by blast
  then show ?thesis by (simp add: on_dev_def ex_becomes_def)
qed

lemma drv_page_write_ok:
  assumes "busy (ex_dev s) = 0" "exspifls_drv s" "page_size (exspi_fls s) = 256" "256 \<le> length buf" "unat page * 256 < 2 ^ 24"
  shows "\<exists>s'. tls_spifls_drv_page_write bus page buf s = Some (TLS_FLS_STATUS_OK, s')
    \<and> ex_becomes (mem_program (unat page * 256) (take 256 buf) (mem (ex_dev s))) s s'"
proof -
  have "unat (page * 256) = unat page * 256" using assms(5) by (simp add: unat_word_ariths)
  then have cmd: "flash_cmd 0x02 (page * 256) = chip_cmd 0x02 (unat page * 256)" using flash_cmd_chip [of "0x02" "page * 256"] by simp
  have "e = 0 \<and> mem d2 = mem_program (unat page * 256) (take 256 buf) (mem (ex_dev s)) \<and> ident d2 = ident d1"
    if "busy d1 = 0" "wel d1" "mem d1 = mem (ex_dev s)" "bus_write_with_cmd bus (chip_cmd 0x02 (unat page * 256)) (take 256 buf) d1 = (e, d2)"
    for d1 e d2
    using program_page [OF that(1,2) _ assms(5) _ that(4)] that(3) assms(4) by simp
  note ok = on_dev_ok [OF assms(1), where send = "bus_write_with_cmd bus (chip_cmd 0x02 (unat page * 256)) (take 256 buf)" and k = 0, OF this]
  have "tls_spifls_drv_page_write bus page buf s
      = on_dev (write_command bus (bus_write_with_cmd bus (chip_cmd 0x02 (unat page * 256)) (take 256 buf)) 0) s"
    using assms(2,4) by (simp add: tls_spifls_drv_page_write_def assms(3) cmd)
  then show ?thesis by (simp only: ok)
qed

lemma drv_erase_ok:
  assumes "busy (ex_dev s) = 0" "exspifls_drv s" "sector_size (exspi_fls s) = 4096" "unat sector * 4096 < 2 ^ 24"
  shows "\<exists>s'. tls_spifls_drv_erase bus sector s = Some (TLS_FLS_STATUS_OK, s')
    \<and> ex_becomes (mem_erase (unat sector * 4096) (mem (ex_dev s))) s s'"
proof -
  have "unat (sector * 4096) = unat sector * 4096" using assms(4) by (simp add: unat_word_ariths)
  then have cmd: "flash_cmd 0x20 (sector * 4096) = chip_cmd 0x20 (unat sector * 4096)" using flash_cmd_chip [of "0x20" "sector * 4096"] by simp
  have "e = 0 \<and> mem d2 = mem_erase (unat sector * 4096) (mem (ex_dev s)) \<and> ident d2 = ident d1"
    if "busy d1 = 0" "wel d1" "mem d1 = mem (ex_dev s)" "bus_write bus (chip_cmd 0x20 (unat sector * 4096)) d1 = (e, d2)" for d1 e d2
    using erase_sector [OF that(1,2) assms(4) that(4)] that(3) by simp
  note ok = on_dev_ok [OF assms(1), where send = "bus_write bus (chip_cmd 0x20 (unat sector * 4096))" and k = 6, OF this]
  have "tls_spifls_drv_erase bus sector s = on_dev (write_command bus (bus_write bus (chip_cmd 0x20 (unat sector * 4096))) 6) s"
    using assms(2) by (simp add: tls_spifls_drv_erase_def assms(3) cmd)
  then show ?thesis by (simp only: ok)
qed

lemma drv_chip_erase_ok:
  assumes "busy (ex_dev s) = 0"
  shows "\<exists>s'. tls_spifls_drv_chip_erase bus s = Some (TLS_FLS_STATUS_OK, s') \<and> ex_becomes (\<lambda>_. 0xFF) s s'"
  unfolding tls_spifls_drv_chip_erase_def using erase_chip by (intro on_dev_ok [OF assms]) auto

section \<open>The flash layer\<close>

lemma ext_readyD:
  assumes "ext_ready busy s"
  shows "exspifls_drv s" "page_size (exspi_fls s) = 256" "sector_size (exspi_fls s) = 4096" "ext_capacity s \<le> 2 ^ 24"
    "4096 dvd ext_capacity s" "busy (ex_dev s) = 0" "drv Exspi s = exspi_fls s"
  using assms by (auto simp: ext_ready_def ext_capacity_def drv_def)

lemma with_driver_ready: "ext_ready busy s \<Longrightarrow> with_driver s refuse run = run Exspi"
  by (auto simp: ext_ready_def with_driver_def)

lemma ex_becomes_ready: "ex_becomes m s t \<Longrightarrow> ext_ready busy s \<Longrightarrow> ext_ready busy t \<and> ext_capacity t = ext_capacity s"
  by (simp add: ex_becomes_def ext_ready_def ext_capacity_def)

lemma ex_lock_ready [simp]: "ext_ready busy (ex_lock k s) = ext_ready busy s" "ext_capacity (ex_lock k s) = ext_capacity s"
  "ex_dev (ex_lock k s) = ex_dev s" "exspi_fls (ex_lock k s) = exspi_fls s" "exspifls_drv (ex_lock k s) = exspifls_drv s"
  by (auto simp: ext_ready_def ext_capacity_def ex_lock_def map_option_case split: option.splits)

lemma ex_becomes_lock: "ex_becomes m (ex_acquire s) t \<Longrightarrow> ex_becomes m s (ex_release t)"
  by (auto simp: ex_becomes_def ex_lock_def map_option_case split: option.splits)

lemma write_pages_ok:
  assumes "ext_ready busy s" "k * 256 \<le> length buf" "(unat page + k) * 256 \<le> 2 ^ 24"
  shows "\<exists>s'. write_pages bus page k 256 buf s = Some (TLS_FLS_STATUS_OK, s')
    \<and> ex_becomes (mem_program (unat page * 256) (take (k * 256) buf) (mem (ex_dev s))) s s'"
  using assms
proof (induction k arbitrary: page buf s)
  case 0
  then show ?case by (simp add: ex_becomes_def ext_readyD)
next
  case (Suc k)
  let ?m = "mem_program (unat page * 256) (take 256 buf) (mem (ex_dev s))"
  obtain s1 where s1: "tls_spifls_drv_page_write bus page buf s = Some (TLS_FLS_STATUS_OK, s1)" "ex_becomes ?m s s1"
    using drv_page_write_ok [of s buf page] Suc.prems by (auto simp: ext_readyD)
  have p: "unat (page + 1) * 256 = unat page * 256 + 256" using Suc.prems(3) by (simp add: unat_word_ariths)
  obtain s2 where s2: "write_pages bus (page + 1) k 256 (drop 256 buf) s1 = Some (TLS_FLS_STATUS_OK, s2)"
    "ex_becomes (mem_program (unat page * 256 + 256) (take (k * 256) (drop 256 buf)) ?m) s1 s2"
  proof -
    have "k * 256 \<le> length (drop 256 buf)" "(unat (page + 1) + k) * 256 \<le> 2 ^ 24" using Suc.prems(2,3) p by (simp_all add: add_mult_distrib)
    then show ?thesis using Suc.IH [of s1 "drop 256 buf" "page + 1"] ex_becomes_ready [OF s1(2) Suc.prems(1)] that
      unfolding p ex_becomesD [OF s1(2)] by blast
  qed
  have "mem_program (unat page * 256 + 256) (take (k * 256) (drop 256 buf)) ?m
      = mem_program (unat page * 256) (take (Suc k * 256) buf) (mem (ex_dev s))"
    using Suc.prems(2) by (subst mem_program_append) (simp_all add: take_add [symmetric])
  then show ?case using s1(1) s2 ex_becomes_trans [OF s1(2) s2(2)] by simp
qed

lemma write_sector_ok:
  assumes "ext_ready busy s" "length cache = 4096" "unat sector * 4096 + 4096 \<le> ext_capacity s" "off + cnt \<le> 4096" "cnt \<le> length buf"
  obtains cache' s' where "length cache' = 4096" "ex_becomes (mem_write (unat sector * 4096 + off) (take cnt buf) (mem (ex_dev s))) s s'"
    "\<And>go. write_sector bus Exspi sector off cnt buf cache s go = go cache' s'"
proof -
  note r = ext_readyD [OF assms(1)]
  let ?m = "mem (ex_dev s)" and ?S = "unat sector * 4096"
  have lim: "?S + 4096 \<le> 2 ^ 24" using assms(3) r(4) by linarith
  have us: "unat (sector * 4096) = ?S" "unat (sector * 16) = unat sector * 16" using lim by (simp_all add: unat_word_ariths)
  obtain s1 where s1: "tls_spifls_drv_read bus (sector * 4096) cache 4096 s = Some (TLS_FLS_STATUS_OK, mem_bytes ?m ?S 4096, s1)"
    "ex_becomes ?m s s1"
    using drv_read_ok [of s 4096 cache "sector * 4096"] r(6) assms(2) lim us by (auto simp: bsplice_full)
  define c where "c = bsplice off (take cnt buf) (mem_bytes ?m ?S 4096)"
  have c: "length c = 4096" using assms(4,5) by (simp add: c_def)
  note r1 = ex_becomes_ready [OF s1(2) assms(1)] ext_readyD [of s1]
  obtain s2 where s2: "tls_spifls_drv_erase bus sector s1 = Some (TLS_FLS_STATUS_OK, s2)" "ex_becomes (mem_erase ?S ?m) s1 s2"
    using drv_erase_ok [of s1 sector] r1 lim ex_becomesD [OF s1(2)] by auto
  note r2 = ex_becomes_ready [OF s2(2)] ext_readyD [of s2]
  have pages: "total_size (exspi_fls s2) div 256 > sector * 16" "clip_bytes (sector * 16) 16 (total_size (exspi_fls s2) div 256) = 16"
  proof -
    have "unat (total_size (exspi_fls s2) div 256) = ext_capacity s div 256" using r1 r2 by (simp add: unat_div ext_capacity_def)
    moreover have "unat sector * 16 + 16 \<le> ext_capacity s div 256" using assms(3) by simp
    moreover have "unat (sector * 16 + 16) = unat sector * 16 + 16" using lim us by (simp add: unat_word_ariths)
    ultimately show "total_size (exspi_fls s2) div 256 > sector * 16" "clip_bytes (sector * 16) 16 (total_size (exspi_fls s2) div 256) = 16"
      using us by (simp_all add: word_less_nat_alt clip_bytes_def)
  qed
  obtain s3 where s3: "write_pages bus (sector * 16) 16 256 c s2 = Some (TLS_FLS_STATUS_OK, s3)"
    "ex_becomes (mem_program ?S c (mem_erase ?S ?m)) s2 s3"
    using write_pages_ok [of s2 16 c "sector * 16"] r1 r2 lim us c ex_becomesD [OF s2(2)] by (auto simp: mult.commute)
  have m: "mem_program ?S c (mem_erase ?S ?m) = mem_write (?S + off) (take cnt buf) ?m"
    using assms(4,5) by (simp add: mem_program_erased c mem_write_merge c_def)
  have "tls_spifls_page_write bus (sector * 16) (Some c) 16 s2 = Some (TLS_FLS_STATUS_OK, s3)"
    using s3(1) r1 r2 pages by (simp add: tls_spifls_page_write_def with_driver_ready Let_def flip: not_less)
  then have "write_sector bus Exspi sector off cnt buf cache s go = go c s3" for go
    using s1(1) s2(1) assms(4,5) r by (simp add: write_sector_def failed_def Let_def c_def)
  moreover have "ex_becomes (mem_write (?S + off) (take cnt buf) ?m) s s3"
    using ex_becomes_trans [OF s1(2) ex_becomes_trans [OF s2(2) s3(2)]] m by simp
  ultimately show ?thesis using that [OF c] by blast
qed


text \<open>
  The turns of the write loop: turn \<open>i\<close> starts at \<open>turn_pos A i\<close> and writes to the end of its sector, the last
  one to the end of the data.
\<close>

definition turn_pos :: "nat \<Rightarrow> nat \<Rightarrow> nat" where
  "turn_pos A i = (if i = 0 then A else (A div 4096 + i) * 4096)"

definition turns :: "nat \<Rightarrow> nat \<Rightarrow> nat" where
  "turns A En = (En - 1) div 4096 - A div 4096 + 1"

lemma turn_sector: "turn_pos A i div 4096 = A div 4096 + i" "turn_pos A i mod 4096 = (if i = 0 then A mod 4096 else 0)"
  by (simp_all add: turn_pos_def)

lemma turn_last:
  assumes "A < En" "Suc i = turns A En"
  shows "turn_pos A i mod 4096 + (En - turn_pos A i) \<le> 4096" "turn_pos A i < En"
proof -
  have q: "A div 4096 + i = (En - 1) div 4096" using assms by (simp add: turns_def div_le_mono)
  show pos: "turn_pos A i < En"
  proof (cases "i = 0")
    case False
    have "turn_pos A i = (En - 1) div 4096 * 4096" using False q by (simp add: turn_pos_def)
    also have "\<dots> \<le> En - 1" by (rule div_times_less_eq_dividend)
    finally show ?thesis using assms(1) by linarith
  qed (use assms(1) in \<open>simp add: turn_pos_def\<close>)
  have "En - 1 < (En - 1) div 4096 * 4096 + 4096"
    using mod_less_divisor [of 4096 "En - 1"] div_mult_mod_eq [of "En - 1" 4096] by linarith
  then have "En \<le> turn_pos A i div 4096 * 4096 + 4096" using q by (simp add: turn_sector)
  moreover have "turn_pos A i div 4096 * 4096 + turn_pos A i mod 4096 = turn_pos A i" by simp
  ultimately show "turn_pos A i mod 4096 + (En - turn_pos A i) \<le> 4096" using pos by linarith
qed

lemma turn_next:
  assumes "A < En" "Suc i < turns A En"
  shows "turn_pos A (Suc i) = turn_pos A i + (4096 - turn_pos A i mod 4096)" "turn_pos A (Suc i) < En"
proof -
  have "A div 4096 + Suc i \<le> (En - 1) div 4096" using assms(2) by (simp add: turns_def)
  then have "(A div 4096 + Suc i) * 4096 \<le> (En - 1) div 4096 * 4096" by (rule mult_le_mono1)
  then have "turn_pos A (Suc i) \<le> En - 1"
    unfolding turn_pos_def using div_times_less_eq_dividend [of "En - 1" 4096] by simp
  then show "turn_pos A (Suc i) < En" using assms(1) by linarith
  have "turn_pos A (Suc i) = turn_pos A i div 4096 * 4096 + 4096" unfolding turn_sector(1) by (simp add: turn_pos_def)
  moreover have "turn_pos A i mod 4096 < 4096" "turn_pos A i = turn_pos A i div 4096 * 4096 + turn_pos A i mod 4096" by simp_all
  ultimately show "turn_pos A (Suc i) = turn_pos A i + (4096 - turn_pos A i mod 4096)" by linarith
qed

lemma sector_room: "4096 dvd c \<Longrightarrow> p < c \<Longrightarrow> p div 4096 * 4096 + 4096 \<le> c" for c p :: nat
  by (auto elim!: dvdE simp: less_mult_imp_div_less)
    (metis Suc_leI add.commute less_mult_imp_div_less mult.commute mult_Suc mult_le_mono1)

lemma sector_part_ok:
  assumes "unat addr < En" "i < turns (unat addr) En" "unat wb = En - turn_pos (unat addr) i"
    and "sector_part addr 4096 (turns (unat addr) En) i wb = (off, cnt)"
  shows "unat off = turn_pos (unat addr) i mod 4096"
    "unat cnt = (if Suc i = turns (unat addr) En then En - turn_pos (unat addr) i else 4096 - turn_pos (unat addr) i mod 4096)"
proof -
  have m: "unat (addr mod 4096) = unat addr mod 4096" by (simp add: unat_mod)
  moreover have "unat (4096 - addr mod 4096) = 4096 - unat addr mod 4096"
    using m by (subst unat_sub) (simp_all add: word_le_nat_alt less_imp_le)
  ultimately show "unat off = turn_pos (unat addr) i mod 4096"
    "unat cnt = (if Suc i = turns (unat addr) En then En - turn_pos (unat addr) i else 4096 - turn_pos (unat addr) i mod 4096)"
    using assms by (auto simp: sector_part_def turn_sector split: if_splits)
qed

lemma write_loop_ok:
  assumes "ext_ready busy s" "length cache = 4096" "unat addr < En" "En \<le> ext_capacity s" "i < turns (unat addr) En"
    and "unat wb = En - turn_pos (unat addr) i" "En - turn_pos (unat addr) i \<le> length buf"
  shows "\<exists>s'. spifls_write_loop bus Exspi addr (turns (unat addr) En) i buf wb cache s = Some (TLS_FLS_STATUS_OK, s')
    \<and> ex_becomes (mem_write (turn_pos (unat addr) i) (take (En - turn_pos (unat addr) i) buf) (mem (ex_dev s))) s s'"
  using assms
proof (induction "turns (unat addr) En - i" arbitrary: i buf wb cache s)
  case 0
  then show ?case by simp
next
  case (Suc k)
  let ?A = "unat addr" and ?m = "mem (ex_dev s)" and ?n = "turns (unat addr) En"
  let ?pos = "turn_pos (unat addr) i" and ?sector = "addr div 4096 + word_of_nat i"
  note r = ext_readyD [OF Suc.prems(1)]
  obtain off cnt where oc: "sector_part addr 4096 ?n i wb = (off, cnt)" by fastforce
  note part = sector_part_ok [OF Suc.prems(3,5,6) oc]
  have last: "En \<le> 2 ^ 24" using Suc.prems(4) r(4) by linarith
  have fits: "?pos < En" "?pos mod 4096 + unat cnt \<le> 4096" "unat cnt \<le> En - ?pos" "?pos + unat cnt \<le> En"
  proof -
    consider "Suc i = ?n" | "Suc i < ?n" using Suc.prems(5) by linarith
    then have "?pos < En \<and> ?pos mod 4096 + unat cnt \<le> 4096 \<and> ?pos + unat cnt \<le> En"
    proof cases
      case 1
      then show ?thesis using turn_last [OF Suc.prems(3) 1] part(2) by simp
    next
      case 2
      then show ?thesis using turn_next [OF Suc.prems(3) 2] part(2) by simp
    qed
    then show "?pos < En" "?pos mod 4096 + unat cnt \<le> 4096" "unat cnt \<le> En - ?pos" "?pos + unat cnt \<le> En" by linarith+
  qed
  have "?A div 4096 + i < 2 ^ 24"
    using turn_sector(1) [of ?A i] div_le_dividend [of ?pos 4096] fits(1) last by linarith
  then have us: "unat ?sector = ?pos div 4096"
    by (simp add: unat_word_ariths unat_div turn_sector unsigned_of_nat take_bit_eq_mod)
  then have pos: "unat ?sector * 4096 + unat off = ?pos" by (simp add: part(1))
  have room: "unat ?sector * 4096 + 4096 \<le> ext_capacity s"
    unfolding us using sector_room [OF r(5)] fits(1) Suc.prems(4) by simp
  obtain cache' s1 where w: "length cache' = 4096" "ex_becomes (mem_write ?pos (take (unat cnt) buf) ?m) s s1"
    "\<And>go. write_sector bus Exspi ?sector (unat off) (unat cnt) buf cache s go = go cache' s1"
    using write_sector_ok [OF Suc.prems(1,2) room, of "unat off" "unat cnt" buf] fits Suc.prems(7) pos part(1) by auto
  have step: "spifls_write_loop bus Exspi addr ?n i buf wb cache s
      = spifls_write_loop bus Exspi addr ?n (Suc i) (drop (unat cnt) buf) (wb - cnt) cache' s1"
    using Suc.prems(5) r oc w(3) by (subst spifls_write_loop.simps) simp
  show ?case
  proof (cases "Suc i = ?n")
    case True
    then show ?thesis using w(2) part(2) unfolding step by (subst spifls_write_loop.simps) simp
  next
    case False
    then have lt: "Suc i < ?n" using Suc.prems(5) by simp
    note nx = turn_next [OF Suc.prems(3) lt]
    have wb: "unat (wb - cnt) = En - turn_pos ?A (Suc i)"
      using fits(3) Suc.prems(6) False part(2) nx(1) by (subst unat_sub) (simp_all add: word_le_nat_alt)
    have r1: "ext_ready busy s1" "ext_capacity s1 = ext_capacity s" using ex_becomes_ready [OF w(2) Suc.prems(1)] by simp_all
    have nxp: "turn_pos ?A (Suc i) = ?pos + unat cnt" using False part(2) nx(1) by simp
    have hyps: "k = ?n - Suc i" "En \<le> ext_capacity s1" "En - turn_pos ?A (Suc i) \<le> length (drop (unat cnt) buf)"
      using Suc.hyps(2) Suc.prems(4,7) r1(2) nxp by simp_all
    let ?rest = "take (En - turn_pos ?A (Suc i)) (drop (unat cnt) buf)"
    obtain s2 where s2: "spifls_write_loop bus Exspi addr ?n (Suc i) (drop (unat cnt) buf) (wb - cnt) cache' s1 = Some (TLS_FLS_STATUS_OK, s2)"
      "ex_becomes (mem_write (turn_pos ?A (Suc i)) ?rest (mem (ex_dev s1))) s1 s2"
      using Suc.hyps(1) [OF hyps(1) r1(1) w(1) Suc.prems(3) hyps(2) lt wb hyps(3)] by blast
    have "take (unat cnt) buf @ ?rest = take (En - ?pos) buf" "length (take (unat cnt) buf) = unat cnt"
      using nxp fits(3) nx(2) Suc.prems(7) by (simp_all add: take_add [symmetric])
    then have "mem_write (turn_pos ?A (Suc i)) ?rest (mem (ex_dev s1)) = mem_write ?pos (take (En - ?pos) buf) ?m"
      using mem_write_append [of ?pos "take (unat cnt) buf" ?rest ?m] nxp by (simp add: ex_becomesD [OF w(2)])
    then show ?thesis using s2 ex_becomes_trans [OF w(2) s2(2)] unfolding step by simp
  qed
qed


lemma clip_bytes_inside:
  assumes "unat addr + n \<le> unat limit"
  shows "clip_bytes addr (word_of_nat n) limit = word_of_nat n" "unat (word_of_nat n :: u32) = n"
proof -
  have n: "n < 2 ^ 32" "unat addr + n < 2 ^ 32" using assms u32_unat_less [of limit] by linarith+
  then show u: "unat (word_of_nat n :: u32) = n" by (simp add: u32_unat_of_nat)
  then have "unat (addr + word_of_nat n) = unat addr + n" using n by (simp add: unat_word_ariths)
  then show "clip_bytes addr (word_of_nat n) limit = word_of_nat n"
    using assms by (simp add: clip_bytes_def word_less_nat_alt)
qed

lemma spifls_read_ok:
  assumes "ext_ready busy s" "0 < n" "n \<le> length buf" "unat addr + n \<le> ext_capacity s"
  shows "\<exists>s'. tls_spifls_read bus addr (Some buf) (word_of_nat n) s =
      Some (TLS_FLS_STATUS_OK, Some (bsplice 0 (mem_bytes (mem (ex_dev s)) (unat addr) n) buf), s') \<and> ex_becomes (mem (ex_dev s)) s s'"
proof -
  note r = ext_readyD [OF assms(1)] and c = clip_bytes_inside [OF assms(4) [unfolded ext_capacity_def]]
  have lim: "unat addr + n \<le> 2 ^ 24" using assms(4) r(4) by linarith
  obtain s1 where s1: "tls_spifls_drv_read bus addr buf (word_of_nat n) (ex_acquire s)
      = Some (TLS_FLS_STATUS_OK, bsplice 0 (mem_bytes (mem (ex_dev s)) (unat addr) n) buf, s1)"
    "ex_becomes (mem (ex_dev s)) (ex_acquire s) s1"
    using drv_read_ok [of "ex_acquire s" "word_of_nat n" buf addr] r(6) c(2) assms(2,3) lim by auto
  have "\<not> total_size (exspi_fls s) \<le> addr" "word_of_nat n \<noteq> (0 :: u32)"
    using assms(2,4) c(2) by (auto simp: word_le_nat_alt ext_capacity_def)
  then show ?thesis using s1(1) c(1) r(7) ex_becomes_lock [OF s1(2)] assms(1)
    by (simp add: tls_spifls_read_def with_driver_ready)
qed

end

locale ext_driver = ext_chip +
  fixes heap :: allocator
  assumes heap_total: "alloc_total heap"
begin

lemma spifls_write_ok:
  assumes "ext_ready busy s" "0 < n" "n \<le> length buf" "unat addr + n \<le> ext_capacity s"
  shows "\<exists>s'. tls_spifls_write bus heap addr (Some buf) (word_of_nat n) s = Some (TLS_FLS_STATUS_OK, s')
    \<and> ex_becomes (mem_write (unat addr) (take n buf) (mem (ex_dev s))) s s'"
proof -
  note r = ext_readyD [OF assms(1)] and c = clip_bytes_inside [OF assms(4) [unfolded ext_capacity_def]]
  have lim: "unat addr + n \<le> 2 ^ 24" using assms(4) r(4) by linarith
  let ?s1 = "ex_acquire s" and ?En = "unat addr + n"
  let ?s2 = "?s1\<lparr>ex_allocs := Suc (ex_allocs ?s1)\<rparr>"
  obtain cache where cache: "heap (ex_allocs ?s1) 4096 = Some cache" "length cache = 4096" using alloc_totalE [OF heap_total] .
  have num: "unat ((addr + word_of_nat n - 1) div 4096 - addr div 4096 + 1) = turns (unat addr) ?En"
  proof -
    have "unat (addr + word_of_nat n - 1) = ?En - 1"
      using assms(2) c(2) lim by (subst unat_sub) (simp_all add: unat_word_ariths word_le_nat_alt)
    moreover have "unat addr div 4096 \<le> (?En - 1) div 4096" "(?En - 1) div 4096 < 2 ^ 24"
      using assms(2) lim by (auto intro: div_le_mono simp: less_mult_imp_div_less)
    ultimately have "unat ((addr + word_of_nat n - 1) div 4096 - addr div 4096) = (?En - 1) div 4096 - unat addr div 4096"
      by (subst unat_sub) (simp_all add: word_le_nat_alt unat_div)
    moreover have "Suc ((?En - 1) div 4096 - unat addr div 4096) < 2 ^ 32" using \<open>(?En - 1) div 4096 < 2 ^ 24\<close> by simp
    ultimately show ?thesis by (simp add: turns_def unat_word_ariths)
  qed
  have r2: "ext_ready busy ?s2" "ext_capacity ?s2 = ext_capacity s" "mem (ex_dev ?s2) = mem (ex_dev s)"
    using assms(1) by (auto simp: ext_ready_def ext_capacity_def ex_lock_def)
  obtain s3 where s3: "spifls_write_loop bus Exspi addr (turns (unat addr) ?En) 0 buf (word_of_nat n) cache ?s2 = Some (TLS_FLS_STATUS_OK, s3)"
    "ex_becomes (mem_write (unat addr) (take n buf) (mem (ex_dev s))) ?s2 s3"
    using write_loop_ok [OF r2(1) cache(2), of addr ?En 0 "word_of_nat n" buf] assms r2 c(2)
    by (auto simp: turn_pos_def turns_def)
  have "ex_becomes (mem_write (unat addr) (take n buf) (mem (ex_dev s))) s (ex_release s3)"
    using s3(2) by (intro ex_becomes_lock) (simp add: ex_becomes_def)
  moreover have "\<not> total_size (exspi_fls s) \<le> addr" "word_of_nat n \<noteq> (0 :: u32)"
    using assms(2,4) c(2) by (auto simp: word_le_nat_alt ext_capacity_def)
  ultimately show ?thesis using s3(1) c(1) r(3,7) cache(1) num assms(1)
    by (simp add: tls_spifls_write_def with_driver_ready Let_def drv_def)
qed


lemma spifls_write_out_of_range:
  "ext_ready busy s \<Longrightarrow> ext_capacity s \<le> unat addr \<Longrightarrow> tls_spifls_write bus heap addr buf len s = Some (TLS_FLS_STATUS_EINVAL, s)"
  by (simp add: tls_spifls_write_def with_driver_ready ext_readyD ext_capacity_def word_le_nat_alt)

end

sublocale ext_driver \<subseteq> block_store "\<lambda>a b n. tls_spifls_read bus a b (word_of_nat n)" "\<lambda>a b n. tls_spifls_write bus heap a b (word_of_nat n)"
  "\<lambda>s. mem (ex_dev s)" ext_capacity "ext_ready busy" "\<lambda>a. Some (unat a)" "0"
proof unfold_locales
  fix s n a and addr :: u32 and buf :: bytes
  assume "ext_ready busy s" "0 < n" "n \<le> length buf" "Some (unat addr) = Some a" "a + n \<le> ext_capacity s"
  then show "\<exists>s'. tls_spifls_read bus addr (Some buf) (word_of_nat n) s =
      Some (TLS_FLS_STATUS_OK, Some (bsplice 0 (mem_bytes (mem (ex_dev s)) a n) buf), s')
    \<and> ext_ready busy s' \<and> mem (ex_dev s') = mem (ex_dev s) \<and> ext_capacity s' = ext_capacity s"
    using spifls_read_ok ex_becomes_ready ex_becomesD by blast
next
  fix s n a and addr :: u32 and buf :: bytes
  assume "ext_ready busy s" "0 < n" "n \<le> length buf" "Some (unat addr) = Some a" "0 \<le> a" "a + n \<le> ext_capacity s"
  then show "\<exists>s'. tls_spifls_write bus heap addr (Some buf) (word_of_nat n) s = Some (TLS_FLS_STATUS_OK, s')
    \<and> ext_ready busy s' \<and> mem (ex_dev s') = mem_write a (take n buf) (mem (ex_dev s)) \<and> ext_capacity s' = ext_capacity s"
    using spifls_write_ok ex_becomes_ready ex_becomesD by blast
next
  fix s n a and addr :: u32 and buf :: "bytes option"
  assume "ext_ready busy s" "Some (unat addr) = Some a" "ext_capacity s \<le> a"
  then show "\<exists>s'. tls_spifls_write bus heap addr buf (word_of_nat n) s = Some (TLS_FLS_STATUS_EINVAL, s')
    \<and> ext_ready busy s' \<and> mem (ex_dev s') = mem (ex_dev s) \<and> ext_capacity s' = ext_capacity s"
    using spifls_write_out_of_range by auto
qed

section \<open>A chip that obeys the contract\<close>

record exnor =
  en_mem :: "nat \<Rightarrow> u8"
  en_wel :: bool
  en_busy :: nat
  en_ident :: bytes

definition cmd_addr :: "bytes \<Rightarrow> nat" where
  "cmd_addr cmd = unat (cmd ! 1) * 2 ^ 16 + unat (cmd ! 2) * 2 ^ 8 + unat (cmd ! 3)"

lemma cmd_addr_chip: "a < 2 ^ 24 \<Longrightarrow> cmd_addr (chip_cmd op a) = a"
proof -
  assume "a < 2 ^ 24"
  then have hi: "a div 256 div 256 < 256" by (simp add: less_mult_imp_div_less)
  have "a div 2 ^ 16 = a div 256 div 256" by (simp add: div_mult2_eq [symmetric])
  then have "cmd_addr (chip_cmd op a) = a div 256 div 256 * 65536 + a div 256 mod 256 * 256 + a mod 256"
    using hi by (simp add: cmd_addr_def chip_cmd_def unsigned_of_nat take_bit_eq_mod)
  also have "\<dots> = (a div 256 div 256 * 256 + a div 256 mod 256) * 256 + a mod 256"
    unfolding add_mult_distrib mult.assoc by simp
  also have "\<dots> = a" by (simp only: div_mult_mod_eq)
  finally show ?thesis .
qed

lemma chip_cmd_shape [simp]: "length (chip_cmd op a) = 4" "hd (chip_cmd op a) = op" "chip_cmd op a \<noteq> [x]"
  by (simp_all add: chip_cmd_def)

definition exnor_bus :: "exnor bus" where
  "exnor_bus = \<lparr>
     bus_write = (\<lambda>cmd d.
       if cmd = [0x06] then (0, d\<lparr>en_wel := True\<rparr>)
       else if cmd = [0xc7] \<and> en_wel d then (0, d\<lparr>en_mem := (\<lambda>_. 0xFF), en_wel := False, en_busy := 9\<rparr>)
       else if length cmd = 4 \<and> hd cmd = 0x20 \<and> en_wel d
       then (0, d\<lparr>en_mem := mem_erase (cmd_addr cmd) (en_mem d), en_wel := False, en_busy := 5\<rparr>)
       else (0, d)),
     bus_read_with_cmd = (\<lambda>cmd n d.
       if cmd = [0x05] then (0, [(if en_busy d \<noteq> 0 then 1 else 0) OR (if en_wel d then 2 else 0)], d\<lparr>en_busy := en_busy d - 1\<rparr>)
       else if hd cmd = 0x9F then (0, take 3 (en_ident d @ [0, 0, 0]), d)
       else (0, mem_bytes (en_mem d) (cmd_addr cmd) n, d)),
     bus_write_with_cmd = (\<lambda>cmd data d.
       if en_wel d then (0, d\<lparr>en_mem := mem_program (cmd_addr cmd) data (en_mem d), en_wel := False, en_busy := 2\<rparr>) else (0, d)),
     bus_setup = (\<lambda>mode cs clk d. d), bus_delay = (\<lambda>k d. d\<lparr>en_busy := en_busy d - k\<rparr>)\<rparr>"

lemma status_bits: "bit ((if b then 1 else 0) OR (if c then 2 else 0) :: u8) 0 \<longleftrightarrow> b"
  "bit ((if b then 1 else 0) OR (if c then 2 else 0) :: u8) 1 \<longleftrightarrow> c"
  by (simp_all add: bit_simps)

interpretation exnor: ext_driver exnor_bus en_mem en_wel en_busy "\<lambda>d. take 3 (en_ident d @ [0, 0, 0])" zero_heap
proof unfold_locales
  fix d d' e r
  assume "bus_read_with_cmd exnor_bus [0x05] 1 d = (e, r, d')"
  then show "e = 0 \<and> (\<exists>sr. r = [sr] \<and> (bit sr 0 \<longleftrightarrow> en_busy d \<noteq> 0) \<and> (bit sr 1 \<longleftrightarrow> en_wel d)) \<and> en_busy d' \<le> en_busy d - 1
      \<and> (en_busy d = 0 \<longrightarrow> en_wel d' = en_wel d) \<and> en_mem d' = en_mem d
      \<and> take 3 (en_ident d' @ [0, 0, 0]) = take 3 (en_ident d @ [0, 0, 0])"
    by (auto simp: exnor_bus_def bit_simps)
next
  show "alloc_total zero_heap" by simp
qed (auto simp: exnor_bus_def cmd_addr_chip)

section \<open>The lock\<close>

text \<open>Whatever the bus does: the operations of the chip driver leave the flash layer alone, and a turn of the write loop
  either goes on or fails and gives the lock back.\<close>

lemma drv_read_layer: "tls_spifls_drv_read bus addr buf len s = Some (err, b, s') \<Longrightarrow> spi_fls s' = spi_fls s"
  by (auto simp: tls_spifls_drv_read_def split: if_splits prod.splits)

lemma on_dev_layer: "on_dev f s = Some (err, s') \<Longrightarrow> spi_fls s' = spi_fls s"
  by (auto simp: on_dev_def)

lemma drv_erase_layer: "tls_spifls_drv_erase bus sector s = Some (err, s') \<Longrightarrow> spi_fls s' = spi_fls s"
  by (auto simp: tls_spifls_drv_erase_def dest: on_dev_layer split: if_splits)

lemma write_pages_layer: "write_pages bus page k sz buf s = Some (err, s') \<Longrightarrow> spi_fls s' = spi_fls s"
  by (induction k arbitrary: page buf s)
    (auto simp: tls_spifls_drv_page_write_def Let_def dest!: on_dev_layer split: option.splits if_splits)

lemma page_write_layer: "tls_spifls_page_write bus page buf k s = Some (err, s') \<Longrightarrow> spi_fls s' = spi_fls s"
  by (auto simp: tls_spifls_page_write_def with_driver_def Let_def dest: write_pages_layer split: option.splits if_splits)

lemma failedD:
  assumes "failed r go = Some (err, s')" "\<And>e s1. r = Some (e, s1) \<Longrightarrow> spi_fls s1 = spi_fls s"
  obtains "err \<noteq> TLS_FLS_STATUS_OK" "spi_fls s' = spi_fls (ex_release s)"
  | s1 where "go s1 = Some (err, s')" "spi_fls s1 = spi_fls s"
  using assms by (auto simp: failed_def ex_lock_def split: option.splits prod.splits if_splits)

lemma write_sector_layer:
  assumes "write_sector bus p sector off cnt buf cache s go = Some (err, s')"
  obtains "err \<noteq> TLS_FLS_STATUS_OK" "spi_fls s' = spi_fls (ex_release s)"
  | cache1 s1 where "go cache1 s1 = Some (err, s')" "spi_fls s1 = spi_fls s"
proof -
  define sz where "sz = sector_size (drv p s)"
  define pages where "pages = sz div page_size (drv p s)"
  from assms obtain e c1 s1 where rd: "tls_spifls_drv_read bus (sector * sz) cache sz s = Some (e, c1, s1)"
    by (auto simp: write_sector_def sz_def Let_def split: option.splits)
  note l1 = drv_read_layer [OF rd]
  show ?thesis
  proof (cases "e = TLS_FLS_STATUS_OK")
    case False
    then show ?thesis using assms rd l1 that(1) by (auto simp: write_sector_def sz_def Let_def ex_lock_def)
  next
    case True
    define c where "c = bsplice off (take cnt buf) c1"
    have f: "failed (tls_spifls_drv_erase bus sector s1)
        (\<lambda>s. failed (tls_spifls_page_write bus (sector * pages) (Some c) pages s) (go c)) = Some (err, s')"
      using assms rd True by (auto simp: write_sector_def sz_def pages_def c_def Let_def split: if_splits)
    show ?thesis
    proof (rule failedD [OF f, of s])
      fix s2 assume s2: "failed (tls_spifls_page_write bus (sector * pages) (Some c) pages s2) (go c) = Some (err, s')" "spi_fls s2 = spi_fls s"
      show thesis by (rule failedD [OF s2(1), of s]) (use that s2(2) in \<open>auto dest: page_write_layer\<close>)
    qed (use that(1) l1 in \<open>auto dest: drv_erase_layer\<close>)
  qed
qed

lemma write_loop_layer:
  assumes "spifls_write_loop bus p addr n i buf wb cache s = Some (err, s')"
  shows "spi_fls s' = spi_fls (if err = TLS_FLS_STATUS_OK then s else ex_release s)"
  using assms
proof (induction "n - i" arbitrary: i buf wb cache s)
  case 0
  then show ?case by (subst (asm) spifls_write_loop.simps) auto
next
  case (Suc k)
  then have "i < n" by simp
  define sz where "sz = sector_size (drv p s)"
  obtain off cnt where part: "sector_part addr sz n i wb = (off, cnt)" by fastforce
  from Suc.prems \<open>i < n\<close> have
    "write_sector bus p (addr div sz + word_of_nat i) (unat off) (unat cnt) buf cache s
      (\<lambda>cache s. spifls_write_loop bus p addr n (Suc i) (drop (unat cnt) buf) (wb - cnt) cache s) = Some (err, s')"
    by (simp add: spifls_write_loop.simps [of bus p addr n i] Let_def part [unfolded sz_def] sz_def)
  then show ?case
    by (rule write_sector_layer) (use Suc.hyps in \<open>auto simp: ex_lock_def dest!: Suc.hyps(1) [rotated]\<close>)
qed

section \<open>Properties\<close>

text \<open>C26. The external flash driver stores what it is given: a write of a non-empty range inside the chip succeeds, over sector
  ends too, replaces exactly this range, and a read of the range then returns the data; the lock is given back.\<close>

theorem ext_flash_stores_range:
  assumes "ext_driver bus mem wel busy ident heap" "ext_ready busy s" "data \<noteq> []" "unat addr + length data \<le> ext_capacity s"
    and "length buf = length data"
  shows "\<exists>s1 s2. tls_spifls_write bus heap addr (Some data) (word_of_nat (length data)) s = Some (TLS_FLS_STATUS_OK, s1)
    \<and> mem (ex_dev s1) = mem_write (unat addr) data (mem (ex_dev s))
    \<and> tls_spifls_read bus addr (Some buf) (word_of_nat (length data)) s1 = Some (TLS_FLS_STATUS_OK, Some data, s2)
    \<and> mem (ex_dev s2) = mem (ex_dev s1) \<and> spi_fls s2 = spi_fls s"
proof -
  note chip = ext_driver.axioms(1) [OF assms(1)]
  obtain s1 where s1: "tls_spifls_write bus heap addr (Some data) (word_of_nat (length data)) s = Some (TLS_FLS_STATUS_OK, s1)"
    "ext_chip.ex_becomes mem busy ident (mem_write (unat addr) data (mem (ex_dev s))) s s1"
    using ext_driver.spifls_write_ok [OF assms(1,2), of "length data" data addr] assms(3,4) by auto
  note r1 = ext_chip.ex_becomes_ready [OF chip s1(2) assms(2)] and b1 = s1(2) [unfolded ext_chip.ex_becomes_def [OF chip]]
  obtain s2 where "tls_spifls_read bus addr (Some buf) (word_of_nat (length data)) s1 = Some (TLS_FLS_STATUS_OK, Some data, s2)"
    "ext_chip.ex_becomes mem busy ident (mem (ex_dev s1)) s1 s2"
    using ext_chip.spifls_read_ok [OF chip, of s1 "length data" buf addr] r1 b1 assms(3,4,5) by (auto simp: bsplice_full)
  then show ?thesis using s1(1) b1 ext_chip.ex_becomes_def [OF chip] by auto
qed

definition ex_boot :: "bytes \<Rightarrow> exnor exfls" where
  "ex_boot i = \<lparr>ex_dev = \<lparr>en_mem = (\<lambda>_. 0), en_wel = False, en_busy = 0, en_ident = i\<rparr>, spi_fls = None,
     exspi_fls = \<lparr>drv_id = 0, total_size = 0, page_size = 0, program_size = 0, sector_size = 0, drv_clock = 10000000,
       drv_mode = 0, drv_cs_active = 0, drv_flags = 0\<rparr>, exspifls_drv = False, ex_allocs = 0\<rparr>"

definition ex_installed :: "exnor exfls" where
  "ex_installed = (ex_boot [0xC8, 0x40, 0x14])\<lparr>spi_fls := Some \<lparr>fls_drvs = [Exspi], current_drv = Some Exspi, fls_lock = 1\<rparr>,
     exspi_fls := \<lparr>drv_id = 0x1440C8, total_size = 0x100000, page_size = 256, program_size = 256, sector_size = 4096,
       drv_clock = 10000000, drv_mode = 0, drv_cs_active = 0, drv_flags = 0\<rparr>, exspifls_drv := True\<rparr>"

lemma ex_installed_ready: "ext_ready en_busy ex_installed" "ext_capacity ex_installed = 2 ^ 20"
  by (simp_all add: ext_ready_def ext_capacity_def ex_installed_def ex_boot_def)

theorem ext_flash_stores_range_witness:
  "\<exists>s1 s2. tls_spifls_write exnor_bus zero_heap 0xFFE (Some [1, 2, 3, 4]) 4 ex_installed = Some (TLS_FLS_STATUS_OK, s1)
    \<and> tls_spifls_read exnor_bus 0xFFE (Some [0, 0, 0, 0]) 4 s1 = Some (TLS_FLS_STATUS_OK, Some [1, 2, 3, 4], s2)"
  using ext_flash_stores_range [OF exnor.ext_driver_axioms ex_installed_ready(1), of "[1, 2, 3, 4]" "0xFFE" "[0, 0, 0, 0]"]
  by (auto simp: ex_installed_ready)

text \<open>A write that fails on the bus gives the lock back twice, so that afterwards two callers can be inside the driver at
  once; a write that succeeds leaves the lock as it was. This holds for every bus.\<close>

theorem ext_flash_failure_unbalances_lock:
  assumes "tls_spifls_write bus heap addr buf len s = Some (err, s')" "spi_fls s = Some f"
  shows "(err = TLS_FLS_STATUS_EIO \<longrightarrow> spi_fls s' = Some (f\<lparr>fls_lock := fls_lock f + 1\<rparr>)) \<and> (err = TLS_FLS_STATUS_OK \<longrightarrow> spi_fls s' = Some f)"
proof (rule ccontr)
  assume no: "\<not> ?thesis"
  from assms no obtain p n i wb cache s1 b where
    "map_option (\<lambda>(err, s). (err, ex_release s)) (spifls_write_loop bus p addr n i b wb cache s1) = Some (err, s')"
    "spi_fls s1 = spi_fls (ex_acquire s)"
    by (auto simp: tls_spifls_write_def with_driver_def Let_def ext_status_defs split: option.splits if_splits)
  then obtain s2 where l: "spifls_write_loop bus p addr n i b wb cache s1 = Some (err, s2)" "s' = ex_release s2"
    "spi_fls s1 = spi_fls (ex_acquire s)" by auto
  with write_loop_layer [OF l(1)] no assms(2) show False by (auto simp: ex_lock_def ext_status_defs split: if_splits)
qed

theorem ext_flash_failure_unbalances_lock_witness:
  "\<exists>s'. tls_spifls_write (exnor_bus\<lparr>bus_read_with_cmd := \<lambda>cmd n d. (-1, [], d)\<rparr>) zero_heap 0 (Some [1]) 1 ex_installed
      = Some (TLS_FLS_STATUS_EIO, s')
    \<and> spi_fls s' = Some \<lparr>fls_drvs = [Exspi], current_drv = Some Exspi, fls_lock = 2\<rparr>"
proof -
  let ?bus = "exnor_bus\<lparr>bus_read_with_cmd := \<lambda>cmd n d. (-1, [], d)\<rparr>"
  have rd: "tls_spifls_drv_read ?bus a b n s = (if unat n > length b then None else Some (TLS_FLS_STATUS_EIO, b, s))" for a b n s
    by (simp add: tls_spifls_drv_read_def io_status_def bsplice_def)
  obtain s' where w: "tls_spifls_write ?bus zero_heap 0 (Some [1]) 1 ex_installed = Some (TLS_FLS_STATUS_EIO, s')"
    by (auto simp: tls_spifls_write_def with_driver_def ex_installed_def ex_boot_def drv_def clip_bytes_def zero_heap_def Let_def
        ex_lock_def spifls_write_loop.simps [of _ _ _ _ 0] sector_part_def write_sector_def rd ext_status_defs)
  then show ?thesis
    using ext_flash_failure_unbalances_lock [OF w, of "\<lparr>fls_drvs = [Exspi], current_drv = Some Exspi, fls_lock = 1\<rparr>"]
    by (simp add: ex_installed_def)
qed

lemma le32_ident: "le32 0x9F = [0x9F, 0, 0, 0]"
  by code_simp

lemma ident_word: "bsplice 0 [m, t, density] (le32 0) = [m, t, density, 0]"
  by (simp add: bsplice_def le32_def)

lemma ident_bits: "drop_bit 16 (de32 [m, t, density, 0]) = ucast density" "de32 [m, t, density, 0] = 0 \<longleftrightarrow> m = 0 \<and> t = 0 \<and> density = 0"
proof -
  show drop: "drop_bit 16 (de32 [m, t, density, 0]) = ucast density" for m t density
    by (rule bit_word_eqI) (auto simp: de32_def bit_simps u8_bit_beyond dest: bit_imp_le_length)
  have "m = 0 \<and> t = 0 \<and> density = 0" if "de32 [m, t, density, 0] = 0"
    using le32_de32 [of "[m, t, density, 0]"] that by (simp add: le32_def)
  then show "de32 [m, t, density, 0] = 0 \<longleftrightarrow> m = 0 \<and> t = 0 \<and> density = 0" by (auto simp: de32_def)
qed

lemma density_word:
  fixes density :: u8
  shows "unat (ucast density :: u32) = unat density" "(ucast density :: u32) AND 0xFF = ucast density" "(ucast density :: u32) = 0 \<longleftrightarrow> density = 0"
proof -
  have m: "(ucast x :: u32) AND 0xFF = ucast x" for x :: u8
  proof -
    have "(ucast x :: u32) AND mask 8 = ucast x"
      by (rule bit_word_eqI) (auto simp: bit_simps dest: bit_imp_le_length)
    then show ?thesis by (simp add: mask_eq_exp_minus_1)
  qed
  show u: "unat (ucast density :: u32) = unat density"
    using unsigned_less [of density, where ?'a = nat] by (simp add: unsigned_ucast_eq take_bit_nat_eq_self)
  show "(ucast density :: u32) AND 0xFF = ucast density" by (rule m)
  show "(ucast density :: u32) = 0 \<longleftrightarrow> density = 0" using u by (metis unsigned_0 unsigned_word_eqI)
qed

lemma density_size:
  assumes "12 \<le> k" "k \<le> 24"
  shows "unat (2 ^ k :: u32) = 2 ^ k" "(2 :: nat) ^ k \<le> 2 ^ 24" "4096 dvd (2 :: nat) ^ k"
proof -
  show "unat (2 ^ k :: u32) = 2 ^ k"
  proof -
    have "unat (word_of_nat (2 ^ k) :: u32) = 2 ^ k"
      using assms by (simp only: unsigned_of_nat) (simp add: take_bit_nat_eq_self)
    then show ?thesis by simp
  qed
  show "(2 :: nat) ^ k \<le> 2 ^ 24" by (rule power_increasing) (use assms in auto)
  show "4096 dvd (2 :: nat) ^ k" using assms le_imp_power_dvd [of 12 k "2 :: nat"] by simp
qed

text \<open>Installation depends on the identification of the chip: for a density of 4 KB to 16 MB it ends with a driver that is ready
  for a chip of this size; an identification of zeros leaves the module without a driver, although success is reported, and
  every write is refused; a density byte of 31 or more, such as the bytes 0xFF an absent chip reads as, makes \<^verbatim>\<open>probe\<close> shift
  by more than an \<^verbatim>\<open>int\<close> has bits.\<close>

theorem spifls_init_by_ident:
  assumes "ext_chip bus mem wel busy ident" "spi_fls s = None" "heap (ex_allocs s) 16 \<noteq> None" "busy (ex_dev s) = 0"
    and "ident (ex_dev s) = [m, t, density]"
  shows "(12 \<le> density \<and> density \<le> 24 \<longrightarrow> (\<exists>s'. tls_spifls_init bus heap True s = Some (TLS_FLS_STATUS_OK, s')
      \<and> ext_ready busy s' \<and> ext_capacity s' = 2 ^ unat density))
    \<and> (m = 0 \<and> t = 0 \<and> density = 0 \<longrightarrow> (\<exists>s'. tls_spifls_init bus heap True s = Some (TLS_FLS_STATUS_OK, s')
      \<and> tls_spifls_write bus heap addr buf len s' = Some (TLS_FLS_STATUS_ENODRV, s')))
    \<and> (31 \<le> density \<longrightarrow> tls_spifls_init bus heap True s = None)"
proof -
  obtain e r d where rd: "bus_read_with_cmd bus [0x9F, 0, 0, 0] 3 (ex_dev s) = (e, r, d)" by (metis prod_cases3)
  note i = ext_chip.read_ident [OF assms(1,4) rd]
  define w where "w = de32 [m, t, density, 0]"
  have rid: "tls_spifls_read_id bus (s\<lparr>ex_allocs := k, spi_fls := f\<rparr>) = (TLS_FLS_STATUS_OK, w, s\<lparr>ex_allocs := k, spi_fls := f, ex_dev := d\<rparr>)" for k f
    using i rd by (simp add: tls_spifls_read_id_def le32_ident io_status_def assms(5) w_def ident_word)
  note w = ident_bits [of m t density, folded w_def]
  note init = tls_spifls_init_def tls_spifls_drv_install_def tls_spifls_drv_register_def tls_spifls_probe_def drv_def rid Let_def assms(2)
  show ?thesis
  proof (intro conjI impI)
    assume d: "12 \<le> density \<and> density \<le> 24"
    show "\<exists>s'. tls_spifls_init bus heap True s = Some (TLS_FLS_STATUS_OK, s') \<and> ext_ready busy s' \<and> ext_capacity s' = 2 ^ unat density"
    proof -
      have u: "12 \<le> unat density" "unat density \<le> 24" using d by (auto simp: word_le_nat_alt)
      have "density \<noteq> 0" using d by auto
      then show ?thesis using assms(3) w u i ext_chip.configure [OF assms(1)] density_size [OF u]
        by (auto simp: init tls_spifls_drv_probe_def ext_ready_def ext_capacity_def ext_status_defs density_word)
    qed
  next
    assume z: "m = 0 \<and> t = 0 \<and> density = 0"
    show "\<exists>s'. tls_spifls_init bus heap True s = Some (TLS_FLS_STATUS_OK, s')
        \<and> tls_spifls_write bus heap addr buf len s' = Some (TLS_FLS_STATUS_ENODRV, s')"
      using assms(3) w(2) z by (auto simp: init tls_spifls_drv_probe_def tls_spifls_write_def with_driver_def ext_status_defs)
  next
    assume "31 \<le> density"
    then show "tls_spifls_init bus heap True s = None"
      using assms(3) w by (auto simp: init tls_spifls_drv_probe_def ext_status_defs density_word word_le_nat_alt)
  qed
qed

theorem spifls_init_by_ident_witness:
  "(\<exists>s'. tls_spifls_init exnor_bus zero_heap True (ex_boot [0xC8, 0x40, 0x14]) = Some (TLS_FLS_STATUS_OK, s')
      \<and> ext_ready en_busy s' \<and> ext_capacity s' = 2 ^ 20)
    \<and> tls_spifls_init exnor_bus zero_heap True (ex_boot [0xFF, 0xFF, 0xFF]) = None"
  using spifls_init_by_ident [OF exnor.ext_chip_axioms, of "ex_boot [0xC8, 0x40, 0x14]" zero_heap]
    spifls_init_by_ident [OF exnor.ext_chip_axioms, of "ex_boot [0xFF, 0xFF, 0xFF]" zero_heap]
  by (simp add: ex_boot_def zero_heap_def)

end
