(* ===== verification/Flash_Secure.thy ===== *)
theory Flash_Secure
  imports Flash_Correct
begin

text \<open>
  Write protection and security registers of the internal flash. The locale \<open>sec_chip\<close> adds to \<open>nor_area\<close> what data
  sheets say of the status registers (block-protect bits 0 leave the whole chip writable, the bits of
  \<^verbatim>\<open>flashlock\<close> protect the first two sectors) and of the security registers, which have commands of their
  own. Shown are the effects of \<^verbatim>\<open>tls_flash_unlock\<close>, \<^verbatim>\<open>tls_flash_lock\<close> and of \<^verbatim>\<open>flashSRRW\<close>, for the two
  manufacturers 0xC8 and 0x85 whose security registers are apart from the main array.
\<close>

text \<open>The manufacturers with separate security registers, and where these registers start.\<close>

definition gd_maker :: "('d \<Rightarrow> u32) \<Rightarrow> 'd fls \<Rightarrow> bool" where
  "gd_maker ident s \<longleftrightarrow> (ucast (ident (chip s)) :: u8) \<in> {0xC8, 0x85}"

definition sr_start :: "('d \<Rightarrow> u32) \<Rightarrow> 'd fls \<Rightarrow> nat" where
  "sr_start ident s = (if (ucast (ident (chip s)) :: u8) = 0xC8 then 0 else 0x1000)"

section \<open>The contract\<close>

locale sec_chip = nor_area spi mem wel ident "\<lambda>d. (prot d, sec d)" "\<lambda>(p, _). if p then 0x2000 else 0"
  for spi :: "'d spi" and mem :: "'d \<Rightarrow> nat \<Rightarrow> u8" and wel :: "'d \<Rightarrow> bool" and ident :: "'d \<Rightarrow> u32"
    and prot :: "'d \<Rightarrow> bool" and sec :: "'d \<Rightarrow> nat \<Rightarrow> u8" +
  assumes status_read: "cmd = 0x0C005 \<or> cmd = 0x0C035 \<Longrightarrow> spi cmd 0x10000000 w d = (w', d') \<Longrightarrow>
      mem d' = mem d \<and> prot d' = prot d \<and> sec d' = sec d"
    and status_write: "wel d \<Longrightarrow> 4 \<le> length w \<Longrightarrow> spi 0x1A001 0x10000000 w d = (w', d') \<Longrightarrow>
      mem d' = mem d \<and> sec d' = sec d \<and> (de32 (take 4 w) AND 0x407C = 0 \<longrightarrow> \<not> prot d') \<and> (de32 (take 4 w) AND 0x407C = 0x68 \<longrightarrow> prot d')"
    and sec_read: "n = 256 \<or> n = 512 \<Longrightarrow> n \<le> length w \<Longrightarrow>
      spi (0xBC00C048 OR push_bit 16 (word_of_nat n - 1)) (spi_addr a) w d = (w', d') \<Longrightarrow>
      take n w' = mem_bytes (sec d) (unat (a AND 0xFFFFF)) n \<and> mem d' = mem d \<and> prot d' = prot d \<and> sec d' = sec d"
    and sec_erase: "wel d \<Longrightarrow> spi 0x80000844 (spi_addr a) w d = (w', d') \<Longrightarrow>
      sec d' = mem_write (unat (a AND 0xFFFFF)) (replicate (sr_sectorsize (sr_select (ucast (ident d)))) 0xFF) (sec d)
      \<and> mem d' = mem d \<and> prot d' = prot d"
    and sec_program: "wel d \<Longrightarrow> 256 \<le> length w \<Longrightarrow> spi (0x80009042 OR push_bit 16 (256 - 1)) (spi_addr a) w d = (w', d') \<Longrightarrow>
      sec d' = mem_program (unat (a AND 0xFFFFF)) (take 256 w) (sec d) \<and> mem d' = mem d \<and> prot d' = prot d"
begin

text \<open>A run that leaves the main array and the driver's variables alone.\<close>

definition sec_becomes :: "bool \<Rightarrow> (nat \<Rightarrow> u8) \<Rightarrow> 'd fls \<Rightarrow> 'd fls \<Rightarrow> bool" where
  "sec_becomes p x s t \<longleftrightarrow> drv_eq s t \<and> mem (chip t) = mem (chip s) \<and> ident (chip t) = ident (chip s) \<and> prot (chip t) = p \<and> sec (chip t) = x"

lemma sec_becomes_trans: "sec_becomes p x s t \<Longrightarrow> sec_becomes p' x' t u \<Longrightarrow> sec_becomes p' x' s u"
  by (auto simp: sec_becomes_def dest: drv_eq_trans)

lemma sec_becomesD:
  assumes "sec_becomes p x s t"
  shows "length (win t) = length (win s)" "mem (chip t) = mem (chip s)" "ident (chip t) = ident (chip s)" "prot (chip t) = p" "sec (chip t) = x"
    "drv_eq s t"
  using assms by (auto simp: sec_becomes_def drv_eq_def)

lemma becomes_sec: "becomes (mem (chip s)) s t \<longleftrightarrow> sec_becomes (prot (chip s)) (sec (chip s)) s t"
  by (auto simp: becomes_def sec_becomes_def)

lemma spi_run_sec:
  assumes "spi cmd addr (win s) (chip s) = (w', d')" "mem d' = mem (chip s)"
  shows "sec_becomes (prot d') (sec d') s (spi_run spi cmd addr s)" "win (spi_run spi cmd addr s) = w'" "chip (spi_run spi cmd addr s) = d'"
  using assms window_length [of cmd addr "win s" "chip s"] ident_const [of cmd addr "win s" "chip s"]
  by (auto simp: spi_run_def sec_becomes_def drv_eq_def)

lemma readRID_ok:
  assumes "length (win s) = 1024" "readRID spi s = (rid, s')"
  shows "rid = ucast (ident (chip s)) \<and> sec_becomes (prot (chip s)) (sec (chip s)) s s'"
proof -
  obtain w d where wd: "spi 0x2c09F 0x10000000 (win s) (chip s) = (w, d)" by fastforce
  have r: "de32 (take 4 w) AND 0xFFFFFF = ident (chip s)" "mem d = mem (chip s)" "prot d = prot (chip s)" "sec d = sec (chip s)"
    using read_ident [OF _ wd] assms(1) by auto
  have b: "(ucast ((v :: u32) AND 0xFF) :: u8) = ucast (v AND 0xFFFFFF)" for v
  proof -
    have "(0xFF :: u32) = mask 8" "(0xFFFFFF :: u32) = mask 24" by (simp_all add: mask_eq_exp_minus_1)
    then show ?thesis unfolding \<open>0xFF = mask 8\<close> \<open>0xFFFFFF = mask 24\<close> by - (rule bit_word_eqI, auto simp: bit_ucast_iff bit_and_iff bit_mask_iff)
  qed
  show ?thesis using assms(2) r spi_run_sec [OF wd r(2)] b [of "de32 (take 4 w)"]
    by (auto simp: readRID_def Let_def win_word_def)
qed

section \<open>Write protection\<close>

lemma status_word:
  "(((x :: u32) AND 0xBF83) OR bp_bits 0 0 0 0 0 OR push_bit 14 0) AND 0x407C = 0"
  "(((x :: u32) AND 0xBF83) OR bp_bits 1 1 0 1 0 OR push_bit 14 0) AND 0x407C = 0x68"
  by (rule u32_eqI, simp add: upt_32 bit_simps bp_bits_def)+

lemma writeGDBpBit_ok:
  assumes len: "length (win s) = 1024" and v: "\<And>x. ((x AND 0xBF83) OR bp_bits b4 b3 b2 b1 b0 OR push_bit 14 0) AND 0x407C = v" "v = 0 \<or> v = 0x68"
  shows "sec_becomes (v \<noteq> 0) (sec (chip s)) s (writeGDBpBit spi 0 b4 b3 b2 b1 b0 s)"
proof -
  obtain w1 d1 where r1: "spi 0x0C005 0x10000000 (win s) (chip s) = (w1, d1)" by fastforce
  define s1 where "s1 = spi_run spi 0x0C005 0x10000000 s"
  have s1: "sec_becomes (prot (chip s)) (sec (chip s)) s s1"
    using status_read [OF _ r1] spi_run_sec [OF r1] by (simp add: s1_def)
  obtain w2 d2 where r2: "spi 0x0C035 0x10000000 (win s1) (chip s1) = (w2, d2)" by fastforce
  define s2 where "s2 = spi_run spi 0x0C035 0x10000000 s1"
  have s2: "sec_becomes (prot (chip s1)) (sec (chip s1)) s1 s2"
    using status_read [OF _ r2] spi_run_sec [OF r2] by (simp add: s2_def)
  define s3 where "s3 = writeEnable spi s2"
  have s3: "sec_becomes (prot (chip s2)) (sec (chip s2)) s2 s3" "wel (chip s3)"
    using writeEnable_ok [of s2] by (auto simp: s3_def becomes_sec)
  define x where "x = ((win_word s1 AND 0xFF OR push_bit 8 (win_word s2 AND 0xFF)) AND 0xBF83) OR bp_bits b4 b3 b2 b1 b0 OR push_bit 14 0"
  define s4 where "s4 = win_put (le32 x) s3"
  have s13: "sec_becomes (prot (chip s)) (sec (chip s)) s s3"
    using sec_becomes_trans [OF sec_becomes_trans [OF s1 s2] s3(1)] s1 s2 by (simp add: sec_becomes_def)
  then have w3: "length (win s3) = 1024" using len by (simp add: sec_becomes_def drv_eq_def)
  have s4: "sec_becomes (prot (chip s)) (sec (chip s)) s s4" "take 4 (win s4) = le32 x" "4 \<le> length (win s4)" "wel (chip s4)"
    using s13 s3(2) w3 by (auto simp: s4_def win_put_def sec_becomes_def drv_eq_def bsplice_def)
  obtain w5 d5 where r5: "spi 0x1A001 0x10000000 (win s4) (chip s4) = (w5, d5)" by fastforce
  have d5: "mem d5 = mem (chip s4)" "sec d5 = sec (chip s4)" "prot d5 \<longleftrightarrow> v \<noteq> 0"
    using status_write [OF s4(4,3) r5] v s4(2) by (auto simp: x_def)
  have "writeGDBpBit spi 0 b4 b3 b2 b1 b0 s = spi_run spi 0x1A001 0x10000000 s4"
    unfolding writeGDBpBit_def Let_def s4_def x_def s3_def writeEnable_def s2_def s1_def by simp
  moreover have "sec_becomes (v \<noteq> 0) (sec (chip s)) s (spi_run spi 0x1A001 0x10000000 s4)"
    using sec_becomes_trans [OF s4(1) spi_run_sec(1) [OF r5 d5(1)]] d5 s4(1) by (simp add: sec_becomes_def)
  ultimately show ?thesis by simp
qed

lemma protection_ok:
  assumes "length (win s) = 1024" "gd_maker ident s"
  shows "\<exists>s'. tls_flash_unlock spi s = (0, s') \<and> sec_becomes False (sec (chip s)) s s'"
    "\<exists>s'. tls_flash_lock spi s = (0, s') \<and> sec_becomes True (sec (chip s)) s s'"
proof -
  obtain rid s1 where r: "readRID spi s = (rid, s1)" by fastforce
  have s1: "rid = ucast (ident (chip s))" "sec_becomes (prot (chip s)) (sec (chip s)) s s1" using readRID_ok [OF assms(1) r] by auto
  then have w: "length (win s1) = 1024" "sec (chip s1) = sec (chip s)" "rid = 0xC8 \<or> rid = 0x85"
    using assms by (auto simp: sec_becomes_def drv_eq_def gd_maker_def)
  show "\<exists>s'. tls_flash_unlock spi s = (0, s') \<and> sec_becomes False (sec (chip s)) s s'"
    using writeGDBpBit_ok [OF w(1) status_word(1)] w r sec_becomes_trans [OF s1(2)]
    by (simp add: tls_flash_unlock_def flashunlock_def)
  show "\<exists>s'. tls_flash_lock spi s = (0, s') \<and> sec_becomes True (sec (chip s)) s s'"
    using writeGDBpBit_ok [OF w(1) status_word(2)] w r sec_becomes_trans [OF s1(2)]
    by (simp add: tls_flash_lock_def flashlock_def)
qed

section \<open>Security registers\<close>

lemma readSR_ok:
  assumes "n = 256 \<or> n = 512" "length (win s) = 1024" "n \<le> length buf" "readSR spi 0xBC00C048 a buf n s = (b, s')"
  shows "b = bsplice 0 (mem_bytes (sec (chip s)) (off20 a) n) buf \<and> sec_becomes (prot (chip s)) (sec (chip s)) s s'"
proof -
  obtain w d where r: "spi (0xBC00C048 OR push_bit 16 (word_of_nat n - 1)) (spi_addr a) (win s) (chip s) = (w, d)" by fastforce
  have d: "take n w = mem_bytes (sec (chip s)) (off20 a) n" "mem d = mem (chip s)" "prot d = prot (chip s)" "sec d = sec (chip s)"
    using sec_read [OF assms(1) _ r] assms(1,2) by (auto simp: off20_def)
  have n: "4 * (n div 4) = n" "n mod 4 = 0" using assms(1) by auto
  show ?thesis using assms(4) spi_run_sec [OF r d(2)] d n unfolding readSR_def Let_def by (auto simp del: dvd_eq_mod_eq_0)
qed

lemma eraseSR_ok:
  assumes "length (win s) = 1024"
  shows "sec_becomes (prot (chip s)) (mem_write (off20 a) (replicate (sr_sectorsize (sr_select (ucast (ident (chip s))))) 0xFF) (sec (chip s))) s
    (eraseSR spi 0x80000844 a s)"
proof -
  let ?s1 = "writeEnable spi s"
  have s1: "sec_becomes (prot (chip s)) (sec (chip s)) s ?s1" "wel (chip ?s1)" using writeEnable_ok [of s] by (auto simp: becomes_sec)
  obtain w d where r: "spi 0x80000844 (spi_addr a) (win ?s1) (chip ?s1) = (w, d)" by fastforce
  note e = sec_erase [OF s1(2) r]
  show ?thesis
    using sec_becomes_trans [OF s1(1) spi_run_sec(1) [OF r]] e s1(1) by (auto simp: eraseSR_def off20_def sec_becomes_def)
qed

lemma programSR_ok:
  assumes "length (win s) = 1024" "256 \<le> length buf"
  shows "sec_becomes (prot (chip s)) (mem_program (off20 a) (take 256 buf) (sec (chip s))) s (programSR spi 0x80009042 a buf 256 s)"
proof -
  let ?s1 = "win_put (take 256 buf) s"
  let ?s2 = "writeEnable spi ?s1"
  have s1: "sec_becomes (prot (chip s)) (sec (chip s)) s ?s1" "take 256 (win ?s1) = take 256 buf" "length (win ?s1) = 1024"
    using assms by (auto simp: win_put_def sec_becomes_def drv_eq_def bsplice_def)
  have s2: "sec_becomes (prot (chip s)) (sec (chip s)) s ?s2" "wel (chip ?s2)" "win ?s2 = win ?s1"
    using writeEnable_ok [of ?s1] sec_becomes_trans [OF s1(1)] sec_becomesD(4,5) [OF s1(1)] by (simp_all add: becomes_sec)
  obtain w d where r: "spi (0x80009042 OR push_bit 16 (256 - 1)) (spi_addr a) (win ?s2) (chip ?s2) = (w, d)" by fastforce
  have d: "sec d = mem_program (off20 a) (take 256 buf) (sec (chip s))" "mem d = mem (chip ?s2)" "prot d = prot (chip s)"
    using sec_program [OF s2(2) _ r] s1(2,3) s2(1,3) by (auto simp: off20_def sec_becomes_def)
  show ?thesis using sec_becomes_trans [OF s2(1) spi_run_sec(1) [OF r d(2)]] d by (simp add: programSR_def Let_def)
qed

lemma sr_off20: "off20 0 = 0" "off20 256 = 256" "off20 0x1000 = 0x1000" "off20 0x1100 = 0x1100"
  by (simp_all add: off20_def)

lemma two_halves: "length back = 512 \<Longrightarrow> take 256 back @ take 256 (drop 256 back) = back"
  using append_take_drop_id [of 256 "back"] by simp

lemma sr_read_all_ok:
  assumes "length (win s) = 1024" "gd_maker ident s" "length back = 512"
    and "sr_read_all spi (sr_select (ucast (ident (chip s)))) 0 (sr_sectornum (sr_select (ucast (ident (chip s))))) back s = (b, s')"
  shows "b = mem_bytes (sec (chip s)) (sr_start ident s) 512 \<and> sec_becomes (prot (chip s)) (sec (chip s)) s s'"
proof (cases "(ucast (ident (chip s)) :: u8) = 0xC8")
  case True
  obtain b1 s1 where r1: "readSR spi 0xBC00C048 0 back 256 s = (b1, s1)" by fastforce
  have h1: "b1 = bsplice 0 (mem_bytes (sec (chip s)) 0 256) back" "sec_becomes (prot (chip s)) (sec (chip s)) s s1"
    using readSR_ok [OF _ assms(1) _ r1] assms(3) by (simp_all add: sr_off20)
  obtain b2 s2 where r2: "readSR spi 0xBC00C048 256 (drop 256 b1) 256 s1 = (b2, s2)" by fastforce
  have h2: "b2 = mem_bytes (sec (chip s)) 256 256" "sec_becomes (prot (chip s)) (sec (chip s)) s1 s2"
    using readSR_ok [OF _ _ _ r2] h1 assms(1,3) sec_becomesD [OF h1(2)] by (simp_all add: sr_off20 bsplice_full)
  have "b = take 256 b1 @ b2" "s' = s2"
    using assms(4) r1 r2 True by (simp_all add: sr_select_def numeral_2_eq_2)
  then show ?thesis using h1 h2 sec_becomes_trans [OF h1(2) h2(2)] True mem_bytes_add [of "sec (chip s)" 0 256 256]
    by (simp add: sr_start_def bsplice_def)
next
  case False
  with assms(2) have F: "(ucast (ident (chip s)) :: u8) = 0x85" by (simp add: gd_maker_def)
  obtain b1 s1 where r1: "readSR spi 0xBC00C048 0x1000 back 512 s = (b1, s1)" by fastforce
  have "b1 = mem_bytes (sec (chip s)) 0x1000 512" "sec_becomes (prot (chip s)) (sec (chip s)) s s1"
    using readSR_ok [OF _ assms(1) _ r1] assms(3) by (simp_all add: sr_off20 bsplice_full)
  then show ?thesis using assms(4) r1 F by (simp add: sr_select_def sr_start_def)
qed

lemma mem_program_blank:
  assumes "length xs = 256" "length ys = 256"
  shows "mem_program (a + 256) ys (mem_program a xs (mem_write a (replicate 512 0xFF) m)) = mem_write a (xs @ ys) m"
proof
  fix i
  show "mem_program (a + 256) ys (mem_program a xs (mem_write a (replicate 512 0xFF) m)) i = mem_write a (xs @ ys) m i"
    using assms by (auto simp: mem_program_def mem_write_def nth_append diff_diff_left)
qed

lemma sr_rewrite_ok:
  assumes "length (win s) = 1024" "gd_maker ident s" "length back = 512"
  defines "g \<equiv> sr_select (ucast (ident (chip s)))"
  shows "sec_becomes (prot (chip s)) (mem_write (sr_start ident s) back (sec (chip s))) s
    (sr_program_all spi g 0 (sr_sectornum g) back (sr_erase_all spi g 0 (sr_sectornum g) s))"
proof -
  let ?x = "sec (chip s)" and ?p = "prot (chip s)" and ?b = "sr_start ident s" and ?ff = "\<lambda>n. replicate n (0xFF :: u8)"
  define s1 where "s1 = sr_erase_all spi g 0 (sr_sectornum g) s"
  have s1: "sec_becomes ?p (mem_write ?b (?ff 512) ?x) s s1"
  proof (cases "(ucast (ident (chip s)) :: u8) = 0xC8")
    case True
    have e1: "sec_becomes ?p (mem_write 0 (?ff 256) ?x) s (eraseSR spi 0x80000844 0 s)"
      using eraseSR_ok [OF assms(1), of 0] True by (simp add: sr_select_def sr_off20)
    have e2: "sec_becomes ?p (mem_write 256 (?ff 256) (mem_write 0 (?ff 256) ?x)) s
        (eraseSR spi 0x80000844 256 (eraseSR spi 0x80000844 0 s))"
      using sec_becomes_trans [OF e1 eraseSR_ok [of "eraseSR spi 0x80000844 0 s" 256]] sec_becomesD [OF e1] assms(1) True
      by (simp add: sr_select_def sr_off20)
    have "mem_write 256 (?ff 256) (mem_write 0 (?ff 256) ?x) = mem_write 0 (?ff 512) ?x"
      using mem_write_append [of 0 "?ff 256" "?ff 256" ?x] by (simp flip: replicate_add)
    then show ?thesis using e2 True by (simp add: s1_def g_def sr_select_def sr_start_def numeral_2_eq_2)
  next
    case False
    with assms(2) have "(ucast (ident (chip s)) :: u8) = 0x85" by (simp add: gd_maker_def)
    then show ?thesis using eraseSR_ok [OF assms(1), of "0x1000"] by (simp add: s1_def g_def sr_select_def sr_start_def sr_off20)
  qed
  note d1 = sec_becomesD [OF s1]
  define a1 :: u32 where "a1 = word_of_nat ?b"
  have a1: "off20 a1 = ?b" "off20 (a1 + 256) = ?b + 256" by (simp_all add: a1_def sr_start_def sr_off20)
  define s2 where "s2 = programSR spi 0x80009042 a1 back 256 s1"
  define s3 where "s3 = programSR spi 0x80009042 (a1 + 256) (drop 256 back) 256 s2"
  have s2: "sec_becomes ?p (mem_program ?b (take 256 back) (mem_write ?b (?ff 512) ?x)) s1 s2"
    using programSR_ok [of s1 "back" a1] assms(1,3) d1 a1 by (simp add: s2_def)
  have s3: "sec_becomes ?p (mem_program (?b + 256) (take 256 (drop 256 back)) (mem_program ?b (take 256 back) (mem_write ?b (?ff 512) ?x))) s2 s3"
    using programSR_ok [of s2 "drop 256 back" "a1 + 256"] assms(1,3) d1 sec_becomesD [OF s2] a1 by (simp add: s3_def)
  have "mem_program (?b + 256) (take 256 (drop 256 back)) (mem_program ?b (take 256 back) (mem_write ?b (?ff 512) ?x)) = mem_write ?b back ?x"
    using mem_program_blank [of "take 256 back" "take 256 (drop 256 back)" ?b ?x] assms(3) two_halves [OF assms(3)] by simp
  then have r: "sec_becomes ?p (mem_write ?b back ?x) s s3" using sec_becomes_trans [OF s1 sec_becomes_trans [OF s2 s3]] by simp
  have "sr_program_all spi g 0 (sr_sectornum g) back s1 = s3"
  proof (cases "(ucast (ident (chip s)) :: u8) = 0xC8")
    case True
    then show ?thesis by (simp add: g_def sr_select_def numeral_2_eq_2 s3_def s2_def a1_def sr_start_def)
  next
    case False
    with assms(2) have "(ucast (ident (chip s)) :: u8) = 0x85" by (simp add: gd_maker_def)
    then have "g = \<lparr>sr_base = 0x1000, sr_sectoroffset = 0, sr_sectorsize = 512, sr_sectornum = 1, sr_erasecmd = 0x80000844,
        sr_readcmd = 0xBC00C048, sr_writecmd = 0x80009042\<rparr>" by (simp add: g_def sr_select_def)
    then show ?thesis using False by (simp add: numeral_2_eq_2 s3_def s2_def a1_def sr_start_def)
  qed
  then show ?thesis using r by (simp add: s1_def)
qed

lemma flashSRRW_ok:
  assumes "length (win s) = 1024" "gd_maker ident s" "length back = 512" "offset + sz \<le> 512" "sz \<le> length buf"
  shows "\<exists>b s'. flashSRRW spi offset (Some buf) sz (Some back) 512 True s
      = Some (Some (bsplice 0 (mem_bytes (sec (chip s)) (sr_start ident s + offset) sz) buf), Some b, s')
      \<and> length b = 512 \<and> sec_becomes (prot (chip s)) (sec (chip s)) s s'"
    "\<exists>b s'. flashSRRW spi offset (Some buf) sz (Some back) 512 False s = Some (Some buf, Some b, s')
      \<and> length b = 512 \<and> sec_becomes (prot (chip s)) (mem_write (sr_start ident s + offset) (take sz buf) (sec (chip s))) s s'"
proof -
  obtain rid s1 where r: "readRID spi s = (rid, s1)" by fastforce
  have s1: "rid = ucast (ident (chip s))" "sec_becomes (prot (chip s)) (sec (chip s)) s s1" using readRID_ok [OF assms(1) r] by auto
  note d1 = sec_becomesD [OF s1(2)]
  have gd: "gd_maker ident s1" "sr_start ident s1 = sr_start ident s" "rid \<noteq> 0x1C" "length (win s1) = 1024"
    using assms(1,2) s1 d1 by (auto simp: gd_maker_def sr_start_def)
  define g where "g = sr_select rid"
  have g: "sr_sectornum g * sr_sectorsize g = 512" using assms(2) s1(1) by (auto simp: g_def gd_maker_def sr_select_def)
  obtain b s2 where rd: "sr_read_all spi g 0 (sr_sectornum g) back s1 = (b, s2)" by fastforce
  have s2: "b = mem_bytes (sec (chip s)) (sr_start ident s) 512" "sec_becomes (prot (chip s)) (sec (chip s)) s1 s2"
    using sr_read_all_ok [OF gd(4,1) assms(3)] rd s1(1) d1 gd(2) by (simp_all add: g_def)
  note d2 = sec_becomesD [OF s2(2)]
  have s02: "sec_becomes (prot (chip s)) (sec (chip s)) s s2" by (rule sec_becomes_trans [OF s1(2) s2(2)])
  have "bslice offset sz b = mem_bytes (sec (chip s)) (sr_start ident s + offset) sz"
    using assms(4) by (simp add: s2(1) bslice_def drop_mem_bytes)
  then show "\<exists>b s'. flashSRRW spi offset (Some buf) sz (Some back) 512 True s
      = Some (Some (bsplice 0 (mem_bytes (sec (chip s)) (sr_start ident s + offset) sz) buf), Some b, s')
      \<and> length b = 512 \<and> sec_becomes (prot (chip s)) (sec (chip s)) s s'"
    using r rd gd(3) g assms(3,4,5) s2(1) s02 by (simp add: flashSRRW_def g_def [symmetric])
  define c where "c = bsplice offset (take sz buf) b"
  define s3 where "s3 = sr_program_all spi g 0 (sr_sectornum g) c (sr_erase_all spi g 0 (sr_sectornum g) s2)"
  have c: "length c = 512" using assms(4,5) by (simp add: c_def s2(1))
  have gd2: "gd_maker ident s2" "sr_start ident s2 = sr_start ident s" "g = sr_select (ucast (ident (chip s2)))" "length (win s2) = 1024"
    using gd d1 d2 s1(1) by (auto simp: gd_maker_def sr_start_def g_def)
  have "mem_write (sr_start ident s) c (sec (chip s)) = mem_write (sr_start ident s + offset) (take sz buf) (sec (chip s))"
    using mem_write_merge [of offset "take sz buf" 512 "sr_start ident s" "sec (chip s)"] assms(4,5) by (simp add: c_def s2(1))
  then have s3: "sec_becomes (prot (chip s)) (mem_write (sr_start ident s + offset) (take sz buf) (sec (chip s))) s s3"
    using sec_becomes_trans [OF s02 sr_rewrite_ok [OF gd2(4,1) c, folded gd2(3)]] d2 gd2(2) by (simp add: s3_def)
  have room: "(if sz < unat (512 - word_of_nat offset :: u32) then sz else unat (512 - word_of_nat offset :: u32)) = sz"
  proof -
    have "(512 - word_of_nat offset :: u32) = word_of_nat (512 - offset)" using assms(4) by (simp add: of_nat_diff)
    then have "unat (512 - word_of_nat offset :: u32) = 512 - offset" by (simp add: unsigned_of_nat take_bit_nat_eq_self)
    then show ?thesis using assms(4) by simp linarith
  qed
  show "\<exists>b s'. flashSRRW spi offset (Some buf) sz (Some back) 512 False s = Some (Some buf, Some b, s')
      \<and> length b = 512 \<and> sec_becomes (prot (chip s)) (mem_write (sr_start ident s + offset) (take sz buf) (sec (chip s))) s s'"
    using r rd gd(3) g assms(3,4,5) s2(1) s3 c
    by (simp add: flashSRRW_def g_def [symmetric] Let_def room) (simp add: c_def s3_def)
qed

end

section \<open>The driver over such a chip\<close>

locale sec_driver = sec_chip spi mem wel ident prot sec
    + area_driver spi mem wel ident "\<lambda>d. (prot d, sec d)" "\<lambda>(p, _). if p then 0x2000 else 0" heap
  for spi :: "'d spi" and mem :: "'d \<Rightarrow> nat \<Rightarrow> u8" and wel :: "'d \<Rightarrow> bool" and ident :: "'d \<Rightarrow> u32"
    and prot :: "'d \<Rightarrow> bool" and sec :: "'d \<Rightarrow> nat \<Rightarrow> u8" and heap :: allocator

context sec_driver
begin

text \<open>Writing with the protection taken off and put on again, as the code does for the first sectors.\<close>

definition fls_becomes :: "(nat \<Rightarrow> u8) \<Rightarrow> (nat \<Rightarrow> u8) \<Rightarrow> 'd fls \<Rightarrow> 'd fls \<Rightarrow> bool" where
  "fls_becomes m x s t \<longleftrightarrow> drv_eq s t \<and> mem (chip t) = m \<and> ident (chip t) = ident (chip s) \<and> sec (chip t) = x"

lemma fls_becomes_sec: "sec_becomes p x s t \<Longrightarrow> fls_becomes (mem (chip s)) x s t"
  by (simp add: fls_becomes_def sec_becomes_def)

lemma fls_becomes_main: "becomes m s t \<Longrightarrow> fls_becomes m (sec (chip s)) s t"
  by (simp add: fls_becomes_def becomes_def)

lemma fls_becomes_trans: "fls_becomes m x s t \<Longrightarrow> fls_becomes m' x' t u \<Longrightarrow> fls_becomes m' x' s u"
  by (auto simp: fls_becomes_def dest: drv_eq_trans)

lemma fls_becomesD:
  assumes "fls_becomes m x s t"
  shows "mem (chip t) = m" "sec (chip t) = x" "fls_ready t = fls_ready s" "gd_maker ident t = gd_maker ident s" "sr_start ident t = sr_start ident s"
    "fls_capacity ident t = fls_capacity ident s" "length (win t) = length (win s)"
  using assms by (auto simp: fls_becomes_def fls_ready_def drv_eq_def gd_maker_def sr_start_def fls_capacity_def)

lemma unlocked_write_ok:
  assumes "fls_ready s" "gd_maker ident s" "0 < n" "n \<le> length buf" "fls_off addr + n \<le> fls_capacity ident s"
  shows "\<exists>s1 s2 s3. tls_flash_unlock spi s = (0, s1) \<and> tls_fls_write spi heap addr (Some buf) n s1 = (TLS_FLS_STATUS_OK, s2)
    \<and> tls_flash_lock spi s2 = (0, s3) \<and> fls_becomes (mem_write (fls_off addr) (take n buf) (mem (chip s))) (sec (chip s)) s s3"
proof -
  obtain s1 where s1: "tls_flash_unlock spi s = (0, s1)" "sec_becomes False (sec (chip s)) s s1"
    using protection_ok(1) [of s] assms(1,2) by (auto simp: fls_ready_def)
  note b1 = fls_becomes_sec [OF s1(2)]
  note d1 = fls_becomesD [OF b1] sec_becomesD(4) [OF s1(2)]
  obtain s2 where s2: "tls_fls_write spi heap addr (Some buf) n s1 = (TLS_FLS_STATUS_OK, s2)"
    "becomes (mem_write (fls_off addr) (take n buf) (mem (chip s1))) s1 s2"
    using tls_fls_write_ok [of s1 n buf addr] assms d1 by auto
  note b2 = fls_becomes_trans [OF b1 fls_becomes_main [OF s2(2)]]
  obtain s3 where s3: "tls_flash_lock spi s2 = (0, s3)" "sec_becomes True (sec (chip s2)) s2 s3"
    using protection_ok(2) [of s2] assms(1,2) fls_becomesD [OF b2] by (auto simp: fls_ready_def)
  show ?thesis
    using s1(1) s2(1) s3(1) fls_becomes_trans [OF b2 fls_becomes_sec [OF s3(2)]] fls_becomesD(1,2) [OF b2] d1 by auto
qed

end

section \<open>A chip with security registers\<close>

record gdnor =
  gd_main :: nor
  gd_prot :: bool
  gd_sec :: "nat \<Rightarrow> u8"

definition gd_wel :: "gdnor \<Rightarrow> bool" where "gd_wel d = nor_wel (gd_main d)"
definition gd_ident :: "gdnor \<Rightarrow> u32" where "gd_ident d = nor_ident (gd_main d) AND 0xFFFFFF"
definition gd_mem :: "gdnor \<Rightarrow> nat \<Rightarrow> u8" where "gd_mem d = nor_mem (gd_main d)"

definition gd_exec :: "gdnor spi" where
  "gd_exec cmd addr w d =
    (let opcode = cmd AND 0xFF;
         a = unat (drop_bit 8 addr AND 0xFFFFF);
         n = Suc (unat (drop_bit 16 cmd AND 0x3FF))
     in if opcode = 0x05 \<or> opcode = 0x35 then (w, d)
        else if opcode = 0x01 then (if gd_wel d then (w, d\<lparr>gd_prot := de32 (take 4 w) AND 0x407C \<noteq> 0\<rparr>) else (w, d))
        else if opcode = 0x48 then (if n \<le> length w then (bsplice 0 (mem_bytes (gd_sec d) a n) w, d) else (w, d))
        else if opcode = 0x44 then
          (if gd_wel d then (w, d\<lparr>gd_sec := mem_write a (replicate (sr_sectorsize (sr_select (ucast (gd_ident d)))) 0xFF) (gd_sec d)\<rparr>) else (w, d))
        else if opcode = 0x42 then (if gd_wel d then (w, d\<lparr>gd_sec := mem_program a (take n w) (gd_sec d)\<rparr>) else (w, d))
        else if (opcode = 0x02 \<or> opcode = 0x20) \<and> gd_prot d \<and> a < 0x2000 then (w, d)
        else let (w', m) = nor_exec cmd addr w (gd_main d) in (w', d\<lparr>gd_main := m\<rparr>))"

lemma gd_opcode_sec: "n = 256 \<or> n = 512 \<Longrightarrow> (0xBC00C048 OR push_bit 16 (word_of_nat n - 1 :: u32)) AND 0xFF = 0x48"
  "n = 256 \<or> n = 512 \<Longrightarrow> Suc (unat (drop_bit 16 (0xBC00C048 OR push_bit 16 (word_of_nat n - 1 :: u32)) AND 0x3FF)) = n"
  by auto

interpretation gdc: sec_driver gd_exec gd_mem gd_wel gd_ident gd_prot gd_sec zero_heap
proof unfold_locales
  fix cmd addr w and d :: gdnor
  show "length (fst (gd_exec cmd addr w d)) = length w"
    using nor.window_length [of cmd addr w "gd_main d"] by (auto simp: gd_exec_def Let_def split: prod.splits)
  show "gd_ident (snd (gd_exec cmd addr w d)) = gd_ident d"
    using nor.ident_const [of cmd addr w "gd_main d"] by (auto simp: gd_exec_def gd_ident_def Let_def split: prod.splits)
next
  fix w w' and d d' :: gdnor
  assume "4 \<le> length w" "gd_exec 0x2c09F 0x10000000 w d = (w', d')"
  then show "de32 (take 4 w') AND 0xFFFFFF = gd_ident d \<and> gd_mem d' = gd_mem d \<and> (gd_prot d', gd_sec d') = (gd_prot d, gd_sec d)"
    using nor.read_ident [of w "gd_main d"] by (auto simp: gd_exec_def gd_ident_def gd_mem_def split: prod.splits)
next
  fix n w w' a and d d' :: gdnor
  assume "1 \<le> n" "n \<le> 1024" "n \<le> length w" "unat (a AND 0xFFFFF) + n \<le> 2 ^ 20"
    "gd_exec (0xBC00C00B OR push_bit 16 ((word_of_nat n - 1) AND 0x3FF)) (spi_addr a) w d = (w', d')"
  then show "take n w' = mem_bytes (gd_mem d) (unat (a AND 0xFFFFF)) n \<and> gd_mem d' = gd_mem d
      \<and> (gd_prot d', gd_sec d') = (gd_prot d, gd_sec d)"
    using nor.read_data [of n w a "gd_main d"] unfolding gd_exec_def Let_def nor_opcode_read
    by (auto simp: gd_mem_def split: prod.splits)
next
  fix w w' and d d' :: gdnor
  assume "gd_exec 0x6 0x10000000 w d = (w', d')"
  then show "w' = w \<and> gd_wel d' \<and> gd_mem d' = gd_mem d \<and> (gd_prot d', gd_sec d') = (gd_prot d, gd_sec d)"
    using nor.write_enable [of w "gd_main d"] by (auto simp: gd_exec_def gd_wel_def gd_mem_def split: prod.splits)
next
  fix w w' a and d d' :: gdnor
  assume "gd_wel d" "256 \<le> length w" "(case (gd_prot d, gd_sec d) of (p, _) \<Rightarrow> if p then 0x2000 else 0) \<le> unat (a AND 0xFFFFF)"
    "gd_exec (0x80009002 OR push_bit 16 (256 - 1)) (spi_addr a) w d = (w', d')"
  then show "gd_mem d' = mem_program (unat (a AND 0xFFFFF)) (take 256 w) (gd_mem d) \<and> (gd_prot d', gd_sec d') = (gd_prot d, gd_sec d)"
    unfolding gd_exec_def nor_exec_def Let_def nor_decode_addr by (auto simp: gd_wel_def gd_mem_def split: if_splits)
next
  fix w w' a and d d' :: gdnor
  assume "gd_wel d" "(case (gd_prot d, gd_sec d) of (p, _) \<Rightarrow> if p then 0x2000 else 0) \<le> unat (a AND 0xFFFFF)"
    "gd_exec 0x80000820 (spi_addr a) w d = (w', d')"
  then show "gd_mem d' = mem_erase (unat (a AND 0xFFFFF)) (gd_mem d) \<and> (gd_prot d', gd_sec d') = (gd_prot d, gd_sec d)"
    unfolding gd_exec_def nor_exec_def Let_def nor_decode_addr by (auto simp: gd_wel_def gd_mem_def split: if_splits)
next
  fix k :: "bool \<times> (nat \<Rightarrow> u8)" and p :: nat
  assume "(case k of (p, _) \<Rightarrow> if p then 0x2000 else 0) \<le> p"
  then show "(case k of (p, _) \<Rightarrow> if p then 0x2000 else 0) \<le> p - p mod 4096"
    using sector_floor(4) [of p] by (auto split: prod.splits if_splits)
next
  fix n w w' a and d d' :: gdnor
  assume "n = 256 \<or> n = 512" "n \<le> length w" "gd_exec (0xBC00C048 OR push_bit 16 (word_of_nat n - 1)) (spi_addr a) w d = (w', d')"
  then show "take n w' = mem_bytes (gd_sec d) (unat (a AND 0xFFFFF)) n \<and> gd_mem d' = gd_mem d \<and> gd_prot d' = gd_prot d \<and> gd_sec d' = gd_sec d"
    unfolding gd_exec_def Let_def nor_decode_addr gd_opcode_sec [OF \<open>n = 256 \<or> n = 512\<close>] by (auto simp: bsplice_def)
next
  fix w w' a and d d' :: gdnor
  assume "gd_wel d" "gd_exec 0x80000844 (spi_addr a) w d = (w', d')"
  then show "gd_sec d' = mem_write (unat (a AND 0xFFFFF)) (replicate (sr_sectorsize (sr_select (ucast (gd_ident d)))) 0xFF) (gd_sec d)
      \<and> gd_mem d' = gd_mem d \<and> gd_prot d' = gd_prot d"
    unfolding gd_exec_def Let_def nor_decode_addr by (auto simp: gd_mem_def)
next
  fix w w' a and d d' :: gdnor
  assume "gd_wel d" "256 \<le> length w" "gd_exec (0x80009042 OR push_bit 16 (256 - 1)) (spi_addr a) w d = (w', d')"
  then show "gd_sec d' = mem_program (unat (a AND 0xFFFFF)) (take 256 w) (gd_sec d) \<and> gd_mem d' = gd_mem d \<and> gd_prot d' = gd_prot d"
    unfolding gd_exec_def Let_def nor_decode_addr by (auto simp: gd_mem_def)
qed (auto simp: gd_exec_def gd_mem_def gd_wel_def split: prod.splits)

end
