(* ===== verification/Efuse.thy ===== *)
theory Efuse
  imports Flash_Secure Crypto_Crc
begin

text \<open>
  The store of factory parameters, \<^verbatim>\<open>src/Platform/Drivers/efuse/wm_efuse.c\<close>: a structure of 128 bytes (magic word, checksum,
  length, hardware address, calibration words and gains) in RAM, in the first, write-protected sector of the
  internal flash and in its security registers. The structure \<^verbatim>\<open>gftParam\<close> is the list of its bytes; a copy past its
  end or past a caller's buffer is the result \<open>None\<close>. The CRC unit is the parameter \<open>hw\<close>; switching its clock
  on (\<^verbatim>\<open>tls_crypto_init\<close>) has no effect here. \<open>restart\<close> clears the RAM and keeps the flash.
\<close>

record 'd efuse =
  ef_dev :: "'d fls"
  gftParam :: bytes
  chip_id_cache :: bytes

definition SIGNATURE_WORD_ft :: u32 where "SIGNATURE_WORD_ft = 0xA0FFFF9F"
definition FT_MAGICNUM_ADDR :: u32 where "FT_MAGICNUM_ADDR = 0x8000000"
definition FT_PARAM_LEN :: nat where "FT_PARAM_LEN = 128"
definition VCG_ADDR :: u32 where "VCG_ADDR = 0x8000084"
definition QFLASH_CHIP_ID_BASE_ADDR :: u32 where "QFLASH_CHIP_ID_BASE_ADDR = 0x8001010"

lemmas efuse_consts = SIGNATURE_WORD_ft_def FT_MAGICNUM_ADDR_def FT_PARAM_LEN_def VCG_ADDR_def QFLASH_CHIP_ID_BASE_ADDR_def

definition ft_magic :: "bytes \<Rightarrow> u32" where "ft_magic p = de32 (bslice 0 4 p)"
definition ft_checksum :: "bytes \<Rightarrow> u32" where "ft_checksum p = de32 (bslice 4 4 p)"

text \<open>The CRC over everything behind the first three words.\<close>

definition ft_crc :: "crc_unit \<Rightarrow> bytes \<Rightarrow> u32" where
  "ft_crc hw p = tls_crypto_crc_final (tls_crypto_crc_update hw (bslice 12 (FT_PARAM_LEN - 12) p) (tls_crypto_crc_init 0xFFFFFFFF 3 3))"

definition restart :: "'d efuse \<Rightarrow> 'd efuse" where
  "restart s = s\<lparr>gftParam := replicate 128 0, chip_id_cache := replicate 16 0xFF\<rparr>"

section \<open>Loading\<close>

text \<open>What the loop of \<^verbatim>\<open>tls_ft_param_init\<close> does with one copy: the entry of \<^verbatim>\<open>usedcnt\<close> and the parameters.\<close>

definition ft_take :: "crc_unit \<Rightarrow> bytes \<Rightarrow> bytes \<Rightarrow> int \<times> bytes" where
  "ft_take hw pft g =
    (if ft_magic pft = SIGNATURE_WORD_ft then
       (if ft_checksum pft \<noteq> ft_crc hw pft then (-1, g)
        else (0, if ft_magic g \<noteq> SIGNATURE_WORD_ft then pft else g))
     else (0, g))"

definition ft_flash_write :: "'d spi \<Rightarrow> allocator \<Rightarrow> bytes \<Rightarrow> 'd fls \<Rightarrow> 'd fls" where
  "ft_flash_write spi heap g d =
    (let (_, d) = tls_flash_unlock spi d;
         (_, d) = tls_fls_write spi heap FT_MAGICNUM_ADDR (Some g) FT_PARAM_LEN d;
         (_, d) = tls_flash_lock spi d
     in d)"

definition tls_ft_param_init :: "'d spi \<Rightarrow> allocator \<Rightarrow> crc_unit \<Rightarrow> 'd efuse \<Rightarrow> (bool \<times> 'd efuse) option" where
  "tls_ft_param_init spi heap hw s =
    (if ft_magic (gftParam s) = SIGNATURE_WORD_ft then Some (True, s)
     else let (pmem, d) = tls_mem_alloc heap 512 (ef_dev s)
     in case pmem of None \<Rightarrow> Some (False, s\<lparr>ef_dev := d\<rparr>)
     | Some pmem \<Rightarrow>
        (let (pft, d) = tls_mem_alloc heap FT_PARAM_LEN d
         in case pft of None \<Rightarrow> Some (False, s\<lparr>ef_dev := d\<rparr>)
         | Some pft \<Rightarrow>
            (let (_, pft, d) = tls_fls_read spi heap FT_MAGICNUM_ADDR (Some pft) FT_PARAM_LEN d;
                 (used0, g) = ft_take hw (the pft) (gftParam s)
             in case flashSRRW spi 0 pft FT_PARAM_LEN (Some pmem) 512 True d of
                  None \<Rightarrow> None
                | Some (pft, pmem, d) \<Rightarrow>
                   (let (used1, g) = ft_take hw (the pft) g;
                        sr_write = map_option (\<lambda>(_, _, d). (True, s\<lparr>ef_dev := d, gftParam := g\<rparr>))
                                     (flashSRRW spi 0 (Some g) FT_PARAM_LEN pmem 512 False d)
                    in if used0 + used1 = -2 then Some (True, s\<lparr>ef_dev := d, gftParam := g\<rparr>)
                       else if used0 < 0 then Some (True, s\<lparr>ef_dev := ft_flash_write spi heap g d, gftParam := g\<rparr>)
                       else if used1 < 0 then sr_write
                       else if ft_checksum g \<noteq> ft_checksum (the pft) then sr_write
                       else Some (True, s\<lparr>ef_dev := d, gftParam := g\<rparr>)))))"

section \<open>Reading and setting one parameter\<close>

text \<open>The part of the structure that an operation code stands for: \<^verbatim>\<open>CMD_MAC\<close> (1), the six words (2 to 7), the gains (8).\<close>

definition ft_range :: "nat \<Rightarrow> nat \<Rightarrow> (nat \<times> nat) option" where
  "ft_range opnum len =
    (if opnum = 1 then Some (12, len)
     else if opnum = 2 then Some (20, 4)
     else if opnum = 3 then Some (24, 4)
     else if opnum = 4 then Some (28, 4)
     else if opnum = 5 then Some (32, 4)
     else if opnum = 6 then Some (36, 4)
     else if opnum = 7 then Some (40, 4)
     else if opnum = 8 then Some (44, if len < 84 then len else 84)
     else None)"

definition tls_ft_param_get :: "nat \<Rightarrow> bytes option \<Rightarrow> nat \<Rightarrow> 'd efuse \<Rightarrow> (int \<times> bytes option) option" where
  "tls_ft_param_get opnum data rdlen s =
    (case ft_range opnum rdlen of
       None \<Rightarrow> Some (-1, data)
     | Some (off, n) \<Rightarrow>
        (case data of None \<Rightarrow> None
         | Some b \<Rightarrow> (if n > length b \<or> off + n > FT_PARAM_LEN then None
                      else Some (0, Some (bsplice 0 (bslice off n (gftParam s)) b)))))"

definition ft_stamp :: "crc_unit \<Rightarrow> bytes \<Rightarrow> bytes" where
  "ft_stamp hw g = (let g = bsplice 0 (le32 SIGNATURE_WORD_ft) g in bsplice 4 (le32 (ft_crc hw g)) g)"

definition tls_ft_param_set ::
    "'d spi \<Rightarrow> allocator \<Rightarrow> crc_unit \<Rightarrow> nat \<Rightarrow> bytes option \<Rightarrow> nat \<Rightarrow> 'd efuse \<Rightarrow> (int \<times> 'd efuse) option" where
  "tls_ft_param_set spi heap hw opnum data len s =
    (case data of None \<Rightarrow> Some (-1, s)
     | Some b \<Rightarrow>
        (if len = 0 then Some (-1, s)
         else case ft_range opnum len of
           None \<Rightarrow> Some (-1, s)
         | Some (off, n) \<Rightarrow>
            (if n > length b \<or> off + n > FT_PARAM_LEN then None
             else let g = ft_stamp hw (bsplice off (take n b) (gftParam s));
                      d = ft_flash_write spi heap g (ef_dev s);
                      (pmem, d) = tls_mem_alloc heap 512 d
             in case pmem of
                  None \<Rightarrow> Some (0, s\<lparr>ef_dev := d, gftParam := g\<rparr>)
                | Some pmem \<Rightarrow>
                   map_option (\<lambda>(_, _, d). (0, s\<lparr>ef_dev := d, gftParam := g\<rparr>))
                     (flashSRRW spi 0 (Some g) FT_PARAM_LEN (Some pmem) 512 False d))))"

section \<open>The exported accessors\<close>

definition tls_get_mac_addr :: "bytes option \<Rightarrow> 'd efuse \<Rightarrow> (int \<times> bytes option) option" where
  "tls_get_mac_addr mac s = tls_ft_param_get 1 mac 6 s"

definition tls_set_mac_addr :: "'d spi \<Rightarrow> allocator \<Rightarrow> crc_unit \<Rightarrow> bytes option \<Rightarrow> 'd efuse \<Rightarrow> (int \<times> 'd efuse) option" where
  "tls_set_mac_addr spi heap hw mac s = tls_ft_param_set spi heap hw 1 mac 6 s"

definition tls_get_tx_lo :: "bytes option \<Rightarrow> 'd efuse \<Rightarrow> (int \<times> bytes option) option" where
  "tls_get_tx_lo txlo s = tls_ft_param_get 2 txlo 4 s"

definition tls_set_tx_lo :: "'d spi \<Rightarrow> allocator \<Rightarrow> crc_unit \<Rightarrow> bytes option \<Rightarrow> 'd efuse \<Rightarrow> (int \<times> 'd efuse) option" where
  "tls_set_tx_lo spi heap hw txlo s = tls_ft_param_set spi heap hw 2 txlo 4 s"

definition tls_get_tx_iq_gain :: "bytes option \<Rightarrow> 'd efuse \<Rightarrow> (int \<times> bytes option) option" where
  "tls_get_tx_iq_gain txGain s = tls_ft_param_get 4 txGain 4 s"

definition tls_set_tx_iq_gain :: "'d spi \<Rightarrow> allocator \<Rightarrow> crc_unit \<Rightarrow> bytes option \<Rightarrow> 'd efuse \<Rightarrow> (int \<times> 'd efuse) option" where
  "tls_set_tx_iq_gain spi heap hw txGain s = tls_ft_param_set spi heap hw 4 txGain 4 s"

definition tls_get_rx_iq_gain :: "bytes option \<Rightarrow> 'd efuse \<Rightarrow> (int \<times> bytes option) option" where
  "tls_get_rx_iq_gain rxGain s = tls_ft_param_get 5 rxGain 4 s"

definition tls_set_rx_iq_gain :: "'d spi \<Rightarrow> allocator \<Rightarrow> crc_unit \<Rightarrow> bytes option \<Rightarrow> 'd efuse \<Rightarrow> (int \<times> 'd efuse) option" where
  "tls_set_rx_iq_gain spi heap hw rxGain s = tls_ft_param_set spi heap hw 5 rxGain 4 s"

definition tls_get_tx_iq_phase :: "bytes option \<Rightarrow> 'd efuse \<Rightarrow> (int \<times> bytes option) option" where
  "tls_get_tx_iq_phase txPhase s = tls_ft_param_get 6 txPhase 4 s"

definition tls_set_tx_iq_phase :: "'d spi \<Rightarrow> allocator \<Rightarrow> crc_unit \<Rightarrow> bytes option \<Rightarrow> 'd efuse \<Rightarrow> (int \<times> 'd efuse) option" where
  "tls_set_tx_iq_phase spi heap hw txPhase s = tls_ft_param_set spi heap hw 6 txPhase 4 s"

definition tls_get_rx_iq_phase :: "bytes option \<Rightarrow> 'd efuse \<Rightarrow> (int \<times> bytes option) option" where
  "tls_get_rx_iq_phase rxPhase s = tls_ft_param_get 7 rxPhase 4 s"

definition tls_set_rx_iq_phase :: "'d spi \<Rightarrow> allocator \<Rightarrow> crc_unit \<Rightarrow> bytes option \<Rightarrow> 'd efuse \<Rightarrow> (int \<times> 'd efuse) option" where
  "tls_set_rx_iq_phase spi heap hw rxPhase s = tls_ft_param_set spi heap hw 7 rxPhase 4 s"

text \<open>A word behind the structure, read or written with the protection off; the results of the driver are ignored.\<close>

definition ft_word_op :: "'d spi \<Rightarrow> allocator \<Rightarrow> u32 \<Rightarrow> bytes option \<Rightarrow> bool \<Rightarrow> 'd efuse \<Rightarrow> int \<times> bytes option \<times> 'd efuse" where
  "ft_word_op spi heap addr buf flag s =
    (let (_, d) = tls_flash_unlock spi (ef_dev s);
         (buf, d) = (if flag then (let (_, d) = tls_fls_write spi heap addr buf 4 d in (buf, d))
                     else (let (_, buf, d) = tls_fls_read spi heap addr buf 4 d in (buf, d)));
         (_, d) = tls_flash_lock spi d
     in (0, buf, s\<lparr>ef_dev := d\<rparr>))"

definition tls_freq_err_op :: "'d spi \<Rightarrow> allocator \<Rightarrow> bytes option \<Rightarrow> bool \<Rightarrow> 'd efuse \<Rightarrow> int \<times> bytes option \<times> 'd efuse" where
  "tls_freq_err_op spi heap freqerr flag s = ft_word_op spi heap (FT_MAGICNUM_ADDR + word_of_nat FT_PARAM_LEN) freqerr flag s"

definition tls_rf_vcg_ctrl_op :: "'d spi \<Rightarrow> allocator \<Rightarrow> bytes option \<Rightarrow> bool \<Rightarrow> 'd efuse \<Rightarrow> int \<times> bytes option \<times> 'd efuse" where
  "tls_rf_vcg_ctrl_op spi heap vcg flag s = ft_word_op spi heap VCG_ADDR vcg flag s"

definition tls_get_tx_gain :: "bytes option \<Rightarrow> 'd efuse \<Rightarrow> (int \<times> bytes option) option" where
  "tls_get_tx_gain txgain s = map_option (\<lambda>(_, b). (0, b)) (tls_ft_param_get 8 txgain 84 s)"

definition tls_set_tx_gain :: "'d spi \<Rightarrow> allocator \<Rightarrow> crc_unit \<Rightarrow> bytes option \<Rightarrow> 'd efuse \<Rightarrow> (int \<times> 'd efuse) option" where
  "tls_set_tx_gain spi heap hw txgain s = map_option (\<lambda>(_, s). (0, s)) (tls_ft_param_set spi heap hw 8 txgain 84 s)"

text \<open>The chip identification is read once and then kept.\<close>

definition tls_get_chipid :: "'d spi \<Rightarrow> allocator \<Rightarrow> bytes \<Rightarrow> 'd efuse \<Rightarrow> int \<times> bytes \<times> 'd efuse" where
  "tls_get_chipid spi heap buf s =
    (let (ret, s) =
       (if chip_id_cache s = replicate 16 0xFF then
          (let (ret, b, d) = tls_fls_read spi heap QFLASH_CHIP_ID_BASE_ADDR (Some (chip_id_cache s)) 16 (ef_dev s)
           in (ret, s\<lparr>ef_dev := d, chip_id_cache := the b\<rparr>))
        else (0, s))
     in (ret, if ret = 0 then bsplice 0 (chip_id_cache s) buf else buf, s))"

end
