(* ===== verification/Efuse_Correct.thy ===== *)
theory Efuse_Correct
  imports Efuse
begin

text \<open>
  Correctness of the factory parameter store over a chip with security registers. What loading does with the two copies is
  given by the function \<open>ft_recover\<close> on their contents; the code is shown to compute it. From this
  follow the survival of a parameter that was set and the repair of a damaged copy.
\<close>

section \<open>What loading means\<close>

definition ft_signed :: "bytes \<Rightarrow> bool" where
  "ft_signed p \<longleftrightarrow> ft_magic p = SIGNATURE_WORD_ft"

definition ft_good :: "crc_unit \<Rightarrow> bytes \<Rightarrow> bool" where
  "ft_good hw p \<longleftrightarrow> ft_signed p \<and> ft_checksum p = ft_crc hw p"

definition ft_damaged :: "crc_unit \<Rightarrow> bytes \<Rightarrow> bool" where
  "ft_damaged hw p \<longleftrightarrow> ft_signed p \<and> ft_checksum p \<noteq> ft_crc hw p"

text \<open>The parameters in use and the two copies after loading from the copies \<open>A\<close> in the flash and \<open>B\<close> in the registers.\<close>

definition ft_recover :: "crc_unit \<Rightarrow> bytes \<Rightarrow> bytes \<Rightarrow> bytes \<times> bytes \<times> bytes" where
  "ft_recover hw A B =
    (let g = (if ft_good hw A then A else if ft_good hw B then B else replicate 128 0)
     in (g, if ft_damaged hw A \<and> \<not> ft_damaged hw B then g else A,
         if ft_damaged hw A then B
         else if ft_damaged hw B \<or> ft_checksum g \<noteq> ft_checksum B then g else B))"

definition ef_ready :: "('d \<Rightarrow> u32) \<Rightarrow> 'd efuse \<Rightarrow> bool" where
  "ef_ready ident s \<longleftrightarrow> fls_ready (ef_dev s) \<and> gd_maker ident (ef_dev s) \<and> 4096 \<le> fls_capacity ident (ef_dev s) \<and> length (gftParam s) = 128"

definition flash_copy :: "('d \<Rightarrow> nat \<Rightarrow> u8) \<Rightarrow> 'd efuse \<Rightarrow> bytes" where
  "flash_copy mem s = mem_bytes (mem (chip (ef_dev s))) 0 128"

definition sr_copy :: "('d \<Rightarrow> nat \<Rightarrow> u8) \<Rightarrow> ('d \<Rightarrow> u32) \<Rightarrow> 'd efuse \<Rightarrow> bytes" where
  "sr_copy sec ident s = mem_bytes (sec (chip (ef_dev s))) (sr_start ident (ef_dev s)) 128"

lemma ft_zero: "\<not> ft_signed (replicate 128 0)" "ft_checksum (replicate 128 0) = 0"
proof -
  have "replicate 4 (0 :: u8) = le32 0" by code_simp
  then show "\<not> ft_signed (replicate 128 0)" "ft_checksum (replicate 128 0) = 0"
    by (simp_all add: ft_signed_def ft_magic_def ft_checksum_def bslice_def SIGNATURE_WORD_ft_def)
qed

lemma ft_take_cases:
  "ft_take hw p g = (if ft_damaged hw p then -1 else 0, if ft_good hw p \<and> \<not> ft_signed g then p else g)"
  by (auto simp: ft_take_def ft_damaged_def ft_good_def ft_signed_def)

lemma ft_stamp_good:
  assumes "length g = 128"
  shows "ft_good hw (ft_stamp hw g)" "length (ft_stamp hw g) = 128" "off \<ge> 12 \<Longrightarrow> bslice off n (ft_stamp hw g) = bslice off n g"
proof -
  define g1 where "g1 = bsplice 0 (le32 SIGNATURE_WORD_ft) g"
  have g1: "length g1 = 128" "bslice 0 4 g1 = le32 SIGNATURE_WORD_ft" "\<And>j k. 12 \<le> j \<Longrightarrow> bslice j k g1 = bslice j k g"
    using assms by (auto simp: g1_def c_mem)
  define g2 where "g2 = bsplice 4 (le32 (ft_crc hw g1)) g1"
  have g2: "length g2 = 128" "bslice 0 4 g2 = bslice 0 4 g1" "bslice 4 4 g2 = le32 (ft_crc hw g1)"
    "\<And>j k. 12 \<le> j \<Longrightarrow> bslice j k g2 = bslice j k g1"
    using g1(1) by (auto simp: g2_def c_mem)
  have st: "ft_stamp hw g = g2" by (simp add: ft_stamp_def g2_def g1_def Let_def)
  have "ft_crc hw g2 = ft_crc hw g1" by (simp add: ft_crc_def g2(4))
  then show "ft_good hw (ft_stamp hw g)"
    by (simp add: st ft_good_def ft_signed_def ft_magic_def ft_checksum_def g2 g1)
  show "length (ft_stamp hw g) = 128" "off \<ge> 12 \<Longrightarrow> bslice off n (ft_stamp hw g) = bslice off n g"
    using g1(3) g2(1,4) by (simp_all add: st)
qed

context sec_driver
begin

lemma ft_addr [simp]: "fls_off FT_MAGICNUM_ADDR = 0"
  by (simp add: fls_off_def FT_MAGICNUM_ADDR_def)

lemma ft_flash_write_ok:
  assumes "fls_ready d" "gd_maker ident d" "4096 \<le> fls_capacity ident d" "length g = 128"
  shows "fls_becomes (mem_write 0 g (mem (chip d))) (sec (chip d)) d (ft_flash_write spi heap g d)"
  using unlocked_write_ok [of d 128 g FT_MAGICNUM_ADDR] assms by (auto simp: ft_flash_write_def FT_PARAM_LEN_def)

lemma alloc_becomes:
  obtains b where "tls_mem_alloc heap n d = (Some b, d\<lparr>allocs := Suc (allocs d)\<rparr>)" "length b = n"
    "fls_becomes (mem (chip d)) (sec (chip d)) d (d\<lparr>allocs := Suc (allocs d)\<rparr>)"
proof -
  obtain b where "heap (allocs d) n = Some b" "length b = n" using alloc_totalE [OF heap_total] .
  then show thesis using that by (simp add: tls_mem_alloc_def fls_becomes_def drv_eq_def)
qed

lemma sr_write_ok:
  assumes "fls_ready d" "gd_maker ident d" "length g = 128" "length pmem = 512"
  shows "\<exists>b d'. flashSRRW spi 0 (Some g) FT_PARAM_LEN (Some pmem) 512 False d = Some (Some g, Some b, d')
    \<and> fls_becomes (mem (chip d)) (mem_write (sr_start ident d) g (sec (chip d))) d d'"
  using flashSRRW_ok(2) [of d pmem 0 128 g] assms fls_becomes_sec by (fastforce simp: fls_ready_def FT_PARAM_LEN_def)

lemma ef_after:
  assumes "fls_becomes m x (ef_dev s) d" "ef_ready ident s" "length g = 128"
  shows "flash_copy mem (s\<lparr>ef_dev := d, gftParam := g\<rparr>) = mem_bytes m 0 128"
    "sr_copy sec ident (s\<lparr>ef_dev := d, gftParam := g\<rparr>) = mem_bytes x (sr_start ident (ef_dev s)) 128"
    "ef_ready ident (s\<lparr>ef_dev := d, gftParam := g\<rparr>)"
  using fls_becomesD [OF assms(1)] assms(2,3) by (auto simp: flash_copy_def sr_copy_def ef_ready_def)

lemma init_ok:
  assumes r: "ef_ready ident s" and z: "gftParam s = replicate 128 0"
  defines "A \<equiv> flash_copy mem s" and "B \<equiv> sr_copy sec ident s"
  shows "\<exists>s'. tls_ft_param_init spi heap hw s = Some (True, s') \<and> ef_ready ident s'
    \<and> ft_recover hw A B = (gftParam s', flash_copy mem s', sr_copy sec ident s')"
proof -
  let ?d = "ef_dev s" and ?st = "sr_start ident (ef_dev s)"
  have rd: "fls_ready ?d" "gd_maker ident ?d" "4096 \<le> fls_capacity ident ?d" using r by (auto simp: ef_ready_def)
  obtain pmem d1 where a1: "tls_mem_alloc heap 512 ?d = (Some pmem, d1)" "length pmem = 512"
    and b1: "fls_becomes (mem (chip ?d)) (sec (chip ?d)) ?d d1" by (metis alloc_becomes)
  obtain pft d2 where a2: "tls_mem_alloc heap 128 d1 = (Some pft, d2)" "length pft = 128"
    and b2': "fls_becomes (mem (chip d1)) (sec (chip d1)) d1 d2" by (metis alloc_becomes)
  note b2 = fls_becomes_trans [OF b1 b2', unfolded fls_becomesD(1,2) [OF b1]]
  note D2 = fls_becomesD [OF b2]
  obtain d3 where r3: "tls_fls_read spi heap FT_MAGICNUM_ADDR (Some pft) 128 d2 = (TLS_FLS_STATUS_OK, Some A, d3)"
    and b3': "becomes (mem (chip d2)) d2 d3"
    using tls_fls_read_ok [of d2 128 pft FT_MAGICNUM_ADDR] D2 rd a2(2) by (auto simp: A_def flash_copy_def bsplice_full)
  note b3 = fls_becomes_trans [OF b2 fls_becomes_main [OF b3'], unfolded D2(1,2)]
  note D3 = fls_becomesD [OF b3]
  have lA: "length A = 128" by (simp add: A_def flash_copy_def)
  obtain pm d4 where r4: "flashSRRW spi 0 (Some A) 128 (Some pmem) 512 True d3 = Some (Some B, Some pm, d4)" "length pm = 512"
    and b4': "sec_becomes (prot (chip d3)) (sec (chip d3)) d3 d4"
    using flashSRRW_ok(1) [of d3 pmem 0 128 A] D3 rd a1(2) lA by (auto simp: fls_ready_def B_def sr_copy_def bsplice_full)
  note b4 = fls_becomes_trans [OF b3 fls_becomes_sec [OF b4'], unfolded D3(1,2)]
  note D4 = fls_becomesD [OF b4]
  have lB: "length B = 128" by (simp add: B_def sr_copy_def)
  define g where "g = (if ft_good hw A then A else if ft_good hw B then B else replicate 128 0)"
  have lg: "length g = 128" using lA lB by (simp add: g_def)
  have t0: "ft_take hw A (gftParam s) = (if ft_damaged hw A then -1 else 0, if ft_good hw A then A else replicate 128 0)"
    using ft_zero(1) by (simp add: ft_take_cases z)
  have t1: "ft_take hw B (if ft_good hw A then A else replicate 128 0) = (if ft_damaged hw B then -1 else 0, g)"
    using ft_zero(1) by (auto simp: ft_take_cases g_def ft_good_def)
  obtain pb d5 where r5: "flashSRRW spi 0 (Some g) FT_PARAM_LEN (Some pm) 512 False d4 = Some (Some g, Some pb, d5)"
    and b5': "fls_becomes (mem (chip d4)) (mem_write (sr_start ident d4) g (sec (chip d4))) d4 d5"
    using sr_write_ok [of d4 g pm] D4 rd lg r4(2) by auto
  note b5 = fls_becomes_trans [OF b4 b5', unfolded D4]
  have b6: "fls_becomes (mem_write 0 g (mem (chip ?d))) (sec (chip ?d)) ?d (ft_flash_write spi heap g d4)"
    using fls_becomes_trans [OF b4 ft_flash_write_ok [of d4 g]] D4 rd lg by simp
  have init: "tls_ft_param_init spi heap hw s =
      (if ft_damaged hw A \<and> ft_damaged hw B then Some (True, s\<lparr>ef_dev := d4, gftParam := g\<rparr>)
       else if ft_damaged hw A then Some (True, s\<lparr>ef_dev := ft_flash_write spi heap g d4, gftParam := g\<rparr>)
       else if ft_damaged hw B \<or> ft_checksum g \<noteq> ft_checksum B then Some (True, s\<lparr>ef_dev := d5, gftParam := g\<rparr>)
       else Some (True, s\<lparr>ef_dev := d4, gftParam := g\<rparr>))"
    using ft_zero(1) a1(1) a2(1) r3 r4(1) r5 t0 t1
    by (simp add: tls_ft_param_init_def ft_signed_def z FT_PARAM_LEN_def Let_def)
  note after = ef_after [OF b4 r lg] ef_after [OF b5 r lg] ef_after [OF b6 r lg]
  show ?thesis unfolding init
    by (auto simp: after ft_recover_def g_def [symmetric] Let_def lg A_def [symmetric, unfolded flash_copy_def] B_def [symmetric, unfolded sr_copy_def])
qed

lemma set_ok:
  assumes r: "ef_ready ident s" and g: "0 < len" "ft_range opnum len = Some (off, n)" "n \<le> length b" "off + n \<le> 128"
    and G_def: "G = ft_stamp hw (bsplice off (take n b) (gftParam s))"
  shows "\<exists>s'. tls_ft_param_set spi heap hw opnum (Some b) len s = Some (0, s') \<and> ef_ready ident s' \<and> gftParam s' = G
    \<and> flash_copy mem s' = G \<and> sr_copy sec ident s' = G"
proof -
  let ?d = "ef_dev s"
  have rd: "fls_ready ?d" "gd_maker ident ?d" "4096 \<le> fls_capacity ident ?d" "length (gftParam s) = 128"
    using r by (auto simp: ef_ready_def)
  have lG: "length G = 128" unfolding G_def by (rule ft_stamp_good(2)) (use rd(4) g in simp)
  define d1 where "d1 = ft_flash_write spi heap G ?d"
  have b1: "fls_becomes (mem_write 0 G (mem (chip ?d))) (sec (chip ?d)) ?d d1"
    using ft_flash_write_ok [OF rd(1-3) lG] by (simp add: d1_def)
  obtain pmem d2 where a2: "tls_mem_alloc heap 512 d1 = (Some pmem, d2)" "length pmem = 512"
    and b2': "fls_becomes (mem (chip d1)) (sec (chip d1)) d1 d2" by (metis alloc_becomes)
  note b2 = fls_becomes_trans [OF b1 b2', unfolded fls_becomesD(1,2) [OF b1]]
  note D2 = fls_becomesD [OF b2]
  obtain pb d3 where r3: "flashSRRW spi 0 (Some G) FT_PARAM_LEN (Some pmem) 512 False d2 = Some (Some G, Some pb, d3)"
    and b3': "fls_becomes (mem (chip d2)) (mem_write (sr_start ident d2) G (sec (chip d2))) d2 d3"
    using sr_write_ok [of d2 G pmem] D2 rd lG a2(2) by auto
  note b3 = fls_becomes_trans [OF b2 b3', unfolded D2]
  have "tls_ft_param_set spi heap hw opnum (Some b) len s = Some (0, s\<lparr>ef_dev := d3, gftParam := G\<rparr>)"
    using g a2(1) r3 by (simp add: tls_ft_param_set_def G_def [symmetric] d1_def [symmetric] FT_PARAM_LEN_def Let_def)
  then show ?thesis using ef_after [OF b3 r lG] lG by simp
qed

end

lemma ft_range_bounds: "ft_range opnum len = Some (off, n) \<Longrightarrow> 12 \<le> off \<and> n \<le> max len 4"
  by (auto simp: ft_range_def split: if_splits)

lemma ft_restart_ready: "ef_ready ident s \<Longrightarrow> ef_ready ident (restart s)" "flash_copy mem (restart s) = flash_copy mem s"
  "sr_copy sec ident (restart s) = sr_copy sec ident s" "gftParam (restart s) = replicate 128 0"
  by (simp_all add: ef_ready_def restart_def flash_copy_def sr_copy_def)

lemma bslice_mem_bytes: "j + n \<le> k \<Longrightarrow> bslice j n (mem_bytes m a k) = mem_bytes m (a + j) n"
  by (simp add: bslice_def drop_mem_bytes)

lemma recover_equal: "ft_good hw G \<Longrightarrow> ft_recover hw G G = (G, G, G)"
  by (auto simp: ft_recover_def ft_damaged_def ft_good_def)

section \<open>A store\<close>

definition ef_blank :: "gdnor efuse" where
  "ef_blank = \<lparr>ef_dev = \<lparr>win = replicate 1024 0, chip = \<lparr>gd_main = blank_nor, gd_prot = True, gd_sec = (\<lambda>_. 0xFF)\<rparr>, inside_fls = True,
       fls_sem = 1, gsflscache = None, gsSecOffset = 0, gsSector = 0, allocs = 0\<rparr>,
     gftParam = replicate 128 0, chip_id_cache = replicate 16 0xFF\<rparr>"

lemma ef_blank_ready: "ef_ready gd_ident ef_blank"
  by (simp add: ef_ready_def ef_blank_def fls_ready_def gd_maker_def fls_capacity_def gd_ident_def blank_nor_def ident_density_def)

section \<open>Properties\<close>

text \<open>C28. Loading the factory parameters after a restart computes \<open>ft_recover\<close> of the two stored copies, for every contents of flash and
  security registers: which copy is used, and which copy is rewritten with what.\<close>

theorem efuse_init_recovers:
  assumes "sec_driver spi mem wel ident prot sec heap" "ef_ready ident s"
  shows "\<exists>s'. tls_ft_param_init spi heap hw (restart s) = Some (True, s')
    \<and> ft_recover hw (flash_copy mem s) (sr_copy sec ident s) = (gftParam s', flash_copy mem s', sr_copy sec ident s')"
  using sec_driver.init_ok [OF assms(1) ft_restart_ready(1) [OF assms(2)], of hw] by (auto simp: ft_restart_ready)

theorem efuse_init_recovers_witness:
  "\<exists>s'. tls_ft_param_init gd_exec zero_heap std_engine (restart ef_blank) = Some (True, s')
    \<and> ft_recover std_engine (flash_copy gd_mem ef_blank) (sr_copy gd_sec gd_ident ef_blank)
      = (gftParam s', flash_copy gd_mem s', sr_copy gd_sec gd_ident s')"
  by (rule efuse_init_recovers [OF gdc.sec_driver_axioms ef_blank_ready])



text \<open>Repair of a damaged copy, one whose checksum is wrong: the other copy, when it is good, is used and written over the damaged
  one. A flash copy without the magic word is not repaired, although the security registers hold a good copy;
  and a damaged flash copy is overwritten with zeros when the security registers hold none.\<close>

theorem efuse_repairs_damaged_copy:
  assumes "sec_driver spi mem wel ident prot sec heap" "ef_ready ident s"
    and "A = flash_copy mem s" "B = sr_copy sec ident s"
  shows "\<exists>s'. tls_ft_param_init spi heap hw (restart s) = Some (True, s')
    \<and> (ft_good hw A \<and> ft_damaged hw B \<longrightarrow> gftParam s' = A \<and> flash_copy mem s' = A \<and> sr_copy sec ident s' = A)
    \<and> (ft_damaged hw A \<and> ft_good hw B \<longrightarrow> gftParam s' = B \<and> flash_copy mem s' = B \<and> sr_copy sec ident s' = B)
    \<and> (\<not> ft_signed A \<and> ft_good hw B \<longrightarrow> gftParam s' = B \<and> flash_copy mem s' = A)
    \<and> (ft_damaged hw A \<and> \<not> ft_signed B \<longrightarrow> flash_copy mem s' = replicate 128 0)"
proof -
  obtain s' where s': "tls_ft_param_init spi heap hw (restart s) = Some (True, s')"
    "ft_recover hw A B = (gftParam s', flash_copy mem s', sr_copy sec ident s')"
    using sec_driver.init_ok [OF assms(1) ft_restart_ready(1) [OF assms(2)], of hw] assms(3,4) by (auto simp: ft_restart_ready)
  show ?thesis
    by (rule exI [of _ s']) (use s' in \<open>auto simp: ft_recover_def ft_good_def ft_damaged_def Let_def split: if_splits\<close>)
qed

definition ef_damaged :: "gdnor efuse" where
  "ef_damaged = ef_blank\<lparr>ef_dev := (ef_dev ef_blank)\<lparr>chip := (chip (ef_dev ef_blank))\<lparr>gd_main := blank_nor\<lparr>nor_mem :=
     mem_write 0 (le32 SIGNATURE_WORD_ft) (\<lambda>_. 0xFF)\<rparr>\<rparr>\<rparr>\<rparr>"

theorem efuse_repairs_damaged_copy_witness:
  "\<exists>s'. tls_ft_param_init gd_exec zero_heap (\<lambda>_ _ _ _. 0) (restart ef_damaged) = Some (True, s')
    \<and> ft_damaged (\<lambda>_ _ _ _. 0) (flash_copy gd_mem ef_damaged) \<and> flash_copy gd_mem s' = replicate 128 0"
proof -
  have r: "ef_ready gd_ident ef_damaged"
    by (simp add: ef_damaged_def ef_ready_def ef_blank_def fls_ready_def gd_maker_def fls_capacity_def gd_ident_def blank_nor_def ident_density_def)
  have c: "bslice 4 4 (flash_copy gd_mem ef_damaged) = [0xFF, 0xFF, 0xFF, 0xFF]" "bslice 0 4 (flash_copy gd_mem ef_damaged) = le32 SIGNATURE_WORD_ft"
    "bslice 0 4 (sr_copy gd_sec gd_ident ef_damaged) = [0xFF, 0xFF, 0xFF, 0xFF]"
    by (simp_all add: flash_copy_def sr_copy_def bslice_mem_bytes ef_damaged_def ef_blank_def gd_mem_def)
      (simp_all add: mem_bytes_def mem_write_def le32_def SIGNATURE_WORD_ft_def upt_conv_Cons)
  have "de32 [0xFF, 0xFF, 0xFF, 0xFF] = 0xFFFFFFFF" by code_simp
  then have "ft_damaged (\<lambda>_ _ _ _. 0) (flash_copy gd_mem ef_damaged)" "\<not> ft_signed (sr_copy gd_sec gd_ident ef_damaged)"
    using c by (simp_all add: ft_damaged_def ft_signed_def ft_magic_def ft_checksum_def ft_crc_def tls_crypto_crc_update_def tls_crypto_crc_init_def
        tls_crypto_crc_final_def Let_def SIGNATURE_WORD_ft_def)
  then show ?thesis using efuse_repairs_damaged_copy [OF gdc.sec_driver_axioms r refl refl, of "\<lambda>_ _ _ _. 0"] by auto
qed

end
