(* ===== verification/Hw_Timer.thy ===== *)
theory Hw_Timer
  imports Prelude
begin

text \<open>
  The hardware timers, \<^verbatim>\<open>src/Platform/Drivers/timer/wm_timer.c\<close>, and the clock settings they are based on,
  \<^verbatim>\<open>src/Platform/Drivers/cpu/wm_cpu.c\<close>. Five timers are handed out by a bitmap, timer 0 is kept for delays; the
  control bits of all six share one register. The registers and the interrupt controller are hardware: a
  parameter \<open>io\<close> with the register accesses and the switch of an interrupt line, on a state \<open>'d\<close> of the device. The
  function a timer calls is a number; \<open>timer_irq_callback\<close> returns the call that is made, if any. The result \<open>None\<close>
  is a shift by 32 or more, a division by 0 or a delay that does not end. Configuration pointers are valid.
\<close>

record 'd regs =
  tls_reg_read32 :: "u32 \<Rightarrow> 'd \<Rightarrow> u32 \<times> 'd"
  tls_reg_write32 :: "u32 \<Rightarrow> u32 \<Rightarrow> 'd \<Rightarrow> 'd"
  tls_irq_switch :: "nat \<Rightarrow> bool \<Rightarrow> 'd \<Rightarrow> 'd"

definition HR_CLK_DIV_CTL :: u32 where "HR_CLK_DIV_CTL = 0x40000710"
definition HR_TIMER_CFG :: u32 where "HR_TIMER_CFG = 0x40010E00"
definition HR_TIMER0_5_CSR :: u32 where "HR_TIMER0_5_CSR = 0x40010E04"
definition HR_TIMER0_PRD :: u32 where "HR_TIMER0_PRD = 0x40010E08"

definition TLS_TIMER_MS_UNIT :: "nat \<Rightarrow> u32" where "TLS_TIMER_MS_UNIT n = push_bit (0 + 5 * n) 1"
definition TLS_TIMER_ONE_TIME :: "nat \<Rightarrow> u32" where "TLS_TIMER_ONE_TIME n = push_bit (1 + 5 * n) 1"
definition TLS_TIMER_EN :: "nat \<Rightarrow> u32" where "TLS_TIMER_EN n = push_bit (2 + 5 * n) 1"
definition TLS_TIMER_INT_EN :: "nat \<Rightarrow> u32" where "TLS_TIMER_INT_EN n = push_bit (3 + 5 * n) 1"
definition TLS_TIMER_INT_CLR :: "nat \<Rightarrow> u32" where "TLS_TIMER_INT_CLR n = push_bit (4 + 5 * n) 1"

definition TLS_TIMER_ID_MAX :: nat where "TLS_TIMER_ID_MAX = 6"
definition TIMER0_INT :: nat where "TIMER0_INT = 26"
definition WM_TIMER_ID_INVALID :: nat where "WM_TIMER_ID_INVALID = 0xFF"

lemmas timer_consts = HR_CLK_DIV_CTL_def HR_TIMER_CFG_def HR_TIMER0_5_CSR_def HR_TIMER0_PRD_def TLS_TIMER_ID_MAX_def
  TIMER0_INT_def WM_TIMER_ID_INVALID_def

section \<open>Clocks\<close>

record tls_sys_clk =
  apbclk :: u32
  cpuclk :: u32
  wlanclk :: u32

definition tls_sys_clk_set :: "'d regs \<Rightarrow> u32 \<Rightarrow> 'd \<Rightarrow> 'd" where
  "tls_sys_clk_set io clk d =
    (let (RegValue, d) = tls_reg_read32 io HR_CLK_DIV_CTL d;
         wlanDiv = drop_bit 4 RegValue AND 0x0F;
         RegValue = (RegValue AND 0xFFFFF000) OR 0x80000000;
         cpuDiv = (if clk = 1 then 4 else 2)
     in tls_reg_write32 io HR_CLK_DIV_CTL (RegValue OR push_bit 8 (wlanDiv * 4 div cpuDiv) OR push_bit 4 wlanDiv OR cpuDiv) d)"

definition tls_sys_clk_get :: "'d regs \<Rightarrow> 'd \<Rightarrow> (tls_sys_clk \<times> 'd) option" where
  "tls_sys_clk_get io d =
    (let (val, d) = tls_reg_read32 io HR_CLK_DIV_CTL d; wlan = drop_bit 4 val AND 0x0F; cpu = val AND 0x0F
     in if wlan = 0 \<or> cpu = 0 then None
        else Some (\<lparr>apbclk = 160 div 4 div wlan, cpuclk = 160 div cpu, wlanclk = 160 div wlan\<rparr>, d))"

section \<open>Timers\<close>

datatype tls_timer_unit = TLS_TIMER_UNIT_US | TLS_TIMER_UNIT_MS

record tls_timer_cfg =
  cfg_unit :: tls_timer_unit
  cfg_timeout :: u32
  cfg_is_repeat :: bool
  cfg_callback :: "nat option"
  cfg_arg :: u32

record timer_irq_context =
  tc_callback :: "nat option"
  tc_arg :: u32

record 'd hw_timers =
  tm_dev :: 'd
  wm_timer_bitmap :: u8
  timer_context :: "timer_irq_context list"

definition hw_timers_boot :: "'d \<Rightarrow> 'd hw_timers" where
  "hw_timers_boot d = \<lparr>tm_dev = d, wm_timer_bitmap = 0, timer_context = replicate 6 \<lparr>tc_callback = None, tc_arg = 0\<rparr>\<rparr>"

text \<open>One read and one write of the control register.\<close>

definition csr_update :: "'d regs \<Rightarrow> (u32 \<Rightarrow> u32) \<Rightarrow> 'd \<Rightarrow> 'd" where
  "csr_update io f d = (let (v, d) = tls_reg_read32 io HR_TIMER0_5_CSR d in tls_reg_write32 io HR_TIMER0_5_CSR (f v) d)"

definition timer_clear_irq :: "'d regs \<Rightarrow> nat \<Rightarrow> 'd hw_timers \<Rightarrow> 'd hw_timers" where
  "timer_clear_irq io timer_id s = s\<lparr>tm_dev := csr_update io (\<lambda>v. v OR TLS_TIMER_INT_CLR timer_id) (tm_dev s)\<rparr>"

definition timer_irq_callback :: "'d regs \<Rightarrow> nat \<Rightarrow> 'd hw_timers \<Rightarrow> (nat \<times> u32) option \<times> 'd hw_timers" where
  "timer_irq_callback io timer_id s =
    (let s = timer_clear_irq io timer_id s; c = timer_context s ! timer_id
     in (map_option (\<lambda>f. (f, tc_arg c)) (tc_callback c), s))"

text \<open>The handlers \<^verbatim>\<open>TIM0_IRQHandler\<close> to \<^verbatim>\<open>TIM5_IRQHandler\<close>.\<close>

definition TIM_IRQHandler :: "'d regs \<Rightarrow> nat \<Rightarrow> 'd hw_timers \<Rightarrow> ((nat \<times> u32) option \<times> 'd hw_timers) option" where
  "TIM_IRQHandler io n s = (if n < TLS_TIMER_ID_MAX then Some (timer_irq_callback io n s) else None)"

text \<open>\<^verbatim>\<open>wm_timer_bitmap & BIT(timer_id)\<close>, where the shift is defined for less than 32 places.\<close>

definition timer_used :: "u8 \<Rightarrow> nat \<Rightarrow> bool" where
  "timer_used bm i \<longleftrightarrow> (ucast bm :: u32) AND push_bit i 1 \<noteq> 0"

fun first_free :: "u8 \<Rightarrow> nat list \<Rightarrow> nat" where
  "first_free bm [] = TLS_TIMER_ID_MAX"
| "first_free bm (i # is) = (if \<not> timer_used bm i then i else first_free bm is)"

definition csr_config :: "tls_timer_cfg \<Rightarrow> nat \<Rightarrow> u32 \<Rightarrow> u32" where
  "csr_config cfg i csr =
    (let csr = (if \<not> cfg_is_repeat cfg then csr OR TLS_TIMER_ONE_TIME i else csr AND NOT (TLS_TIMER_ONE_TIME i));
         csr = (if cfg_unit cfg = TLS_TIMER_UNIT_MS then csr OR TLS_TIMER_MS_UNIT i else csr AND NOT (TLS_TIMER_MS_UNIT i))
     in csr OR TLS_TIMER_INT_CLR i)"

definition tls_timer_create :: "'d regs \<Rightarrow> tls_timer_cfg \<Rightarrow> 'd hw_timers \<Rightarrow> (nat \<times> 'd hw_timers) option" where
  "tls_timer_create io cfg s =
    (let i = first_free (wm_timer_bitmap s) [1 ..< TLS_TIMER_ID_MAX]
     in if i = TLS_TIMER_ID_MAX then Some (WM_TIMER_ID_INVALID, s)
        else let s = s\<lparr>wm_timer_bitmap := wm_timer_bitmap s OR push_bit i 1,
                       timer_context := (timer_context s)[i := \<lparr>tc_callback = cfg_callback cfg, tc_arg = cfg_arg cfg\<rparr>]\<rparr>
        in case tls_sys_clk_get io (tm_dev s) of
             None \<Rightarrow> None
           | Some (sysclk, d) \<Rightarrow>
              (let d = tls_reg_write32 io HR_TIMER_CFG (apbclk sysclk - 1) d;
                   d = csr_update io (csr_config cfg i) d;
                   d = (if cfg_timeout cfg \<noteq> 0 then tls_reg_write32 io (HR_TIMER0_PRD + 4 * word_of_nat i) (cfg_timeout cfg) d else d);
                   d = tls_irq_switch io (TIMER0_INT + i) True d
               in Some (i, s\<lparr>tm_dev := d\<rparr>)))"

text \<open>The test the other operations start with: a timer that is not handed out is left alone.\<close>

definition when_used :: "nat \<Rightarrow> 'd hw_timers \<Rightarrow> ('d hw_timers \<Rightarrow> 'd hw_timers option) \<Rightarrow> 'd hw_timers option" where
  "when_used timer_id s run =
    (if timer_id \<ge> 32 then None else if \<not> timer_used (wm_timer_bitmap s) timer_id then Some s else run s)"

definition tls_timer_start :: "'d regs \<Rightarrow> nat \<Rightarrow> 'd hw_timers \<Rightarrow> 'd hw_timers option" where
  "tls_timer_start io timer_id s = when_used timer_id s (\<lambda>s.
     Some (s\<lparr>tm_dev := csr_update io (\<lambda>v. v OR TLS_TIMER_INT_EN timer_id OR TLS_TIMER_EN timer_id) (tm_dev s)\<rparr>))"

definition tls_timer_stop :: "'d regs \<Rightarrow> nat \<Rightarrow> 'd hw_timers \<Rightarrow> 'd hw_timers option" where
  "tls_timer_stop io timer_id s = when_used timer_id s (\<lambda>s.
     Some (s\<lparr>tm_dev := csr_update io (\<lambda>v. v AND NOT (TLS_TIMER_EN timer_id))
       (csr_update io (\<lambda>v. v OR TLS_TIMER_INT_CLR timer_id) (tm_dev s))\<rparr>))"

definition tls_timer_change :: "'d regs \<Rightarrow> nat \<Rightarrow> u32 \<Rightarrow> 'd hw_timers \<Rightarrow> 'd hw_timers option" where
  "tls_timer_change io timer_id newtime s = when_used timer_id s (\<lambda>s.
     case tls_timer_stop io timer_id s of
       None \<Rightarrow> None
     | Some s \<Rightarrow> tls_timer_start io timer_id
         (if newtime \<noteq> 0 then s\<lparr>tm_dev := tls_reg_write32 io (HR_TIMER0_PRD + 4 * word_of_nat timer_id) newtime (tm_dev s)\<rparr> else s))"

definition tls_timer_destroy :: "'d regs \<Rightarrow> nat \<Rightarrow> 'd hw_timers \<Rightarrow> 'd hw_timers option" where
  "tls_timer_destroy io timer_id s = when_used timer_id s (\<lambda>s.
     case tls_timer_stop io timer_id s of
       None \<Rightarrow> None
     | Some s \<Rightarrow> Some (s\<lparr>timer_context := (timer_context s)[timer_id := \<lparr>tc_callback = None, tc_arg = 0\<rparr>],
         wm_timer_bitmap := wm_timer_bitmap s AND NOT (push_bit timer_id 1)\<rparr>))"

section \<open>Delays\<close>

text \<open>The loop that waits until timer 0 shows its interrupt.\<close>

partial_function (option) wait_timer0 :: "'d regs \<Rightarrow> 'd \<Rightarrow> 'd option" where
  "wait_timer0 io d =
    (case tls_reg_read32 io HR_TIMER0_5_CSR d of (v, d) \<Rightarrow>
       if v AND TLS_TIMER_INT_CLR 0 \<noteq> 0 then Some d else wait_timer0 io d)"

definition delay_csr :: "u32 \<Rightarrow> u32 \<Rightarrow> u32" where
  "delay_csr m_flag csr =
    (if m_flag = 1 then csr OR TLS_TIMER_MS_UNIT 0 else if m_flag = 0 then csr AND NOT (TLS_TIMER_MS_UNIT 0) else csr)
      OR TLS_TIMER_ONE_TIME 0 OR TLS_TIMER_INT_CLR 0 OR TLS_TIMER_INT_EN 0 OR TLS_TIMER_EN 0"

definition tls_delay_via_timer :: "'d regs \<Rightarrow> u32 \<Rightarrow> u32 \<Rightarrow> 'd \<Rightarrow> (int \<times> 'd) option" where
  "tls_delay_via_timer io timeout m_flag d =
    (if timeout = 0 then Some (0, d)
     else let d = tls_irq_switch io (TIMER0_INT + 0) False d;
              d = tls_reg_write32 io (HR_TIMER0_PRD + 4 * 0) timeout d
     in case tls_sys_clk_get io d of
          None \<Rightarrow> None
        | Some (sysclk, d) \<Rightarrow>
           (let d = tls_reg_write32 io HR_TIMER_CFG (apbclk sysclk - 1) d;
                (csr, d) = tls_reg_read32 io HR_TIMER0_5_CSR d;
                csr = delay_csr m_flag csr;
                d = tls_reg_write32 io HR_TIMER0_5_CSR csr d
            in case wait_timer0 io d of
                 None \<Rightarrow> None
               | Some d \<Rightarrow>
                  (let d = tls_reg_write32 io HR_TIMER0_5_CSR (csr OR TLS_TIMER_INT_CLR 0) d;
                       d = tls_irq_switch io (TIMER0_INT + 0) True d
                   in Some (0, d))))"

definition tls_msleep :: "'d regs \<Rightarrow> u32 \<Rightarrow> 'd \<Rightarrow> (int \<times> 'd) option" where
  "tls_msleep io msec d = tls_delay_via_timer io msec 1 d"

definition tls_usleep :: "'d regs \<Rightarrow> u32 \<Rightarrow> 'd \<Rightarrow> (int \<times> 'd) option" where
  "tls_usleep io usec d = tls_delay_via_timer io usec 0 d"

definition tls_sleep :: "'d regs \<Rightarrow> u32 \<Rightarrow> 'd \<Rightarrow> (int \<times> 'd) option" where
  "tls_sleep io seconds d = tls_msleep io (seconds * 1000) d"

section \<open>Sequences of operations\<close>

text \<open>The calls the driver can see, interrupts of the six timers included, one after another.\<close>

datatype timer_op = Create tls_timer_cfg | Start nat | Stop nat | Change nat u32 | Destroy nat | Interrupt nat | Delay u32 u32

fun timer_exec :: "'d regs \<Rightarrow> timer_op \<Rightarrow> 'd hw_timers \<Rightarrow> 'd hw_timers option" where
  "timer_exec io (Create cfg) s = map_option snd (tls_timer_create io cfg s)"
| "timer_exec io (Start n) s = tls_timer_start io n s"
| "timer_exec io (Stop n) s = tls_timer_stop io n s"
| "timer_exec io (Change n t) s = tls_timer_change io n t s"
| "timer_exec io (Destroy n) s = tls_timer_destroy io n s"
| "timer_exec io (Interrupt n) s = map_option snd (TIM_IRQHandler io n s)"
| "timer_exec io (Delay t m) s = map_option (\<lambda>(_, d). s\<lparr>tm_dev := d\<rparr>) (tls_delay_via_timer io t m (tm_dev s))"

fun timer_run :: "'d regs \<Rightarrow> timer_op list \<Rightarrow> 'd hw_timers \<Rightarrow> 'd hw_timers option" where
  "timer_run io [] s = Some s"
| "timer_run io (op # ops) s = (case timer_exec io op s of None \<Rightarrow> None | Some s \<Rightarrow> timer_run io ops s)"

end
