(* ===== verification/Hw_Timer_Correct.thy ===== *)
theory Hw_Timer_Correct
  imports Hw_Timer
begin

text \<open>
  Correctness of the hardware timers. The locale \<open>timer_block\<close> says what the registers do: the control register
  shows four control bits and the interrupt of each timer, writing it sets the control bits and clears the interrupts
  whose bit is written as 1, the period and clock registers keep what is written, and a running timer 0 shows
  its interrupt after finitely many reads. Shown are the allocation of timers, that an operation on one timer
  leaves the settings of the others alone, that a timer calls its owner until it is destroyed, and that delays end.
\<close>

section \<open>Bits of the control register\<close>

lemma csr_bit:
  assumes "k < 5" "m < 5" "n < 6" "i < 6"
  shows "bit (push_bit (k + 5 * i) 1 :: u32) (m + 5 * n) \<longleftrightarrow> k = m \<and> i = n"
proof -
  have "k = m \<and> i = n" if "k + 5 * i = m + 5 * n"
  proof -
    have "k = (k + 5 * i) mod 5" "m = (m + 5 * n) mod 5" using assms(1,2) by simp_all
    then have "k = m" using that by simp
    then show ?thesis using that by simp
  qed
  with assms show ?thesis by (auto simp: bit_simps)
qed

lemma csr_word_bits:
  assumes "m < 5" "n < 6" "i < 6"
  shows "bit (TLS_TIMER_MS_UNIT i) (m + 5 * n) \<longleftrightarrow> m = 0 \<and> n = i"
    "bit (TLS_TIMER_ONE_TIME i) (m + 5 * n) \<longleftrightarrow> m = 1 \<and> n = i"
    "bit (TLS_TIMER_EN i) (m + 5 * n) \<longleftrightarrow> m = 2 \<and> n = i"
    "bit (TLS_TIMER_INT_EN i) (m + 5 * n) \<longleftrightarrow> m = 3 \<and> n = i"
    "bit (TLS_TIMER_INT_CLR i) (m + 5 * n) \<longleftrightarrow> m = 4 \<and> n = i"
  using assms csr_bit [of 0 m n i] csr_bit [of 1 m n i] csr_bit [of 2 m n i] csr_bit [of 3 m n i] csr_bit [of 4 m n i]
  by (auto simp: TLS_TIMER_MS_UNIT_def TLS_TIMER_ONE_TIME_def TLS_TIMER_EN_def TLS_TIMER_INT_EN_def TLS_TIMER_INT_CLR_def)

lemma csr_pos: "k < 5 \<Longrightarrow> n < 6 \<Longrightarrow> k + 5 * n < (32 :: nat)"
  by linarith

lemmas csr_simps = csr_word_bits csr_pos bit_or_iff bit_and_iff bit_not_iff

lemma csr_config_bits:
  assumes "j < 6" "n < 6" "k < 4"
  shows "bit (csr_config cfg j v) (k + 5 * n) \<longleftrightarrow> (if n = j \<and> k = 0 then cfg_unit cfg = TLS_TIMER_UNIT_MS
    else if n = j \<and> k = 1 then \<not> cfg_is_repeat cfg else bit v (k + 5 * n))"
  using assms unfolding csr_config_def Let_def
  by (cases "cfg_is_repeat cfg"; cases "cfg_unit cfg = TLS_TIMER_UNIT_MS"; simp add: csr_simps; force)

lemma delay_csr_bits:
  assumes "n < 6" "k < 4" "n \<noteq> 0"
  shows "bit (delay_csr m v) (k + 5 * n) \<longleftrightarrow> bit v (k + 5 * n)"
  using assms by (auto simp: delay_csr_def csr_simps)

lemma delay_csr_en: "bit (delay_csr m v) 2"
  by (simp add: delay_csr_def TLS_TIMER_EN_def bit_simps)

lemma timer_used_bit: "i < 32 \<Longrightarrow> timer_used bm i \<longleftrightarrow> bit bm i"
  using bit_iff_and_push_bit_not_eq_0 [of "ucast bm :: u32" i]
  by (auto simp: timer_used_def bit_simps dest: bit_imp_le_length)

section \<open>Allocation\<close>

definition used_timers :: "'d hw_timers \<Rightarrow> nat set" where
  "used_timers s = {i. i < 32 \<and> timer_used (wm_timer_bitmap s) i}"

definition hw_timers_ok :: "'d hw_timers \<Rightarrow> bool" where
  "hw_timers_ok s \<longleftrightarrow> length (timer_context s) = 6 \<and> used_timers s \<subseteq> {1..5}
     \<and> (\<forall>i<6. i \<notin> used_timers s \<longrightarrow> tc_callback (timer_context s ! i) = None)"

lemma used_timers_bits: "used_timers s = {i. bit (wm_timer_bitmap s) i}"
proof -
  have "i < 32" if "bit (wm_timer_bitmap s) i" for i using bit_imp_le_length [OF that] by simp
  then show ?thesis by (auto simp: used_timers_def timer_used_bit)
qed

lemma used_timers_dev [simp]: "used_timers (s\<lparr>tm_dev := d\<rparr>) = used_timers s" "hw_timers_ok (s\<lparr>tm_dev := d\<rparr>) = hw_timers_ok s"
  by (simp_all add: used_timers_def hw_timers_ok_def)

lemma first_free_upt:
  assumes "a \<le> 6"
  shows "let i = first_free bm [a ..< TLS_TIMER_ID_MAX] in a \<le> i \<and> i \<le> 6 \<and> (\<forall>j\<in>{a..<i}. timer_used bm j) \<and> (i < 6 \<longrightarrow> \<not> timer_used bm i)"
  using assms
proof (induction "6 - a" arbitrary: a)
  case 0
  then show ?case by (simp add: TLS_TIMER_ID_MAX_def)
next
  case (Suc n)
  then have a: "a < 6" "n = 6 - Suc a" by auto
  show ?case
  proof (cases "timer_used bm a")
    case True
    let ?i = "first_free bm [Suc a ..< TLS_TIMER_ID_MAX]"
    have "Suc a \<le> ?i \<and> ?i \<le> 6 \<and> (\<forall>j\<in>{Suc a..<?i}. timer_used bm j) \<and> (?i < 6 \<longrightarrow> \<not> timer_used bm ?i)"
      using Suc.hyps(1) [OF a(2)] a(1) by (simp add: Let_def)
    moreover have "first_free bm [a ..< TLS_TIMER_ID_MAX] = ?i"
      using a(1) True by (simp add: TLS_TIMER_ID_MAX_def upt_conv_Cons)
    moreover have "{a..<?i} = insert a {Suc a..<?i}" using calculation(1) by auto
    ultimately show ?thesis using True by (simp add: Let_def)
  qed (use a in \<open>auto simp: TLS_TIMER_ID_MAX_def upt_conv_Cons Let_def\<close>)
qed

fun op_on :: "timer_op \<Rightarrow> nat \<Rightarrow> bool" where
  "op_on (Start i) n = (i = n)"
| "op_on (Stop i) n = (i = n)"
| "op_on (Change i t) n = (i = n)"
| "op_on (Destroy i) n = (i = n)"
| "op_on _ n = False"

section \<open>The registers\<close>

definition csr_shows :: "(nat \<Rightarrow> nat \<Rightarrow> bool) \<Rightarrow> (nat \<Rightarrow> bool) \<Rightarrow> u32 \<Rightarrow> bool" where
  "csr_shows ctl pend v \<longleftrightarrow> (\<forall>n<6. (\<forall>k<4. bit v (k + 5 * n) \<longleftrightarrow> ctl n k) \<and> (bit v (4 + 5 * n) \<longleftrightarrow> pend n))"

locale timer_block =
  fixes io :: "'d regs"
    and ctl :: "'d \<Rightarrow> nat \<Rightarrow> nat \<Rightarrow> bool"
    and pend :: "'d \<Rightarrow> nat \<Rightarrow> bool"
    and prd :: "'d \<Rightarrow> nat \<Rightarrow> u32"
    and clk :: "'d \<Rightarrow> u32"
    and left :: "'d \<Rightarrow> nat"
  assumes csr_read: "tls_reg_read32 io HR_TIMER0_5_CSR d = (v, d') \<Longrightarrow>
      csr_shows (ctl d) (pend d) v \<and> ctl d' = ctl d \<and> prd d' = prd d \<and> clk d' = clk d \<and> (\<forall>n. pend d n \<longrightarrow> pend d' n)
      \<and> (ctl d 0 2 \<longrightarrow> pend d 0 \<or> left d' < left d)"
    and csr_write: "d' = tls_reg_write32 io HR_TIMER0_5_CSR v d \<Longrightarrow>
      (\<forall>n<6. (\<forall>k<4. ctl d' n k \<longleftrightarrow> bit v (k + 5 * n)) \<and> (pend d' n \<longleftrightarrow> pend d n \<and> \<not> bit v (4 + 5 * n)))
      \<and> prd d' = prd d \<and> clk d' = clk d"
    and cfg_write: "d' = tls_reg_write32 io HR_TIMER_CFG v d \<Longrightarrow> ctl d' = ctl d \<and> prd d' = prd d \<and> pend d' = pend d \<and> clk d' = clk d"
    and prd_write: "n < 6 \<Longrightarrow> d' = tls_reg_write32 io (HR_TIMER0_PRD + 4 * word_of_nat n) v d \<Longrightarrow>
      ctl d' = ctl d \<and> prd d' = (prd d)(n := v) \<and> pend d' = pend d \<and> clk d' = clk d"
    and clk_read: "tls_reg_read32 io HR_CLK_DIV_CTL d = (v, d') \<Longrightarrow>
      v = clk d \<and> ctl d' = ctl d \<and> prd d' = prd d \<and> pend d' = pend d \<and> clk d' = clk d"
    and clk_write: "d' = tls_reg_write32 io HR_CLK_DIV_CTL v d \<Longrightarrow> clk d' = v \<and> ctl d' = ctl d \<and> prd d' = prd d \<and> pend d' = pend d"
    and irq_switch: "d' = tls_irq_switch io n b d \<Longrightarrow> ctl d' = ctl d \<and> prd d' = prd d \<and> pend d' = pend d \<and> clk d' = clk d"
begin

definition same_timer :: "'d \<Rightarrow> 'd \<Rightarrow> nat \<Rightarrow> bool" where
  "same_timer d d' n \<longleftrightarrow> (\<forall>k<4. ctl d' n k = ctl d n k) \<and> prd d' n = prd d n"

lemma csr_update_effect:
  assumes "d' = csr_update io f d"
  shows "\<exists>v. csr_shows (ctl d) (pend d) v \<and> prd d' = prd d \<and> clk d' = clk d
    \<and> (\<forall>n<6. (\<forall>k<4. ctl d' n k \<longleftrightarrow> bit (f v) (k + 5 * n)) \<and> (pend d' n \<longrightarrow> \<not> bit (f v) (4 + 5 * n)))"
proof -
  obtain v d1 where r: "tls_reg_read32 io HR_TIMER0_5_CSR d = (v, d1)" by fastforce
  show ?thesis using csr_read [OF r] csr_write [of d' "f v" d1] assms r by (auto simp: csr_update_def intro!: exI [of _ v])
qed

lemma csr_update_or:
  assumes "d' = csr_update io (\<lambda>v. v OR w) d"
  shows "\<forall>n<6. \<forall>k<4. ctl d' n k \<longleftrightarrow> ctl d n k \<or> bit w (k + 5 * n)" "\<forall>n<6. pend d n \<longrightarrow> \<not> pend d' n" "prd d' = prd d" "clk d' = clk d"
  using csr_update_effect [OF assms] by (auto simp: csr_shows_def bit_or_iff)

lemma csr_update_andnot:
  assumes "d' = csr_update io (\<lambda>v. v AND NOT w) d"
  shows "\<forall>n<6. \<forall>k<4. ctl d' n k \<longleftrightarrow> ctl d n k \<and> \<not> bit w (k + 5 * n)" "prd d' = prd d" "clk d' = clk d"
  using csr_update_effect [OF assms] by (auto simp: csr_shows_def bit_and_iff bit_not_iff csr_pos)

lemma sys_clk_get_effect:
  assumes "tls_sys_clk_get io d = Some (c, d')"
  shows "ctl d' = ctl d \<and> prd d' = prd d \<and> pend d' = pend d \<and> clk d' = clk d"
proof -
  obtain v d1 where "tls_reg_read32 io HR_CLK_DIV_CTL d = (v, d1)" by fastforce
  with clk_read [OF this] assms show ?thesis by (auto simp: tls_sys_clk_get_def Let_def split: if_splits)
qed

lemma when_used_cases:
  assumes "when_used n s run = Some s'" "hw_timers_ok s"
  obtains "n \<notin> used_timers s" "s' = s" | "n \<in> used_timers s" "1 \<le> n" "n < 6" "run s = Some s'"
proof (cases "n \<in> used_timers s")
  case True
  moreover have "1 \<le> n" "n < 6" using True assms(2) by (auto simp: hw_timers_ok_def)
  ultimately show thesis using that(2) assms(1) by (simp add: when_used_def used_timers_def split: if_splits)
qed (use that(1) assms(1) in \<open>auto simp: when_used_def used_timers_def split: if_splits\<close>)

lemma create_effect:
  assumes "tls_timer_create io cfg s = Some (i, s')" "hw_timers_ok s"
  shows "(i = WM_TIMER_ID_INVALID \<and> s' = s \<and> used_timers s = {1..5})
    \<or> (i \<in> {1..5} \<and> i \<notin> used_timers s \<and> (\<forall>j\<in>{1..<i}. j \<in> used_timers s) \<and> used_timers s' = insert i (used_timers s)
      \<and> timer_context s' = (timer_context s)[i := \<lparr>tc_callback = cfg_callback cfg, tc_arg = cfg_arg cfg\<rparr>]
      \<and> (\<forall>k<4. ctl (tm_dev s') i k \<longleftrightarrow>
           (if k = 0 then cfg_unit cfg = TLS_TIMER_UNIT_MS else if k = 1 then \<not> cfg_is_repeat cfg else ctl (tm_dev s) i k))
      \<and> prd (tm_dev s') i = (if cfg_timeout cfg \<noteq> 0 then cfg_timeout cfg else prd (tm_dev s) i)
      \<and> (\<forall>n<6. n \<noteq> i \<longrightarrow> same_timer (tm_dev s) (tm_dev s') n) \<and> clk (tm_dev s') = clk (tm_dev s))"
proof -
  define j where "j = first_free (wm_timer_bitmap s) [1 ..< TLS_TIMER_ID_MAX]"
  note cr = assms(1) [unfolded tls_timer_create_def Let_def, folded j_def]
  have j: "1 \<le> j" "j \<le> 6" "\<forall>n\<in>{1..<j}. timer_used (wm_timer_bitmap s) n" "j < 6 \<longrightarrow> \<not> timer_used (wm_timer_bitmap s) j"
    using first_free_upt [of 1 "wm_timer_bitmap s"] by (simp_all add: j_def Let_def)
  show ?thesis
  proof (cases "j = 6")
    case True
    then have "{1..5} \<subseteq> used_timers s" using j(3) by (auto simp: used_timers_def)
    then have "used_timers s = {1..5}" using assms(2) by (auto simp: hw_timers_ok_def)
    then show ?thesis using True cr by (simp add: TLS_TIMER_ID_MAX_def)
  next
    case False
    with j have r: "j \<in> {1..5}" "j \<notin> used_timers s" "\<forall>n\<in>{1..<j}. n \<in> used_timers s" "j < 6" by (auto simp: used_timers_def)
    let ?s = "s\<lparr>wm_timer_bitmap := wm_timer_bitmap s OR push_bit j 1,
      timer_context := (timer_context s)[j := \<lparr>tc_callback = cfg_callback cfg, tc_arg = cfg_arg cfg\<rparr>]\<rparr>"
    from cr False obtain c d1 where c: "tls_sys_clk_get io (tm_dev s) = Some (c, d1)"
      by (auto simp: TLS_TIMER_ID_MAX_def split: option.splits)
    define d2 where "d2 = tls_reg_write32 io HR_TIMER_CFG (apbclk c - 1) d1"
    define d3 where "d3 = csr_update io (csr_config cfg j) d2"
    define d4 where "d4 = (if cfg_timeout cfg \<noteq> 0 then tls_reg_write32 io (HR_TIMER0_PRD + 4 * word_of_nat j) (cfg_timeout cfg) d3 else d3)"
    define d5 where "d5 = tls_irq_switch io (TIMER0_INT + j) True d4"
    have s': "i = j" "s' = ?s\<lparr>tm_dev := d5\<rparr>"
      using cr False c unfolding d5_def d4_def d3_def d2_def by (auto simp: TLS_TIMER_ID_MAX_def)
    have d2: "ctl d2 = ctl (tm_dev s)" "prd d2 = prd (tm_dev s)" "clk d2 = clk (tm_dev s)"
      using cfg_write [OF d2_def] sys_clk_get_effect [OF c] by auto
    have d3: "\<forall>k<4. \<forall>n<6. ctl d3 n k \<longleftrightarrow> (if n = j \<and> k = 0 then cfg_unit cfg = TLS_TIMER_UNIT_MS
        else if n = j \<and> k = 1 then \<not> cfg_is_repeat cfg else ctl d2 n k)" "prd d3 = prd d2" "clk d3 = clk d2"
    proof -
      obtain v where v: "csr_shows (ctl d2) (pend d2) v" "\<forall>n<6. \<forall>k<4. ctl d3 n k \<longleftrightarrow> bit (csr_config cfg j v) (k + 5 * n)"
        "prd d3 = prd d2" "clk d3 = clk d2" using csr_update_effect [OF d3_def] by auto
      then show "prd d3 = prd d2" "clk d3 = clk d2" by blast+
      show "\<forall>k<4. \<forall>n<6. ctl d3 n k \<longleftrightarrow> (if n = j \<and> k = 0 then cfg_unit cfg = TLS_TIMER_UNIT_MS
          else if n = j \<and> k = 1 then \<not> cfg_is_repeat cfg else ctl d2 n k)"
        using v(1,2) r(4) by (simp add: csr_config_bits csr_shows_def)
    qed
    have d5: "ctl d5 = ctl d3" "prd d5 = (if cfg_timeout cfg \<noteq> 0 then (prd d3)(j := cfg_timeout cfg) else prd d3)" "clk d5 = clk d3"
      using irq_switch [OF d5_def] prd_write [OF r(4), of d4 "cfg_timeout cfg" d3] d4_def by auto
    have u: "used_timers s' = insert j (used_timers s)"
      unfolding s' used_timers_bits using r(4) by (auto simp: bit_simps)
    show ?thesis using r s'(1) u d2 d3 d5 by (auto simp: s'(2) same_timer_def)
  qed
qed

lemma start_effect:
  assumes "tls_timer_start io i s = Some s'" "hw_timers_ok s"
  shows "\<exists>d. s' = s\<lparr>tm_dev := d\<rparr> \<and> prd d = prd (tm_dev s) \<and> (\<forall>n<6. n \<noteq> i \<longrightarrow> same_timer (tm_dev s) d n)
    \<and> (\<forall>n<6. \<forall>k<2. ctl d n k = ctl (tm_dev s) n k) \<and> (i \<in> used_timers s \<longrightarrow> ctl d i 2 \<and> ctl d i 3)"
  using assms(1) [unfolded tls_timer_start_def] assms(2)
proof (cases rule: when_used_cases)
  case 1
  then show ?thesis by (auto intro!: exI [of _ "tm_dev s"] simp: same_timer_def)
next
  case 2
  define d where "d = csr_update io (\<lambda>v. v OR (TLS_TIMER_INT_EN i OR TLS_TIMER_EN i)) (tm_dev s)"
  have c: "prd d = prd (tm_dev s)" "\<forall>n<6. \<forall>k<4. ctl d n k \<longleftrightarrow> ctl (tm_dev s) n k \<or> bit (TLS_TIMER_INT_EN i OR TLS_TIMER_EN i) (k + 5 * n)"
    using csr_update_or [OF d_def] by auto
  then show ?thesis using 2 by (auto intro!: exI [of _ d] simp: d_def [symmetric] or.assoc same_timer_def csr_simps)
qed

lemma stop_effect:
  assumes "tls_timer_stop io i s = Some s'" "hw_timers_ok s"
  shows "\<exists>d. s' = s\<lparr>tm_dev := d\<rparr> \<and> prd d = prd (tm_dev s) \<and> (\<forall>n<6. n \<noteq> i \<longrightarrow> same_timer (tm_dev s) d n)
    \<and> (\<forall>n<6. \<forall>k<2. ctl d n k = ctl (tm_dev s) n k) \<and> (i \<in> used_timers s \<longrightarrow> \<not> ctl d i 2)"
  using assms(1) [unfolded tls_timer_stop_def] assms(2)
proof (cases rule: when_used_cases)
  case 1
  then show ?thesis by (auto intro!: exI [of _ "tm_dev s"] simp: same_timer_def)
next
  case 2
  define d1 where "d1 = csr_update io (\<lambda>v. v OR TLS_TIMER_INT_CLR i) (tm_dev s)"
  define d where "d = csr_update io (\<lambda>v. v AND NOT (TLS_TIMER_EN i)) d1"
  have "prd d = prd (tm_dev s)" "\<forall>n<6. \<forall>k<4. ctl d n k \<longleftrightarrow> ctl (tm_dev s) n k \<and> \<not> bit (TLS_TIMER_EN i) (k + 5 * n)"
    using csr_update_or [OF d1_def] csr_update_andnot [OF d_def] 2 by (auto simp: csr_simps)
  then show ?thesis using 2 by (auto intro!: exI [of _ d] simp: d_def d1_def same_timer_def csr_simps)
qed

lemma change_effect:
  assumes "tls_timer_change io i t s = Some s'" "hw_timers_ok s"
  shows "\<exists>d. s' = s\<lparr>tm_dev := d\<rparr> \<and> (\<forall>n<6. n \<noteq> i \<longrightarrow> same_timer (tm_dev s) d n) \<and> (\<forall>n<6. \<forall>k<2. ctl d n k = ctl (tm_dev s) n k)
    \<and> (i \<in> used_timers s \<longrightarrow> ctl d i 2 \<and> ctl d i 3 \<and> prd d i = (if t \<noteq> 0 then t else prd (tm_dev s) i))"
  using assms(1) [unfolded tls_timer_change_def] assms(2)
proof (cases rule: when_used_cases)
  case 1
  then show ?thesis by (auto intro!: exI [of _ "tm_dev s"] simp: same_timer_def)
next
  case 2
  then obtain s1 where s1: "tls_timer_stop io i s = Some s1" by (auto split: option.splits)
  obtain d1 where d1: "s1 = s\<lparr>tm_dev := d1\<rparr>" "prd d1 = prd (tm_dev s)" "\<forall>n<6. n \<noteq> i \<longrightarrow> same_timer (tm_dev s) d1 n"
    "\<forall>n<6. \<forall>k<2. ctl d1 n k = ctl (tm_dev s) n k" using stop_effect [OF s1 assms(2)] by blast
  define d2 where "d2 = (if t \<noteq> 0 then tls_reg_write32 io (HR_TIMER0_PRD + 4 * word_of_nat i) t d1 else d1)"
  have d2: "ctl d2 = ctl d1" "prd d2 = (if t \<noteq> 0 then (prd d1)(i := t) else prd d1)"
    using prd_write [OF 2(3), of d2 t d1] by (auto simp: d2_def)
  have "tls_timer_start io i (s\<lparr>tm_dev := d2\<rparr>) = Some s'" using 2(4) s1 d1(1) by (auto simp: d2_def split: if_splits)
  from start_effect [OF this] assms(2) obtain d where d: "s' = s\<lparr>tm_dev := d\<rparr>" "prd d = prd d2" "\<forall>n<6. n \<noteq> i \<longrightarrow> same_timer d2 d n"
    "\<forall>n<6. \<forall>k<2. ctl d n k = ctl d2 n k" "i \<in> used_timers s \<longrightarrow> ctl d i 2 \<and> ctl d i 3" by auto
  then show ?thesis using d1 d2 by (auto intro!: exI [of _ d] simp: same_timer_def)
qed

lemma destroy_effect:
  assumes "tls_timer_destroy io i s = Some s'" "hw_timers_ok s"
  shows "used_timers s' = used_timers s - {i} \<and> (\<forall>n<6. n \<noteq> i \<longrightarrow> same_timer (tm_dev s) (tm_dev s') n \<and> timer_context s' ! n = timer_context s ! n)
    \<and> hw_timers_ok s' \<and> (i \<in> used_timers s \<longrightarrow> \<not> ctl (tm_dev s') i 2)"
  using assms(1) [unfolded tls_timer_destroy_def] assms(2)
proof (cases rule: when_used_cases)
  case 1
  then show ?thesis using assms(2) by (auto simp: same_timer_def)
next
  case 2
  then obtain s1 where s1: "tls_timer_stop io i s = Some s1"
    "s' = s1\<lparr>timer_context := (timer_context s1)[i := \<lparr>tc_callback = None, tc_arg = 0\<rparr>],
       wm_timer_bitmap := wm_timer_bitmap s1 AND NOT (push_bit i 1)\<rparr>" by (auto split: option.splits)
  obtain d1 where d1: "s1 = s\<lparr>tm_dev := d1\<rparr>" "\<forall>n<6. n \<noteq> i \<longrightarrow> same_timer (tm_dev s) d1 n" "\<not> ctl d1 i 2"
    using stop_effect [OF s1(1) assms(2)] 2(1) by auto
  have u: "used_timers s' = used_timers s - {i}"
    unfolding s1(2) d1(1) used_timers_bits using 2(3) bit_imp_le_length [of "wm_timer_bitmap s"] by (auto simp: bit_simps)
  then show ?thesis using d1 s1(2) assms(2) 2(2,3) by (auto simp: hw_timers_ok_def nth_list_update)
qed

lemma interrupt_effect:
  assumes "TIM_IRQHandler io i s = Some (call, s')"
  shows "\<exists>d. s' = s\<lparr>tm_dev := d\<rparr> \<and> prd d = prd (tm_dev s) \<and> (\<forall>n<6. same_timer (tm_dev s) d n \<and> (pend (tm_dev s) n \<longrightarrow> \<not> pend d n))
    \<and> call = map_option (\<lambda>f. (f, tc_arg (timer_context s ! i))) (tc_callback (timer_context s ! i))"
proof -
  have i: "i < 6" using assms by (auto simp: TIM_IRQHandler_def TLS_TIMER_ID_MAX_def split: if_splits)
  define d where "d = csr_update io (\<lambda>v. v OR TLS_TIMER_INT_CLR i) (tm_dev s)"
  show ?thesis using csr_update_or [OF d_def] assms i
    by (auto intro!: exI [of _ d] simp: TIM_IRQHandler_def TLS_TIMER_ID_MAX_def timer_irq_callback_def timer_clear_irq_def Let_def
        d_def [symmetric] same_timer_def csr_simps)
qed

section \<open>Delays\<close>

lemma wait_timer0_ends:
  assumes "ctl d 0 2"
  shows "\<exists>d'. wait_timer0 io d = Some d' \<and> ctl d' = ctl d \<and> prd d' = prd d \<and> clk d' = clk d"
  using assms
proof (induction "left d" arbitrary: d rule: less_induct)
  case less
  obtain v d1 where r: "tls_reg_read32 io HR_TIMER0_5_CSR d = (v, d1)" by fastforce
  have b: "v AND TLS_TIMER_INT_CLR 0 \<noteq> 0 \<longleftrightarrow> pend d 0"
  proof -
    have "bit v (4 + 5 * 0) \<longleftrightarrow> pend d 0" using csr_read [OF r] by (simp only: csr_shows_def)
    then show ?thesis using bit_iff_and_push_bit_not_eq_0 [of v 4] by (simp add: TLS_TIMER_INT_CLR_def)
  qed
  show ?case
  proof (cases "pend d 0")
    case True
    then show ?thesis using r b csr_read [OF r] by (subst wait_timer0.simps) simp
  next
    case False
    then have "left d1 < left d" using csr_read [OF r] less.prems by blast
    with less.hyps [OF this] csr_read [OF r] less.prems r b False show ?thesis by (subst wait_timer0.simps) simp
  qed
qed

lemma sys_clk_get_defined:
  assumes "drop_bit 4 (clk d) AND 0x0F \<noteq> 0" "clk d AND 0x0F \<noteq> 0"
  shows "\<exists>d'. tls_sys_clk_get io d = Some (\<lparr>apbclk = 160 div 4 div (drop_bit 4 (clk d) AND 0x0F), cpuclk = 160 div (clk d AND 0x0F),
    wlanclk = 160 div (drop_bit 4 (clk d) AND 0x0F)\<rparr>, d')"
proof -
  obtain v d1 where "tls_reg_read32 io HR_CLK_DIV_CTL d = (v, d1)" by fastforce
  with clk_read [OF this] assms show ?thesis by (simp add: tls_sys_clk_get_def Let_def)
qed

lemma delay_effect:
  assumes "t \<noteq> 0" "drop_bit 4 (clk d) AND 0x0F \<noteq> 0" "clk d AND 0x0F \<noteq> 0"
  shows "\<exists>d'. tls_delay_via_timer io t m d = Some (0, d') \<and> prd d' = (prd d)(0 := t) \<and> clk d' = clk d
    \<and> (\<forall>n<6. n \<noteq> 0 \<longrightarrow> same_timer d d' n) \<and> ctl d' 0 2"
proof -
  define d1 where "d1 = tls_irq_switch io (TIMER0_INT + 0) False d"
  define d2 where "d2 = tls_reg_write32 io (HR_TIMER0_PRD + 4 * 0) t d1"
  have d2: "ctl d2 = ctl d" "prd d2 = (prd d)(0 := t)" "clk d2 = clk d"
    using irq_switch [OF d1_def] prd_write [of 0 d2 t d1] by (auto simp: d2_def)
  obtain c d3 where c: "tls_sys_clk_get io d2 = Some (c, d3)" using sys_clk_get_defined [of d2] assms(2,3) d2(3) by auto
  define d4 where "d4 = tls_reg_write32 io HR_TIMER_CFG (apbclk c - 1) d3"
  obtain v d5 where r: "tls_reg_read32 io HR_TIMER0_5_CSR d4 = (v, d5)" by fastforce
  have d5: "csr_shows (ctl d) (pend d4) v" "ctl d5 = ctl d" "prd d5 = (prd d)(0 := t)" "clk d5 = clk d"
    using csr_read [OF r] cfg_write [OF d4_def] sys_clk_get_effect [OF c] d2 by auto
  define w where "w = delay_csr m v"
  define d6 where "d6 = tls_reg_write32 io HR_TIMER0_5_CSR w d5"
  have w: "bit w 2" "\<forall>n<6. n \<noteq> 0 \<longrightarrow> (\<forall>k<4. bit w (k + 5 * n) \<longleftrightarrow> ctl d n k)"
    using delay_csr_bits [of _ _ m v] d5(1) delay_csr_en [of m v] by (auto simp: w_def csr_shows_def)
  obtain d7 where d7: "wait_timer0 io d6 = Some d7" "ctl d7 = ctl d6" "prd d7 = prd d6" "clk d7 = clk d6"
    using wait_timer0_ends [of d6] csr_write [OF d6_def] w(1) by auto
  define d8 where "d8 = tls_reg_write32 io HR_TIMER0_5_CSR (w OR TLS_TIMER_INT_CLR 0) d7"
  define d9 where "d9 = tls_irq_switch io (TIMER0_INT + 0) True d8"
  have "tls_delay_via_timer io t m d = Some (0, d9)"
    using assms(1) c r d7(1) unfolding d9_def d8_def d6_def w_def d4_def d2_def d1_def
    by (simp add: tls_delay_via_timer_def Let_def)
  moreover have "prd d9 = (prd d)(0 := t)" "clk d9 = clk d"
    using csr_write [OF d6_def] csr_write [OF d8_def] irq_switch [OF d9_def] d5 d7 by auto
  moreover have "\<forall>n<6. n \<noteq> 0 \<longrightarrow> (\<forall>k<4. ctl d9 n k = ctl d n k)" "ctl d9 0 2"
    using csr_write [OF d8_def] irq_switch [OF d9_def] w by (auto simp: csr_simps)
  ultimately show ?thesis by (auto simp: same_timer_def)
qed

lemma delay_some:
  assumes "tls_delay_via_timer io t m d = Some (r, d')"
  shows "\<forall>n<6. n \<noteq> 0 \<longrightarrow> same_timer d d' n"
proof (cases "t = 0")
  case True
  then show ?thesis using assms by (simp add: tls_delay_via_timer_def same_timer_def)
next
  case False
  define d1 where "d1 = tls_irq_switch io (TIMER0_INT + 0) False d"
  define d2 where "d2 = tls_reg_write32 io (HR_TIMER0_PRD + 4 * 0) t d1"
  have k: "clk d2 = clk d" using irq_switch [OF d1_def] prd_write [of 0 d2 t d1] by (auto simp: d2_def)
  obtain v d3 where r: "tls_reg_read32 io HR_CLK_DIV_CTL d2 = (v, d3)" by fastforce
  have "tls_sys_clk_get io d2 \<noteq> None"
    using assms False by (auto simp: tls_delay_via_timer_def Let_def d1_def d2_def split: option.splits)
  then have "drop_bit 4 (clk d) AND 0x0F \<noteq> 0" "clk d AND 0x0F \<noteq> 0"
    using clk_read [OF r] r k by (auto simp: tls_sys_clk_get_def Let_def split: if_splits)
  then show ?thesis using delay_effect [OF False, of d m] assms by auto
qed

section \<open>Sequences of operations\<close>

definition keeps :: "timer_op \<Rightarrow> 'd hw_timers \<Rightarrow> 'd hw_timers \<Rightarrow> nat \<Rightarrow> bool" where
  "keeps op s s' n \<longleftrightarrow>
    (op \<noteq> Destroy n \<longrightarrow> n \<in> used_timers s' \<and> timer_context s' ! n = timer_context s ! n \<and> (\<forall>k<2. ctl (tm_dev s') n k = ctl (tm_dev s) n k)
       \<and> ((\<forall>t. op \<noteq> Change n t) \<longrightarrow> prd (tm_dev s') n = prd (tm_dev s) n))
    \<and> (\<not> op_on op n \<longrightarrow> same_timer (tm_dev s) (tm_dev s') n)"

lemma used_range: "hw_timers_ok s \<Longrightarrow> n \<in> used_timers s \<Longrightarrow> 1 \<le> n \<and> n < 6"
  by (auto simp: hw_timers_ok_def)

lemma exec_frame:
  assumes "timer_exec io op s = Some s'" "hw_timers_ok s"
  shows "hw_timers_ok s' \<and> (\<forall>n\<in>used_timers s. keeps op s s' n)"
proof (cases op)
  case (Create cfg)
  then obtain i where c: "tls_timer_create io cfg s = Some (i, s')" using assms(1) by auto
  from create_effect [OF c assms(2)] show ?thesis
  proof (elim disjE)
    assume "i = WM_TIMER_ID_INVALID \<and> s' = s \<and> used_timers s = {1..5}"
    then show ?thesis using assms(2) by (simp add: keeps_def same_timer_def)
  next
    assume e: "i \<in> {1..5} \<and> i \<notin> used_timers s \<and> (\<forall>j\<in>{1..<i}. j \<in> used_timers s) \<and> used_timers s' = insert i (used_timers s)
      \<and> timer_context s' = (timer_context s)[i := \<lparr>tc_callback = cfg_callback cfg, tc_arg = cfg_arg cfg\<rparr>]
      \<and> (\<forall>k<4. ctl (tm_dev s') i k \<longleftrightarrow>
           (if k = 0 then cfg_unit cfg = TLS_TIMER_UNIT_MS else if k = 1 then \<not> cfg_is_repeat cfg else ctl (tm_dev s) i k))
      \<and> prd (tm_dev s') i = (if cfg_timeout cfg \<noteq> 0 then cfg_timeout cfg else prd (tm_dev s) i)
      \<and> (\<forall>n<6. n \<noteq> i \<longrightarrow> same_timer (tm_dev s) (tm_dev s') n) \<and> clk (tm_dev s') = clk (tm_dev s)"
    have "keeps op s s' n" if "n \<in> used_timers s" for n
    proof -
      have "n \<noteq> i" "n < 6" using e that used_range [OF assms(2) that] by auto
      then show ?thesis using e that by (simp add: keeps_def same_timer_def Create)
    qed
    moreover have "hw_timers_ok s'" using e assms(2) by (auto simp: hw_timers_ok_def nth_list_update)
    ultimately show ?thesis by blast
  qed
next
  case (Start i)
  then show ?thesis using start_effect [of i s s'] assms used_range [OF assms(2)] by (auto simp: keeps_def)
next
  case (Stop i)
  then show ?thesis using stop_effect [of i s s'] assms used_range [OF assms(2)] by (auto simp: keeps_def)
next
  case (Change i t)
  then show ?thesis using change_effect [of i t s s'] assms used_range [OF assms(2)] by (auto simp: keeps_def same_timer_def)
next
  case (Destroy i)
  then show ?thesis using destroy_effect [of i s s'] assms used_range [OF assms(2)] by (auto simp: keeps_def same_timer_def)
next
  case (Interrupt i)
  then show ?thesis using interrupt_effect [of i s] assms used_range [OF assms(2)] by (auto simp: keeps_def same_timer_def)
next
  case (Delay t m)
  then show ?thesis using delay_some [of t m "tm_dev s"] assms used_range [OF assms(2)] by (force simp: keeps_def same_timer_def)
qed

lemma run_frame:
  assumes "timer_run io ops s = Some s'" "hw_timers_ok s" "n \<in> used_timers s" "Destroy n \<notin> set ops"
  shows "hw_timers_ok s' \<and> n \<in> used_timers s' \<and> timer_context s' ! n = timer_context s ! n
    \<and> (\<forall>k<2. ctl (tm_dev s') n k = ctl (tm_dev s) n k)
    \<and> ((\<forall>t. Change n t \<notin> set ops) \<longrightarrow> prd (tm_dev s') n = prd (tm_dev s) n)
    \<and> ((\<forall>op\<in>set ops. \<not> op_on op n) \<longrightarrow> same_timer (tm_dev s) (tm_dev s') n)"
  using assms
proof (induction ops arbitrary: s)
  case (Cons op ops)
  then obtain s1 where s1: "timer_exec io op s = Some s1" "timer_run io ops s1 = Some s'" by (auto split: option.splits)
  have f: "hw_timers_ok s1" "keeps op s s1 n" using exec_frame [OF s1(1) Cons.prems(2)] Cons.prems(3) by auto
  then have "n \<in> used_timers s1" using Cons.prems(4) by (auto simp: keeps_def)
  from Cons.IH [OF s1(2) f(1) this] f Cons.prems(4) show ?case by (auto simp: keeps_def same_timer_def)
qed (simp add: same_timer_def)

lemma boot_ok: "hw_timers_ok (hw_timers_boot d)"
  by (simp add: hw_timers_ok_def hw_timers_boot_def used_timers_def timer_used_def)

lemma reachable_ok:
  assumes "timer_run io ops s = Some s'" "hw_timers_ok s"
  shows "hw_timers_ok s'"
  using assms by (induction ops arbitrary: s) (auto dest: exec_frame split: option.splits)

end

section \<open>A timer block\<close>

record td =
  td_csr :: u32
  td_prd :: "nat \<Rightarrow> u32"
  td_clk :: u32
  td_left :: nat

definition td_ctl_bits :: u32 where "td_ctl_bits = 0x1EF7BDEF"
definition td_pend_bits :: u32 where "td_pend_bits = 0x21084210"

definition td_io :: "td regs" where
  "td_io = \<lparr>
     tls_reg_read32 = (\<lambda>a d.
       if a = HR_TIMER0_5_CSR then (td_csr d, if td_left d = 0 then d\<lparr>td_csr := td_csr d OR TLS_TIMER_INT_CLR 0\<rparr> else d\<lparr>td_left := td_left d - 1\<rparr>)
       else (td_clk d, d)),
     tls_reg_write32 = (\<lambda>a v d.
       if a = HR_TIMER0_5_CSR then d\<lparr>td_csr := (v AND td_ctl_bits) OR (td_csr d AND NOT v AND td_pend_bits), td_left := 3\<rparr>
       else if a = HR_CLK_DIV_CTL then d\<lparr>td_clk := v\<rparr>
       else if a \<ge> HR_TIMER0_PRD then d\<lparr>td_prd := (td_prd d)(unat ((a - HR_TIMER0_PRD) div 4) := v)\<rparr>
       else d),
     tls_irq_switch = (\<lambda>n b d. d)\<rparr>"

definition td_ctl :: "td \<Rightarrow> nat \<Rightarrow> nat \<Rightarrow> bool" where
  "td_ctl d n k \<longleftrightarrow> n < 6 \<and> k < 4 \<and> bit (td_csr d) (k + 5 * n)"

definition td_pend :: "td \<Rightarrow> nat \<Rightarrow> bool" where
  "td_pend d n \<longleftrightarrow> n < 6 \<and> bit (td_csr d) (4 + 5 * n)"

lemma less_six: "n < 6 \<Longrightarrow> n = 0 \<or> n = 1 \<or> n = 2 \<or> n = 3 \<or> n = 4 \<or> n = (5 :: nat)"
  by linarith

lemma less_five: "k < 5 \<Longrightarrow> k = 0 \<or> k = 1 \<or> k = 2 \<or> k = 3 \<or> k = (4 :: nat)"
  by linarith

lemma td_masks:
  assumes "n < 6" "k < 5"
  shows "bit td_ctl_bits (k + 5 * n) \<longleftrightarrow> k < 4" "bit td_pend_bits (k + 5 * n) \<longleftrightarrow> k = 4"
  using less_six [OF assms(1)] less_five [OF assms(2)] by (elim disjE; simp add: td_ctl_bits_def td_pend_bits_def)+

lemma td_prd_addr:
  assumes "n < 6"
  shows "HR_TIMER0_PRD + 4 * word_of_nat n \<ge> HR_TIMER0_PRD" "HR_TIMER0_PRD + 4 * word_of_nat n \<noteq> HR_TIMER0_5_CSR"
    "HR_TIMER0_PRD + 4 * word_of_nat n \<noteq> HR_CLK_DIV_CTL" "unat ((HR_TIMER0_PRD + 4 * word_of_nat n - HR_TIMER0_PRD) div 4) = n"
  using less_six [OF assms] by (elim disjE; simp add: timer_consts)+

interpretation tb: timer_block td_io td_ctl td_pend td_prd td_clk "\<lambda>d. if td_pend d 0 then 0 else td_left d + 1"
proof unfold_locales
  fix d v d'
  assume "tls_reg_read32 td_io HR_TIMER0_5_CSR d = (v, d')"
  then show "csr_shows (td_ctl d) (td_pend d) v \<and> td_ctl d' = td_ctl d \<and> td_prd d' = td_prd d \<and> td_clk d' = td_clk d
      \<and> (\<forall>n. td_pend d n \<longrightarrow> td_pend d' n)
      \<and> (td_ctl d 0 2 \<longrightarrow> td_pend d 0 \<or> (if td_pend d' 0 then 0 else td_left d' + 1) < (if td_pend d 0 then 0 else td_left d + 1))"
    using csr_word_bits(5) [of 4 0 0] by (auto simp: td_io_def csr_shows_def td_ctl_def td_pend_def fun_eq_iff csr_simps split: if_splits)
next
  fix d' v d
  assume "d' = tls_reg_write32 td_io HR_TIMER0_5_CSR v d"
  then show "(\<forall>n<6. (\<forall>k<4. td_ctl d' n k = bit v (k + 5 * n)) \<and> td_pend d' n = (td_pend d n \<and> \<not> bit v (4 + 5 * n)))
      \<and> td_prd d' = td_prd d \<and> td_clk d' = td_clk d"
    by (auto simp: td_io_def td_ctl_def td_pend_def td_masks bit_or_iff bit_and_iff bit_not_iff csr_pos)
next
  fix n d' v d
  assume "n < 6" "d' = tls_reg_write32 td_io (HR_TIMER0_PRD + 4 * word_of_nat n) v d"
  then show "td_ctl d' = td_ctl d \<and> td_prd d' = (td_prd d)(n := v) \<and> td_pend d' = td_pend d \<and> td_clk d' = td_clk d"
    using td_prd_addr [of n] by (auto simp: td_io_def td_ctl_def td_pend_def fun_eq_iff)
qed (auto simp: td_io_def timer_consts td_ctl_def td_pend_def fun_eq_iff)

definition td0 :: td where
  "td0 = \<lparr>td_csr = 0, td_prd = (\<lambda>_. 0), td_clk = 0x422, td_left = 3\<rparr>"

section \<open>Properties\<close>

text \<open>In every reachable state a request for a timer returns the first of the timers 1 to 5 that is free, and 0xFF exactly when all
  five are taken, in which case nothing changes. The timer gets the mode, the function and the period of the request (the old
  period for a timeout of 0), and the settings of all other timers stay as they are.\<close>

theorem hw_timer_create_allocates:
  assumes "timer_block io ctl pend prd clk left" "timer_run io ops (hw_timers_boot d) = Some s"
    and "tls_timer_create io cfg s = Some (i, s')"
  shows "(i = WM_TIMER_ID_INVALID \<and> s' = s \<and> used_timers s = {1..5})
    \<or> (i \<in> {1..5} \<and> i \<notin> used_timers s \<and> (\<forall>j\<in>{1..<i}. j \<in> used_timers s) \<and> used_timers s' = insert i (used_timers s)
      \<and> timer_context s' = (timer_context s)[i := \<lparr>tc_callback = cfg_callback cfg, tc_arg = cfg_arg cfg\<rparr>]
      \<and> (ctl (tm_dev s') i 0 \<longleftrightarrow> cfg_unit cfg = TLS_TIMER_UNIT_MS) \<and> (ctl (tm_dev s') i 1 \<longleftrightarrow> \<not> cfg_is_repeat cfg)
      \<and> prd (tm_dev s') i = (if cfg_timeout cfg \<noteq> 0 then cfg_timeout cfg else prd (tm_dev s) i)
      \<and> (\<forall>n<6. n \<noteq> i \<longrightarrow> (\<forall>k<4. ctl (tm_dev s') n k = ctl (tm_dev s) n k) \<and> prd (tm_dev s') n = prd (tm_dev s) n))"
proof -
  have "hw_timers_ok s" by (rule timer_block.reachable_ok [OF assms(1,2) timer_block.boot_ok [OF assms(1)]])
  from timer_block.create_effect [OF assms(1,3) this] show ?thesis
    by (elim disjE) (auto simp: timer_block.same_timer_def [OF assms(1)])
qed

definition cfg1 :: tls_timer_cfg where
  "cfg1 = \<lparr>cfg_unit = TLS_TIMER_UNIT_MS, cfg_timeout = 100, cfg_is_repeat = True, cfg_callback = Some 7, cfg_arg = 42\<rparr>"

lemma td0_create:
  "\<exists>s1. tls_timer_create td_io cfg1 (hw_timers_boot td0) = Some (1, s1)"
proof -
  have "first_free 0 [Suc 0 ..< TLS_TIMER_ID_MAX] = Suc 0" by (simp add: TLS_TIMER_ID_MAX_def upt_conv_Cons timer_used_def)
  then show ?thesis
    using tb.sys_clk_get_defined [of td0]
    by (auto simp: tls_timer_create_def hw_timers_boot_def td0_def TLS_TIMER_ID_MAX_def Let_def)
qed

theorem hw_timer_create_allocates_witness:
  "\<exists>s1. tls_timer_create td_io cfg1 (hw_timers_boot td0) = Some (1, s1) \<and> used_timers s1 = {1} \<and> td_prd (tm_dev s1) 1 = 100"
proof -
  obtain s1 where s1: "tls_timer_create td_io cfg1 (hw_timers_boot td0) = Some (1, s1)" using td0_create by blast
  have "used_timers (hw_timers_boot td0) = {}" by (simp add: used_timers_def hw_timers_boot_def timer_used_def)
  with hw_timer_create_allocates [OF tb.timer_block_axioms _ s1, of "[]" td0] s1
  show ?thesis by (simp add: cfg1_def WM_TIMER_ID_INVALID_def)
qed



text \<open>The handler of one timer acknowledges the interrupts of all timers: it writes back every interrupt bit it has read, so
  an interrupt that another timer was showing is cleared although only the function of the first timer is called.\<close>

theorem hw_timer_handler_clears_all:
  assumes "timer_block io ctl pend prd clk left" "TIM_IRQHandler io i s = Some (call, s')" "n < 6" "pend (tm_dev s) n"
  shows "\<not> pend (tm_dev s') n \<and> call = map_option (\<lambda>f. (f, tc_arg (timer_context s ! i))) (tc_callback (timer_context s ! i))"
  using timer_block.interrupt_effect [OF assms(1,2)] assms(3,4) by auto

theorem hw_timer_handler_clears_all_witness:
  "\<exists>call s'. TIM_IRQHandler td_io 1 (hw_timers_boot (td0\<lparr>td_csr := TLS_TIMER_INT_CLR 2\<rparr>)) = Some (call, s')
    \<and> td_pend (td0\<lparr>td_csr := TLS_TIMER_INT_CLR 2\<rparr>) 2 \<and> \<not> td_pend (tm_dev s') 2"
proof -
  let ?s = "hw_timers_boot (td0\<lparr>td_csr := TLS_TIMER_INT_CLR 2\<rparr>)"
  have p: "td_pend (td0\<lparr>td_csr := TLS_TIMER_INT_CLR 2\<rparr>) 2" using csr_word_bits(5) [of 4 2 2] by (simp add: td_pend_def)
  obtain call s' where h: "TIM_IRQHandler td_io 1 ?s = Some (call, s')" by (cases "timer_irq_callback td_io 1 ?s") (auto simp: TIM_IRQHandler_def TLS_TIMER_ID_MAX_def)
  then show ?thesis using hw_timer_handler_clears_all [OF tb.timer_block_axioms h, of 2] p by (auto simp: hw_timers_boot_def)
qed

text \<open>A delay ends and returns 0, it leaves the settings of the timers 1 to 5 alone, and timer 0 has the period that was asked for;
  \<^verbatim>\<open>tls_sleep\<close> multiplies the seconds by 1000 in 32 bits, so that the period of a long sleep wraps around.\<close>

theorem delay_ends:
  assumes "timer_block io ctl pend prd clk left" "drop_bit 4 (clk d) AND 0x0F \<noteq> 0" "clk d AND 0x0F \<noteq> 0" "t \<noteq> 0" "seconds * 1000 \<noteq> 0"
  shows "(\<exists>d'. tls_delay_via_timer io t m d = Some (0, d') \<and> prd d' = (prd d)(0 := t)
      \<and> (\<forall>n\<in>{1..5}. \<forall>k<4. ctl d' n k = ctl d n k))
    \<and> (\<exists>d'. tls_sleep io seconds d = Some (0, d') \<and> prd d' = (prd d)(0 := seconds * 1000))"
  using timer_block.delay_effect [OF assms(1,4,2,3), of m] timer_block.delay_effect [OF assms(1,5,2,3), of 1]
  by (fastforce simp: tls_sleep_def tls_msleep_def timer_block.same_timer_def [OF assms(1)])

theorem delay_ends_witness:
  "\<exists>d'. tls_sleep td_io 4294968 td0 = Some (0, d') \<and> td_prd d' 0 = 704"
  using delay_ends [OF tb.timer_block_axioms, of td0 1 4294968 0] by (auto simp: td0_def)

text \<open>The fields of the word \<^verbatim>\<open>tls_sys_clk_set\<close> writes.\<close>

lemma nibble_mask: "(w :: u32) AND 0x0F = take_bit 4 w"
  by (simp add: take_bit_eq_mask mask_eq_exp_minus_1)

lemma high_mask_bits: "n < 12 \<Longrightarrow> \<not> bit (0xFFFFF000 :: u32) n" "n < 12 \<Longrightarrow> \<not> bit (0x80000000 :: u32) n"
proof -
  have "(0xFFFFF000 :: u32) = push_bit 12 0xFFFFF" "(0x80000000 :: u32) = push_bit 12 0x80000" by simp_all
  then show "n < 12 \<Longrightarrow> \<not> bit (0xFFFFF000 :: u32) n" "n < 12 \<Longrightarrow> \<not> bit (0x80000000 :: u32) n"
    by (simp_all only: bit_push_bit_iff) simp_all
qed

lemma clk_word:
  fixes v c w x :: u32
  assumes "c = 2 \<or> c = 4" "take_bit 4 w = w"
  defines "r \<equiv> ((v AND 0xFFFFF000) OR 0x80000000) OR push_bit 8 x OR push_bit 4 w OR c"
  shows "take_bit 4 r = c" "take_bit 4 (drop_bit 4 r) = w"
proof -
  have c: "bit c n \<Longrightarrow> n < 4" for n
    using assms(1) by (auto simp: bit_numeral_rec bit_1_iff split: nat.splits)
  have w: "bit w n \<Longrightarrow> n < 4" for n using assms(2) by (metis bit_take_bit_iff)
  show "take_bit 4 r = c"
    by (rule bit_word_eqI) (use c in \<open>auto simp: r_def bit_take_bit_iff bit_or_iff bit_and_iff bit_push_bit_iff high_mask_bits\<close>)
  show "take_bit 4 (drop_bit 4 r) = w"
    by (rule bit_word_eqI)
      (use c w in \<open>fastforce simp: r_def bit_take_bit_iff bit_drop_bit_eq bit_or_iff bit_and_iff bit_push_bit_iff high_mask_bits\<close>)
qed

text \<open>Setting the CPU clock has the effect that is read back: 40 MHz for \<^verbatim>\<open>CPU_CLK_40M\<close> and 80 MHz for every other argument, while the
  clock of the radio and the peripheral clock, from which the timers count, stay as they are.\<close>

theorem cpu_clock_set_get:
  assumes "timer_block io ctl pend prd clk left" "tls_sys_clk_get io d = Some (c, d1)"
  shows "\<exists>d2. tls_sys_clk_get io (tls_sys_clk_set io sel d) = Some (c\<lparr>cpuclk := if sel = 1 then 40 else 80\<rparr>, d2)"
proof -
  obtain v d3 where r: "tls_reg_read32 io HR_CLK_DIV_CTL d = (v, d3)" by fastforce
  define cd :: u32 where "cd = (if sel = 1 then 4 else 2)"
  define w where "w = take_bit 4 (drop_bit 4 v)"
  have c: "w \<noteq> 0" "c = \<lparr>apbclk = 160 div 4 div w, cpuclk = 160 div take_bit 4 v, wlanclk = 160 div w\<rparr>"
    using assms(2) r by (auto simp: tls_sys_clk_get_def Let_def nibble_mask w_def split: if_splits)
  let ?d = "tls_sys_clk_set io sel d"
  have "clk ?d = ((v AND 0xFFFFF000) OR 0x80000000) OR push_bit 8 (w * 4 div cd) OR push_bit 4 w OR cd"
    using timer_block.clk_write [OF assms(1), of _ _ d3] r by (simp add: tls_sys_clk_set_def Let_def nibble_mask w_def cd_def)
  then have k: "take_bit 4 (clk ?d) = cd" "take_bit 4 (drop_bit 4 (clk ?d)) = w"
    using clk_word [of cd w v "w * 4 div cd"] by (auto simp: cd_def w_def)
  have "\<exists>d2. tls_sys_clk_get io ?d = Some (\<lparr>apbclk = 160 div 4 div w, cpuclk = 160 div cd, wlanclk = 160 div w\<rparr>, d2)"
    using timer_block.sys_clk_get_defined [OF assms(1), of ?d] c(1) by (simp add: nibble_mask k) (simp add: cd_def)
  then show ?thesis using c(2) by (auto simp: cd_def)
qed

theorem cpu_clock_set_get_witness:
  "\<exists>c d1 d2. tls_sys_clk_get td_io td0 = Some (c, d1) \<and> tls_sys_clk_get td_io (tls_sys_clk_set td_io 1 td0) = Some (c\<lparr>cpuclk := 40\<rparr>, d2)
    \<and> apbclk c = 20"
proof -
  obtain c d1 where c: "tls_sys_clk_get td_io td0 = Some (c, d1)" "apbclk c = 20"
    using tb.sys_clk_get_defined [of td0] by (auto simp: td0_def)
  then show ?thesis using cpu_clock_set_get [OF tb.timer_block_axioms c(1), of 1] by auto
qed

end
