(* ===== verification/Dma.thy ===== *)
theory Dma
  imports Hw_Timer
begin

text \<open>
  The DMA driver, \<^verbatim>\<open>src/Platform/Drivers/dma/wm_dma.c\<close>: eight channels that are handed out, started and stopped, and
  the callbacks of their interrupts. The registers are the parameter \<open>io\<close>, as for the timers; the delay of the operating
  system is the parameter \<open>wait\<close>. The two static tables are the record \<open>dma\<close>, with the device; drivers that use
  DMA extend it. The result \<open>None\<close> is an access outside the tables, a shift that is undefined, a null
  descriptor or a loop that does not end.
\<close>

record dma_irq_context =
  irq_flags :: u8
  burst_done_pf :: "nat option"
  burst_done_priv :: u32
  transfer_done_pf :: "nat option"
  transfer_done_priv :: u32

record 'd dma =
  dev :: 'd
  dma_context :: "dma_irq_context list"
  channels :: "u8 list"

record tls_dma_descriptor =
  desc_valid :: u32
  dma_ctrl :: u32
  src_addr :: u32
  dest_addr :: u32

definition dma_boot :: "'d \<Rightarrow> 'd dma" where
  "dma_boot d = \<lparr>dev = d, dma_context = replicate 8 \<lparr>irq_flags = 0, burst_done_pf = None, burst_done_priv = 0,
     transfer_done_pf = None, transfer_done_priv = 0\<rparr>, channels = replicate 8 0\<rparr>"

definition HR_DMA_INT_MASK :: u32 where "HR_DMA_INT_MASK = 0x40000400"
definition HR_DMA_INT_SRC :: u32 where "HR_DMA_INT_SRC = 0x40000404"
definition HR_DMA_CHNL_SEL :: u32 where "HR_DMA_CHNL_SEL = 0x40000408"
definition DMA_CHNL_REG_BASE :: u32 where "DMA_CHNL_REG_BASE = 0x40000410"
definition DMA_SRCADDR_REG :: "nat \<Rightarrow> u32" where "DMA_SRCADDR_REG ch = DMA_CHNL_REG_BASE + 0x30 * word_of_nat ch + 0x00"
definition DMA_DESTADDR_REG :: "nat \<Rightarrow> u32" where "DMA_DESTADDR_REG ch = DMA_CHNL_REG_BASE + 0x30 * word_of_nat ch + 0x04"
definition DMA_SRCWRAPADDR_REG :: "nat \<Rightarrow> u32" where "DMA_SRCWRAPADDR_REG ch = DMA_CHNL_REG_BASE + 0x30 * word_of_nat ch + 0x08"
definition DMA_DESTWRAPADDR_REG :: "nat \<Rightarrow> u32" where "DMA_DESTWRAPADDR_REG ch = DMA_CHNL_REG_BASE + 0x30 * word_of_nat ch + 0x0C"
definition DMA_WRAPSIZE_REG :: "nat \<Rightarrow> u32" where "DMA_WRAPSIZE_REG ch = DMA_CHNL_REG_BASE + 0x30 * word_of_nat ch + 0x10"
definition DMA_CHNLCTRL_REG :: "nat \<Rightarrow> u32" where "DMA_CHNLCTRL_REG ch = DMA_CHNL_REG_BASE + 0x30 * word_of_nat ch + 0x14"
definition DMA_MODE_REG :: "nat \<Rightarrow> u32" where "DMA_MODE_REG ch = DMA_CHNL_REG_BASE + 0x30 * word_of_nat ch + 0x18"
definition DMA_CTRL_REG :: "nat \<Rightarrow> u32" where "DMA_CTRL_REG ch = DMA_CHNL_REG_BASE + 0x30 * word_of_nat ch + 0x1C"

definition DMA_CHNL_CTRL_CHNL_ON :: u32 where "DMA_CHNL_CTRL_CHNL_ON = 1"
definition DMA_CHNL_CTRL_CHNL_OFF :: u32 where "DMA_CHNL_CTRL_CHNL_OFF = 2"
definition TLS_DMA_FLAGS_CHANNEL_VALID :: u8 where "TLS_DMA_FLAGS_CHANNEL_VALID = 0x80"
definition TLS_DMA_FLAGS_HARD_MODE :: u8 where "TLS_DMA_FLAGS_HARD_MODE = 1"
definition TLS_DMA_FLAGS_CHANNEL_SEL :: "u8 \<Rightarrow> u8" where "TLS_DMA_FLAGS_CHANNEL_SEL n = push_bit 2 n"
definition TLS_DMA_IRQ_BURST_DONE :: u8 where "TLS_DMA_IRQ_BURST_DONE = 1"
definition TLS_DMA_IRQ_TRANSFER_DONE :: u8 where "TLS_DMA_IRQ_TRANSFER_DONE = 2"
definition TLS_DMA_IRQ_BOTH_DONE :: u8 where "TLS_DMA_IRQ_BOTH_DONE = TLS_DMA_IRQ_BURST_DONE OR TLS_DMA_IRQ_TRANSFER_DONE"
definition DMA0_INT :: nat where "DMA0_INT = 13"

lemmas dma_regs = HR_DMA_INT_MASK_def HR_DMA_INT_SRC_def HR_DMA_CHNL_SEL_def DMA_CHNL_REG_BASE_def DMA_SRCADDR_REG_def
  DMA_DESTADDR_REG_def DMA_SRCWRAPADDR_REG_def DMA_DESTWRAPADDR_REG_def DMA_WRAPSIZE_REG_def DMA_CHNLCTRL_REG_def
  DMA_MODE_REG_def DMA_CTRL_REG_def
lemmas dma_flags = DMA_CHNL_CTRL_CHNL_ON_def DMA_CHNL_CTRL_CHNL_OFF_def TLS_DMA_FLAGS_CHANNEL_VALID_def TLS_DMA_FLAGS_HARD_MODE_def
  TLS_DMA_FLAGS_CHANNEL_SEL_def TLS_DMA_IRQ_BURST_DONE_def TLS_DMA_IRQ_TRANSFER_DONE_def TLS_DMA_IRQ_BOTH_DONE_def DMA0_INT_def

text \<open>Reads, writes and read-modify-writes of one register.\<close>

definition reg_get :: "'d regs \<Rightarrow> u32 \<Rightarrow> ('d, 'z) dma_scheme \<Rightarrow> u32 \<times> ('d, 'z) dma_scheme" where
  "reg_get io a s = (let (v, d) = tls_reg_read32 io a (dev s) in (v, s\<lparr>dev := d\<rparr>))"

definition reg_set :: "'d regs \<Rightarrow> u32 \<Rightarrow> u32 \<Rightarrow> ('d, 'z) dma_scheme \<Rightarrow> ('d, 'z) dma_scheme" where
  "reg_set io a v s = s\<lparr>dev := tls_reg_write32 io a v (dev s)\<rparr>"

definition reg_upd :: "'d regs \<Rightarrow> u32 \<Rightarrow> (u32 \<Rightarrow> u32) \<Rightarrow> ('d, 'z) dma_scheme \<Rightarrow> ('d, 'z) dma_scheme" where
  "reg_upd io a f s = (let (v, s) = reg_get io a s in reg_set io a (f v) s)"

definition irq_enable :: "'d regs \<Rightarrow> nat \<Rightarrow> bool \<Rightarrow> ('d, 'z) dma_scheme \<Rightarrow> ('d, 'z) dma_scheme" where
  "irq_enable io n b s = s\<lparr>dev := tls_irq_switch io n b (dev s)\<rparr>"

section \<open>Interrupts\<close>

text \<open>\<open>flags << 2 * ch\<close> on \<^verbatim>\<open>int\<close>: undefined when a bit is shifted out of its 31 value bits.\<close>

definition irq_bits :: "u8 \<Rightarrow> nat \<Rightarrow> u32" where
  "irq_bits flags ch = push_bit (2 * ch) (ucast flags)"

definition tls_dma_irq_clr :: "'d regs \<Rightarrow> nat \<Rightarrow> u8 \<Rightarrow> ('d, 'z) dma_scheme \<Rightarrow> ('d, 'z) dma_scheme option" where
  "tls_dma_irq_clr io ch flags s =
    (if 32 \<le> 2 * ch \<or> 2 ^ 31 \<le> unat flags * 2 ^ (2 * ch) then None else Some (reg_set io HR_DMA_INT_SRC (irq_bits flags ch) s))"

text \<open>Channels 4 to 7 share a handler, which looks for the first of them with a pending interrupt.\<close>

fun pending_channel :: "u32 \<Rightarrow> nat list \<Rightarrow> nat" where
  "pending_channel int_src [] = 8"
| "pending_channel int_src (ch # chs) =
    (if int_src AND irq_bits TLS_DMA_IRQ_BOTH_DONE ch \<noteq> 0 then ch else pending_channel int_src chs)"

definition dma_irq_call :: "u32 \<Rightarrow> nat \<Rightarrow> dma_irq_context \<Rightarrow> (nat \<times> u32) option option" where
  "dma_irq_call int_src ch c =
    (if int_src AND irq_bits TLS_DMA_IRQ_BOTH_DONE ch \<noteq> 0 \<and> irq_flags c = TLS_DMA_IRQ_BOTH_DONE then
       Some (map_option (\<lambda>f. (f, burst_done_priv c)) (burst_done_pf c))
     else if int_src AND irq_bits TLS_DMA_IRQ_BURST_DONE ch \<noteq> 0 \<and> irq_flags c = TLS_DMA_IRQ_BURST_DONE then
       Some (map_option (\<lambda>f. (f, burst_done_priv c)) (burst_done_pf c))
     else if int_src AND irq_bits TLS_DMA_IRQ_TRANSFER_DONE ch \<noteq> 0 \<and> irq_flags c = TLS_DMA_IRQ_TRANSFER_DONE then
       Some (map_option (\<lambda>f. (f, transfer_done_priv c)) (transfer_done_pf c))
     else None)"

text \<open>The handlers of channels 0 to 3 and of the group (4); the result is the call that is made.\<close>

definition dma_irq_proc :: "'d regs \<Rightarrow> nat \<Rightarrow> ('d, 'z) dma_scheme \<Rightarrow> ((nat \<times> u32) option \<times> ('d, 'z) dma_scheme) option" where
  "dma_irq_proc io p s =
    (let (int_src, s) = reg_get io HR_DMA_INT_SRC s;
         ch = (if p > 3 then pending_channel int_src [4..<8] else p)
     in if ch = 8 then Some (None, s)
        else case dma_irq_call int_src ch (dma_context s ! ch) of
          None \<Rightarrow> Some (None, s)
        | Some call \<Rightarrow> map_option (Pair call) (tls_dma_irq_clr io ch TLS_DMA_IRQ_BOTH_DONE s))"

definition tls_dma_irq_register :: "'d regs \<Rightarrow> nat \<Rightarrow> nat option \<Rightarrow> u32 \<Rightarrow> u8 \<Rightarrow> ('d, 'z) dma_scheme \<Rightarrow> ('d, 'z) dma_scheme option" where
  "tls_dma_irq_register io ch callback arg flags s =
    (if ch > 7 then None
     else let s = reg_upd io HR_DMA_INT_MASK (\<lambda>m. (m OR irq_bits TLS_DMA_IRQ_BOTH_DONE ch) AND NOT (irq_bits flags ch)) s;
              c = (dma_context s ! ch)\<lparr>irq_flags := flags\<rparr>;
              c = (if flags AND TLS_DMA_IRQ_BURST_DONE \<noteq> 0 then c\<lparr>burst_done_pf := callback, burst_done_priv := arg\<rparr> else c);
              c = (if flags AND TLS_DMA_IRQ_TRANSFER_DONE \<noteq> 0 then c\<lparr>transfer_done_pf := callback, transfer_done_priv := arg\<rparr> else c);
              s = s\<lparr>dma_context := (dma_context s)[ch := c]\<rparr>
     in Some (irq_enable io (DMA0_INT + (if ch > 3 then 4 else ch)) True s))"

section \<open>Transfers\<close>

text \<open>The wait gives up after more than 500 ticks.\<close>

function wait_complt :: "'d regs \<Rightarrow> (nat \<Rightarrow> 'd \<Rightarrow> 'd) \<Rightarrow> nat \<Rightarrow> nat \<Rightarrow> ('d, 'z) dma_scheme \<Rightarrow> int \<times> ('d, 'z) dma_scheme" where
  "wait_complt io wait ch timeout s =
    (let (v, s) = reg_get io (DMA_CHNLCTRL_REG ch) s
     in if v AND DMA_CHNL_CTRL_CHNL_ON = 0 then (0, s)
        else let s = s\<lparr>dev := wait 1 (dev s)\<rparr>
        in if timeout + 1 > 500 then (-1, s) else wait_complt io wait ch (timeout + 1) s)"
  by pat_completeness auto
termination by (relation "measure (\<lambda>(_, _, _, t, _). 501 - t)") auto

declare wait_complt.simps [simp del]

definition tls_dma_wait_complt :: "'d regs \<Rightarrow> (nat \<Rightarrow> 'd \<Rightarrow> 'd) \<Rightarrow> nat \<Rightarrow> ('d, 'z) dma_scheme \<Rightarrow> int \<times> ('d, 'z) dma_scheme" where
  "tls_dma_wait_complt io wait ch s = wait_complt io wait ch 0 s"

definition tls_dma_start_by_wrap ::
    "'d regs \<Rightarrow> nat \<Rightarrow> tls_dma_descriptor option \<Rightarrow> bool \<Rightarrow> u16 \<Rightarrow> u16 \<Rightarrow> ('d, 'z) dma_scheme \<Rightarrow> (int \<times> ('d, 'z) dma_scheme) option" where
  "tls_dma_start_by_wrap io ch dma_desc auto_reload src_zize dest_zize s =
    (if ch > 7 \<and> dma_desc = None then Some (1, s)
     else case dma_desc of None \<Rightarrow> None
     | Some desc \<Rightarrow>
        (if dest_zize AND 0x8000 \<noteq> 0 then None
         else let s = reg_set io (DMA_SRCWRAPADDR_REG ch) (src_addr desc) s;
                  s = reg_set io (DMA_DESTWRAPADDR_REG ch) (dest_addr desc) s;
                  s = reg_set io (DMA_WRAPSIZE_REG ch) (push_bit 16 (ucast dest_zize) OR ucast src_zize) s;
                  s = reg_set io (DMA_CTRL_REG ch) (push_bit 1 (dma_ctrl desc AND 0x1ffff) OR (if auto_reload then 1 else 0)) s
         in Some (0, reg_upd io (DMA_CHNLCTRL_REG ch) (\<lambda>v. v OR DMA_CHNL_CTRL_CHNL_ON) s)))"

definition tls_dma_start :: "'d regs \<Rightarrow> nat \<Rightarrow> tls_dma_descriptor option \<Rightarrow> bool \<Rightarrow> ('d, 'z) dma_scheme \<Rightarrow> (int \<times> ('d, 'z) dma_scheme) option" where
  "tls_dma_start io ch dma_desc auto_reload s =
    (if ch > 7 \<and> dma_desc = None then Some (1, s)
     else case dma_desc of None \<Rightarrow> None
     | Some desc \<Rightarrow>
        (let s = reg_set io (DMA_SRCADDR_REG ch) (src_addr desc) s;
             s = reg_set io (DMA_DESTADDR_REG ch) (dest_addr desc) s;
             s = reg_set io (DMA_CTRL_REG ch) (push_bit 1 (dma_ctrl desc AND 0x7fffff) OR (if auto_reload then 1 else 0)) s
         in Some (0, reg_upd io (DMA_CHNLCTRL_REG ch) (\<lambda>v. v OR DMA_CHNL_CTRL_CHNL_ON) s)))"

partial_function (option) wait_off :: "'d regs \<Rightarrow> nat \<Rightarrow> ('d, 'z) dma_scheme \<Rightarrow> ('d, 'z) dma_scheme option" where
  "wait_off io ch s =
    (let (v, s) = reg_get io (DMA_CHNLCTRL_REG ch) s
     in if v AND DMA_CHNL_CTRL_CHNL_ON \<noteq> 0 then wait_off io ch s else Some s)"

definition tls_dma_stop :: "'d regs \<Rightarrow> nat \<Rightarrow> ('d, 'z) dma_scheme \<Rightarrow> (int \<times> ('d, 'z) dma_scheme) option" where
  "tls_dma_stop io ch s =
    (if ch > 7 then Some (1, s)
     else let (v, s) = reg_get io (DMA_CHNLCTRL_REG ch) s
     in if v AND DMA_CHNL_CTRL_CHNL_ON \<noteq> 0
        then map_option (Pair 0) (wait_off io ch (reg_upd io (DMA_CHNLCTRL_REG ch) (\<lambda>v. v OR DMA_CHNL_CTRL_CHNL_OFF) s))
        else Some (0, s))"

section \<open>Channels\<close>

definition channel_valid :: "('d, 'z) dma_scheme \<Rightarrow> nat \<Rightarrow> bool" where
  "channel_valid s ch \<longleftrightarrow> channels s ! ch AND TLS_DMA_FLAGS_CHANNEL_VALID \<noteq> 0"

text \<open>The search for a free channel; without one it ends at 8, and channel 0 is taken.\<close>

fun free_channel :: "('d, 'z) dma_scheme \<Rightarrow> nat list \<Rightarrow> nat" where
  "free_channel s [] = 0"
| "free_channel s (i # is) = (if \<not> channel_valid s i then i else free_channel s is)"

definition tls_dma_request :: "'d regs \<Rightarrow> nat \<Rightarrow> u8 \<Rightarrow> ('d, 'z) dma_scheme \<Rightarrow> nat \<times> ('d, 'z) dma_scheme" where
  "tls_dma_request io ch flags s =
    (let freeCh = (if ch = 0 then free_channel s [0..<8]
                   else if ch < 8 then (if \<not> channel_valid s ch then ch else 0)
                   else 0);
         s = s\<lparr>channels := (channels s)[freeCh := flags OR TLS_DMA_FLAGS_CHANNEL_VALID]\<rparr>
     in (freeCh, reg_set io (DMA_MODE_REG freeCh) (ucast flags) s))"

definition tls_dma_free :: "'d regs \<Rightarrow> nat \<Rightarrow> ('d, 'z) dma_scheme \<Rightarrow> ('d, 'z) dma_scheme option" where
  "tls_dma_free io ch s =
    (if ch < 8 then
       (case tls_dma_stop io ch s of
          None \<Rightarrow> None
        | Some (_, s) \<Rightarrow>
           (let s = reg_set io (DMA_SRCADDR_REG ch) 0 s;
                s = reg_set io (DMA_DESTADDR_REG ch) 0 s;
                s = reg_set io (DMA_MODE_REG ch) 0 s;
                s = reg_set io (DMA_CTRL_REG ch) 0 s;
                s = reg_upd io HR_DMA_INT_SRC (\<lambda>v. v OR push_bit (ch * 2) 3) s
            in Some (s\<lparr>channels := (channels s)[ch := 0]\<rparr>)))
     else Some s)"

definition tls_dma_init :: "'d regs \<Rightarrow> ('d, 'z) dma_scheme \<Rightarrow> ('d, 'z) dma_scheme" where
  "tls_dma_init io s = reg_set io HR_DMA_INT_SRC 0xffff (reg_set io HR_DMA_INT_MASK 0xffff s)"

end
