(* ===== verification/Dma_Correct.thy ===== *)
theory Dma_Correct
  imports Dma
begin

text \<open>
  Correctness of the DMA driver: the table of channels refines a set of channels in use, with an allocator that falls
  back on channel 0, and an interrupt reaches the callback that was registered for its channel.
\<close>

section \<open>Frames\<close>

lemma dma_frames [simp]:
  "channels (snd (reg_get io a s)) = channels s" "dma_context (snd (reg_get io a s)) = dma_context s"
  "channels (reg_set io a v s) = channels s" "dma_context (reg_set io a v s) = dma_context s"
  "channels (reg_upd io a f s) = channels s" "dma_context (reg_upd io a f s) = dma_context s"
  "channels (irq_enable io n b s) = channels s" "dma_context (irq_enable io n b s) = dma_context s"
  by (simp_all add: reg_get_def reg_set_def reg_upd_def irq_enable_def split_beta)

definition tables :: "('d, 'z) dma_scheme \<Rightarrow> dma_irq_context list \<times> u8 list" where
  "tables s = (dma_context s, channels s)"

lemma tables_regs [simp]: "tables (snd (reg_get io a s)) = tables s" "tables (reg_set io a v s) = tables s" "tables (reg_upd io a f s) = tables s"
  "tables (irq_enable io n b s) = tables s"
  by (simp_all add: tables_def)

lemma wait_off_tables:
  assumes "wait_off io ch s = Some s'"
  shows "tables s' = tables s"
proof (rule wait_off.raw_induct [OF _ assms])
  fix loop :: "'d regs \<Rightarrow> nat \<Rightarrow> ('d, 'z) dma_scheme \<Rightarrow> ('d, 'z) dma_scheme option" and io ch s y
  assume IH: "\<And>io ch s y. loop io ch s = Some y \<Longrightarrow> tables y = tables s"
    and r: "(let (v, s) = reg_get io (DMA_CHNLCTRL_REG ch) s in if v AND DMA_CHNL_CTRL_CHNL_ON \<noteq> 0 then loop io ch s else Some s) = Some y"
  have "tables y = tables (snd (reg_get io (DMA_CHNLCTRL_REG ch) s))" using r IH by (auto simp: split_beta split: if_splits)
  then show "tables y = tables s" by simp
qed

lemma tls_dma_stop_tables: "tls_dma_stop io ch s = Some (r, s') \<Longrightarrow> tables s' = tables s"
  using wait_off_tables by (fastforce simp: tls_dma_stop_def split_beta Let_def split: if_splits)

lemma channels_of_tables: "tables s' = tables s \<Longrightarrow> channels s' = channels s \<and> dma_context s' = dma_context s"
  by (simp add: tables_def)

section \<open>Channels in use\<close>

definition held :: "('d, 'z) dma_scheme \<Rightarrow> nat set" where
  "held s = {ch. ch < 8 \<and> channel_valid s ch}"

text \<open>The abstract allocator: the channel a request gets when the channels of a set are in use.\<close>

definition grant :: "nat set \<Rightarrow> nat \<Rightarrow> nat" where
  "grant H ch = (if ch = 0 then (case filter (\<lambda>i. i \<notin> H) [0..<8] of [] \<Rightarrow> 0 | i # _ \<Rightarrow> i) else if ch < 8 \<and> ch \<notin> H then ch else 0)"

lemma free_channel_filter: "free_channel s is = (case filter (\<lambda>i. \<not> channel_valid s i) is of [] \<Rightarrow> 0 | i # _ \<Rightarrow> i)"
  by (induction "is") auto

lemma grant_held:
  "(if ch = 0 then free_channel s [0..<8] else if ch < 8 then (if \<not> channel_valid s ch then ch else 0) else 0) = grant (held s) ch"
proof -
  have "filter (\<lambda>i. i \<notin> held s) [0..<8] = filter (\<lambda>i. \<not> channel_valid s i) [0..<8]" by (rule filter_cong) (auto simp: held_def)
  then show ?thesis by (simp add: grant_def free_channel_filter held_def)
qed

lemma grant_less: "grant H ch < 8"
proof -
  define free where "free = filter (\<lambda>i. i \<notin> H) [0..<8]"
  have "set free \<subseteq> {0..<8}" by (auto simp: free_def)
  then show ?thesis unfolding grant_def free_def [symmetric] by (cases free) auto
qed

text \<open>A channel that is in use is granted again only as a last resort, and then it is channel 0.\<close>

lemma grant_free:
  assumes "grant H ch \<in> H"
  shows "grant H ch = 0 \<and> (if ch = 0 then {..<8} \<subseteq> H else 8 \<le> ch \<or> ch \<in> H)"
proof (cases "ch = 0")
  case True
  show ?thesis
  proof (cases "filter (\<lambda>i. i \<notin> H) [0..<8]")
    case Nil
    then show ?thesis using True by (auto simp: grant_def filter_empty_conv)
  next
    case (Cons i xs)
    then have "i \<notin> H" by (metis (mono_tags, lifting) list.set_intros(1) mem_Collect_eq set_filter)
    then show ?thesis using assms True Cons by (simp add: grant_def)
  qed
qed (use assms in \<open>auto simp: grant_def split: if_splits\<close>)

lemma or_mask_valid: "(f OR v) AND v = (v :: u8)"
  by (intro bit_word_eqI) (auto simp: bit_simps)

lemma held_granted: "c < length (channels s) \<Longrightarrow> c < 8 \<Longrightarrow> held (s\<lparr>channels := (channels s)[c := f OR TLS_DMA_FLAGS_CHANNEL_VALID]\<rparr>) = insert c (held s)"
  by (auto simp: held_def channel_valid_def nth_list_update or_mask_valid) (simp_all add: dma_flags)

lemma held_freed: "c < length (channels s) \<Longrightarrow> held (s\<lparr>channels := (channels s)[c := 0]\<rparr>) = held s - {c}"
  by (auto simp: held_def channel_valid_def nth_list_update)

lemma held_cong: "channels s = channels t \<Longrightarrow> held s = held t"
  by (simp add: held_def channel_valid_def)

lemma tls_dma_request_grants:
  assumes "length (channels s) = 8" "tls_dma_request io ch flags s = (c, s')"
  shows "c = grant (held s) ch" "held s' = insert c (held s)" "length (channels s') = 8" "dma_context s' = dma_context s"
    "channels s' = (channels s)[c := flags OR TLS_DMA_FLAGS_CHANNEL_VALID]"
proof -
  have r: "c = grant (held s) ch" "s' = reg_set io (DMA_MODE_REG c) (ucast flags) (s\<lparr>channels := (channels s)[c := flags OR TLS_DMA_FLAGS_CHANNEL_VALID]\<rparr>)"
    using assms(2) by (auto simp: tls_dma_request_def grant_held Let_def)
  then show "c = grant (held s) ch" "length (channels s') = 8" "dma_context s' = dma_context s"
    "channels s' = (channels s)[c := flags OR TLS_DMA_FLAGS_CHANNEL_VALID]" using assms(1) by simp_all
  have "held s' = held (s\<lparr>channels := (channels s)[c := flags OR TLS_DMA_FLAGS_CHANNEL_VALID]\<rparr>)" using r(2) by (intro held_cong) simp
  then show "held s' = insert c (held s)" using held_granted [of c s] r(1) grant_less assms(1) by metis
qed

lemma tls_dma_free_releases:
  assumes "length (channels s) = 8" "tls_dma_free io ch s = Some s'"
  shows "held s' = held s - {ch} \<and> length (channels s') = 8"
proof (cases "ch < 8")
  case True
  then obtain r s1 where s1: "tls_dma_stop io ch s = Some (r, s1)" using assms(2) by (cases "tls_dma_stop io ch s") (auto simp: tls_dma_free_def)
  have c: "channels s1 = channels s" using channels_of_tables [OF tls_dma_stop_tables [OF s1]] by simp
  have "channels s' = (channels s1)[ch := 0]" using assms(2) s1 True by (auto simp: tls_dma_free_def Let_def)
  then have "held s' = held (s\<lparr>channels := (channels s)[ch := 0]\<rparr>)" "length (channels s') = 8" using c assms(1) by (simp_all add: held_def channel_valid_def)
  then show ?thesis using held_freed [of ch s] True assms(1) by simp
next
  case False
  then show ?thesis using assms by (auto simp: tls_dma_free_def held_def)
qed

section \<open>Runs\<close>

datatype dma_op =
    Request nat u8
  | Free nat
  | Register nat "nat option" u32 u8
  | Start nat "tls_dma_descriptor option" bool
  | Start_wrap nat "tls_dma_descriptor option" bool u16 u16
  | Stop nat
  | Wait nat
  | Handler nat

definition op_result :: "('r \<times> 's) option \<Rightarrow> (nat list \<times> 's) option" where
  "op_result r = map_option (\<lambda>(_, s). ([], s)) r"

fun dma_exec :: "'d regs \<Rightarrow> (nat \<Rightarrow> 'd \<Rightarrow> 'd) \<Rightarrow> dma_op \<Rightarrow> 'd dma \<Rightarrow> (nat list \<times> 'd dma) option" where
  "dma_exec io wait (Request ch flags) s = (let (c, s) = tls_dma_request io ch flags s in Some ([c], s))"
| "dma_exec io wait (Free ch) s = map_option (Pair []) (tls_dma_free io ch s)"
| "dma_exec io wait (Register ch callback arg flags) s = map_option (Pair []) (tls_dma_irq_register io ch callback arg flags s)"
| "dma_exec io wait (Start ch desc auto_reload) s = op_result (tls_dma_start io ch desc auto_reload s)"
| "dma_exec io wait (Start_wrap ch desc auto_reload src dest) s = op_result (tls_dma_start_by_wrap io ch desc auto_reload src dest s)"
| "dma_exec io wait (Stop ch) s = op_result (tls_dma_stop io ch s)"
| "dma_exec io wait (Wait ch) s = Some ([], snd (tls_dma_wait_complt io wait ch s))"
| "dma_exec io wait (Handler p) s = op_result (dma_irq_proc io p s)"

fun dma_run :: "'d regs \<Rightarrow> (nat \<Rightarrow> 'd \<Rightarrow> 'd) \<Rightarrow> dma_op list \<Rightarrow> 'd dma \<Rightarrow> (nat list \<times> 'd dma) option" where
  "dma_run io wait [] s = Some ([], s)"
| "dma_run io wait (op # ops) s =
    (case dma_exec io wait op s of
       None \<Rightarrow> None
     | Some (out, s) \<Rightarrow> map_option (\<lambda>(outs, s). (out @ outs, s)) (dma_run io wait ops s))"

text \<open>The same history for the abstract allocator.\<close>

fun alloc :: "dma_op list \<Rightarrow> nat set \<Rightarrow> nat list \<times> nat set" where
  "alloc [] H = ([], H)"
| "alloc (Request ch flags # ops) H = (let c = grant H ch in apfst ((#) c) (alloc ops (insert c H)))"
| "alloc (Free ch # ops) H = alloc ops (H - {ch})"
| "alloc (_ # ops) H = alloc ops H"

lemma wait_complt_tables: "tables (snd (wait_complt io wait ch t s)) = tables s"
proof (induction io wait ch t s rule: wait_complt.induct)
  case (1 io wait ch t s)
  obtain v s1 where g: "(v, s1) = reg_get io (DMA_CHNLCTRL_REG ch) s" by (metis surj_pair)
  have t: "tables s1 = tables s" "tables (s1\<lparr>dev := d\<rparr>) = tables s" for d
    using tables_regs(1) [of io "DMA_CHNLCTRL_REG ch" s] by (simp_all add: g [symmetric] tables_def)
  show ?case
    using "1.IH" [OF refl g _ refl] by (subst wait_complt.simps) (auto simp: g [symmetric] t Let_def)
qed

lemma dma_irq_proc_tables: "dma_irq_proc io p s = Some (call, s') \<Longrightarrow> tables s' = tables s"
  using tables_regs(1) [of io HR_DMA_INT_SRC s]
  by (auto simp: dma_irq_proc_def tls_dma_irq_clr_def split_beta Let_def split: if_splits option.splits)

lemma apfst_append_Nil [simp]: "apfst ((@) []) p = p"
  by (cases p) simp

lemma dma_exec_refines:
  assumes "dma_exec io wait op s = Some (out, s')" "length (channels s) = 8"
  shows "alloc (op # ops) (held s) = apfst ((@) out) (alloc ops (held s')) \<and> length (channels s') = 8"
proof -
  have keep: "?thesis" if "channels s' = channels s" "out = []" "\<forall>ch flags. op \<noteq> Request ch flags" "\<forall>ch. op \<noteq> Free ch"
    using that assms(2) held_cong [OF that(1)] by (cases op) auto
  show ?thesis
  proof (cases op)
    case (Request ch flags)
    then obtain c where c: "tls_dma_request io ch flags s = (c, s')" "out = [c]" using assms(1) by (auto split: prod.splits)
    show ?thesis using tls_dma_request_grants [OF assms(2) c(1)] c(2) Request by (simp add: Let_def apfst_def map_prod_def split: prod.splits)
  next
    case (Free ch)
    then show ?thesis using tls_dma_free_releases [OF assms(2)] assms(1) by auto
  next
    case (Register ch callback arg flags)
    then show ?thesis using assms(1) by (intro keep) (auto simp: tls_dma_irq_register_def Let_def split: if_splits)
  next
    case (Start ch desc auto_reload)
    then show ?thesis using assms(1) by (intro keep) (auto simp: op_result_def tls_dma_start_def Let_def split: if_splits option.splits)
  next
    case (Start_wrap ch desc auto_reload src dest)
    then show ?thesis using assms(1) by (intro keep) (auto simp: op_result_def tls_dma_start_by_wrap_def Let_def split: if_splits option.splits)
  next
    case (Stop ch)
    then show ?thesis using assms(1) by (intro keep) (auto simp: op_result_def dest!: tls_dma_stop_tables channels_of_tables)
  next
    case (Wait ch)
    then show ?thesis using assms(1) by (intro keep) (auto simp: tls_dma_wait_complt_def channels_of_tables [OF wait_complt_tables])
  next
    case (Handler p)
    then show ?thesis using assms(1) by (intro keep) (auto simp: op_result_def dest!: dma_irq_proc_tables channels_of_tables)
  qed
qed

lemma dma_run_refines:
  "dma_run io wait ops s = Some (outs, s') \<Longrightarrow> length (channels s) = 8 \<Longrightarrow> alloc ops (held s) = (outs, held s')"
proof (induction ops arbitrary: s outs)
  case (Cons op ops)
  then obtain out s1 o' where r: "dma_exec io wait op s = Some (out, s1)" "dma_run io wait ops s1 = Some (o', s')" "outs = out @ o'"
    by (auto split: option.splits)
  show ?case using dma_exec_refines [OF r(1) Cons.prems(2), of ops] Cons.IH [OF r(2)] r(3) by simp
qed simp

lemma alloc_append: "alloc (xs @ ys) H = (fst (alloc xs H) @ fst (alloc ys (snd (alloc xs H))), snd (alloc ys (snd (alloc xs H))))"
  by (induction xs H rule: alloc.induct) (simp_all add: Let_def apfst_def map_prod_def split_beta)

lemma held_boot: "held (dma_boot d) = {}"
  by (auto simp: held_def channel_valid_def dma_boot_def)

section \<open>Interrupts\<close>

lemma pending_channel_first:
  assumes "src AND irq_bits TLS_DMA_IRQ_BOTH_DONE ch \<noteq> 0" "\<forall>c \<in> {a..<ch}. src AND irq_bits TLS_DMA_IRQ_BOTH_DONE c = 0" "a \<le> ch" "ch < 8"
  shows "pending_channel src [a..<8] = ch"
  using assms
proof (induction "ch - a" arbitrary: a)
  case 0
  then show ?case by (simp add: upt_rec [of a 8])
next
  case (Suc n)
  then have "src AND irq_bits TLS_DMA_IRQ_BOTH_DONE a = 0" "pending_channel src [Suc a..<8] = ch" by auto
  then show ?case using Suc by (simp add: upt_rec [of a 8])
qed

lemma irq_bits_both: "src AND irq_bits flags ch \<noteq> 0 \<Longrightarrow> flags \<in> {TLS_DMA_IRQ_BURST_DONE, TLS_DMA_IRQ_TRANSFER_DONE, TLS_DMA_IRQ_BOTH_DONE} \<Longrightarrow>
    src AND irq_bits TLS_DMA_IRQ_BOTH_DONE ch \<noteq> 0"
proof -
  have b: "irq_bits TLS_DMA_IRQ_BOTH_DONE ch = irq_bits TLS_DMA_IRQ_BURST_DONE ch OR irq_bits TLS_DMA_IRQ_TRANSFER_DONE ch"
    unfolding irq_bits_def TLS_DMA_IRQ_BOTH_DONE_def by (intro bit_word_eqI) (auto simp: bit_simps)
  show "src AND irq_bits flags ch \<noteq> 0 \<Longrightarrow> flags \<in> {TLS_DMA_IRQ_BURST_DONE, TLS_DMA_IRQ_TRANSFER_DONE, TLS_DMA_IRQ_BOTH_DONE} \<Longrightarrow> ?thesis"
    by (auto simp: b bit.conj_disj_distrib or_eq_0_iff)
qed

text \<open>Acknowledging a channel is never the undefined shift.\<close>

lemma tls_dma_irq_clr_both: "ch < 8 \<Longrightarrow> tls_dma_irq_clr io ch TLS_DMA_IRQ_BOTH_DONE s = Some (reg_set io HR_DMA_INT_SRC (irq_bits TLS_DMA_IRQ_BOTH_DONE ch) s)"
proof -
  assume ch: "ch < 8"
  have "(2 :: nat) ^ (2 * ch) \<le> 2 ^ 14" using ch by (intro power_increasing) auto
  then have "unat TLS_DMA_IRQ_BOTH_DONE * 2 ^ (2 * ch) < 2 ^ 31" by (simp add: dma_flags)
  then show ?thesis using ch by (simp add: tls_dma_irq_clr_def)
qed

lemma registered_context:
  assumes "tls_dma_irq_register io ch callback arg flags s = Some s1" "length (dma_context s) = 8"
  shows "ch < 8" "irq_flags (dma_context s1 ! ch) = flags" "length (dma_context s1) = 8"
    "flags AND TLS_DMA_IRQ_BURST_DONE \<noteq> 0 \<Longrightarrow> burst_done_pf (dma_context s1 ! ch) = callback \<and> burst_done_priv (dma_context s1 ! ch) = arg"
    "flags AND TLS_DMA_IRQ_TRANSFER_DONE \<noteq> 0 \<Longrightarrow> transfer_done_pf (dma_context s1 ! ch) = callback \<and> transfer_done_priv (dma_context s1 ! ch) = arg"
    "channels s1 = channels s"
  using assms by (auto simp: tls_dma_irq_register_def Let_def split: if_splits)

lemma dma_irq_call_registered:
  assumes "tls_dma_irq_register io ch (Some f) arg flags s = Some s1" "length (dma_context s) = 8"
    and "flags \<in> {TLS_DMA_IRQ_BURST_DONE, TLS_DMA_IRQ_TRANSFER_DONE, TLS_DMA_IRQ_BOTH_DONE}" "src AND irq_bits flags ch \<noteq> 0"
  shows "dma_irq_call src ch (dma_context s1 ! ch) = Some (Some (f, arg))"
  using registered_context [OF assms(1,2)] assms(3,4) irq_bits_both [OF assms(4,3)]
  by (auto simp: dma_irq_call_def dma_flags)

lemma dma_irq_proc_calls:
  assumes "dma_irq_call src ch (dma_context s ! ch) = Some call" "ch < 8" "reg_get io HR_DMA_INT_SRC s = (src, s1)"
    and "src AND irq_bits TLS_DMA_IRQ_BOTH_DONE ch \<noteq> 0" "\<forall>c \<in> {4..<ch}. src AND irq_bits TLS_DMA_IRQ_BOTH_DONE c = 0"
  shows "dma_irq_proc io (min 4 ch) s = Some (call, reg_set io HR_DMA_INT_SRC (irq_bits TLS_DMA_IRQ_BOTH_DONE ch) s1)"
proof -
  have "(if min 4 ch > 3 then pending_channel src [4..<8] else min 4 ch) = ch"
    using pending_channel_first [OF assms(4,5)] assms(2) by (cases "4 \<le> ch") auto
  moreover have "dma_context s1 = dma_context s" using dma_frames(2) [of io HR_DMA_INT_SRC s] by (simp add: assms(3))
  ultimately show ?thesis using assms(1,2,3) by (auto simp: dma_irq_proc_def Let_def tls_dma_irq_clr_both)
qed

end
