(* ===== verification/Dma_Props.thy ===== *)
theory Dma_Props
  imports Dma_Correct
begin

text \<open>Properties of the DMA driver.\<close>

text \<open>C30. In every run of the driver the channels in use and the channels handed out are those of the abstract allocator, for
  which a channel that is in use is handed out again only as the last resort: it is channel 0, and either all eight are in
  use or the one that was asked for by number is, or has no such number. So two owners share a channel only if it is 0.\<close>

theorem dma_channels_refine_allocator:
  assumes "dma_run io wait (ops @ [Request ch flags]) (dma_boot d) = Some (outs, s')"
  shows "outs = fst (alloc ops {}) @ [grant (snd (alloc ops {})) ch] \<and> held s' = insert (last outs) (snd (alloc ops {}))
    \<and> (last outs \<in> snd (alloc ops {})
        \<longrightarrow> last outs = 0 \<and> (if ch = 0 then {..<8} \<subseteq> snd (alloc ops {}) else 8 \<le> ch \<or> ch \<in> snd (alloc ops {})))"
proof -
  have "length (channels (dma_boot d)) = 8" by (simp add: dma_boot_def)
  from dma_run_refines [OF assms this] have "alloc (ops @ [Request ch flags]) {} = (outs, held s')" by (simp add: held_boot)
  then have o: "outs = fst (alloc ops {}) @ [grant (snd (alloc ops {})) ch]" "held s' = insert (grant (snd (alloc ops {})) ch) (snd (alloc ops {}))"
    by (simp_all add: alloc_append Let_def)
  then show ?thesis using grant_free [of "snd (alloc ops {})" ch] by simp
qed

text \<open>A device for witnesses: every register reads as what was written last.\<close>

definition mem_regs :: "(u32 \<Rightarrow> u32) regs" where
  "mem_regs = \<lparr>tls_reg_read32 = (\<lambda>a d. (d a, d)), tls_reg_write32 = (\<lambda>a v d. d(a := v)), tls_irq_switch = (\<lambda>_ _ d. d)\<rparr>"

text \<open>Channel 1 is taken by number, then by number again, which hands out channel 0, twice.\<close>

definition taken_twice :: "(nat list \<times> (u32 \<Rightarrow> u32) dma) option" where
  "taken_twice = dma_run mem_regs (\<lambda>_ d. d) ([Request 1 0, Request 1 0] @ [Request 1 0]) (dma_boot (\<lambda>_. 0))"

theorem dma_channels_refine_allocator_witness:
  "\<exists>s'. taken_twice = Some ([1, 0, 0], s') \<and> held s' = {0, 1}"
proof -
  obtain outs s' where r: "taken_twice = Some (outs, s')" unfolding taken_twice_def by (simp add: split_beta)
  have "grant {} (Suc 0) = 1" "grant {1} (Suc 0) = 0" "grant {0, 1} (Suc 0) = 0" by (simp_all add: grant_def)
  then have "alloc [Request 1 0, Request 1 0] {} = ([1, 0], {0, 1})" by (simp add: Let_def)
  then show ?thesis using dma_channels_refine_allocator [OF r [unfolded taken_twice_def]] r \<open>grant {0, 1} (Suc 0) = 0\<close> by auto
qed

text \<open>C31. A callback registered for a channel is called with its argument by the handler that serves the channel when one of the
  interrupts asked for is pending, which acknowledges both interrupts of that channel and no other. But a channel of the
  group 4 to 7 whose lower neighbour has an interrupt pending that it did not ask for is never served: the shared handler
  returns without touching a register.\<close>

theorem dma_irq_reaches_callback:
  assumes "tls_dma_irq_register io ch (Some f) arg flags s = Some s1" "length (dma_context s) = 8"
    and "flags \<in> {TLS_DMA_IRQ_BURST_DONE, TLS_DMA_IRQ_TRANSFER_DONE, TLS_DMA_IRQ_BOTH_DONE}"
    and "dma_context s2 = dma_context s1" "reg_get io HR_DMA_INT_SRC s2 = (src, s3)" "src AND irq_bits flags ch \<noteq> 0"
  shows "((\<forall>c \<in> {4..<ch}. src AND irq_bits TLS_DMA_IRQ_BOTH_DONE c = 0) \<longrightarrow>
      dma_irq_proc io (min 4 ch) s2 = Some (Some (f, arg), reg_set io HR_DMA_INT_SRC (irq_bits TLS_DMA_IRQ_BOTH_DONE ch) s3))
    \<and> (\<forall>c \<in> {4..<ch}. (\<forall>i \<in> {4..<c}. src AND irq_bits TLS_DMA_IRQ_BOTH_DONE i = 0) \<and> src AND irq_bits TLS_DMA_IRQ_BOTH_DONE c \<noteq> 0
        \<and> dma_irq_call src c (dma_context s2 ! c) = None \<longrightarrow> dma_irq_proc io 4 s2 = Some (None, s3))"
proof (intro conjI impI ballI)
  have ch: "ch < 8" using registered_context(1) [OF assms(1,2)] .
  have call: "dma_irq_call src ch (dma_context s2 ! ch) = Some (Some (f, arg))"
    using dma_irq_call_registered [OF assms(1,2,3,6)] assms(4) by simp
  show "dma_irq_proc io (min 4 ch) s2 = Some (Some (f, arg), reg_set io HR_DMA_INT_SRC (irq_bits TLS_DMA_IRQ_BOTH_DONE ch) s3)"
    if "\<forall>c \<in> {4..<ch}. src AND irq_bits TLS_DMA_IRQ_BOTH_DONE c = 0"
    using dma_irq_proc_calls [OF call ch assms(5) irq_bits_both [OF assms(6,3)] that] .
  fix c assume c: "c \<in> {4..<ch}" "(\<forall>i \<in> {4..<c}. src AND irq_bits TLS_DMA_IRQ_BOTH_DONE i = 0) \<and> src AND irq_bits TLS_DMA_IRQ_BOTH_DONE c \<noteq> 0
        \<and> dma_irq_call src c (dma_context s2 ! c) = None"
  then have "pending_channel src [4..<8] = c" using pending_channel_first [of src c 4] ch by auto
  moreover have "dma_context s3 = dma_context s2" using dma_frames(2) [of io HR_DMA_INT_SRC s2] by (simp add: assms(5))
  ultimately show "dma_irq_proc io 4 s2 = Some (None, s3)" using c ch assms(5) by (simp add: dma_irq_proc_def)
qed

text \<open>Channel 5 waits for the end of its transfer, which is pending; in the second state a burst of channel 4 is as well.\<close>

theorem dma_irq_reaches_callback_witness:
  "\<exists>s1. tls_dma_irq_register mem_regs 5 (Some 7) 9 TLS_DMA_IRQ_TRANSFER_DONE (dma_boot (\<lambda>_. 0)) = Some s1
    \<and> dma_irq_proc mem_regs 4 (s1\<lparr>dev := \<lambda>_. 0x800\<rparr>) = Some (Some (7, 9), s1\<lparr>dev := (\<lambda>_. 0x800)(HR_DMA_INT_SRC := 0xC00)\<rparr>)
    \<and> dma_irq_proc mem_regs 4 (s1\<lparr>dev := \<lambda>_. 0x900\<rparr>) = Some (None, s1\<lparr>dev := \<lambda>_. 0x900\<rparr>)"
proof -
  let ?s = "dma_boot (\<lambda>_ :: u32. 0 :: u32)"
  obtain s1 where s1: "tls_dma_irq_register mem_regs 5 (Some 7) 9 TLS_DMA_IRQ_TRANSFER_DONE ?s = Some s1" by (simp add: tls_dma_irq_register_def Let_def)
  have l: "length (dma_context ?s) = 8" "length (dma_context s1) = 8" using registered_context(3) [OF s1] by (simp_all add: dma_boot_def)
  have c4: "dma_context s1 ! 4 = dma_context ?s ! 4" using s1 by (auto simp: tls_dma_irq_register_def Let_def)
  have n: "dma_irq_call 0x900 4 (dma_context s1 ! 4) = None" unfolding c4 by (simp add: dma_irq_call_def dma_boot_def dma_flags)
  have g: "reg_get mem_regs HR_DMA_INT_SRC (s1\<lparr>dev := \<lambda>_. v\<rparr>) = (v, s1\<lparr>dev := \<lambda>_. v\<rparr>)" for v by (simp add: reg_get_def mem_regs_def)
  have f: "TLS_DMA_IRQ_TRANSFER_DONE \<in> {TLS_DMA_IRQ_BURST_DONE, TLS_DMA_IRQ_TRANSFER_DONE, TLS_DMA_IRQ_BOTH_DONE}" by simp
  have b: "(0x800 :: u32) AND irq_bits TLS_DMA_IRQ_TRANSFER_DONE 5 \<noteq> 0" "(0x900 :: u32) AND irq_bits TLS_DMA_IRQ_TRANSFER_DONE 5 \<noteq> 0"
    "(0x800 :: u32) AND irq_bits TLS_DMA_IRQ_BOTH_DONE 4 = 0" "(0x900 :: u32) AND irq_bits TLS_DMA_IRQ_BOTH_DONE 4 \<noteq> 0"
    "irq_bits TLS_DMA_IRQ_BOTH_DONE 5 = 0xC00" by (simp_all add: irq_bits_def dma_flags)
  have i: "{4..<5} = {4 :: nat}" by auto
  show ?thesis
    using dma_irq_reaches_callback [OF s1 l(1) f _ g [of "0x800"]] dma_irq_reaches_callback [OF s1 l(1) f _ g [of "0x900"]] b n s1 by (auto simp: i reg_set_def mem_regs_def)
qed

end
