(* ===== verification/Uart.thy ===== *)
theory Uart
  imports Dma "HOL-Library.Monad_Syntax"
begin

text \<open>
  The UART driver, \<^verbatim>\<open>src/Platform/Drivers/uart/wm_uart.c\<close>: three ports with a ring buffer for what was received, a list of
  messages to be sent, and interrupt handlers that move bytes between these and the two FIFOs of the hardware.
  The array \<^verbatim>\<open>uart_port\<close> is the list \<open>uart_port\<close>; a pointer to a port is its index. Registers, callbacks of the
  application and semaphores of the operating system are the parameter \<open>env\<close>. A semaphore is its count. The result \<open>None\<close>
  is undefined behaviour (a port that is not initialised, an access outside a buffer, a division by 0) or a
  loop that does not end. Debug output and the fields no function uses are left out.
\<close>

section \<open>Data\<close>

datatype tls_uart_pmode = TLS_UART_PMODE_DISABLED | TLS_UART_PMODE_ODD | TLS_UART_PMODE_EVEN | TLS_UART_PMODE_MARK | TLS_UART_PMODE_SPACE
datatype tls_uart_chsize = TLS_UART_CHSIZE_5BIT | TLS_UART_CHSIZE_6BIT | TLS_UART_CHSIZE_7BIT | TLS_UART_CHSIZE_8BIT
datatype tls_uart_flow = TLS_UART_FLOW_CTRL_NONE | TLS_UART_FLOW_CTRL_HARDWARE
datatype tls_uart_rx_flag = TLS_UART_RX_DISABLE | TLS_UART_RX_ENABLE
datatype tls_uart_stopbits = TLS_UART_ONE_STOPBITS | TLS_UART_TWO_STOPBITS
datatype tls_uart_status = TLS_UART_STATUS_OK | TLS_UART_STATUS_ERROR

record tls_uart_options =
  baudrate :: u32
  charlength :: tls_uart_chsize
  paritytype :: tls_uart_pmode
  flow_ctrl :: tls_uart_flow
  stopbits :: tls_uart_stopbits

record tls_uart_tx_msg =
  tx_buf :: bytes
  buflen :: u16
  offset :: u16

text \<open>The function called when a message has been sent: the driver's own or one of the application.\<close>

datatype tx_cb = Free_sent | User_tx nat

record tls_uart_port =
  uart_no :: nat
  uart_irq_no :: nat
  plus_char_cnt :: nat
  opts :: tls_uart_options
  fcStatus :: tls_uart_flow
  rxstatus :: tls_uart_rx_flag
  tx_fifofull :: u32
  uart_regs :: "u32 option"
  icount_tx :: u32
  recv_buf :: "bytes option"
  recv_head :: u32
  recv_tail :: u32
  tx_msg_pending_list :: "tls_uart_tx_msg list"
  tx_msg_to_be_freed_list :: "tls_uart_tx_msg list"
  hw_stopped :: bool
  tx_sem :: "nat option"
  rx_callback :: "nat option"
  tx_callback :: "tx_cb option"
  tx_dma_on :: bool

text \<open>What \<^verbatim>\<open>memset\<close> leaves in a port.\<close>

definition zero_port :: tls_uart_port where
  "zero_port = \<lparr>uart_no = 0, uart_irq_no = 0, plus_char_cnt = 0,
     opts = \<lparr>baudrate = 0, charlength = TLS_UART_CHSIZE_5BIT, paritytype = TLS_UART_PMODE_DISABLED,
             flow_ctrl = TLS_UART_FLOW_CTRL_NONE, stopbits = TLS_UART_ONE_STOPBITS\<rparr>,
     fcStatus = TLS_UART_FLOW_CTRL_NONE, rxstatus = TLS_UART_RX_DISABLE, tx_fifofull = 0, uart_regs = None, icount_tx = 0,
     recv_buf = None, recv_head = 0, recv_tail = 0, tx_msg_pending_list = [], tx_msg_to_be_freed_list = [],
     hw_stopped = False, tx_sem = None, rx_callback = None, tx_callback = None, tx_dma_on = False\<rparr>"

record 'd uarts = "'d dma" +
  uart_port :: "tls_uart_port list"
  ua_allocs :: nat

record 'd uart_env =
  ue_io :: "'d regs"
  ue_heap :: allocator
  ue_sem_create :: "'d \<Rightarrow> bool \<times> 'd"
  ue_rx_callback :: "nat \<Rightarrow> u16 \<Rightarrow> 'd uarts \<Rightarrow> 'd uarts"
  ue_tx_callback :: "nat \<Rightarrow> nat \<Rightarrow> 'd uarts \<Rightarrow> 'd uarts"

definition WM_SUCCESS :: int where "WM_SUCCESS = 0"
definition WM_FAILED :: int where "WM_FAILED = -1"
definition TLS_UART_RX_BUF_SIZE :: nat where "TLS_UART_RX_BUF_SIZE = 4096"
definition TLS_UART_TX_BUF_SIZE :: nat where "TLS_UART_TX_BUF_SIZE = 4096"
definition RX_CACHE_LIMIT :: nat where "RX_CACHE_LIMIT = 128"
definition HR_UART0_BASE_ADDR :: u32 where "HR_UART0_BASE_ADDR = 0x40010800"
definition HR_UART1_BASE_ADDR :: u32 where "HR_UART1_BASE_ADDR = 0x40010A00"
definition HR_UART2_BASE_ADDR :: u32 where "HR_UART2_BASE_ADDR = 0x40011C00"
definition UR_LC :: u32 where "UR_LC = 0x00"
definition UR_FC :: u32 where "UR_FC = 0x04"
definition UR_DMAC :: u32 where "UR_DMAC = 0x08"
definition UR_FIFOC :: u32 where "UR_FIFOC = 0x0C"
definition UR_BD :: u32 where "UR_BD = 0x10"
definition UR_INTM :: u32 where "UR_INTM = 0x14"
definition UR_INTS :: u32 where "UR_INTS = 0x18"
definition UR_FIFOS :: u32 where "UR_FIFOS = 0x1C"
definition UR_TXW :: u32 where "UR_TXW = 0x20"
definition UR_RXW :: u32 where "UR_RXW = 0x30"
definition ULCON_STOP_2 :: u32 where "ULCON_STOP_2 = 0x04"
definition ULCON_WL_MASK :: u32 where "ULCON_WL_MASK = 0x03"
definition ULCON_PMD_MASK :: u32 where "ULCON_PMD_MASK = 0x18"
definition ULCON_PMD_EN :: u32 where "ULCON_PMD_EN = 0x08"
definition ULCON_PMD_ODD :: u32 where "ULCON_PMD_ODD = 0x18"
definition ULCON_PMD_EVEN :: u32 where "ULCON_PMD_EVEN = 0x08"
definition ULCON_TX_EN :: u32 where "ULCON_TX_EN = 0x40"
definition ULCON_RX_EN :: u32 where "ULCON_RX_EN = 0x80"
definition UIS_RX_FIFO :: u32 where "UIS_RX_FIFO = 0x04"
definition UIS_CTS_CHNG :: u32 where "UIS_CTS_CHNG = 0x10"
definition UIS_OVERRUN :: u32 where "UIS_OVERRUN = 0x100"
definition UART_RX_INT_FLAG :: u32 where "UART_RX_INT_FLAG = 0x1EC"
definition UART_RX_ERR_INT_FLAG :: u32 where "UART_RX_ERR_INT_FLAG = 0xE0"
definition UART_TX_INT_FLAG :: u32 where "UART_TX_INT_FLAG = 0x03"
definition UFS_TX_FIFO_CNT_MASK :: u32 where "UFS_TX_FIFO_CNT_MASK = 0x3F"
definition UFS_RX_FIFO_CNT_MASK :: u32 where "UFS_RX_FIFO_CNT_MASK = 0x3C0"
definition UFS_CST_STS :: u32 where "UFS_CST_STS = 0x1000"
definition UART_INT :: "nat \<Rightarrow> nat" where "UART_INT u = (if u = 0 then 23 else if u = 1 then 24 else 41)"

lemmas uart_regs_defs = UR_LC_def UR_FC_def UR_DMAC_def UR_FIFOC_def UR_BD_def UR_INTM_def UR_INTS_def UR_FIFOS_def UR_TXW_def UR_RXW_def
lemmas uart_bases = HR_UART0_BASE_ADDR_def HR_UART1_BASE_ADDR_def HR_UART2_BASE_ADDR_def
lemmas uart_flags = ULCON_STOP_2_def ULCON_WL_MASK_def ULCON_PMD_MASK_def ULCON_PMD_EN_def ULCON_PMD_ODD_def ULCON_PMD_EVEN_def
  ULCON_TX_EN_def ULCON_RX_EN_def UIS_RX_FIFO_def UIS_CTS_CHNG_def UIS_OVERRUN_def UART_RX_INT_FLAG_def UART_RX_ERR_INT_FLAG_def
  UART_TX_INT_FLAG_def UFS_TX_FIFO_CNT_MASK_def UFS_RX_FIFO_CNT_MASK_def UFS_CST_STS_def
lemmas uart_sizes = WM_SUCCESS_def WM_FAILED_def TLS_UART_RX_BUF_SIZE_def TLS_UART_TX_BUF_SIZE_def RX_CACHE_LIMIT_def UART_INT_def

section \<open>Access\<close>

definition port :: "nat \<Rightarrow> 'd uarts \<Rightarrow> tls_uart_port" where
  "port u s = uart_port s ! u"

definition on_port :: "nat \<Rightarrow> (tls_uart_port \<Rightarrow> tls_uart_port) \<Rightarrow> 'd uarts \<Rightarrow> 'd uarts" where
  "on_port u f s = s\<lparr>uart_port := (uart_port s)[u := f (uart_port s ! u)]\<rparr>"

text \<open>A register of a port; \<^verbatim>\<open>regs\<close> is null before the port was initialised.\<close>

definition ur_get :: "'d uart_env \<Rightarrow> nat \<Rightarrow> u32 \<Rightarrow> 'd uarts \<Rightarrow> (u32 \<times> 'd uarts) option" where
  "ur_get env u off s = map_option (\<lambda>b. reg_get (ue_io env) (b + off) s) (uart_regs (port u s))"

definition ur_set :: "'d uart_env \<Rightarrow> nat \<Rightarrow> u32 \<Rightarrow> u32 \<Rightarrow> 'd uarts \<Rightarrow> 'd uarts option" where
  "ur_set env u off v s = map_option (\<lambda>b. reg_set (ue_io env) (b + off) v s) (uart_regs (port u s))"

definition ur_upd :: "'d uart_env \<Rightarrow> nat \<Rightarrow> u32 \<Rightarrow> (u32 \<Rightarrow> u32) \<Rightarrow> 'd uarts \<Rightarrow> 'd uarts option" where
  "ur_upd env u off f s = do { (v, s) \<leftarrow> ur_get env u off s; ur_set env u off (f v) s }"

definition apb_hz :: "'d uart_env \<Rightarrow> 'd uarts \<Rightarrow> (u32 \<times> 'd uarts) option" where
  "apb_hz env s = map_option (\<lambda>(c, d). (apbclk c * 1000000, s\<lparr>dev := d\<rparr>)) (tls_sys_clk_get (ue_io env) (dev s))"

section \<open>Settings\<close>

definition baud_rates :: "u32 list" where
  "baud_rates = [2000000, 1500000, 1250000, 1000000, 921600, 460800, 230400, 115200, 57600, 38400,
     19200, 9600, 4800, 2400, 1800, 1200, 600]"

definition baud_value :: "u32 \<Rightarrow> u32 \<Rightarrow> u32" where
  "baud_value apb baud = (apb div (16 * baud) - 1) OR push_bit 16 ((apb mod (baud * 16)) * 16 div (baud * 16))"

definition Uart0Init :: "'d uart_env \<Rightarrow> 'd uarts \<Rightarrow> 'd uarts option" where
  "Uart0Init env s = do {
     (apb, s) \<leftarrow> apb_hz env s;
     let s = reg_set (ue_io env) (HR_UART0_BASE_ADDR + UR_BD) (baud_value apb 115200) s;
     let s = reg_set (ue_io env) (HR_UART0_BASE_ADDR + UR_LC) 0x43 s;
     let s = reg_set (ue_io env) (HR_UART0_BASE_ADDR + UR_FC) 0 s;
     let s = reg_set (ue_io env) (HR_UART0_BASE_ADDR + UR_DMAC) 0 s;
     let s = reg_set (ue_io env) (HR_UART0_BASE_ADDR + UR_FIFOC) 0 s;
     Some (reg_set (ue_io env) (HR_UART0_BASE_ADDR + UR_INTM) 0xFF s) }"

definition reg_init_12 :: "'d uart_env \<Rightarrow> u32 \<Rightarrow> 'd uarts \<Rightarrow> 'd uarts" where
  "reg_init_12 env base s =
    (let s = reg_set (ue_io env) (base + UR_FIFOC) 0x24 s;
         s = reg_set (ue_io env) (base + UR_DMAC) 0x44 s
     in reg_set (ue_io env) (base + UR_INTM) 0xFFFFFFF3 s)"

definition UartRegInit :: "'d uart_env \<Rightarrow> nat \<Rightarrow> 'd uarts \<Rightarrow> 'd uarts option" where
  "UartRegInit env u s =
    (if u = 0 then Uart0Init env s
     else do {
       (_, s) \<leftarrow> apb_hz env s;
       Some (if u = 1 then reg_init_12 env HR_UART1_BASE_ADDR s
             else if u = 2 then reg_init_12 env HR_UART2_BASE_ADDR s
             else s) })"

definition tls_uart_check_baudrate :: "u32 \<Rightarrow> int" where
  "tls_uart_check_baudrate b = (if b \<in> set baud_rates then 1 else -1)"

definition tls_uart_get_baud_rate :: "nat option \<Rightarrow> 'd uarts \<Rightarrow> u32" where
  "tls_uart_get_baud_rate p s =
    (case p of None \<Rightarrow> 0 | Some u \<Rightarrow> (if uart_regs (port u s) \<noteq> None then baudrate (opts (port u s)) else 0))"

definition on_opts :: "nat \<Rightarrow> (tls_uart_options \<Rightarrow> tls_uart_options) \<Rightarrow> 'd uarts \<Rightarrow> 'd uarts" where
  "on_opts u f = on_port u (\<lambda>p. p\<lparr>opts := f (opts p)\<rparr>)"

definition tls_uart_set_baud_rate_inside :: "'d uart_env \<Rightarrow> nat \<Rightarrow> u32 \<Rightarrow> 'd uarts \<Rightarrow> (int \<times> 'd uarts) option" where
  "tls_uart_set_baud_rate_inside env u baud s =
    (if tls_uart_check_baudrate baud < 0 then Some (WM_FAILED, s)
     else do {
       (apb, s) \<leftarrow> apb_hz env s;
       s \<leftarrow> ur_set env u UR_BD (baud_value apb baud) s;
       Some (WM_SUCCESS, on_opts u (baudrate_update (\<lambda>_. baud)) s) })"

definition tls_uart_set_parity_inside :: "'d uart_env \<Rightarrow> nat option \<Rightarrow> tls_uart_pmode \<Rightarrow> 'd uarts \<Rightarrow> (int \<times> 'd uarts) option" where
  "tls_uart_set_parity_inside env p ptype s =
    (case p of None \<Rightarrow> Some (WM_FAILED, s)
     | Some u \<Rightarrow>
        (let s = on_opts u (paritytype_update (\<lambda>_. ptype)) s in
         case ptype of
           TLS_UART_PMODE_DISABLED \<Rightarrow> do { s \<leftarrow> ur_upd env u UR_LC (\<lambda>v. v AND NOT ULCON_PMD_EN) s; Some (WM_SUCCESS, s) }
         | TLS_UART_PMODE_EVEN \<Rightarrow> do {
             s \<leftarrow> ur_upd env u UR_LC (\<lambda>v. v AND NOT ULCON_PMD_MASK) s;
             s \<leftarrow> ur_upd env u UR_LC (\<lambda>v. v OR ULCON_PMD_EVEN) s;
             Some (WM_SUCCESS, s) }
         | TLS_UART_PMODE_ODD \<Rightarrow> do {
             s \<leftarrow> ur_upd env u UR_LC (\<lambda>v. v AND NOT ULCON_PMD_MASK) s;
             s \<leftarrow> ur_upd env u UR_LC (\<lambda>v. v OR ULCON_PMD_ODD) s;
             Some (WM_SUCCESS, s) }
         | _ \<Rightarrow> Some (WM_FAILED, s)))"

definition tls_uart_get_parity :: "nat \<Rightarrow> 'd uarts \<Rightarrow> tls_uart_pmode" where
  "tls_uart_get_parity u s = paritytype (opts (port u s))"

definition chsize_bits :: "tls_uart_chsize \<Rightarrow> u32" where
  "chsize_bits c = (case c of TLS_UART_CHSIZE_5BIT \<Rightarrow> 0 | TLS_UART_CHSIZE_6BIT \<Rightarrow> 1 | TLS_UART_CHSIZE_7BIT \<Rightarrow> 2 | TLS_UART_CHSIZE_8BIT \<Rightarrow> 3)"

definition tls_uart_set_data_bits :: "'d uart_env \<Rightarrow> nat option \<Rightarrow> tls_uart_chsize \<Rightarrow> 'd uarts \<Rightarrow> (int \<times> 'd uarts) option" where
  "tls_uart_set_data_bits env p c s =
    (case p of None \<Rightarrow> Some (WM_FAILED, s)
     | Some u \<Rightarrow> do {
         let s = on_opts u (charlength_update (\<lambda>_. c)) s;
         s \<leftarrow> ur_upd env u UR_LC (\<lambda>v. v AND NOT ULCON_WL_MASK) s;
         s \<leftarrow> ur_upd env u UR_LC (\<lambda>v. v OR chsize_bits c) s;
         Some (WM_SUCCESS, s) })"

definition tls_uart_get_data_bits :: "nat \<Rightarrow> 'd uarts \<Rightarrow> tls_uart_chsize" where
  "tls_uart_get_data_bits u s = charlength (opts (port u s))"

definition tls_uart_set_stop_bits_inside :: "'d uart_env \<Rightarrow> nat option \<Rightarrow> tls_uart_stopbits \<Rightarrow> 'd uarts \<Rightarrow> (int \<times> 'd uarts) option" where
  "tls_uart_set_stop_bits_inside env p b s =
    (case p of None \<Rightarrow> Some (WM_FAILED, s)
     | Some u \<Rightarrow> do {
         let s = on_opts u (stopbits_update (\<lambda>_. b)) s;
         s \<leftarrow> ur_upd env u UR_LC (\<lambda>v. if b = TLS_UART_TWO_STOPBITS then v OR ULCON_STOP_2 else v AND NOT ULCON_STOP_2) s;
         Some (WM_SUCCESS, s) })"

definition tls_uart_get_stop_bits :: "nat \<Rightarrow> 'd uarts \<Rightarrow> tls_uart_stopbits" where
  "tls_uart_get_stop_bits u s = stopbits (opts (port u s))"

definition tls_uart_set_flow_ctrl :: "'d uart_env \<Rightarrow> nat option \<Rightarrow> tls_uart_flow \<Rightarrow> 'd uarts \<Rightarrow> (tls_uart_status \<times> 'd uarts) option" where
  "tls_uart_set_flow_ctrl env p fc s =
    (case p of None \<Rightarrow> Some (TLS_UART_STATUS_ERROR, s)
     | Some u \<Rightarrow>
        (case fc of
           TLS_UART_FLOW_CTRL_NONE \<Rightarrow> do { s \<leftarrow> ur_set env u UR_FC 0 s; Some (TLS_UART_STATUS_OK, s) }
         | TLS_UART_FLOW_CTRL_HARDWARE \<Rightarrow>
            (if flow_ctrl (opts (port u s)) = TLS_UART_FLOW_CTRL_HARDWARE
             then do { s \<leftarrow> ur_set env u UR_FC 0x19 s; Some (TLS_UART_STATUS_OK, s) }
             else Some (TLS_UART_STATUS_OK, s))))"

definition tls_uart_rx_disable :: "'d uart_env \<Rightarrow> nat \<Rightarrow> 'd uarts \<Rightarrow> 'd uarts option" where
  "tls_uart_rx_disable env u s = ur_upd env u UR_LC (\<lambda>v. v AND NOT ULCON_RX_EN) s"

definition tls_uart_rx_enable :: "'d uart_env \<Rightarrow> nat \<Rightarrow> 'd uarts \<Rightarrow> 'd uarts option" where
  "tls_uart_rx_enable env u s = ur_upd env u UR_LC (\<lambda>v. v OR ULCON_RX_EN) s"

definition tls_uart_tx_enable :: "'d uart_env \<Rightarrow> nat \<Rightarrow> 'd uarts \<Rightarrow> 'd uarts option" where
  "tls_uart_tx_enable env u s = ur_upd env u UR_LC (\<lambda>v. v OR ULCON_TX_EN) s"

definition tls_uart_tx_disable :: "'d uart_env \<Rightarrow> nat \<Rightarrow> 'd uarts \<Rightarrow> 'd uarts option" where
  "tls_uart_tx_disable env u s = ur_upd env u UR_LC (\<lambda>v. v AND NOT ULCON_TX_EN) s"

text \<open>The results of the single settings are ignored.\<close>

definition tls_uart_config :: "'d uart_env \<Rightarrow> nat option \<Rightarrow> tls_uart_options option \<Rightarrow> 'd uarts \<Rightarrow> (int \<times> 'd uarts) option" where
  "tls_uart_config env p o' s =
    (case (p, o') of
       (Some u, Some o') \<Rightarrow> do {
         (_, s) \<leftarrow> tls_uart_set_baud_rate_inside env u (baudrate o') s;
         (_, s) \<leftarrow> tls_uart_set_parity_inside env p (paritytype o') s;
         (_, s) \<leftarrow> tls_uart_set_data_bits env p (charlength o') s;
         (_, s) \<leftarrow> tls_uart_set_stop_bits_inside env p (stopbits o') s;
         let s = on_opts u (flow_ctrl_update (\<lambda>_. flow_ctrl o')) s;
         (_, s) \<leftarrow> tls_uart_set_flow_ctrl env p (flow_ctrl o') s;
         s \<leftarrow> ur_set env u UR_INTS 0xFFFFFFFF s;
         s \<leftarrow> ur_set env u UR_INTM 0 s;
         s \<leftarrow> ur_set env u UR_DMAC 0x24 s;
         s \<leftarrow> ur_set env u UR_FIFOC 0x3F s;
         s \<leftarrow> ur_upd env u UR_LC (\<lambda>v. v AND NOT (ULCON_TX_EN OR ULCON_RX_EN)) s;
         s \<leftarrow> ur_upd env u UR_LC (\<lambda>v. v OR (ULCON_RX_EN OR ULCON_TX_EN)) s;
         Some (WM_SUCCESS, s) }
     | _ \<Rightarrow> Some (WM_FAILED, s))"

end
