(* ===== verification/Uart_Io.thy ===== *)
theory Uart_Io
  imports Uart
begin

text \<open>
  The second half of \<^verbatim>\<open>wm_uart.c\<close>: sending, the interrupt handlers, initialisation of a port, reading and writing.
  An interrupt runs between two operations; while \<^verbatim>\<open>tls_uart_write\<close> waits for its semaphore the interrupts that arrive
  are a list, each the number of a port.
\<close>

section \<open>Polling\<close>

partial_function (option) wait_thr :: "'d uart_env \<Rightarrow> nat \<Rightarrow> 'd uarts \<Rightarrow> 'd uarts option" where
  "wait_thr env u s = do {
     (v, s) \<leftarrow> ur_get env u UR_FIFOS s;
     if v AND 0x3F \<noteq> 0 then wait_thr env u s else Some s }"

definition tls_uart_poll_put_char :: "'d uart_env \<Rightarrow> nat \<Rightarrow> u32 \<Rightarrow> 'd uarts \<Rightarrow> (u32 \<times> 'd uarts) option" where
  "tls_uart_poll_put_char env u ch s = do {
     s \<leftarrow> (if ch = 10 then do { s \<leftarrow> wait_thr env u s; ur_set env u UR_TXW 13 s } else Some s);
     s \<leftarrow> wait_thr env u s;
     s \<leftarrow> ur_set env u UR_TXW (ucast (ucast ch :: u8)) s;
     Some (ch, s) }"

definition tls_uart_poll_get_char :: "'d uart_env \<Rightarrow> nat \<Rightarrow> 'd uarts \<Rightarrow> (u32 \<times> 'd uarts) option" where
  "tls_uart_poll_get_char env u s = do {
     (v, s) \<leftarrow> ur_get env u UR_FIFOS s;
     if drop_bit 6 (v AND UFS_RX_FIFO_CNT_MASK) \<noteq> 0 then ur_get env u UR_RXW s else Some (0, s) }"

section \<open>Sending\<close>

definition tls_uart_tx_remain_len :: "nat \<Rightarrow> 'd uarts \<Rightarrow> int" where
  "tls_uart_tx_remain_len u s = int TLS_UART_TX_BUF_SIZE - uint (sum_list (map buflen (tx_msg_pending_list (port u s))))"

definition ua_alloc :: "'d uart_env \<Rightarrow> nat \<Rightarrow> 'd uarts \<Rightarrow> bytes option \<times> 'd uarts" where
  "ua_alloc env n s = (ue_heap env (ua_allocs s) n, s\<lparr>ua_allocs := Suc (ua_allocs s)\<rparr>)"

definition tls_uart_fill_buf :: "'d uart_env \<Rightarrow> nat \<Rightarrow> bytes \<Rightarrow> u32 \<Rightarrow> 'd uarts \<Rightarrow> (int \<times> 'd uarts) option" where
  "tls_uart_fill_buf env u buf count s =
    (let (msg, s) = ua_alloc env 24 s
     in if msg = None then Some (-1, s)
        else let (b, s) = ua_alloc env (unat count) s
        in if b = None then Some (-1, s)
           else if unat count > length buf then None
           else let m = \<lparr>tx_buf = take (unat count) buf, buflen = ucast count, offset = 0\<rparr>
           in Some (0, on_port u (\<lambda>p. p\<lparr>tx_msg_pending_list := tx_msg_pending_list p @ [m]\<rparr>) s))"

definition tls_uart_free_tx_sent_data :: "nat \<Rightarrow> 'd uarts \<Rightarrow> 'd uarts" where
  "tls_uart_free_tx_sent_data u s = on_port u (\<lambda>p. p\<lparr>tx_msg_to_be_freed_list := []\<rparr>) s"

definition call_tx :: "'d uart_env \<Rightarrow> nat \<Rightarrow> 'd uarts \<Rightarrow> 'd uarts" where
  "call_tx env u s =
    (case tx_callback (port u s) of
       None \<Rightarrow> s
     | Some Free_sent \<Rightarrow> tls_uart_free_tx_sent_data u s
     | Some (User_tx n) \<Rightarrow> ue_tx_callback env n u s)"

text \<open>Semaphores of the operating system count up to 5 (\<^verbatim>\<open>configSEMAPHORE_INIT_VALUE\<close>).\<close>

definition sem_release :: "nat \<Rightarrow> 'd uarts \<Rightarrow> 'd uarts" where
  "sem_release u s = on_port u (\<lambda>p. p\<lparr>tx_sem := map_option (\<lambda>k. min 5 (Suc k)) (tx_sem p)\<rparr>) s"

text \<open>
  The inner loop of both senders: bytes of the first message go to the transmit window until the budget, the message
  or the room in the FIFO ends. The budget is counted down once more when the loop ends.
\<close>

function send_chars :: "'d uart_env \<Rightarrow> nat \<Rightarrow> int \<Rightarrow> tls_uart_tx_msg \<Rightarrow> 'd uarts \<Rightarrow> (int \<times> bool \<times> tls_uart_tx_msg \<times> 'd uarts) option" where
  "send_chars env u cnt m s =
    (if \<not> (cnt > 0 \<and> offset m < buflen m) then Some (cnt - 1, False, m, s)
     else do {
       (v, s) \<leftarrow> ur_get env u UR_FIFOS s;
       if v AND UFS_TX_FIFO_CNT_MASK = tx_fifofull (port u s) then Some (cnt - 1, True, m, s)
       else if unat (offset m) \<ge> length (tx_buf m) then None
       else do {
         s \<leftarrow> ur_set env u UR_TXW (ucast (tx_buf m ! unat (offset m))) s;
         send_chars env u (cnt - 1) (m\<lparr>offset := offset m + 1\<rparr>) (on_port u (\<lambda>p. p\<lparr>icount_tx := icount_tx p + 1\<rparr>) s) } })"
  by pat_completeness auto
termination by (relation "measure (\<lambda>(_, _, cnt, _, _). nat cnt)") auto

declare send_chars.simps [simp del]

definition set_first :: "nat \<Rightarrow> tls_uart_tx_msg \<Rightarrow> 'd uarts \<Rightarrow> 'd uarts" where
  "set_first u m s = on_port u (\<lambda>p. p\<lparr>tx_msg_pending_list := m # tl (tx_msg_pending_list p)\<rparr>) s"

text \<open>A message that was sent completely moves to the list of messages to be freed, and the callback runs.\<close>

definition finish_first :: "'d uart_env \<Rightarrow> nat \<Rightarrow> tls_uart_tx_msg \<Rightarrow> 'd uarts \<Rightarrow> 'd uarts" where
  "finish_first env u m s =
    (if offset m \<ge> buflen m then
       call_tx env u (on_port u (\<lambda>p. p\<lparr>tx_msg_pending_list := tl (tx_msg_pending_list p),
         tx_msg_to_be_freed_list := tx_msg_to_be_freed_list p @ [m]\<rparr>) s)
     else set_first u m s)"

definition tls_uart_tx_chars_start :: "'d uart_env \<Rightarrow> nat \<Rightarrow> 'd uarts \<Rightarrow> 'd uarts option" where
  "tls_uart_tx_chars_start env u s =
    (case tx_msg_pending_list (port u s) of
       [] \<Rightarrow> Some (if tx_sem (port u s) \<noteq> None then sem_release u s else s)
     | m # _ \<Rightarrow> do {
         (_, _, m, s) \<leftarrow> send_chars env u 32 m s;
         Some (finish_first env u m s) })"

text \<open>The budget is an \<^verbatim>\<open>int\<close>; it overflows, which is undefined, after \<open>2 ^ 31\<close> turns of a loop that does not end here.\<close>

partial_function (option) tx_loop :: "'d uart_env \<Rightarrow> nat \<Rightarrow> int \<Rightarrow> bool \<Rightarrow> 'd uarts \<Rightarrow> 'd uarts option" where
  "tx_loop env u cnt fifofull s =
    (case tx_msg_pending_list (port u s) of
       [] \<Rightarrow> Some s
     | m # _ \<Rightarrow>
        (if fifofull then Some s
         else do {
           (cnt, fifofull, m, s) \<leftarrow> send_chars env u cnt m s;
           tx_loop env u cnt fifofull (finish_first env u m s) }))"

definition tls_uart_tx_chars :: "'d uart_env \<Rightarrow> nat \<Rightarrow> 'd uarts \<Rightarrow> 'd uarts option" where
  "tls_uart_tx_chars env u s =
    (if tx_msg_pending_list (port u s) = []
     then Some (if tx_sem (port u s) \<noteq> None then sem_release u s else s)
     else tx_loop env u 64 False s)"

section \<open>Flow control\<close>

definition tls_uart_set_fc_status :: "'d uart_env \<Rightarrow> int \<Rightarrow> tls_uart_flow \<Rightarrow> 'd uarts \<Rightarrow> 'd uarts option" where
  "tls_uart_set_fc_status env n status s =
    (let u = (if n = 0 then 0 else if n = 1 then 1 else 2);
         s = on_port u (\<lambda>p. p\<lparr>fcStatus := status\<rparr>) s
     in do {
       (_, s) \<leftarrow> tls_uart_set_flow_ctrl env (Some u) status s;
       if flow_ctrl (opts (port u s)) = TLS_UART_FLOW_CTRL_HARDWARE \<and> status = TLS_UART_FLOW_CTRL_NONE \<and> hw_stopped (port u s)
       then do {
         s \<leftarrow> tls_uart_tx_enable env u s;
         s \<leftarrow> tls_uart_tx_chars env u s;
         Some (on_port u (\<lambda>p. p\<lparr>hw_stopped := False\<rparr>) s) }
       else Some s })"

definition uart_handle_cts_change :: "'d uart_env \<Rightarrow> nat \<Rightarrow> bool \<Rightarrow> 'd uarts \<Rightarrow> 'd uarts option" where
  "uart_handle_cts_change env u status s =
    (let p = port u s in
     if fcStatus p = TLS_UART_FLOW_CTRL_HARDWARE \<and> flow_ctrl (opts p) = TLS_UART_FLOW_CTRL_HARDWARE \<and> uart_no p = 1 then
       (if hw_stopped p then
          (if status then do {
             let s = on_port u (\<lambda>p. p\<lparr>hw_stopped := False\<rparr>) s;
             s \<leftarrow> tls_uart_tx_enable env u s;
             tls_uart_tx_chars env u s }
           else Some s)
        else if \<not> status then tls_uart_tx_disable env u (on_port u (\<lambda>p. p\<lparr>hw_stopped := True\<rparr>) s)
        else Some s)
     else Some s)"

text \<open>Bits 2 and 8 of the mask: the receive FIFO level and the overrun interrupt. Only port 1 is handled.\<close>

definition tls_set_uart_rx_status :: "'d uart_env \<Rightarrow> nat \<Rightarrow> tls_uart_rx_flag \<Rightarrow> 'd uarts \<Rightarrow> 'd uarts option" where
  "tls_set_uart_rx_status env n status s =
    (if n \<noteq> 1 \<or> rxstatus (port 1 s) = status then Some s
     else if status = TLS_UART_RX_DISABLE then
       (if flow_ctrl (opts (port 1 s)) = TLS_UART_FLOW_CTRL_HARDWARE \<and> fcStatus (port 1 s) = TLS_UART_FLOW_CTRL_HARDWARE
        then do {
          s \<leftarrow> ur_upd env 1 UR_INTM (\<lambda>v. v OR 0x104) s;
          Some (on_port 1 (\<lambda>p. p\<lparr>rxstatus := TLS_UART_RX_DISABLE\<rparr>) s) }
        else Some s)
     else do {
       s \<leftarrow> ur_upd env 1 UR_INTM (\<lambda>v. v AND NOT 0x104) s;
       Some (on_port 1 (\<lambda>p. p\<lparr>rxstatus := TLS_UART_RX_ENABLE\<rparr>) s) })"

section \<open>The ring buffer\<close>

definition CIRC_CNT :: "u32 \<Rightarrow> u32 \<Rightarrow> u32" where
  "CIRC_CNT h t = (h - t) AND (word_of_nat TLS_UART_RX_BUF_SIZE - 1)"

definition CIRC_SPACE :: "u32 \<Rightarrow> u32 \<Rightarrow> u32" where
  "CIRC_SPACE h t = CIRC_CNT t (h + 1)"

definition ring_step :: "u32 \<Rightarrow> u32 \<Rightarrow> u32" where
  "ring_step i n = (i + n) AND (word_of_nat TLS_UART_RX_BUF_SIZE - 1)"

definition ring_put :: "nat \<Rightarrow> u8 \<Rightarrow> 'd uarts \<Rightarrow> 'd uarts option" where
  "ring_put u ch s =
    (let p = port u s in
     case recv_buf p of
       None \<Rightarrow> None
     | Some b \<Rightarrow> (if unat (recv_head p) \<ge> length b then None
                  else Some (on_port u (\<lambda>p. p\<lparr>recv_buf := Some (b[unat (recv_head p) := ch]), recv_head := ring_step (recv_head p) 1\<rparr>) s)))"

section \<open>Interrupt handlers\<close>

text \<open>The receive loop of ports 0 and 2. With flow control the turn that finds no space is the last, but stores its byte.\<close>

fun recv_bytes :: "'d uart_env \<Rightarrow> nat \<Rightarrow> u32 \<Rightarrow> nat \<Rightarrow> u32 \<Rightarrow> 'd uarts \<Rightarrow> (u32 \<times> 'd uarts) option" where
  "recv_bytes env u intr_src 0 rxlen s = Some (rxlen, s)"
| "recv_bytes env u intr_src (Suc n) rxlen s = do {
     (v, s) \<leftarrow> ur_get env u UR_RXW s;
     let ch = ucast v;
     if intr_src AND UART_RX_ERR_INT_FLAG \<noteq> 0 then do {
       s \<leftarrow> ur_upd env u UR_INTS (\<lambda>v. v OR UART_RX_ERR_INT_FLAG) s;
       recv_bytes env u intr_src n rxlen s }
     else if CIRC_SPACE (recv_head (port u s)) (recv_tail (port u s)) \<le> 2 then
       (if fcStatus (port u s) = TLS_UART_FLOW_CTRL_HARDWARE then do {
          s \<leftarrow> tls_set_uart_rx_status env (uart_no (port u s)) TLS_UART_RX_DISABLE s;
          s \<leftarrow> ring_put u ch s;
          Some (rxlen + 1, s) }
        else Some (rxlen, s))
     else do {
       s \<leftarrow> ring_put u ch s;
       recv_bytes env u intr_src n (rxlen + 1) s } }"

text \<open>The receive loop of port 1; it returns the last byte it took.\<close>

fun recv_bytes1 :: "'d uart_env \<Rightarrow> u32 \<Rightarrow> nat \<Rightarrow> u8 \<Rightarrow> 'd uarts \<Rightarrow> (u8 \<times> 'd uarts) option" where
  "recv_bytes1 env intr_src 0 ch s = Some (ch, s)"
| "recv_bytes1 env intr_src (Suc n) _ s = do {
     (v, s) \<leftarrow> ur_get env 1 UR_RXW s;
     let ch = ucast v;
     if intr_src AND UART_RX_ERR_INT_FLAG \<noteq> 0 then do {
       s \<leftarrow> ur_upd env 1 UR_INTS (\<lambda>v. v OR UART_RX_ERR_INT_FLAG) s;
       recv_bytes1 env intr_src n ch s }
     else do {
       s \<leftarrow> ring_put 1 ch s;
       recv_bytes1 env intr_src n ch s } }"

definition call_rx :: "'d uart_env \<Rightarrow> nat \<Rightarrow> u32 \<Rightarrow> 'd uarts \<Rightarrow> 'd uarts" where
  "call_rx env u rxlen s = (case rx_callback (port u s) of None \<Rightarrow> s | Some f \<Rightarrow> ue_rx_callback env f (ucast rxlen) s)"

text \<open>Reading and acknowledging the interrupt sources; the receive part runs when the FIFO interrupt is not masked.\<close>

definition take_sources :: "'d uart_env \<Rightarrow> nat \<Rightarrow> 'd uarts \<Rightarrow> (u32 \<times> 'd uarts) option" where
  "take_sources env u s = do {
     (intr_src, s) \<leftarrow> ur_get env u UR_INTS s;
     s \<leftarrow> ur_set env u UR_INTS intr_src s;
     Some (intr_src, s) }"

definition handle_overrun :: "'d uart_env \<Rightarrow> nat \<Rightarrow> u32 \<Rightarrow> 'd uarts \<Rightarrow> 'd uarts option" where
  "handle_overrun env u intr_src s =
    (if intr_src AND UIS_OVERRUN = 0 then Some s
     else do {
       s \<leftarrow> ur_upd env u UR_INTS (\<lambda>v. v OR UIS_OVERRUN) s;
       if tx_dma_on (port u s) then do {
         s \<leftarrow> ur_upd env u UR_DMAC (\<lambda>v. v AND NOT 1) s;
         ur_upd env u UR_DMAC (\<lambda>v. v OR 1) s }
       else Some s })"

definition rx_part :: "'d uart_env \<Rightarrow> nat \<Rightarrow> u32 \<Rightarrow> (nat \<Rightarrow> 'd uarts \<Rightarrow> 'd uarts option) \<Rightarrow> 'd uarts \<Rightarrow> 'd uarts option" where
  "rx_part env u intr_src receive s =
    (if intr_src AND UART_RX_INT_FLAG = 0 then Some s
     else do {
       (mask, s) \<leftarrow> ur_get env u UR_INTM s;
       if mask AND UIS_RX_FIFO \<noteq> 0 then Some s
       else do {
         (fifos, s) \<leftarrow> ur_get env u UR_FIFOS s;
         receive (unat (drop_bit 6 fifos AND 0x3F)) s } })"

definition tx_cts_part :: "'d uart_env \<Rightarrow> nat \<Rightarrow> u32 \<Rightarrow> 'd uarts \<Rightarrow> 'd uarts option" where
  "tx_cts_part env u intr_src s = do {
     s \<leftarrow> (if intr_src AND UART_TX_INT_FLAG \<noteq> 0 then tls_uart_tx_chars env u s else Some s);
     if intr_src AND UIS_CTS_CHNG \<noteq> 0 then do {
       (fifos, s) \<leftarrow> ur_get env u UR_FIFOS s;
       uart_handle_cts_change env u (fifos AND UFS_CST_STS \<noteq> 0) s }
     else Some s }"

definition UART0_IRQHandler :: "'d uart_env \<Rightarrow> 'd uarts \<Rightarrow> 'd uarts option" where
  "UART0_IRQHandler env s = do {
     (intr_src, s) \<leftarrow> take_sources env 0 s;
     s \<leftarrow> rx_part env 0 intr_src (\<lambda>cnt s. do {
            (rxlen, s) \<leftarrow> recv_bytes env 0 intr_src cnt 0 s;
            Some (call_rx env 0 rxlen s) }) s;
     tx_cts_part env 0 intr_src s }"

definition UART2_IRQHandler :: "'d uart_env \<Rightarrow> 'd uarts \<Rightarrow> 'd uarts option" where
  "UART2_IRQHandler env s = do {
     (intr_src, s) \<leftarrow> take_sources env 2 s;
     s \<leftarrow> handle_overrun env 2 intr_src s;
     s \<leftarrow> rx_part env 2 intr_src (\<lambda>cnt s. do {
            (rxlen, s) \<leftarrow> recv_bytes env 2 intr_src cnt 0 s;
            Some (if rxlen \<noteq> 0 then call_rx env 2 rxlen s else s) }) s;
     tx_cts_part env 2 intr_src s }"

text \<open>When the ring of port 1 is nearly full its oldest bytes are dropped. Three plus signs in one interrupt are counted.\<close>

definition make_room :: "tls_uart_port \<Rightarrow> tls_uart_port" where
  "make_room p = (if unat (CIRC_SPACE (recv_head p) (recv_tail p)) \<le> RX_CACHE_LIMIT
     then p\<lparr>recv_tail := ring_step (recv_tail p) (word_of_nat RX_CACHE_LIMIT)\<rparr> else p)"

definition ring_at :: "tls_uart_port \<Rightarrow> u32 \<Rightarrow> u8 option" where
  "ring_at p i = (case recv_buf p of Some b \<Rightarrow> if unat i < length b then Some (b ! unat i) else None | None \<Rightarrow> None)"

definition plus_before :: "tls_uart_port \<Rightarrow> bool option" where
  "plus_before p =
    (let h = recv_head p; both = (\<lambda>i j. do { a \<leftarrow> ring_at p i; if a = 0x2B then do { b \<leftarrow> ring_at p j; Some (b = 0x2B) } else Some False })
     in if h - 1 = 0 then both (word_of_nat TLS_UART_RX_BUF_SIZE - 1) (word_of_nat TLS_UART_RX_BUF_SIZE - 2)
        else if h - 1 = 1 then both 0 (word_of_nat TLS_UART_RX_BUF_SIZE - 1)
        else both (h - 2) (h - 3))"

definition rx_port1 :: "'d uart_env \<Rightarrow> u32 \<Rightarrow> nat \<Rightarrow> 'd uarts \<Rightarrow> 'd uarts option" where
  "rx_port1 env intr_src cnt s = do {
     let s = on_port 1 (\<lambda>p. make_room (p\<lparr>plus_char_cnt := 0\<rparr>)) s;
     (ch, s) \<leftarrow> recv_bytes1 env intr_src cnt 0 s;
     s \<leftarrow> (if cnt = 3 \<and> ch = 0x2B then do {
              plus \<leftarrow> plus_before (port 1 s);
              Some (if plus then on_port 1 (\<lambda>p. p\<lparr>plus_char_cnt := 3\<rparr>) s else s) }
            else Some s);
     Some (call_rx env 1 (word_of_nat cnt) s) }"

definition UART1_IRQHandler :: "'d uart_env \<Rightarrow> 'd uarts \<Rightarrow> 'd uarts option" where
  "UART1_IRQHandler env s = do {
     (intr_src, s) \<leftarrow> take_sources env 1 s;
     s \<leftarrow> handle_overrun env 1 intr_src s;
     s \<leftarrow> rx_part env 1 intr_src (rx_port1 env intr_src) s;
     tx_cts_part env 1 intr_src s }"

definition uart_irq :: "'d uart_env \<Rightarrow> nat \<Rightarrow> 'd uarts \<Rightarrow> 'd uarts option" where
  "uart_irq env u s = (if u = 0 then UART0_IRQHandler env s else if u = 1 then UART1_IRQHandler env s
     else if u = 2 then UART2_IRQHandler env s else None)"

section \<open>Initialisation and callbacks\<close>

definition tls_uart_rx_callback_register :: "nat \<Rightarrow> nat option \<Rightarrow> 'd uarts \<Rightarrow> 'd uarts" where
  "tls_uart_rx_callback_register u f s = (if u < 3 then on_port u (\<lambda>p. p\<lparr>rx_callback := f\<rparr>) s else s)"

definition tls_uart_tx_callback_register :: "nat \<Rightarrow> tx_cb option \<Rightarrow> 'd uarts \<Rightarrow> 'd uarts" where
  "tls_uart_tx_callback_register u f s = (if u < 3 then on_port u (\<lambda>p. p\<lparr>tx_callback := f\<rparr>) s else s)"

definition default_options :: tls_uart_options where
  "default_options = \<lparr>baudrate = 115200, charlength = TLS_UART_CHSIZE_8BIT, paritytype = TLS_UART_PMODE_DISABLED,
     flow_ctrl = TLS_UART_FLOW_CTRL_NONE, stopbits = TLS_UART_ONE_STOPBITS\<rparr>"

definition uart_base :: "nat \<Rightarrow> u32" where
  "uart_base u = (if u = 0 then HR_UART0_BASE_ADDR else if u = 1 then HR_UART1_BASE_ADDR else HR_UART2_BASE_ADDR)"

definition tls_uart_port_init :: "'d uart_env \<Rightarrow> nat \<Rightarrow> tls_uart_options option \<Rightarrow> nat \<Rightarrow> 'd uarts \<Rightarrow> (int \<times> 'd uarts) option" where
  "tls_uart_port_init env u o' modeChoose s = do {
     s \<leftarrow> UartRegInit env u s;
     if u \<ge> 3 then Some (WM_FAILED, s)
     else do {
       let s = on_port u (\<lambda>_. zero_port\<lparr>uart_regs := Some (uart_base u)\<rparr>) s;
       s \<leftarrow> (if u = 2 then ur_upd env 2 UR_LC (\<lambda>v. if modeChoose = 1 then v OR 0x1000000 else v AND NOT 0x1000000) s else Some s);
       let s = on_port u (\<lambda>p. p\<lparr>uart_no := u\<rparr>) s;
       (ret, s) \<leftarrow> tls_uart_config env (Some u) (Some (case o' of None \<Rightarrow> default_options | Some x \<Rightarrow> x)) s;
       if ret \<noteq> WM_SUCCESS then Some (WM_FAILED, s)
       else do {
         let s = on_port u (\<lambda>p. p\<lparr>rxstatus := TLS_UART_RX_ENABLE, uart_irq_no := UART_INT u\<rparr>) s;
         let s = irq_enable (ue_io env) (UART_INT u) False s;
         let (b, s) = ua_alloc env TLS_UART_RX_BUF_SIZE s;
         if b = None then Some (WM_FAILED, s)
         else do {
           let s = on_port u (\<lambda>p. p\<lparr>recv_buf := Some (replicate TLS_UART_RX_BUF_SIZE 0), recv_head := 0, recv_tail := 0, tx_fifofull := 16,
             tx_msg_pending_list := [], tx_msg_to_be_freed_list := []\<rparr>) s;
           let s = tls_uart_tx_callback_register u (Some Free_sent) s;
           Some (WM_SUCCESS, irq_enable (ue_io env) (UART_INT u) True s) } } } }"

section \<open>Reading and writing\<close>

definition tls_uart_read :: "nat \<Rightarrow> bytes option \<Rightarrow> u16 \<Rightarrow> 'd uarts \<Rightarrow> (int \<times> bytes option \<times> 'd uarts) option" where
  "tls_uart_read u buf readsize s =
    (case buf of
       None \<Rightarrow> Some (WM_FAILED, buf, s)
     | Some dst \<Rightarrow>
        (if readsize < 1 then Some (WM_FAILED, buf, s)
         else if u \<ge> 3 then None
         else let p = port u s; n = unat readsize; tail = unat (recv_tail p)
         in if unat (CIRC_CNT (recv_head p) (recv_tail p)) < n then Some (0, buf, s)
            else case recv_buf p of
              None \<Rightarrow> None
            | Some b \<Rightarrow>
               (if n > length dst \<or> tail > length b then None
                else let data = (if tail + n > TLS_UART_RX_BUF_SIZE
                                 then bslice tail (TLS_UART_RX_BUF_SIZE - tail) b @ bslice 0 (n - (TLS_UART_RX_BUF_SIZE - tail)) b
                                 else bslice tail n b)
                in Some (int n, Some (bsplice 0 data dst),
                         on_port u (\<lambda>p. p\<lparr>recv_tail := ring_step (recv_tail p) (ucast readsize)\<rparr>) s))))"

text \<open>Sending by DMA: the buffer is an address, 0 for null. Channel 2 is requested and never given back here.\<close>

definition tls_uart_dma_write :: "'d uart_env \<Rightarrow> u32 \<Rightarrow> u16 \<Rightarrow> nat option \<Rightarrow> nat \<Rightarrow> 'd uarts \<Rightarrow> (int \<times> 'd uarts) option" where
  "tls_uart_dma_write env buf writesize cmpl_callback u s =
    (if buf = 0 \<or> writesize < 1 \<or> writesize \<ge> 4096 then Some (WM_FAILED, s)
     else if u \<ge> 3 then None
     else if tx_dma_on (port u s) then Some (WM_FAILED, s)
     else do {
       let s = reg_set (ue_io env) HR_DMA_CHNL_SEL (word_of_nat u) s;
       let (dmaCh, s) = tls_dma_request (ue_io env) 2 (TLS_DMA_FLAGS_CHANNEL_SEL 1 OR TLS_DMA_FLAGS_HARD_MODE) s;
       if dmaCh \<noteq> 2 then Some (WM_FAILED, s)
       else do {
         s \<leftarrow> ur_upd env u UR_DMAC (\<lambda>v. v AND NOT 1) s;
         s \<leftarrow> tls_dma_irq_register (ue_io env) dmaCh cmpl_callback (word_of_nat u) TLS_DMA_IRQ_TRANSFER_DONE s;
         base \<leftarrow> uart_regs (port u s);
         let desc = \<lparr>desc_valid = 0x80000000, dma_ctrl = 1 OR push_bit 7 (ucast writesize), src_addr = buf, dest_addr = base + UR_TXW\<rparr>;
         (_, s) \<leftarrow> tls_dma_start (ue_io env) dmaCh (Some desc) False s;
         let s = on_port u (\<lambda>p. p\<lparr>tx_dma_on := True\<rparr>) s;
         s \<leftarrow> ur_upd env u UR_DMAC (\<lambda>v. v OR 1) s;
         let s = reg_upd (ue_io env) HR_DMA_INT_MASK (\<lambda>v. v AND NOT 0x20) s;
         Some (WM_SUCCESS, irq_enable (ue_io env) (DMA0_INT + 2) True s) } })"

definition tls_uart_write_async :: "'d uart_env \<Rightarrow> nat \<Rightarrow> bytes option \<Rightarrow> u16 \<Rightarrow> 'd uarts \<Rightarrow> (int \<times> 'd uarts) option" where
  "tls_uart_write_async env u buf writesize s =
    (case buf of
       None \<Rightarrow> Some (WM_FAILED, s)
     | Some b \<Rightarrow>
        (if writesize < 1 then Some (WM_FAILED, s)
         else if u \<ge> 3 then None
         else do {
           (ret, s) \<leftarrow> tls_uart_fill_buf env u b (ucast writesize) s;
           s \<leftarrow> (if ret = 0 then tls_uart_tx_chars_start env u s else Some s);
           Some (ret, s) }))"

definition tls_uart_tx_length :: "nat \<Rightarrow> 'd uarts \<Rightarrow> int option" where
  "tls_uart_tx_length u s = (if u < 3 then Some (sint (icount_tx (port u s))) else None)"

text \<open>Waiting for the semaphore of a port while the interrupts of a list arrive; \<open>None\<close> if it still waits after the last.\<close>

fun sem_acquire :: "'d uart_env \<Rightarrow> nat \<Rightarrow> nat list \<Rightarrow> 'd uarts \<Rightarrow> 'd uarts option" where
  "sem_acquire env u irqs s =
    (case tx_sem (port u s) of
       Some (Suc k) \<Rightarrow> Some (on_port u (\<lambda>p. p\<lparr>tx_sem := Some k\<rparr>) s)
     | _ \<Rightarrow> (case irqs of [] \<Rightarrow> None | i # irqs \<Rightarrow> do { s \<leftarrow> uart_irq env i s; sem_acquire env u irqs s }))"

declare sem_acquire.simps [simp del]

definition tls_uart_write :: "'d uart_env \<Rightarrow> nat \<Rightarrow> bytes option \<Rightarrow> u16 \<Rightarrow> nat list \<Rightarrow> 'd uarts \<Rightarrow> (int \<times> 'd uarts) option" where
  "tls_uart_write env u buf writesize irqs s =
    (if u \<ge> 3 then None
     else let (ok, d) = ue_sem_create env (dev s); s = s\<lparr>dev := d\<rparr>
     in if \<not> ok then Some (WM_FAILED, on_port u (\<lambda>p. p\<lparr>tx_sem := None\<rparr>) s)
        else do {
          let s = on_port u (\<lambda>p. p\<lparr>tx_sem := Some 0\<rparr>) s;
          (ret, s) \<leftarrow> tls_uart_write_async env u buf writesize s;
          s \<leftarrow> (if ret = 0 then sem_acquire env u irqs s else Some s);
          Some (WM_SUCCESS, on_port u (\<lambda>p. p\<lparr>tx_sem := None\<rparr>) s) })"

definition tls_uart_set_parity :: "'d uart_env \<Rightarrow> nat \<Rightarrow> tls_uart_pmode \<Rightarrow> 'd uarts \<Rightarrow> (int \<times> 'd uarts) option" where
  "tls_uart_set_parity env u ptype s = (if u < 3 then tls_uart_set_parity_inside env (Some u) ptype s else Some (WM_FAILED, s))"

definition tls_uart_set_baud_rate :: "'d uart_env \<Rightarrow> nat \<Rightarrow> u32 \<Rightarrow> 'd uarts \<Rightarrow> (int \<times> 'd uarts) option" where
  "tls_uart_set_baud_rate env u baud s = (if u < 3 then tls_uart_set_baud_rate_inside env u baud s else Some (WM_FAILED, s))"

definition tls_uart_set_stop_bits :: "'d uart_env \<Rightarrow> nat \<Rightarrow> tls_uart_stopbits \<Rightarrow> 'd uarts \<Rightarrow> (int \<times> 'd uarts) option" where
  "tls_uart_set_stop_bits env u b s = (if u < 3 then tls_uart_set_stop_bits_inside env (Some u) b s else Some (WM_FAILED, s))"

definition tls_uart_dma_off :: "nat \<Rightarrow> 'd uarts \<Rightarrow> (int \<times> 'd uarts) option" where
  "tls_uart_dma_off u s = (if u < 3 then Some (WM_SUCCESS, on_port u (\<lambda>p. p\<lparr>tx_dma_on := False\<rparr>) s) else None)"

end
