(* ===== verification/Uart_Ring.thy ===== *)
theory Uart_Ring
  imports Uart_Io
begin

text \<open>
  The ring buffer of a port as a queue: \<open>ring_q\<close> are the bytes between tail and head. Storing a byte appends it as long as
  fewer than 4095 are there, and empties the queue when there are 4095; moving the tail drops bytes from the front.
\<close>

definition ring :: "bytes \<Rightarrow> nat \<Rightarrow> nat \<Rightarrow> bytes" where
  "ring b t n = map (\<lambda>i. b ! ((t + i) mod 4096)) [0..<n]"

definition ring_ok :: "tls_uart_port \<Rightarrow> bool" where
  "ring_ok p \<longleftrightarrow> (case recv_buf p of None \<Rightarrow> False | Some b \<Rightarrow> length b = 4096) \<and> recv_head p < 4096 \<and> recv_tail p < 4096"

definition ring_cnt :: "tls_uart_port \<Rightarrow> nat" where
  "ring_cnt p = (unat (recv_head p) + (4096 - unat (recv_tail p))) mod 4096"

definition ring_q :: "tls_uart_port \<Rightarrow> bytes" where
  "ring_q p = ring (the (recv_buf p)) (unat (recv_tail p)) (ring_cnt p)"

lemma length_ring [simp]: "length (ring b t n) = n"
  by (simp add: ring_def)

lemma length_ring_q [simp]: "length (ring_q p) = ring_cnt p"
  by (simp add: ring_q_def)

lemma ring_cnt_less: "ring_cnt p < 4096"
  by (simp add: ring_cnt_def)

lemma mod_4096: "a < 8192 \<Longrightarrow> a mod 4096 = (if a < 4096 then a else a - 4096 :: nat)"
  by (simp add: mod_if)

lemma ring_slot_other:
  assumes "i < n" "n < 4096"
  shows "(t + n) mod 4096 \<noteq> (t + i) mod (4096 :: nat)"
proof -
  have "(t mod 4096 + n) mod 4096 \<noteq> (t mod 4096 + i) mod (4096 :: nat)"
    using assms mod_less_divisor [of 4096 t] by (subst (1 2) mod_4096) auto
  then show ?thesis by (simp add: mod_add_left_eq)
qed

lemma ring_append:
  assumes "n < 4096" "length b = 4096"
  shows "ring (b[(t + n) mod 4096 := x]) t (Suc n) = ring b t n @ [x]"
  using assms ring_slot_other by (auto simp: ring_def)

lemma ring_drop: "k \<le> n \<Longrightarrow> ring b ((t + k) mod 4096) (n - k) = drop k (ring b t n)"
proof (rule nth_equalityI)
  fix i assume "k \<le> n" "i < length (ring b ((t + k) mod 4096) (n - k))"
  moreover have "((t + k) mod 4096 + i) mod 4096 = (t + (k + i)) mod 4096" by (metis mod_add_left_eq add.assoc)
  moreover have "k + i < n" using calculation(1,2) by simp
  ultimately show "ring b ((t + k) mod 4096) (n - k) ! i = drop k (ring b t n) ! i"
    by (simp add: ring_def add.assoc)
qed simp

lemma ring_take: "k \<le> n \<Longrightarrow> take k (ring b t n) = ring b t k"
  by (simp add: ring_def take_map)

lemma ring_slice: "t + n \<le> 4096 \<Longrightarrow> length b = 4096 \<Longrightarrow> ring b t n = bslice t n b"
  by (rule nth_equalityI) (auto simp: ring_def nth_bslice)

lemma ring_split: "ring b t (m + n) = ring b t m @ ring b (t + m) n"
  by (rule nth_equalityI) (auto simp: ring_def nth_append algebra_simps)

lemma ring_mod: "ring b (t mod 4096) n = ring b t n"
  by (simp add: ring_def mod_add_left_eq)

lemma ring_wrapped:
  assumes "t < 4096" "4096 < t + n" "n < 4096" "length b = 4096"
  shows "ring b t n = bslice t (4096 - t) b @ bslice 0 (n - (4096 - t)) b"
proof -
  have "ring b t n = ring b t (4096 - t) @ ring b 4096 (n - (4096 - t))"
    using ring_split [of b t "4096 - t" "n - (4096 - t)"] assms by simp
  moreover have "ring b 4096 (n - (4096 - t)) = ring b 0 (n - (4096 - t))"
    using ring_mod [of b 4096] by simp
  ultimately show ?thesis using assms by (simp add: ring_slice)
qed

section \<open>Indexes\<close>

lemma and_4095: "unat ((x :: u32) AND 4095) = unat x mod 4096"
proof -
  have "x AND 4095 = take_bit 12 x" using take_bit_eq_mask [of 12 x] by (simp add: mask_eq_exp_minus_1)
  then have "unat (x AND 4095) = take_bit 12 (unat x)" by (simp add: unsigned_take_bit_eq)
  then show ?thesis by (simp add: take_bit_eq_mod)
qed

lemma ring_size: "word_of_nat TLS_UART_RX_BUF_SIZE - 1 = (4095 :: u32)"
  by (simp add: TLS_UART_RX_BUF_SIZE_def)

lemma word_mod_4096: "unat (x + y :: u32) mod 4096 = (unat x + unat y) mod 4096"
proof -
  have "unat (x + y) = (unat x + unat y) mod 2 ^ 32" by (simp add: unat_word_ariths)
  then show ?thesis by (simp add: mod_mod_cancel)
qed

lemma word_diff_mod_4096:
  assumes "unat (y :: u32) < 4096"
  shows "unat (x - y) mod 4096 = (unat x + (4096 - unat y)) mod 4096"
proof -
  have "unat x mod 4096 = (unat (x - y) + unat y) mod 4096" using word_mod_4096 [of "x - y" y] by simp
  then have "(unat x + (4096 - unat y)) mod 4096 = (unat (x - y) + unat y + (4096 - unat y)) mod 4096"
    by (metis mod_add_left_eq)
  then show ?thesis using assms by simp
qed

lemma unat_CIRC_CNT: "unat t < 4096 \<Longrightarrow> unat (CIRC_CNT h t) = (unat h + (4096 - unat t)) mod 4096"
  by (simp add: CIRC_CNT_def ring_size and_4095 word_diff_mod_4096)

lemma unat_ring_step: "unat (ring_step i n) = (unat i + unat n) mod 4096"
  by (simp add: ring_step_def ring_size and_4095 word_mod_4096)

lemma ring_okD:
  assumes "ring_ok p"
  obtains b where "recv_buf p = Some b" "length b = 4096" "unat (recv_head p) < 4096" "unat (recv_tail p) < 4096"
    "(unat (recv_tail p) + ring_cnt p) mod 4096 = unat (recv_head p)"
proof -
  obtain b where b: "recv_buf p = Some b" "length b = 4096" using assms by (auto simp: ring_ok_def split: option.splits)
  have h: "unat (recv_head p) < 4096" "unat (recv_tail p) < 4096"
    using assms by (auto simp: ring_ok_def word_less_nat_alt)
  moreover have "(unat (recv_tail p) + ring_cnt p) mod 4096 = unat (recv_head p)"
    using h by (simp add: ring_cnt_def mod_add_right_eq)
  ultimately show thesis using that b by blast
qed

lemma CIRC_CNT_ring: "ring_ok p \<Longrightarrow> unat (CIRC_CNT (recv_head p) (recv_tail p)) = ring_cnt p"
  by (auto elim!: ring_okD simp: unat_CIRC_CNT ring_cnt_def)

lemma CIRC_SPACE_ring:
  assumes "ring_ok p"
  shows "unat (CIRC_SPACE (recv_head p) (recv_tail p)) = 4095 - ring_cnt p"
proof -
  obtain h t where h: "h = unat (recv_head p)" "t = unat (recv_tail p)" "h < 4096" "t < 4096" using assms by (auto elim!: ring_okD)
  have "unat (CIRC_SPACE (recv_head p) (recv_tail p)) = unat (recv_tail p - (recv_head p + 1)) mod 4096"
    by (simp add: CIRC_SPACE_def CIRC_CNT_def ring_size and_4095)
  also have "recv_head p + 1 = word_of_nat (Suc h)" using h by simp
  also have "unat (recv_tail p - word_of_nat (Suc h)) mod 4096 = unat (recv_tail p - 1 - recv_head p) mod 4096"
    using h by (simp add: algebra_simps)
  also have "\<dots> = (unat (recv_tail p - 1) + (4096 - h)) mod 4096"
    using word_diff_mod_4096 [of "recv_head p" "recv_tail p - 1"] h by simp
  also have "\<dots> = (unat (recv_tail p - 1) mod 4096 + (4096 - h)) mod 4096" by (simp add: mod_add_left_eq)
  also have "unat (recv_tail p - 1) mod 4096 = (t + 4095) mod 4096"
    using word_diff_mod_4096 [of 1 "recv_tail p"] h by simp
  finally have "unat (CIRC_SPACE (recv_head p) (recv_tail p)) = (t + 4095 + (4096 - h)) mod 4096" by (simp add: mod_add_left_eq)
  then show ?thesis using h unfolding ring_cnt_def h(1,2) [symmetric]
    by (cases "t \<le> h") (auto simp: mod_4096 mod_if)
qed

section \<open>Operations\<close>

text \<open>What storing a byte does to a port.\<close>

definition put_byte :: "u8 \<Rightarrow> tls_uart_port \<Rightarrow> tls_uart_port" where
  "put_byte ch p = p\<lparr>recv_buf := map_option (\<lambda>b. b[unat (recv_head p) := ch]) (recv_buf p), recv_head := ring_step (recv_head p) 1\<rparr>"

lemma ring_put_ok: "ring_ok (port u s) \<Longrightarrow> ring_put u ch s = Some (on_port u (put_byte ch) s)"
  by (auto elim!: ring_okD simp: ring_put_def put_byte_def on_port_def port_def Let_def)

lemma put_byte_ring:
  assumes "ring_ok p"
  shows "ring_ok (put_byte ch p)" "ring_q (put_byte ch p) = (if ring_cnt p = 4095 then [] else ring_q p @ [ch])"
proof -
  obtain b where b: "recv_buf p = Some b" "length b = 4096" "unat (recv_head p) < 4096" "unat (recv_tail p) < 4096"
    "(unat (recv_tail p) + ring_cnt p) mod 4096 = unat (recv_head p)" using assms by (elim ring_okD)
  have h': "unat (ring_step (recv_head p) 1) = (unat (recv_head p) + 1) mod 4096" by (simp add: unat_ring_step)
  show "ring_ok (put_byte ch p)" using b h' by (simp add: ring_ok_def put_byte_def word_less_nat_alt)
  have c: "ring_cnt (put_byte ch p) = (if ring_cnt p = 4095 then 0 else Suc (ring_cnt p))"
    using b(3,4) h' unfolding ring_cnt_def put_byte_def by (auto simp: mod_4096)
  show "ring_q (put_byte ch p) = (if ring_cnt p = 4095 then [] else ring_q p @ [ch])"
  proof (cases "ring_cnt p = 4095")
    case False
    then have "ring_q (put_byte ch p) = ring (b[unat (recv_head p) := ch]) (unat (recv_tail p)) (Suc (ring_cnt p))"
      using c b(1) by (simp add: ring_q_def put_byte_def)
    also have "\<dots> = ring b (unat (recv_tail p)) (ring_cnt p) @ [ch]"
      using ring_append [where n = "ring_cnt p" and b = b and t = "unat (recv_tail p)" and x = ch] ring_cnt_less [of p] b(2,5) by simp
    finally show ?thesis using False b(1) by (simp add: ring_q_def)
  qed (simp add: c ring_q_def ring_def)
qed

lemma skip_bytes_ring:
  assumes "ring_ok p" "unat k \<le> ring_cnt p"
  defines "p' \<equiv> p\<lparr>recv_tail := ring_step (recv_tail p) k\<rparr>"
  shows "ring_ok p'" "ring_q p' = drop (unat k) (ring_q p)"
proof -
  obtain b where b: "recv_buf p = Some b" "length b = 4096" "unat (recv_head p) < 4096" "unat (recv_tail p) < 4096"
    "(unat (recv_tail p) + ring_cnt p) mod 4096 = unat (recv_head p)" using assms(1) by (elim ring_okD)
  have t: "unat (ring_step (recv_tail p) k) = (unat (recv_tail p) + unat k) mod 4096" by (simp add: unat_ring_step)
  show "ring_ok p'" using b t by (simp add: ring_ok_def p'_def word_less_nat_alt)
  have "ring_cnt p' = ring_cnt p - unat k"
    using b(3,4) t assms(2) unfolding ring_cnt_def p'_def by (auto simp: mod_4096 split: if_splits)
  then show "ring_q p' = drop (unat k) (ring_q p)"
    using ring_drop [OF assms(2), of b "unat (recv_tail p)"] b(1) t by (simp add: ring_q_def p'_def)
qed

lemma make_room_ring:
  assumes "ring_ok p"
  shows "ring_ok (make_room p)" "ring_q (make_room p) = (if 3967 \<le> ring_cnt p then drop 128 (ring_q p) else ring_q p)"
  using skip_bytes_ring [OF assms, of 128] assms ring_cnt_less [of p]
  by (auto simp: make_room_def CIRC_SPACE_ring RX_CACHE_LIMIT_def)

lemma unat_u16_u32: "unat (ucast (n :: u16) :: u32) = unat n"
proof -
  have "unat n < 2 ^ LENGTH(16)" by (rule unsigned_less)
  then have "unat n < 2 ^ 32" by simp
  then show ?thesis by (simp add: unsigned_ucast_eq take_bit_nat_eq_self)
qed

text \<open>Reading gives the oldest bytes, or nothing when there are fewer than asked for.\<close>

lemma tls_uart_read_ring:
  assumes "ring_ok (port u s)" "u < 3" "length (uart_port s) = 3" "0 < n" "unat n \<le> length dst"
  defines "q \<equiv> ring_q (port u s)"
  shows "if length q < unat n then tls_uart_read u (Some dst) n s = Some (0, Some dst, s)
    else \<exists>p'. tls_uart_read u (Some dst) n s = Some (int (unat n), Some (bsplice 0 (take (unat n) q) dst), on_port u (\<lambda>_. p') s)
      \<and> ring_ok p' \<and> ring_q p' = drop (unat n) q \<and> p' = (port u s)\<lparr>recv_tail := recv_tail p'\<rparr>"
proof -
  let ?p = "port u s" and ?n = "unat n"
  obtain b where b: "recv_buf ?p = Some b" "length b = 4096" "unat (recv_head ?p) < 4096" "unat (recv_tail ?p) < 4096"
    using assms(1) by (elim ring_okD)
  have n: "\<not> n < 1" using assms(4) by (simp add: word_less_nat_alt)
  let ?data = "if unat (recv_tail ?p) + ?n > TLS_UART_RX_BUF_SIZE
     then bslice (unat (recv_tail ?p)) (TLS_UART_RX_BUF_SIZE - unat (recv_tail ?p)) b @ bslice 0 (?n - (TLS_UART_RX_BUF_SIZE - unat (recv_tail ?p))) b
     else bslice (unat (recv_tail ?p)) ?n b"
  show ?thesis
  proof (cases "length q < ?n")
    case True
    then show ?thesis using n assms(2) by (simp add: q_def tls_uart_read_def Let_def CIRC_CNT_ring [OF assms(1)])
  next
    case False
    then have le: "?n \<le> ring_cnt ?p" by (simp add: q_def)
    have d: "?data = take ?n q"
      using le b ring_cnt_less [of ?p] ring_wrapped [of "unat (recv_tail ?p)" ?n b] ring_slice [of "unat (recv_tail ?p)" ?n b]
      by (auto simp: q_def ring_q_def ring_take TLS_UART_RX_BUF_SIZE_def)
    have u: "unat (ucast n :: u32) = ?n" by (rule unat_u16_u32)
    let ?p' = "?p\<lparr>recv_tail := ring_step (recv_tail ?p) (ucast n)\<rparr>"
    have "tls_uart_read u (Some dst) n s = Some (int ?n, Some (bsplice 0 ?data dst), on_port u (\<lambda>_. ?p') s)"
      using n assms(2,5) b le CIRC_CNT_ring [OF assms(1)] by (simp add: tls_uart_read_def Let_def on_port_def port_def)
    then show ?thesis
      using False d skip_bytes_ring [OF assms(1), of "ucast n"] le u by (auto simp: q_def intro!: exI [of _ ?p'])
  qed
qed

end
