(* ===== verification/Uart_Correct.thy ===== *)
theory Uart_Correct
  imports Uart_Ring "HOL-Library.Sublist"
begin

text \<open>
  Proofs about the UART driver. The locale \<open>uart_block\<close> says which accesses move bytes: writes to the transmit window of a
  port add a byte to what it has \<open>sent\<close>, reads of the receive window add one to what was \<open>taken\<close> from it. All other
  accesses, the semaphores and the callbacks of the application leave both alone. \<open>moves\<close> says that a piece of the
  driver moved only messages and bytes along the sending path of a port, and with \<open>rx\<close> that it left its receiving path alone.
\<close>

named_theorems moves_intros "pieces of the driver that leave the receiving path alone"

section \<open>Messages\<close>

definition unsent :: "tls_uart_tx_msg \<Rightarrow> bytes" where
  "unsent m = drop (unat (offset m)) (take (unat (buflen m)) (tx_buf m))"

definition msg_ok :: "tls_uart_tx_msg \<Rightarrow> bool" where
  "msg_ok m \<longleftrightarrow> unat (buflen m) \<le> length (tx_buf m) \<and> offset m \<le> buflen m"

definition pending_bytes :: "tls_uart_port \<Rightarrow> bytes" where
  "pending_bytes p = concat (map unsent (tx_msg_pending_list p))"

definition msgs_ok :: "nat \<Rightarrow> 'd uarts \<Rightarrow> bool" where
  "msgs_ok u s \<longleftrightarrow> list_all msg_ok (tx_msg_pending_list (port u s))"

lemma msg_step:
  assumes "msg_ok m" "offset m < buflen m"
  shows "msg_ok (m\<lparr>offset := offset m + 1\<rparr>)" "unat (offset m) < length (tx_buf m)"
    "unsent m = tx_buf m ! unat (offset m) # unsent (m\<lparr>offset := offset m + 1\<rparr>)"
proof -
  have lt: "unat (offset m) < unat (buflen m)" using assms(2) by (simp add: word_less_nat_alt)
  have "unat (buflen m) < 2 ^ LENGTH(16)" by (rule unsigned_less)
  then have s: "unat (offset m + 1) = Suc (unat (offset m))" using lt by (subst unat_word_ariths) simp
  show "msg_ok (m\<lparr>offset := offset m + 1\<rparr>)" using assms(1) lt s by (simp add: msg_ok_def word_le_nat_alt)
  show "unat (offset m) < length (tx_buf m)" using assms(1) lt by (simp add: msg_ok_def)
  then show "unsent m = tx_buf m ! unat (offset m) # unsent (m\<lparr>offset := offset m + 1\<rparr>)"
    using lt assms(1) s Cons_nth_drop_Suc [of "unat (offset m)" "take (unat (buflen m)) (tx_buf m)"]
    by (simp add: unsent_def msg_ok_def)
qed

lemma msg_done: "msg_ok m \<Longrightarrow> buflen m \<le> offset m \<Longrightarrow> unsent m = []"
  by (simp add: unsent_def word_le_nat_alt)

lemma ucast_u8_u32 [simp]: "ucast (ucast (b :: u8) :: u32) = b"
  by (rule bit_word_eqI) (simp add: bit_simps)

section \<open>Registers and ports\<close>

lemma uart_offsets [simp]:
  "UR_LC \<noteq> UR_RXW" "UR_FC \<noteq> UR_RXW" "UR_DMAC \<noteq> UR_RXW" "UR_FIFOC \<noteq> UR_RXW" "UR_INTM \<noteq> UR_RXW" "UR_INTS \<noteq> UR_RXW" "UR_FIFOS \<noteq> UR_RXW"
  "UR_LC \<noteq> UR_TXW" "UR_FC \<noteq> UR_TXW" "UR_DMAC \<noteq> UR_TXW" "UR_FIFOC \<noteq> UR_TXW" "UR_INTM \<noteq> UR_TXW" "UR_INTS \<noteq> UR_TXW" "UR_RXW \<noteq> UR_TXW"
  "UR_BD \<noteq> UR_RXW" "UR_BD \<noteq> UR_TXW" "UR_LC < 0x40" "UR_FC < 0x40" "UR_DMAC < 0x40" "UR_FIFOC < 0x40" "UR_BD < 0x40" "UR_INTM < 0x40" "UR_INTS < 0x40" "UR_FIFOS < 0x40"
  "UR_TXW < 0x40" "UR_RXW < 0x40"
  by (simp_all add: uart_regs_defs)

lemma port_cases: "u < 3 \<longleftrightarrow> u = 0 \<or> u = 1 \<or> u = (2 :: nat)"
  by arith

lemma uart_address:
  assumes "u < 3" "v < 3" "off < 0x40" "off' < 0x40"
  shows "uart_base v + off = uart_base u + off' \<longleftrightarrow> v = u \<and> off = off'"
proof -
  have n: "unat (uart_base w + x) = unat (uart_base w) + unat x" if "w < 3" "x < 0x40" for w x
  proof -
    have "unat (uart_base w) \<le> 0x40011C00" "unat x < 0x40"
      using that by (auto simp: uart_base_def uart_bases word_less_nat_alt)
    then show ?thesis by (subst unat_word_ariths) simp
  qed
  have "unat (uart_base w) = (if w = 0 then 0x40010800 else if w = 1 then 0x40010A00 else 0x40011C00)" for w
    by (simp add: uart_base_def uart_bases)
  then show ?thesis
    using n [OF assms(2,3)] n [OF assms(1,4)] assms by (auto simp: word_unat_eq_iff word_less_nat_alt port_cases)
qed

definition regs_ok :: "'d uarts \<Rightarrow> bool" where
  "regs_ok s \<longleftrightarrow> length (uart_port s) = 3 \<and> (\<forall>u<3. uart_regs (port u s) = None \<or> uart_regs (port u s) = Some (uart_base u))"

definition port_view :: "tls_uart_port \<Rightarrow> u32 option \<times> bytes option \<times> u32 \<times> u32" where
  "port_view p = (uart_regs p, recv_buf p, recv_head p, recv_tail p)"

lemma port_on_port [simp]: "length (uart_port s) = 3 \<Longrightarrow> u < 3 \<Longrightarrow> port u (on_port v f s) = (if u = v then f (port u s) else port u s)"
  by (simp add: port_def on_port_def)

lemma on_port_simps [simp]:
  "dev (on_port v f s) = dev s" "length (uart_port (on_port v f s)) = length (uart_port s)"
  "port u (s\<lparr>dev := d\<rparr>) = port u s" "port u (s\<lparr>ua_allocs := n\<rparr>) = port u s"
  by (simp_all add: on_port_def port_def)

section \<open>Runs\<close>

text \<open>Calls and interrupts one after another, each with its result and the bytes it delivered.\<close>

datatype uart_op = Irq nat | Rd nat u16 | Wr nat bytes u16 | Fc int tls_uart_flow | Rx_status nat tls_uart_rx_flag

fun uart_exec :: "'d uart_env \<Rightarrow> uart_op \<Rightarrow> 'd uarts \<Rightarrow> (int \<times> bytes \<times> 'd uarts) option" where
  "uart_exec env (Irq u) s = map_option (\<lambda>s. (0, [], s)) (uart_irq env u s)"
| "uart_exec env (Rd u n) s = map_option (\<lambda>(ret, b, s). (ret, take (nat ret) (the b), s)) (tls_uart_read u (Some (replicate (unat n) 0)) n s)"
| "uart_exec env (Wr u b n) s = map_option (\<lambda>(ret, s). (ret, [], s)) (tls_uart_write_async env u (Some b) n s)"
| "uart_exec env (Fc n fc) s = map_option (\<lambda>s. (0, [], s)) (tls_uart_set_fc_status env n fc s)"
| "uart_exec env (Rx_status n st) s = map_option (\<lambda>s. (0, [], s)) (tls_set_uart_rx_status env n st s)"

fun uart_run :: "'d uart_env \<Rightarrow> uart_op list \<Rightarrow> 'd uarts \<Rightarrow> ((uart_op \<times> int \<times> bytes) list \<times> 'd uarts) option" where
  "uart_run env [] s = Some ([], s)"
| "uart_run env (op # ops) s = do {
     (ret, b, s) \<leftarrow> uart_exec env op s;
     (outs, s) \<leftarrow> uart_run env ops s;
     Some ((op, ret, b) # outs, s) }"

text \<open>The data of accepted writes to a port, and what reads of port 1 delivered.\<close>

fun accepted :: "nat \<Rightarrow> (uart_op \<times> int \<times> bytes) list \<Rightarrow> bytes" where
  "accepted u [] = []"
| "accepted u ((Wr v b n, ret, _) # outs) = (if v = u \<and> ret = 0 then take (unat n) b else []) @ accepted u outs"
| "accepted u (_ # outs) = accepted u outs"

fun delivered :: "(uart_op \<times> int \<times> bytes) list \<Rightarrow> bytes" where
  "delivered [] = []"
| "delivered ((Rd v n, ret, b) # outs) = (if v = 1 then b else []) @ delivered outs"
| "delivered (_ # outs) = delivered outs"

text \<open>
  The queue that port 1 promises: bytes that arrive are added, unless they came with a line error, after 128 old ones are
  dropped when 3967 or more wait; a read gets what it asks for or nothing.
\<close>

datatype rx_event = Arrive bytes bool | Want nat

fun rx_queue :: "rx_event list \<Rightarrow> bytes \<Rightarrow> bytes \<times> bytes" where
  "rx_queue [] q = ([], q)"
| "rx_queue (Arrive xs ok # evs) q = rx_queue evs ((if 3967 \<le> length q then drop 128 q else q) @ (if ok then xs else []))"
| "rx_queue (Want n # evs) q =
    (if n \<le> length q then (let (out, q') = rx_queue evs (drop n q) in (take n q @ out, q')) else rx_queue evs q)"

fun arrivals :: "rx_event list \<Rightarrow> bytes" where
  "arrivals [] = []"
| "arrivals (Arrive xs ok # evs) = xs @ arrivals evs"
| "arrivals (Want n # evs) = arrivals evs"

fun wants :: "rx_event list \<Rightarrow> nat list" where
  "wants [] = []"
| "wants (Arrive xs ok # evs) = wants evs"
| "wants (Want n # evs) = n # wants evs"

fun reads :: "uart_op list \<Rightarrow> nat list" where
  "reads [] = []"
| "reads (Rd v n # ops) = (if v = 1 then unat n # reads ops else reads ops)"
| "reads (_ # ops) = reads ops"

text \<open>What the readers of the queue get is in order and nothing is made up; nothing is lost while it stays short.\<close>

lemma rx_queue_subseq: "rx_queue evs q = (out, q') \<Longrightarrow> subseq (out @ q') (q @ arrivals evs)"
proof (induction evs q arbitrary: out q' rule: rx_queue.induct)
  case (2 xs ok evs q)
  have "subseq (out @ q') (((if 3967 \<le> length q then drop 128 q else q) @ (if ok then xs else [])) @ arrivals evs)"
    using 2 by simp
  also have "subseq \<dots> (q @ xs @ arrivals evs)"
    by (auto intro!: list_emb_append_mono subseq_order.refl simp: suffix_imp_subseq suffix_drop)
  finally show ?case by simp
next
  case (3 n evs q)
  show ?case
  proof (cases "n \<le> length q")
    case True
    then obtain o' where o: "rx_queue evs (drop n q) = (o', q')" "out = take n q @ o'"
      using "3.prems" by (auto split: prod.splits)
    have "subseq (o' @ q') (drop n q @ arrivals evs)" using "3.IH"(1) [OF True o(1)] .
    then have "subseq (take n q @ o' @ q') (take n q @ drop n q @ arrivals evs)" by (simp add: subseq_append')
    moreover have "take n q @ drop n q @ arrivals evs = q @ arrivals evs" by (simp flip: append_assoc)
    ultimately show ?thesis using o(2) by simp
  next
    case False
    then show ?thesis using 3 by simp
  qed
qed simp

lemma rx_queue_append:
  "rx_queue (a @ b) q = (let (x, q) = rx_queue a q; (y, q) = rx_queue b q in (x @ y, q))"
  by (induction a q rule: rx_queue.induct) (auto simp: Let_def split: prod.splits)

lemma arrivals_append [simp]: "arrivals (a @ b) = arrivals a @ arrivals b"
  by (induction a rule: arrivals.induct) auto

lemma wants_append [simp]: "wants (a @ b) = wants a @ wants b"
  by (induction a rule: wants.induct) auto

lemma reads_Cons: "reads (op # ops) = reads [op] @ reads ops"
  by (cases op) auto

lemma delivered_Cons: "delivered (x # outs) = delivered [x] @ delivered outs"
  by (cases "x # outs" rule: delivered.cases) auto

section \<open>The sending path\<close>

locale uart_block =
  fixes env :: "'d uart_env"
    and sent taken :: "'d \<Rightarrow> nat \<Rightarrow> bytes"
  assumes reg_write: "u < 3 \<Longrightarrow> d' = tls_reg_write32 (ue_io env) a v d \<Longrightarrow>
      taken d' u = taken d u \<and> sent d' u = (if a = uart_base u + UR_TXW then sent d u @ [ucast v] else sent d u)"
    and reg_read: "u < 3 \<Longrightarrow> tls_reg_read32 (ue_io env) a d = (v, d') \<Longrightarrow>
      sent d' u = sent d u \<and> taken d' u = (if a = uart_base u + UR_RXW then taken d u @ [ucast v] else taken d u)"
    and irq_quiet: "u < 3 \<Longrightarrow> d' = tls_irq_switch (ue_io env) i on d \<Longrightarrow> sent d' u = sent d u \<and> taken d' u = taken d u"
    and sem_create: "u < 3 \<Longrightarrow> ue_sem_create env d = (ok, d') \<Longrightarrow> sent d' u = sent d u \<and> taken d' u = taken d u"
    and rx_quiet: "u < 3 \<Longrightarrow> s' = ue_rx_callback env f n s \<Longrightarrow>
      uart_port s' = uart_port s \<and> sent (dev s') u = sent (dev s) u \<and> taken (dev s') u = taken (dev s) u"
    and tx_quiet: "u < 3 \<Longrightarrow> s' = ue_tx_callback env g k s \<Longrightarrow>
      uart_port s' = uart_port s \<and> sent (dev s') u = sent (dev s) u \<and> taken (dev s') u = taken (dev s) u"
begin

definition tx_stream :: "nat \<Rightarrow> 'd uarts \<Rightarrow> bytes" where
  "tx_stream u s = sent (dev s) u @ pending_bytes (port u s)"

definition moves :: "bool \<Rightarrow> nat \<Rightarrow> 'd uarts \<Rightarrow> 'd uarts \<Rightarrow> bool" where
  "moves rx u s s' \<longleftrightarrow> (regs_ok s \<longrightarrow> regs_ok s' \<and> (rx \<longrightarrow> port_view (port u s') = port_view (port u s) \<and> taken (dev s') u = taken (dev s) u)
     \<and> (tx_msg_pending_list (port u s) = [] \<longrightarrow> tx_msg_pending_list (port u s') = [])
     \<and> (msgs_ok u s \<longrightarrow> msgs_ok u s' \<and> tx_stream u s' = tx_stream u s))"

lemma moves_refl [moves_intros]: "moves rx u s s"
  by (simp add: moves_def)

lemma moves_trans: "moves rx u a b \<Longrightarrow> moves rx u b c \<Longrightarrow> moves rx u a c"
  by (simp add: moves_def)

text \<open>All results of a call move nothing else, counted from an earlier state \<open>a\<close>.\<close>

definition keeps :: "bool \<Rightarrow> nat \<Rightarrow> 'd uarts \<Rightarrow> ('r \<Rightarrow> 'd uarts) \<Rightarrow> 'r option \<Rightarrow> bool" where
  "keeps rx u a st r \<longleftrightarrow> (\<forall>x. r = Some x \<longrightarrow> moves rx u a (st x))"

lemma keepsD: "keeps rx u a st r \<Longrightarrow> r = Some x \<Longrightarrow> moves rx u a (st x)"
  by (simp add: keeps_def)

lemma keeps_bind [moves_intros]: "keeps rx u a id f \<Longrightarrow> (\<And>s. moves rx u a s \<Longrightarrow> keeps rx u a st (g s)) \<Longrightarrow> keeps rx u a st (f \<bind> (\<lambda>s. g s))"
  by (auto simp: keeps_def Option.bind_eq_Some_conv)

lemma keeps_bind_pair [moves_intros]:
  "keeps rx u a snd f \<Longrightarrow> (\<And>v s. moves rx u a s \<Longrightarrow> keeps rx u a st (g v s)) \<Longrightarrow> keeps rx u a st (f \<bind> (\<lambda>(v, s). g v s))"
  by (fastforce simp: keeps_def Option.bind_eq_Some_conv)

lemma keeps_if [moves_intros]: "(b \<Longrightarrow> keeps rx u a st x) \<Longrightarrow> (\<not> b \<Longrightarrow> keeps rx u a st y) \<Longrightarrow> keeps rx u a st (if b then x else y)"
  by simp

lemma keeps_Some [moves_intros]: "moves rx u a (st x) \<Longrightarrow> keeps rx u a st (Some x)"
  by (simp add: keeps_def)

lemma keeps_None [moves_intros]: "keeps rx u a st None"
  by (simp add: keeps_def)

lemma keeps_from: "(\<And>x. f s = Some x \<Longrightarrow> moves rx u s (st x)) \<Longrightarrow> moves rx u a s \<Longrightarrow> keeps rx u a st (f s)"
  by (auto simp: keeps_def intro: moves_trans)

lemma moves_if [moves_intros]: "(b \<Longrightarrow> moves rx u a s) \<Longrightarrow> (\<not> b \<Longrightarrow> moves rx u a s') \<Longrightarrow> moves rx u a (if b then s else s')"
  by simp

text \<open>Changes of a port outside what \<open>moves\<close> looks at.\<close>

lemma moves_on_port [moves_intros]:
  assumes "moves rx u a s" "u < 3" "\<And>p. port_view (f p) = port_view p \<and> tx_msg_pending_list (f p) = tx_msg_pending_list p"
  shows "moves rx u a (on_port v f s)"
proof (rule moves_trans [OF assms(1)])
  have r: "uart_regs (f p) = uart_regs p" for p using assms(3) [of p] by (simp add: port_view_def)
  show "moves rx u s (on_port v f s)"
    using assms(2) assms(3) [of "port u s"] r by (auto simp: moves_def regs_ok_def msgs_ok_def tx_stream_def pending_bytes_def)
qed

lemma moves_dev:
  assumes "u < 3" "uart_port s' = uart_port s" "sent (dev s') u = sent (dev s) u" "rx \<longrightarrow> taken (dev s') u = taken (dev s) u"
  shows "moves rx u s s'"
  using assms by (simp add: moves_def regs_ok_def port_def msgs_ok_def tx_stream_def)

lemma ur_getD:
  assumes "ur_get env v off s = Some (w, s')" "v < 3" "off < 0x40" "regs_ok s"
  obtains d where "s' = s\<lparr>dev := d\<rparr>" "\<And>u. u < 3 \<Longrightarrow> sent d u = sent (dev s) u"
    "\<And>u. u < 3 \<Longrightarrow> taken d u = (if u = v \<and> off = UR_RXW then taken (dev s) u @ [ucast w] else taken (dev s) u)"
proof -
  have "uart_regs (port v s) = Some (uart_base v)" using assms by (auto simp: regs_ok_def ur_get_def)
  then obtain d where r: "tls_reg_read32 (ue_io env) (uart_base v + off) (dev s) = (w, d)" "s' = s\<lparr>dev := d\<rparr>"
    using assms(1) by (auto simp: ur_get_def reg_get_def split: prod.splits)
  show thesis using that [OF r(2)] reg_read [OF _ r(1)] uart_address [OF _ assms(2,3), of _ UR_RXW] by auto
qed

lemma ur_setD:
  assumes "ur_set env v off w s = Some s'" "v < 3" "off < 0x40" "regs_ok s"
  obtains d where "s' = s\<lparr>dev := d\<rparr>" "\<And>u. u < 3 \<Longrightarrow> taken d u = taken (dev s) u"
    "\<And>u. u < 3 \<Longrightarrow> sent d u = (if u = v \<and> off = UR_TXW then sent (dev s) u @ [ucast w] else sent (dev s) u)"
proof -
  have "uart_regs (port v s) = Some (uart_base v)" using assms by (auto simp: regs_ok_def ur_set_def)
  then have r: "s' = s\<lparr>dev := tls_reg_write32 (ue_io env) (uart_base v + off) w (dev s)\<rparr>"
    using assms(1) by (auto simp: ur_set_def reg_set_def)
  show thesis using that [OF r] reg_write [OF _ refl, of _ "uart_base v + off" w "dev s"] uart_address [OF _ assms(2,3), of _ UR_TXW] by auto
qed

lemma ur_get_keeps [moves_intros]:
  assumes "moves rx u a s" "u < 3" "rx \<longrightarrow> off \<noteq> UR_RXW \<or> u \<noteq> v" "v < 3" "off < 0x40"
  shows "keeps rx u a snd (ur_get env v off s)"
proof (rule keeps_from [OF _ assms(1)])
  fix x assume g: "ur_get env v off s = Some x"
  show "moves rx u s (snd x)"
  proof (cases "regs_ok s")
    case True
    obtain w s' where x: "x = (w, s')" by fastforce
    show ?thesis
      by (rule ur_getD [OF g [unfolded x] assms(4,5) True]) (use assms in \<open>auto simp: x intro!: moves_dev\<close>)
  qed (simp add: moves_def)
qed

lemma ur_set_keeps [moves_intros]:
  assumes "moves rx u a s" "u < 3" "off \<noteq> UR_TXW \<or> u \<noteq> v" "v < 3" "off < 0x40"
  shows "keeps rx u a id (ur_set env v off w s)"
proof (rule keeps_from [OF _ assms(1)])
  fix x assume g: "ur_set env v off w s = Some x"
  show "moves rx u s (id x)"
  proof (cases "regs_ok s")
    case True
    show ?thesis by (rule ur_setD [OF g assms(4,5) True]) (use assms in \<open>auto intro!: moves_dev\<close>)
  qed (simp add: moves_def)
qed

lemma ur_upd_keeps [moves_intros]:
  "moves rx u a s \<Longrightarrow> u < 3 \<Longrightarrow> off \<noteq> UR_TXW \<Longrightarrow> off \<noteq> UR_RXW \<Longrightarrow> v < 3 \<Longrightarrow> off < 0x40 \<Longrightarrow> keeps rx u a id (ur_upd env v off f s)"
  unfolding ur_upd_def by (intro moves_intros) auto

lemma call_tx_moves [moves_intros]:
  assumes "moves rx u a s" "u < 3"
  shows "moves rx u a (call_tx env v s)"
proof (cases "tx_callback (port v s)")
  case (Some c)
  then show ?thesis
  proof (cases c)
    case (User_tx n)
    with Some show ?thesis
      using tx_quiet [OF assms(2) refl] by (auto simp: call_tx_def intro!: moves_trans [OF assms(1)] moves_dev [OF assms(2)])
  qed (use assms in \<open>auto simp: call_tx_def tls_uart_free_tx_sent_data_def port_view_def intro!: moves_on_port\<close>)
qed (use assms in \<open>simp add: call_tx_def\<close>)

lemma sem_release_moves [moves_intros]: "moves rx u a s \<Longrightarrow> u < 3 \<Longrightarrow> moves rx u a (sem_release v s)"
  unfolding sem_release_def by (rule moves_on_port) (simp_all add: port_view_def)

text \<open>What the inner loop sends is what it takes off the message.\<close>

lemma regs_ok_frame: "regs_ok (s\<lparr>dev := d\<rparr>) = regs_ok s"
  by (simp add: regs_ok_def)

lemma send_chars_cases:
  assumes "send_chars env v cnt m s = Some (cnt', full, m', s')"
  obtains "\<not> (cnt > 0 \<and> offset m < buflen m)" "m' = m" "s' = s" "\<not> full" "cnt' = cnt - 1"
  | x where "cnt > 0" "offset m < buflen m" "ur_get env v UR_FIFOS s = Some (x, s')" "x AND UFS_TX_FIFO_CNT_MASK = tx_fifofull (port v s')"
      "m' = m" "full" "cnt' = cnt - 1"
  | x s1 s2 where "cnt > 0" "offset m < buflen m" "ur_get env v UR_FIFOS s = Some (x, s1)"
      "x AND UFS_TX_FIFO_CNT_MASK \<noteq> tx_fifofull (port v s1)"
      "ur_set env v UR_TXW (ucast (tx_buf m ! unat (offset m))) s1 = Some s2"
      "send_chars env v (cnt - 1) (m\<lparr>offset := offset m + 1\<rparr>) (on_port v (\<lambda>p. p\<lparr>icount_tx := icount_tx p + 1\<rparr>) s2)
          = Some (cnt', full, m', s')"
proof (cases "cnt > 0 \<and> offset m < buflen m")
  case False
  then show thesis using that(1) assms by (subst (asm) send_chars.simps) auto
next
  case True
  have e: "ur_get env v UR_FIFOS s \<bind> (\<lambda>(x, s1).
       if x AND UFS_TX_FIFO_CNT_MASK = tx_fifofull (port v s1) then Some (cnt - 1, True, m, s1)
       else if unat (offset m) \<ge> length (tx_buf m) then None
       else ur_set env v UR_TXW (ucast (tx_buf m ! unat (offset m))) s1 \<bind> (\<lambda>s2.
         send_chars env v (cnt - 1) (m\<lparr>offset := offset m + 1\<rparr>) (on_port v (\<lambda>p. p\<lparr>icount_tx := icount_tx p + 1\<rparr>) s2)))
     = Some (cnt', full, m', s')"
    using assms True by (subst (asm) send_chars.simps) simp
  then obtain x s1 where g: "ur_get env v UR_FIFOS s = Some (x, s1)" by (auto simp: Option.bind_eq_Some_conv)
  show thesis
  proof (cases "x AND UFS_TX_FIFO_CNT_MASK = tx_fifofull (port v s1)")
    case t: True
    then show thesis using that(2) e g True by simp
  next
    case f: False
    then show thesis using that(3) e g True by (auto simp: Option.bind_eq_Some_conv split: if_splits)
  qed
qed

lemma send_chars_effect:
  assumes "send_chars env v cnt m s = Some (cnt', full, m', s')" "v < 3" "u < 3" "regs_ok s"
  shows "regs_ok s' \<and> port_view (port u s') = port_view (port u s) \<and> taken (dev s') u = taken (dev s) u
    \<and> tx_msg_pending_list (port u s') = tx_msg_pending_list (port u s) \<and> (u \<noteq> v \<longrightarrow> sent (dev s') u = sent (dev s) u)
    \<and> (msg_ok m \<longrightarrow> msg_ok m' \<and> (u = v \<longrightarrow> sent (dev s') u @ unsent m' = sent (dev s) u @ unsent m))"
  using assms
proof (induction "nat cnt" arbitrary: cnt m s rule: less_induct)
  case less
  note r3 = less.prems(2,3,4)
  from less.prems(1) show ?case
  proof (cases rule: send_chars_cases)
    case 1
    then show ?thesis using r3 by auto
  next
    case (2 x)
    show ?thesis by (rule ur_getD [OF 2(3) r3(1) _ r3(3)]) (use 2 r3 in \<open>auto simp: regs_ok_frame\<close>)
  next
    case (3 x s1 s2)
    let ?s3 = "on_port v (\<lambda>p. p\<lparr>icount_tx := icount_tx p + 1\<rparr>) s2"
    obtain d1 where d1: "s1 = s\<lparr>dev := d1\<rparr>" "\<And>u. u < 3 \<Longrightarrow> sent d1 u = sent (dev s) u" "\<And>u. u < 3 \<Longrightarrow> taken d1 u = taken (dev s) u"
      by (rule ur_getD [OF 3(3) r3(1) _ r3(3)]) auto
    have r1: "regs_ok s1" using r3(3) d1(1) by (simp add: regs_ok_frame)
    obtain d2 where d2: "s2 = s1\<lparr>dev := d2\<rparr>" "\<And>u. u < 3 \<Longrightarrow> taken d2 u = taken (dev s1) u"
        "\<And>u. u < 3 \<Longrightarrow> sent d2 u = (if u = v then sent (dev s1) u @ [tx_buf m ! unat (offset m)] else sent (dev s1) u)"
      by (rule ur_setD [OF 3(5) r3(1) _ r1]) auto
    have len: "length (uart_port s2) = 3" using r3(3) d1(1) d2(1) by (simp add: regs_ok_def)
    have k: "regs_ok ?s3" "port_view (port u ?s3) = port_view (port u s)" "tx_msg_pending_list (port u ?s3) = tx_msg_pending_list (port u s)"
      using r3 d1(1) d2(1) len by (auto simp: regs_ok_def port_view_def)
    have "nat (cnt - 1) < nat cnt" using 3(1) by simp
    note IH = less.hyps [OF this 3(6) r3(1,2) k(1)]
    show ?thesis using IH 3(2) k r3 d1 d2 msg_step [of m] by auto
  qed
qed

lemma finish_first_moves:
  assumes "send_chars env v cnt m s = Some (cnt', full, m', s')" "v < 3" "u < 3" "tx_msg_pending_list (port v s) = m # ms"
  shows "moves rx u s (finish_first env v m' s')"
proof (cases "regs_ok s")
  case True
  note e = send_chars_effect [OF assms(1,2,3) True] send_chars_effect [OF assms(1,2,2) True]
  define s2 where "s2 = (if offset m' \<ge> buflen m' then on_port v (\<lambda>p. p\<lparr>tx_msg_pending_list := tl (tx_msg_pending_list p),
         tx_msg_to_be_freed_list := tx_msg_to_be_freed_list p @ [m']\<rparr>) s' else set_first v m' s')"
  have len: "length (uart_port s') = 3" "length (uart_port s) = 3" using e True by (simp_all add: regs_ok_def)
  have "moves rx u s s2"
    using e True assms(2,3,4) len
    by (auto simp: moves_def s2_def set_first_def regs_ok_def port_view_def msgs_ok_def tx_stream_def pending_bytes_def msg_done)
  moreover have "moves rx u s2 (finish_first env v m' s')"
    using assms(3) by (auto simp: finish_first_def s2_def intro!: moves_intros)
  ultimately show ?thesis by (rule moves_trans)
qed (simp add: moves_def)

lemma tls_uart_tx_chars_start_keeps [moves_intros]:
  assumes "moves rx u a s" "u < 3" "v < 3"
  shows "keeps rx u a id (tls_uart_tx_chars_start env v s)"
proof (rule keeps_from [OF _ assms(1)])
  fix x assume g: "tls_uart_tx_chars_start env v s = Some x"
  show "moves rx u s (id x)"
    using g assms(2,3) finish_first_moves [OF _ assms(3,2)]
    by (auto simp: tls_uart_tx_chars_start_def Option.bind_eq_Some_conv split: list.splits if_splits intro: moves_refl sem_release_moves)
qed

lemma tx_loop_moves:
  assumes "tx_loop env v cnt full s = Some s'" "v < 3" "u < 3"
  shows "moves rx u s s'"
proof -
  have "e = env \<longrightarrow> w = v \<longrightarrow> moves rx u s s'" if "tx_loop e w cnt full s = Some s'" for e w
  proof (rule tx_loop.raw_induct [OF _ that])
    fix loop :: "'d uart_env \<Rightarrow> nat \<Rightarrow> int \<Rightarrow> bool \<Rightarrow> 'd uarts \<Rightarrow> 'd uarts option" and e w cnt full s y
    assume IH: "\<And>e w c f s y. loop e w c f s = Some y \<Longrightarrow> e = env \<longrightarrow> w = v \<longrightarrow> moves rx u s y"
      and r: "(case tx_msg_pending_list (port w s) of [] \<Rightarrow> Some s
        | m # x \<Rightarrow> if full then Some s else send_chars e w cnt m s \<bind> (\<lambda>(cnt, full, m, s). loop e w cnt full (finish_first e w m s))) = Some y"
    show "e = env \<longrightarrow> w = v \<longrightarrow> moves rx u s y"
    proof (intro impI, cases "tx_msg_pending_list (port v s) = [] \<or> full")
      assume ew: "e = env" "w = v"
      case True
      then show "moves rx u s y" using r ew by (auto split: list.splits intro: moves_refl)
    next
      assume ew: "e = env" "w = v"
      case False
      then obtain m ms where p: "tx_msg_pending_list (port v s) = m # ms" "\<not> full" by (cases "tx_msg_pending_list (port v s)") auto
      then obtain c f m' s1 where x: "send_chars env v cnt m s = Some (c, f, m', s1)" "loop env v c f (finish_first env v m' s1) = Some y"
        using r ew by (auto simp: Option.bind_eq_Some_conv)
      show "moves rx u s y" using finish_first_moves [OF x(1) assms(2,3) p(1)] IH [OF x(2)] by (auto intro: moves_trans)
    qed
  qed
  then show ?thesis using assms(1) by simp
qed

lemma tls_uart_tx_chars_keeps [moves_intros]:
  assumes "moves rx u a s" "u < 3" "v < 3"
  shows "keeps rx u a id (tls_uart_tx_chars env v s)"
proof (rule keeps_from [OF _ assms(1)])
  fix x assume g: "tls_uart_tx_chars env v s = Some x"
  show "moves rx u s (id x)"
    using g assms(2,3) tx_loop_moves by (auto simp: tls_uart_tx_chars_def split: if_splits intro: moves_refl sem_release_moves)
qed

lemma keeps_pair: "keeps rx u a id f \<Longrightarrow> keeps rx u a snd (f \<bind> (\<lambda>s. Some (v, s)))"
  by (auto simp: keeps_def Option.bind_eq_Some_conv)

lemma tls_uart_set_flow_ctrl_keeps [moves_intros]:
  "moves rx u a s \<Longrightarrow> u < 3 \<Longrightarrow> v < 3 \<Longrightarrow> keeps rx u a snd (tls_uart_set_flow_ctrl env (Some v) fc s)"
  unfolding tls_uart_set_flow_ctrl_def
  by (cases fc) (auto intro!: moves_intros)

lemma tx_switch_keeps [moves_intros]:
  "moves rx u a s \<Longrightarrow> u < 3 \<Longrightarrow> v < 3 \<Longrightarrow> keeps rx u a id (tls_uart_tx_enable env v s)"
  "moves rx u a s \<Longrightarrow> u < 3 \<Longrightarrow> v < 3 \<Longrightarrow> keeps rx u a id (tls_uart_tx_disable env v s)"
  unfolding tls_uart_tx_enable_def tls_uart_tx_disable_def by (auto intro!: moves_intros)

lemma tls_uart_set_fc_status_keeps [moves_intros]:
  "moves rx u a s \<Longrightarrow> u < 3 \<Longrightarrow> keeps rx u a id (tls_uart_set_fc_status env n fc s)"
  unfolding tls_uart_set_fc_status_def Let_def by (auto simp: port_view_def intro!: moves_intros)

lemma uart_handle_cts_change_keeps [moves_intros]:
  "moves rx u a s \<Longrightarrow> u < 3 \<Longrightarrow> v < 3 \<Longrightarrow> keeps rx u a id (uart_handle_cts_change env v b s)"
  unfolding uart_handle_cts_change_def Let_def by (auto simp: port_view_def intro!: moves_intros)

lemma tls_set_uart_rx_status_keeps [moves_intros]:
  "moves rx u a s \<Longrightarrow> u < 3 \<Longrightarrow> keeps rx u a id (tls_set_uart_rx_status env n st s)"
  unfolding tls_set_uart_rx_status_def by (auto simp: port_view_def intro!: moves_intros)

lemma take_sources_keeps [moves_intros]:
  "moves rx u a s \<Longrightarrow> u < 3 \<Longrightarrow> v < 3 \<Longrightarrow> keeps rx u a snd (take_sources env v s)"
  unfolding take_sources_def by (auto intro!: moves_intros)

lemma handle_overrun_keeps [moves_intros]:
  "moves rx u a s \<Longrightarrow> u < 3 \<Longrightarrow> v < 3 \<Longrightarrow> keeps rx u a id (handle_overrun env v src s)"
  unfolding handle_overrun_def by (auto intro!: moves_intros)

lemma tx_cts_part_keeps [moves_intros]:
  "moves rx u a s \<Longrightarrow> u < 3 \<Longrightarrow> v < 3 \<Longrightarrow> keeps rx u a id (tx_cts_part env v src s)"
  unfolding tx_cts_part_def by (auto intro!: moves_intros)

lemma call_rx_moves [moves_intros]: "moves rx u a s \<Longrightarrow> u < 3 \<Longrightarrow> moves rx u a (call_rx env v n s)"
  using rx_quiet [OF _ refl] by (auto simp: call_rx_def split: option.splits intro!: moves_trans [of rx u a s] moves_dev)

section \<open>The receiving path\<close>

text \<open>Changes of the ring of a port, seen from the sending path or from another port.\<close>

lemma moves_ring_port [moves_intros]:
  assumes "moves rx u a s" "u < 3" "rx \<longrightarrow> u \<noteq> v"
    "\<And>p. uart_regs (f p) = uart_regs p \<and> tx_msg_pending_list (f p) = tx_msg_pending_list p"
  shows "moves rx u a (on_port v f s)"
proof (rule moves_trans [OF assms(1)])
  show "moves rx u s (on_port v f s)"
    using assms(2,3,4) by (auto simp: moves_def regs_ok_def msgs_ok_def tx_stream_def pending_bytes_def)
qed

lemma ring_put_keeps [moves_intros]:
  "moves rx u a s \<Longrightarrow> u < 3 \<Longrightarrow> rx \<longrightarrow> u \<noteq> v \<Longrightarrow> keeps rx u a id (ring_put v ch s)"
  unfolding ring_put_def Let_def by (auto split: option.splits intro!: keeps_None keeps_Some moves_ring_port)

lemma recv_bytes_keeps [moves_intros]:
  "moves rx u a s \<Longrightarrow> u < 3 \<Longrightarrow> v < 3 \<Longrightarrow> rx \<longrightarrow> u \<noteq> v \<Longrightarrow> keeps rx u a snd (recv_bytes env v src n k s)"
proof (induction n arbitrary: k s)
  case (Suc n)
  then show ?case unfolding recv_bytes.simps Let_def by (auto intro!: moves_intros Suc.IH)
qed (auto intro!: moves_intros)

lemma recv_bytes1_keeps [moves_intros]:
  "moves rx u a s \<Longrightarrow> u < 3 \<Longrightarrow> rx \<longrightarrow> u \<noteq> 1 \<Longrightarrow> keeps rx u a snd (recv_bytes1 env src n ch s)"
proof (induction n arbitrary: ch s)
  case (Suc n)
  then show ?case unfolding recv_bytes1.simps Let_def by (auto intro!: moves_intros Suc.IH)
qed (auto intro!: moves_intros)

lemma plus_keeps: "moves rx u a s \<Longrightarrow> u < 3 \<Longrightarrow>
    keeps rx u a id (plus_before p \<bind> (\<lambda>b. Some (if b then on_port 1 (\<lambda>p. p\<lparr>plus_char_cnt := 3\<rparr>) s else s)))"
  by (cases "plus_before p") (auto simp: port_view_def intro!: moves_intros)

lemma rx_port1_keeps [moves_intros]:
  assumes "moves rx u a s" "u < 3" "rx \<longrightarrow> u \<noteq> 1"
  shows "keeps rx u a id (rx_port1 env src n s)"
proof -
  have "moves rx u a (on_port 1 (\<lambda>p. make_room (p\<lparr>plus_char_cnt := 0\<rparr>)) s)"
    by (rule moves_ring_port [OF assms]) (simp add: make_room_def)
  then show ?thesis
    unfolding rx_port1_def Let_def using assms by (auto intro!: moves_intros plus_keeps)
qed

lemma rx_part_keeps [moves_intros]:
  "moves rx u a s \<Longrightarrow> u < 3 \<Longrightarrow> v < 3 \<Longrightarrow> (\<And>n s. moves rx u a s \<Longrightarrow> keeps rx u a id (receive n s)) \<Longrightarrow> keeps rx u a id (rx_part env v src receive s)"
  unfolding rx_part_def by (auto intro!: moves_intros)

lemma uart_irq_keeps [moves_intros]:
  assumes "moves rx u a s" "u < 3" "rx \<longrightarrow> u \<noteq> v"
  shows "keeps rx u a id (uart_irq env v s)"
  using assms unfolding uart_irq_def UART0_IRQHandler_def UART1_IRQHandler_def UART2_IRQHandler_def
  by (auto intro!: moves_intros)

lemma fill_buf_other [moves_intros]:
  "moves rx u a s \<Longrightarrow> u < 3 \<Longrightarrow> u \<noteq> v \<Longrightarrow> keeps rx u a snd (tls_uart_fill_buf env v b n s)"
  by (rule keeps_from)
    (auto simp: tls_uart_fill_buf_def ua_alloc_def Let_def moves_def regs_ok_def msgs_ok_def tx_stream_def split: if_splits)

text \<open>A message that was accepted is added to the stream.\<close>

lemma fill_buf_effect:
  assumes "tls_uart_fill_buf env u b (ucast n) s = Some (ret, s')" "u < 3" "regs_ok s"
  shows "regs_ok s' \<and> port_view (port u s') = port_view (port u s) \<and> taken (dev s') u = taken (dev s) u
    \<and> (msgs_ok u s \<longrightarrow> msgs_ok u s' \<and> tx_stream u s' = tx_stream u s @ (if ret = 0 then take (unat (n :: u16)) b else []))"
proof -
  have "ucast (ucast n :: u32) = n" by (rule bit_word_eqI) (simp add: bit_simps)
  moreover have "length (uart_port s) = 3" using assms(3) by (simp add: regs_ok_def)
  ultimately show ?thesis
    using assms unat_u16_u32 [of n]
    by (auto simp: tls_uart_fill_buf_def ua_alloc_def Let_def regs_ok_def msgs_ok_def tx_stream_def port_view_def
      pending_bytes_def unsent_def msg_ok_def split: if_splits)
qed

lemma write_async_other [moves_intros]:
  assumes "moves rx u a s" "u < 3" "u \<noteq> v"
  shows "keeps rx u a snd (tls_uart_write_async env v b n s)"
  using assms unfolding tls_uart_write_async_def
  by (auto split: option.splits intro!: moves_intros)

lemma write_async_effect:
  assumes "tls_uart_write_async env u (Some b) n s = Some (ret, s')" "u < 3" "regs_ok s"
  shows "regs_ok s' \<and> port_view (port u s') = port_view (port u s) \<and> taken (dev s') u = taken (dev s) u
    \<and> (msgs_ok u s \<longrightarrow> msgs_ok u s' \<and> tx_stream u s' = tx_stream u s @ (if ret = 0 then take (unat n) b else []))"
proof (cases "n < 1")
  case True
  then show ?thesis using assms by (auto simp: tls_uart_write_async_def WM_FAILED_def)
next
  case False
  then obtain s1 where f: "tls_uart_fill_buf env u b (ucast n) s = Some (ret, s1)"
    and c: "(if ret = 0 then tls_uart_tx_chars_start env u s1 else Some s1) = Some s'"
    using assms(1,2) by (auto simp: tls_uart_write_async_def Option.bind_eq_Some_conv)
  have "moves True u s1 s'"
    using c tls_uart_tx_chars_start_keeps [OF moves_refl assms(2,2), of True s1] moves_refl
    by (auto simp: keeps_def split: if_splits)
  then show ?thesis using fill_buf_effect [OF f assms(2,3)] by (auto simp: moves_def)
qed

text \<open>What a port takes from its receive window, and what of it reaches the ring.\<close>

lemma on_port_cong: "f (port v s) = g (port v s) \<Longrightarrow> on_port v f s = on_port v g s"
  by (simp add: on_port_def port_def)

lemma port_view_ring:
  assumes "port_view p = port_view p'"
  shows "ring_ok p = ring_ok p'" "ring_q p = ring_q p'" "ring_cnt p = ring_cnt p'"
  using assms by (simp_all add: port_view_def ring_ok_def ring_q_def ring_cnt_def)

lemma regs_ok_len: "regs_ok s \<Longrightarrow> length (uart_port s) = 3"
  by (simp add: regs_ok_def)

lemma regs_ok_put [simp]: "regs_ok s \<Longrightarrow> regs_ok (on_port v (put_byte ch) s)"
  by (auto simp: regs_ok_def put_byte_def)

lemma recv_bytes1_effect:
  assumes "recv_bytes1 env src n ch s = Some (c', s')" "regs_ok s" "ring_ok (port 1 s)"
    "src AND UART_RX_ERR_INT_FLAG = 0 \<longrightarrow> n + ring_cnt (port 1 s) \<le> 4095"
  shows "\<exists>xs. length xs = n \<and> taken (dev s') 1 = taken (dev s) 1 @ xs \<and> c' = last (ch # xs) \<and> regs_ok s' \<and> ring_ok (port 1 s')
    \<and> ring_q (port 1 s') = ring_q (port 1 s) @ (if src AND UART_RX_ERR_INT_FLAG = 0 then xs else [])"
  using assms
proof (induction n arbitrary: ch s)
  case (Suc n)
  obtain w s1 where g: "ur_get env 1 UR_RXW s = Some (w, s1)"
    using Suc.prems(1) by (auto simp: Option.bind_eq_Some_conv)
  obtain d where d: "s1 = s\<lparr>dev := d\<rparr>" "\<And>u. u < 3 \<Longrightarrow> taken d u = (if u = 1 then taken (dev s) u @ [ucast w] else taken (dev s) u)"
    by (rule ur_getD [OF g _ _ Suc.prems(2)]) auto
  have r1: "regs_ok s1" using Suc.prems(2) d(1) by (simp add: regs_ok_frame)
  show ?case
  proof (cases "src AND UART_RX_ERR_INT_FLAG = 0")
    case True
    have c: "ring_cnt (port 1 s) < 4095" using Suc.prems(4) True by simp
    let ?s2 = "on_port 1 (put_byte (ucast w)) s1"
    have p: "ring_put 1 (ucast w) s1 = Some ?s2" using ring_put_ok [of 1 s1 "ucast w"] Suc.prems(3) d(1) by simp
    have k: "recv_bytes1 env src n (ucast w) ?s2 = Some (c', s')"
      using Suc.prems(1) g True p by (simp add: Let_def)
    have q: "ring_ok (port 1 ?s2)" "ring_q (port 1 ?s2) = ring_q (port 1 s) @ [ucast w]"
      using put_byte_ring [OF Suc.prems(3)] c d(1) regs_ok_len [OF r1] by auto
    have "ring_cnt (port 1 ?s2) = Suc (ring_cnt (port 1 s))" using arg_cong [OF q(2), of length] by simp
    then obtain xs where xs: "length xs = n" "taken (dev s') 1 = taken (dev ?s2) 1 @ xs" "c' = last (ucast w # xs)" "regs_ok s'"
      "ring_ok (port 1 s')" "ring_q (port 1 s') = ring_q (port 1 ?s2) @ xs"
      using Suc.IH [OF k _ q(1)] r1 Suc.prems(4) True by auto
    then show ?thesis using q(2) d True by (intro exI [of _ "ucast w # xs"]) auto
  next
    case False
    then obtain s2 where u: "ur_upd env 1 UR_INTS (\<lambda>v. v OR UART_RX_ERR_INT_FLAG) s1 = Some s2"
      and k: "recv_bytes1 env src n (ucast w) s2 = Some (c', s')"
      using Suc.prems(1) g by (auto simp: Let_def Option.bind_eq_Some_conv)
    have "moves True 1 s1 s2" by (rule keepsD [OF ur_upd_keeps [OF moves_refl] u, simplified]) simp_all
    then have m: "regs_ok s2" "port_view (port 1 s2) = port_view (port 1 s)" "taken (dev s2) 1 = taken (dev s) 1 @ [ucast w]"
      using r1 d by (auto simp: moves_def)
    obtain xs where "length xs = n" "taken (dev s') 1 = taken (dev s2) 1 @ xs" "c' = last (ucast w # xs)" "regs_ok s'"
      "ring_ok (port 1 s')" "ring_q (port 1 s') = ring_q (port 1 s2)"
      using Suc.IH [OF k m(1)] port_view_ring [OF m(2)] Suc.prems(3) False by auto
    then show ?thesis using m port_view_ring [OF m(2)] False by (intro exI [of _ "ucast w # xs"]) auto
  qed
qed auto

lemma rx_port1_effect:
  assumes "rx_port1 env src n s = Some s'" "regs_ok s" "ring_ok (port 1 s)" "n < 128"
  shows "\<exists>xs. length xs = n \<and> taken (dev s') 1 = taken (dev s) 1 @ xs \<and> regs_ok s' \<and> ring_ok (port 1 s')
    \<and> ring_q (port 1 s') = (if 3967 \<le> ring_cnt (port 1 s) then drop 128 (ring_q (port 1 s)) else ring_q (port 1 s))
        @ (if src AND UART_RX_ERR_INT_FLAG = 0 then xs else [])"
proof -
  let ?s1 = "on_port 1 (\<lambda>p. make_room (p\<lparr>plus_char_cnt := 0\<rparr>)) s"
  have r1: "regs_ok ?s1" using assms(2) by (auto simp: regs_ok_def make_room_def)
  have v: "port_view ((port 1 s)\<lparr>plus_char_cnt := 0\<rparr>) = port_view (port 1 s)" by (simp add: port_view_def)
  have q1: "ring_ok (port 1 ?s1)"
    "ring_q (port 1 ?s1) = (if 3967 \<le> ring_cnt (port 1 s) then drop 128 (ring_q (port 1 s)) else ring_q (port 1 s))"
    using make_room_ring [of "(port 1 s)\<lparr>plus_char_cnt := 0\<rparr>"] port_view_ring [OF v] assms(3) regs_ok_len [OF assms(2)] by auto
  have c1: "n + ring_cnt (port 1 ?s1) \<le> 4095"
    using arg_cong [OF q1(2), of length] ring_cnt_less [of "port 1 s"] assms(4) by (auto split: if_splits)
  obtain c s2 where r: "recv_bytes1 env src n 0 ?s1 = Some (c, s2)" using assms(1) by (auto simp: rx_port1_def Let_def Option.bind_eq_Some_conv)
  have p: "moves True 1 s2 (on_port 1 (plus_char_cnt_update (\<lambda>_. 3)) s2)"
    by (rule moves_on_port [OF moves_refl]) (simp_all add: port_view_def)
  obtain s3 where s3: "s' = call_rx env 1 (word_of_nat n) s3" "s3 = s2 \<or> s3 = on_port 1 (plus_char_cnt_update (\<lambda>_. 3)) s2"
    using assms(1) r by (auto simp: rx_port1_def Let_def Option.bind_eq_Some_conv split: if_splits)
  have "moves True 1 s2 s3" using s3(2) p moves_refl by auto
  then have "moves True 1 s2 s'" using s3(1) call_rx_moves by simp
  then show ?thesis
    using recv_bytes1_effect [OF r r1 q1(1)] c1 q1(2) port_view_ring [of "port 1 s'" "port 1 s2"] by (auto simp: moves_def)
qed

lemma uart1_irq_effect:
  assumes "UART1_IRQHandler env s = Some s'" "regs_ok s" "ring_ok (port 1 s)"
  shows "regs_ok s' \<and> ring_ok (port 1 s') \<and> ((taken (dev s') 1 = taken (dev s) 1 \<and> ring_q (port 1 s') = ring_q (port 1 s))
    \<or> (\<exists>xs ok. length xs < 64 \<and> taken (dev s') 1 = taken (dev s) 1 @ xs \<and> rx_queue [Arrive xs ok] (ring_q (port 1 s)) = ([], ring_q (port 1 s'))))"
proof -
  obtain src s1 s2 s3 where t: "take_sources env 1 s = Some (src, s1)" "handle_overrun env 1 src s1 = Some s2"
    "rx_part env 1 src (rx_port1 env src) s2 = Some s3" "tx_cts_part env 1 src s3 = Some s'"
    using assms(1) by (auto simp: UART1_IRQHandler_def Option.bind_eq_Some_conv)
  have "moves True 1 s s1" by (rule keepsD [OF take_sources_keeps [OF moves_refl] t(1), simplified]) simp_all
  moreover have "moves True 1 s1 s2" by (rule keepsD [OF handle_overrun_keeps [OF moves_refl] t(2), simplified]) simp_all
  ultimately have m1: "moves True 1 s s2" by (rule moves_trans)
  have m3: "moves True 1 s3 s'" by (rule keepsD [OF tx_cts_part_keeps [OF moves_refl] t(4), simplified]) simp_all
  show ?thesis
  proof (cases "moves True 1 s2 s3")
    case True
    then have "moves True 1 s s'" using m1 m3 moves_trans by blast
    then show ?thesis using assms(2,3) port_view_ring [of "port 1 s'" "port 1 s"] by (simp add: moves_def)
  next
    case False
    have g: "moves True 1 s2 s4" if "ur_get env 1 UR_INTM s2 = Some (mask, s4)" for mask s4
      by (rule keepsD [OF ur_get_keeps [OF moves_refl] that, simplified]) simp_all
    obtain mask s4 fifos s5 where x: "ur_get env 1 UR_INTM s2 = Some (mask, s4)" "ur_get env 1 UR_FIFOS s4 = Some (fifos, s5)"
      "rx_port1 env src (unat (drop_bit 6 fifos AND 0x3F)) s5 = Some s3"
      using t(3) moves_refl g False by (auto simp: rx_part_def Option.bind_eq_Some_conv split: if_splits)
    have "moves True 1 s4 s5" by (rule keepsD [OF ur_get_keeps [OF moves_refl] x(2), simplified]) simp_all
    then have "moves True 1 s2 s5" using g [OF x(1)] moves_trans by blast
    then have m: "moves True 1 s s5" using m1 moves_trans by blast
    have n: "unat (drop_bit 6 fifos AND 0x3F) < 64"
    proof -
      have "drop_bit 6 fifos AND 0x3F \<le> 0x3F" by (rule word_and_le1)
      then show ?thesis by (simp add: word_le_nat_alt)
    qed
    have v: "regs_ok s5" "port_view (port 1 s5) = port_view (port 1 s)" "taken (dev s5) 1 = taken (dev s) 1"
      using m assms(2) by (auto simp: moves_def)
    obtain xs where xs: "length xs = unat (drop_bit 6 fifos AND 0x3F)" "taken (dev s3) 1 = taken (dev s) 1 @ xs" "regs_ok s3" "ring_ok (port 1 s3)"
      "ring_q (port 1 s3) = (if 3967 \<le> ring_cnt (port 1 s) then drop 128 (ring_q (port 1 s)) else ring_q (port 1 s))
        @ (if src AND UART_RX_ERR_INT_FLAG = 0 then xs else [])"
      using rx_port1_effect [OF x(3) v(1)] n port_view_ring [OF v(2)] assms(3) v(3) by auto
    have w: "regs_ok s'" "taken (dev s') 1 = taken (dev s3) 1" "port_view (port 1 s') = port_view (port 1 s3)"
      using m3 xs(3) by (auto simp: moves_def)
    have "rx_queue [Arrive xs (src AND UART_RX_ERR_INT_FLAG = 0)] (ring_q (port 1 s)) = ([], ring_q (port 1 s'))"
      using xs(5) port_view_ring(2) [OF w(3)] by simp
    then show ?thesis using w(1,2) xs(1,2,4) n port_view_ring(1) [OF w(3)] by metis
  qed
qed

section \<open>Runs of the driver\<close>

lemma uart_read_moves:
  assumes "tls_uart_read v b n s = Some (ret, b', s')" "u < 3" "rx \<longrightarrow> u \<noteq> v"
  shows "moves rx u s s'"
  using assms moves_refl
  by (auto simp: tls_uart_read_def Let_def split: option.splits if_splits intro!: moves_ring_port moves_refl)

lemma uart_exec_tx:
  assumes "uart_exec env op s = Some (ret, b, s')" "u < 3" "regs_ok s" "msgs_ok u s"
  shows "regs_ok s' \<and> msgs_ok u s' \<and> tx_stream u s' = tx_stream u s @ accepted u [(op, ret, b)]"
proof (cases "\<exists>v x n. op = Wr v x n")
  case True
  then obtain v x n where op: "op = Wr v x n" by blast
  then have w: "tls_uart_write_async env v (Some x) n s = Some (ret, s')" using assms(1) by auto
  show ?thesis
  proof (cases "v = u")
    case True
    then show ?thesis using write_async_effect [OF _ assms(2,3)] w assms(4) op by auto
  next
    case False
    then show ?thesis
      using write_async_other [OF moves_refl assms(2), of v False s] w assms op by (auto simp: keeps_def moves_def)
  qed
next
  case False
  have "moves False u s s'"
    using assms(1,2) False uart_irq_keeps [OF moves_refl assms(2)] tls_uart_set_fc_status_keeps [OF moves_refl assms(2)]
      tls_set_uart_rx_status_keeps [OF moves_refl assms(2)]
    by (cases op) (auto simp: keeps_def intro: uart_read_moves)
  moreover have "accepted u [(op, ret, b)] = []" using False by (cases op) auto
  ultimately show ?thesis using assms(3,4) by (simp add: moves_def)
qed

lemma accepted_Cons: "accepted u (x # outs) = accepted u [x] @ accepted u outs"
  by (cases "(u, x # outs)" rule: accepted.cases) auto

lemma uart_run_tx:
  assumes "uart_run env ops s = Some (outs, s')" "u < 3" "regs_ok s" "msgs_ok u s"
  shows "regs_ok s' \<and> msgs_ok u s' \<and> tx_stream u s' = tx_stream u s @ accepted u outs"
  using assms
proof (induction ops arbitrary: s outs)
  case (Cons op ops)
  then obtain ret b s1 outs1 where e: "uart_exec env op s = Some (ret, b, s1)" "uart_run env ops s1 = Some (outs1, s')"
    "outs = (op, ret, b) # outs1"
    by (auto simp: Option.bind_eq_Some_conv)
  then show ?case
    using uart_exec_tx [OF e(1) assms(2) Cons.prems(3,4)] Cons.IH [OF e(2) assms(2)] accepted_Cons [of u "(op, ret, b)" outs1] by auto
qed simp

lemma uart_read1_effect:
  assumes "tls_uart_read 1 (Some (replicate (unat n) 0)) n s = Some (ret, b, s')" "regs_ok s" "ring_ok (port 1 s)"
  shows "regs_ok s' \<and> ring_ok (port 1 s') \<and> taken (dev s') 1 = taken (dev s) 1
    \<and> rx_queue [Want (unat n)] (ring_q (port 1 s)) = (take (nat ret) (the b), ring_q (port 1 s'))"
proof (cases "n = 0")
  case True
  then show ?thesis using assms by (auto simp: tls_uart_read_def WM_FAILED_def)
next
  case False
  then have n: "0 < n" by (simp add: word_neq_0_conv)
  note r = tls_uart_read_ring [OF assms(3) _ regs_ok_len [OF assms(2)] n, of "replicate (unat n) 0"]
  show ?thesis
  proof (cases "length (ring_q (port 1 s)) < unat n")
    case True
    then show ?thesis using r assms by auto
  next
    case False
    then obtain p' where p: "Some (ret, b, s') = Some (int (unat n), Some (bsplice 0 (take (unat n) (ring_q (port 1 s))) (replicate (unat n) 0)), on_port 1 (\<lambda>_. p') s)"
      "ring_ok p'" "ring_q p' = drop (unat n) (ring_q (port 1 s))" "p' = (port 1 s)\<lparr>recv_tail := recv_tail p'\<rparr>"
      using r assms(1) by auto
    have "regs_ok s'" using p(1) arg_cong [OF p(4), of uart_regs] assms(2) by (auto simp: regs_ok_def)
    moreover have "bsplice 0 (take (unat n) (ring_q (port 1 s))) (replicate (unat n) 0) = take (unat n) (ring_q (port 1 s))"
      using False by (simp add: bsplice_def)
    ultimately show ?thesis using p(1,2,3) False regs_ok_len [OF assms(2)] by auto
  qed
qed

lemma uart_exec_rx:
  assumes "uart_exec env op s = Some (ret, b, s')" "regs_ok s" "ring_ok (port 1 s)"
  shows "\<exists>evs. regs_ok s' \<and> ring_ok (port 1 s') \<and> taken (dev s') 1 = taken (dev s) 1 @ arrivals evs \<and> wants evs = reads [op]
    \<and> rx_queue evs (ring_q (port 1 s)) = (delivered [(op, ret, b)], ring_q (port 1 s'))"
proof (cases "op = Irq 1 \<or> (\<exists>n. op = Rd 1 n)")
  case False
  have "regs_ok s' \<and> port_view (port 1 s') = port_view (port 1 s) \<and> taken (dev s') 1 = taken (dev s) 1"
  proof (cases op)
    case (Wr v x n)
    then have w: "tls_uart_write_async env v (Some x) n s = Some (ret, s')" using assms(1) by auto
    show ?thesis
    proof (cases "v = 1")
      case True
      then show ?thesis using write_async_effect [of 1 x n s ret s'] w assms(2) by simp
    next
      case False
      have "moves True 1 s s'" by (rule keepsD [OF write_async_other [OF moves_refl] w, simplified]) (use False in simp_all)
      then show ?thesis using assms(2) by (simp add: moves_def)
    qed
  next
    case (Rd v n)
    have "moves True 1 s s'" using assms(1) Rd False by (auto intro: uart_read_moves)
    then show ?thesis using assms(2) by (simp add: moves_def)
  next
    case (Irq v)
    then have w: "uart_irq env v s = Some s'" using assms(1) by auto
    have "moves True 1 s s'" by (rule keepsD [OF uart_irq_keeps [OF moves_refl] w, simplified]) (use Irq False in auto)
    then show ?thesis using assms(2) by (simp add: moves_def)
  next
    case (Fc n fc)
    then have w: "tls_uart_set_fc_status env n fc s = Some s'" using assms(1) by auto
    have "moves True 1 s s'" by (rule keepsD [OF tls_uart_set_fc_status_keeps [OF moves_refl] w, simplified]) simp_all
    then show ?thesis using assms(2) by (simp add: moves_def)
  next
    case (Rx_status n st)
    then have w: "tls_set_uart_rx_status env n st s = Some s'" using assms(1) by auto
    have "moves True 1 s s'" by (rule keepsD [OF tls_set_uart_rx_status_keeps [OF moves_refl] w, simplified]) simp_all
    then show ?thesis using assms(2) by (simp add: moves_def)
  qed
  moreover have "reads [op] = []" "delivered [(op, ret, b)] = []" using False by (cases op; auto)+
  ultimately show ?thesis
    using assms(2,3) port_view_ring [of "port 1 s'" "port 1 s"] by (intro exI [of _ "[]"]) auto
next
  case True
  then show ?thesis
  proof
    assume op: "op = Irq 1"
    then have "UART1_IRQHandler env s = Some s'" using assms(1) by (simp add: uart_irq_def)
    from uart1_irq_effect [OF this assms(2,3)] show ?thesis
    proof (elim conjE disjE exE)
      fix xs ok assume "regs_ok s'" "ring_ok (port 1 s')" "taken (dev s') 1 = taken (dev s) 1 @ xs"
        "rx_queue [Arrive xs ok] (ring_q (port 1 s)) = ([], ring_q (port 1 s'))"
      then show ?thesis using op by (intro exI [of _ "[Arrive xs ok]"]) simp
    qed (use op in \<open>auto intro: exI [of _ "[]"]\<close>)
  next
    assume "\<exists>n. op = Rd 1 n"
    then obtain n where op: "op = Rd 1 n" by blast
    then obtain b' where r: "tls_uart_read 1 (Some (replicate (unat n) 0)) n s = Some (ret, b', s')" "b = take (nat ret) (the b')"
      using assms(1) by auto
    show ?thesis using uart_read1_effect [OF r(1) assms(2,3)] op r(2) by (intro exI [of _ "[Want (unat n)]"]) simp
  qed
qed

lemma uart_run_rx:
  assumes "uart_run env ops s = Some (outs, s')" "regs_ok s" "ring_ok (port 1 s)"
  shows "\<exists>evs. regs_ok s' \<and> ring_ok (port 1 s') \<and> taken (dev s') 1 = taken (dev s) 1 @ arrivals evs \<and> wants evs = reads ops
    \<and> rx_queue evs (ring_q (port 1 s)) = (delivered outs, ring_q (port 1 s'))"
  using assms
proof (induction ops arbitrary: s outs)
  case Nil
  then show ?case by (intro exI [of _ "[]"]) simp
next
  case (Cons op ops)
  then obtain ret b s1 outs1 where e: "uart_exec env op s = Some (ret, b, s1)" "uart_run env ops s1 = Some (outs1, s')"
    "outs = (op, ret, b) # outs1"
    by (auto simp: Option.bind_eq_Some_conv)
  obtain evs1 where v1: "regs_ok s1" "ring_ok (port 1 s1)" "taken (dev s1) 1 = taken (dev s) 1 @ arrivals evs1" "wants evs1 = reads [op]"
      "rx_queue evs1 (ring_q (port 1 s)) = (delivered [(op, ret, b)], ring_q (port 1 s1))"
    using uart_exec_rx [OF e(1) Cons.prems(2,3)] by blast
  obtain evs2 where "regs_ok s'" "ring_ok (port 1 s')" "taken (dev s') 1 = taken (dev s1) 1 @ arrivals evs2" "wants evs2 = reads ops"
      "rx_queue evs2 (ring_q (port 1 s1)) = (delivered outs1, ring_q (port 1 s'))"
    using Cons.IH [OF e(2) v1(1,2)] by blast
  then show ?case
    using v1 e(3) reads_Cons [of op ops] delivered_Cons [of "(op, ret, b)" outs1]
    by (intro exI [of _ "evs1 @ evs2"]) (simp add: rx_queue_append)
qed

section \<open>Initialisation\<close>

lemma reg_set_moves [moves_intros]:
  assumes "moves rx u a s" "u < 3" "b < 3" "off < 0x40" "off \<noteq> UR_TXW"
  shows "moves rx u a (reg_set (ue_io env) (uart_base b + off) v s)"
proof (rule moves_trans [OF assms(1)])
  have "uart_base b + off \<noteq> uart_base u + UR_TXW" using uart_address [OF assms(2,3,4), of UR_TXW] assms(5) by simp
  then show "moves rx u s (reg_set (ue_io env) (uart_base b + off) v s)"
    using reg_write [OF assms(2) refl] by (auto simp: reg_set_def intro!: moves_dev [OF assms(2)])
qed

lemma irq_enable_moves [moves_intros]: "moves rx u a s \<Longrightarrow> u < 3 \<Longrightarrow> moves rx u a (irq_enable (ue_io env) i b s)"
  using irq_quiet [OF _ refl] by (auto simp: irq_enable_def intro!: moves_trans [of rx u a s] moves_dev)

lemma apb_hz_keeps [moves_intros]:
  assumes "moves rx u a s" "u < 3"
  shows "keeps rx u a snd (apb_hz env s)"
proof (rule keeps_from [OF _ assms(1)])
  fix x assume "apb_hz env s = Some x"
  then obtain v d where r: "tls_reg_read32 (ue_io env) HR_CLK_DIV_CTL (dev s) = (v, d)" "snd x = s\<lparr>dev := d\<rparr>"
    by (auto simp: apb_hz_def tls_sys_clk_get_def Let_def split: prod.splits if_splits)
  have "HR_CLK_DIV_CTL \<noteq> uart_base u + UR_RXW"
    using assms(2) by (auto simp: port_cases uart_base_def uart_bases HR_CLK_DIV_CTL_def UR_RXW_def)
  then show "moves rx u s (snd x)" using reg_read [OF assms(2) r(1)] r(2) by (auto intro!: moves_dev [OF assms(2)])
qed

lemma uart_base_simps: "HR_UART0_BASE_ADDR = uart_base 0" "HR_UART1_BASE_ADDR = uart_base 1" "HR_UART2_BASE_ADDR = uart_base 2"
  by (simp_all add: uart_base_def)

lemma UartRegInit_keeps [moves_intros]:
  "moves rx u a s \<Longrightarrow> u < 3 \<Longrightarrow> keeps rx u a id (UartRegInit env v s)"
  unfolding UartRegInit_def Uart0Init_def reg_init_12_def Let_def uart_base_simps
  by (auto intro!: moves_intros)

lemma on_opts_moves [moves_intros]: "moves rx u a s \<Longrightarrow> u < 3 \<Longrightarrow> moves rx u a (on_opts v f s)"
  unfolding on_opts_def by (rule moves_on_port) (simp_all add: port_view_def)

lemma uart_settings_keep [moves_intros]:
  assumes "moves rx u a s" "u < 3" "v < 3"
  shows "keeps rx u a snd (tls_uart_set_baud_rate_inside env v baud s)"
    "keeps rx u a snd (tls_uart_set_parity_inside env (Some v) ptype s)"
    "keeps rx u a snd (tls_uart_set_data_bits env (Some v) c s)"
    "keeps rx u a snd (tls_uart_set_stop_bits_inside env (Some v) b s)"
proof -
  show "keeps rx u a snd (tls_uart_set_baud_rate_inside env v baud s)"
    unfolding tls_uart_set_baud_rate_inside_def using assms by (auto intro!: moves_intros)
  show "keeps rx u a snd (tls_uart_set_parity_inside env (Some v) ptype s)"
    unfolding tls_uart_set_parity_inside_def Let_def using assms by (cases ptype) (auto intro!: moves_intros)
  show "keeps rx u a snd (tls_uart_set_data_bits env (Some v) c s)"
    unfolding tls_uart_set_data_bits_def Let_def using assms by (auto intro!: moves_intros)
  show "keeps rx u a snd (tls_uart_set_stop_bits_inside env (Some v) b s)"
    unfolding tls_uart_set_stop_bits_inside_def Let_def using assms by (auto intro!: moves_intros)
qed

lemma tls_uart_config_keeps [moves_intros]:
  "moves rx u a s \<Longrightarrow> u < 3 \<Longrightarrow> v < 3 \<Longrightarrow> keeps rx u a snd (tls_uart_config env (Some v) (Some x) s)"
  unfolding tls_uart_config_def Let_def by (auto intro!: moves_intros)

lemma port_init_effect:
  assumes "tls_uart_port_init env u o' mode s = Some (WM_SUCCESS, s')" "regs_ok s" "tx_msg_pending_list (port u s) = []"
  shows "u < 3 \<and> regs_ok s' \<and> msgs_ok u s' \<and> ring_ok (port u s') \<and> ring_q (port u s') = [] \<and> pending_bytes (port u s') = []
    \<and> sent (dev s') u = sent (dev s) u \<and> taken (dev s') u = taken (dev s) u"
proof -
  obtain s1 where s1: "UartRegInit env u s = Some s1" using assms(1) by (auto simp: tls_uart_port_init_def Option.bind_eq_Some_conv)
  have u: "u < 3" using assms(1) s1 by (auto simp: tls_uart_port_init_def WM_SUCCESS_def WM_FAILED_def split: if_splits)
  have m1: "moves True u s s1" by (rule keepsD [OF UartRegInit_keeps [OF moves_refl] s1, simplified]) (use u in simp_all)
  let ?s2 = "on_port u (\<lambda>_. zero_port\<lparr>uart_regs := Some (uart_base u)\<rparr>) s1"
  have r1: "regs_ok s1" using m1 assms(2) by (simp add: moves_def)
  have r2: "regs_ok ?s2" "msgs_ok u ?s2" "pending_bytes (port u ?s2) = []"
    using r1 u by (auto simp: regs_ok_def msgs_ok_def pending_bytes_def zero_port_def)
  obtain s3 ret s4 where s3: "(if u = 2 then ur_upd env 2 UR_LC (\<lambda>v. if mode = 1 then v OR 0x1000000 else v AND NOT 0x1000000) ?s2 else Some ?s2) = Some s3"
      "tls_uart_config env (Some u) (Some (case o' of None \<Rightarrow> default_options | Some x \<Rightarrow> x)) (on_port u (\<lambda>p. p\<lparr>uart_no := u\<rparr>) s3) = Some (ret, s4)"
    using assms(1) s1 u by (auto simp: tls_uart_port_init_def Option.bind_eq_Some_conv Let_def)
  let ?s5 = "irq_enable (ue_io env) (UART_INT u) False (on_port u (\<lambda>p. p\<lparr>rxstatus := TLS_UART_RX_ENABLE, uart_irq_no := UART_INT u\<rparr>) s4)"
  let ?s6 = "on_port u (\<lambda>p. p\<lparr>recv_buf := Some (replicate TLS_UART_RX_BUF_SIZE 0), recv_head := 0, recv_tail := 0, tx_fifofull := 16,
             tx_msg_pending_list := [], tx_msg_to_be_freed_list := []\<rparr>) (snd (ua_alloc env TLS_UART_RX_BUF_SIZE ?s5))"
  let ?s7 = "tls_uart_tx_callback_register u (Some Free_sent) ?s6"
  have s': "s' = irq_enable (ue_io env) (UART_INT u) True ?s7"
    using assms(1) s1 u s3 unfolding tls_uart_port_init_def Let_def WM_SUCCESS_def WM_FAILED_def
    by (auto simp: Option.bind_eq_Some_conv split: if_splits prod.splits)
  have "keeps True u ?s2 id (if u = 2 then ur_upd env 2 UR_LC (\<lambda>v. if mode = 1 then v OR 0x1000000 else v AND NOT 0x1000000) ?s2 else Some ?s2)"
    using u by (auto intro!: moves_intros)
  from keepsD [OF this s3(1)] have m3: "moves True u ?s2 s3" by simp
  have "moves True u s3 (on_port u (\<lambda>p. p\<lparr>uart_no := u\<rparr>) s3)" using u by (auto simp: port_view_def intro!: moves_intros)
  moreover have "moves True u (on_port u (\<lambda>p. p\<lparr>uart_no := u\<rparr>) s3) s4"
    by (rule keepsD [OF tls_uart_config_keeps [OF moves_refl] s3(2), simplified]) (use u in simp_all)
  moreover have "moves True u s4 ?s5" using u by (auto simp: port_view_def intro!: moves_intros)
  ultimately have m5: "moves True u ?s2 ?s5" using m3 moves_trans by blast
  then have v5: "regs_ok ?s5" "sent (dev ?s5) u = sent (dev s1) u" "taken (dev ?s5) u = taken (dev s1) u"
    using r2 regs_ok_len [OF r1] u by (auto simp: moves_def tx_stream_def pending_bytes_def zero_port_def)
  have v7: "regs_ok ?s7" "port u ?s7 = (port u ?s5)\<lparr>recv_buf := Some (replicate TLS_UART_RX_BUF_SIZE 0), recv_head := 0, recv_tail := 0, tx_fifofull := 16,
             tx_msg_pending_list := [], tx_msg_to_be_freed_list := [], tx_callback := Some Free_sent\<rparr>" "dev ?s7 = dev ?s5"
    using v5(1) u by (auto simp: regs_ok_def tls_uart_tx_callback_register_def ua_alloc_def)
  have "moves True u ?s7 s'" unfolding s' using u by (auto intro!: moves_intros)
  then have f: "regs_ok s'" "port_view (port u s') = port_view (port u ?s7)" "tx_msg_pending_list (port u s') = []"
      "msgs_ok u s'" "tx_stream u s' = tx_stream u ?s7" "taken (dev s') u = taken (dev ?s5) u"
    using v7 by (auto simp: moves_def msgs_ok_def)
  have "ring_ok (port u ?s7)" "ring_q (port u ?s7) = []" "pending_bytes (port u ?s7) = []"
    unfolding v7(2) by (simp_all add: ring_ok_def ring_q_def ring_cnt_def ring_def pending_bytes_def TLS_UART_RX_BUF_SIZE_def)
  then have g: "ring_ok (port u s')" "ring_q (port u s') = []" "sent (dev s') u = sent (dev ?s5) u"
    using port_view_ring [OF f(2)] f(3,5) v7(3) by (simp_all add: tx_stream_def pending_bytes_def)
  have "sent (dev s1) u = sent (dev s) u" "taken (dev s1) u = taken (dev s) u"
    using m1 assms(2,3) by (auto simp: moves_def tx_stream_def pending_bytes_def msgs_ok_def)
  then show ?thesis using u f(1,3,4,6) g v5(2,3) by (simp add: pending_bytes_def)
qed

end

section \<open>Ports under register accesses\<close>

lemma reg_ports:
  "ur_get env u off s = Some (w, s') \<Longrightarrow> uart_port s' = uart_port s"
  "ur_set env u off v s = Some s' \<Longrightarrow> uart_port s' = uart_port s"
  by (auto simp: ur_get_def ur_set_def reg_get_def reg_set_def split_beta)

lemma ur_upd_ports: "ur_upd env u off f s = Some s' \<Longrightarrow> uart_port s' = uart_port s"
  using reg_ports by (fastforce simp: ur_upd_def Option.bind_eq_Some_conv)

end
