(* ===== verification/Uart_Device.thy ===== *)
theory Uart_Device
  imports Uart_Correct
begin

text \<open>
  A device that obeys the laws of \<open>uart_block\<close>, for the witnesses of the properties of the UART driver: registers that
  keep what is written, a transmit FIFO that is always empty, and a receive FIFO per port.
\<close>

record ud =
  ud_regs :: "u32 \<Rightarrow> u32"
  ud_rx :: "nat \<Rightarrow> bytes"
  ud_sent :: "nat \<Rightarrow> bytes"
  ud_taken :: "nat \<Rightarrow> bytes"

text \<open>The port, if any, whose register at an offset has an address.\<close>

definition reg_port :: "u32 \<Rightarrow> u32 \<Rightarrow> nat option" where
  "reg_port off a = (if a = uart_base 0 + off then Some 0 else if a = uart_base 1 + off then Some 1
     else if a = uart_base 2 + off then Some 2 else None)"

definition ud_read :: "u32 \<Rightarrow> ud \<Rightarrow> u32 \<times> ud" where
  "ud_read a d =
    (case reg_port UR_RXW a of
       Some u \<Rightarrow> (let b = (case ud_rx d u of [] \<Rightarrow> 0 | x # _ \<Rightarrow> x)
                  in (ucast b, d\<lparr>ud_rx := (ud_rx d)(u := tl (ud_rx d u)), ud_taken := (ud_taken d)(u := ud_taken d u @ [b])\<rparr>))
     | None \<Rightarrow>
        (case reg_port UR_FIFOS a of
           Some u \<Rightarrow> (push_bit 6 (word_of_nat (min 63 (length (ud_rx d u)))), d)
         | None \<Rightarrow>
            (case reg_port UR_INTS a of
               Some u \<Rightarrow> ((if ud_rx d u = [] then 1 else 5), d)
             | None \<Rightarrow> (ud_regs d a, d))))"

definition ud_write :: "u32 \<Rightarrow> u32 \<Rightarrow> ud \<Rightarrow> ud" where
  "ud_write a v d =
    (case reg_port UR_TXW a of
       Some u \<Rightarrow> d\<lparr>ud_sent := (ud_sent d)(u := ud_sent d u @ [ucast v])\<rparr>
     | None \<Rightarrow> d\<lparr>ud_regs := (ud_regs d)(a := v)\<rparr>)"

definition ud_io :: "ud regs" where
  "ud_io = \<lparr>tls_reg_read32 = ud_read, tls_reg_write32 = ud_write, tls_irq_switch = (\<lambda>_ _ d. d)\<rparr>"

definition ud_env :: "ud uart_env" where
  "ud_env = \<lparr>ue_io = ud_io, ue_heap = zero_heap, ue_sem_create = (\<lambda>d. (True, d)), ue_rx_callback = (\<lambda>_ _ s. s), ue_tx_callback = (\<lambda>_ _ s. s)\<rparr>"

definition ud_boot :: "(nat \<Rightarrow> bytes) \<Rightarrow> ud uarts" where
  "ud_boot rx = \<lparr>dev = \<lparr>ud_regs = (\<lambda>_. 0x12), ud_rx = rx, ud_sent = (\<lambda>_. []), ud_taken = (\<lambda>_. [])\<rparr>,
     dma_context = dma_context (dma_boot ()), channels = channels (dma_boot ()), uart_port = replicate 3 zero_port, ua_allocs = 0\<rparr>"

lemma ud_simps [simp]:
  "tls_reg_read32 ud_io = ud_read" "tls_reg_write32 ud_io = ud_write" "tls_irq_switch ud_io i b d = d"
  "ue_io ud_env = ud_io" "ue_sem_create ud_env d = (True, d)" "ue_rx_callback ud_env f n s = s" "ue_tx_callback ud_env g k s = s"
  "ue_heap ud_env = zero_heap"
  by (simp_all add: ud_io_def ud_env_def)

lemma reg_port_iff: "u < 3 \<Longrightarrow> off < 0x40 \<Longrightarrow> (reg_port off a = Some u) = (a = uart_base u + off)"
  using uart_address [of 0 1 off off] uart_address [of 0 2 off off] uart_address [of 1 2 off off]
  by (auto simp: reg_port_def port_cases)

lemma reg_port_less: "reg_port off a = Some u \<Longrightarrow> u < 3"
  by (auto simp: reg_port_def split: if_splits)

interpretation ub: uart_block ud_env "ud_sent" "ud_taken"
proof
  fix u d' a v d assume "(u :: nat) < 3" "d' = tls_reg_write32 (ue_io ud_env) a v d"
  then show "ud_taken d' u = ud_taken d u \<and> ud_sent d' u = (if a = uart_base u + UR_TXW then ud_sent d u @ [ucast v] else ud_sent d u)"
    using reg_port_iff [of u UR_TXW a] by (auto simp: ud_write_def split: option.splits)
next
  fix u a d v d' assume "(u :: nat) < 3" "tls_reg_read32 (ue_io ud_env) a d = (v, d')"
  then show "ud_sent d' u = ud_sent d u \<and> ud_taken d' u = (if a = uart_base u + UR_RXW then ud_taken d u @ [ucast v] else ud_taken d u)"
    using reg_port_iff [of u UR_RXW a] by (auto simp: ud_read_def Let_def split: option.splits)
qed auto

lemma ud_boot_ready: "regs_ok (ud_boot rx)" "tx_msg_pending_list (port u (ud_boot rx)) = [] \<or> 3 \<le> u"
  by (auto simp: ud_boot_def regs_ok_def port_def zero_port_def nth_Cons' numeral_eq_Suc not_less_eq_eq)

end
