(* ===== verification/Uart_Props.thy ===== *)
theory Uart_Props
  imports Uart_Device
begin

text \<open>Properties of runs of the UART driver: what is received and what is sent.\<close>

section \<open>Order and completeness\<close>

lemma rx_queue_lossless:
  "rx_queue evs q = (out, q') \<Longrightarrow> \<forall>xs. Arrive xs False \<notin> set evs \<Longrightarrow> length q + length (arrivals evs) < 3967 \<Longrightarrow> out @ q' = q @ arrivals evs"
proof (induction evs q arbitrary: out q' rule: rx_queue.induct)
  case (2 xs ok evs q)
  then have "ok" by (cases ok) auto
  with 2 show ?case by simp
next
  case (3 n evs q)
  show ?case
  proof (cases "n \<le> length q")
    case True
    then obtain o' where o: "rx_queue evs (drop n q) = (o', q')" "out = take n q @ o'"
      using "3.prems" by (auto split: prod.splits)
    then have "o' @ q' = drop n q @ arrivals evs" using "3.IH"(1) [OF True o(1)] "3.prems"(2,3) by simp
    then have "out @ q' = (take n q @ drop n q) @ arrivals evs" using o(2) by (metis append_assoc)
    then show ?thesis by simp
  qed (use 3 in auto)
qed simp


text \<open>C6. After a port was initialised the bytes it has sent, followed by those that wait, are in every run of interrupts, writes,
  reads and changes of flow control exactly the data of the accepted writes, in order and complete.\<close>

theorem uart_tx_in_order:
  assumes "uart_block env sent taken" "regs_ok s0" "tx_msg_pending_list (port u s0) = []"
    and "tls_uart_port_init env u o' mode s0 = Some (WM_SUCCESS, s)" "uart_run env ops s = Some (outs, s')"
  shows "sent (dev s') u @ pending_bytes (port u s') = sent (dev s0) u @ accepted u outs"
proof -
  have i: "u < 3" "regs_ok s" "msgs_ok u s" "uart_block.tx_stream sent u s = sent (dev s0) u"
    using uart_block.port_init_effect [OF assms(1,4,2,3)] uart_block.tx_stream_def [OF assms(1)] by auto
  show ?thesis
    using uart_block.uart_run_tx [OF assms(1,5) i(1,2,3)] i(4) uart_block.tx_stream_def [OF assms(1)] by auto
qed

text \<open>Runs on the demonstration device: a byte is written; a byte arrives and is read.\<close>

definition demo_run :: "uart_op list \<Rightarrow> (int \<times> ud uarts \<times> (uart_op \<times> int \<times> bytes) list \<times> ud uarts) option" where
  "demo_run ops = do {
     (r, s) \<leftarrow> tls_uart_port_init ud_env 1 None 0 (ud_boot (\<lambda>_. [7]));
     (outs, s') \<leftarrow> uart_run ud_env ops s;
     Some (r, s, outs, s') }"

lemma demo_tx_result: "map_option (\<lambda>(r, s, outs, s'). (r, accepted 1 outs)) (demo_run [Wr 1 [65] 1]) = Some (0, [65])"
  by code_simp

lemma demo_rx_result: "map_option (\<lambda>(r, s, outs, s'). (r, delivered outs, ring_cnt (port 1 s'))) (demo_run [Irq 1, Rd 1 1]) = Some (0, [7], 0)"
  by code_simp

lemma demo_runE:
  assumes "demo_run ops = Some (r, s, outs, s')" "r = 0"
  shows "tls_uart_port_init ud_env 1 None 0 (ud_boot (\<lambda>_. [7])) = Some (WM_SUCCESS, s)" "uart_run ud_env ops s = Some (outs, s')"
proof -
  obtain i where i: "tls_uart_port_init ud_env 1 None 0 (ud_boot (\<lambda>_. [7])) = Some i"
    using assms(1) unfolding demo_run_def by (cases "tls_uart_port_init ud_env 1 None 0 (ud_boot (\<lambda>_. [7]))") simp_all
  obtain j where j: "uart_run ud_env ops (snd i) = Some j"
    using assms(1) i unfolding demo_run_def by (cases "uart_run ud_env ops (snd i)") (simp_all add: split_beta)
  have "(r, s, outs, s') = (fst i, snd i, fst j, snd j)"
    using assms(1) unfolding demo_run_def i bind_eq_Some_conv by (simp add: split_beta j)
  then have e: "i = (WM_SUCCESS, s)" "j = (outs, s')" using assms(2) by (cases i; cases j; simp add: WM_SUCCESS_def)+
  show "tls_uart_port_init ud_env 1 None 0 (ud_boot (\<lambda>_. [7])) = Some (WM_SUCCESS, s)" using i e(1) by simp
  show "uart_run ud_env ops s = Some (outs, s')" using j e by simp
qed

lemma ud_boot_port: "u < 3 \<Longrightarrow> tx_msg_pending_list (port u (ud_boot rx)) = []"
  using ud_boot_ready(2) [of u rx] by simp


theorem uart_tx_in_order_witness:
  "\<exists>s outs s'. uart_run ud_env [Wr 1 [65] 1] s = Some (outs, s') \<and> ud_sent (dev s') 1 @ pending_bytes (port 1 s') = [65]"
proof -
  obtain r s outs s' where d: "demo_run [Wr 1 [65] 1] = Some (r, s, outs, s')" "r = 0" "accepted 1 outs = [65]"
    using demo_tx_result by (cases "demo_run [Wr 1 [65] 1]") auto
  note r = demo_runE [OF d(1,2)]
  have "ud_sent (dev (ud_boot (\<lambda>_. [7]))) 1 = []" by (simp add: ud_boot_def)
  then show ?thesis
    using uart_tx_in_order [OF ub.uart_block_axioms ud_boot_ready(1) ud_boot_port r] r(2) d(3) by auto
qed

end
