(* ===== verification/Uart_Limits.thy ===== *)
theory Uart_Limits
  imports Uart_Device
begin

text \<open>
  Properties of single operations of the UART driver and of the DMA channels it uses: divisors of baud rates, a full ring.
\<close>

section \<open>Baud rates\<close>

text \<open>The divisor a value of the baud rate register stands for, in sixteenths.\<close>

definition divisor :: "u32 \<Rightarrow> nat" where
  "divisor v = 16 * (unat (v AND 0xFFFF) + 1) + unat (drop_bit 16 v)"

lemma baud_pack:
  assumes "unat x < 2 ^ 16" "unat y < 16"
  shows "divisor (x OR push_bit 16 y) = 16 * (unat x + 1) + unat y"
proof -
  have x: "take_bit 16 x = x" using assms(1) by (simp add: word_unat_eq_iff unsigned_take_bit_eq take_bit_nat_eq_self)
  have y: "take_bit 4 y = y" using assms(2) by (simp add: word_unat_eq_iff unsigned_take_bit_eq take_bit_nat_eq_self)
  have "(x OR push_bit 16 y) AND 0xFFFF = take_bit 16 (x OR push_bit 16 y)"
    using take_bit_eq_mask [of 16 "x OR push_bit 16 y"] by (simp add: mask_eq_exp_minus_1)
  also have "\<dots> = x" using x by (simp add: take_bit_push_bit)
  finally have l: "(x OR push_bit 16 y) AND 0xFFFF = x" .
  have "drop_bit 16 (take_bit 16 x) = 0" by (simp add: drop_bit_take_bit)
  moreover have "drop_bit 16 (push_bit 16 (take_bit 4 y)) = take_bit 4 y"
    by (rule bit_word_eqI) (auto simp: bit_simps)
  ultimately have "drop_bit 16 (x OR push_bit 16 y) = y" using x y by simp
  with l show ?thesis by (simp add: divisor_def)
qed

lemma baud_value_divisor:
  assumes "600 \<le> unat baud" "unat baud \<le> 2000000" "unat apb \<le> 40000000"
  shows "if 16 * unat baud \<le> unat apb then divisor (baud_value apb baud) = unat apb div unat baud else baud_value apb baud = 0xFFFFFFFF"
proof -
  define A B where "A = unat apb" "B = unat baud"
  note AB = A_B_def [symmetric]
  have m: "unat (16 * baud) = 16 * B" "unat (baud * 16) = 16 * B"
    using assms(2) by (simp_all add: unat_word_ariths AB)
  have q: "unat (apb div (16 * baud)) = A div (16 * B)" "unat (apb mod (baud * 16)) = A mod (16 * B)"
    by (simp_all add: unat_div unat_mod m AB)
  show ?thesis
  proof (cases "16 * B \<le> A")
    case True
    have r: "A mod (16 * B) < 16 * B" using assms(1) by (simp add: AB)
    then have "unat ((apb mod (baud * 16)) * 16) = A mod (16 * B) * 16"
      using q(2) assms(2) by (subst unat_word_ariths) (simp add: AB)
    then have y: "unat ((apb mod (baud * 16)) * 16 div (baud * 16)) = A mod (16 * B) div B"
      using m(2) by (simp add: unat_div)
    have y16: "A mod (16 * B) div B < 16" using r by (simp add: less_mult_imp_div_less)
    have q1: "1 \<le> A div (16 * B)" "A div (16 * B) < 65536"
      using True assms by (simp_all add: AB div_greater_zero_iff Suc_le_eq div_less_iff_less_mult)
    then have x: "unat (apb div (16 * baud) - 1) = A div (16 * B) - 1"
      using q(1) by (subst unat_sub) (simp_all add: word_le_nat_alt)
    have "divisor (baud_value apb baud) = 16 * (A div (16 * B) - 1 + 1) + A mod (16 * B) div B"
      using baud_pack [of "apb div (16 * baud) - 1"] x y y16 q1 by (simp add: baud_value_def)
    also have "\<dots> = 16 * (A div (16 * B)) + A mod (16 * B) div B" using q1 by simp
    also have "\<dots> = (A mod (16 * B) + 16 * (A div (16 * B)) * B) div B" using assms(1) by (simp add: AB)
    also have "A mod (16 * B) + 16 * (A div (16 * B)) * B = A" using mod_mult_div_eq [of A "16 * B"] by (simp add: ac_simps)
    finally show ?thesis using True by (simp add: AB)
  next
    case False
    then have "unat (apb div (16 * baud)) = 0" using q(1) by simp
    then have "apb div (16 * baud) = 0" by (simp only: unat_eq_0)
    then show ?thesis using False by (simp add: baud_value_def AB)
  qed
qed

lemma apb_value:
  assumes "tls_sys_clk_get io d = Some (c, d')"
  obtains w where "1 \<le> w" "w < 16" "unat (apbclk c) = 160 div 4 div w"
proof -
  obtain val where v: "drop_bit 4 val AND 0x0F \<noteq> (0 :: u32)" "apbclk c = 160 div 4 div (drop_bit 4 val AND 0x0F)"
    using assms by (auto simp: tls_sys_clk_get_def Let_def split: prod.splits if_splits)
  have "drop_bit 4 val AND 0x0F \<le> 0x0F" by (rule word_and_le1)
  then have "unat (drop_bit 4 val AND 0x0F) < 16" by (simp add: word_le_nat_alt)
  moreover have "unat (drop_bit 4 val AND 0x0F) \<noteq> 0" using v(1) by (metis unsigned_0 word_unat_eq_iff)
  ultimately show thesis using that [of "unat (drop_bit 4 val AND 0x0F)"] v(2) by (simp add: unat_div)
qed

text \<open>C32. Setting one of the listed baud rates programs the divisor of the bus clock in sixteenths, rounded down, as long as the
  clock is at least 16 times the rate; with a slower clock (a divider above 1 at two million baud) the register gets
  all ones and success is reported. Other rates are refused and change nothing.\<close>

theorem uart_baud_divisor:
  assumes "uart_regs (port u s) = Some b" "u < 3" "tls_sys_clk_get (ue_io env) (dev s) = Some (c, d)"
  defines "hz \<equiv> unat (apbclk c) * 1000000"
  shows "if baud \<in> set baud_rates
    then \<exists>v. tls_uart_set_baud_rate env u baud s
        = Some (WM_SUCCESS, on_opts u (baudrate_update (\<lambda>_. baud)) (s\<lparr>dev := tls_reg_write32 (ue_io env) (b + UR_BD) v d\<rparr>))
      \<and> (if 16 * unat baud \<le> hz then divisor v = hz div unat baud else v = 0xFFFFFFFF)
    else tls_uart_set_baud_rate env u baud s = Some (WM_FAILED, s)"
proof (cases "baud \<in> set baud_rates")
  case True
  obtain w where w: "1 \<le> w" "w < 16" "unat (apbclk c) = 160 div 4 div w" using apb_value [OF assms(3)] .
  have "unat (apbclk c) \<le> 40" unfolding w(3) by (simp add: div_le_dividend)
  then have a: "unat (apbclk c * 1000000) = hz" "hz \<le> 40000000"
    by (simp_all add: hz_def unat_word_ariths)
  have "600 \<le> unat baud" "unat baud \<le> 2000000" using True by (auto simp: baud_rates_def)
  note v = baud_value_divisor [OF this, of "apbclk c * 1000000"]
  show ?thesis
    using True assms(1,2,3) a v
    by (auto simp: tls_uart_set_baud_rate_def tls_uart_set_baud_rate_inside_def tls_uart_check_baudrate_def apb_hz_def ur_set_def
      reg_set_def port_def on_opts_def)
next
  case False
  then show ?thesis
    using assms(2) by (simp add: tls_uart_set_baud_rate_def tls_uart_set_baud_rate_inside_def tls_uart_check_baudrate_def)
qed

definition ud_port0 :: "ud uarts" where
  "ud_port0 = on_port 0 (\<lambda>_. zero_port\<lparr>uart_regs := Some (uart_base 0)\<rparr>) (ud_boot (\<lambda>_. []))"

theorem uart_baud_divisor_witness:
  "\<exists>v s'. tls_uart_set_baud_rate ud_env 0 115200 ud_port0 = Some (WM_SUCCESS, s') \<and> divisor v = 347
     \<and> ud_regs (dev s') (uart_base 0 + UR_BD) = v"
proof -
  have c: "tls_sys_clk_get (ue_io ud_env) (dev ud_port0) = Some (\<lparr>apbclk = 40, cpuclk = 80, wlanclk = 160\<rparr>, dev ud_port0)"
    by (simp add: tls_sys_clk_get_def ud_read_def ud_port0_def ud_boot_def reg_port_def uart_base_def uart_bases uart_regs_defs HR_CLK_DIV_CTL_def)
  have p: "uart_regs (port 0 ud_port0) = Some (uart_base 0)" by (simp add: ud_port0_def ud_boot_def port_def on_port_def)
  have "reg_port UR_TXW (uart_base 0 + UR_BD) = None" by code_simp
  then show ?thesis
    using uart_baud_divisor [OF p _ c, of 115200] by (auto simp: baud_rates_def ud_write_def on_opts_def)
qed

section \<open>A full ring\<close>

lemma take_sources_ports: "take_sources env u s = Some (src, s') \<Longrightarrow> uart_port s' = uart_port s"
  using reg_ports by (fastforce simp: take_sources_def Option.bind_eq_Some_conv)

lemma handle_overrun_ports: "handle_overrun env u src s = Some s' \<Longrightarrow> uart_port s' = uart_port s"
  by (auto simp: handle_overrun_def Option.bind_eq_Some_conv dest!: ur_upd_ports split: if_splits)

context uart_block
begin

lemma take_byte:
  assumes "ur_get env u UR_RXW s = Some (w, s1)" "u < 3" "regs_ok s" "ring_ok (port u s)"
  shows "uart_port s1 = uart_port s" "taken (dev s1) u = taken (dev s) u @ [ucast w]" "regs_ok s1"
    "ring_put u ch s1 = Some (on_port u (put_byte ch) s1)"
proof -
  obtain d where d: "s1 = s\<lparr>dev := d\<rparr>" "\<And>v. v < 3 \<Longrightarrow> taken d v = (if v = u then taken (dev s) v @ [ucast w] else taken (dev s) v)"
    by (rule ur_getD [OF assms(1,2) _ assms(3)]) auto
  show "uart_port s1 = uart_port s" "taken (dev s1) u = taken (dev s) u @ [ucast w]" "regs_ok s1"
    using d assms(2,3) by (simp_all add: regs_ok_frame)
  show "ring_put u ch s1 = Some (on_port u (put_byte ch) s1)" using ring_put_ok [of u s1] assms(4) d(1) by simp
qed

text \<open>Bytes with a line error are taken and dropped.\<close>

lemma recv_bytes_error:
  assumes "recv_bytes env u src n k s = Some (k', s')" "u < 3" "regs_ok s" "src AND UART_RX_ERR_INT_FLAG \<noteq> 0"
  shows "\<exists>xs. length xs = n \<and> taken (dev s') u = taken (dev s) u @ xs \<and> uart_port s' = uart_port s"
  using assms
proof (induction n arbitrary: k s)
  case (Suc n)
  obtain w s1 s2 where g: "ur_get env u UR_RXW s = Some (w, s1)" "ur_upd env u UR_INTS (\<lambda>v. v OR UART_RX_ERR_INT_FLAG) s1 = Some s2"
    and r: "recv_bytes env u src n k s2 = Some (k', s')"
    using Suc.prems(1,4) by (auto simp: Let_def Option.bind_eq_Some_conv)
  obtain d where d: "s1 = s\<lparr>dev := d\<rparr>" "\<And>v. v < 3 \<Longrightarrow> taken d v = (if v = u then taken (dev s) v @ [ucast w] else taken (dev s) v)"
    by (rule ur_getD [OF g(1) Suc.prems(2) _ Suc.prems(3)]) auto
  have "moves True u s1 s2" by (rule keepsD [OF ur_upd_keeps [OF moves_refl] g(2), simplified]) (use Suc.prems(2) in simp_all)
  then have m: "regs_ok s2" "taken (dev s2) u = taken (dev s) u @ [ucast w]" "uart_port s2 = uart_port s"
    using Suc.prems(2,3) d ur_upd_ports [OF g(2)] by (auto simp: moves_def regs_ok_frame)
  obtain xs where "length xs = n" "taken (dev s') u = taken (dev s2) u @ xs" "uart_port s' = uart_port s2"
    using Suc.IH [OF r Suc.prems(2) m(1) Suc.prems(4)] by blast
  then show ?case using m by (intro exI [of _ "ucast w # xs"]) simp
qed simp

lemma recv_bytes_ring:
  assumes "recv_bytes env u src n k s = Some (k', s')" "u = 0 \<or> u = 2" "regs_ok s" "ring_ok (port u s)" "uart_no (port u s) \<noteq> 1"
    and "src AND UART_RX_ERR_INT_FLAG = 0"
  shows "\<exists>xs. length xs = min n (Suc (4093 - ring_cnt (port u s))) \<and> taken (dev s') u = taken (dev s) u @ xs
    \<and> ring_ok (port u s') \<and> ring_q (port u s') =
      (if fcStatus (port u s) = TLS_UART_FLOW_CTRL_NONE then ring_q (port u s) @ take (4093 - ring_cnt (port u s)) xs
       else if xs \<noteq> [] \<and> ring_cnt (port u s) = 4095 then [] else ring_q (port u s) @ xs)"
  using assms
proof (induction n arbitrary: k s)
  case (Suc n)
  note P = Suc.prems
  have u: "u < 3" using P(2) by auto
  obtain w s1 where g: "ur_get env u UR_RXW s = Some (w, s1)" using P(1) by (auto simp: Option.bind_eq_Some_conv)
  note t = take_byte [OF g u P(3,4)]
  have p: "port u s1 = port u s" using t(1) by (simp add: port_def)
  have space: "CIRC_SPACE (recv_head (port u s1)) (recv_tail (port u s1)) \<le> 2 \<longleftrightarrow> 4093 \<le> ring_cnt (port u s)"
    using CIRC_SPACE_ring [OF P(4)] ring_cnt_less [of "port u s"] by (auto simp: p word_le_nat_alt)
  let ?s2 = "on_port u (put_byte (ucast w)) s1"
  have q2: "port u ?s2 = put_byte (ucast w) (port u s)" using regs_ok_len [OF t(3)] u p by simp
  note pb = put_byte_ring [OF P(4), of "ucast w"]
  show ?case
  proof (cases "4093 \<le> ring_cnt (port u s)")
    case True
    have st: "tls_set_uart_rx_status env (uart_no (port u s1)) TLS_UART_RX_DISABLE s1 = Some s1"
      using P(5) p by (simp add: tls_set_uart_rx_status_def)
    show ?thesis
    proof (cases "fcStatus (port u s) = TLS_UART_FLOW_CTRL_NONE")
      case fc: True
      then have "s' = s1" using P(1,6) g True space p by (simp add: Let_def)
      then show ?thesis using True fc t p P(4) by (intro exI [of _ "[ucast w]"]) simp
    next
      case fc: False
      then have "fcStatus (port u s1) = TLS_UART_FLOW_CTRL_HARDWARE" using p by (cases "fcStatus (port u s)") auto
      then have "s' = ?s2" using P(1,6) g True space st t(4) by (simp add: Let_def)
      then show ?thesis using True fc t q2 pb by (intro exI [of _ "[ucast w]"]) auto
    qed
  next
    case False
    then have r: "recv_bytes env u src n (k + 1) ?s2 = Some (k', s')"
      using P(1,6) g space t(4) by (simp add: Let_def)
    have c: "ring_cnt (port u ?s2) = Suc (ring_cnt (port u s))"
      using arg_cong [OF pb(2), of length] False q2 by simp
    have f: "regs_ok ?s2" "ring_ok (port u ?s2)" "uart_no (port u ?s2) \<noteq> 1" "fcStatus (port u ?s2) = fcStatus (port u s)"
      using t(3) pb(1) P(5) unfolding q2 by (simp_all add: put_byte_def)
    obtain xs where xs: "length xs = min n (Suc (4093 - ring_cnt (port u ?s2)))" "taken (dev s') u = taken (dev ?s2) u @ xs" "ring_ok (port u s')"
      "ring_q (port u s') = (if fcStatus (port u ?s2) = TLS_UART_FLOW_CTRL_NONE then ring_q (port u ?s2) @ take (4093 - ring_cnt (port u ?s2)) xs
       else if xs \<noteq> [] \<and> ring_cnt (port u ?s2) = 4095 then [] else ring_q (port u ?s2) @ xs)"
      using Suc.IH [OF r P(2) f(1,2,3) P(6)] by blast
    have "ring_q (port u ?s2) = ring_q (port u s) @ [ucast w]" using pb(2) False q2 by simp
    then show ?thesis using xs c f(4) t(2) False
      by (intro exI [of _ "ucast w # xs"]) (auto simp: Suc_diff_le take_Cons')
  qed
qed auto

text \<open>The receive part of a handler of ports 0 and 2.\<close>

lemma rx_part_cases:
  assumes "rx_part env u src receive s = Some s'" "u < 3" "regs_ok s"
  obtains (none) "moves True u s s'"
  | (some) n s1 where "n < 64" "moves True u s s1" "uart_port s1 = uart_port s" "receive n s1 = Some s'"
proof (cases "src AND UART_RX_INT_FLAG = 0")
  case True
  then show thesis using assms(1) none moves_refl by (simp add: rx_part_def)
next
  case False
  then obtain mask s2 where g: "ur_get env u UR_INTM s = Some (mask, s2)"
    "(if mask AND UIS_RX_FIFO \<noteq> 0 then Some s2 else ur_get env u UR_FIFOS s2 \<bind> (\<lambda>(fifos, s). receive (unat (drop_bit 6 fifos AND 0x3F)) s)) = Some s'"
    using assms(1) by (auto simp: rx_part_def Option.bind_eq_Some_conv)
  have m2: "moves True u s s2" by (rule keepsD [OF ur_get_keeps [OF moves_refl] g(1), simplified]) (use assms(2) in simp_all)
  show thesis
  proof (cases "mask AND UIS_RX_FIFO \<noteq> 0")
    case True
    then show thesis using g(2) m2 none by simp
  next
    case False
    then obtain fifos s3 where f: "ur_get env u UR_FIFOS s2 = Some (fifos, s3)" "receive (unat (drop_bit 6 fifos AND 0x3F)) s3 = Some s'"
      using g(2) by (auto simp: Option.bind_eq_Some_conv)
    have "moves True u s2 s3" by (rule keepsD [OF ur_get_keeps [OF moves_refl] f(1), simplified]) (use assms(2) in simp_all)
    moreover have "drop_bit 6 fifos AND 0x3F \<le> 0x3F" by (rule word_and_le1)
    then have "unat (drop_bit 6 fifos AND 0x3F) < 64" by (simp add: word_le_nat_alt)
    ultimately show thesis
      using some f(2) m2 moves_trans reg_ports(1) [OF g(1)] reg_ports(1) [OF f(1)] by metis
  qed
qed

lemma uart02_irq_effect:
  assumes "uart_irq env u s = Some s'" "u = 0 \<or> u = 2" "regs_ok s" "ring_ok (port u s)" "uart_no (port u s) \<noteq> 1"
    and "tls_reg_read32 (ue_io env) (uart_base u + UR_INTS) (dev s) = (src, d)"
  shows "\<exists>xs. length xs < 64 \<and> taken (dev s') u = taken (dev s) u @ xs \<and> ring_q (port u s') =
      (if src AND UART_RX_ERR_INT_FLAG \<noteq> 0 then ring_q (port u s)
       else if fcStatus (port u s) = TLS_UART_FLOW_CTRL_NONE then ring_q (port u s) @ take (4093 - ring_cnt (port u s)) xs
       else if xs \<noteq> [] \<and> ring_cnt (port u s) = 4095 then [] else ring_q (port u s) @ xs)"
proof -
  have u: "u < 3" using assms(2) by auto
  obtain src' s1 s2 s3 rcv where t: "take_sources env u s = Some (src', s1)" "s2 = s1 \<or> handle_overrun env u src' s1 = Some s2"
      "rx_part env u src' rcv s2 = Some s3" "tx_cts_part env u src' s3 = Some s'"
    and rcv: "\<And>n a b. rcv n a = Some b \<Longrightarrow> \<exists>k c. recv_bytes env u src' n 0 a = Some (k, c) \<and> (b = c \<or> b = call_rx env u k c)"
  proof -
    from assms(2) show thesis
    proof
      assume "u = 0"
      then show thesis using assms(1) that
        by (fastforce simp: uart_irq_def UART0_IRQHandler_def Option.bind_eq_Some_conv)
    next
      assume "u = 2"
      then show thesis using assms(1) that
        by (fastforce simp: uart_irq_def UART2_IRQHandler_def Option.bind_eq_Some_conv)
    qed
  qed
  obtain sx where g: "ur_get env u UR_INTS s = Some (src', sx)" using t(1) by (auto simp: take_sources_def Option.bind_eq_Some_conv)
  then have "uart_regs (port u s) = Some (uart_base u)" using assms(3) u by (auto simp: ur_get_def regs_ok_def)
  then have src: "src' = src" using g assms(6) by (simp add: ur_get_def reg_get_def)
  have "moves True u s s1" by (rule keepsD [OF take_sources_keeps [OF moves_refl] t(1), simplified]) (use u in simp_all)
  moreover have "moves True u s1 s2"
    using t(2) keepsD [OF handle_overrun_keeps [OF moves_refl u u]] moves_refl by fastforce
  ultimately have m2: "moves True u s s2" by (rule moves_trans)
  have p2: "uart_port s2 = uart_port s" using t(2) take_sources_ports [OF t(1)] by (auto dest: handle_overrun_ports)
  have m4: "moves True u s3 s'" by (rule keepsD [OF tx_cts_part_keeps [OF moves_refl] t(4), simplified]) (use u in simp_all)
  have r2: "regs_ok s2" using m2 assms(3) by (simp add: moves_def)
  from t(3) u r2 show ?thesis
  proof (cases rule: rx_part_cases)
    case none
    then have "moves True u s s'" using m2 m4 moves_trans by blast
    then have v: "port_view (port u s') = port_view (port u s)" "taken (dev s') u = taken (dev s) u" using assms(3) by (auto simp: moves_def)
    then show ?thesis using port_view_ring(2) [OF v(1)] by (intro exI [of _ "[]"]) simp
  next
    case (some n s4)
    obtain k s5 where r: "recv_bytes env u src' n 0 s4 = Some (k, s5)" "s3 = s5 \<or> s3 = call_rx env u k s5" using rcv [OF some(4)] by blast
    have p4: "port u s4 = port u s" using some(3) p2 by (simp add: port_def)
    have m4': "regs_ok s4" "taken (dev s4) u = taken (dev s) u" using some(2) m2 moves_trans assms(3) by (auto simp: moves_def)
    have "moves False u s4 s5" by (rule keepsD [OF recv_bytes_keeps [OF moves_refl] r(1), simplified]) (use u in simp_all)
    then have r5: "regs_ok s5" using m4'(1) by (simp add: moves_def)
    have "moves True u s5 s3" using r(2) moves_refl call_rx_moves [OF moves_refl u] by auto
    then have "moves True u s5 s'" using m4 moves_trans by blast
    then have e: "port_view (port u s') = port_view (port u s5)" "taken (dev s') u = taken (dev s5) u" using r5 by (auto simp: moves_def)
    show ?thesis
    proof (cases "src' AND UART_RX_ERR_INT_FLAG = 0")
      case True
      have "ring_ok (port u s4)" "uart_no (port u s4) \<noteq> 1" using assms(4,5) p4 by simp_all
      then obtain xs where xs: "length xs = min n (Suc (4093 - ring_cnt (port u s)))" "taken (dev s5) u = taken (dev s) u @ xs"
        "ring_q (port u s5) = (if fcStatus (port u s) = TLS_UART_FLOW_CTRL_NONE then ring_q (port u s) @ take (4093 - ring_cnt (port u s)) xs
          else if xs \<noteq> [] \<and> ring_cnt (port u s) = 4095 then [] else ring_q (port u s) @ xs)"
        using recv_bytes_ring [OF r(1) assms(2) m4'(1) _ _ True] unfolding p4 m4'(2) by blast
      then show ?thesis using True src e(2) port_view_ring(2) [OF e(1)] some(1) by (intro exI [of _ xs]) simp
    next
      case False
      obtain xs where xs: "length xs = n" "taken (dev s5) u = taken (dev s4) u @ xs" "uart_port s5 = uart_port s4"
        using recv_bytes_error [OF r(1) u m4'(1) False] by blast
      then show ?thesis using e m4'(2) port_view_ring(2) [OF e(1)] some(1) p4 src False
        by (intro exI [of _ xs]) (simp add: port_def)
    qed
  qed
qed

end

text \<open>C33. An interrupt of port 0 or 2 without flow control adds what arrives to the ring until 4093 bytes wait; one byte more is taken
  from the hardware and lost. With hardware flow control it stores a byte even when the ring is full, as stopping the
  receiver is implemented for port 1 only: the ring then counts as empty and its 4095 bytes are lost.\<close>

theorem uart_full_ring_is_lost:
  assumes "uart_block env sent taken" "regs_ok s" "ring_ok (port u s)" "u = 0 \<or> u = 2" "uart_no (port u s) \<noteq> 1"
    and "uart_irq env u s = Some s'" "tls_reg_read32 (ue_io env) (uart_base u + UR_INTS) (dev s) = (src, d)"
  shows "\<exists>xs. length xs < 64 \<and> taken (dev s') u = taken (dev s) u @ xs \<and> ring_q (port u s') =
      (if src AND UART_RX_ERR_INT_FLAG \<noteq> 0 then ring_q (port u s)
       else if fcStatus (port u s) = TLS_UART_FLOW_CTRL_NONE then ring_q (port u s) @ take (4093 - ring_cnt (port u s)) xs
       else if xs \<noteq> [] \<and> ring_cnt (port u s) = 4095 then [] else ring_q (port u s) @ xs)"
  by (rule uart_block.uart02_irq_effect [OF assms(1,6,4,2,3,5,7)])

text \<open>Port 0 with flow control and a ring that holds 4095 bytes, when another arrives.\<close>

definition full_port0 :: "ud uarts" where
  "full_port0 = on_port 0 (\<lambda>_. zero_port\<lparr>uart_regs := Some (uart_base 0), fcStatus := TLS_UART_FLOW_CTRL_HARDWARE,
     recv_buf := Some (replicate 4096 1), recv_head := 4095, recv_tail := 0\<rparr>) ((ud_boot (\<lambda>_. [9]))\<lparr>dev := \<lparr>ud_regs = (\<lambda>_. 0), ud_rx = (\<lambda>_. [9]), ud_sent = (\<lambda>_. []), ud_taken = (\<lambda>_. [])\<rparr>\<rparr>)"

lemma full_port0_irq: "map_option (\<lambda>s. ud_taken (dev s) 0) (uart_irq ud_env 0 full_port0) = Some [9]"
  by code_simp

lemma ud_boot_ports: "length (uart_port (ud_boot rx)) = 3" "u < 3 \<Longrightarrow> port u (ud_boot rx) = zero_port"
  by (auto simp: ud_boot_def port_def port_cases)

lemma full_port0_ports: "u < 3 \<Longrightarrow> port u full_port0 = (if u = 0 then zero_port\<lparr>uart_regs := Some (uart_base 0), fcStatus := TLS_UART_FLOW_CTRL_HARDWARE,
     recv_buf := Some (replicate 4096 1), recv_head := 4095, recv_tail := 0\<rparr> else zero_port)"
  "dev full_port0 = \<lparr>ud_regs = (\<lambda>_. 0), ud_rx = (\<lambda>_. [9]), ud_sent = (\<lambda>_. []), ud_taken = (\<lambda>_. [])\<rparr>"
  "length (uart_port full_port0) = 3"
  by (simp_all add: full_port0_def ud_boot_ports)

lemma full_port0_ready: "regs_ok full_port0" "ring_ok (port 0 full_port0)" "ring_cnt (port 0 full_port0) = 4095" "uart_no (port 0 full_port0) = 0"
    "fcStatus (port 0 full_port0) = TLS_UART_FLOW_CTRL_HARDWARE"
  by (simp_all add: regs_ok_def full_port0_ports ring_ok_def ring_cnt_def zero_port_def)

theorem uart_full_ring_is_lost_witness:
  "\<exists>s'. uart_irq ud_env 0 full_port0 = Some s' \<and> length (ring_q (port 0 full_port0)) = 4095 \<and> ring_q (port 0 s') = []"
proof -
  obtain s' where s: "uart_irq ud_env 0 full_port0 = Some s'" "ud_taken (dev s') 0 = [9]" using full_port0_irq by auto
  have r: "tls_reg_read32 (ue_io ud_env) (uart_base 0 + UR_INTS) (dev full_port0) = (5, dev full_port0)"
    by (simp add: full_port0_ports(2) ud_read_def reg_port_def uart_base_def uart_bases uart_regs_defs)
  show ?thesis
    using uart_full_ring_is_lost [OF ub.uart_block_axioms full_port0_ready(1,2) _ _ s(1) r] s full_port0_ready(3-5) full_port0_ports(2)
    by (auto simp: uart_flags)
qed

end
