(* ===== verification/Uart_Tx_End.thy ===== *)
theory Uart_Tx_End
  imports Uart_Device
begin

text \<open>When the transmit interrupt of the UART driver returns: the budget of \<open>tx_loop\<close> bounds it from above, and an exhausted
  budget with room left in the FIFO is a state it never leaves.\<close>

section \<open>The end of a transmit interrupt\<close>

context uart_block
begin

lemma regs_get: "uart_regs (port v s) = Some b \<Longrightarrow> \<exists>w s1. ur_get env v off s = Some (w, s1) \<and> uart_port s1 = uart_port s"
  by (auto simp: ur_get_def reg_get_def split_beta)

lemma regs_set: "uart_regs (port v s) = Some b \<Longrightarrow> \<exists>s1. ur_set env v off w s = Some s1 \<and> uart_port s1 = uart_port s"
  by (auto simp: ur_set_def reg_set_def)

lemma count_sent:
  assumes "uart_port s2 = uart_port s" "regs_ok s" "v < 3"
  shows "regs_ok (on_port v (\<lambda>p. p\<lparr>icount_tx := icount_tx p + 1\<rparr>) s2)"
    "port v (on_port v (\<lambda>p. p\<lparr>icount_tx := icount_tx p + 1\<rparr>) s2) = (port v s)\<lparr>icount_tx := icount_tx (port v s) + 1\<rparr>"
proof -
  have "regs_ok s2" "port v s2 = port v s" using assms(1,2) by (simp_all add: regs_ok_def port_def)
  then show "regs_ok (on_port v (\<lambda>p. p\<lparr>icount_tx := icount_tx p + 1\<rparr>) s2)"
    "port v (on_port v (\<lambda>p. p\<lparr>icount_tx := icount_tx p + 1\<rparr>) s2) = (port v s)\<lparr>icount_tx := icount_tx (port v s) + 1\<rparr>"
    using assms(3) by (auto simp: regs_ok_def)
qed

lemma send_chars_budget:
  assumes "msg_ok m" "v < 3" "regs_ok s" "uart_regs (port v s) = Some b" "int (length (unsent m)) \<le> cnt"
  shows "\<exists>c f m' s'. send_chars env v cnt m s = Some (c, f, m', s') \<and> (f \<or> buflen m' \<le> offset m' \<and> c = cnt - int (length (unsent m)) - 1)"
  using assms
proof (induction "length (unsent m)" arbitrary: m cnt s)
  case 0
  have "\<not> offset m < buflen m" using msg_step(3) [OF 0(2)] 0(1) by fastforce
  then have "send_chars env v cnt m s = Some (cnt - 1, False, m, s)" by (subst send_chars.simps) simp
  moreover have "buflen m \<le> offset m" "length (unsent m) = 0" using 0(1) \<open>\<not> offset m < buflen m\<close> by simp_all
  ultimately show ?case by (intro exI [of _ "cnt - 1"] exI [of _ False] exI [of _ m] exI [of _ s]) simp
next
  case (Suc L)
  have lt: "offset m < buflen m" using msg_done [OF Suc.prems(1)] Suc.hyps(2) by fastforce
  obtain w s1 where g: "ur_get env v UR_FIFOS s = Some (w, s1)" "uart_port s1 = uart_port s" using regs_get [OF Suc.prems(4)] by blast
  have "uart_regs (port v s1) = Some b" using g(2) Suc.prems(4) by (simp add: port_def)
  from regs_set [OF this] obtain s2 where t: "ur_set env v UR_TXW (ucast (tx_buf m ! unat (offset m))) s1 = Some s2" "uart_port s2 = uart_port s"
    using g(2) by fastforce
  let ?m = "m\<lparr>offset := offset m + 1\<rparr>" and ?s3 = "on_port v (\<lambda>p. p\<lparr>icount_tx := icount_tx p + 1\<rparr>) s2"
  note step = msg_step [OF Suc.prems(1) lt] and s3 = count_sent [OF t(2) Suc.prems(3,2)]
  have L: "L = length (unsent ?m)" using Suc.hyps(2) step(3) by simp
  have cnt: "cnt > 0" "int (length (unsent ?m)) \<le> cnt - 1" using Suc.prems(5) Suc.hyps(2) L by simp_all
  have "uart_regs (port v ?s3) = Some b" using s3(2) Suc.prems(4) by simp
  then obtain c f m' s' where r: "send_chars env v (cnt - 1) ?m ?s3 = Some (c, f, m', s')" "f \<or> buflen m' \<le> offset m' \<and> c = cnt - 1 - int (length (unsent ?m)) - 1"
    using Suc.hyps(1) [OF L step(1) Suc.prems(2) s3(1) _ cnt(2)] by blast
  show ?case
  proof (cases "w AND UFS_TX_FIFO_CNT_MASK = tx_fifofull (port v s1)")
    case True
    then have "send_chars env v cnt m s = Some (cnt - 1, True, m, s1)" using g lt cnt(1) by (subst send_chars.simps) simp
    then show ?thesis by blast
  next
    case False
    then have "send_chars env v cnt m s = Some (c, f, m', s')"
      using g(1) lt cnt(1) step(2) t(1) r(1) by (subst send_chars.simps) simp
    then show ?thesis using r(2) Suc.hyps(2) L by auto
  qed
qed

lemma finish_first_done:
  assumes "regs_ok s" "v < 3" "buflen m \<le> offset m"
  shows "regs_ok (finish_first env v m s) \<and> uart_regs (port v (finish_first env v m s)) = uart_regs (port v s)
    \<and> tx_msg_pending_list (port v (finish_first env v m s)) = tl (tx_msg_pending_list (port v s))"
proof -
  let ?s = "on_port v (\<lambda>p. p\<lparr>tx_msg_pending_list := tl (tx_msg_pending_list p), tx_msg_to_be_freed_list := tx_msg_to_be_freed_list p @ [m]\<rparr>) s"
  have s: "regs_ok ?s" "port v ?s = (port v s)\<lparr>tx_msg_pending_list := tl (tx_msg_pending_list (port v s)), tx_msg_to_be_freed_list := tx_msg_to_be_freed_list (port v s) @ [m]\<rparr>"
    using assms(1,2) by (auto simp: regs_ok_def)
  have c: "regs_ok (call_tx env v x) \<and> uart_regs (port v (call_tx env v x)) = uart_regs (port v x)
      \<and> tx_msg_pending_list (port v (call_tx env v x)) = tx_msg_pending_list (port v x)" if "regs_ok x" for x
  proof (cases "tx_callback (port v x) = Some Free_sent")
    case True
    moreover have "regs_ok (tls_uart_free_tx_sent_data v x)" "port v (tls_uart_free_tx_sent_data v x) = (port v x)\<lparr>tx_msg_to_be_freed_list := []\<rparr>"
      using that assms(2) by (auto simp: tls_uart_free_tx_sent_data_def regs_ok_def)
    ultimately show ?thesis by (simp add: call_tx_def)
  next
    case False
    then show ?thesis using that tx_quiet [OF assms(2) refl]
      by (auto simp: call_tx_def regs_ok_def port_def split: option.splits tx_cb.splits)
  qed
  show ?thesis using c [OF s(1)] s(2) assms(3) by (simp add: finish_first_def)
qed

lemma tx_loop_returns:
  assumes "regs_ok s" "v < 3" "uart_regs (port v s) = Some b" "list_all msg_ok (tx_msg_pending_list (port v s))"
    and "(\<Sum>m\<leftarrow>tx_msg_pending_list (port v s). int (length (unsent m)) + 1) \<le> cnt + 1"
  shows "\<exists>s'. tx_loop env v cnt False s = Some s'"
  using assms
proof (induction "tx_msg_pending_list (port v s)" arbitrary: s cnt)
  case Nil
  have "tx_loop env v cnt False s = Some s" by (subst tx_loop.simps) (simp only: Nil.hyps [symmetric] list.case)
  then show ?case by blast
next
  case (Cons m ms)
  note p = Cons.hyps(2) [symmetric]
  have s0: "(0 :: int) \<le> (\<Sum>m\<leftarrow>ms. int (length (unsent m)) + 1)" by (rule sum_list_nonneg) auto
  have L: "int (length (unsent m)) \<le> cnt" using Cons.prems(5) s0 by (simp add: p)
  have m: "msg_ok m" using Cons.prems(4) by (simp add: p)
  obtain c f m' s1 where r: "send_chars env v cnt m s = Some (c, f, m', s1)" "f \<or> buflen m' \<le> offset m' \<and> c = cnt - int (length (unsent m)) - 1"
    using send_chars_budget [OF m Cons.prems(2,1,3) L] by blast
  note e = send_chars_effect [OF r(1) Cons.prems(2,2,1)]
  have l: "tx_loop env v cnt False s = tx_loop env v c f (finish_first env v m' s1)"
    using r(1) by (subst tx_loop.simps) (simp add: p)
  show ?case
  proof (cases f)
    case True
    then show ?thesis unfolding l by (subst tx_loop.simps) (auto split: list.splits)
  next
    case False
    then have d: "buflen m' \<le> offset m'" "c = cnt - int (length (unsent m)) - 1" using r(2) by auto
    have r1: "regs_ok s1" "uart_regs (port v s1) = Some b" "tx_msg_pending_list (port v s1) = m # ms"
      using e Cons.prems(3) p by (auto simp: port_view_def)
    note f = finish_first_done [OF r1(1) Cons.prems(2) d(1)]
    have "ms = tx_msg_pending_list (port v (finish_first env v m' s1))" using f r1(3) by simp
    from Cons.hyps(1) [OF this _ Cons.prems(2), of c] show ?thesis
      using f r1 False Cons.prems(4,5) d(2) unfolding l by (simp add: p)
  qed
qed

text \<open>With an exhausted budget and room in the FIFO the outer loop turns without doing anything.\<close>

lemma tx_loop_stuck:
  assumes "tx_loop env v cnt full s = Some s'" "v < 3"
  shows "\<not> (cnt \<le> 0 \<and> \<not> full \<and> length (uart_port s) = 3 \<and> (\<exists>m ms. tx_msg_pending_list (port v s) = m # ms \<and> offset m < buflen m))"
proof -
  have "e = env \<longrightarrow> w = v \<longrightarrow> \<not> (cnt \<le> 0 \<and> \<not> full \<and> length (uart_port s) = 3 \<and> (\<exists>m ms. tx_msg_pending_list (port v s) = m # ms \<and> offset m < buflen m))"
    if "tx_loop e w cnt full s = Some s'" for e w
  proof (rule tx_loop.raw_induct [OF _ that])
    fix loop :: "'d uart_env \<Rightarrow> nat \<Rightarrow> int \<Rightarrow> bool \<Rightarrow> 'd uarts \<Rightarrow> 'd uarts option" and e w cnt full s y
    assume IH: "\<And>e w c f s y. loop e w c f s = Some y \<Longrightarrow> e = env \<longrightarrow> w = v \<longrightarrow>
        \<not> (c \<le> 0 \<and> \<not> f \<and> length (uart_port s) = 3 \<and> (\<exists>m ms. tx_msg_pending_list (port v s) = m # ms \<and> offset m < buflen m))"
      and r: "(case tx_msg_pending_list (port w s) of [] \<Rightarrow> Some s
        | m # x \<Rightarrow> if full then Some s else send_chars e w cnt m s \<bind> (\<lambda>(cnt, full, m, s). loop e w cnt full (finish_first e w m s))) = Some y"
    show "e = env \<longrightarrow> w = v \<longrightarrow> \<not> (cnt \<le> 0 \<and> \<not> full \<and> length (uart_port s) = 3 \<and> (\<exists>m ms. tx_msg_pending_list (port v s) = m # ms \<and> offset m < buflen m))"
    proof (intro impI notI, elim conjE exE)
      fix m ms assume a: "e = env" "w = v" "cnt \<le> 0" "\<not> full" "length (uart_port s) = 3" "tx_msg_pending_list (port v s) = m # ms" "offset m < buflen m"
      have "send_chars env v cnt m s = Some (cnt - 1, False, m, s)" using a(3) by (subst send_chars.simps) simp
      moreover have "finish_first env v m s = set_first v m s" using a(7) by (simp add: finish_first_def)
      ultimately have "loop env v (cnt - 1) False (set_first v m s) = Some y" using r a by simp
      moreover have "tx_msg_pending_list (port v (set_first v m s)) = m # ms" "length (uart_port (set_first v m s)) = 3"
        using a(5,6) assms(2) by (simp_all add: set_first_def)
      ultimately show False using IH [of env v "cnt - 1" False "set_first v m s" y] a(3,7) by simp
    qed
  qed
  then show ?thesis using assms(1) by simp
qed

lemma send_chars_never_full:
  assumes "send_chars env v cnt m s = Some (c, f, m', s')" "v < 3" "regs_ok s" "0 \<le> cnt" "cnt < int (unat (buflen m)) - int (unat (offset m))"
    and "\<And>d x d'. tls_reg_read32 (ue_io env) (uart_base v + UR_FIFOS) d = (x, d') \<Longrightarrow> x AND UFS_TX_FIFO_CNT_MASK \<noteq> tx_fifofull (port v s)"
  shows "\<not> f \<and> c = -1 \<and> offset m' < buflen m'"
  using assms
proof (induction "nat cnt" arbitrary: cnt m s rule: less_induct)
  case less
  from less.prems(1) show ?case
  proof (cases rule: send_chars_cases)
    case 1
    have "unat (offset m) < unat (buflen m)" using less.prems(4,5) by linarith
    then have "offset m < buflen m" by (simp only: word_less_nat_alt)
    then show ?thesis using 1 less.prems(4) by simp
  next
    case (2 x)
    then have "uart_regs (port v s) = Some (uart_base v)" using less.prems(2,3) by (auto simp: ur_get_def regs_ok_def)
    then have "\<exists>d'. tls_reg_read32 (ue_io env) (uart_base v + UR_FIFOS) (dev s) = (x, d')" using 2(3)
      by (cases "tls_reg_read32 (ue_io env) (uart_base v + UR_FIFOS) (dev s)") (auto simp: ur_get_def reg_get_def)
    then show ?thesis using less.prems(6) 2(4) reg_ports(1) [OF 2(3)] by (auto simp: port_def)
  next
    case (3 x s1 s2)
    have p: "uart_port s2 = uart_port s" using reg_ports(1) [OF 3(3)] reg_ports(2) [OF 3(5)] by simp
    note s3 = count_sent [OF p less.prems(3,2)]
    have lt: "unat (offset m) < unat (buflen m)" using 3(2) by (simp add: word_less_nat_alt)
    have "unat (buflen m) < 2 ^ LENGTH(16)" by (rule unsigned_less)
    then have o: "unat (offset m + 1) = Suc (unat (offset m))" using lt by (subst unat_word_ariths) simp
    show ?thesis
      by (rule less.hyps [OF _ 3(6) less.prems(2) s3(1)]) (use 3(1) less.prems(4,5,6) s3(2) o in auto)
  qed
qed

end

text \<open>C34. A transmit interrupt returns when what waits fits its budget of 64 bytes, counting one for every message but the last.
  When a message of more than 64 bytes waits and the FIFO drains so fast that it never shows its full level, the handler
  never returns: nothing is sent once the budget is used up, and the loop ends only with the FIFO full or the list empty.\<close>

theorem uart_tx_interrupt_ends:
  assumes "uart_block env sent taken" "regs_ok s" "u < 3" "uart_regs (port u s) = Some b" "list_all msg_ok (tx_msg_pending_list (port u s))"
  shows "((\<Sum>m\<leftarrow>tx_msg_pending_list (port u s). int (length (unsent m)) + 1) \<le> 65 \<longrightarrow> (\<exists>s'. tls_uart_tx_chars env u s = Some s'))
    \<and> ((\<exists>m ms. tx_msg_pending_list (port u s) = m # ms \<and> 64 < length (unsent m))
        \<and> (\<forall>d x d'. tls_reg_read32 (ue_io env) (uart_base u + UR_FIFOS) d = (x, d') \<longrightarrow> x AND UFS_TX_FIFO_CNT_MASK \<noteq> tx_fifofull (port u s))
      \<longrightarrow> tls_uart_tx_chars env u s = None)"
proof (intro conjI impI)
  assume "(\<Sum>m\<leftarrow>tx_msg_pending_list (port u s). int (length (unsent m)) + 1) \<le> 65"
  then show "\<exists>s'. tls_uart_tx_chars env u s = Some s'"
    using uart_block.tx_loop_returns [OF assms(1,2,3,4,5), of 64] by (auto simp: tls_uart_tx_chars_def)
next
  assume a: "(\<exists>m ms. tx_msg_pending_list (port u s) = m # ms \<and> 64 < length (unsent m))
    \<and> (\<forall>d x d'. tls_reg_read32 (ue_io env) (uart_base u + UR_FIFOS) d = (x, d') \<longrightarrow> x AND UFS_TX_FIFO_CNT_MASK \<noteq> tx_fifofull (port u s))"
  then obtain m ms where m: "tx_msg_pending_list (port u s) = m # ms" "64 < length (unsent m)" by blast
  have "64 < unat (buflen m) - unat (offset m)" using m(2) unfolding unsent_def length_drop length_take by linarith
  then have len: "64 < int (unat (buflen m)) - int (unat (offset m))" by linarith
  have False if run: "tx_loop env u 64 False s = Some s'" for s'
  proof -
    obtain c f m' s1 where r: "send_chars env u 64 m s = Some (c, f, m', s1)" "tx_loop env u c f (finish_first env u m' s1) = Some s'"
    proof -
      have "tx_loop env u 64 False s = send_chars env u 64 m s \<bind> (\<lambda>(c, f, m, s). tx_loop env u c f (finish_first env u m s))"
        using m(1) by (subst tx_loop.simps) simp
      then show thesis using that run by (cases "send_chars env u 64 m s") auto
    qed
    have x: "\<not> f" "c = -1" "offset m' < buflen m'"
      using uart_block.send_chars_never_full [OF assms(1) r(1) assms(3,2) _ len] a by auto
    have e: "regs_ok s1" "tx_msg_pending_list (port u s1) = m # ms"
      using uart_block.send_chars_effect [OF assms(1) r(1) assms(3,3,2)] m(1) by auto
    have "finish_first env u m' s1 = set_first u m' s1" using x(3) by (simp add: finish_first_def)
    then show False
      using uart_block.tx_loop_stuck [OF assms(1) r(2) assms(3)] x e assms(3) by (auto simp: set_first_def regs_ok_def)
  qed
  then show "tls_uart_tx_chars env u s = None" using m(1) by (cases "tx_loop env u 64 False s") (auto simp: tls_uart_tx_chars_def)
qed

text \<open>Port 0 of the demonstration device with one message that waits.\<close>

definition waiting_port0 :: "nat \<Rightarrow> ud uarts" where
  "waiting_port0 n = (ud_boot (\<lambda>_. []))\<lparr>uart_port := [zero_port\<lparr>uart_regs := Some HR_UART0_BASE_ADDR, tx_fifofull := 16,
     tx_msg_pending_list := [\<lparr>tx_buf = replicate n 0x55, buflen = of_nat n, offset = 0\<rparr>]\<rparr>, zero_port, zero_port]\<rparr>"

lemma waiting_port0_ready:
  "regs_ok (waiting_port0 n)" "port 0 (waiting_port0 n) = zero_port\<lparr>uart_regs := Some HR_UART0_BASE_ADDR, tx_fifofull := 16,
     tx_msg_pending_list := [\<lparr>tx_buf = replicate n 0x55, buflen = of_nat n, offset = 0\<rparr>]\<rparr>"
  by (auto simp: waiting_port0_def regs_ok_def port_def zero_port_def uart_base_def nth_Cons' numeral_eq_Suc not_less_eq_eq)

lemma ud_fifo_never_full:
  assumes "tls_reg_read32 ud_io (uart_base 0 + UR_FIFOS) d = (x, d')"
  shows "x AND UFS_TX_FIFO_CNT_MASK = 0"
proof -
  have "reg_port UR_RXW (uart_base 0 + UR_FIFOS) = None" "reg_port UR_FIFOS (uart_base 0 + UR_FIFOS) = Some 0"
    by (simp_all add: reg_port_def uart_base_def uart_bases uart_regs_defs)
  then have "tls_reg_read32 ud_io (uart_base 0 + UR_FIFOS) d = (push_bit 6 (word_of_nat (min 63 (length (ud_rx d 0)))), d)" by (simp add: ud_read_def)
  then have "x = push_bit 6 (word_of_nat (min 63 (length (ud_rx d 0))))" using assms by (metis prod.inject)
  moreover have "UFS_TX_FIFO_CNT_MASK = mask 6" by (simp add: UFS_TX_FIFO_CNT_MASK_def mask_eq_exp_minus_1)
  moreover have "push_bit 6 w AND mask 6 = 0" for w :: u32 by (intro bit_word_eqI) (auto simp: bit_simps)
  ultimately show ?thesis by metis
qed

theorem uart_tx_interrupt_ends_witness:
  "(\<exists>s'. tls_uart_tx_chars ud_env 0 (waiting_port0 64) = Some s') \<and> tls_uart_tx_chars ud_env 0 (waiting_port0 65) = None"
proof -
  note ends = uart_tx_interrupt_ends [OF ub.uart_block_axioms, where u = 0 and b = HR_UART0_BASE_ADDR]
  have "16 \<noteq> (0 :: u32)" by simp
  then show ?thesis using ends [OF waiting_port0_ready(1) [of 64]] ends [OF waiting_port0_ready(1) [of 65]] ud_fifo_never_full
    by (auto simp: waiting_port0_ready(2) msg_ok_def unsent_def)
qed

end
