(* ===== verification/Uart_Config.thy ===== *)
theory Uart_Config
  imports Uart_Device
begin

text \<open>
  What a configuration of a port leaves in its line control register. The interface \<open>line_register\<close> says that this
  register, \<open>lc\<close> of the device, reads as it was written last.
\<close>

locale line_register =
  fixes env :: "'d uart_env" and u :: nat and lc :: "'d \<Rightarrow> u32"
  assumes port_number: "u < 3"
    and lc_read: "tls_reg_read32 (ue_io env) a d = (v, d') \<Longrightarrow> lc d' = lc d \<and> (a = uart_base u + UR_LC \<longrightarrow> v = lc d)"
    and lc_write: "lc (tls_reg_write32 (ue_io env) a v d) = (if a = uart_base u + UR_LC then v else lc d)"

text \<open>A port that is initialised, with its register and its options.\<close>

definition line_state :: "nat \<Rightarrow> ('d \<Rightarrow> u32) \<Rightarrow> u32 \<Rightarrow> tls_uart_options \<Rightarrow> 'd uarts \<Rightarrow> bool" where
  "line_state u lc w opt s \<longleftrightarrow> uart_regs (port u s) = Some (uart_base u) \<and> length (uart_port s) = 3 \<and> lc (dev s) = w \<and> opts (port u s) = opt"

text \<open>The parity bits a mode stands for; mark and space change nothing.\<close>

definition parity_line :: "tls_uart_pmode \<Rightarrow> u32 \<Rightarrow> u32" where
  "parity_line m w = (case m of TLS_UART_PMODE_DISABLED \<Rightarrow> w AND NOT ULCON_PMD_EN
     | TLS_UART_PMODE_EVEN \<Rightarrow> (w AND NOT ULCON_PMD_MASK) OR ULCON_PMD_EVEN
     | TLS_UART_PMODE_ODD \<Rightarrow> (w AND NOT ULCON_PMD_MASK) OR ULCON_PMD_ODD | _ \<Rightarrow> w)"

context line_register
begin

lemma line_get: "ur_get env u off s = Some (v, s') \<Longrightarrow> line_state u lc w opt s \<Longrightarrow> line_state u lc w opt s' \<and> (off = UR_LC \<longrightarrow> v = w)"
  using lc_read [of "uart_base u + off" "dev s"] by (auto simp: line_state_def ur_get_def reg_get_def port_def split: prod.splits)

lemma line_set: "ur_set env u off v s = Some s' \<Longrightarrow> line_state u lc w opt s \<Longrightarrow> line_state u lc (if off = UR_LC then v else w) opt s'"
  by (auto simp: line_state_def ur_set_def reg_set_def port_def lc_write)

lemma line_upd: "ur_upd env u UR_LC f s = Some s' \<Longrightarrow> line_state u lc w opt s \<Longrightarrow> line_state u lc (f w) opt s'"
  by (auto simp: ur_upd_def Option.bind_eq_Some_conv dest!: line_get line_set)

lemma line_opts: "line_state u lc w opt s \<Longrightarrow> line_state u lc w (f opt) (on_opts u f s)"
  using port_number by (simp add: line_state_def on_opts_def on_port_def port_def)

lemma line_clock: "apb_hz env s = Some (v, s') \<Longrightarrow> line_state u lc w opt s \<Longrightarrow> line_state u lc w opt s'"
  using lc_read [of HR_CLK_DIV_CTL "dev s"] by (auto simp: line_state_def apb_hz_def tls_sys_clk_get_def port_def Let_def split: prod.splits if_splits)

lemma line_baud:
  assumes "tls_uart_set_baud_rate_inside env u b s = Some (r, s')" "line_state u lc w opt s"
  shows "line_state u lc w (if b \<in> set baud_rates then opt\<lparr>baudrate := b\<rparr> else opt) s'"
proof (cases "b \<in> set baud_rates")
  case True
  then obtain apb s1 s2 where "apb_hz env s = Some (apb, s1)" "ur_set env u UR_BD (baud_value apb b) s1 = Some s2" "s' = on_opts u (baudrate_update (\<lambda>_. b)) s2"
    using assms(1) by (auto simp: tls_uart_set_baud_rate_inside_def tls_uart_check_baudrate_def Option.bind_eq_Some_conv)
  moreover have "UR_BD \<noteq> UR_LC" by (simp add: uart_regs_defs)
  ultimately show ?thesis using True line_opts [of w opt s2 "baudrate_update (\<lambda>_. b)"] line_set [of UR_BD _ s1 s2 w opt] line_clock [of s apb s1 w opt] assms(2) by simp
qed (use assms in \<open>simp add: tls_uart_set_baud_rate_inside_def tls_uart_check_baudrate_def\<close>)

lemma line_parity:
  assumes "tls_uart_set_parity_inside env (Some u) m s = Some (r, s')" "line_state u lc w opt s"
  shows "line_state u lc (parity_line m w) (opt\<lparr>paritytype := m\<rparr>) s'"
  using assms line_opts [OF assms(2), of "paritytype_update (\<lambda>_. m)"]
  by (cases m) (auto simp: tls_uart_set_parity_inside_def parity_line_def Option.bind_eq_Some_conv Let_def dest!: line_upd)

lemma line_bits:
  assumes "tls_uart_set_data_bits env (Some u) c s = Some (r, s')" "line_state u lc w opt s"
  shows "line_state u lc ((w AND NOT ULCON_WL_MASK) OR chsize_bits c) (opt\<lparr>charlength := c\<rparr>) s'"
  using assms line_opts [OF assms(2), of "charlength_update (\<lambda>_. c)"]
  by (auto simp: tls_uart_set_data_bits_def Option.bind_eq_Some_conv Let_def dest!: line_upd)

lemma line_stop:
  assumes "tls_uart_set_stop_bits_inside env (Some u) b s = Some (r, s')" "line_state u lc w opt s"
  shows "line_state u lc (if b = TLS_UART_TWO_STOPBITS then w OR ULCON_STOP_2 else w AND NOT ULCON_STOP_2) (opt\<lparr>stopbits := b\<rparr>) s'"
  using assms line_opts [OF assms(2), of "stopbits_update (\<lambda>_. b)"]
  by (cases b) (auto simp: tls_uart_set_stop_bits_inside_def Option.bind_eq_Some_conv Let_def dest!: line_upd)

lemma line_flow:
  assumes "tls_uart_set_flow_ctrl env (Some u) fc s = Some (r, s')" "line_state u lc w opt s"
  shows "line_state u lc w opt s'"
proof -
  have "UR_FC \<noteq> UR_LC" by (simp add: uart_regs_defs)
  then show ?thesis using assms
    by (auto simp: tls_uart_set_flow_ctrl_def Option.bind_eq_Some_conv split: tls_uart_flow.splits if_splits dest!: line_set)
qed

lemma line_config:
  assumes "tls_uart_config env (Some u) (Some o') s = Some (r, s')" "line_state u lc w opt s"
  shows "r = WM_SUCCESS \<and> line_state u lc
    (((if stopbits o' = TLS_UART_TWO_STOPBITS then ((parity_line (paritytype o') w AND NOT ULCON_WL_MASK) OR chsize_bits (charlength o')) OR ULCON_STOP_2
       else ((parity_line (paritytype o') w AND NOT ULCON_WL_MASK) OR chsize_bits (charlength o')) AND NOT ULCON_STOP_2)
      AND NOT (ULCON_TX_EN OR ULCON_RX_EN)) OR (ULCON_RX_EN OR ULCON_TX_EN))
    (o'\<lparr>baudrate := if baudrate o' \<in> set baud_rates then baudrate o' else baudrate opt\<rparr>) s'"
proof -
  have n: "UR_INTS \<noteq> UR_LC" "UR_INTM \<noteq> UR_LC" "UR_DMAC \<noteq> UR_LC" "UR_FIFOC \<noteq> UR_LC" by (simp_all add: uart_regs_defs)
  obtain r1 s1 r2 s2 r3 s3 r4 s4 r5 s5 s6 s7 s8 s9 s10 where c:
    "tls_uart_set_baud_rate_inside env u (baudrate o') s = Some (r1, s1)" "tls_uart_set_parity_inside env (Some u) (paritytype o') s1 = Some (r2, s2)"
    "tls_uart_set_data_bits env (Some u) (charlength o') s2 = Some (r3, s3)" "tls_uart_set_stop_bits_inside env (Some u) (stopbits o') s3 = Some (r4, s4)"
    "tls_uart_set_flow_ctrl env (Some u) (flow_ctrl o') (on_opts u (flow_ctrl_update (\<lambda>_. flow_ctrl o')) s4) = Some (r5, s5)"
    "ur_set env u UR_INTS 0xFFFFFFFF s5 = Some s6" "ur_set env u UR_INTM 0 s6 = Some s7" "ur_set env u UR_DMAC 0x24 s7 = Some s8"
    "ur_set env u UR_FIFOC 0x3F s8 = Some s9" "ur_upd env u UR_LC (\<lambda>v. v AND NOT (ULCON_TX_EN OR ULCON_RX_EN)) s9 = Some s10"
    "ur_upd env u UR_LC (\<lambda>v. v OR (ULCON_RX_EN OR ULCON_TX_EN)) s10 = Some s'" "r = WM_SUCCESS"
    using assms(1) by (auto simp: tls_uart_config_def Option.bind_eq_Some_conv)
  note l4 = line_stop [OF c(4) line_bits [OF c(3) line_parity [OF c(2) line_baud [OF c(1) assms(2)]]]]
  note l9 = line_set [OF c(9) line_set [OF c(8) line_set [OF c(7) line_set [OF c(6) line_flow [OF c(5) line_opts [OF l4]]]]]]
  show ?thesis using line_upd [OF c(11) line_upd [OF c(10) l9]] c(12) n by (cases o'; cases opt) (auto split: if_splits)
qed

end

section \<open>The line a configuration sets up\<close>

text \<open>C35. A configuration that returns reports success and leaves in the line control register the character length, the stop
  bits and both directions enabled, its other bits but the parity as they were, and in the options what was asked for.
  But a rate that is not supported is dropped, and mark or space parity is recorded while the line keeps the old parity.\<close>

theorem uart_config_sets_line:
  assumes "line_register env u lc" "line_state u lc w opt s" "tls_uart_config env (Some u) (Some o') s = Some (r, s')"
  shows "r = WM_SUCCESS
    \<and> opts (port u s') = o'\<lparr>baudrate := if baudrate o' \<in> set baud_rates then baudrate o' else baudrate opt\<rparr>
    \<and> lc (dev s') AND ULCON_WL_MASK = chsize_bits (charlength o')
    \<and> (lc (dev s') AND ULCON_STOP_2 \<noteq> 0) = (stopbits o' = TLS_UART_TWO_STOPBITS)
    \<and> lc (dev s') AND (ULCON_TX_EN OR ULCON_RX_EN) = ULCON_TX_EN OR ULCON_RX_EN
    \<and> lc (dev s') AND 0xFFFFFF20 = w AND 0xFFFFFF20
    \<and> (case paritytype o' of TLS_UART_PMODE_DISABLED \<Rightarrow> lc (dev s') AND ULCON_PMD_EN = 0
       | TLS_UART_PMODE_ODD \<Rightarrow> lc (dev s') AND ULCON_PMD_MASK = ULCON_PMD_ODD
       | TLS_UART_PMODE_EVEN \<Rightarrow> lc (dev s') AND ULCON_PMD_MASK = ULCON_PMD_EVEN
       | _ \<Rightarrow> lc (dev s') AND ULCON_PMD_MASK = w AND ULCON_PMD_MASK)"
proof -
  define x where "x = parity_line (paritytype o') w"
  define v where "v = (((if stopbits o' = TLS_UART_TWO_STOPBITS then ((x AND NOT ULCON_WL_MASK) OR chsize_bits (charlength o')) OR ULCON_STOP_2
       else ((x AND NOT ULCON_WL_MASK) OR chsize_bits (charlength o')) AND NOT ULCON_STOP_2)
      AND NOT (ULCON_TX_EN OR ULCON_RX_EN)) OR (ULCON_RX_EN OR ULCON_TX_EN))"
  have c: "r = WM_SUCCESS" "lc (dev s') = v" "opts (port u s') = o'\<lparr>baudrate := if baudrate o' \<in> set baud_rates then baudrate o' else baudrate opt\<rparr>"
    using line_register.line_config [OF assms(1,3,2)] by (simp_all add: line_state_def v_def x_def)
  note fold = bit.conj_disj_distrib2 and.assoc chsize_bits_def uart_flags
  have v: "v AND ULCON_WL_MASK = chsize_bits (charlength o')" "(v AND ULCON_STOP_2 \<noteq> 0) = (stopbits o' = TLS_UART_TWO_STOPBITS)"
    "v AND (ULCON_TX_EN OR ULCON_RX_EN) = ULCON_TX_EN OR ULCON_RX_EN" "v AND ULCON_PMD_MASK = x AND ULCON_PMD_MASK"
    "v AND ULCON_PMD_EN = x AND ULCON_PMD_EN" "v AND 0xFFFFFF20 = x AND 0xFFFFFF20"
    unfolding v_def by (cases "charlength o'"; cases "stopbits o'"; simp add: fold)+
  have "x AND 0xFFFFFF20 = w AND 0xFFFFFF20" unfolding x_def by (cases "paritytype o'"; simp add: parity_line_def fold)
  moreover have "case paritytype o' of TLS_UART_PMODE_DISABLED \<Rightarrow> x AND ULCON_PMD_EN = 0
       | TLS_UART_PMODE_ODD \<Rightarrow> x AND ULCON_PMD_MASK = ULCON_PMD_ODD
       | TLS_UART_PMODE_EVEN \<Rightarrow> x AND ULCON_PMD_MASK = ULCON_PMD_EVEN
       | _ \<Rightarrow> x AND ULCON_PMD_MASK = w AND ULCON_PMD_MASK"
    unfolding x_def by (cases "paritytype o'"; simp add: parity_line_def fold)
  ultimately show ?thesis using c v by (simp split: tls_uart_pmode.splits)
qed

interpretation lr1: line_register ud_env 1 "\<lambda>d. ud_regs d (uart_base 1 + UR_LC)"
proof
  fix a d v d' assume r: "tls_reg_read32 (ue_io ud_env) a d = (v, d')"
  show "ud_regs d' (uart_base 1 + UR_LC) = ud_regs d (uart_base 1 + UR_LC) \<and> (a = uart_base 1 + UR_LC \<longrightarrow> v = ud_regs d (uart_base 1 + UR_LC))"
    using r by (auto simp: ud_read_def reg_port_def uart_base_def uart_bases uart_regs_defs Let_def split: option.splits if_splits)
next
  fix a v d
  show "ud_regs (tls_reg_write32 (ue_io ud_env) a v d) (uart_base 1 + UR_LC) = (if a = uart_base 1 + UR_LC then v else ud_regs d (uart_base 1 + UR_LC))"
    by (auto simp: ud_write_def reg_port_def uart_base_def uart_bases uart_regs_defs split: option.splits if_splits)
qed simp

definition space_options :: tls_uart_options where
  "space_options = \<lparr>baudrate = 12345, charlength = TLS_UART_CHSIZE_7BIT, paritytype = TLS_UART_PMODE_SPACE, flow_ctrl = TLS_UART_FLOW_CTRL_NONE,
     stopbits = TLS_UART_TWO_STOPBITS\<rparr>"

definition line_demo :: "ud uarts" where
  "line_demo = on_port 1 (\<lambda>p. p\<lparr>uart_regs := Some HR_UART1_BASE_ADDR, opts := default_options\<rparr>) (ud_boot (\<lambda>_. []))"

lemma line_demo_ready: "line_state 1 (\<lambda>d. ud_regs d (uart_base 1 + UR_LC)) 0x12 default_options line_demo"
  by (simp add: line_state_def line_demo_def ud_boot_def uart_base_def on_port_def port_def)

theorem uart_config_sets_line_witness:
  "\<exists>s'. tls_uart_config ud_env (Some 1) (Some space_options) line_demo = Some (WM_SUCCESS, s')
    \<and> opts (port 1 s') = space_options\<lparr>baudrate := 115200\<rparr> \<and> ud_regs (dev s') (uart_base 1 + UR_LC) AND ULCON_WL_MASK = 2
    \<and> ud_regs (dev s') (uart_base 1 + UR_LC) AND ULCON_PMD_MASK = 0x10"
proof -
  have "tls_uart_config ud_env (Some 1) (Some space_options) line_demo \<noteq> None"
    by (simp add: tls_uart_config_def tls_uart_set_baud_rate_inside_def tls_uart_check_baudrate_def baud_rates_def space_options_def tls_uart_set_parity_inside_def
        tls_uart_set_data_bits_def tls_uart_set_stop_bits_inside_def tls_uart_set_flow_ctrl_def ur_upd_def ur_get_def ur_set_def split_beta
        line_demo_def ud_boot_def on_opts_def on_port_def port_def reg_get_def reg_set_def)
  then obtain r s' where s': "tls_uart_config ud_env (Some 1) (Some space_options) line_demo = Some (r, s')" by auto
  show ?thesis using uart_config_sets_line [OF lr1.line_register_axioms line_demo_ready s'] s'
    by (simp add: space_options_def default_options_def baud_rates_def chsize_bits_def uart_flags)
qed

end
