(* ===== verification/Uart_Dma.thy ===== *)
theory Uart_Dma
  imports Dma_Correct Uart_Device
begin

text \<open>
  Sending by DMA: the UART driver as a client of the DMA driver. What a successful start leaves behind, that its
  callback is the one that runs when the transfer is done, and what happens while the channel is taken.
\<close>

lemma ur_upd_tables: "ur_upd env u off f s = Some s' \<Longrightarrow> tables s' = tables s \<and> uart_port s' = uart_port s"
  by (auto simp: ur_upd_def ur_get_def ur_set_def Option.bind_eq_Some_conv split_beta) (auto simp: reg_get_def reg_set_def tables_def split_beta)

lemma dma_ports [simp]:
  "uart_port (reg_set io a v s) = uart_port s" "uart_port (reg_upd io a f s) = uart_port s" "uart_port (irq_enable io n b s) = uart_port s"
  by (simp_all add: reg_set_def reg_upd_def reg_get_def irq_enable_def split_beta)

lemma tables_on_port [simp]: "tables (on_port u f s) = tables s" "channels (on_port u f s) = channels s" "dma_context (on_port u f s) = dma_context s"
  by (simp_all add: on_port_def tables_def)

lemma tls_dma_start_frame: "tls_dma_start io ch desc b s = Some (r, s') \<Longrightarrow> tables s' = tables s"
  by (auto simp: tls_dma_start_def Let_def split: if_splits option.splits)

lemma tls_dma_start_ports: "tls_dma_start io ch desc b s = Some (r, s') \<Longrightarrow> uart_port s' = uart_port s"
  by (auto simp: tls_dma_start_def Let_def split: if_splits option.splits)

lemma tls_dma_request_ports: "tls_dma_request io ch flags s = (c, s') \<Longrightarrow> uart_port s' = uart_port s"
  by (auto simp: tls_dma_request_def Let_def)

lemma tls_dma_irq_register_ports: "tls_dma_irq_register io ch callback arg flags s = Some s' \<Longrightarrow> uart_port s' = uart_port s"
  by (auto simp: tls_dma_irq_register_def Let_def split: if_splits)

lemma port_same: "uart_port s' = uart_port s \<Longrightarrow> port u s' = port u s"
  by (simp add: port_def)

text \<open>The steps of a start that succeeded.\<close>

lemma dma_write_steps:
  fixes env :: "'d uart_env"
  assumes "tls_uart_dma_write env buf n f u s = Some (WM_SUCCESS, s')" "length (channels s) = 8" "length (dma_context s) = 8" "length (uart_port s) = 3"
  obtains s1 s2 :: "'d uarts" where "u < 3" "2 \<notin> held s" "held s1 = insert 2 (held s)" "length (dma_context s1) = 8"
    "tls_dma_irq_register (ue_io env) 2 f (word_of_nat u) TLS_DMA_IRQ_TRANSFER_DONE s1 = Some s2" "tables s' = tables s2"
    "tx_dma_on (port u s')"
proof -
  let ?s0 = "reg_set (ue_io env) HR_DMA_CHNL_SEL (word_of_nat u) s"
  obtain c r where q: "tls_dma_request (ue_io env) 2 (TLS_DMA_FLAGS_CHANNEL_SEL 1 OR TLS_DMA_FLAGS_HARD_MODE) ?s0 = (c, r)" by fastforce
  have h0: "held ?s0 = held s" by (rule held_cong) simp
  have u: "u < 3" using assms(1) by (auto simp: tls_uart_dma_write_def WM_SUCCESS_def WM_FAILED_def split: if_splits)
  have c: "c = 2" using assms(1) q by (auto simp: tls_uart_dma_write_def WM_SUCCESS_def WM_FAILED_def split: if_splits)
  have g: "held r = insert 2 (held s)" "dma_context r = dma_context s" "2 = grant (held s) 2"
    using tls_dma_request_grants [OF _ q] assms(2) c h0 by simp_all
  have free: "2 \<notin> held s" using g(3) by (auto simp: grant_def split: if_splits)
  obtain s1 s2 :: "'d uarts" and x rr s3 s4 where w: "ur_upd env u UR_DMAC (\<lambda>v. v AND NOT 1) r = Some s1"
    "tls_dma_irq_register (ue_io env) 2 f (word_of_nat u) TLS_DMA_IRQ_TRANSFER_DONE s1 = Some s2"
    "tls_dma_start (ue_io env) 2 (Some x) False s2 = Some (rr, s3)"
    "ur_upd env u UR_DMAC (\<lambda>v. v OR 1) (on_port u (\<lambda>p. p\<lparr>tx_dma_on := True\<rparr>) s3) = Some s4"
    "s' = irq_enable (ue_io env) (DMA0_INT + 2) True (reg_upd (ue_io env) HR_DMA_INT_MASK (\<lambda>v. v AND NOT 0x20) s4)"
    using assms(1) q c
    by (auto simp: tls_uart_dma_write_def Option.bind_eq_Some_conv Let_def WM_SUCCESS_def WM_FAILED_def split: if_splits prod.splits)
  have t: "tables s1 = tables r" "tables s' = tables s2" "uart_port s4 = uart_port (on_port u (\<lambda>p. p\<lparr>tx_dma_on := True\<rparr>) s3)"
    "uart_port s' = uart_port s4" "uart_port s3 = uart_port s"
    using ur_upd_tables [OF w(1)] ur_upd_tables [OF w(4)] tls_dma_start_frame [OF w(3)] tls_dma_start_ports [OF w(3)]
      tls_dma_irq_register_ports [OF w(2)] tls_dma_request_ports [OF q] by (simp_all add: w(5))
  have "tx_dma_on (port u s')"
    using t(3-5) u assms(4) by (simp_all add: port_def on_port_def)
  with that [of s1 s2] u free g t(1,2) w(2) assms(3) held_cong [of s1 r] channels_of_tables [OF t(1)] show thesis by simp
qed

text \<open>C36. A write by DMA that reports success has taken the free channel 2 and nothing else, refuses every further write of its port
  until the port is told that DMA is off, and when the channel reports the end of its transfer the handler calls the
  callback of this write with the number of its port.\<close>

theorem uart_dma_write_completes:
  assumes "tls_uart_dma_write env buf n (Some f) u s = Some (WM_SUCCESS, s')"
    and "length (channels s) = 8" "length (dma_context s) = 8" "length (uart_port s) = 3"
  shows "2 \<notin> held s \<and> held s' = insert 2 (held s)
    \<and> (\<forall>buf' n' f'. tls_uart_dma_write env buf' n' f' u s' = Some (WM_FAILED, s'))
    \<and> (\<forall>(s2 :: 'd uarts) src s3. dma_context s2 = dma_context s' \<and> reg_get (ue_io env) HR_DMA_INT_SRC s2 = (src, s3) \<and> src AND 0x20 \<noteq> 0
        \<longrightarrow> dma_irq_proc (ue_io env) 2 s2 = Some (Some (f, word_of_nat u), reg_set (ue_io env) HR_DMA_INT_SRC 0x30 s3))"
proof (intro conjI allI impI)
  obtain s1 s2 :: "'d uarts" where w: "u < 3" "2 \<notin> held s" "held s1 = insert 2 (held s)" "length (dma_context s1) = 8"
    "tls_dma_irq_register (ue_io env) 2 (Some f) (word_of_nat u) TLS_DMA_IRQ_TRANSFER_DONE s1 = Some s2" "tables s' = tables s2"
    "tx_dma_on (port u s')" using dma_write_steps [OF assms] .
  have t: "channels s' = channels s1" "dma_context s' = dma_context s2"
    using channels_of_tables [OF w(6)] registered_context(6) [OF w(5,4)] by simp_all
  show "2 \<notin> held s" by fact
  show "held s' = insert 2 (held s)" using held_cong [OF t(1)] w(3) by simp
  show "tls_uart_dma_write env buf' n' f' u s' = Some (WM_FAILED, s')" for buf' n' f'
    using w(1,7) by (simp add: tls_uart_dma_write_def)
  fix s2' :: "'d uarts" and src s3
  assume a: "dma_context s2' = dma_context s' \<and> reg_get (ue_io env) HR_DMA_INT_SRC s2' = (src, s3) \<and> src AND 0x20 \<noteq> 0"
  have i: "irq_bits TLS_DMA_IRQ_TRANSFER_DONE 2 = 0x20" "irq_bits TLS_DMA_IRQ_BOTH_DONE 2 = 0x30" by (simp_all add: irq_bits_def dma_flags)
  have call: "dma_irq_call src 2 (dma_context s2' ! 2) = Some (Some (f, word_of_nat u))"
    using dma_irq_call_registered [OF w(5,4), of src] a t(2) by (simp add: i)
  have "src AND irq_bits TLS_DMA_IRQ_BOTH_DONE 2 \<noteq> 0" using irq_bits_both [of src TLS_DMA_IRQ_TRANSFER_DONE 2] a by (simp add: i)
  then show "dma_irq_proc (ue_io env) 2 s2' = Some (Some (f, word_of_nat u), reg_set (ue_io env) HR_DMA_INT_SRC 0x30 s3)"
    using dma_irq_proc_calls [OF call _ conjunct1 [OF conjunct2 [OF a]]] by (simp add: i)
qed

text \<open>While channel 2 is in use a write by DMA on a port that sends nothing fails, but not without effect: it has taken channel 0 from
  whoever uses it, marked it as in use and set its mode for the UART.\<close>

theorem uart_dma_busy_takes_channel0:
  assumes "2 \<in> held s" "length (channels s) = 8" "buf \<noteq> 0" "1 \<le> n" "n < 4096" "u < 3" "\<not> tx_dma_on (port u s)"
  shows "\<exists>s'. tls_uart_dma_write env buf n f u s = Some (WM_FAILED, s') \<and> held s' = insert 0 (held s) \<and> channels s' = (channels s)[0 := 0x85]
    \<and> dev s' = tls_reg_write32 (ue_io env) (DMA_MODE_REG 0) 5 (tls_reg_write32 (ue_io env) HR_DMA_CHNL_SEL (word_of_nat u) (dev s))"
proof -
  let ?s0 = "reg_set (ue_io env) HR_DMA_CHNL_SEL (word_of_nat u) s" and ?flags = "TLS_DMA_FLAGS_CHANNEL_SEL 1 OR TLS_DMA_FLAGS_HARD_MODE"
  obtain c r where q: "tls_dma_request (ue_io env) 2 ?flags ?s0 = (c, r)" by fastforce
  have h0: "held ?s0 = held s" by (rule held_cong) simp
  note g = tls_dma_request_grants [OF _ q]
  have c: "c = 0" using g(1) assms(1,2) h0 by (simp add: grant_def)
  have "tls_uart_dma_write env buf n f u s = Some (WM_FAILED, r)"
    using assms q c by (simp add: tls_uart_dma_write_def word_le_nat_alt word_less_nat_alt)
  moreover have "dev r = tls_reg_write32 (ue_io env) (DMA_MODE_REG 0) 5 (tls_reg_write32 (ue_io env) HR_DMA_CHNL_SEL (word_of_nat u) (dev s))"
    using q c by (auto simp: tls_dma_request_def Let_def reg_set_def dma_flags)
  ultimately show ?thesis using g(2,5) assms(2) h0 c by (simp add: dma_flags)
qed

text \<open>On the demonstration device: a write on port 1, and then one on port 0.\<close>

definition dma_demo :: "ud uarts" where
  "dma_demo = (ud_boot (\<lambda>_. []))\<lparr>uart_port := [zero_port\<lparr>uart_regs := Some HR_UART0_BASE_ADDR\<rparr>, zero_port\<lparr>uart_regs := Some HR_UART1_BASE_ADDR\<rparr>, zero_port]\<rparr>"

lemma dma_demo_lengths: "length (channels dma_demo) = 8" "length (dma_context dma_demo) = 8" "length (uart_port dma_demo) = 3"
  by (simp_all add: dma_demo_def ud_boot_def dma_boot_def)

lemma dma_demo_written:
  obtains s' where "tls_uart_dma_write ud_env 0x20000000 5 (Some 7) 1 dma_demo = Some (WM_SUCCESS, s')" "\<not> tx_dma_on (port 0 s')" "length (channels s') = 8"
proof -
  have "map_option (\<lambda>(r, s'). (r, tx_dma_on (port 0 s'), length (channels s'))) (tls_uart_dma_write ud_env 0x20000000 5 (Some 7) 1 dma_demo) = Some (0, False, 8)"
    by code_simp
  then show thesis using that
    by (cases "tls_uart_dma_write ud_env 0x20000000 5 (Some 7) 1 dma_demo") (auto simp: WM_SUCCESS_def)
qed

theorem uart_dma_write_completes_witness:
  "\<exists>s'. tls_uart_dma_write ud_env 0x20000000 5 (Some 7) 1 dma_demo = Some (WM_SUCCESS, s') \<and> held s' = insert 2 (held dma_demo)
    \<and> (\<forall>buf' n' f'. tls_uart_dma_write ud_env buf' n' f' 1 s' = Some (WM_FAILED, s'))"
proof -
  obtain s' where s': "tls_uart_dma_write ud_env 0x20000000 5 (Some 7) 1 dma_demo = Some (WM_SUCCESS, s')" using dma_demo_written .
  then show ?thesis using uart_dma_write_completes [OF s' dma_demo_lengths] by blast
qed

theorem uart_dma_busy_takes_channel0_witness:
  "\<exists>s s'. 2 \<in> held s \<and> tls_uart_dma_write ud_env 0x20000000 5 (Some 8) 0 s = Some (WM_FAILED, s') \<and> held s' = insert 0 (held s)"
proof -
  obtain s where s: "tls_uart_dma_write ud_env 0x20000000 5 (Some 7) 1 dma_demo = Some (WM_SUCCESS, s)" "\<not> tx_dma_on (port 0 s)" "length (channels s) = 8"
    using dma_demo_written .
  obtain s1 s2 :: "ud uarts" where w: "held s1 = insert 2 (held dma_demo)" "length (dma_context s1) = 8"
    "tls_dma_irq_register (ue_io ud_env) 2 (Some 7) (word_of_nat 1) TLS_DMA_IRQ_TRANSFER_DONE s1 = Some s2" "tables s = tables s2"
    using dma_write_steps [OF s(1) dma_demo_lengths] by metis
  have "channels s = channels s1" using channels_of_tables [OF w(4)] registered_context(6) [OF w(3,2)] by simp
  then have h: "2 \<in> held s" using w(1) held_cong [of s s1] by simp
  have "\<exists>s'. tls_uart_dma_write ud_env 0x20000000 5 (Some 8) 0 s = Some (WM_FAILED, s') \<and> held s' = insert 0 (held s)"
    using uart_dma_busy_takes_channel0 [OF h s(3) _ _ _ _ s(2), of "0x20000000" 5 ud_env "Some 8"] by auto
  then show ?thesis using h by blast
qed

end
