(* ===== verification/Hostspi.thy ===== *)
theory Hostspi
  imports Dma_Correct "HOL-Library.Monad_Syntax"
begin

text \<open>
  The SPI master, \<^verbatim>\<open>src/Platform/Drivers/spi/wm_hostspi.c\<close> with the register functions of \<^verbatim>\<open>wm_spi_hal.h\<close>: messages of
  several transfers wait in a queue; a task and the interrupt handler feed them to two FIFOs of 32 bytes, or a DMA
  channel moves them from and to a fixed buffer. The port is \<open>sp_port\<close>, null before the driver was installed. A
  message is its index in \<open>sp_msgs\<close>; the transfers taken off its list are \<open>sp_done\<close>, whose receive buffers its
  submitter reads. \<open>current_transfer\<close> is always the first transfer of a message: the pointer is that message. A
  semaphore is its count. Registers, memory behind fixed addresses, allocator, pins and the creation of objects of the
  operating system are the parameter \<open>env\<close>. The result \<open>None\<close> is a null pointer, an access outside a buffer, a
  division by 0, a wait that does not end, or a task that stays blocked.
\<close>

section \<open>Data\<close>

record tls_spi_transfer =
  sp_tx :: "bytes option"
  sp_rx :: "bytes option"
  sp_len :: u32

record tls_spi_message =
  sp_transfers :: "tls_spi_transfer list"
  sp_done :: "tls_spi_transfer list"
  sp_status :: nat
  sp_signal :: nat

record tls_spi_port =
  speed_hz :: u32
  cs_active :: u8
  sp_mode :: u8
  reconfig :: u8
  wait_queue :: "nat list"
  sp_lock :: nat
  msg_queue :: "nat list"
  current_message :: "nat option"
  current_transfer :: "nat option"
  current_remaining_bytes :: u32
  transtype :: u8

record 'd spis = "'d dma" +
  sp_port :: "tls_spi_port option"
  sp_msgs :: "tls_spi_message list"
  sp_allocs :: nat

record 'd spi_env =
  sp_io :: "'d regs"
  sp_delay :: "nat \<Rightarrow> 'd \<Rightarrow> 'd"
  sp_heap :: allocator
  sp_create :: "nat \<Rightarrow> 'd \<Rightarrow> bool \<times> 'd"
  sp_peek :: "u32 \<Rightarrow> nat \<Rightarrow> 'd \<Rightarrow> bytes"
  sp_poke :: "u32 \<Rightarrow> bytes \<Rightarrow> 'd \<Rightarrow> 'd"
  sp_gpio_cfg :: "nat \<Rightarrow> 'd \<Rightarrow> 'd"
  sp_gpio_write :: "nat \<Rightarrow> nat \<Rightarrow> 'd \<Rightarrow> 'd"
  sp_irq_priority :: "nat \<Rightarrow> 'd \<Rightarrow> 'd"

definition HR_SPI_CHCFG_REG :: u32 where "HR_SPI_CHCFG_REG = 0x40010400"
definition HR_SPI_SPICFG_REG :: u32 where "HR_SPI_SPICFG_REG = 0x40010404"
definition HR_SPI_CLKCFG_REG :: u32 where "HR_SPI_CLKCFG_REG = 0x40010408"
definition HR_SPI_MODECFG_REG :: u32 where "HR_SPI_MODECFG_REG = 0x4001040C"
definition HR_SPI_INT_MASK_REG :: u32 where "HR_SPI_INT_MASK_REG = 0x40010410"
definition HR_SPI_INT_STATUS_REG :: u32 where "HR_SPI_INT_STATUS_REG = 0x40010414"
definition HR_SPI_STATUS_REG :: u32 where "HR_SPI_STATUS_REG = 0x40010418"
definition HR_SPI_TIMEOUT_REG :: u32 where "HR_SPI_TIMEOUT_REG = 0x4001041C"
definition HR_SPI_TXDATA_REG :: u32 where "HR_SPI_TXDATA_REG = 0x40010420"
definition HR_SPI_RXDATA_REG :: u32 where "HR_SPI_RXDATA_REG = 0x40010430"
definition SPI_RX_INVALID_BITS :: "u32 \<Rightarrow> u32" where "SPI_RX_INVALID_BITS n = push_bit 23 n"
definition SPI_CLEAR_FIFOS :: u32 where "SPI_CLEAR_FIFOS = 0x400000"
definition SPI_CONTINUE_MODE :: u32 where "SPI_CONTINUE_MODE = 0x200000"
definition SPI_RX_CHANNEL_ON :: u32 where "SPI_RX_CHANNEL_ON = 0x100000"
definition SPI_TX_CHANNEL_ON :: u32 where "SPI_TX_CHANNEL_ON = 0x80000"
definition SPI_VALID_CLKS_NUM :: "u32 \<Rightarrow> u32" where "SPI_VALID_CLKS_NUM n = push_bit 3 n"
definition SPI_CS_LOW :: u32 where "SPI_CS_LOW = 0"
definition SPI_CS_HIGH :: u32 where "SPI_CS_HIGH = 4"
definition SPI_FORCE_SPI_CS_OUT :: u32 where "SPI_FORCE_SPI_CS_OUT = 2"
definition SPI_START :: u32 where "SPI_START = 1"
definition SPI_BIG_ENDIAN :: u32 where "SPI_BIG_ENDIAN = 8"
definition SPI_SET_CPHA :: "u32 \<Rightarrow> u32" where "SPI_SET_CPHA n = push_bit 1 n"
definition SPI_SET_CPOL :: "u32 \<Rightarrow> u32" where "SPI_SET_CPOL n = n"
definition SPI_RX_TRIGGER_LEVEL :: "u32 \<Rightarrow> u32" where "SPI_RX_TRIGGER_LEVEL n = push_bit 6 n"
definition SPI_TX_TRIGGER_LEVEL :: "u32 \<Rightarrow> u32" where "SPI_TX_TRIGGER_LEVEL n = push_bit 2 n"
definition SPI_RX_DMA_ON :: u32 where "SPI_RX_DMA_ON = 2"
definition SPI_TX_DMA_ON :: u32 where "SPI_TX_DMA_ON = 1"
definition SPI_INT_MASK_ALL :: u32 where "SPI_INT_MASK_ALL = 0xFF"
definition SPI_INT_TRANSFER_DONE :: u32 where "SPI_INT_TRANSFER_DONE = 0x40"
definition SPI_INT_RX_FIFO_RDY :: u32 where "SPI_INT_RX_FIFO_RDY = 2"
definition SPI_INT_TX_FIFO_RDY :: u32 where "SPI_INT_TX_FIFO_RDY = 1"
definition SPI_GET_RX_FIFO_CNT :: "u32 \<Rightarrow> u32" where "SPI_GET_RX_FIFO_CNT v = drop_bit 6 (v AND 0xFC0)"
definition SPI_GET_TX_FIFO_CNT :: "u32 \<Rightarrow> u32" where "SPI_GET_TX_FIFO_CNT v = v AND 0x3F"
definition SPI_TIMER_EN :: u32 where "SPI_TIMER_EN = 0x80000000"
definition SPI_TIME_OUT :: "u32 \<Rightarrow> u32" where "SPI_TIME_OUT n = (n * 40000000) div 1000 AND 0x7FFFFFFF"
definition UNIT_MHZ :: u32 where "UNIT_MHZ = 1000000"
definition SPI0_INT :: nat where "SPI0_INT = 21"

lemmas spi_regs = HR_SPI_CHCFG_REG_def HR_SPI_SPICFG_REG_def HR_SPI_CLKCFG_REG_def HR_SPI_MODECFG_REG_def HR_SPI_INT_MASK_REG_def
  HR_SPI_INT_STATUS_REG_def HR_SPI_STATUS_REG_def HR_SPI_TIMEOUT_REG_def HR_SPI_TXDATA_REG_def HR_SPI_RXDATA_REG_def

definition TLS_SPI_STATUS_OK :: int where "TLS_SPI_STATUS_OK = 0"
definition TLS_SPI_STATUS_EINVAL :: int where "TLS_SPI_STATUS_EINVAL = -1"
definition TLS_SPI_STATUS_ENOMEM :: int where "TLS_SPI_STATUS_ENOMEM = -2"
definition TLS_SPI_STATUS_EBUSY :: int where "TLS_SPI_STATUS_EBUSY = -3"
definition TLS_SPI_STATUS_ESHUTDOWN :: int where "TLS_SPI_STATUS_ESHUTDOWN = -4"
definition TLS_SPI_STATUS_EPERM :: int where "TLS_SPI_STATUS_EPERM = -5"
definition TLS_SPI_STATUS_ECLKNOSUPPORT :: int where "TLS_SPI_STATUS_ECLKNOSUPPORT = -6"
definition TLS_SPI_STATUS_EMODENOSUPPORT :: int where "TLS_SPI_STATUS_EMODENOSUPPORT = -7"
definition TLS_SPI_CS_LOW :: u8 where "TLS_SPI_CS_LOW = 0"
definition TLS_SPI_CS_HIGH :: u8 where "TLS_SPI_CS_HIGH = 1"
definition TLS_SPI_FCLK_MIN :: u32 where "TLS_SPI_FCLK_MIN = 1000"
definition SPI_DEFAULT_SPEED :: u32 where "SPI_DEFAULT_SPEED = 2000000"
definition SPI_BYTE_TRANSFER :: u8 where "SPI_BYTE_TRANSFER = 0"
definition SPI_WORD_TRANSFER :: u8 where "SPI_WORD_TRANSFER = 1"
definition SPI_DMA_TRANSFER :: u8 where "SPI_DMA_TRANSFER = 2"
definition MSG_QUEUE_SIZE :: nat where "MSG_QUEUE_SIZE = 8"
definition SPI_SCHED_MSG_START_ENGINE :: nat where "SPI_SCHED_MSG_START_ENGINE = 1"
definition SPI_SCHED_MSG_TX_FIFO_READY :: nat where "SPI_SCHED_MSG_TX_FIFO_READY = 2"
definition SPI_SCHED_MSG_RX_FIFO_READY :: nat where "SPI_SCHED_MSG_RX_FIFO_READY = 3"
definition SPI_SCHED_MSG_TRANSFER_COMPLETE :: nat where "SPI_SCHED_MSG_TRANSFER_COMPLETE = 4"
definition SPI_MESSAGE_STATUS_IDLE :: nat where "SPI_MESSAGE_STATUS_IDLE = 0"
definition SPI_MESSAGE_STATUS_INPROGRESS :: nat where "SPI_MESSAGE_STATUS_INPROGRESS = 1"
definition SPI_MESSAGE_STATUS_DONE :: nat where "SPI_MESSAGE_STATUS_DONE = 2"
definition SPI_DMA_CMD_ADDR :: u32 where "SPI_DMA_CMD_ADDR = 0x20038000"
definition SPI_DMA_CMD_MAX_SIZE :: u32 where "SPI_DMA_CMD_MAX_SIZE = 0x20"
definition SPI_DMA_BUF_ADDR :: u32 where "SPI_DMA_BUF_ADDR = SPI_DMA_CMD_ADDR + SPI_DMA_CMD_MAX_SIZE"
definition SPI_DMA_BUF_MAX_SIZE :: u32 where "SPI_DMA_BUF_MAX_SIZE = 8160"
definition SPI_DMA_MAX_TRANS_SIZE :: u32 where "SPI_DMA_MAX_TRANS_SIZE = 4092"

lemmas spi_status = TLS_SPI_STATUS_OK_def TLS_SPI_STATUS_EINVAL_def TLS_SPI_STATUS_ENOMEM_def TLS_SPI_STATUS_EBUSY_def
  TLS_SPI_STATUS_ESHUTDOWN_def TLS_SPI_STATUS_EPERM_def TLS_SPI_STATUS_ECLKNOSUPPORT_def TLS_SPI_STATUS_EMODENOSUPPORT_def
lemmas spi_consts = TLS_SPI_CS_LOW_def TLS_SPI_CS_HIGH_def SPI_BYTE_TRANSFER_def SPI_WORD_TRANSFER_def SPI_DMA_TRANSFER_def
  MSG_QUEUE_SIZE_def SPI_SCHED_MSG_START_ENGINE_def SPI_SCHED_MSG_TX_FIFO_READY_def SPI_SCHED_MSG_RX_FIFO_READY_def
  SPI_SCHED_MSG_TRANSFER_COMPLETE_def SPI_MESSAGE_STATUS_IDLE_def SPI_MESSAGE_STATUS_INPROGRESS_def SPI_MESSAGE_STATUS_DONE_def
lemmas spi_bits = SPI_RX_INVALID_BITS_def SPI_CLEAR_FIFOS_def SPI_CONTINUE_MODE_def SPI_RX_CHANNEL_ON_def SPI_TX_CHANNEL_ON_def
  SPI_VALID_CLKS_NUM_def SPI_CS_LOW_def SPI_CS_HIGH_def SPI_FORCE_SPI_CS_OUT_def SPI_START_def SPI_BIG_ENDIAN_def SPI_SET_CPHA_def
  SPI_SET_CPOL_def SPI_RX_TRIGGER_LEVEL_def SPI_TX_TRIGGER_LEVEL_def SPI_RX_DMA_ON_def SPI_TX_DMA_ON_def SPI_INT_MASK_ALL_def
  SPI_INT_TRANSFER_DONE_def SPI_INT_RX_FIFO_RDY_def SPI_INT_TX_FIFO_RDY_def SPI_GET_RX_FIFO_CNT_def SPI_GET_TX_FIFO_CNT_def
  SPI_TIMER_EN_def SPI_TIME_OUT_def UNIT_MHZ_def SPI0_INT_def

section \<open>Registers\<close>

definition spi_set_mode :: "'d regs \<Rightarrow> u8 \<Rightarrow> ('d, 'z) dma_scheme \<Rightarrow> ('d, 'z) dma_scheme" where
  "spi_set_mode io m = reg_upd io HR_SPI_SPICFG_REG (\<lambda>v.
     if m = 0 then (v AND NOT 3) OR (SPI_SET_CPOL 0 OR SPI_SET_CPHA 0)
     else if m = 1 then (v AND NOT 3) OR (SPI_SET_CPOL 0 OR SPI_SET_CPHA 1)
     else if m = 2 then (v AND NOT 3) OR (SPI_SET_CPOL 1 OR SPI_SET_CPHA 0)
     else if m = 3 then (v AND NOT 3) OR (SPI_SET_CPOL 1 OR SPI_SET_CPHA 1)
     else v)"

definition spi_set_endian :: "'d regs \<Rightarrow> u8 \<Rightarrow> ('d, 'z) dma_scheme \<Rightarrow> ('d, 'z) dma_scheme" where
  "spi_set_endian io e = reg_upd io HR_SPI_SPICFG_REG (\<lambda>v. if e = 0 then v AND NOT 8 else if e = 1 then (v AND NOT 8) OR SPI_BIG_ENDIAN else v)"

definition spi_set_chipselect_mode :: "'d regs \<Rightarrow> u8 \<Rightarrow> ('d, 'z) dma_scheme \<Rightarrow> ('d, 'z) dma_scheme" where
  "spi_set_chipselect_mode io c = reg_upd io HR_SPI_CHCFG_REG (\<lambda>v. if c = 0 then (v AND NOT 4) OR SPI_CS_LOW else if c = 1 then (v AND NOT 4) OR SPI_CS_HIGH else v)"

definition spi_clear_fifo :: "'d regs \<Rightarrow> ('d, 'z) dma_scheme \<Rightarrow> ('d, 'z) dma_scheme" where
  "spi_clear_fifo io = reg_upd io HR_SPI_CHCFG_REG (\<lambda>v. v OR SPI_CLEAR_FIFOS)"

definition spi_set_rx_channel :: "'d regs \<Rightarrow> u8 \<Rightarrow> ('d, 'z) dma_scheme \<Rightarrow> ('d, 'z) dma_scheme" where
  "spi_set_rx_channel io b = reg_upd io HR_SPI_CHCFG_REG (\<lambda>v. if b = 0 then v AND NOT 0x100000 else if b = 1 then (v AND NOT 0x100000) OR SPI_RX_CHANNEL_ON else v)"

definition spi_set_tx_channel :: "'d regs \<Rightarrow> u8 \<Rightarrow> ('d, 'z) dma_scheme \<Rightarrow> ('d, 'z) dma_scheme" where
  "spi_set_tx_channel io b = reg_upd io HR_SPI_CHCFG_REG (\<lambda>v. if b = 0 then v AND NOT 0x80000 else if b = 1 then (v AND NOT 0x80000) OR SPI_TX_CHANNEL_ON else v)"

definition spi_set_sclk_length :: "'d regs \<Rightarrow> u16 \<Rightarrow> u8 \<Rightarrow> ('d, 'z) dma_scheme \<Rightarrow> ('d, 'z) dma_scheme" where
  "spi_set_sclk_length io n skip = reg_upd io HR_SPI_CHCFG_REG (\<lambda>v.
     (v AND NOT (push_bit 23 0xFF OR push_bit 3 0xFFFF)) OR (SPI_VALID_CLKS_NUM (ucast n) OR SPI_RX_INVALID_BITS (ucast skip)))"

definition spi_force_cs_out :: "'d regs \<Rightarrow> u8 \<Rightarrow> ('d, 'z) dma_scheme \<Rightarrow> ('d, 'z) dma_scheme" where
  "spi_force_cs_out io e = reg_upd io HR_SPI_CHCFG_REG (\<lambda>v. if e \<noteq> 0 then v OR SPI_FORCE_SPI_CS_OUT else v AND NOT SPI_FORCE_SPI_CS_OUT)"

definition spi_sclk_start :: "'d regs \<Rightarrow> ('d, 'z) dma_scheme \<Rightarrow> ('d, 'z) dma_scheme" where
  "spi_sclk_start io = reg_upd io HR_SPI_CHCFG_REG (\<lambda>v. v OR SPI_START)"

definition spi_apb :: "'d regs \<Rightarrow> ('d, 'z) dma_scheme \<Rightarrow> (u32 \<times> ('d, 'z) dma_scheme) option" where
  "spi_apb io s = map_option (\<lambda>(c, d). (apbclk c * UNIT_MHZ, s\<lparr>dev := d\<rparr>)) (tls_sys_clk_get io (dev s))"

definition spi_set_sclk :: "'d regs \<Rightarrow> u32 \<Rightarrow> ('d, 'z) dma_scheme \<Rightarrow> ('d, 'z) dma_scheme option" where
  "spi_set_sclk io fclk s = do {
     (apb, s) \<leftarrow> spi_apb io s;
     if fclk * 2 = 0 then None
     else Some (reg_upd io HR_SPI_CLKCFG_REG (\<lambda>v. (v AND NOT 0xFFFF) OR (apb div (fclk * 2) - 1)) s) }"

definition spi_set_tx_trigger_level :: "'d regs \<Rightarrow> u8 \<Rightarrow> ('d, 'z) dma_scheme \<Rightarrow> ('d, 'z) dma_scheme" where
  "spi_set_tx_trigger_level io l = reg_upd io HR_SPI_MODECFG_REG (\<lambda>v. (v AND NOT (push_bit 2 7)) OR SPI_TX_TRIGGER_LEVEL (ucast l))"

definition spi_set_rx_trigger_level :: "'d regs \<Rightarrow> u8 \<Rightarrow> ('d, 'z) dma_scheme \<Rightarrow> ('d, 'z) dma_scheme" where
  "spi_set_rx_trigger_level io l = reg_upd io HR_SPI_MODECFG_REG (\<lambda>v. (v AND NOT (push_bit 6 7)) OR SPI_RX_TRIGGER_LEVEL (ucast l))"

text \<open>The levels of the FIFOs: bytes received, and room to send.\<close>

definition spi_rx_level :: "'d regs \<Rightarrow> ('d, 'z) dma_scheme \<Rightarrow> u8 \<times> ('d, 'z) dma_scheme" where
  "spi_rx_level io s = (let (v, s) = reg_get io HR_SPI_STATUS_REG s in (ucast (SPI_GET_RX_FIFO_CNT v), s))"

definition spi_tx_level :: "'d regs \<Rightarrow> ('d, 'z) dma_scheme \<Rightarrow> u8 \<times> ('d, 'z) dma_scheme" where
  "spi_tx_level io s = (let (v, s) = reg_get io HR_SPI_STATUS_REG s in (ucast (32 - SPI_GET_TX_FIFO_CNT v), s))"

definition spi_int_mask :: "'d regs \<Rightarrow> ('d, 'z) dma_scheme \<Rightarrow> u32 \<times> ('d, 'z) dma_scheme" where
  "spi_int_mask io s = (let (v, s) = reg_get io HR_SPI_INT_MASK_REG s in (v AND SPI_INT_MASK_ALL, s))"

definition spi_unmask_int :: "'d regs \<Rightarrow> u32 \<Rightarrow> ('d, 'z) dma_scheme \<Rightarrow> ('d, 'z) dma_scheme" where
  "spi_unmask_int io m = reg_upd io HR_SPI_INT_MASK_REG (\<lambda>v. v AND NOT (m AND SPI_INT_MASK_ALL))"

definition spi_get_int_status :: "'d regs \<Rightarrow> ('d, 'z) dma_scheme \<Rightarrow> u32 \<times> ('d, 'z) dma_scheme" where
  "spi_get_int_status io = reg_get io HR_SPI_INT_STATUS_REG"

definition spi_clear_int_status :: "'d regs \<Rightarrow> u32 \<Rightarrow> ('d, 'z) dma_scheme \<Rightarrow> ('d, 'z) dma_scheme" where
  "spi_clear_int_status io srcs = reg_upd io HR_SPI_INT_STATUS_REG (\<lambda>v. (v AND NOT (srcs AND 0xFF)) OR (srcs AND 0xFF))"

definition spi_data_put :: "'d regs \<Rightarrow> u32 \<Rightarrow> ('d, 'z) dma_scheme \<Rightarrow> ('d, 'z) dma_scheme" where
  "spi_data_put io = reg_set io HR_SPI_TXDATA_REG"

definition spi_data_get :: "'d regs \<Rightarrow> ('d, 'z) dma_scheme \<Rightarrow> u32 \<times> ('d, 'z) dma_scheme" where
  "spi_data_get io = reg_get io HR_SPI_RXDATA_REG"

end
