(* ===== verification/Hostspi_Engine.thy ===== *)
theory Hostspi_Engine
  imports Hostspi
begin

text \<open>
  The message engine of the SPI master: filling and emptying the FIFOs, the scheduler task, the interrupt handler, and
  submitting messages. Bytes are packed into words of the FIFO from the top or from the bottom, after the type of transfer.
\<close>

section \<open>Words of the FIFO\<close>

text \<open>What the driver makes of up to four bytes, and back; the third type of transfer, DMA, is not meant to get here.\<close>

definition pack :: "u8 \<Rightarrow> bytes \<Rightarrow> u32" where
  "pack ty bs = (let bs = take 4 (bs @ [0, 0, 0, 0]) in if ty = SPI_BYTE_TRANSFER then de32 (rev bs) else if ty = SPI_WORD_TRANSFER then de32 bs else 0)"

definition unpack :: "u8 \<Rightarrow> nat \<Rightarrow> u32 \<Rightarrow> bytes" where
  "unpack ty n w = (if ty = SPI_BYTE_TRANSFER then take n (rev (le32 w)) else if ty = SPI_WORD_TRANSFER then take n (le32 w) else replicate n 0)"

section \<open>Access\<close>

definition on_spi :: "(tls_spi_port \<Rightarrow> tls_spi_port) \<Rightarrow> 'd spis \<Rightarrow> 'd spis" where
  "on_spi f s = s\<lparr>sp_port := map_option f (sp_port s)\<rparr>"

definition on_msg :: "nat \<Rightarrow> (tls_spi_message \<Rightarrow> tls_spi_message) \<Rightarrow> 'd spis \<Rightarrow> 'd spis" where
  "on_msg m f s = s\<lparr>sp_msgs := (sp_msgs s)[m := f (sp_msgs s ! m)]\<rparr>"

definition lock_take :: "'d spis \<Rightarrow> 'd spis option" where
  "lock_take s = do { p \<leftarrow> sp_port s; if sp_lock p = 0 then None else Some (on_spi (\<lambda>p. p\<lparr>sp_lock := sp_lock p - 1\<rparr>) s) }"

definition lock_give :: "'d spis \<Rightarrow> 'd spis" where
  "lock_give = on_spi (\<lambda>p. p\<lparr>sp_lock := min 5 (sp_lock p + 1)\<rparr>)"

text \<open>A message for the scheduler; the result of \<^verbatim>\<open>tls_os_queue_send\<close> is ignored, so it is lost when the queue is full.\<close>

definition msg_send :: "nat \<Rightarrow> 'd spis \<Rightarrow> 'd spis" where
  "msg_send k = on_spi (\<lambda>p. if length (msg_queue p) < MSG_QUEUE_SIZE then p\<lparr>msg_queue := msg_queue p @ [k]\<rparr> else p)"

section \<open>FIFOs\<close>

fun fill_words :: "'d regs \<Rightarrow> u8 \<Rightarrow> tls_spi_transfer \<Rightarrow> nat \<Rightarrow> u32 \<Rightarrow> 'd spis \<Rightarrow> (u32 \<times> 'd spis) option" where
  "fill_words io ty t 0 rem s = Some (rem, s)"
| "fill_words io ty t (Suc k) rem s =
    (case sp_tx t of
       None \<Rightarrow> fill_words io ty t k (rem - 4) (spi_data_put io 0xFFFFFFFF s)
     | Some b \<Rightarrow>
        (if unat (sp_len t - rem) + 4 > length b then None
         else fill_words io ty t k (rem - 4) (spi_data_put io (pack ty (bslice (unat (sp_len t - rem)) 4 b)) s)))"

definition fill_rest :: "'d regs \<Rightarrow> u8 \<Rightarrow> tls_spi_transfer \<Rightarrow> nat \<Rightarrow> u32 \<Rightarrow> 'd spis \<Rightarrow> (u32 \<times> 'd spis) option" where
  "fill_rest io ty t n rem s =
    (case sp_tx t of
       None \<Rightarrow> Some (rem - of_nat n, spi_data_put io (pack ty (replicate n 0xFF)) s)
     | Some b \<Rightarrow>
        (if unat (sp_len t - rem) + n > length b then None
         else Some (rem - of_nat n, spi_data_put io (pack ty (bslice (unat (sp_len t - rem)) n b)) s)))"

definition spi_fill_txfifo :: "'d regs \<Rightarrow> tls_spi_transfer option \<Rightarrow> u32 \<Rightarrow> 'd spis \<Rightarrow> (u32 \<times> 'd spis) option" where
  "spi_fill_txfifo io t rem s =
    (case t of
       None \<Rightarrow> Some (0, s)
     | Some t \<Rightarrow>
        (if rem = 0 then Some (0, s)
         else do {
           p \<leftarrow> sp_port s;
           let (level, s) = spi_tx_level io s;
           let n = unat (if ucast level > rem then rem else ucast level);
           (rem', s) \<leftarrow> fill_words io (transtype p) t (n div 4) rem s;
           (rem', s) \<leftarrow> (if n mod 4 \<noteq> 0 then fill_rest io (transtype p) t (n mod 4) rem' s else Some (rem', s));
           Some (rem - rem', s) }))"

fun take_words :: "'d regs \<Rightarrow> u8 \<Rightarrow> nat \<Rightarrow> tls_spi_transfer \<Rightarrow> u32 \<Rightarrow> 'd spis \<Rightarrow> (u32 \<times> tls_spi_transfer \<times> 'd spis) option" where
  "take_words io ty 0 t rem s = Some (rem, t, s)"
| "take_words io ty (Suc k) t rem s =
    (let (w, s) = spi_data_get io s; pos = unat (sp_len t - rem)
     in case sp_rx t of
          None \<Rightarrow> take_words io ty k t (rem - 4) s
        | Some b \<Rightarrow>
           (if ty \<noteq> SPI_BYTE_TRANSFER \<and> ty \<noteq> SPI_WORD_TRANSFER then take_words io ty k t (rem - 4) s
            else if pos + 4 > length b then None
            else take_words io ty k (t\<lparr>sp_rx := Some (bsplice pos (unpack ty 4 w) b)\<rparr>) (rem - 4) s))"

definition take_rest :: "'d regs \<Rightarrow> u8 \<Rightarrow> nat \<Rightarrow> tls_spi_transfer \<Rightarrow> u32 \<Rightarrow> 'd spis \<Rightarrow> (u32 \<times> tls_spi_transfer \<times> 'd spis) option" where
  "take_rest io ty n t rem s =
    (let (w, s) = spi_data_get io s; pos = unat (sp_len t - rem)
     in case sp_rx t of
          None \<Rightarrow> Some (rem - of_nat n, t, s)
        | Some b \<Rightarrow>
           (if pos + n > length b then None
            else Some (rem - of_nat n, t\<lparr>sp_rx := Some (bsplice pos (unpack ty n w) b)\<rparr>, s)))"

text \<open>The number of bytes is the level of the FIFO, also where fewer remain in the transfer.\<close>

definition spi_get_rxfifo :: "'d regs \<Rightarrow> tls_spi_transfer \<Rightarrow> u32 \<Rightarrow> 'd spis \<Rightarrow> (u32 \<times> tls_spi_transfer \<times> 'd spis) option" where
  "spi_get_rxfifo io t rem s =
    (if rem = 0 then Some (0, t, s)
     else do {
       p \<leftarrow> sp_port s;
       let (level, s) = spi_rx_level io s;
       (rem', t, s) \<leftarrow> take_words io (transtype p) (unat level div 4) t rem s;
       (rem', t, s) \<leftarrow> (if unat level mod 4 \<noteq> 0 then take_rest io (transtype p) (unat level mod 4) t rem' s else Some (rem', t, s));
       Some (rem - rem', t, s) })"

section \<open>Messages\<close>

definition first_transfer :: "nat option \<Rightarrow> 'd spis \<Rightarrow> tls_spi_transfer option" where
  "first_transfer m s = (case m of None \<Rightarrow> None | Some m \<Rightarrow> (case sp_transfers (sp_msgs s ! m) of [] \<Rightarrow> None | t # _ \<Rightarrow> Some t))"

definition spi_next_transfer :: "nat option \<Rightarrow> 'd spis \<Rightarrow> nat option" where
  "spi_next_transfer m s = (case m of None \<Rightarrow> None | Some m \<Rightarrow> if sp_transfers (sp_msgs s ! m) = [] then None else Some m)"

definition spi_next_message :: "'d spis \<Rightarrow> (nat option \<times> 'd spis) option" where
  "spi_next_message s = do {
     p \<leftarrow> sp_port s;
     Some (case wait_queue p of
             [] \<Rightarrow> (None, s)
           | m # _ \<Rightarrow> (Some m, on_msg m (\<lambda>x. x\<lparr>sp_status := SPI_MESSAGE_STATUS_INPROGRESS\<rparr>) (on_spi (\<lambda>p. p\<lparr>current_transfer := spi_next_transfer (Some m) s\<rparr>) s))) }"

definition spi_start_transfer :: "'d spi_env \<Rightarrow> u32 \<Rightarrow> 'd spis \<Rightarrow> 'd spis option" where
  "spi_start_transfer env n s = do {
     p \<leftarrow> sp_port s;
     s \<leftarrow> (if reconfig p \<noteq> 0 then do {
            s \<leftarrow> spi_set_sclk (sp_io env) (speed_hz p) (spi_set_chipselect_mode (sp_io env) (cs_active p) (spi_set_mode (sp_io env) (sp_mode p) s));
            Some (on_spi (\<lambda>p. p\<lparr>reconfig := 0\<rparr>) s) }
          else Some s);
     let s = spi_set_sclk_length (sp_io env) (ucast (n * 8)) 0 s;
     let s = spi_set_chipselect_mode (sp_io env) TLS_SPI_CS_LOW s;
     Some (spi_sclk_start (sp_io env) s) }"

text \<open>The transfer in progress after the bytes that came in were taken: when it is complete, the next one, of this message or the next.\<close>

definition finish_transfer :: "'d spi_env \<Rightarrow> nat \<Rightarrow> nat \<Rightarrow> 'd spis \<Rightarrow> 'd spis option" where
  "finish_transfer env m t s = do {
     s \<leftarrow> lock_take s;
     let s = on_msg t (\<lambda>x. x\<lparr>sp_done := sp_done x @ [hd (sp_transfers x)], sp_transfers := tl (sp_transfers x)\<rparr>) s;
     p \<leftarrow> sp_port s;
     let next = spi_next_transfer (current_message p) s;
     let s = on_spi (\<lambda>p. p\<lparr>current_transfer := next\<rparr>) s;
     s \<leftarrow> (if next = None then do {
            let s = spi_set_chipselect_mode (sp_io env) TLS_SPI_CS_HIGH s;
            let s = on_msg m (\<lambda>x. x\<lparr>sp_status := SPI_MESSAGE_STATUS_DONE\<rparr>) s;
            let s = on_spi (\<lambda>p. p\<lparr>wait_queue := remove1 m (wait_queue p)\<rparr>) s;
            (c, s) \<leftarrow> spi_next_message s;
            Some (on_spi (\<lambda>p. p\<lparr>current_message := c\<rparr>) s) }
          else Some s);
     let s = lock_give s;
     p \<leftarrow> sp_port s;
     Some (case first_transfer (current_transfer p) s of
             None \<Rightarrow> s
           | Some x \<Rightarrow> on_spi (\<lambda>p. p\<lparr>current_remaining_bytes := sp_len x\<rparr>) s) }"

definition spi_continue_transfer :: "'d spi_env \<Rightarrow> 'd spis \<Rightarrow> 'd spis option" where
  "spi_continue_transfer env s = do {
     p \<leftarrow> sp_port s;
     case (current_message p, current_transfer p) of
       (Some m, Some t) \<Rightarrow> do {
         x \<leftarrow> first_transfer (Some t) s;
         (n, x, s) \<leftarrow> spi_get_rxfifo (sp_io env) x (current_remaining_bytes p) s;
         let s = on_msg t (\<lambda>y. y\<lparr>sp_transfers := x # tl (sp_transfers y)\<rparr>) s;
         let s = on_spi (\<lambda>p. p\<lparr>current_remaining_bytes := current_remaining_bytes p - n\<rparr>) s;
         s \<leftarrow> (if current_remaining_bytes p - n = 0 then finish_transfer env m t s else Some s);
         p \<leftarrow> sp_port s;
         (n, s) \<leftarrow> spi_fill_txfifo (sp_io env) (first_transfer (current_transfer p) s) (current_remaining_bytes p) s;
         s \<leftarrow> (if n \<noteq> 0 then spi_start_transfer env n s else Some s);
         Some (if sp_status (sp_msgs s ! m) = SPI_MESSAGE_STATUS_DONE then on_msg m (\<lambda>y. y\<lparr>sp_signal := sp_signal y + 1\<rparr>) s else s) }
     | _ \<Rightarrow> Some s }"

text \<open>One turn of the scheduler task, which is blocked while no message waits.\<close>

definition spi_start_engine :: "'d spi_env \<Rightarrow> 'd spis \<Rightarrow> 'd spis option" where
  "spi_start_engine env s = do {
     p \<leftarrow> sp_port s;
     if current_message p \<noteq> None then Some s
     else do {
       s \<leftarrow> lock_take s;
       (c, s) \<leftarrow> spi_next_message s;
       let s = lock_give (on_spi (\<lambda>p. p\<lparr>current_message := c\<rparr>) s);
       p \<leftarrow> sp_port s;
       case first_transfer (current_transfer p) s of
         None \<Rightarrow> Some s
       | Some x \<Rightarrow> do {
           let s = on_spi (\<lambda>p. p\<lparr>current_remaining_bytes := sp_len x\<rparr>) s;
           (n, s) \<leftarrow> spi_fill_txfifo (sp_io env) (Some x) (sp_len x) s;
           spi_start_transfer env n s } } }"

definition spi_scheduler :: "'d spi_env \<Rightarrow> 'd spis \<Rightarrow> 'd spis option" where
  "spi_scheduler env s = do {
     p \<leftarrow> sp_port s;
     case msg_queue p of
       [] \<Rightarrow> None
     | msg # rest \<Rightarrow> do {
         let s = on_spi (\<lambda>p. p\<lparr>msg_queue := rest\<rparr>) s;
         if msg = SPI_SCHED_MSG_START_ENGINE then spi_start_engine env s
         else if msg = SPI_SCHED_MSG_TRANSFER_COMPLETE then spi_continue_transfer env s
         else Some s } }"

definition SPI_LS_IRQHandler :: "'d spi_env \<Rightarrow> 'd spis \<Rightarrow> 'd spis option" where
  "SPI_LS_IRQHandler env s =
    (let (st, s) = spi_get_int_status (sp_io env) s;
         s = spi_clear_int_status (sp_io env) st s;
         (mask, s) = spi_int_mask (sp_io env) s;
         st = st AND NOT mask;
         s = (if st AND SPI_INT_TX_FIFO_RDY \<noteq> 0 then msg_send SPI_SCHED_MSG_TX_FIFO_READY s else s);
         s = (if st AND SPI_INT_RX_FIFO_RDY \<noteq> 0 then msg_send SPI_SCHED_MSG_RX_FIFO_READY s else s)
     in if st AND (SPI_INT_TX_FIFO_RDY OR SPI_INT_RX_FIFO_RDY OR SPI_INT_TRANSFER_DONE) = 0 then Some s
        else do {
          p \<leftarrow> sp_port s;
          if st AND SPI_INT_TRANSFER_DONE = 0 then Some s
          else if transtype p = SPI_WORD_TRANSFER then spi_continue_transfer env s
          else Some (msg_send SPI_SCHED_MSG_TRANSFER_COMPLETE s) })"

section \<open>Submitting\<close>

definition tls_spi_async :: "nat option \<Rightarrow> 'd spis \<Rightarrow> (int \<times> 'd spis) option" where
  "tls_spi_async m s =
    (case sp_port s of
       None \<Rightarrow> Some (TLS_SPI_STATUS_ESHUTDOWN, s)
     | Some p \<Rightarrow>
        (case m of
           None \<Rightarrow> Some (TLS_SPI_STATUS_EINVAL, s)
         | Some m \<Rightarrow>
            (if sp_transfers (sp_msgs s ! m) = [] \<or> (\<exists>t \<in> set (sp_transfers (sp_msgs s ! m)). sp_len t = 0) then Some (TLS_SPI_STATUS_EINVAL, s)
             else do {
               s \<leftarrow> lock_take s;
               let need_sched = (wait_queue p = []);
               let s = on_msg m (\<lambda>x. x\<lparr>sp_status := SPI_MESSAGE_STATUS_IDLE\<rparr>) s;
               let s = lock_give (on_spi (\<lambda>p. p\<lparr>wait_queue := wait_queue p @ [m]\<rparr>) s);
               Some (TLS_SPI_STATUS_OK, if need_sched then msg_send SPI_SCHED_MSG_START_ENGINE s else s) })))"

text \<open>What goes on while the submitter waits: turns of the scheduler and interrupts, in the order of a list.\<close>

datatype spi_event = Turn | Transfer_irq

fun spi_step :: "'d spi_env \<Rightarrow> spi_event \<Rightarrow> 'd spis \<Rightarrow> 'd spis option" where
  "spi_step env Turn s = spi_scheduler env s"
| "spi_step env Transfer_irq s = SPI_LS_IRQHandler env s"

fun spi_wait :: "'d spi_env \<Rightarrow> nat \<Rightarrow> spi_event list \<Rightarrow> 'd spis \<Rightarrow> 'd spis option" where
  "spi_wait env m evs s =
    (if sp_signal (sp_msgs s ! m) > 0 then Some (on_msg m (\<lambda>x. x\<lparr>sp_signal := sp_signal x - 1\<rparr>) s)
     else case evs of [] \<Rightarrow> None | e # evs \<Rightarrow> do { s \<leftarrow> spi_step env e s; spi_wait env m evs s })"

declare spi_wait.simps [simp del]

definition tls_spi_sync :: "'d spi_env \<Rightarrow> tls_spi_transfer list \<Rightarrow> spi_event list \<Rightarrow> 'd spis \<Rightarrow> (int \<times> tls_spi_transfer list \<times> 'd spis) option" where
  "tls_spi_sync env ts evs s =
    (let m = length (sp_msgs s); (ok, d) = sp_create env 0 (dev s);
         s = s\<lparr>dev := d, sp_msgs := sp_msgs s @ [\<lparr>sp_transfers = ts, sp_done = [], sp_status = 0, sp_signal = 0\<rparr>]\<rparr>
     in if \<not> ok then Some (TLS_SPI_STATUS_ENOMEM, ts, s)
        else do {
          (status, s) \<leftarrow> tls_spi_async (Some m) s;
          s \<leftarrow> (if status = TLS_SPI_STATUS_OK then spi_wait env m evs s else Some s);
          Some (status, sp_done (sp_msgs s ! m), s) })"

end
