(* ===== verification/Hostspi_Device.thy ===== *)
theory Hostspi_Device
  imports Hostspi_Engine
begin

text \<open>
  The hardware of the SPI master as the driver sees it, a locale, and a device that obeys it, with a slave whose answer
  to a byte may depend on all bytes it got before. Starting the clock moves bytes out of the transmit FIFO over the line,
  in the order of the bytes of a word that the configuration register selects, and as many into the receive FIFO.
\<close>

section \<open>The line\<close>

record shifter =
  sh_ch :: u32
  sh_cfg :: u32
  sh_txq :: "u32 list"
  sh_rxq :: bytes
  sh_out :: bytes
  sh_slave :: "bytes \<Rightarrow> u8 \<Rightarrow> u8"
  sh_done :: bool
  sh_mask :: u32
  sh_regs :: "u32 \<Rightarrow> u32"

definition word_bytes :: "u32 \<Rightarrow> u32 \<Rightarrow> bytes" where
  "word_bytes cfg w = (if cfg AND SPI_BIG_ENDIAN \<noteq> 0 then rev (le32 w) else le32 w)"

definition word_of_bytes :: "u32 \<Rightarrow> bytes \<Rightarrow> u32" where
  "word_of_bytes cfg bs = (let bs = take 4 (bs @ [0, 0, 0, 0]) in de32 (if cfg AND SPI_BIG_ENDIAN \<noteq> 0 then rev bs else bs))"

text \<open>What a slave answers to a run of bytes after the history \<open>h\<close>.\<close>

fun replies :: "(bytes \<Rightarrow> u8 \<Rightarrow> u8) \<Rightarrow> bytes \<Rightarrow> bytes \<Rightarrow> bytes" where
  "replies f h [] = []"
| "replies f h (x # xs) = f h x # replies f (h @ [x]) xs"

definition run_clock :: "nat \<Rightarrow> shifter \<Rightarrow> shifter" where
  "run_clock k x =
    (let bs = take k (concat (map (word_bytes (sh_cfg x)) (sh_txq x)))
     in x\<lparr>sh_txq := drop ((k + 3) div 4) (sh_txq x), sh_rxq := sh_rxq x @ replies (sh_slave x) (sh_out x) bs,
          sh_out := sh_out x @ bs, sh_done := True\<rparr>)"

lemma length_replies [simp]: "length (replies f h xs) = length xs"
  by (induction xs arbitrary: h) auto

lemma replies_append: "replies f h (xs @ ys) = replies f h xs @ replies f (h @ xs) ys"
  by (induction xs arbitrary: h) auto

lemma replies_take: "take n (replies f h xs) = replies f h (take n xs)"
  by (induction xs arbitrary: h n) (auto simp: take_Cons split: nat.split)

lemma replies_slice: "replies f (h @ take p xs) (bslice p n xs) = bslice p n (replies f h xs)"
proof (cases "p \<le> length xs")
  case True
  have "replies f h xs = replies f h (take p xs) @ replies f (h @ take p xs) (drop p xs)"
    by (metis append_take_drop_id replies_append)
  then show ?thesis using True by (simp add: bslice_def replies_take)
qed (simp add: bslice_def flip: length_0_conv)

lemma length_word_bytes [simp]: "length (word_bytes cfg w) = 4"
  by (simp add: word_bytes_def)

lemma word_bytes_of_bytes: "length bs \<le> 4 \<Longrightarrow> take (length bs) (word_bytes cfg (word_of_bytes cfg bs)) = bs"
  by (simp add: word_bytes_def word_of_bytes_def Let_def le32_de32)

section \<open>The interface\<close>

definition valid_clocks :: "u32 \<Rightarrow> nat" where
  "valid_clocks v = unat (drop_bit 3 v AND 0xFFFF)"

locale spi_line =
  fixes io :: "'d regs" and view :: "'d \<Rightarrow> shifter"
  assumes read_pure: "a \<noteq> HR_SPI_RXDATA_REG \<Longrightarrow> view (snd (tls_reg_read32 io a d)) = view d"
    and read_ch: "fst (tls_reg_read32 io HR_SPI_CHCFG_REG d) = sh_ch (view d)"
    and read_mask: "fst (tls_reg_read32 io HR_SPI_INT_MASK_REG d) = sh_mask (view d)"
    and read_done: "(fst (tls_reg_read32 io HR_SPI_INT_STATUS_REG d) AND SPI_INT_TRANSFER_DONE \<noteq> 0) = sh_done (view d)"
    and read_rx_level: "length (sh_rxq (view d)) \<le> 32 \<Longrightarrow> length (sh_txq (view d)) \<le> 8 \<Longrightarrow>
      SPI_GET_RX_FIFO_CNT (fst (tls_reg_read32 io HR_SPI_STATUS_REG d)) = word_of_nat (length (sh_rxq (view d)))"
    and read_tx_level: "length (sh_rxq (view d)) \<le> 32 \<Longrightarrow> length (sh_txq (view d)) \<le> 8 \<Longrightarrow>
      SPI_GET_TX_FIFO_CNT (fst (tls_reg_read32 io HR_SPI_STATUS_REG d)) = word_of_nat (4 * length (sh_txq (view d)))"
    and read_rx: "tls_reg_read32 io HR_SPI_RXDATA_REG d = (w, d') \<Longrightarrow> sh_rxq (view d) = bs @ rest \<Longrightarrow> length bs = 4 \<or> rest = [] \<Longrightarrow> length bs \<le> 4 \<Longrightarrow>
      take (length bs) (word_bytes (sh_cfg (view d)) w) = bs \<and> view d' = (view d)\<lparr>sh_rxq := rest\<rparr>"
    and write_tx: "length (sh_txq (view d)) < 8 \<Longrightarrow> view (tls_reg_write32 io HR_SPI_TXDATA_REG v d) = (view d)\<lparr>sh_txq := sh_txq (view d) @ [v]\<rparr>"
    and write_ch: "v AND (SPI_START OR SPI_CLEAR_FIFOS) = 0 \<Longrightarrow> view (tls_reg_write32 io HR_SPI_CHCFG_REG v d) = (view d)\<lparr>sh_ch := v\<rparr>"
    and write_start: "v AND SPI_CLEAR_FIFOS = 0 \<Longrightarrow> v AND SPI_START \<noteq> 0 \<Longrightarrow>
      v AND (SPI_RX_CHANNEL_ON OR SPI_TX_CHANNEL_ON) = SPI_RX_CHANNEL_ON OR SPI_TX_CHANNEL_ON \<Longrightarrow> valid_clocks v = 8 * k \<Longrightarrow>
      k \<le> 4 * length (sh_txq (view d)) \<Longrightarrow> k \<le> 32 \<Longrightarrow> sh_rxq (view d) = [] \<Longrightarrow>
      view (tls_reg_write32 io HR_SPI_CHCFG_REG v d) = run_clock k ((view d)\<lparr>sh_ch := v AND NOT SPI_START\<rparr>)"
    and write_ints: "view (tls_reg_write32 io HR_SPI_INT_STATUS_REG v d) = (view d)\<lparr>sh_done := (sh_done (view d) \<and> v AND SPI_INT_TRANSFER_DONE = 0)\<rparr>"

section \<open>A device\<close>

definition sd_read :: "u32 \<Rightarrow> shifter \<Rightarrow> u32 \<times> shifter" where
  "sd_read a x =
    (if a = HR_SPI_CHCFG_REG then (sh_ch x, x)
     else if a = HR_SPI_SPICFG_REG then (sh_cfg x, x)
     else if a = HR_SPI_INT_MASK_REG then (sh_mask x, x)
     else if a = HR_SPI_INT_STATUS_REG then (if sh_done x then SPI_INT_TRANSFER_DONE else 0, x)
     else if a = HR_SPI_STATUS_REG then (push_bit 6 (word_of_nat (length (sh_rxq x))) OR word_of_nat (4 * length (sh_txq x)), x)
     else if a = HR_SPI_RXDATA_REG then (word_of_bytes (sh_cfg x) (take 4 (sh_rxq x)), x\<lparr>sh_rxq := drop 4 (sh_rxq x)\<rparr>)
     else (sh_regs x a, x))"

definition sd_write :: "u32 \<Rightarrow> u32 \<Rightarrow> shifter \<Rightarrow> shifter" where
  "sd_write a v x =
    (if a = HR_SPI_CHCFG_REG then
       (let x = x\<lparr>sh_ch := v AND NOT (SPI_START OR SPI_CLEAR_FIFOS)\<rparr>;
            x = (if v AND SPI_CLEAR_FIFOS \<noteq> 0 then x\<lparr>sh_txq := [], sh_rxq := []\<rparr> else x)
        in if v AND SPI_START \<noteq> 0 then run_clock (valid_clocks v div 8) x else x)
     else if a = HR_SPI_SPICFG_REG then x\<lparr>sh_cfg := v\<rparr>
     else if a = HR_SPI_INT_MASK_REG then x\<lparr>sh_mask := v\<rparr>
     else if a = HR_SPI_INT_STATUS_REG then x\<lparr>sh_done := (sh_done x \<and> v AND SPI_INT_TRANSFER_DONE = 0)\<rparr>
     else if a = HR_SPI_TXDATA_REG then x\<lparr>sh_txq := sh_txq x @ [v]\<rparr>
     else x\<lparr>sh_regs := (sh_regs x)(a := v)\<rparr>)"

definition sd_io :: "shifter regs" where
  "sd_io = \<lparr>tls_reg_read32 = sd_read, tls_reg_write32 = sd_write, tls_irq_switch = (\<lambda>_ _ d. d)\<rparr>"

lemma sd_simps [simp]: "tls_reg_read32 sd_io = sd_read" "tls_reg_write32 sd_io = sd_write" "tls_irq_switch sd_io i b d = d"
  by (simp_all add: sd_io_def)

lemma status_levels:
  fixes r t :: u32
  assumes "r < 64" "t < 64"
  shows "SPI_GET_RX_FIFO_CNT (push_bit 6 r OR t) = r" "SPI_GET_TX_FIFO_CNT (push_bit 6 r OR t) = t"
proof -
  have rt: "take_bit 6 r = r" "take_bit 6 t = t" using assms by (simp_all add: take_bit_eq_mod mod_word_less)
  have m: "0x3F = (mask 6 :: u32)" "0xFC0 = (push_bit 6 (mask 6) :: u32)" by (simp_all add: mask_eq_exp_minus_1)
  show "SPI_GET_TX_FIFO_CNT (push_bit 6 r OR t) = t"
    using rt by (simp add: SPI_GET_TX_FIFO_CNT_def m take_bit_or take_bit_push_bit flip: take_bit_eq_mask)
  have "drop_bit 6 t = 0" using rt(2) by (metis drop_bit_take_bit diff_self_eq_0 take_bit_0)
  moreover have "drop_bit 6 (push_bit 6 x) = x" if "take_bit 6 x = x" for x :: u32
  proof (rule bit_word_eqI)
    fix n
    have "n < 6" if "bit x n" using that \<open>take_bit 6 x = x\<close> bit_take_bit_iff [of 6 x n] by simp
    then have "n < 26" if "bit x n" using that by force
    then show "bit (drop_bit 6 (push_bit 6 x)) n = bit x n" by (auto simp: bit_drop_bit_eq bit_push_bit_iff)
  qed
  ultimately show "SPI_GET_RX_FIFO_CNT (push_bit 6 r OR t) = r"
    using rt by (simp add: SPI_GET_RX_FIFO_CNT_def m drop_bit_or drop_bit_and flip: take_bit_eq_mask)
qed

lemma and_not_disjoint: "v AND m = 0 \<Longrightarrow> v AND NOT m = v" for v m :: u32
proof (rule bit_word_eqI)
  fix n assume "v AND m = 0"
  then have "\<not> bit (v AND m) n" by simp
  then show "bit (v AND NOT m) n = bit v n" by (auto simp: bit_and_iff bit_not_iff dest: bit_imp_le_length)
qed

lemma no_clear: "v AND SPI_CLEAR_FIFOS = 0 \<Longrightarrow> v AND NOT SPI_START AND NOT SPI_CLEAR_FIFOS = v AND NOT SPI_START" for v :: u32
  using and_not_disjoint [of v SPI_CLEAR_FIFOS] by (simp add: and.assoc and.left_commute and.commute [of v])

lemma no_bits:
  "v AND (SPI_START OR SPI_CLEAR_FIFOS) = 0 \<Longrightarrow> v AND SPI_START = 0"
  "v AND (SPI_START OR SPI_CLEAR_FIFOS) = 0 \<Longrightarrow> v AND SPI_CLEAR_FIFOS = 0" for v :: u32
  by (rule bit_word_eqI, metis bit_and_iff bit_or_iff bit_0_eq bot_apply bot_bool_def)+

interpretation sd: spi_line sd_io "\<lambda>d. d"
proof
  fix a :: u32 and d :: shifter
  assume "a \<noteq> HR_SPI_RXDATA_REG" then show "snd (tls_reg_read32 sd_io a d) = d" by (simp add: sd_read_def)
next
  fix d :: shifter
  show "fst (tls_reg_read32 sd_io HR_SPI_CHCFG_REG d) = sh_ch d" "fst (tls_reg_read32 sd_io HR_SPI_INT_MASK_REG d) = sh_mask d"
    "(fst (tls_reg_read32 sd_io HR_SPI_INT_STATUS_REG d) AND SPI_INT_TRANSFER_DONE \<noteq> 0) = sh_done d"
    by (simp_all add: sd_read_def spi_regs SPI_INT_TRANSFER_DONE_def)
next
  fix d :: shifter assume "length (sh_rxq d) \<le> 32" "length (sh_txq d) \<le> 8"
  then have "word_of_nat (length (sh_rxq d)) < (64 :: u32)" "word_of_nat (4 * length (sh_txq d)) < (64 :: u32)"
    using u32_unat_of_nat [of "length (sh_rxq d)"] u32_unat_of_nat [of "4 * length (sh_txq d)"] by (simp_all add: word_less_nat_alt)
  note l = status_levels [OF this]
  show "SPI_GET_RX_FIFO_CNT (fst (tls_reg_read32 sd_io HR_SPI_STATUS_REG d)) = word_of_nat (length (sh_rxq d))"
    "SPI_GET_TX_FIFO_CNT (fst (tls_reg_read32 sd_io HR_SPI_STATUS_REG d)) = word_of_nat (4 * length (sh_txq d))"
    using l by (simp_all add: sd_read_def spi_regs)
next
  fix d d' w bs rest
  assume r: "tls_reg_read32 sd_io HR_SPI_RXDATA_REG d = (w, d')" "sh_rxq d = bs @ rest" "length bs = 4 \<or> rest = []" "length bs \<le> 4"
  then have "w = word_of_bytes (sh_cfg d) bs" "d' = d\<lparr>sh_rxq := rest\<rparr>" by (auto simp: sd_read_def spi_regs)
  then show "take (length bs) (word_bytes (sh_cfg d) w) = bs \<and> d' = d\<lparr>sh_rxq := rest\<rparr>" using r by (simp add: word_bytes_of_bytes)
next
  fix v :: u32 and d :: shifter
  show "tls_reg_write32 sd_io HR_SPI_TXDATA_REG v d = d\<lparr>sh_txq := sh_txq d @ [v]\<rparr>"
    "tls_reg_write32 sd_io HR_SPI_INT_STATUS_REG v d = d\<lparr>sh_done := (sh_done d \<and> v AND SPI_INT_TRANSFER_DONE = 0)\<rparr>"
    by (simp_all add: sd_write_def spi_regs)
next
  fix v :: u32 and d :: shifter
  assume "v AND (SPI_START OR SPI_CLEAR_FIFOS) = 0"
  then have "v AND SPI_START = 0" "v AND SPI_CLEAR_FIFOS = 0" "v AND NOT (SPI_START OR SPI_CLEAR_FIFOS) = v" by (auto dest: no_bits and_not_disjoint)
  then show "tls_reg_write32 sd_io HR_SPI_CHCFG_REG v d = d\<lparr>sh_ch := v\<rparr>" by (simp add: sd_write_def)
next
  fix v :: u32 and k and d :: shifter
  assume "v AND SPI_CLEAR_FIFOS = 0" "v AND SPI_START \<noteq> 0" "valid_clocks v = 8 * k"
  then show "tls_reg_write32 sd_io HR_SPI_CHCFG_REG v d = run_clock k (d\<lparr>sh_ch := v AND NOT SPI_START\<rparr>)"
    by (simp add: sd_write_def no_clear)
qed

end
