(* ===== verification/Hostspi_Fifo.thy ===== *)
theory Hostspi_Fifo
  imports Hostspi_Device
begin

text \<open>
  The FIFOs of the SPI master over the contract of its hardware: what the driver puts into the transmit FIFO goes out
  as the next bytes of the transfer, and what it takes from the receive FIFO fills the receive buffer from the same
  position on. A transfer with \<open>p\<close> bytes behind it has \<open>sp_len t - word_of_nat p\<close> to go.
\<close>

section \<open>Transfers\<close>

definition sent :: "tls_spi_transfer \<Rightarrow> bytes" where
  "sent t = (case sp_tx t of None \<Rightarrow> replicate (unat (sp_len t)) 0xFF | Some b \<Rightarrow> take (unat (sp_len t)) b)"

definition sound :: "tls_spi_transfer \<Rightarrow> bool" where
  "sound t \<longleftrightarrow> sp_len t \<noteq> 0 \<and> (case sp_tx t of None \<Rightarrow> True | Some b \<Rightarrow> unat (sp_len t) \<le> length b)
     \<and> (case sp_rx t of None \<Rightarrow> True | Some b \<Rightarrow> unat (sp_len t) \<le> length b)"

definition filled :: "bytes \<Rightarrow> tls_spi_transfer \<Rightarrow> tls_spi_transfer" where
  "filled bs t = t\<lparr>sp_rx := map_option (bsplice 0 bs) (sp_rx t)\<rparr>"

text \<open>The bytes of a word go over the line in the order in which the driver packs them.\<close>

definition in_order :: "u8 \<Rightarrow> u32 \<Rightarrow> bool" where
  "in_order ty cfg \<longleftrightarrow> ty = SPI_BYTE_TRANSFER \<and> cfg AND SPI_BIG_ENDIAN \<noteq> 0 \<or> ty = SPI_WORD_TRANSFER \<and> cfg AND SPI_BIG_ENDIAN = 0"

lemma filled_simps [simp]: "sp_len (filled bs t) = sp_len t" "sp_tx (filled bs t) = sp_tx t"
  by (simp_all add: filled_def)

lemma sent_filled [simp]: "sent (filled bs t) = sent t"
  by (simp add: sent_def cong: option.case_cong)

lemma filled_none [simp]: "filled [] t = t"
proof -
  have "bsplice 0 [] = (\<lambda>xs :: bytes. xs)" by (simp add: bsplice_def fun_eq_iff)
  then show ?thesis by (simp add: filled_def option.map_ident)
qed

lemma length_sent [simp]: "sound t \<Longrightarrow> length (sent t) = unat (sp_len t)"
  by (auto simp: sent_def sound_def split: option.splits)

lemma sound_filled [simp]: "length bs \<le> unat (sp_len t) \<Longrightarrow> sound t \<Longrightarrow> sound (filled bs t)"
  by (auto simp: sound_def filled_def split: option.splits)

lemma filled_more:
  assumes "sound t" "p + length bs \<le> unat (sp_len t)" "p = length xs"
  shows "(filled xs t)\<lparr>sp_rx := map_option (bsplice p bs) (sp_rx (filled xs t))\<rparr> = filled (xs @ bs) t"
  using assms by (cases "sp_rx t") (auto simp: filled_def sound_def simp: bsplice_append)

lemma filled_no_buffer: "sp_rx (filled xs t) = None \<Longrightarrow> filled ys t = filled xs t"
  by (simp add: filled_def)

lemma pack_in_order: "in_order ty cfg \<Longrightarrow> pack ty bs = word_of_bytes cfg bs"
  by (auto simp: in_order_def pack_def word_of_bytes_def SPI_BYTE_TRANSFER_def SPI_WORD_TRANSFER_def Let_def)

lemma unpack_in_order: "in_order ty cfg \<Longrightarrow> unpack ty n w = take n (word_bytes cfg w)"
  by (auto simp: in_order_def unpack_def word_bytes_def SPI_BYTE_TRANSFER_def SPI_WORD_TRANSFER_def)

lemma packed_bytes: "in_order ty cfg \<Longrightarrow> length bs \<le> 4 \<Longrightarrow> take (length bs) (word_bytes cfg (pack ty bs)) = bs"
  by (simp add: pack_in_order word_bytes_of_bytes)

text \<open>Positions.\<close>

lemma spi_pos: "p \<le> unat len \<Longrightarrow> unat (len - (len - word_of_nat p)) = p" for len :: u32
  using u32_unat_of_nat [of p] u32_unat_less [of len] by simp

lemma spi_left: "p \<le> unat len \<Longrightarrow> unat (len - word_of_nat p) = unat len - p" for len :: u32
  using u32_unat_of_nat [of p] u32_unat_less [of len] by (simp add: unat_sub_if')

lemma spi_next_pos: "len - word_of_nat p - word_of_nat k = len - word_of_nat (p + k)" for len :: u32
  by simp

lemma sent_slice:
  assumes "sound t" "p + n \<le> unat (sp_len t)"
  shows "bslice p n (sent t) = (case sp_tx t of None \<Rightarrow> replicate n 0xFF | Some b \<Rightarrow> bslice p n b)"
  using assms by (auto simp: sent_def sound_def bslice_def min_def drop_take split: option.splits)

lemma bslice_add: "bslice p (n + k) xs = bslice p n xs @ bslice (p + n) k xs"
  by (simp add: bslice_def take_add add.commute [of p])

section \<open>Sending\<close>

context spi_line
begin

lemma put_tx:
  assumes "length (sh_txq (view (dev s))) < 8"
  shows "view (dev (spi_data_put io w s)) = (view (dev s))\<lparr>sh_txq := sh_txq (view (dev s)) @ [w]\<rparr>" "spi_data_put io w s = s\<lparr>dev := dev (spi_data_put io w s)\<rparr>"
  using assms by (simp_all add: spi_data_put_def reg_set_def write_tx)

lemma fill_words_sends:
  assumes "in_order ty (sh_cfg (view (dev s)))" "sound t" "p + 4 * k \<le> unat (sp_len t)" "length (sh_txq (view (dev s))) + k \<le> 8"
  shows "\<exists>d ws. fill_words io ty t k (sp_len t - word_of_nat p) s = Some (sp_len t - word_of_nat (p + 4 * k), s\<lparr>dev := d\<rparr>)
    \<and> view d = (view (dev s))\<lparr>sh_txq := sh_txq (view (dev s)) @ ws\<rparr> \<and> length ws = k
    \<and> concat (map (word_bytes (sh_cfg (view (dev s)))) ws) = bslice p (4 * k) (sent t)"
  using assms
proof (induction k arbitrary: p s)
  case 0
  show ?case by (rule exI [of _ "dev s"], rule exI [of _ "[]"]) (simp add: bslice_def)
next
  case (Suc k)
  define w where "w = pack ty (bslice p 4 (sent t))"
  define s1 where "s1 = spi_data_put io w s"
  have len: "length (bslice p 4 (sent t)) = 4" using Suc.prems by simp
  have put: "view (dev s1) = (view (dev s))\<lparr>sh_txq := sh_txq (view (dev s)) @ [w]\<rparr>" "s1 = s\<lparr>dev := dev s1\<rparr>"
    using put_tx [of s w] Suc.prems(4) unfolding s1_def by simp_all
  have wb: "word_bytes (sh_cfg (view (dev s))) w = bslice p 4 (sent t)"
    using packed_bytes [OF Suc.prems(1), of "bslice p 4 (sent t)"] len unfolding w_def by simp
  have FF: "pack ty (replicate 4 0xFF) = 0xFFFFFFFF"
    using Suc.prems(1) by (auto simp: in_order_def pack_def SPI_BYTE_TRANSFER_def SPI_WORD_TRANSFER_def eval_nat_numeral de32_def) code_simp+
  have "fill_words io ty t (Suc k) (sp_len t - word_of_nat p) s = fill_words io ty t k (sp_len t - word_of_nat (p + 4)) s1"
    using Suc.prems spi_pos [of p "sp_len t"] sent_slice [of t p 4] FF
    by (auto simp: s1_def w_def sound_def algebra_simps split: option.splits)
  moreover obtain d ws where "fill_words io ty t k (sp_len t - word_of_nat (p + 4)) s1 = Some (sp_len t - word_of_nat (p + 4 + 4 * k), s1\<lparr>dev := d\<rparr>)"
    "view d = (view (dev s1))\<lparr>sh_txq := sh_txq (view (dev s1)) @ ws\<rparr>" "length ws = k"
    "concat (map (word_bytes (sh_cfg (view (dev s1)))) ws) = bslice (p + 4) (4 * k) (sent t)"
    using Suc.IH [of s1 "p + 4"] Suc.prems put(1) by auto
  moreover have "s1\<lparr>dev := d\<rparr> = s\<lparr>dev := d\<rparr>" by (subst put(2)) simp
  ultimately show ?case
    using put(1) wb bslice_add [of p 4 "4 * k" "sent t"]
    by (intro exI [of _ d] exI [of _ "w # ws"]) (simp add: algebra_simps)
qed

lemma fill_rest_sends:
  assumes "in_order ty (sh_cfg (view (dev s)))" "sound t" "p + n \<le> unat (sp_len t)" "n < 4" "length (sh_txq (view (dev s))) < 8"
  shows "\<exists>d w. fill_rest io ty t n (sp_len t - word_of_nat p) s = Some (sp_len t - word_of_nat (p + n), s\<lparr>dev := d\<rparr>)
    \<and> view d = (view (dev s))\<lparr>sh_txq := sh_txq (view (dev s)) @ [w]\<rparr> \<and> take n (word_bytes (sh_cfg (view (dev s))) w) = bslice p n (sent t)"
proof -
  define w where "w = pack ty (bslice p n (sent t))"
  note put = put_tx [OF assms(5), of w]
  have "fill_rest io ty t n (sp_len t - word_of_nat p) s = Some (sp_len t - word_of_nat (p + n), spi_data_put io w s)"
    using assms spi_pos [of p "sp_len t"] sent_slice [of t p n]
    by (auto simp: fill_rest_def w_def sound_def algebra_simps split: option.splits)
  moreover have "take n (word_bytes (sh_cfg (view (dev s))) w) = bslice p n (sent t)"
    using packed_bytes [OF assms(1), of "bslice p n (sent t)"] assms by (simp add: w_def)
  ultimately show ?thesis using put by metis
qed

lemma tx_level_empty:
  assumes "sh_txq (view (dev s)) = []" "length (sh_rxq (view (dev s))) \<le> 32"
  shows "\<exists>d. spi_tx_level io s = (32, s\<lparr>dev := d\<rparr>) \<and> view d = view (dev s)"
  using assms read_tx_level [of "dev s"] read_pure [of HR_SPI_STATUS_REG "dev s"]
  by (auto simp: spi_tx_level_def reg_get_def split_beta spi_regs)

text \<open>At most 32 bytes are sent at once.\<close>

lemma fill_txfifo_sends:
  assumes "sp_port s = Some pt" "in_order (transtype pt) (sh_cfg (view (dev s)))" "sound t" "p < unat (sp_len t)"
    and "sh_txq (view (dev s)) = []" "length (sh_rxq (view (dev s))) \<le> 32" "n = min 32 (unat (sp_len t) - p)"
  shows "\<exists>d ws. spi_fill_txfifo io (Some t) (sp_len t - word_of_nat p) s = Some (word_of_nat n, s\<lparr>dev := d\<rparr>)
    \<and> view d = (view (dev s))\<lparr>sh_txq := ws\<rparr> \<and> n \<le> 4 * length ws \<and> length ws \<le> (n + 3) div 4
    \<and> take n (concat (map (word_bytes (sh_cfg (view (dev s)))) ws)) = bslice p n (sent t)"
proof -
  obtain d0 where lev: "spi_tx_level io s = (32, s\<lparr>dev := d0\<rparr>)" "view d0 = view (dev s)" using tx_level_empty assms by blast
  let ?s0 = "s\<lparr>dev := d0\<rparr>" and ?cfg = "sh_cfg (view (dev s))"
  have rem: "sp_len t - word_of_nat p \<noteq> 0" using u32_countdown assms(4) by blast
  have n: "unat (if ucast (32 :: u8) > sp_len t - word_of_nat p then sp_len t - word_of_nat p else ucast (32 :: u8)) = n"
    using spi_left [of p "sp_len t"] assms(4,7) by (auto simp: word_less_nat_alt min_def)
  have nb: "p + n \<le> unat (sp_len t)" "4 * (n div 4) \<le> n" "p + 4 * (n div 4) \<le> unat (sp_len t)" "n div 4 \<le> 8" "n mod 4 < 4" "4 * (n div 4) + n mod 4 = n"
    "n mod 4 \<noteq> 0 \<Longrightarrow> n div 4 < 8"
    using assms(4,7) by (auto simp: min_def split: if_splits)
  obtain d1 ws where w: "fill_words io (transtype pt) t (n div 4) (sp_len t - word_of_nat p) ?s0 = Some (sp_len t - word_of_nat (p + 4 * (n div 4)), ?s0\<lparr>dev := d1\<rparr>)"
    "view d1 = (view (dev s))\<lparr>sh_txq := ws\<rparr>" "length ws = n div 4" "concat (map (word_bytes ?cfg) ws) = bslice p (4 * (n div 4)) (sent t)"
    using fill_words_sends [of "transtype pt" ?s0 t p "n div 4"] lev assms(2,3,5) nb by auto
  have len: "length (concat (map (word_bytes ?cfg) xs)) = 4 * length xs" for xs by (induction xs) auto
  show ?thesis
  proof (cases "n mod 4 = 0")
    case True
    then have four: "4 * (n div 4) = n" by presburger
    then show ?thesis using lev w rem n assms(1) True len [of ws]
      by (intro exI [of _ d1] exI [of _ ws]) (simp add: spi_fill_txfifo_def div_le_mono)
  next
    case False
    obtain d2 x where r: "fill_rest io (transtype pt) t (n mod 4) (sp_len t - word_of_nat (p + 4 * (n div 4))) (?s0\<lparr>dev := d1\<rparr>)
        = Some (sp_len t - word_of_nat (p + 4 * (n div 4) + n mod 4), ?s0\<lparr>dev := d2\<rparr>)"
      "view d2 = (view (dev s))\<lparr>sh_txq := ws @ [x]\<rparr>" "take (n mod 4) (word_bytes ?cfg x) = bslice (p + 4 * (n div 4)) (n mod 4) (sent t)"
      using fill_rest_sends [of "transtype pt" "?s0\<lparr>dev := d1\<rparr>" t "p + 4 * (n div 4)" "n mod 4"] w assms(2,3) nb False by (auto simp: add.assoc)
    have "take n (concat (map (word_bytes ?cfg) (ws @ [x]))) = bslice p (4 * (n div 4) + n mod 4) (sent t)"
      unfolding bslice_add using w(3,4) r(3) len [of ws] minus_mult_div_eq_mod [of n 4] by simp
    moreover have "n \<le> 4 + 4 * (n div 4)" "Suc (n div 4) \<le> (n + 3) div 4" using False nb(6) by presburger+
    ultimately show ?thesis using lev w r rem n assms(1) False
      by (intro exI [of _ d2] exI [of _ "ws @ [x]"]) (simp add: spi_fill_txfifo_def)
  qed
qed

end

section \<open>Receiving\<close>

context spi_line
begin

lemma get_rx:
  assumes "sh_rxq (view (dev s)) = bs @ rest" "length bs = 4 \<or> rest = []" "length bs \<le> 4"
  shows "\<exists>w d. spi_data_get io s = (w, s\<lparr>dev := d\<rparr>) \<and> take (length bs) (word_bytes (sh_cfg (view (dev s))) w) = bs \<and> view d = (view (dev s))\<lparr>sh_rxq := rest\<rparr>"
proof -
  obtain w d where r: "tls_reg_read32 io HR_SPI_RXDATA_REG (dev s) = (w, d)" by force
  then show ?thesis using read_rx [OF r assms] by (intro exI [of _ w] exI [of _ d]) (simp add: spi_data_get_def reg_get_def)
qed

lemma take_words_fills:
  assumes "in_order ty (sh_cfg (view (dev s)))" "sound t" "p + 4 * k \<le> unat (sp_len t)" "sh_rxq (view (dev s)) = bs @ rest" "length bs = 4 * k" "p = length xs"
  shows "\<exists>d. take_words io ty k (filled xs t) (sp_len t - word_of_nat p) s
      = Some (sp_len t - word_of_nat (p + 4 * k), filled (xs @ bs) t, s\<lparr>dev := d\<rparr>) \<and> view d = (view (dev s))\<lparr>sh_rxq := rest\<rparr>"
  using assms
proof (induction k arbitrary: p s xs bs)
  case 0
  show ?case using 0 by (intro exI [of _ "dev s"]) simp
next
  case (Suc k)
  define b4 where "b4 = take 4 bs"
  have split: "bs = b4 @ drop 4 bs" "length b4 = 4" using Suc.prems(5) by (simp_all add: b4_def)
  obtain w d where r: "spi_data_get io s = (w, s\<lparr>dev := d\<rparr>)" "take 4 (word_bytes (sh_cfg (view (dev s))) w) = b4"
    "view d = (view (dev s))\<lparr>sh_rxq := drop 4 bs @ rest\<rparr>"
    using get_rx [of s b4 "drop 4 bs @ rest"] Suc.prems(4) split by auto
  have up: "unpack ty 4 w = b4" using r(2) Suc.prems(1) split(2) by (simp add: unpack_in_order)
  have ty: "ty = SPI_BYTE_TRANSFER \<or> ty = SPI_WORD_TRANSFER" using Suc.prems(1) by (auto simp: in_order_def)
  have t: "(filled xs t)\<lparr>sp_rx := map_option (bsplice p b4) (sp_rx (filled xs t))\<rparr> = filled (xs @ b4) t"
    using filled_more [of t p b4 xs] Suc.prems split by simp
  have len: "p + 4 \<le> length b" if "sp_rx (filled xs t) = Some b" for b
    using that Suc.prems(2,3,6) by (auto simp: filled_def sound_def)
  have pos: "unat (sp_len t - (sp_len t - word_of_nat p)) = p" using spi_pos [of p "sp_len t"] Suc.prems(3) by simp
  have "take_words io ty (Suc k) (filled xs t) (sp_len t - word_of_nat p) s
      = take_words io ty k (filled (xs @ b4) t) (sp_len t - word_of_nat (p + 4)) (s\<lparr>dev := d\<rparr>)"
    using r(1) up ty t len pos filled_no_buffer [of xs t "xs @ b4"] by (cases "sp_rx (filled xs t)") (auto simp: algebra_simps)
  moreover have "\<exists>d'. take_words io ty k (filled (xs @ b4) t) (sp_len t - word_of_nat (p + 4)) (s\<lparr>dev := d\<rparr>)
      = Some (sp_len t - word_of_nat (p + 4 + 4 * k), filled ((xs @ b4) @ drop 4 bs) t, (s\<lparr>dev := d\<rparr>)\<lparr>dev := d'\<rparr>)
      \<and> view d' = (view (dev (s\<lparr>dev := d\<rparr>)))\<lparr>sh_rxq := rest\<rparr>"
    using Suc.prems r(3) split(2) by (intro Suc.IH) auto
  ultimately show ?case using split(1) r(3) by (auto simp: algebra_simps)
qed

lemma take_rest_fills:
  assumes "in_order ty (sh_cfg (view (dev s)))" "sound t" "p + n \<le> unat (sp_len t)" "sh_rxq (view (dev s)) = bs" "length bs = n" "n < 4" "p = length xs"
  shows "\<exists>d. take_rest io ty n (filled xs t) (sp_len t - word_of_nat p) s
      = Some (sp_len t - word_of_nat (p + n), filled (xs @ bs) t, s\<lparr>dev := d\<rparr>) \<and> view d = (view (dev s))\<lparr>sh_rxq := []\<rparr>"
proof -
  obtain w d where r: "spi_data_get io s = (w, s\<lparr>dev := d\<rparr>)" "take n (word_bytes (sh_cfg (view (dev s))) w) = bs"
    "view d = (view (dev s))\<lparr>sh_rxq := []\<rparr>"
    using get_rx [of s bs "[]"] assms(4,5,6) by auto
  have up: "unpack ty n w = bs" using r(2) assms(1) by (simp add: unpack_in_order)
  have t: "(filled xs t)\<lparr>sp_rx := map_option (bsplice p bs) (sp_rx (filled xs t))\<rparr> = filled (xs @ bs) t"
    using filled_more [of t p bs xs] assms by simp
  have len: "p + n \<le> length b" if "sp_rx (filled xs t) = Some b" for b
    using that assms(2,3,7) by (auto simp: filled_def sound_def)
  have pos: "unat (sp_len t - (sp_len t - word_of_nat p)) = p" using spi_pos [of p "sp_len t"] assms(3) by simp
  show ?thesis using r up t len pos filled_no_buffer [of xs t "xs @ bs"] by (cases "sp_rx (filled xs t)") (auto simp: take_rest_def algebra_simps)
qed

lemma rx_level:
  assumes "length (sh_rxq (view (dev s))) \<le> 32" "length (sh_txq (view (dev s))) \<le> 8"
  shows "\<exists>l d. spi_rx_level io s = (l, s\<lparr>dev := d\<rparr>) \<and> view d = view (dev s) \<and> unat l = length (sh_rxq (view (dev s)))"
proof -
  have "unat (ucast (word_of_nat (length (sh_rxq (view (dev s)))) :: u32) :: u8) = length (sh_rxq (view (dev s)))"
    using assms(1) by (simp add: unsigned_ucast_eq u32_unat_of_nat take_bit_nat_eq_self)
  then show ?thesis using read_rx_level [OF assms] read_pure [of HR_SPI_STATUS_REG "dev s"]
    by (auto simp: spi_rx_level_def reg_get_def split_beta spi_regs)
qed

lemma get_rxfifo_fills:
  assumes "sp_port s = Some pt" "in_order (transtype pt) (sh_cfg (view (dev s)))" "sound t" "p + n \<le> unat (sp_len t)"
    and "length (sh_txq (view (dev s))) \<le> 8" "n = length (sh_rxq (view (dev s)))" "n \<le> 32" "0 < n" "p = length xs"
  shows "\<exists>d. spi_get_rxfifo io (filled xs t) (sp_len t - word_of_nat p) s = Some (word_of_nat n, filled (xs @ sh_rxq (view (dev s))) t, s\<lparr>dev := d\<rparr>)
    \<and> view d = (view (dev s))\<lparr>sh_rxq := []\<rparr>"
proof -
  let ?q = "sh_rxq (view (dev s))" and ?k = "4 * (n div 4)"
  obtain l d0 where lev: "spi_rx_level io s = (l, s\<lparr>dev := d0\<rparr>)" "view d0 = view (dev s)" "unat l = n" using rx_level assms by blast
  have rem: "sp_len t - word_of_nat p \<noteq> 0" using u32_countdown [of p "sp_len t"] assms(4,8) by linarith
  have nb: "p + ?k \<le> unat (sp_len t)" "?k \<le> n" "?k + n mod 4 = n" "n mod 4 < 4" using assms(4) by auto
  obtain d1 where w: "take_words io (transtype pt) (n div 4) (filled xs t) (sp_len t - word_of_nat p) (s\<lparr>dev := d0\<rparr>)
      = Some (sp_len t - word_of_nat (p + ?k), filled (xs @ take ?k ?q) t, s\<lparr>dev := d1\<rparr>)" "view d1 = (view (dev s))\<lparr>sh_rxq := drop ?k ?q\<rparr>"
    using take_words_fills [of "transtype pt" "s\<lparr>dev := d0\<rparr>" t p "n div 4" "take ?k ?q" "drop ?k ?q" xs] lev(2) assms(2,3,6,9) nb by auto
  show ?thesis
  proof (cases "n mod 4 = 0")
    case True
    then have "?k = n" "drop n ?q = []" "take n ?q = ?q" using nb(3) assms(6) by simp_all
    then show ?thesis using lev(1,3) w rem True assms(1) by (intro exI [of _ d1]) (simp add: spi_get_rxfifo_def)
  next
    case False
    obtain d2 where r: "take_rest io (transtype pt) (n mod 4) (filled (xs @ take ?k ?q) t) (sp_len t - word_of_nat (p + ?k)) (s\<lparr>dev := d1\<rparr>)
      = Some (sp_len t - word_of_nat (p + ?k + n mod 4), filled ((xs @ take ?k ?q) @ drop ?k ?q) t, s\<lparr>dev := d2\<rparr>)" "view d2 = (view (dev s))\<lparr>sh_rxq := []\<rparr>"
    proof -
      have "p + ?k + n mod 4 \<le> unat (sp_len t)" "length (drop ?k ?q) = n mod 4" "p + ?k = length (xs @ take ?k ?q)"
        using assms(4,6,9) nb minus_mult_div_eq_mod [of n 4] by auto
      then show ?thesis
        using take_rest_fills [of "transtype pt" "s\<lparr>dev := d1\<rparr>" t "p + ?k" "n mod 4" "drop ?k ?q" "xs @ take ?k ?q"] w(2) assms(2,3) nb(4) that
        by auto
    qed
    then show ?thesis using lev(1,3) w(1) rem False assms(1) nb(3) by (intro exI [of _ d2]) (simp add: spi_get_rxfifo_def add.assoc)
  qed
qed

end

end
