(* ===== verification/Hostspi_Correct.thy ===== *)
theory Hostspi_Correct
  imports Hostspi_Fifo
begin

text \<open>
  The message engine of the SPI master over the contract of its hardware: a run of the scheduler and of the interrupt
  handler carries a message through its transfers, at most 32 bytes for each interrupt, while the invariant \<open>flight\<close>
  holds, and then completes it.
\<close>

section \<open>The channel register\<close>

definition ch_ok :: "u32 \<Rightarrow> bool" where
  "ch_ok c \<longleftrightarrow> \<not> bit c 0 \<and> \<not> bit c 22 \<and> bit c 19 \<and> bit c 20"

definition ch_length :: "u32 \<Rightarrow> u32 \<Rightarrow> u32" where
  "ch_length n v = (v AND NOT (push_bit 23 0xFF OR push_bit 3 0xFFFF)) OR (SPI_VALID_CLKS_NUM (ucast (ucast (n * 8) :: u16)) OR SPI_RX_INVALID_BITS (ucast (0 :: u8)))"

lemma ch_ok_steps [simp]:
  "ch_ok c \<Longrightarrow> ch_ok (ch_length n c)"
  "ch_ok c \<Longrightarrow> ch_ok ((c AND NOT 4) OR SPI_CS_LOW)"
  "ch_ok c \<Longrightarrow> ch_ok ((c AND NOT 4) OR SPI_CS_HIGH)"
  by (simp_all add: ch_ok_def ch_length_def spi_bits bit_simps)

lemma ch_ok_masks:
  assumes "ch_ok c"
  shows "c AND (SPI_START OR SPI_CLEAR_FIFOS) = 0" "(c OR SPI_START) AND SPI_CLEAR_FIFOS = 0" "(c OR SPI_START) AND SPI_START \<noteq> 0"
    "(c OR SPI_START) AND (SPI_RX_CHANNEL_ON OR SPI_TX_CHANNEL_ON) = SPI_RX_CHANNEL_ON OR SPI_TX_CHANNEL_ON" "(c OR SPI_START) AND NOT SPI_START = c"
proof -
  show "c AND (SPI_START OR SPI_CLEAR_FIFOS) = 0" "(c OR SPI_START) AND SPI_CLEAR_FIFOS = 0"
    "(c OR SPI_START) AND (SPI_RX_CHANNEL_ON OR SPI_TX_CHANNEL_ON) = SPI_RX_CHANNEL_ON OR SPI_TX_CHANNEL_ON" "(c OR SPI_START) AND NOT SPI_START = c"
    using assms unfolding ch_ok_def by - (rule u32_eqI, simp add: upt_32 spi_bits bit_simps)+
  have "bit ((c OR SPI_START) AND SPI_START) 0" by (simp add: spi_bits bit_simps)
  then show "(c OR SPI_START) AND SPI_START \<noteq> 0" by (metis bit_0_eq bot_apply bot_bool_def)
qed

lemma ch_clocks:
  assumes "k \<le> 32"
  shows "valid_clocks (((ch_length (word_of_nat k) c AND NOT 4) OR SPI_CS_LOW) OR SPI_START) = 8 * k"
proof -
  let ?x = "ucast (word_of_nat k * 8 :: u32) :: u16"
  have "drop_bit 3 (((ch_length (word_of_nat k) c AND NOT 4) OR SPI_CS_LOW) OR SPI_START) AND 0xFFFF = ucast ?x"
    by (rule u32_eqI) (simp add: upt_32 ch_length_def spi_bits bit_simps)
  moreover have "unat ?x = 8 * k"
    using assms u32_unat_of_nat [of "8 * k"] by (simp add: unsigned_ucast_eq take_bit_nat_eq_self mult.commute)
  moreover have "unat (ucast y :: u32) = unat y" for y :: u16
  proof -
    have "unat y < 65536" using unsigned_less [of y] by simp
    then show ?thesis by (simp add: unsigned_ucast_eq take_bit_nat_eq_self)
  qed
  ultimately show ?thesis unfolding valid_clocks_def by metis
qed

section \<open>Starting the clock\<close>

context spi_line
begin

lemma reg_upd_ch:
  assumes "sh_ch (view (dev s)) = c"
  shows "reg_upd io HR_SPI_CHCFG_REG f s = s\<lparr>dev := dev (reg_upd io HR_SPI_CHCFG_REG f s)\<rparr>"
    and "ch_ok (f c) \<Longrightarrow> view (dev (reg_upd io HR_SPI_CHCFG_REG f s)) = (view (dev s))\<lparr>sh_ch := f c\<rparr>"
    and "ch_ok c' \<Longrightarrow> f c = c' OR SPI_START \<Longrightarrow> valid_clocks (f c) = 8 * k \<Longrightarrow> k \<le> 4 * length (sh_txq (view (dev s))) \<Longrightarrow> k \<le> 32 \<Longrightarrow>
      sh_rxq (view (dev s)) = [] \<Longrightarrow> view (dev (reg_upd io HR_SPI_CHCFG_REG f s)) = run_clock k ((view (dev s))\<lparr>sh_ch := c'\<rparr>)"
proof -
  obtain v d where r: "tls_reg_read32 io HR_SPI_CHCFG_REG (dev s) = (v, d)" by force
  have vd: "v = c" "view d = view (dev s)" using read_ch [of "dev s"] read_pure [of HR_SPI_CHCFG_REG "dev s"] r assms by (simp_all add: spi_regs)
  have u: "reg_upd io HR_SPI_CHCFG_REG f s = s\<lparr>dev := tls_reg_write32 io HR_SPI_CHCFG_REG (f c) d\<rparr>"
    using r vd by (simp add: reg_upd_def reg_get_def reg_set_def)
  then show "reg_upd io HR_SPI_CHCFG_REG f s = s\<lparr>dev := dev (reg_upd io HR_SPI_CHCFG_REG f s)\<rparr>" by simp
  show "view (dev (reg_upd io HR_SPI_CHCFG_REG f s)) = (view (dev s))\<lparr>sh_ch := f c\<rparr>" if "ch_ok (f c)"
    using u write_ch [OF ch_ok_masks(1) [OF that], of d] vd by simp
  show "view (dev (reg_upd io HR_SPI_CHCFG_REG f s)) = run_clock k ((view (dev s))\<lparr>sh_ch := c'\<rparr>)"
    if "ch_ok c'" "f c = c' OR SPI_START" "valid_clocks (f c) = 8 * k" "k \<le> 4 * length (sh_txq (view (dev s)))" "k \<le> 32" "sh_rxq (view (dev s)) = []"
    using u write_start [of "f c" k d] ch_ok_masks [OF that(1)] vd that by simp
qed

lemma start_transfer_clocks:
  assumes "sp_port s = Some pt" "reconfig pt = 0" "ch_ok (sh_ch (view (dev s)))" "sp_io env = io"
    and "n \<le> 32" "n \<le> 4 * length (sh_txq (view (dev s)))" "sh_rxq (view (dev s)) = []"
  shows "\<exists>d c. spi_start_transfer env (word_of_nat n) s = Some (s\<lparr>dev := d\<rparr>) \<and> ch_ok c \<and> view d = run_clock n ((view (dev s))\<lparr>sh_ch := c\<rparr>)"
proof -
  let ?c = "sh_ch (view (dev s))" and ?n = "word_of_nat n :: u32"
  define c2 where "c2 = ((ch_length ?n ?c AND NOT 4) OR SPI_CS_LOW)"
  have c2: "ch_ok c2" unfolding c2_def by (intro ch_ok_steps assms(3))
  define s1 where "s1 = spi_set_sclk_length io (ucast (?n * 8)) 0 s"
  define s2 where "s2 = spi_set_chipselect_mode io TLS_SPI_CS_LOW s1"
  have s1': "s1 = reg_upd io HR_SPI_CHCFG_REG (ch_length ?n) s"
    unfolding s1_def spi_set_sclk_length_def ch_length_def ..
  have s2': "s2 = reg_upd io HR_SPI_CHCFG_REG (\<lambda>v. (v AND NOT 4) OR SPI_CS_LOW) s1"
    unfolding s2_def spi_set_chipselect_mode_def by (simp add: TLS_SPI_CS_LOW_def)
  have v1: "view (dev s1) = (view (dev s))\<lparr>sh_ch := ch_length ?n ?c\<rparr>" "s1 = s\<lparr>dev := dev s1\<rparr>"
    unfolding s1' using reg_upd_ch(1,2) [OF refl, of "ch_length ?n" s] assms(3) by simp_all
  have v2: "view (dev s2) = (view (dev s))\<lparr>sh_ch := c2\<rparr>" "s2 = s1\<lparr>dev := dev s2\<rparr>"
    unfolding s2' using reg_upd_ch(1,2) [of s1 "ch_length ?n ?c" "\<lambda>v. (v AND NOT 4) OR SPI_CS_LOW"] v1(1) c2 by (simp_all add: c2_def)
  have v3: "view (dev (spi_sclk_start io s2)) = run_clock n ((view (dev s))\<lparr>sh_ch := c2\<rparr>)" "spi_sclk_start io s2 = s2\<lparr>dev := dev (spi_sclk_start io s2)\<rparr>"
    unfolding spi_sclk_start_def using reg_upd_ch(1) [of s2 c2 "\<lambda>v. v OR SPI_START"] reg_upd_ch(3) [of s2 c2 c2 "\<lambda>v. v OR SPI_START" n] v2(1) c2 ch_clocks [OF assms(5), of ?c] assms(5,6,7)
    by (simp_all add: c2_def)
  have "spi_sclk_start io s2 = s\<lparr>dev := dev (spi_sclk_start io s2)\<rparr>" by (subst v3(2), subst v2(2), subst v1(2)) simp
  moreover have "spi_start_transfer env ?n s = Some (spi_sclk_start io s2)"
    using assms(1,2,4) by (simp add: spi_start_transfer_def s2_def s1_def Let_def)
  ultimately show ?thesis using v3(1) c2 by metis
qed

lemma send_part:
  assumes "sp_port s = Some pt" "reconfig pt = 0" "in_order (transtype pt) (sh_cfg (view (dev s)))" "ch_ok (sh_ch (view (dev s)))" "sp_io env = io"
    and "sound t" "p < unat (sp_len t)" "sh_txq (view (dev s)) = []" "sh_rxq (view (dev s)) = []"
    and "n = min 32 (unat (sp_len t) - p)" "bs = bslice p n (sent t)"
  shows "\<exists>s1 d c. spi_fill_txfifo io (Some t) (sp_len t - word_of_nat p) s = Some (word_of_nat n, s1) \<and> (word_of_nat n :: u32) \<noteq> 0
    \<and> spi_start_transfer env (word_of_nat n) s1 = Some (s\<lparr>dev := d\<rparr>) \<and> ch_ok c
    \<and> view d = (view (dev s))\<lparr>sh_ch := c, sh_txq := [], sh_rxq := replies (sh_slave (view (dev s))) (sh_out (view (dev s))) bs,
         sh_out := sh_out (view (dev s)) @ bs, sh_done := True\<rparr>"
proof -
  obtain d1 ws where f: "spi_fill_txfifo io (Some t) (sp_len t - word_of_nat p) s = Some (word_of_nat n, s\<lparr>dev := d1\<rparr>)"
    "view d1 = (view (dev s))\<lparr>sh_txq := ws\<rparr>" "n \<le> 4 * length ws" "length ws \<le> (n + 3) div 4"
    "take n (concat (map (word_bytes (sh_cfg (view (dev s)))) ws)) = bs"
    using fill_txfifo_sends [of s pt t p n] assms by auto
  have n: "n \<le> 32" "0 < n" using assms(7,10) by auto
  obtain d c where st: "spi_start_transfer env (word_of_nat n) (s\<lparr>dev := d1\<rparr>) = Some ((s\<lparr>dev := d1\<rparr>)\<lparr>dev := d\<rparr>)" "ch_ok c"
    "view d = run_clock n ((view d1)\<lparr>sh_ch := c\<rparr>)"
    using start_transfer_clocks [of "s\<lparr>dev := d1\<rparr>" pt env n] assms(1,2,4,5,9) f(2,3) n by auto
  have "view d = (view (dev s))\<lparr>sh_ch := c, sh_txq := [], sh_rxq := replies (sh_slave (view (dev s))) (sh_out (view (dev s))) bs,
         sh_out := sh_out (view (dev s)) @ bs, sh_done := True\<rparr>"
    using st(3) f(2,4,5) assms(9) by (simp add: run_clock_def)
  moreover have "(word_of_nat n :: u32) \<noteq> 0"
  proof
    assume "(word_of_nat n :: u32) = 0"
    then have "unat (word_of_nat n :: u32) = 0" by simp
    then show False using u32_unat_of_nat [of n] n by simp
  qed
  ultimately show ?thesis using f(1) st(1,2) by (intro exI [of _ "s\<lparr>dev := d1\<rparr>"] exI [of _ d] exI [of _ c]) simp
qed

end

section \<open>The invariant of a message in flight\<close>

definition settled :: "u8 \<Rightarrow> (bytes \<Rightarrow> u8 \<Rightarrow> u8) \<Rightarrow> bytes \<Rightarrow> bytes \<Rightarrow> shifter \<Rightarrow> bool" where
  "settled ty f h q x \<longleftrightarrow> ch_ok (sh_ch x) \<and> in_order ty (sh_cfg x) \<and> sh_txq x = [] \<and> sh_rxq x = q \<and> sh_out x = h \<and> sh_slave x = f
     \<and> sh_mask x AND (SPI_INT_TX_FIFO_RDY OR SPI_INT_RX_FIFO_RDY OR SPI_INT_TRANSFER_DONE) = SPI_INT_TX_FIFO_RDY OR SPI_INT_RX_FIFO_RDY"

text \<open>The port between two operations; \<open>mq\<close> are the messages for the scheduler.\<close>

definition port_state :: "u8 \<Rightarrow> nat list \<Rightarrow> nat list \<Rightarrow> nat option \<Rightarrow> tls_spi_port \<Rightarrow> bool" where
  "port_state ty mq wq cur pt \<longleftrightarrow> reconfig pt = 0 \<and> transtype pt = ty \<and> sp_lock pt = 1 \<and> msg_queue pt = mq \<and> wait_queue pt = wq
     \<and> current_message pt = cur \<and> current_transfer pt = cur"

definition burst :: "tls_spi_transfer \<Rightarrow> nat \<Rightarrow> nat" where
  "burst t p = min 32 (unat (sp_len t) - p)"

text \<open>A message with \<open>p\<close> bytes of its transfer \<open>t\<close> done, the next at most 32 bytes on the line, \<open>ts\<close> still to come.\<close>

definition flight where
  "flight ty f view mq m dn t p ts h s \<longleftrightarrow>
     (\<exists>pt. sp_port s = Some pt \<and> port_state ty mq [m] (Some m) pt \<and> current_remaining_bytes pt = sp_len t - word_of_nat p)
     \<and> m < length (sp_msgs s)
     \<and> sp_msgs s ! m = \<lparr>sp_transfers = filled (take p (replies f h (sent t))) t # ts, sp_done = dn, sp_status = SPI_MESSAGE_STATUS_INPROGRESS, sp_signal = 0\<rparr>
     \<and> p < unat (sp_len t) \<and> sound t \<and> list_all sound ts
     \<and> settled ty f (h @ take (p + burst t p) (sent t)) (bslice p (burst t p) (replies f h (sent t))) (view (dev s))"

definition landed where
  "landed ty f view m dn h s \<longleftrightarrow>
     (\<exists>pt. sp_port s = Some pt \<and> port_state ty [] [] None pt) \<and> m < length (sp_msgs s)
     \<and> sp_msgs s ! m = \<lparr>sp_transfers = [], sp_done = dn, sp_status = SPI_MESSAGE_STATUS_DONE, sp_signal = 1\<rparr> \<and> settled ty f h [] (view (dev s))"

lemma burst_bounds: "p < unat (sp_len t) \<Longrightarrow> 0 < burst t p \<and> burst t p \<le> 32 \<and> p + burst t p \<le> unat (sp_len t)"
  by (auto simp: burst_def)

lemma take_bslice: "take p xs @ bslice p n xs = take (p + n) xs"
  by (simp add: bslice_def take_add)

section \<open>One step of a message\<close>

text \<open>The end of \<open>spi_continue_transfer\<close>.\<close>

definition continue_tail :: "'d spi_env \<Rightarrow> nat \<Rightarrow> 'd spis \<Rightarrow> 'd spis option" where
  "continue_tail env m s = do {
     p \<leftarrow> sp_port s;
     (n, s) \<leftarrow> spi_fill_txfifo (sp_io env) (first_transfer (current_transfer p) s) (current_remaining_bytes p) s;
     s \<leftarrow> (if n \<noteq> 0 then spi_start_transfer env n s else Some s);
     Some (if sp_status (sp_msgs s ! m) = SPI_MESSAGE_STATUS_DONE then on_msg m (\<lambda>y. y\<lparr>sp_signal := sp_signal y + 1\<rparr>) s else s) }"

lemma left_zero: "p + n \<le> unat len \<Longrightarrow> (len - word_of_nat p - word_of_nat n = 0) = (p + n = unat len)" for len :: u32
  using spi_left [of "p + n" len] unfolding spi_next_pos by (metis diff_is_0_eq' diff_diff_cancel diff_zero le_refl unsigned_0 word_unat_eq_iff le_antisym)

context spi_line
begin

lemma continue_gets:
  assumes "flight ty f view mq m dn t p ts h s" "sp_io env = io" "sp_port s = Some pt"
  shows "\<exists>d. view d = (view (dev s))\<lparr>sh_rxq := []\<rparr> \<and> spi_continue_transfer env s =
    (let s1 = s\<lparr>dev := d, sp_msgs := (sp_msgs s)[m := (sp_msgs s ! m)\<lparr>sp_transfers := filled (take (p + burst t p) (replies f h (sent t))) t # ts\<rparr>],
                sp_port := Some (pt\<lparr>current_remaining_bytes := sp_len t - word_of_nat (p + burst t p)\<rparr>)\<rparr>
     in do { s \<leftarrow> (if p + burst t p = unat (sp_len t) then finish_transfer env m m s1 else Some s1); continue_tail env m s })"
proof -
  let ?n = "burst t p" and ?R = "replies f h (sent t)"
  have pt: "port_state ty mq [m] (Some m) pt" "current_remaining_bytes pt = sp_len t - word_of_nat p"
    and msg: "m < length (sp_msgs s)" "sp_transfers (sp_msgs s ! m) = filled (take p ?R) t # ts"
    and t: "p < unat (sp_len t)" "sound t" and v: "settled ty f (h @ take (p + ?n) (sent t)) (bslice p ?n ?R) (view (dev s))"
    using assms(1,3) by (auto simp: flight_def)
  note nb = burst_bounds [OF t(1)]
  have q: "length (bslice p ?n ?R) = ?n" using nb t by auto
  then have "bslice p ?n ?R \<noteq> []" using nb by force
  obtain d where g: "spi_get_rxfifo io (filled (take p ?R) t) (sp_len t - word_of_nat p) s
      = Some (word_of_nat ?n, filled (take p ?R @ bslice p ?n ?R) t, s\<lparr>dev := d\<rparr>)" "view d = (view (dev s))\<lparr>sh_rxq := []\<rparr>"
    using get_rxfifo_fills [of s pt t p ?n "take p ?R"] assms(3) pt(1) v q t nb \<open>bslice p ?n ?R \<noteq> []\<close> by (auto simp: settled_def port_state_def)
  have "first_transfer (Some m) s = Some (filled (take p ?R) t)" using msg by (simp add: first_transfer_def)
  then show ?thesis using g assms(2,3) pt msg left_zero [of p ?n "sp_len t"] nb
    by (intro exI [of _ d]; cases "p + burst t p = unat (sp_len t)";
      simp add: spi_continue_transfer_def port_state_def Let_def on_msg_def on_spi_def take_bslice continue_tail_def diff_diff_eq)
qed

lemma tail_sends:
  assumes "sp_port s = Some pt" "port_state ty mq [m] (Some m) pt" "current_remaining_bytes pt = sp_len u - word_of_nat p" "m < length (sp_msgs s)"
    and "sp_msgs s ! m = \<lparr>sp_transfers = filled (take p (replies f h (sent u))) u # ts, sp_done = dn, sp_status = SPI_MESSAGE_STATUS_INPROGRESS, sp_signal = 0\<rparr>"
    and "p < unat (sp_len u)" "sound u" "list_all sound ts" "settled ty f (h @ take p (sent u)) [] (view (dev s))" "sp_io env = io"
  shows "\<exists>s'. continue_tail env m s = Some s' \<and> flight ty f view mq m dn u p ts h s' \<and> sh_done (view (dev s'))"
proof -
  let ?t = "filled (take p (replies f h (sent u))) u" and ?n = "burst u p" and ?bs = "bslice p (burst u p) (sent u)"
  have t: "sound ?t" "p < unat (sp_len ?t)" "?n = min 32 (unat (sp_len ?t) - p)" "?bs = bslice p ?n (sent ?t)"
    using assms(6,7) by (simp_all add: burst_def min_def)
  obtain s1 d c where sp: "spi_fill_txfifo io (Some ?t) (sp_len u - word_of_nat p) s = Some (word_of_nat ?n, s1)" "(word_of_nat ?n :: u32) \<noteq> 0"
    "spi_start_transfer env (word_of_nat ?n) s1 = Some (s\<lparr>dev := d\<rparr>)" "ch_ok c"
    "view d = (view (dev s))\<lparr>sh_ch := c, sh_txq := [], sh_rxq := replies f (h @ take p (sent u)) ?bs, sh_out := (h @ take p (sent u)) @ ?bs, sh_done := True\<rparr>"
    using send_part [of s pt env ?t p ?n ?bs] assms(1,2,9,10) t by (auto simp: settled_def port_state_def)
  have tl: "continue_tail env m s = Some (s\<lparr>dev := d\<rparr>)"
    using sp(1,2,3) assms(1,2,3,5,10) by (simp add: continue_tail_def port_state_def first_transfer_def SPI_MESSAGE_STATUS_INPROGRESS_def SPI_MESSAGE_STATUS_DONE_def)
  have "settled ty f (h @ take (p + ?n) (sent u)) (bslice p ?n (replies f h (sent u))) (view d)"
    using sp(4,5) assms(9) replies_slice [of f h p "sent u" ?n] by (simp add: settled_def take_bslice)
  then have "flight ty f view mq m dn u p ts h (s\<lparr>dev := d\<rparr>)" using assms(1-8) by (simp add: flight_def)
  then show ?thesis using tl sp(5) by simp
qed

text \<open>The first two ways on: more of the same transfer, and the next transfer of the message.\<close>

lemma continue_same:
  assumes "flight ty f view mq m dn t p ts h s" "sp_io env = io" "p + burst t p < unat (sp_len t)"
  shows "\<exists>s'. spi_continue_transfer env s = Some s' \<and> flight ty f view mq m dn t (p + burst t p) ts h s' \<and> sh_done (view (dev s'))"
proof -
  obtain pt where pt: "sp_port s = Some pt" using assms(1) by (auto simp: flight_def)
  obtain d where d: "view d = (view (dev s))\<lparr>sh_rxq := []\<rparr>"
    "spi_continue_transfer env s = continue_tail env m (s\<lparr>dev := d, sp_msgs := (sp_msgs s)[m := (sp_msgs s ! m)\<lparr>sp_transfers := filled (take (p + burst t p) (replies f h (sent t))) t # ts\<rparr>],
                sp_port := Some (pt\<lparr>current_remaining_bytes := sp_len t - word_of_nat (p + burst t p)\<rparr>)\<rparr>)"
    using continue_gets [OF assms(1,2) pt] assms(3) by (auto simp: Let_def)
  show ?thesis unfolding d(2) by (rule tail_sends) (use assms pt d(1) in \<open>auto simp: flight_def port_state_def settled_def\<close>)
qed

lemma set_done:
  assumes "sh_ch (view (dev s)) = c" "ch_ok c"
  shows "view (dev (spi_set_chipselect_mode io TLS_SPI_CS_HIGH s)) = (view (dev s))\<lparr>sh_ch := (c AND NOT 4) OR SPI_CS_HIGH\<rparr>"
    "spi_set_chipselect_mode io TLS_SPI_CS_HIGH s = s\<lparr>dev := dev (spi_set_chipselect_mode io TLS_SPI_CS_HIGH s)\<rparr>"
proof -
  have e: "spi_set_chipselect_mode io TLS_SPI_CS_HIGH s = reg_upd io HR_SPI_CHCFG_REG (\<lambda>v. (v AND NOT 4) OR SPI_CS_HIGH) s"
    by (simp add: spi_set_chipselect_mode_def TLS_SPI_CS_HIGH_def)
  show "view (dev (spi_set_chipselect_mode io TLS_SPI_CS_HIGH s)) = (view (dev s))\<lparr>sh_ch := (c AND NOT 4) OR SPI_CS_HIGH\<rparr>"
    unfolding e by (rule reg_upd_ch(2) [OF assms(1)]) (intro ch_ok_steps assms(2))
  show "spi_set_chipselect_mode io TLS_SPI_CS_HIGH s = s\<lparr>dev := dev (spi_set_chipselect_mode io TLS_SPI_CS_HIGH s)\<rparr>"
    unfolding e by (rule reg_upd_ch(1) [OF assms(1)])
qed

lemma continue_next:
  assumes "flight ty f view mq m dn t p (u # us) h s" "sp_io env = io" "p + burst t p = unat (sp_len t)"
  shows "\<exists>s'. spi_continue_transfer env s = Some s' \<and> flight ty f view mq m (dn @ [filled (replies f h (sent t)) t]) u 0 us (h @ sent t) s' \<and> sh_done (view (dev s'))"
proof -
  obtain pt where pt: "sp_port s = Some pt" "port_state ty mq [m] (Some m) pt" using assms(1) by (auto simp: flight_def)
  let ?R = "filled (replies f h (sent t)) t" and ?msg = "sp_msgs s ! m" and ?left = "sp_len t - word_of_nat (p + burst t p)"
  have t: "sound t" "take (p + burst t p) (sent t) = sent t" "take (p + burst t p) (replies f h (sent t)) = replies f h (sent t)" "sound u" "list_all sound us"
    using assms(1,3) by (auto simp: flight_def)
  obtain d where d: "view d = (view (dev s))\<lparr>sh_rxq := []\<rparr>"
    "spi_continue_transfer env s = do { s \<leftarrow> finish_transfer env m m (s\<lparr>dev := d, sp_msgs := (sp_msgs s)[m := ?msg\<lparr>sp_transfers := ?R # u # us\<rparr>],
                sp_port := Some (pt\<lparr>current_remaining_bytes := ?left\<rparr>)\<rparr>); continue_tail env m s }"
    using continue_gets [OF assms(1,2) pt(1)] assms(3) t(3) by (auto simp: Let_def)
  have msg: "m < length (sp_msgs s)" "sp_done ?msg = dn" "sp_status ?msg = SPI_MESSAGE_STATUS_INPROGRESS" "sp_signal ?msg = 0" using assms(1) by (auto simp: flight_def)
  let ?s2 = "s\<lparr>dev := d, sp_msgs := (sp_msgs s)[m := ?msg\<lparr>sp_done := dn @ [?R], sp_transfers := u # us\<rparr>],
     sp_port := Some (pt\<lparr>current_transfer := Some m, sp_lock := 1, current_remaining_bytes := sp_len u\<rparr>)\<rparr>"
  have "finish_transfer env m m (s\<lparr>dev := d, sp_msgs := (sp_msgs s)[m := ?msg\<lparr>sp_transfers := ?R # u # us\<rparr>], sp_port := Some (pt\<lparr>current_remaining_bytes := ?left\<rparr>)\<rparr>) = Some ?s2"
    using pt(2) msg by (simp add: finish_transfer_def lock_take_def lock_give_def on_spi_def on_msg_def port_state_def spi_next_transfer_def first_transfer_def)
  moreover have "\<exists>s'. continue_tail env m ?s2 = Some s' \<and> flight ty f view mq m (dn @ [?R]) u 0 us (h @ sent t) s' \<and> sh_done (view (dev s'))"
  proof (rule tail_sends [where pt = "pt\<lparr>current_transfer := Some m, sp_lock := 1, current_remaining_bytes := sp_len u\<rparr>"])
    have "sp_len u \<noteq> 0" using t(4) by (simp add: sound_def)
    then show "0 < unat (sp_len u)" by (simp add: unat_gt_0)
    have "settled ty f (h @ take (p + burst t p) (sent t)) (bslice p (burst t p) (replies f h (sent t))) (view (dev s))" using assms(1) by (simp add: flight_def)
    then show "settled ty f ((h @ sent t) @ take 0 (sent u)) [] (view (dev ?s2))" using d(1) t(2) by (simp add: settled_def)
  qed (use assms(2) pt t(4,5) msg in \<open>simp_all add: port_state_def\<close>)
  ultimately show ?thesis unfolding d(2) by simp
qed

lemma continue_last:
  assumes "flight ty f view [] m dn t p [] h s" "sp_io env = io" "p + burst t p = unat (sp_len t)"
  shows "\<exists>s'. spi_continue_transfer env s = Some s' \<and> landed ty f view m (dn @ [filled (replies f h (sent t)) t]) (h @ sent t) s'"
proof -
  obtain pt where pt: "sp_port s = Some pt" "port_state ty [] [m] (Some m) pt" using assms(1) by (auto simp: flight_def)
  let ?R = "filled (replies f h (sent t)) t" and ?msg = "sp_msgs s ! m" and ?left = "sp_len t - word_of_nat (p + burst t p)"
  have t: "sound t" "take (p + burst t p) (sent t) = sent t" "take (p + burst t p) (replies f h (sent t)) = replies f h (sent t)"
    using assms(1,3) by (auto simp: flight_def)
  obtain d where d: "view d = (view (dev s))\<lparr>sh_rxq := []\<rparr>"
    "spi_continue_transfer env s = do { s \<leftarrow> finish_transfer env m m (s\<lparr>dev := d, sp_msgs := (sp_msgs s)[m := ?msg\<lparr>sp_transfers := [?R]\<rparr>],
                sp_port := Some (pt\<lparr>current_remaining_bytes := ?left\<rparr>)\<rparr>); continue_tail env m s }"
    using continue_gets [OF assms(1,2) pt(1)] assms(3) t(3) by (auto simp: Let_def)
  have msg: "m < length (sp_msgs s)" "sp_done ?msg = dn" "sp_signal ?msg = 0" using assms(1) by (auto simp: flight_def)
  have v: "ch_ok (sh_ch (view d))" "settled ty f (h @ sent t) [] (view d)" using assms(1) d(1) t(2) by (auto simp: flight_def settled_def)
  let ?s2 = "s\<lparr>dev := d, sp_msgs := (sp_msgs s)[m := ?msg\<lparr>sp_done := dn @ [?R], sp_transfers := []\<rparr>],
     sp_port := Some (pt\<lparr>current_remaining_bytes := ?left, sp_lock := 0, current_transfer := None\<rparr>)\<rparr>"
  define d2 where "d2 = dev (spi_set_chipselect_mode io TLS_SPI_CS_HIGH ?s2)"
  have cs: "spi_set_chipselect_mode io TLS_SPI_CS_HIGH ?s2 = ?s2\<lparr>dev := d2\<rparr>" "view d2 = (view d)\<lparr>sh_ch := (sh_ch (view d) AND NOT 4) OR SPI_CS_HIGH\<rparr>"
    using set_done [of ?s2 "sh_ch (view d)"] v(1) unfolding d2_def by simp_all
  have v2: "settled ty f (h @ sent t) [] (view d2)"
    using v(2) ch_ok_steps(3) [OF v(1)] unfolding cs(2) settled_def by simp
  let ?s3 = "s\<lparr>dev := d2, sp_msgs := (sp_msgs s)[m := ?msg\<lparr>sp_done := dn @ [?R], sp_transfers := [], sp_status := SPI_MESSAGE_STATUS_DONE\<rparr>],
     sp_port := Some (pt\<lparr>current_remaining_bytes := ?left, current_transfer := None, wait_queue := [], current_message := None, sp_lock := 1\<rparr>)\<rparr>"
  have "finish_transfer env m m (s\<lparr>dev := d, sp_msgs := (sp_msgs s)[m := ?msg\<lparr>sp_transfers := [?R]\<rparr>], sp_port := Some (pt\<lparr>current_remaining_bytes := ?left\<rparr>)\<rparr>) = Some ?s3"
    using pt(2) msg cs(1) assms(2)
    by (simp add: finish_transfer_def lock_take_def lock_give_def on_spi_def on_msg_def port_state_def spi_next_transfer_def first_transfer_def spi_next_message_def)
  moreover have "continue_tail env m ?s3 = Some (?s3\<lparr>sp_msgs := (sp_msgs s)[m := ?msg\<lparr>sp_done := dn @ [?R], sp_transfers := [], sp_status := SPI_MESSAGE_STATUS_DONE, sp_signal := 1\<rparr>]\<rparr>)"
    using msg by (simp add: continue_tail_def first_transfer_def spi_fill_txfifo_def on_msg_def)
  ultimately show ?thesis unfolding d(2) using pt(2) msg v2 by (simp add: landed_def port_state_def)
qed

end

end
