(* ===== verification/Hostspi_Run.thy ===== *)
theory Hostspi_Run
  imports Hostspi_Correct
begin

text \<open>
  Whole runs of the SPI master: submitting a message to an idle driver, the turn of the scheduler that starts it, and
  the interrupts, with the turns they cause, that carry it to its end.
\<close>

section \<open>The interrupt handler\<close>

definition idle where
  "idle ty f view h s \<longleftrightarrow> (\<exists>pt. sp_port s = Some pt \<and> port_state ty [] [] None pt) \<and> settled ty f h [] (view (dev s))"

text \<open>The receive buffers after the slave \<open>f\<close> was sent a message.\<close>

fun exchange :: "(bytes \<Rightarrow> u8 \<Rightarrow> u8) \<Rightarrow> bytes \<Rightarrow> tls_spi_transfer list \<Rightarrow> tls_spi_transfer list" where
  "exchange f h [] = []"
| "exchange f h (t # ts) = filled (replies f h (sent t)) t # exchange f (h @ sent t) ts"

text \<open>An interrupt, with the turn of the scheduler it asks for unless the handler goes on itself.\<close>

definition spi_round :: "u8 \<Rightarrow> spi_event list" where
  "spi_round ty = (if ty = SPI_WORD_TRANSFER then [Transfer_irq] else [Transfer_irq, Turn])"

lemma irq_bits:
  assumes "v AND SPI_INT_TRANSFER_DONE \<noteq> 0" "m AND (SPI_INT_TX_FIFO_RDY OR SPI_INT_RX_FIFO_RDY OR SPI_INT_TRANSFER_DONE) = SPI_INT_TX_FIFO_RDY OR SPI_INT_RX_FIFO_RDY"
  shows "(v AND NOT (m AND SPI_INT_MASK_ALL)) AND SPI_INT_TX_FIFO_RDY = 0" "(v AND NOT (m AND SPI_INT_MASK_ALL)) AND SPI_INT_RX_FIFO_RDY = 0"
    "(v AND NOT (m AND SPI_INT_MASK_ALL)) AND SPI_INT_TRANSFER_DONE \<noteq> 0"
    "(v AND NOT (m AND SPI_INT_MASK_ALL)) AND (SPI_INT_TX_FIFO_RDY OR SPI_INT_RX_FIFO_RDY OR SPI_INT_TRANSFER_DONE) \<noteq> 0"
proof -
  have e: "bit (m AND (SPI_INT_TX_FIFO_RDY OR SPI_INT_RX_FIFO_RDY OR SPI_INT_TRANSFER_DONE)) n = bit (SPI_INT_TX_FIFO_RDY OR SPI_INT_RX_FIFO_RDY) n" for n
    using assms(2) by simp
  have m: "bit m 0" "bit m 1" "\<not> bit m 6" using e [of 0] e [of 1] e [of 6] by (simp_all add: spi_bits bit_simps)
  have v: "bit v 6" using assms(1) and_exp_eq_0_iff_not_bit [of v 6] by (simp add: SPI_INT_TRANSFER_DONE_def)
  show "(v AND NOT (m AND SPI_INT_MASK_ALL)) AND SPI_INT_TX_FIFO_RDY = 0" "(v AND NOT (m AND SPI_INT_MASK_ALL)) AND SPI_INT_RX_FIFO_RDY = 0"
    using m by - (rule u32_eqI, simp add: upt_32 spi_bits bit_simps)+
  have "bit ((v AND NOT (m AND SPI_INT_MASK_ALL)) AND SPI_INT_TRANSFER_DONE) 6"
    "bit ((v AND NOT (m AND SPI_INT_MASK_ALL)) AND (SPI_INT_TX_FIFO_RDY OR SPI_INT_RX_FIFO_RDY OR SPI_INT_TRANSFER_DONE)) 6"
    using m v by (simp_all add: spi_bits bit_simps)
  then show "(v AND NOT (m AND SPI_INT_MASK_ALL)) AND SPI_INT_TRANSFER_DONE \<noteq> 0"
    "(v AND NOT (m AND SPI_INT_MASK_ALL)) AND (SPI_INT_TX_FIFO_RDY OR SPI_INT_RX_FIFO_RDY OR SPI_INT_TRANSFER_DONE) \<noteq> 0"
    by (metis bit_0_eq bot_apply bot_bool_def)+
qed

context spi_line
begin

lemma irq_continues:
  assumes "settled ty f h q (view (dev s))" "sh_done (view (dev s))" "sp_io env = io" "sp_port s = Some pt"
  shows "\<exists>d x. view d = (view (dev s))\<lparr>sh_done := x\<rparr> \<and> SPI_LS_IRQHandler env s =
    (if transtype pt = SPI_WORD_TRANSFER then spi_continue_transfer env (s\<lparr>dev := d\<rparr>) else Some (msg_send SPI_SCHED_MSG_TRANSFER_COMPLETE (s\<lparr>dev := d\<rparr>)))"
proof -
  obtain st d1 where r1: "tls_reg_read32 io HR_SPI_INT_STATUS_REG (dev s) = (st, d1)" by force
  obtain v d2 where r2: "tls_reg_read32 io HR_SPI_INT_STATUS_REG d1 = (v, d2)" by force
  define d3 where "d3 = tls_reg_write32 io HR_SPI_INT_STATUS_REG ((v AND NOT (st AND 0xFF)) OR (st AND 0xFF)) d2"
  obtain mk d4 where r4: "tls_reg_read32 io HR_SPI_INT_MASK_REG d3 = (mk, d4)" by force
  have v12: "view d1 = view (dev s)" "view d2 = view (dev s)"
    using read_pure [of HR_SPI_INT_STATUS_REG "dev s"] read_pure [of HR_SPI_INT_STATUS_REG d1] r1 r2 by (simp_all add: spi_regs)
  have st: "st AND SPI_INT_TRANSFER_DONE \<noteq> 0" using read_done [of "dev s"] r1 assms(2) by simp
  obtain x where v3: "view d3 = (view (dev s))\<lparr>sh_done := x\<rparr>" unfolding d3_def write_ints v12 by blast
  have v4: "view d4 = (view (dev s))\<lparr>sh_done := x\<rparr>" using read_pure [of HR_SPI_INT_MASK_REG d3] r4 v3 by (simp add: spi_regs)
  have mk: "mk = sh_mask (view (dev s))" using read_mask [of d3] r4 v3 by simp
  note b = irq_bits [OF st, of mk]
  have "mk AND (SPI_INT_TX_FIFO_RDY OR SPI_INT_RX_FIFO_RDY OR SPI_INT_TRANSFER_DONE) = SPI_INT_TX_FIFO_RDY OR SPI_INT_RX_FIFO_RDY"
    using assms(1) mk by (simp add: settled_def)
  note b = b [OF this]
  have "SPI_LS_IRQHandler env s =
    (if transtype pt = SPI_WORD_TRANSFER then spi_continue_transfer env (s\<lparr>dev := d4\<rparr>) else Some (msg_send SPI_SCHED_MSG_TRANSFER_COMPLETE (s\<lparr>dev := d4\<rparr>)))"
    using r1 r2 r4 b assms(3,4) d3_def
    by (simp add: SPI_LS_IRQHandler_def spi_get_int_status_def spi_clear_int_status_def spi_int_mask_def reg_get_def reg_set_def reg_upd_def Let_def)
  then show ?thesis using v4 by blast
qed

lemma flight_dev: "view d = (view (dev s))\<lparr>sh_done := x\<rparr> \<Longrightarrow> flight ty f view mq m dn t p ts h s \<Longrightarrow> flight ty f view mq m dn t p ts h (s\<lparr>dev := d\<rparr>)"
  by (auto simp: flight_def settled_def)

lemma flight_waits: "flight ty f view mq m dn t p ts h s \<Longrightarrow> spi_wait env m (e # evs) s = do { s \<leftarrow> spi_step env e s; spi_wait env m evs s }"
  by (subst spi_wait.simps) (simp add: flight_def)

lemma round_continues:
  assumes "flight ty f view [] m dn t p ts h s" "sh_done (view (dev s))" "sp_io env = io"
  shows "\<exists>s1. flight ty f view [] m dn t p ts h s1 \<and> spi_wait env m (spi_round ty @ evs) s = do { s \<leftarrow> spi_continue_transfer env s1; spi_wait env m evs s }"
proof -
  obtain pt where pt: "sp_port s = Some pt" "port_state ty [] [m] (Some m) pt" using assms(1) by (auto simp: flight_def)
  obtain d x where d: "view d = (view (dev s))\<lparr>sh_done := x\<rparr>" "SPI_LS_IRQHandler env s =
    (if transtype pt = SPI_WORD_TRANSFER then spi_continue_transfer env (s\<lparr>dev := d\<rparr>) else Some (msg_send SPI_SCHED_MSG_TRANSFER_COMPLETE (s\<lparr>dev := d\<rparr>)))"
    using irq_continues [OF _ assms(2,3) pt(1)] assms(1) unfolding flight_def by metis
  note fl = flight_dev [OF d(1) assms(1)]
  show ?thesis
  proof (cases "ty = SPI_WORD_TRANSFER")
    case True
    then show ?thesis using fl d(2) pt flight_waits [OF assms(1)]
      by (intro exI [of _ "s\<lparr>dev := d\<rparr>"]) (simp add: spi_round_def port_state_def)
  next
    case False
    let ?s1 = "s\<lparr>dev := d, sp_port := Some (pt\<lparr>msg_queue := [SPI_SCHED_MSG_TRANSFER_COMPLETE]\<rparr>)\<rparr>" and ?s2 = "s\<lparr>dev := d, sp_port := Some (pt\<lparr>msg_queue := []\<rparr>)\<rparr>"
    have q: "flight ty f view [SPI_SCHED_MSG_TRANSFER_COMPLETE] m dn t p ts h ?s1" "flight ty f view [] m dn t p ts h ?s2"
      using fl pt by (auto simp: flight_def port_state_def)
    have "spi_scheduler env ?s1 = spi_continue_transfer env ?s2"
      by (simp add: spi_scheduler_def on_spi_def SPI_SCHED_MSG_START_ENGINE_def SPI_SCHED_MSG_TRANSFER_COMPLETE_def)
    moreover have "SPI_LS_IRQHandler env s = Some ?s1"
      using d(2) False pt by (simp add: msg_send_def on_spi_def port_state_def MSG_QUEUE_SIZE_def)
    ultimately show ?thesis using q(2) False flight_waits [OF assms(1)] flight_waits [OF q(1)]
      by (intro exI [of _ ?s2]) (simp add: spi_round_def)
  qed
qed

end

section \<open>The whole message\<close>

definition bursts :: "tls_spi_transfer \<Rightarrow> nat \<Rightarrow> nat" where
  "bursts t p = (unat (sp_len t) - p + 31) div 32"

lemma bursts_step: "p < unat (sp_len t) \<Longrightarrow> bursts t p = Suc (bursts t (p + burst t p))"
  by (auto simp: bursts_def burst_def min_def)

lemma bursts_end [simp]: "p = unat (sp_len t) \<Longrightarrow> bursts t p = 0"
  by (simp add: bursts_def)

context spi_line
begin

lemma rounds_land:
  assumes "flight ty f view [] m dn t p ts h s" "sh_done (view (dev s))" "sp_io env = io"
  shows "\<exists>s'. spi_wait env m (concat (replicate (bursts t p + sum_list (map (\<lambda>u. bursts u 0) ts)) (spi_round ty)) @ evs) s = spi_wait env m evs s'
    \<and> landed ty f view m (dn @ exchange f h (t # ts)) (h @ concat (map sent (t # ts))) s'"
  using assms
proof (induction "bursts t p + sum_list (map (\<lambda>u. bursts u 0) ts)" arbitrary: dn t p ts h s)
  case 0
  then show ?case using bursts_step [of p t] by (auto simp: flight_def)
next
  case (Suc n)
  have t: "p < unat (sp_len t)" using Suc.prems(1) by (simp add: flight_def)
  note st = bursts_step [OF t] and nb = burst_bounds [OF t]
  let ?evs = "concat (replicate n (spi_round ty)) @ evs"
  obtain s1 where r: "flight ty f view [] m dn t p ts h s1" "spi_wait env m (spi_round ty @ ?evs) s = do { s \<leftarrow> spi_continue_transfer env s1; spi_wait env m ?evs s }"
    using round_continues [OF Suc.prems] by blast
  have unroll: "concat (replicate (bursts t p + sum_list (map (\<lambda>u. bursts u 0) ts)) (spi_round ty)) @ evs = spi_round ty @ ?evs"
    unfolding Suc.hyps(2) [symmetric] by simp
  consider (same) "p + burst t p < unat (sp_len t)" | (nxt) u us where "p + burst t p = unat (sp_len t)" "ts = u # us" | (last) "p + burst t p = unat (sp_len t)" "ts = []"
    using nb by (cases ts) fastforce+
  then show ?case
  proof cases
    case same
    obtain s2 where c: "spi_continue_transfer env s1 = Some s2" "flight ty f view [] m dn t (p + burst t p) ts h s2" "sh_done (view (dev s2))"
      using continue_same [OF r(1) Suc.prems(3) same] by blast
    have n: "n = bursts t (p + burst t p) + sum_list (map (\<lambda>u. bursts u 0) ts)" using Suc.hyps(2) st by simp
    show ?thesis unfolding unroll r(2) using Suc.hyps(1) [OF n c(2,3) Suc.prems(3)] c(1) n by simp
  next
    case nxt
    obtain s2 where c: "spi_continue_transfer env s1 = Some s2" "flight ty f view [] m (dn @ [filled (replies f h (sent t)) t]) u 0 us (h @ sent t) s2" "sh_done (view (dev s2))"
      using continue_next [of ty f "[]" m dn t p u us h s1 env] r(1) Suc.prems(3) nxt by blast
    have n: "n = bursts u 0 + sum_list (map (\<lambda>u. bursts u 0) us)" using Suc.hyps(2) st nxt by simp
    show ?thesis unfolding unroll r(2) using Suc.hyps(1) [OF n c(2,3) Suc.prems(3)] c(1) n nxt(2) by simp
  next
    case last
    obtain s2 where c: "spi_continue_transfer env s1 = Some s2" "landed ty f view m (dn @ [filled (replies f h (sent t)) t]) (h @ sent t) s2"
      using continue_last [of ty f m dn t p h s1 env] r(1) Suc.prems(3) last by blast
    have "n = 0" using Suc.hyps(2) st last by simp
    then show ?thesis unfolding unroll r(2) using c last(2) by (intro exI [of _ s2]) simp
  qed
qed

lemma engine_starts:
  assumes "sp_port s = Some pt" "port_state ty [] [m] None pt" "m < length (sp_msgs s)" "sp_io env = io"
    and "sp_msgs s ! m = \<lparr>sp_transfers = t # ts, sp_done = [], sp_status = SPI_MESSAGE_STATUS_IDLE, sp_signal = 0\<rparr>"
    and "sound t" "list_all sound ts" "settled ty f h [] (view (dev s))"
  shows "\<exists>s'. spi_start_engine env s = Some s' \<and> flight ty f view [] m [] t 0 ts h s' \<and> sh_done (view (dev s'))"
proof -
  let ?s1 = "s\<lparr>sp_msgs := (sp_msgs s)[m := (sp_msgs s ! m)\<lparr>sp_status := SPI_MESSAGE_STATUS_INPROGRESS\<rparr>],
     sp_port := Some (pt\<lparr>current_transfer := Some m, current_message := Some m, sp_lock := 1, current_remaining_bytes := sp_len t\<rparr>)\<rparr>"
  have p: "0 < unat (sp_len t)" using assms(6) by (simp add: sound_def unat_gt_0)
  obtain s2 d c where sp: "spi_fill_txfifo io (Some t) (sp_len t) ?s1 = Some (word_of_nat (burst t 0), s2)"
    "spi_start_transfer env (word_of_nat (burst t 0)) s2 = Some (?s1\<lparr>dev := d\<rparr>)" "ch_ok c"
    "view d = (view (dev s))\<lparr>sh_ch := c, sh_txq := [], sh_rxq := replies f h (bslice 0 (burst t 0) (sent t)), sh_out := h @ bslice 0 (burst t 0) (sent t), sh_done := True\<rparr>"
    using send_part [of ?s1 "pt\<lparr>current_transfer := Some m, current_message := Some m, sp_lock := 1, current_remaining_bytes := sp_len t\<rparr>" env t 0 "burst t 0"]
      assms p by (auto simp: settled_def port_state_def burst_def)
  have "spi_start_engine env s = Some (?s1\<lparr>dev := d\<rparr>)"
    using assms(1-5) sp(1,2)
    by (simp add: spi_start_engine_def lock_take_def lock_give_def on_spi_def on_msg_def port_state_def spi_next_message_def spi_next_transfer_def first_transfer_def)
  moreover have "settled ty f (h @ take (0 + burst t 0) (sent t)) (bslice 0 (burst t 0) (replies f h (sent t))) (view d)"
    using sp(3,4) assms(8) by (simp add: settled_def bslice_def replies_take)
  then have "flight ty f view [] m [] t 0 ts h (?s1\<lparr>dev := d\<rparr>)"
    using assms(1-7) p by (simp add: flight_def port_state_def)
  ultimately show ?thesis using sp(4) by simp
qed

lemma sync_exchanges:
  assumes "idle ty f view h s" "sp_io env = io" "sp_create env 0 (dev s) = (True, d)" "view d = view (dev s)" "ts \<noteq> []" "list_all sound ts"
  shows "\<exists>s'. tls_spi_sync env ts (Turn # concat (replicate (sum_list (map (\<lambda>u. bursts u 0) ts)) (spi_round ty))) s = Some (TLS_SPI_STATUS_OK, exchange f h ts, s')
    \<and> idle ty f view (h @ concat (map sent ts)) s'"
proof -
  let ?m = "length (sp_msgs s)" and ?evs = "concat (replicate (sum_list (map (\<lambda>u. bursts u 0) ts)) (spi_round ty))"
  let ?msg = "\<lparr>sp_transfers = ts, sp_done = [], sp_status = SPI_MESSAGE_STATUS_IDLE, sp_signal = 0\<rparr>"
  obtain pt where pt: "sp_port s = Some pt" "port_state ty [] [] None pt" using assms(1) by (auto simp: idle_def)
  obtain t us where ts: "ts = t # us" using assms(5) by (cases ts) auto
  let ?s1 = "s\<lparr>dev := d, sp_msgs := sp_msgs s @ [?msg], sp_port := Some (pt\<lparr>wait_queue := [?m], sp_lock := 1, msg_queue := [SPI_SCHED_MSG_START_ENGINE]\<rparr>)\<rparr>"
    and ?s2 = "s\<lparr>dev := d, sp_msgs := sp_msgs s @ [?msg], sp_port := Some (pt\<lparr>wait_queue := [?m], sp_lock := 1, msg_queue := []\<rparr>)\<rparr>"
  have len: "\<forall>t \<in> set ts. sp_len t \<noteq> 0" using assms(6) by (auto simp: list_all_iff sound_def)
  have a: "tls_spi_async (Some ?m) (s\<lparr>dev := d, sp_msgs := sp_msgs s @ [\<lparr>sp_transfers = ts, sp_done = [], sp_status = 0, sp_signal = 0\<rparr>]\<rparr>) = Some (TLS_SPI_STATUS_OK, ?s1)"
    using pt assms(5) len
    by (simp add: tls_spi_async_def lock_take_def lock_give_def on_spi_def on_msg_def msg_send_def port_state_def MSG_QUEUE_SIZE_def SPI_MESSAGE_STATUS_IDLE_def)
  have turn: "spi_wait env ?m (Turn # ?evs) ?s1 = do { s \<leftarrow> spi_start_engine env ?s2; spi_wait env ?m ?evs s }"
    by (subst spi_wait.simps) (simp add: spi_scheduler_def on_spi_def)
  obtain s3 where e: "spi_start_engine env ?s2 = Some s3" "flight ty f view [] ?m [] t 0 us h s3" "sh_done (view (dev s3))"
    using engine_starts [of ?s2 "pt\<lparr>wait_queue := [?m], sp_lock := 1, msg_queue := []\<rparr>" ty ?m env t us f h] pt(2) assms(1,2,4,6) ts
    by (auto simp: port_state_def idle_def)
  obtain s4 where r: "spi_wait env ?m ?evs s3 = spi_wait env ?m [] s4" "landed ty f view ?m (exchange f h ts) (h @ concat (map sent ts)) s4"
    using rounds_land [OF e(2,3) assms(2), of "[]"] ts by auto
  have "spi_wait env ?m [] s4 = Some (on_msg ?m (\<lambda>x. x\<lparr>sp_signal := sp_signal x - 1\<rparr>) s4)"
    using r(2) by (subst spi_wait.simps) (simp add: landed_def)
  moreover have "idle ty f view (h @ concat (map sent ts)) (on_msg ?m (\<lambda>x. x\<lparr>sp_signal := sp_signal x - 1\<rparr>) s4)"
    using r(2) by (auto simp: landed_def idle_def on_msg_def)
  moreover have "sp_done (sp_msgs (on_msg ?m (\<lambda>x. x\<lparr>sp_signal := sp_signal x - 1\<rparr>) s4) ! ?m) = exchange f h ts"
    using r(2) by (auto simp: landed_def on_msg_def)
  ultimately show ?thesis using a turn e(1) r(1) assms(3)
    by (intro exI [of _ "on_msg ?m (\<lambda>x. x\<lparr>sp_signal := sp_signal x - 1\<rparr>) s4"]) (simp add: tls_spi_sync_def)
qed

end

end
