(* ===== verification/Hostspi_Api.thy ===== *)
theory Hostspi_Api
  imports Hostspi_Engine
begin

text \<open>
  The rest of the SPI master: transfers by DMA over the buffer at a fixed address, the settings, installation, and the
  functions an application calls to read and write.
\<close>

section \<open>Transfers by DMA\<close>

text \<open>The controller clears its FIFOs and then the bit that asked for it.\<close>

partial_function (option) wait_cleared :: "'d regs \<Rightarrow> 'd spis \<Rightarrow> 'd spis option" where
  "wait_cleared io s = (let (v, s) = reg_get io HR_SPI_CHCFG_REG s in if v AND SPI_CLEAR_FIFOS \<noteq> 0 then wait_cleared io s else Some s)"

definition clear_fifos :: "'d regs \<Rightarrow> 'd spis \<Rightarrow> 'd spis option" where
  "clear_fifos io s = wait_cleared io (reg_set io HR_SPI_CHCFG_REG SPI_CLEAR_FIFOS s)"

definition SpiMasterInit :: "'d regs \<Rightarrow> u8 \<Rightarrow> u8 \<Rightarrow> u32 \<Rightarrow> 'd spis \<Rightarrow> 'd spis option" where
  "SpiMasterInit io m cs fclk s = do {
     s \<leftarrow> clear_fifos io s;
     (apb, s) \<leftarrow> spi_apb io s;
     if fclk * 2 = 0 then None
     else do {
       let s = reg_set io HR_SPI_CLKCFG_REG (apb div (fclk * 2) - 1) s;
       let s = reg_set io HR_SPI_SPICFG_REG 0 s;
       let s = reg_set io HR_SPI_SPICFG_REG (push_bit 2 1 OR ucast m) s;
       let s = reg_set io HR_SPI_INT_MASK_REG 0xFF s;
       Some (tls_dma_init io s) } }"

text \<open>The wait for an idle controller gives up after \<open>0x4FFFFF\<close> turns.\<close>

function wait_idle :: "'d regs \<Rightarrow> nat \<Rightarrow> 'd spis \<Rightarrow> int \<times> 'd spis" where
  "wait_idle io timeout s =
    (if timeout + 1 > 0x4FFFFF then (TLS_SPI_STATUS_EBUSY, s)
     else let (v, s) = reg_get io HR_SPI_STATUS_REG s
     in if v AND 0x1000 \<noteq> 0 then wait_idle io (timeout + 1) s else (TLS_SPI_STATUS_OK, s))"
  by pat_completeness auto
termination by (relation "measure (\<lambda>(_, t, _). 0x4FFFFF - t)") auto

declare wait_idle.simps [simp del]

definition spiWaitIdle :: "'d regs \<Rightarrow> 'd spis \<Rightarrow> int \<times> 'd spis" where
  "spiWaitIdle io s = wait_idle io 0 s"

definition reg_timeout :: "'d regs \<Rightarrow> 'd spis \<Rightarrow> 'd spis" where
  "reg_timeout io = reg_set io HR_SPI_TIMEOUT_REG (SPI_TIMER_EN OR SPI_TIME_OUT 0xFFFF)"

definition dma_desc :: "u32 \<Rightarrow> u32 \<Rightarrow> u32 \<Rightarrow> tls_dma_descriptor" where
  "dma_desc from_addr to_addr ctrl = \<lparr>desc_valid = 0x80000000, dma_ctrl = ctrl, src_addr = from_addr, dest_addr = to_addr\<rparr>"

text \<open>The controller and then the channel are waited for; the result is 0 or \<open>TLS_SPI_STATUS_EBUSY\<close>.\<close>

definition wait_block :: "'d spi_env \<Rightarrow> nat \<Rightarrow> 'd spis \<Rightarrow> int \<times> 'd spis" where
  "wait_block env ch s =
    (let (r, s) = spiWaitIdle (sp_io env) s
     in if r \<noteq> 0 then (TLS_SPI_STATUS_EBUSY, s)
        else let (r, s) = tls_dma_wait_complt (sp_io env) (sp_delay env) ch s
        in if r \<noteq> 0 then (TLS_SPI_STATUS_EBUSY, s) else (TLS_SPI_STATUS_OK, s))"

function write_blocks :: "'d spi_env \<Rightarrow> nat \<Rightarrow> u32 \<Rightarrow> bool \<Rightarrow> u32 \<Rightarrow> nat \<Rightarrow> nat \<Rightarrow> bool \<Rightarrow> 'd spis \<Rightarrow> (int \<times> bool \<times> 'd spis) option" where
  "write_blocks env ch data ifusecmd txlen blocknum i over s =
    (if i > blocknum then Some (TLS_SPI_STATUS_OK, over, s)
     else let blocksize = (if txlen > SPI_DMA_MAX_TRANS_SIZE then SPI_DMA_MAX_TRANS_SIZE else txlen)
     in if blocksize = 0 then Some (TLS_SPI_STATUS_OK, over, s)
        else do {
          (_, s) \<leftarrow> tls_dma_start (sp_io env) ch (Some (dma_desc (data + of_nat i * SPI_DMA_MAX_TRANS_SIZE) HR_SPI_TXDATA_REG
                     (1 OR 0x20 OR push_bit 7 blocksize))) False s;
          let s = reg_set (sp_io env) HR_SPI_MODECFG_REG (SPI_RX_TRIGGER_LEVEL 0 OR SPI_TX_TRIGGER_LEVEL 0 OR SPI_TX_DMA_ON) s;
          let s = reg_timeout (sp_io env) s;
          let first = (ifusecmd \<and> i = 0);
          let s = reg_set (sp_io env) HR_SPI_CHCFG_REG (SPI_FORCE_SPI_CS_OUT OR SPI_TX_CHANNEL_ON OR SPI_CONTINUE_MODE OR SPI_START
                    OR SPI_VALID_CLKS_NUM ((if first then blocksize + 4 else blocksize) * 8)) s;
          let (r, s) = wait_block env ch s;
          if r \<noteq> 0 then Some (r, over \<or> first, s)
          else write_blocks env ch data ifusecmd (txlen - blocksize) blocknum (i + 1) (over \<or> first) s })"
  by pat_completeness auto
termination by (relation "measure (\<lambda>(_, _, _, _, _, n, i, _, _). Suc n - i)") auto

declare write_blocks.simps [simp del]

definition SpiDmaBlockWrite :: "'d spi_env \<Rightarrow> u32 \<Rightarrow> u32 \<Rightarrow> bool \<Rightarrow> u32 \<Rightarrow> 'd spis \<Rightarrow> (int \<times> 'd spis) option" where
  "SpiDmaBlockWrite env data len ifusecmd cmd s =
    (if data = 0 then Some (TLS_SPI_STATUS_EINVAL, s)
     else let io = sp_io env; (r, s) = spiWaitIdle io s
     in if r \<noteq> 0 then Some (TLS_SPI_STATUS_EBUSY, s)
        else do {
          s \<leftarrow> clear_fifos io s;
          let s = (if ifusecmd then reg_set io HR_SPI_TXDATA_REG cmd s else s);
          let txlen = (if len mod 4 \<noteq> 0 then len AND 0xFFFFFFFC else len);
          (ret, over, s) \<leftarrow>
            (if txlen > 0 then do {
               let (ch, s) = tls_dma_request io 1 (TLS_DMA_FLAGS_CHANNEL_SEL 5 OR TLS_DMA_FLAGS_HARD_MODE) s;
               (ret, over, s) \<leftarrow> write_blocks env ch data ifusecmd txlen (unat (txlen div SPI_DMA_MAX_TRANS_SIZE)) 0 False s;
               s \<leftarrow> tls_dma_free io ch s;
               Some (ret, over, s) }
             else Some (TLS_SPI_STATUS_OK, False, s));
          let (ret, s) =
            (if len > txlen then
               (let n = len - txlen; w = pack SPI_WORD_TRANSFER (sp_peek env (data + txlen) (unat n) (dev s));
                    s = reg_set io HR_SPI_TXDATA_REG w s;
                    s = reg_set io HR_SPI_MODECFG_REG (SPI_RX_TRIGGER_LEVEL 0 OR SPI_TX_TRIGGER_LEVEL 0) s;
                    s = reg_timeout io s;
                    extra = (if ifusecmd \<and> \<not> over then 4 else 0);
                    s = reg_set io HR_SPI_CHCFG_REG (SPI_FORCE_SPI_CS_OUT OR SPI_TX_CHANNEL_ON OR SPI_CONTINUE_MODE OR SPI_START
                          OR SPI_VALID_CLKS_NUM ((extra + n) * 8)) s;
                    (r, s) = spiWaitIdle io s
                in (if r \<noteq> 0 then TLS_SPI_STATUS_EBUSY else ret, s))
             else (ret, s));
          let s = reg_set io HR_SPI_CHCFG_REG 0 s;
          let s = reg_set io HR_SPI_MODECFG_REG 0 s;
          Some (ret, reg_set io HR_SPI_TIMEOUT_REG 0 s) })"

text \<open>The command is sent in words of four bytes.\<close>

fun put_command :: "'d regs \<Rightarrow> bytes \<Rightarrow> 'd spis \<Rightarrow> 'd spis" where
  "put_command io (a # b # c # d # e # bs) s = put_command io (e # bs) (reg_set io HR_SPI_TXDATA_REG (pack SPI_WORD_TRANSFER [a, b, c, d]) s)"
| "put_command io bs s = reg_set io HR_SPI_TXDATA_REG (pack SPI_WORD_TRANSFER bs) s"

function read_blocks :: "'d spi_env \<Rightarrow> nat \<Rightarrow> u32 \<Rightarrow> u32 \<Rightarrow> u32 \<Rightarrow> u32 \<Rightarrow> u32 \<Rightarrow> nat \<Rightarrow> nat \<Rightarrow> 'd spis \<Rightarrow> (int \<times> 'd spis) option" where
  "read_blocks env ch data len txlen rxlen rxlenbk blocknum i s =
    (if i > blocknum then Some (TLS_SPI_STATUS_OK, s)
     else let io = sp_io env; blocksize = (if rxlenbk > 0 then (if rxlen > SPI_DMA_MAX_TRANS_SIZE then SPI_DMA_MAX_TRANS_SIZE else rxlen) else 0)
     in if rxlenbk > 0 \<and> blocksize = 0 then Some (TLS_SPI_STATUS_OK, s)
        else do {
          s \<leftarrow> (if rxlenbk > 0 then do {
                 (_, s) \<leftarrow> tls_dma_start io ch (Some (dma_desc HR_SPI_RXDATA_REG (data + of_nat i * SPI_DMA_MAX_TRANS_SIZE)
                            (4 OR 0x20 OR push_bit 7 blocksize))) False s;
                 Some (reg_set io HR_SPI_MODECFG_REG (SPI_RX_TRIGGER_LEVEL 0 OR SPI_TX_TRIGGER_LEVEL 0 OR SPI_RX_DMA_ON) s) }
               else Some (reg_set io HR_SPI_MODECFG_REG (SPI_RX_TRIGGER_LEVEL 0 OR SPI_TX_TRIGGER_LEVEL 0) s));
          let s = reg_timeout io s;
          let both = SPI_FORCE_SPI_CS_OUT OR SPI_RX_CHANNEL_ON OR SPI_TX_CHANNEL_ON OR SPI_CONTINUE_MODE OR SPI_START;
          let rx = SPI_FORCE_SPI_CS_OUT OR SPI_RX_CHANNEL_ON OR SPI_CONTINUE_MODE OR SPI_START;
          let s = reg_set io HR_SPI_CHCFG_REG
            (if blocknum = 0 then both OR SPI_VALID_CLKS_NUM ((len + txlen) * 8) OR SPI_RX_INVALID_BITS (txlen * 8)
             else if i = 0 then both OR SPI_VALID_CLKS_NUM ((blocksize + txlen) * 8) OR SPI_RX_INVALID_BITS (txlen * 8)
             else if i = blocknum then rx OR SPI_VALID_CLKS_NUM ((blocksize + len - rxlenbk) * 8)
             else rx OR SPI_VALID_CLKS_NUM (blocksize * 8)) s;
          let (r, s) = wait_block env ch s;
          if r \<noteq> 0 then Some (r, s)
          else read_blocks env ch data len txlen (rxlen - blocksize) rxlenbk blocknum (i + 1) s })"
  by pat_completeness auto
termination by (relation "measure (\<lambda>(_, _, _, _, _, _, _, n, i, _). Suc n - i)") auto

declare read_blocks.simps [simp del]

text \<open>The number of blocks is an \<^verbatim>\<open>unsigned char\<close>; \<open>txdata\<close> is the address of the command.\<close>

definition SpiDmaBlockRead :: "'d spi_env \<Rightarrow> u32 \<Rightarrow> u32 \<Rightarrow> u32 \<Rightarrow> u8 \<Rightarrow> 'd spis \<Rightarrow> (int \<times> 'd spis) option" where
  "SpiDmaBlockRead env data len txdata txlen s =
    (if data = 0 then Some (TLS_SPI_STATUS_EINVAL, s)
     else let io = sp_io env; (r, s) = spiWaitIdle io s
     in if r \<noteq> 0 then Some (TLS_SPI_STATUS_EBUSY, s)
        else do {
          s \<leftarrow> clear_fifos io s;
          let rxlen = (if len mod 4 \<noteq> 0 then len AND 0xFFFFFFFC else len);
          let blocknum = (ucast (rxlen div SPI_DMA_MAX_TRANS_SIZE) :: u8);
          let s = (if txlen > 0 \<and> txlen \<le> 32 then put_command io (sp_peek env txdata (unat txlen) (dev s)) s else s);
          let (ch, s) = tls_dma_request io 1 (TLS_DMA_FLAGS_CHANNEL_SEL 4 OR TLS_DMA_FLAGS_HARD_MODE) s;
          (ret, s) \<leftarrow> read_blocks env ch data len (ucast txlen) rxlen rxlen (unat blocknum) 0 s;
          s \<leftarrow> tls_dma_free io ch s;
          let s = (if len > rxlen then (let (w, s) = reg_get io HR_SPI_RXDATA_REG s in s\<lparr>dev := sp_poke env (data + rxlen) (le32 w) (dev s)\<rparr>) else s);
          let s = reg_set io HR_SPI_CHCFG_REG 0 s;
          let s = reg_set io HR_SPI_MODECFG_REG 0 s;
          Some (ret, reg_set io HR_SPI_TIMEOUT_REG 0 s) })"

section \<open>Settings and installation\<close>

definition tls_spi_trans_type :: "'d spi_env \<Rightarrow> u8 \<Rightarrow> 'd spis \<Rightarrow> 'd spis option" where
  "tls_spi_trans_type env ty s = do {
     p \<leftarrow> sp_port s;
     let s = on_spi (\<lambda>p. p\<lparr>transtype := ty\<rparr>) s;
     if ty = SPI_WORD_TRANSFER then Some (spi_set_endian (sp_io env) 0 s)
     else if ty = SPI_DMA_TRANSFER then SpiMasterInit (sp_io env) (sp_mode p) TLS_SPI_CS_LOW (speed_hz p) s
     else Some s }"

definition tls_spi_setup :: "'d spi_env \<Rightarrow> u8 \<Rightarrow> u8 \<Rightarrow> u32 \<Rightarrow> 'd spis \<Rightarrow> (int \<times> 'd spis) option" where
  "tls_spi_setup env m cs fclk s = do {
     p \<leftarrow> sp_port s;
     if sp_mode p = m \<and> cs_active p = cs \<and> speed_hz p = fclk then Some (TLS_SPI_STATUS_OK, s)
     else if \<not> m \<le> 3 then Some (TLS_SPI_STATUS_EMODENOSUPPORT, s)
     else let s = on_spi (\<lambda>p. p\<lparr>sp_mode := m\<rparr>) s
     in if cs \<noteq> TLS_SPI_CS_HIGH \<and> cs \<noteq> TLS_SPI_CS_LOW then Some (TLS_SPI_STATUS_EINVAL, s)
        else do {
          (apb, s) \<leftarrow> spi_apb (sp_io env) (on_spi (\<lambda>p. p\<lparr>cs_active := cs\<rparr>) s);
          if fclk < TLS_SPI_FCLK_MIN \<or> fclk > apb div 2 then Some (TLS_SPI_STATUS_ECLKNOSUPPORT, s)
          else do {
            let s = on_spi (\<lambda>p. p\<lparr>speed_hz := fclk\<rparr>) s;
            if transtype p = SPI_DMA_TRANSFER then do {
              s \<leftarrow> SpiMasterInit (sp_io env) m TLS_SPI_CS_LOW fclk s;
              Some (TLS_SPI_STATUS_OK, s) }
            else Some (TLS_SPI_STATUS_OK, on_spi (\<lambda>p. p\<lparr>reconfig := 1\<rparr>) s) } } }"

definition new_port :: tls_spi_port where
  "new_port = \<lparr>speed_hz = SPI_DEFAULT_SPEED, cs_active = TLS_SPI_CS_LOW, sp_mode = 0, reconfig = 0, wait_queue = [], sp_lock = 1, msg_queue = [],
     current_message = None, current_transfer = None, current_remaining_bytes = 0, transtype = 0\<rparr>"

text \<open>The lock, the queue and the scheduler task are created in this order. The task starts after the driver is installed.\<close>

definition tls_spi_init :: "'d spi_env \<Rightarrow> 'd spis \<Rightarrow> (int \<times> 'd spis) option" where
  "tls_spi_init env s =
    (if sp_port s \<noteq> None then Some (TLS_SPI_STATUS_EBUSY, s)
     else let b = sp_heap env (sp_allocs s) 52; s = s\<lparr>sp_allocs := Suc (sp_allocs s)\<rparr>
     in if b = None then Some (TLS_SPI_STATUS_ENOMEM, s)
        else let (ok, d) = sp_create env 1 (dev s); s = s\<lparr>dev := d\<rparr>
        in if \<not> ok then Some (TLS_SPI_STATUS_ENOMEM, s)
           else let (ok, d) = sp_create env 2 (dev s); s = s\<lparr>dev := d\<rparr>
           in if \<not> ok then Some (TLS_SPI_STATUS_ENOMEM, s)
              else let (ok, d) = sp_create env 3 (dev s); s = s\<lparr>dev := d\<rparr>
              in if \<not> ok then Some (TLS_SPI_STATUS_ENOMEM, s)
                 else do {
                   let io = sp_io env;
                   let s = s\<lparr>sp_port := Some new_port\<rparr>;
                   let s = spi_set_endian io 1 (spi_clear_fifo io s);
                   s \<leftarrow> tls_spi_trans_type env SPI_BYTE_TRANSFER s;
                   let s = spi_set_mode io 0 s;
                   let s = spi_force_cs_out io 1 (spi_set_chipselect_mode io TLS_SPI_CS_HIGH s);
                   s \<leftarrow> spi_set_sclk io SPI_DEFAULT_SPEED s;
                   let s = spi_set_rx_trigger_level io 7 (spi_set_tx_trigger_level io 0 s);
                   let s = spi_set_tx_channel io 1 (spi_set_rx_channel io 1 s);
                   let s = irq_enable io SPI0_INT True (spi_unmask_int io SPI_INT_TRANSFER_DONE s);
                   Some (TLS_SPI_STATUS_OK, s\<lparr>dev := sp_irq_priority env SPI0_INT (dev s)\<rparr>) })"

definition tls_spi_exit :: int where
  "tls_spi_exit = TLS_SPI_STATUS_EPERM"

definition tls_spi_slave_sel :: "'d spi_env \<Rightarrow> nat \<Rightarrow> 'd spis \<Rightarrow> 'd spis" where
  "tls_spi_slave_sel env slave s =
    (let s = s\<lparr>dev := sp_gpio_cfg env 0 (dev s)\<rparr>
     in if slave = 0 then s\<lparr>dev := sp_gpio_write env 0 0 (dev s)\<rparr>
        else if slave = 1 then s\<lparr>dev := sp_gpio_write env 0 1 (dev s)\<rparr>
        else s)"

section \<open>Reading and writing\<close>

definition wr :: "bytes \<Rightarrow> u32 \<Rightarrow> tls_spi_transfer" where "wr b n = \<lparr>sp_tx = Some b, sp_rx = None, sp_len = n\<rparr>"
definition rd :: "bytes \<Rightarrow> u32 \<Rightarrow> tls_spi_transfer" where "rd b n = \<lparr>sp_tx = None, sp_rx = Some b, sp_len = n\<rparr>"

text \<open>The receive buffer of the last transfer that was done, or the buffer as it was.\<close>

definition received :: "bytes \<Rightarrow> tls_spi_transfer list \<Rightarrow> bytes" where
  "received b ts = (if ts = [] then b else case sp_rx (last ts) of Some r \<Rightarrow> r | None \<Rightarrow> b)"

definition in_dma_mode :: "'d spis \<Rightarrow> bool option" where
  "in_dma_mode s = map_option (\<lambda>p. transtype p = SPI_DMA_TRANSFER) (sp_port s)"

definition short_transfer :: "'d spi_env \<Rightarrow> u32 option \<Rightarrow> u32 \<Rightarrow> 'd spis \<Rightarrow> (u32 \<times> 'd spis) option" where
  "short_transfer env w len s = do {
     let io = sp_io env;
     s \<leftarrow> clear_fifos io s;
     let s = (case w of Some w \<Rightarrow> reg_set io HR_SPI_TXDATA_REG w s | None \<Rightarrow> s);
     let s = reg_set io HR_SPI_CHCFG_REG (SPI_FORCE_SPI_CS_OUT OR SPI_CS_LOW OR SPI_TX_CHANNEL_ON OR SPI_RX_CHANNEL_ON OR SPI_CONTINUE_MODE
               OR SPI_START OR SPI_VALID_CLKS_NUM (8 * len)) s;
     let (_, s) = spiWaitIdle io s;
     let s = reg_upd io HR_SPI_CHCFG_REG (\<lambda>v. v OR SPI_CS_HIGH) s;
     let (r, s) = (if w = None then reg_get io HR_SPI_RXDATA_REG s else (0, s));
     let s = reg_set io HR_SPI_CHCFG_REG 0 s;
     Some (r, reg_set io HR_SPI_MODECFG_REG 0 s) }"

text \<open>The results of the block transfers are ignored.\<close>

definition tls_spi_read :: "'d spi_env \<Rightarrow> bytes option \<Rightarrow> u32 \<Rightarrow> spi_event list \<Rightarrow> 'd spis \<Rightarrow> (int \<times> bytes option \<times> 'd spis) option" where
  "tls_spi_read env buf len evs s =
    (case buf of
       None \<Rightarrow> Some (TLS_SPI_STATUS_EINVAL, buf, s)
     | Some b \<Rightarrow>
        (if len = 0 then Some (TLS_SPI_STATUS_EINVAL, buf, s)
         else do {
           dma \<leftarrow> in_dma_mode s;
           if \<not> dma then do {
             (r, ts, s) \<leftarrow> tls_spi_sync env [rd b len] evs s;
             Some (r, Some (received b ts), s) }
           else do {
             s \<leftarrow> lock_take s;
             if len \<le> 4 then do {
               (w, s) \<leftarrow> short_transfer env None len s;
               if unat len > length b then None
               else Some (TLS_SPI_STATUS_OK, Some (bsplice 0 (take (unat len) (le32 w)) b), lock_give s) }
             else if len > SPI_DMA_BUF_MAX_SIZE then Some (TLS_SPI_STATUS_EINVAL, buf, lock_give s)
             else do {
               (_, s) \<leftarrow> SpiDmaBlockRead env SPI_DMA_BUF_ADDR len 0 0 s;
               if unat len > length b then None
               else Some (TLS_SPI_STATUS_OK, Some (bsplice 0 (sp_peek env SPI_DMA_BUF_ADDR (unat len) (dev s)) b), lock_give s) } } }))"

definition tls_spi_write :: "'d spi_env \<Rightarrow> bytes option \<Rightarrow> u32 \<Rightarrow> spi_event list \<Rightarrow> 'd spis \<Rightarrow> (int \<times> 'd spis) option" where
  "tls_spi_write env buf len evs s =
    (case buf of
       None \<Rightarrow> Some (TLS_SPI_STATUS_EINVAL, s)
     | Some b \<Rightarrow>
        (if len = 0 then Some (TLS_SPI_STATUS_EINVAL, s)
         else do {
           dma \<leftarrow> in_dma_mode s;
           if \<not> dma then do {
             (r, _, s) \<leftarrow> tls_spi_sync env [wr b len] evs s;
             Some (r, s) }
           else do {
             s \<leftarrow> lock_take s;
             if unat len > length b then None
             else if len \<le> 4 then do {
               (_, s) \<leftarrow> short_transfer env (Some (pack SPI_WORD_TRANSFER (take (unat len) b))) len s;
               Some (TLS_SPI_STATUS_OK, lock_give s) }
             else if len > SPI_DMA_BUF_MAX_SIZE then Some (TLS_SPI_STATUS_EINVAL, lock_give s)
             else do {
               (_, s) \<leftarrow> SpiDmaBlockWrite env SPI_DMA_BUF_ADDR len False 0 (s\<lparr>dev := sp_poke env SPI_DMA_BUF_ADDR (take (unat len) b) (dev s)\<rparr>);
               Some (TLS_SPI_STATUS_OK, lock_give s) } } }))"

definition tls_spi_read_with_cmd ::
    "'d spi_env \<Rightarrow> bytes option \<Rightarrow> u32 \<Rightarrow> bytes option \<Rightarrow> u32 \<Rightarrow> spi_event list \<Rightarrow> 'd spis \<Rightarrow> (int \<times> bytes option \<times> 'd spis) option" where
  "tls_spi_read_with_cmd env txbuf n_tx rxbuf n_rx evs s =
    (case (txbuf, rxbuf) of
       (Some tx, Some rx) \<Rightarrow>
         (if n_tx = 0 \<or> n_rx = 0 then Some (TLS_SPI_STATUS_EINVAL, rxbuf, s)
          else do {
            dma \<leftarrow> in_dma_mode s;
            if \<not> dma then do {
              (r, ts, s) \<leftarrow> tls_spi_sync env [wr tx n_tx, rd rx n_rx] evs s;
              Some (r, Some (received rx ts), s) }
            else if n_rx > SPI_DMA_BUF_MAX_SIZE \<or> n_tx > SPI_DMA_CMD_MAX_SIZE then Some (TLS_SPI_STATUS_EINVAL, rxbuf, s)
            else if unat n_tx > length tx \<or> unat n_rx > length rx then None
            else do {
              s \<leftarrow> lock_take s;
              (_, s) \<leftarrow> SpiDmaBlockRead env SPI_DMA_BUF_ADDR n_rx SPI_DMA_CMD_ADDR (ucast n_tx)
                          (s\<lparr>dev := sp_poke env SPI_DMA_CMD_ADDR (take (unat n_tx) tx) (dev s)\<rparr>);
              Some (TLS_SPI_STATUS_OK, Some (bsplice 0 (sp_peek env SPI_DMA_BUF_ADDR (unat n_rx) (dev s)) rx), lock_give s) } })
     | _ \<Rightarrow> Some (TLS_SPI_STATUS_EINVAL, rxbuf, s))"

text \<open>Command and data share the buffer, whose size is tested for the data alone.\<close>

definition tls_spi_write_with_cmd ::
    "'d spi_env \<Rightarrow> bytes option \<Rightarrow> u32 \<Rightarrow> bytes option \<Rightarrow> u32 \<Rightarrow> spi_event list \<Rightarrow> 'd spis \<Rightarrow> (int \<times> 'd spis) option" where
  "tls_spi_write_with_cmd env cmd n_cmd txbuf n_tx evs s =
    (case (cmd, txbuf) of
       (Some c, Some tx) \<Rightarrow>
         (if n_cmd = 0 \<or> n_tx = 0 then Some (TLS_SPI_STATUS_EINVAL, s)
          else do {
            dma \<leftarrow> in_dma_mode s;
            if \<not> dma then do {
              (r, _, s) \<leftarrow> tls_spi_sync env [wr c n_cmd, wr tx n_tx] evs s;
              Some (r, s) }
            else if n_tx > SPI_DMA_BUF_MAX_SIZE then Some (TLS_SPI_STATUS_EINVAL, s)
            else if unat n_cmd > length c \<or> unat n_tx > length tx then None
            else do {
              s \<leftarrow> lock_take s;
              let s = s\<lparr>dev := sp_poke env SPI_DMA_BUF_ADDR (take (unat n_cmd) c) (dev s)\<rparr>;
              let s = s\<lparr>dev := sp_poke env (SPI_DMA_BUF_ADDR + n_cmd) (take (unat n_tx) tx) (dev s)\<rparr>;
              (_, s) \<leftarrow> SpiDmaBlockWrite env SPI_DMA_BUF_ADDR (n_cmd + n_tx) False 0 s;
              Some (TLS_SPI_STATUS_OK, lock_give s) } })
     | _ \<Rightarrow> Some (TLS_SPI_STATUS_EINVAL, s))"

end
