(* ===== verification/Hostspi_Props.thy ===== *)
theory Hostspi_Props
  imports Hostspi_Run Hostspi_Api
begin

text \<open>
  The properties of the SPI master: messages and the calls of an application in FIFO mode, installation, the mode bits,
  and the clocks of transfers by DMA.
\<close>

section \<open>Messages\<close>

definition sd_env :: "shifter spi_env" where
  "sd_env = \<lparr>sp_io = sd_io, sp_delay = (\<lambda>_ d. d), sp_heap = zero_heap, sp_create = (\<lambda>_ d. (True, d)), sp_peek = (\<lambda>_ n _. replicate n 0),
     sp_poke = (\<lambda>_ _ d. d), sp_gpio_cfg = (\<lambda>_ d. d), sp_gpio_write = (\<lambda>_ _ d. d), sp_irq_priority = (\<lambda>_ d. d)\<rparr>"

lemma sd_env_simps [simp]: "sp_io sd_env = sd_io" "sp_create sd_env k d = (True, d)" "sp_heap sd_env = zero_heap" "sp_irq_priority sd_env i d = d"
  by (simp_all add: sd_env_def)

text \<open>A driver with nothing to do, and a slave that answers each byte with the number of bytes it got before.\<close>

definition count_slave :: "bytes \<Rightarrow> u8 \<Rightarrow> u8" where "count_slave h x = word_of_nat (length h)"

definition sd_idle :: "u8 \<Rightarrow> shifter spis" where
  "sd_idle ty = \<lparr>dev = \<lparr>sh_ch = 0x180000, sh_cfg = (if ty = SPI_BYTE_TRANSFER then 8 else 0), sh_txq = [], sh_rxq = [], sh_out = [], sh_slave = count_slave,
     sh_done = False, sh_mask = 0xBF, sh_regs = (\<lambda>_. 2)\<rparr>, dma_context = dma_context (dma_boot ()), channels = channels (dma_boot ()),
     sp_port = Some (new_port\<lparr>transtype := ty\<rparr>), sp_msgs = [], sp_allocs = 0\<rparr>"

lemma sd_idle_idle: "ty = SPI_BYTE_TRANSFER \<or> ty = SPI_WORD_TRANSFER \<Longrightarrow> idle ty count_slave (\<lambda>d. d) [] (sd_idle ty)"
  by (auto simp: idle_def sd_idle_def port_state_def new_port_def settled_def ch_ok_def in_order_def SPI_BYTE_TRANSFER_def SPI_WORD_TRANSFER_def spi_bits bit_simps)



section \<open>Calls of an application\<close>



section \<open>Installation\<close>

lemma sd_upd: "reg_upd sd_io a f s = s\<lparr>dev := sd_write a (f (fst (sd_read a (dev s)))) (snd (sd_read a (dev s)))\<rparr>"
  by (simp add: reg_upd_def reg_get_def reg_set_def split_beta)

lemma sd_upd_ch:
  "\<not> bit (f (sh_ch (dev s))) 0 \<Longrightarrow> \<not> bit (f (sh_ch (dev s))) 22 \<Longrightarrow> reg_upd sd_io HR_SPI_CHCFG_REG f s = s\<lparr>dev := (dev s)\<lparr>sh_ch := f (sh_ch (dev s))\<rparr>\<rparr>"
proof -
  let ?v = "f (sh_ch (dev s))"
  assume b: "\<not> bit ?v 0" "\<not> bit ?v 22"
  then have "?v AND SPI_START = 0" "?v AND SPI_CLEAR_FIFOS = 0" "?v AND NOT (SPI_START OR SPI_CLEAR_FIFOS) = ?v"
    by - (rule u32_eqI, simp add: upt_32 spi_bits bit_simps)+
  then show ?thesis by (simp add: sd_upd sd_read_def sd_write_def)
qed

lemma sd_clear:
  assumes "\<not> bit (sh_ch (dev s)) 0" "\<not> bit (sh_ch (dev s)) 22"
  shows "spi_clear_fifo sd_io s = s\<lparr>dev := (dev s)\<lparr>sh_txq := [], sh_rxq := []\<rparr>\<rparr>"
proof -
  let ?c = "sh_ch (dev s)" and ?v = "sh_ch (dev s) OR SPI_CLEAR_FIFOS"
  have "?v AND SPI_START = 0" "?v AND NOT (SPI_START OR SPI_CLEAR_FIFOS) = ?c"
    using assms by - (rule u32_eqI, simp add: upt_32 spi_bits bit_simps)+
  moreover have "bit (?v AND SPI_CLEAR_FIFOS) 22" by (simp add: spi_bits bit_simps)
  then have "?v AND SPI_CLEAR_FIFOS \<noteq> 0" by (metis bit_0_eq bot_apply bot_bool_def)
  ultimately show ?thesis by (simp add: spi_clear_fifo_def sd_upd sd_read_def sd_write_def)
qed

lemma sd_upd_cfg: "reg_upd sd_io HR_SPI_SPICFG_REG f s = s\<lparr>dev := (dev s)\<lparr>sh_cfg := f (sh_cfg (dev s))\<rparr>\<rparr>"
  by (simp add: sd_upd sd_read_def sd_write_def spi_regs)

lemma sd_upd_mask: "reg_upd sd_io HR_SPI_INT_MASK_REG f s = s\<lparr>dev := (dev s)\<lparr>sh_mask := f (sh_mask (dev s))\<rparr>\<rparr>"
  by (simp add: sd_upd sd_read_def sd_write_def spi_regs)

lemma sd_plain:
  "sd_write HR_SPI_MODECFG_REG v x = x\<lparr>sh_regs := (sh_regs x)(HR_SPI_MODECFG_REG := v)\<rparr>" "sd_write HR_SPI_CLKCFG_REG v x = x\<lparr>sh_regs := (sh_regs x)(HR_SPI_CLKCFG_REG := v)\<rparr>"
  "sd_read HR_SPI_MODECFG_REG x = (sh_regs x HR_SPI_MODECFG_REG, x)" "sd_read HR_SPI_CLKCFG_REG x = (sh_regs x HR_SPI_CLKCFG_REG, x)"
  by (simp_all add: sd_write_def sd_read_def spi_regs)

lemma sd_upd_plain:
  "reg_upd sd_io HR_SPI_MODECFG_REG f s = s\<lparr>dev := (dev s)\<lparr>sh_regs := (sh_regs (dev s))(HR_SPI_MODECFG_REG := f (sh_regs (dev s) HR_SPI_MODECFG_REG))\<rparr>\<rparr>"
  "reg_upd sd_io HR_SPI_CLKCFG_REG f s = s\<lparr>dev := (dev s)\<lparr>sh_regs := (sh_regs (dev s))(HR_SPI_CLKCFG_REG := f (sh_regs (dev s) HR_SPI_CLKCFG_REG))\<rparr>\<rparr>"
  unfolding sd_upd sd_plain fst_conv snd_conv by (rule refl)+

lemma sd_apb:
  assumes "drop_bit 4 (sh_regs (dev s) HR_CLK_DIV_CTL) AND 0x0F \<noteq> 0" "sh_regs (dev s) HR_CLK_DIV_CTL AND 0x0F \<noteq> 0"
  shows "\<exists>apb. spi_apb sd_io s = Some (apb, s)"
proof -
  have r: "sd_read HR_CLK_DIV_CTL d = (sh_regs d HR_CLK_DIV_CTL, d)" for d by (simp add: sd_read_def spi_regs HR_CLK_DIV_CTL_def)
  obtain v where v: "v = sh_regs (dev s) HR_CLK_DIV_CTL" by simp
  have "tls_sys_clk_get sd_io (dev s) = Some (\<lparr>apbclk = 160 div 4 div (drop_bit 4 v AND 0x0F), cpuclk = 160 div (v AND 0x0F), wlanclk = 160 div (drop_bit 4 v AND 0x0F)\<rparr>, dev s)"
    using assms unfolding tls_sys_clk_get_def sd_simps r v [symmetric] by (simp only: Let_def prod.case) simp
  then show ?thesis by (simp add: spi_apb_def)
qed

lemma sd_sclk:
  assumes "drop_bit 4 (sh_regs (dev s) HR_CLK_DIV_CTL) AND 0x0F \<noteq> 0" "sh_regs (dev s) HR_CLK_DIV_CTL AND 0x0F \<noteq> 0" "fclk * 2 \<noteq> 0"
  shows "\<exists>v. spi_set_sclk sd_io fclk s = Some (s\<lparr>dev := (dev s)\<lparr>sh_regs := (sh_regs (dev s))(HR_SPI_CLKCFG_REG := v)\<rparr>\<rparr>)"
  using sd_apb [OF assms(1,2)] assms(3) by (auto simp: spi_set_sclk_def sd_upd_plain)

text \<open>What installation does to the registers, in its three parts.\<close>

lemma init_first:
  assumes "\<not> bit (sh_ch (dev s)) 0" "\<not> bit (sh_ch (dev s)) 22"
  shows "spi_set_endian sd_io 1 (spi_clear_fifo sd_io s) = s\<lparr>dev := (dev s)\<lparr>sh_txq := [], sh_rxq := [], sh_cfg := (sh_cfg (dev s) AND NOT 8) OR SPI_BIG_ENDIAN\<rparr>\<rparr>"
  by (simp add: sd_clear [OF assms] spi_set_endian_def sd_upd_cfg)

definition ch_first :: "u32 \<Rightarrow> u32" where "ch_first c = (((c AND NOT 4) OR SPI_CS_HIGH) OR SPI_FORCE_SPI_CS_OUT)"
definition ch_last :: "u32 \<Rightarrow> u32" where
  "ch_last c = (((((c AND NOT 0x100000) OR SPI_RX_CHANNEL_ON)) AND NOT 0x80000) OR SPI_TX_CHANNEL_ON)"

lemma init_second:
  assumes "\<not> bit (sh_ch (dev s)) 0" "\<not> bit (sh_ch (dev s)) 22"
  shows "spi_force_cs_out sd_io 1 (spi_set_chipselect_mode sd_io TLS_SPI_CS_HIGH (spi_set_mode sd_io 0 s))
    = s\<lparr>dev := (dev s)\<lparr>sh_cfg := (sh_cfg (dev s) AND NOT 3) OR (SPI_SET_CPOL 0 OR SPI_SET_CPHA 0), sh_ch := ch_first (sh_ch (dev s))\<rparr>\<rparr>"
proof -
  let ?c = "sh_ch (dev s)"
  have "\<not> bit ((?c AND NOT 4) OR SPI_CS_HIGH) 0" "\<not> bit ((?c AND NOT 4) OR SPI_CS_HIGH) 22" "\<not> bit (ch_first ?c) 0" "\<not> bit (ch_first ?c) 22"
    using assms by (simp_all add: ch_first_def spi_bits bit_simps)
  then show ?thesis
    by (simp add: spi_force_cs_out_def spi_set_chipselect_mode_def spi_set_mode_def sd_upd_cfg TLS_SPI_CS_HIGH_def sd_upd_ch ch_first_def)
qed

lemma init_levels: "\<exists>r. spi_set_rx_trigger_level sd_io 7 (spi_set_tx_trigger_level sd_io 0 s) = s\<lparr>dev := (dev s)\<lparr>sh_regs := r\<rparr>\<rparr>"
  unfolding spi_set_rx_trigger_level_def spi_set_tx_trigger_level_def sd_upd_plain by (rule exI) simp

lemma init_third:
  assumes "\<not> bit (sh_ch (dev s)) 0" "\<not> bit (sh_ch (dev s)) 22"
  shows "spi_unmask_int sd_io SPI_INT_TRANSFER_DONE (spi_set_tx_channel sd_io 1 (spi_set_rx_channel sd_io 1 s))
    = s\<lparr>dev := (dev s)\<lparr>sh_ch := ch_last (sh_ch (dev s)), sh_mask := sh_mask (dev s) AND NOT (SPI_INT_TRANSFER_DONE AND SPI_INT_MASK_ALL)\<rparr>\<rparr>"
proof -
  let ?c = "sh_ch (dev s)"
  have "\<not> bit ((?c AND NOT 0x100000) OR SPI_RX_CHANNEL_ON) 0" "\<not> bit ((?c AND NOT 0x100000) OR SPI_RX_CHANNEL_ON) 22"
    "\<not> bit (ch_last ?c) 0" "\<not> bit (ch_last ?c) 22"
    using assms by (simp_all add: ch_last_def spi_bits bit_simps)
  then show ?thesis
    by (simp add: spi_set_tx_channel_def spi_set_rx_channel_def spi_unmask_int_def sd_upd_mask sd_upd_ch ch_last_def)
qed

lemma ch_init_ok: "\<not> bit c 0 \<Longrightarrow> \<not> bit c 22 \<Longrightarrow> ch_ok (ch_last (ch_first c)) \<and> \<not> bit (ch_first c) 0 \<and> \<not> bit (ch_first c) 22"
  by (simp add: ch_ok_def ch_first_def ch_last_def spi_bits bit_simps)

lemma init_settled:
  assumes "ch_ok (sh_ch x)" "sh_cfg x = (((c AND NOT 8) OR SPI_BIG_ENDIAN) AND NOT 3) OR (SPI_SET_CPOL 0 OR SPI_SET_CPHA 0)" "sh_txq x = []" "sh_rxq x = []"
    and "m AND 3 = 3" "sh_mask x = m AND NOT (SPI_INT_TRANSFER_DONE AND SPI_INT_MASK_ALL)"
  shows "settled SPI_BYTE_TRANSFER (sh_slave x) (sh_out x) [] x"
proof -
  have "bit (sh_cfg x AND SPI_BIG_ENDIAN) 3" unfolding assms(2) by (simp add: spi_bits bit_simps)
  then have "sh_cfg x AND SPI_BIG_ENDIAN \<noteq> 0" by (metis bit_0_eq bot_apply bot_bool_def)
  moreover have e: "bit (m AND 3) n = bit (3 :: u32) n" for n using assms(5) by simp
  have "bit m 0" "bit m 1" using e [of 0] e [of 1] by (simp_all add: bit_simps)
  then have "sh_mask x AND (SPI_INT_TX_FIFO_RDY OR SPI_INT_RX_FIFO_RDY OR SPI_INT_TRANSFER_DONE) = SPI_INT_TX_FIFO_RDY OR SPI_INT_RX_FIFO_RDY"
    unfolding assms(6) by - (rule u32_eqI, simp add: upt_32 spi_bits bit_simps)
  ultimately show ?thesis using assms(1,3,4) by (simp add: settled_def in_order_def)
qed

text \<open>C38. Installing the driver, when memory and the objects of the operating system are to be had, leaves it idle in byte mode,
  with the FIFOs empty, the most significant byte of a word first on the line, both directions on and the end of a
  transfer as its only interrupt, so that messages can be handed to it; a second installation is refused. When memory or
  an object is not to be had, the port stays null, and a message is refused.
\<close>

theorem spi_init_makes_idle:
  assumes "sp_port s = None" "sp_io env = sd_io" "\<And>d. sp_irq_priority env SPI0_INT d = d" "\<And>k d. snd (sp_create env k d) = d"
    and "\<not> bit (sh_ch (dev s)) 0" "\<not> bit (sh_ch (dev s)) 22" "sh_mask (dev s) AND 3 = 3"
    and "drop_bit 4 (sh_regs (dev s) HR_CLK_DIV_CTL) AND 0x0F \<noteq> 0" "sh_regs (dev s) HR_CLK_DIV_CTL AND 0x0F \<noteq> 0"
  shows "if sp_heap env (sp_allocs s) 52 \<noteq> None \<and> (\<forall>k \<in> {1, 2, 3}. fst (sp_create env k (dev s)))
    then \<exists>s'. tls_spi_init env s = Some (TLS_SPI_STATUS_OK, s') \<and> idle SPI_BYTE_TRANSFER (sh_slave (dev s)) (\<lambda>d. d) (sh_out (dev s)) s'
      \<and> tls_spi_init env s' = Some (TLS_SPI_STATUS_EBUSY, s')
    else \<exists>s'. tls_spi_init env s = Some (TLS_SPI_STATUS_ENOMEM, s') \<and> sp_port s' = None
      \<and> tls_spi_async m s' = Some (TLS_SPI_STATUS_ESHUTDOWN, s')"
proof (cases "sp_heap env (sp_allocs s) 52 \<noteq> None \<and> (\<forall>k \<in> {1, 2, 3}. fst (sp_create env k (dev s)))")
  case False
  have c: "sp_create env k (dev s) = (fst (sp_create env k (dev s)), dev s)" for k by (metis assms(4) prod.collapse)
  show ?thesis using False assms(1) c [of 1] c [of 2] c [of 3]
    by (auto simp: tls_spi_init_def tls_spi_async_def Let_def split: prod.splits)
next
  case True
  let ?s0 = "s\<lparr>sp_allocs := Suc (sp_allocs s), sp_port := Some new_port\<rparr>" and ?d = "dev s"
  have c: "sp_create env k ?d = (True, ?d)" if "k \<in> {1, 2, 3}" for k using True that assms(4) [of k ?d] by (metis prod.collapse)
  let ?d1 = "?d\<lparr>sh_txq := [], sh_rxq := [], sh_cfg := (sh_cfg ?d AND NOT 8) OR SPI_BIG_ENDIAN\<rparr>"
  let ?d2 = "?d1\<lparr>sh_cfg := (sh_cfg ?d1 AND NOT 3) OR (SPI_SET_CPOL 0 OR SPI_SET_CPHA 0), sh_ch := ch_first (sh_ch ?d)\<rparr>"
  have "SPI_DEFAULT_SPEED * 2 \<noteq> 0" by (simp add: SPI_DEFAULT_SPEED_def)
  then obtain v where v: "spi_set_sclk sd_io SPI_DEFAULT_SPEED (?s0\<lparr>dev := ?d2\<rparr>) = Some (?s0\<lparr>dev := ?d2\<lparr>sh_regs := (sh_regs ?d2)(HR_SPI_CLKCFG_REG := v)\<rparr>\<rparr>)"
    using sd_sclk [of "?s0\<lparr>dev := ?d2\<rparr>" SPI_DEFAULT_SPEED] assms(8,9) by auto
  let ?d3 = "?d2\<lparr>sh_regs := (sh_regs ?d2)(HR_SPI_CLKCFG_REG := v)\<rparr>"
  obtain r where r: "spi_set_rx_trigger_level sd_io 7 (spi_set_tx_trigger_level sd_io 0 (?s0\<lparr>dev := ?d3\<rparr>)) = ?s0\<lparr>dev := ?d3\<lparr>sh_regs := r\<rparr>\<rparr>"
    using init_levels [of "?s0\<lparr>dev := ?d3\<rparr>"] by auto
  let ?x = "?d3\<lparr>sh_regs := r, sh_ch := ch_last (ch_first (sh_ch ?d)), sh_mask := sh_mask ?d AND NOT (SPI_INT_TRANSFER_DONE AND SPI_INT_MASK_ALL)\<rparr>"
  note ch = ch_init_ok [OF assms(5,6)]
  have p1: "spi_set_endian sd_io 1 (spi_clear_fifo sd_io ?s0) = ?s0\<lparr>dev := ?d1\<rparr>" using init_first [of ?s0] assms(5,6) by simp
  have p2: "tls_spi_trans_type env SPI_BYTE_TRANSFER (?s0\<lparr>dev := ?d1\<rparr>) = Some (?s0\<lparr>dev := ?d1\<rparr>)"
    by (simp add: tls_spi_trans_type_def on_spi_def new_port_def SPI_BYTE_TRANSFER_def SPI_WORD_TRANSFER_def SPI_DMA_TRANSFER_def)
  have p3: "spi_force_cs_out sd_io 1 (spi_set_chipselect_mode sd_io TLS_SPI_CS_HIGH (spi_set_mode sd_io 0 (?s0\<lparr>dev := ?d1\<rparr>))) = ?s0\<lparr>dev := ?d2\<rparr>"
    using init_second [of "?s0\<lparr>dev := ?d1\<rparr>"] assms(5,6) by simp
  have p4: "spi_unmask_int sd_io SPI_INT_TRANSFER_DONE (spi_set_tx_channel sd_io 1 (spi_set_rx_channel sd_io 1 (?s0\<lparr>dev := ?d3\<lparr>sh_regs := r\<rparr>\<rparr>))) = ?s0\<lparr>dev := ?x\<rparr>"
    using init_third [of "?s0\<lparr>dev := ?d3\<lparr>sh_regs := r\<rparr>\<rparr>"] ch by simp
  obtain b where "sp_heap env (sp_allocs s) 52 = Some b" using True by auto
  then have "tls_spi_init env s = Some (TLS_SPI_STATUS_OK, ?s0\<lparr>dev := ?x\<rparr>)"
    using assms(1-3) c [of 1] c [of 2] c [of 3] p1 p2 p3 v r p4
    by (simp add: tls_spi_init_def irq_enable_def Let_def del: One_nat_def)
  moreover have "settled SPI_BYTE_TRANSFER (sh_slave ?x) (sh_out ?x) [] ?x"
    by (rule init_settled [where m = "sh_mask ?d" and c = "sh_cfg ?d"]) (use ch assms(7) in simp_all)
  then have "idle SPI_BYTE_TRANSFER (sh_slave ?d) (\<lambda>d. d) (sh_out ?d) (?s0\<lparr>dev := ?x\<rparr>)"
    by (simp add: idle_def port_state_def new_port_def SPI_BYTE_TRANSFER_def)
  moreover have "tls_spi_init env (?s0\<lparr>dev := ?x\<rparr>) = Some (TLS_SPI_STATUS_EBUSY, ?s0\<lparr>dev := ?x\<rparr>)" by (simp add: tls_spi_init_def)
  ultimately show ?thesis unfolding if_P [OF True] by (intro exI [of _ "?s0\<lparr>dev := ?x\<rparr>"] conjI)
qed

text \<open>The port that was installed carries a message at once.\<close>

definition sd_boot :: "shifter spis" where
  "sd_boot = \<lparr>dev = \<lparr>sh_ch = 0, sh_cfg = 0, sh_txq = [], sh_rxq = [5], sh_out = [], sh_slave = count_slave, sh_done = False, sh_mask = 0xFF, sh_regs = (\<lambda>_. 0x22)\<rparr>,
     dma_context = dma_context (dma_boot ()), channels = channels (dma_boot ()), sp_port = None, sp_msgs = [], sp_allocs = 0\<rparr>"

theorem spi_init_makes_idle_witness:
  "\<exists>s'. tls_spi_init sd_env sd_boot = Some (TLS_SPI_STATUS_OK, s') \<and> idle SPI_BYTE_TRANSFER count_slave (\<lambda>d. d) [] s' \<and> tls_spi_init sd_env s' = Some (TLS_SPI_STATUS_EBUSY, s')"
proof -
  have p: "sp_port sd_boot = None" "\<not> bit (sh_ch (dev sd_boot)) 0" "\<not> bit (sh_ch (dev sd_boot)) 22" "sh_mask (dev sd_boot) AND 3 = 3"
    "drop_bit 4 (sh_regs (dev sd_boot) HR_CLK_DIV_CTL) AND 0x0F \<noteq> 0" "sh_regs (dev sd_boot) HR_CLK_DIV_CTL AND 0x0F \<noteq> 0"
    "sh_slave (dev sd_boot) = count_slave" "sh_out (dev sd_boot) = []"
    by (simp_all add: sd_boot_def)
  have c: "sp_heap sd_env (sp_allocs sd_boot) 52 \<noteq> None \<and> (\<forall>k \<in> {1, 2, 3}. fst (sp_create sd_env k (dev sd_boot)))" by (simp add: zero_heap_def)
  have "snd (sp_create sd_env k d) = d" for k d by simp
  from spi_init_makes_idle [OF p(1) sd_env_simps(1,4) this p(2-6), of None] show ?thesis unfolding if_P [OF c] p(7,8) .
qed

section \<open>Modes\<close>

lemma sd_clear_fifos: "\<exists>x. clear_fifos sd_io s = Some (s\<lparr>dev := x\<rparr>) \<and> sh_regs x = sh_regs (dev s)"
proof -
  have "SPI_CLEAR_FIFOS AND SPI_START = 0" "SPI_CLEAR_FIFOS \<noteq> 0" "SPI_CLEAR_FIFOS AND NOT (SPI_START OR SPI_CLEAR_FIFOS) = 0" by (simp_all add: spi_bits)
  then have "sd_write HR_SPI_CHCFG_REG SPI_CLEAR_FIFOS (dev s) = (dev s)\<lparr>sh_ch := 0, sh_txq := [], sh_rxq := []\<rparr>" by (simp add: sd_write_def)
  then have "clear_fifos sd_io s = Some (s\<lparr>dev := (dev s)\<lparr>sh_ch := 0, sh_txq := [], sh_rxq := []\<rparr>\<rparr>)"
    by (simp add: clear_fifos_def reg_set_def, subst wait_cleared.simps) (simp add: reg_get_def sd_read_def)
  then show ?thesis by (intro exI [of _ "(dev s)\<lparr>sh_ch := 0, sh_txq := [], sh_rxq := []\<rparr>"]) simp
qed

lemma sh_cfg_write: "sh_cfg (sd_write a v x) = (if a = HR_SPI_SPICFG_REG then v else sh_cfg x)"
  by (auto simp: sd_write_def run_clock_def Let_def spi_regs)

lemma SpiMasterInit_cfg:
  assumes "drop_bit 4 (sh_regs (dev s) HR_CLK_DIV_CTL) AND 0x0F \<noteq> 0" "sh_regs (dev s) HR_CLK_DIV_CTL AND 0x0F \<noteq> 0" "fclk * 2 \<noteq> 0"
  shows "\<exists>s'. SpiMasterInit sd_io m cs fclk s = Some s' \<and> sh_cfg (dev s') = push_bit 2 1 OR ucast m"
proof -
  obtain x where x: "clear_fifos sd_io s = Some (s\<lparr>dev := x\<rparr>)" "sh_regs x = sh_regs (dev s)" using sd_clear_fifos by blast
  then obtain apb where "spi_apb sd_io (s\<lparr>dev := x\<rparr>) = Some (apb, s\<lparr>dev := x\<rparr>)" using sd_apb [of "s\<lparr>dev := x\<rparr>"] assms(1,2) by auto
  then show ?thesis using x(1) assms(3)
    by (simp add: SpiMasterInit_def tls_dma_init_def reg_set_def sh_cfg_write) (simp add: spi_regs HR_DMA_INT_MASK_def HR_DMA_INT_SRC_def)
qed

text \<open>
  The polarity of a mode is the higher of its two bits, the phase the lower. In FIFO mode \<open>spi_set_mode\<close> puts the polarity
  into bit 0 of the configuration register and the phase into bit 1. \<open>SpiMasterInit\<close>, which does the same for transfers by DMA, puts
  the mode itself there: bit 0 is the phase and bit 1 the polarity. So the two agree for modes 0 and 3 and swap modes 1 and 2.
\<close>

theorem spi_modes_swapped:
  assumes "m \<le> 3" "drop_bit 4 (sh_regs (dev s) HR_CLK_DIV_CTL) AND 0x0F \<noteq> 0" "sh_regs (dev s) HR_CLK_DIV_CTL AND 0x0F \<noteq> 0" "fclk * 2 \<noteq> 0"
    and "fifo = sh_cfg (dev (spi_set_mode sd_io m s))"
  shows "bit fifo 0 = bit m 1 \<and> bit fifo 1 = bit m 0
    \<and> (\<exists>s'. SpiMasterInit sd_io m cs fclk s = Some s' \<and> bit (sh_cfg (dev s')) 0 = bit m 0 \<and> bit (sh_cfg (dev s')) 1 = bit m 1
        \<and> (fifo AND 3 = sh_cfg (dev s') AND 3) = (m = 0 \<or> m = 3))"
proof -
  have m: "m = 0 \<or> m = 1 \<or> m = 2 \<or> m = 3" using assms(1) by (auto simp: word_le_nat_alt word_unat_eq_iff)
  obtain s' where s': "SpiMasterInit sd_io m cs fclk s = Some s'" "sh_cfg (dev s') = push_bit 2 1 OR ucast m" using SpiMasterInit_cfg [OF assms(2-4)] by blast
  have fifo: "fifo = (sh_cfg (dev s) AND NOT 3) OR (SPI_SET_CPOL (if bit m 1 then 1 else 0) OR SPI_SET_CPHA (if bit m 0 then 1 else 0))"
    using m assms(5) by (auto simp: spi_set_mode_def sd_upd_cfg)
  have b: "bit fifo 0 = bit m 1" "bit fifo 1 = bit m 0" "bit (sh_cfg (dev s')) 0 = bit m 0" "bit (sh_cfg (dev s')) 1 = bit m 1"
    using m by (auto simp: fifo s'(2) spi_bits bit_simps)
  have three: "(x AND 3 = y AND 3) = (bit x 0 = bit y 0 \<and> bit x 1 = bit y 1)" for x y :: u32
  proof
    assume "bit x 0 = bit y 0 \<and> bit x 1 = bit y 1" then show "x AND 3 = y AND 3" by - (rule u32_eqI, simp add: upt_32 bit_simps)
  next
    assume "x AND 3 = y AND 3" then have "bit (x AND 3) n = bit (y AND 3) n" for n by simp
    from this [of 0] this [of 1] show "bit x 0 = bit y 0 \<and> bit x 1 = bit y 1" by (simp add: bit_simps)
  qed
  have "(bit m 1 = bit m 0) = (m = 0 \<or> m = 3)" using m by auto
  then show ?thesis using s'(1) b three [of fifo "sh_cfg (dev s')"] by auto
qed

theorem spi_modes_swapped_witness:
  "bit (sh_cfg (dev (spi_set_mode sd_io 1 sd_boot))) 1 \<and> (\<exists>s'. SpiMasterInit sd_io 1 0 2000000 sd_boot = Some s' \<and> bit (sh_cfg (dev s')) 0)"
  using spi_modes_swapped [of 1 sd_boot 2000000 _ 0] by (auto simp: sd_boot_def)

end
