(* ===== verification/Hostspi_Dma.thy ===== *)
theory Hostspi_Dma
  imports Hostspi_Api
begin

text \<open>
  Transfers of the SPI master by DMA: how many clocks they ask the hardware for. The device keeps the writes to its
  registers, and reads as idle.
\<close>

section \<open>A device that keeps what is written\<close>

type_synonym wlog = "(u32 \<times> u32) list"

definition log_io :: "wlog regs" where
  "log_io = \<lparr>tls_reg_read32 = (\<lambda>_ d. (0, d)), tls_reg_write32 = (\<lambda>a v d. d @ [(a, v)]), tls_irq_switch = (\<lambda>_ _ d. d)\<rparr>"

definition log_env :: "wlog spi_env" where
  "log_env = \<lparr>sp_io = log_io, sp_delay = (\<lambda>_ d. d), sp_heap = zero_heap, sp_create = (\<lambda>_ d. (True, d)), sp_peek = (\<lambda>_ n _. replicate n 0),
     sp_poke = (\<lambda>_ _ d. d), sp_gpio_cfg = (\<lambda>_ d. d), sp_gpio_write = (\<lambda>_ _ d. d), sp_irq_priority = (\<lambda>_ d. d)\<rparr>"

text \<open>The values of the channel register that started the clock, and two of its fields: bits to clock, and bits to drop first.\<close>

definition starts :: "wlog \<Rightarrow> u32 list" where
  "starts l = map snd (filter (\<lambda>(a, v). a = HR_SPI_CHCFG_REG \<and> bit v 0) l)"

definition clocked :: "u32 \<Rightarrow> nat" where "clocked v = unat (drop_bit 3 v AND 0xFFFF)"
definition skipped :: "u32 \<Rightarrow> nat" where "skipped v = unat (drop_bit 23 v AND 0xFF)"

lemma log_regs [simp]:
  "sp_io log_env = log_io" "sp_delay log_env n d = d" "sp_poke log_env a b d = d" "sp_peek log_env a n d = replicate n 0"
  "reg_get log_io a s = (0, s)" "reg_set log_io a v s = s\<lparr>dev := dev s @ [(a, v)]\<rparr>" "reg_upd log_io a f s = s\<lparr>dev := dev s @ [(a, f 0)]\<rparr>"
  by (simp_all add: log_env_def log_io_def reg_get_def reg_set_def reg_upd_def)

lemma starts_append [simp]: "starts (xs @ ys) = starts xs @ starts ys" "starts [] = []"
  "starts ((a, v) # l) = (if a = HR_SPI_CHCFG_REG \<and> bit v 0 then v # starts l else starts l)"
  by (simp_all add: starts_def)

lemma log_waits [simp]: "spiWaitIdle log_io s = (0, s)" "tls_dma_wait_complt log_io w ch s = (0, s)" "wait_block log_env ch s = (0, s)"
proof -
  show i: "spiWaitIdle log_io s = (0, s)" by (simp add: spiWaitIdle_def, subst wait_idle.simps) (simp add: TLS_SPI_STATUS_OK_def)
  show w: "tls_dma_wait_complt log_io w ch s = (0, s)" for w ch by (simp add: tls_dma_wait_complt_def, subst wait_complt.simps) simp
  show "wait_block log_env ch s = (0, s)" by (simp add: wait_block_def i w TLS_SPI_STATUS_OK_def)
qed

text \<open>From \<open>s\<close> to \<open>s'\<close> the clock was started with the values \<open>vs\<close>, and the port is as it was.\<close>

definition began :: "wlog spis \<Rightarrow> u32 list \<Rightarrow> wlog spis \<Rightarrow> bool" where
  "began s vs s' \<longleftrightarrow> sp_port s' = sp_port s \<and> starts (dev s') = starts (dev s) @ vs"

lemma began_trans: "began s vs s1 \<Longrightarrow> began s1 ws s2 \<Longrightarrow> began s (vs @ ws) s2"
  by (simp add: began_def)

lemma began_write [simp]: "began s (if a = HR_SPI_CHCFG_REG \<and> bit v 0 then [v] else []) (s\<lparr>dev := dev s @ [(a, v)]\<rparr>)"
  by (simp add: began_def)

lemma log_clear: "\<exists>s'. clear_fifos log_io s = Some s' \<and> began s [] s'"
  by (simp add: clear_fifos_def, subst wait_cleared.simps) (simp add: SPI_CLEAR_FIFOS_def began_def)

lemma log_request: "\<exists>ch s'. tls_dma_request log_io 1 fl s = (ch, s') \<and> (ch = 0 \<or> ch = 1) \<and> began s [] s'"
  by (auto simp: tls_dma_request_def dma_regs HR_SPI_CHCFG_REG_def Let_def began_def)

lemma log_start: "ch = 0 \<or> ch = 1 \<Longrightarrow> \<exists>s'. tls_dma_start log_io ch (Some desc) False s = Some (0, s') \<and> began s [] s'"
  by (auto simp: tls_dma_start_def dma_regs HR_SPI_CHCFG_REG_def Let_def began_def)

lemma log_free: "ch = 0 \<or> ch = 1 \<Longrightarrow> \<exists>s'. tls_dma_free log_io ch s = Some s' \<and> began s [] s'"
  by (auto simp: tls_dma_free_def tls_dma_stop_def dma_regs HR_SPI_CHCFG_REG_def Let_def began_def)

section \<open>The fields of the channel register\<close>

definition DMA_RX :: u32 where "DMA_RX = SPI_FORCE_SPI_CS_OUT OR SPI_RX_CHANNEL_ON OR SPI_CONTINUE_MODE OR SPI_START"
definition DMA_TX :: u32 where "DMA_TX = SPI_FORCE_SPI_CS_OUT OR SPI_TX_CHANNEL_ON OR SPI_CONTINUE_MODE OR SPI_START"
definition DMA_BOTH :: u32 where "DMA_BOTH = SPI_FORCE_SPI_CS_OUT OR SPI_RX_CHANNEL_ON OR SPI_TX_CHANNEL_ON OR SPI_CONTINUE_MODE OR SPI_START"

lemma fields:
  assumes "n < 65536"
  shows "clocked (DMA_RX OR SPI_VALID_CLKS_NUM n) = unat n" "clocked (DMA_TX OR SPI_VALID_CLKS_NUM n) = unat n"
    "clocked (DMA_BOTH OR SPI_VALID_CLKS_NUM n OR SPI_RX_INVALID_BITS k) = unat n" "skipped (DMA_BOTH OR SPI_VALID_CLKS_NUM n OR SPI_RX_INVALID_BITS k) = unat (k AND 0xFF)"
proof -
  have n: "\<not> bit n i" if "16 \<le> i" for i
  proof -
    have "take_bit 16 n = n" using assms by (simp add: take_bit_eq_mod mod_word_less)
    then show ?thesis using bit_take_bit_iff [of 16 n i] that by simp
  qed
  have "drop_bit 3 (DMA_RX OR SPI_VALID_CLKS_NUM n) AND 0xFFFF = n" "drop_bit 3 (DMA_TX OR SPI_VALID_CLKS_NUM n) AND 0xFFFF = n"
    "drop_bit 3 (DMA_BOTH OR SPI_VALID_CLKS_NUM n OR SPI_RX_INVALID_BITS k) AND 0xFFFF = n"
    "drop_bit 23 (DMA_BOTH OR SPI_VALID_CLKS_NUM n OR SPI_RX_INVALID_BITS k) AND 0xFF = k AND 0xFF"
    by (rule u32_eqI, simp add: upt_32 DMA_RX_def DMA_TX_def DMA_BOTH_def spi_bits bit_simps n)+
  then show "clocked (DMA_RX OR SPI_VALID_CLKS_NUM n) = unat n" "clocked (DMA_TX OR SPI_VALID_CLKS_NUM n) = unat n"
    "clocked (DMA_BOTH OR SPI_VALID_CLKS_NUM n OR SPI_RX_INVALID_BITS k) = unat n" "skipped (DMA_BOTH OR SPI_VALID_CLKS_NUM n OR SPI_RX_INVALID_BITS k) = unat (k AND 0xFF)"
    by (simp_all add: clocked_def skipped_def)
qed

lemma started: "bit (DMA_RX OR x) 0" "bit (DMA_TX OR x) 0" "bit (DMA_BOTH OR x) 0"
  by (simp_all add: DMA_RX_def DMA_TX_def DMA_BOTH_def spi_bits bit_simps)

section \<open>Sizes\<close>

lemma words_of: "unat (if len mod 4 \<noteq> 0 then len AND 0xFFFFFFFC else len) = unat len - unat len mod 4" for len :: u32
proof -
  have m: "len mod 4 = take_bit 2 len" by (simp add: take_bit_eq_mod)
  have "len - take_bit 2 len = len AND NOT (take_bit 2 len)" by (rule disjunctive_diff) (simp add: bit_take_bit_iff)
  also have "\<dots> = len AND 0xFFFFFFFC" by (rule u32_eqI) (simp add: upt_32 bit_simps)
  finally have "(if len mod 4 \<noteq> 0 then len AND 0xFFFFFFFC else len) = len - len mod 4" using m by (cases "take_bit 2 len = 0") simp_all
  moreover have "unat (len - len mod 4) = unat len - unat (len mod 4)"
    by (rule unat_sub) (simp add: word_le_nat_alt unat_mod)
  ultimately show ?thesis by (simp add: unat_mod)
qed

lemma unat_times: "unat a * k < 2 ^ 32 \<Longrightarrow> k < 2 ^ 32 \<Longrightarrow> unat (a * word_of_nat k) = unat a * k" for a :: u32
  by (simp add: unat_word_ariths u32_unat_of_nat)

lemma put_command_began: "\<exists>s'. put_command log_io bs s = s' \<and> began s [] s'"
  by (induction log_io bs s rule: put_command.induct) (auto simp: began_def spi_regs)

section \<open>Reading\<close>

definition read_start :: "u32 \<Rightarrow> u32 \<Rightarrow> u32 \<Rightarrow> u32 \<Rightarrow> nat \<Rightarrow> nat \<Rightarrow> u32" where
  "read_start len txlen rxlenbk blocksize blocknum i =
    (if blocknum = 0 then DMA_BOTH OR SPI_VALID_CLKS_NUM ((len + txlen) * 8) OR SPI_RX_INVALID_BITS (txlen * 8)
     else if i = 0 then DMA_BOTH OR SPI_VALID_CLKS_NUM ((blocksize + txlen) * 8) OR SPI_RX_INVALID_BITS (txlen * 8)
     else if i = blocknum then DMA_RX OR SPI_VALID_CLKS_NUM ((blocksize + len - rxlenbk) * 8)
     else DMA_RX OR SPI_VALID_CLKS_NUM (blocksize * 8))"

lemma read_step:
  assumes "ch = 0 \<or> ch = 1" "i \<le> blocknum" "bs = (if rxlenbk > 0 then (if rxlen > SPI_DMA_MAX_TRANS_SIZE then SPI_DMA_MAX_TRANS_SIZE else rxlen) else 0)"
    and "\<not> (rxlenbk > 0 \<and> bs = 0)"
  shows "\<exists>s'. read_blocks log_env ch data len txlen rxlen rxlenbk blocknum i s = read_blocks log_env ch data len txlen (rxlen - bs) rxlenbk blocknum (i + 1) s'
    \<and> began s [read_start len txlen rxlenbk bs blocknum i] s'"
proof -
  let ?desc = "dma_desc HR_SPI_RXDATA_REG (data + of_nat i * SPI_DMA_MAX_TRANS_SIZE) (4 OR 0x20 OR push_bit 7 bs)"
  obtain s1 where s1: "tls_dma_start log_io ch (Some ?desc) False s = Some (0, s1)" "began s [] s1" using log_start [OF assms(1)] by blast
  define s0 where "s0 = (if rxlenbk > 0 then s1 else s)"
  define mode where "mode = (if rxlenbk > 0 then SPI_RX_TRIGGER_LEVEL 0 OR SPI_TX_TRIGGER_LEVEL 0 OR SPI_RX_DMA_ON else SPI_RX_TRIGGER_LEVEL 0 OR SPI_TX_TRIGGER_LEVEL 0)"
  let ?v = "read_start len txlen rxlenbk bs blocknum i"
  let ?s2 = "s0\<lparr>dev := ((dev s0 @ [(HR_SPI_MODECFG_REG, mode)]) @ [(HR_SPI_TIMEOUT_REG, SPI_TIMER_EN OR SPI_TIME_OUT 0xFFFF)]) @ [(HR_SPI_CHCFG_REG, ?v)]\<rparr>"
  have "began s [] s0" using s1(2) by (simp add: s0_def began_def)
  moreover have "bit ?v 0" by (simp add: read_start_def started)
  ultimately have "began s [?v] ?s2" by (simp add: began_def spi_regs)
  moreover have "read_blocks log_env ch data len txlen rxlen rxlenbk blocknum i s = read_blocks log_env ch data len txlen (rxlen - bs) rxlenbk blocknum (i + 1) ?s2"
  proof (cases "rxlenbk > 0")
    case True
    then have e: "(if rxlen > SPI_DMA_MAX_TRANS_SIZE then SPI_DMA_MAX_TRANS_SIZE else rxlen) = bs" "bs \<noteq> 0" using assms(3,4) by simp_all
    show ?thesis using assms(2) s1(1) True e(2) unfolding read_start_def DMA_BOTH_def DMA_RX_def
      by (subst read_blocks.simps)
        (simp add: e(1) s0_def mode_def reg_timeout_def Let_def del: append_assoc split del: if_split)
  next
    case False
    then show ?thesis using assms(2,3)
      by (subst read_blocks.simps)
        (simp add: s0_def mode_def reg_timeout_def read_start_def DMA_BOTH_def DMA_RX_def or.assoc Let_def del: append_assoc)
  qed
  ultimately show ?thesis by blast
qed

lemma read_ends: "i > blocknum \<or> rxlenbk > 0 \<and> rxlen = 0 \<Longrightarrow> read_blocks log_env ch data len txlen rxlen rxlenbk blocknum i s = Some (TLS_SPI_STATUS_OK, s)"
  by (subst read_blocks.simps) (auto simp: SPI_DMA_MAX_TRANS_SIZE_def)

text \<open>One block, and two.\<close>

lemma read_one:
  assumes "ch = 0 \<or> ch = 1" "rxlen < SPI_DMA_MAX_TRANS_SIZE"
  shows "\<exists>s'. read_blocks log_env ch data len txlen rxlen rxlen 0 0 s = Some (TLS_SPI_STATUS_OK, s')
    \<and> began s [DMA_BOTH OR SPI_VALID_CLKS_NUM ((len + txlen) * 8) OR SPI_RX_INVALID_BITS (txlen * 8)] s'"
proof -
  have "\<not> (rxlen > 0 \<and> (if rxlen > 0 then (if rxlen > SPI_DMA_MAX_TRANS_SIZE then SPI_DMA_MAX_TRANS_SIZE else rxlen) else 0) = 0)"
    using assms(2) by auto
  from read_step [OF assms(1) _ refl this, of 0 0 data len txlen s] show ?thesis
    by (auto simp: read_ends read_start_def)
qed

lemma read_two:
  assumes "ch = 0 \<or> ch = 1" "SPI_DMA_MAX_TRANS_SIZE \<le> rxlen" "rxlen \<le> 2 * SPI_DMA_MAX_TRANS_SIZE"
  shows "\<exists>s'. read_blocks log_env ch data len txlen rxlen rxlen 1 0 s = Some (TLS_SPI_STATUS_OK, s')
    \<and> began s ((DMA_BOTH OR SPI_VALID_CLKS_NUM ((SPI_DMA_MAX_TRANS_SIZE + txlen) * 8) OR SPI_RX_INVALID_BITS (txlen * 8))
        # (if rxlen = SPI_DMA_MAX_TRANS_SIZE then [] else [DMA_RX OR SPI_VALID_CLKS_NUM ((rxlen - SPI_DMA_MAX_TRANS_SIZE + len - rxlen) * 8)])) s'"
proof -
  let ?M = SPI_DMA_MAX_TRANS_SIZE
  have M: "?M = 4092" "rxlen > 0" using assms(2) by (auto simp: SPI_DMA_MAX_TRANS_SIZE_def word_less_nat_alt word_le_nat_alt)
  have b: "?M = (if rxlen > 0 then (if rxlen > ?M then ?M else rxlen) else 0)" using M(2) assms(2) by auto
  have n: "\<not> (rxlen > 0 \<and> ?M = 0)" by (simp add: SPI_DMA_MAX_TRANS_SIZE_def)
  obtain s1 where s1: "read_blocks log_env ch data len txlen rxlen rxlen 1 0 s = read_blocks log_env ch data len txlen (rxlen - ?M) rxlen 1 1 s1"
    "began s [DMA_BOTH OR SPI_VALID_CLKS_NUM ((?M + txlen) * 8) OR SPI_RX_INVALID_BITS (txlen * 8)] s1"
    using read_step [OF assms(1) _ b n, of 0 1 data len txlen s] by (auto simp: read_start_def)
  show ?thesis
  proof (cases "rxlen = ?M")
    case True
    then show ?thesis using s1 M(2) read_ends by simp
  next
    case False
    have le: "rxlen - ?M \<le> ?M" "rxlen - ?M \<noteq> 0" using assms(2,3) False by (auto simp: word_le_nat_alt unat_sub_if' SPI_DMA_MAX_TRANS_SIZE_def)
    then have b2: "rxlen - ?M = (if rxlen > 0 then (if rxlen - ?M > ?M then ?M else rxlen - ?M) else 0)" using M(2) by auto
    obtain s2 where "read_blocks log_env ch data len txlen (rxlen - ?M) rxlen 1 1 s1 = Some (TLS_SPI_STATUS_OK, s2)"
      "began s1 [DMA_RX OR SPI_VALID_CLKS_NUM ((rxlen - ?M + len - rxlen) * 8)] s2"
      using read_step [OF assms(1) _ b2, of 1 1 data len txlen s1] le(2) by (auto simp: read_start_def read_ends)
    then show ?thesis using s1 False began_trans [OF s1(2)] by fastforce
  qed
qed

lemma block_read_starts:
  assumes "data \<noteq> 0" "unat len \<le> 8160" "rx = (if len mod 4 \<noteq> 0 then len AND 0xFFFFFFFC else len)"
    and "first = DMA_BOTH OR SPI_VALID_CLKS_NUM (((if rx < SPI_DMA_MAX_TRANS_SIZE then len else SPI_DMA_MAX_TRANS_SIZE) + ucast txlen) * 8) OR SPI_RX_INVALID_BITS (ucast txlen * 8)"
    and "rest = (if rx \<le> SPI_DMA_MAX_TRANS_SIZE then [] else [DMA_RX OR SPI_VALID_CLKS_NUM ((rx - SPI_DMA_MAX_TRANS_SIZE + len - rx) * 8)])"
  shows "\<exists>s'. SpiDmaBlockRead log_env data len txdata txlen s = Some (TLS_SPI_STATUS_OK, s') \<and> began s (first # rest) s'"
proof -
  let ?M = SPI_DMA_MAX_TRANS_SIZE and ?cmd = "\<lambda>s. if txlen > 0 \<and> txlen \<le> 32 then put_command log_io (replicate (unat txlen) 0) s else s"
  have rx: "unat rx = unat len - unat len mod 4" unfolding assms(3) by (rule words_of)
  have bn: "unat (ucast (rx div ?M) :: u8) = (if rx < ?M then 0 else 1)"
  proof -
    have "unat (rx div ?M) = unat rx div 4092" by (simp add: unat_div SPI_DMA_MAX_TRANS_SIZE_def)
    moreover have "unat rx div 4092 = (if rx < ?M then 0 else 1)" using rx assms(2) by (auto simp: word_less_nat_alt SPI_DMA_MAX_TRANS_SIZE_def div_nat_eqI)
    ultimately show ?thesis by (simp add: unsigned_ucast_eq)
  qed
  obtain s1 where s1: "clear_fifos log_io s = Some s1" "began s [] s1" using log_clear by blast
  have s2: "began s1 [] (?cmd s1)" using put_command_began by (auto simp: began_def)
  obtain ch s3 where s3: "tls_dma_request log_io 1 (TLS_DMA_FLAGS_CHANNEL_SEL 4 OR TLS_DMA_FLAGS_HARD_MODE) (?cmd s1) = (ch, s3)" "ch = 0 \<or> ch = 1" "began (?cmd s1) [] s3"
    using log_request by blast
  obtain s4 where s4: "read_blocks log_env ch data len (ucast txlen) rx rx (unat (ucast (rx div ?M) :: u8)) 0 s3 = Some (TLS_SPI_STATUS_OK, s4)" "began s3 (first # rest) s4"
  proof (cases "rx < ?M")
    case True
    moreover have "rx \<le> ?M" using True by simp
    ultimately show ?thesis using that read_one [OF s3(2) True, of data len "ucast txlen" s3] bn assms(4,5) by auto
  next
    case False
    have "rx \<le> 2 * ?M" using rx assms(2) by (simp add: word_le_nat_alt SPI_DMA_MAX_TRANS_SIZE_def)
    moreover have "(rx \<le> ?M) = (rx = ?M)" "?M \<le> rx" using False by auto
    ultimately show ?thesis using that read_two [OF s3(2), of rx data len "ucast txlen" s3] False bn assms(4,5) by auto
  qed
  obtain s5 where s5: "tls_dma_free log_io ch s4 = Some s5" "began s4 [] s5" using log_free [OF s3(2)] by blast
  have b5: "began s (first # rest) s5" using s1(2) s2 s3(3) s4(2) s5(2) by (simp add: began_def)
  let ?s6 = "s5\<lparr>dev := ((dev s5 @ [(HR_SPI_CHCFG_REG, 0)]) @ [(HR_SPI_MODECFG_REG, 0)]) @ [(HR_SPI_TIMEOUT_REG, 0)]\<rparr>"
  have "began s (first # rest) ?s6" using b5 by (simp add: began_def spi_regs)
  moreover have k1: "(if txlen > 0 \<and> txlen \<le> 32 then put_command log_io (sp_peek log_env txdata (unat txlen) (dev s1)) s1 else s1) = ?cmd s1" by simp
  have k2: "(if rx < len then (let (w, s) = reg_get log_io HR_SPI_RXDATA_REG s in s\<lparr>dev := sp_poke log_env (data + rx) (le32 w) (dev s)\<rparr>) else s) = s" for s by simp
  have "SpiDmaBlockRead log_env data len txdata txlen s = Some (TLS_SPI_STATUS_OK, ?s6)"
    using assms(1) s1(1) s3(1) s4(1) s5(1)
    by (simp add: SpiDmaBlockRead_def assms(3) [symmetric] k1 k2 del: append_assoc split del: if_split)
  ultimately show ?thesis by blast
qed

lemma unat_eight: "unat (a :: u32) \<le> 8192 \<Longrightarrow> unat (a * 8) = 8 * unat a"
  by (simp add: unat_word_ariths)

text \<open>C40. A transfer that reads by DMA starts the clock for as many bytes as command and data have together, and drops what comes in
  while the command goes out, with two exceptions. For 4093, 4094 or 4095 bytes the block that would clock the last
  one to three bytes is left out, though they are then read from the FIFO, and success is reported. For a command of 32
  bytes, which is accepted, the number of bits to drop does not fit its field and is 0.
\<close>

theorem spi_dma_read_clocks:
  assumes "data \<noteq> 0" "unat len \<le> 8160" "unat txlen \<le> 32"
  shows "\<exists>s' vs. SpiDmaBlockRead log_env data len txdata txlen s = Some (TLS_SPI_STATUS_OK, s') \<and> starts (dev s') = starts (dev s) @ vs
    \<and> sum_list (map clocked vs) = 8 * (unat txlen + (if 4092 < unat len \<and> unat len < 4096 then 4092 else unat len))
    \<and> skipped (hd vs) = (if unat txlen = 32 then 0 else 8 * unat txlen)"
proof -
  let ?M = SPI_DMA_MAX_TRANS_SIZE and ?T = "ucast txlen :: u32"
  define rx where "rx = (if len mod 4 \<noteq> 0 then len AND 0xFFFFFFFC else len)"
  define n where "n = (if rx < ?M then len else ?M)"
  define first where "first = DMA_BOTH OR SPI_VALID_CLKS_NUM ((n + ?T) * 8) OR SPI_RX_INVALID_BITS (?T * 8)"
  define rest where "rest = (if rx \<le> ?M then [] else [DMA_RX OR SPI_VALID_CLKS_NUM ((rx - ?M + len - rx) * 8)])"
  obtain s' where s': "SpiDmaBlockRead log_env data len txdata txlen s = Some (TLS_SPI_STATUS_OK, s')" "began s (first # rest) s'"
    using block_read_starts [OF assms(1,2) rx_def first_def [unfolded n_def] rest_def] by blast
  have M: "unat ?M = 4092" by (simp add: SPI_DMA_MAX_TRANS_SIZE_def)
  have rx: "unat rx = unat len - unat len mod 4" unfolding rx_def by (rule words_of)
  have T: "unat ?T = unat txlen" by (simp add: unsigned_ucast_eq take_bit_nat_eq_self order.strict_trans1 [OF assms(3)])
  have n: "unat n = (if unat rx < 4092 then unat len else 4092)" using M by (simp add: n_def word_less_nat_alt)
  have nT: "unat (n + ?T) = unat n + unat txlen" using n T assms(2,3) by (simp add: unat_word_ariths)
  have N1: "unat ((n + ?T) * 8) = 8 * (unat n + unat txlen)" using unat_eight [of "n + ?T"] nT n assms(2,3) rx by auto
  then have f1: "clocked first = 8 * (unat n + unat txlen)" unfolding first_def
    by (subst fields(3)) (use n assms(2,3) rx in \<open>auto simp: word_less_nat_alt\<close>)
  have sk: "skipped first = (if unat txlen = 32 then 0 else 8 * unat txlen)"
  proof -
    have "(n + ?T) * 8 < 65536" using N1 n assms(2,3) rx by (auto simp: word_less_nat_alt)
    then have "skipped first = unat ((?T * 8) AND 0xFF)" unfolding first_def by (rule fields(4))
    also have "(?T * 8) AND 0xFF = take_bit 8 (?T * 8)" by (simp add: take_bit_eq_mask mask_eq_exp_minus_1)
    also have "unat \<dots> = 8 * unat txlen mod 256" using unat_eight [of ?T] T assms(3) by (simp add: take_bit_eq_mod unat_mod)
    finally show ?thesis using assms(3) by auto
  qed
  have f2: "sum_list (map clocked rest) = (if unat rx \<le> 4092 then 0 else 8 * (unat len - 4092))"
  proof (cases "rx \<le> ?M")
    case False
    then have l: "4092 < unat rx" using M by (simp add: word_le_nat_alt)
    have "rx - ?M + len - rx = len - ?M" by simp
    moreover have u: "unat (len - ?M) = unat len - 4092" using l rx M by (simp add: unat_sub_if')
    moreover have "unat ((len - ?M) * 8) = 8 * (unat len - 4092)" using unat_eight [of "len - ?M"] u assms(2) by simp
    moreover from this have "(len - ?M) * 8 < 65536" using assms(2) by (simp add: word_less_nat_alt)
    ultimately show ?thesis using False l fields(1) [of "(len - ?M) * 8"] by (simp add: rest_def)
  qed (use M in \<open>simp add: rest_def word_le_nat_alt\<close>)
  have "sum_list (map clocked (first # rest)) = 8 * (unat txlen + (if 4092 < unat len \<and> unat len < 4096 then 4092 else unat len))"
    using f1 f2 n rx assms(2) by (auto split: if_splits) presburger+
  then show ?thesis using s' sk unfolding began_def by (intro exI [of _ s'] exI [of _ "first # rest"]) simp
qed

text \<open>4093 bytes after a command of 4: the last byte is read without a clock for it.\<close>

definition log_spi :: "wlog spis" where
  "log_spi = \<lparr>dev = [], dma_context = dma_context (dma_boot ()), channels = channels (dma_boot ()), sp_port = Some (new_port\<lparr>transtype := SPI_DMA_TRANSFER\<rparr>), sp_msgs = [], sp_allocs = 0\<rparr>"

theorem spi_dma_read_clocks_witness:
  "\<exists>s' vs. SpiDmaBlockRead log_env SPI_DMA_BUF_ADDR 4093 SPI_DMA_CMD_ADDR 4 log_spi = Some (TLS_SPI_STATUS_OK, s') \<and> starts (dev s') = vs
    \<and> sum_list (map clocked vs) = 8 * (4 + 4092) \<and> skipped (hd vs) = 32"
proof -
  have p: "SPI_DMA_BUF_ADDR \<noteq> 0" "unat (4093 :: u32) \<le> 8160" "unat (4 :: u8) \<le> 32"
    by (simp_all add: SPI_DMA_BUF_ADDR_def SPI_DMA_CMD_ADDR_def SPI_DMA_CMD_MAX_SIZE_def)
  show ?thesis using spi_dma_read_clocks [OF p, of SPI_DMA_CMD_ADDR log_spi] by (simp add: log_spi_def)
qed

section \<open>Writing\<close>

lemma write_step:
  assumes "ch = 0 \<or> ch = 1" "i \<le> blocknum" "bs = (if txlen > SPI_DMA_MAX_TRANS_SIZE then SPI_DMA_MAX_TRANS_SIZE else txlen)" "bs \<noteq> 0"
  shows "\<exists>s'. write_blocks log_env ch data False txlen blocknum i over s = write_blocks log_env ch data False (txlen - bs) blocknum (i + 1) over s'
    \<and> began s [DMA_TX OR SPI_VALID_CLKS_NUM (bs * 8)] s'"
proof -
  let ?desc = "dma_desc (data + of_nat i * SPI_DMA_MAX_TRANS_SIZE) HR_SPI_TXDATA_REG (1 OR 0x20 OR push_bit 7 bs)"
  obtain s1 where s1: "tls_dma_start log_io ch (Some ?desc) False s = Some (0, s1)" "began s [] s1" using log_start [OF assms(1)] by blast
  let ?v = "DMA_TX OR SPI_VALID_CLKS_NUM (bs * 8)"
  let ?s2 = "s1\<lparr>dev := ((dev s1 @ [(HR_SPI_MODECFG_REG, SPI_RX_TRIGGER_LEVEL 0 OR SPI_TX_TRIGGER_LEVEL 0 OR SPI_TX_DMA_ON)])
     @ [(HR_SPI_TIMEOUT_REG, SPI_TIMER_EN OR SPI_TIME_OUT 0xFFFF)]) @ [(HR_SPI_CHCFG_REG, ?v)]\<rparr>"
  have "began s [?v] ?s2" using s1(2) by (simp add: began_def spi_regs started)
  moreover have "write_blocks log_env ch data False txlen blocknum i over s = write_blocks log_env ch data False (txlen - bs) blocknum (i + 1) over ?s2"
    using assms(2,4) s1(1) unfolding DMA_TX_def
    by (subst write_blocks.simps) (simp add: assms(3) [symmetric] reg_timeout_def or.assoc Let_def del: append_assoc split del: if_split)
  ultimately show ?thesis by blast
qed

lemma write_ends: "i > blocknum \<or> txlen = 0 \<Longrightarrow> write_blocks log_env ch data False txlen blocknum i over s = Some (TLS_SPI_STATUS_OK, over, s)"
  by (subst write_blocks.simps) (auto simp: SPI_DMA_MAX_TRANS_SIZE_def)

lemma clocked_tx: "unat n \<le> 8160 \<Longrightarrow> clocked (DMA_TX OR SPI_VALID_CLKS_NUM (n * 8)) = 8 * unat n"
  using unat_eight [of n] by (subst fields(2)) (simp_all add: word_less_nat_alt)

lemma write_all:
  assumes "ch = 0 \<or> ch = 1" "0 < txlen" "unat txlen \<le> 8160" "blocknum = unat (txlen div SPI_DMA_MAX_TRANS_SIZE)"
  shows "\<exists>s' vs. write_blocks log_env ch data False txlen blocknum 0 over s = Some (TLS_SPI_STATUS_OK, over, s') \<and> began s vs s' \<and> sum_list (map clocked vs) = 8 * unat txlen"
proof -
  let ?M = SPI_DMA_MAX_TRANS_SIZE
  have M: "unat ?M = 4092" "?M \<noteq> 0" by (simp_all add: SPI_DMA_MAX_TRANS_SIZE_def)
  have bn: "blocknum = unat txlen div 4092" using assms(4) M by (simp add: unat_div)
  show ?thesis
  proof (cases "txlen > ?M")
    case False
    then have bs: "txlen = (if txlen > ?M then ?M else txlen)" "txlen \<noteq> 0" using assms(2) by auto
    obtain s1 where s1: "write_blocks log_env ch data False txlen blocknum 0 over s = write_blocks log_env ch data False (txlen - txlen) blocknum (0 + 1) over s1"
      "began s [DMA_TX OR SPI_VALID_CLKS_NUM (txlen * 8)] s1"
      using write_step [OF assms(1) _ bs, of 0 blocknum data over s] by blast
    then show ?thesis using clocked_tx [OF assms(3)] by (intro exI [of _ s1] exI [of _ "[DMA_TX OR SPI_VALID_CLKS_NUM (txlen * 8)]"]) (simp add: write_ends)
  next
    case True
    then have big: "4092 < unat txlen" using M by (simp add: word_less_nat_alt)
    then have b1: "blocknum = 1" using bn assms(3) by (simp add: div_nat_eqI)
    have bs: "?M = (if txlen > ?M then ?M else txlen)" using True by simp
    have u: "unat (txlen - ?M) = unat txlen - 4092" using big M by (simp add: unat_sub_if')
    have bs2: "txlen - ?M = (if txlen - ?M > ?M then ?M else txlen - ?M)" "txlen - ?M \<noteq> 0" using u M assms(3) True by (auto simp: word_less_nat_alt)
    obtain s1 where s1: "write_blocks log_env ch data False txlen blocknum 0 over s = write_blocks log_env ch data False (txlen - ?M) blocknum (0 + 1) over s1"
      "began s [DMA_TX OR SPI_VALID_CLKS_NUM (?M * 8)] s1"
      using write_step [OF assms(1) _ bs M(2), of 0 blocknum data over s] by blast
    obtain s2 where s2: "write_blocks log_env ch data False (txlen - ?M) blocknum 1 over s1 = write_blocks log_env ch data False (txlen - ?M - (txlen - ?M)) blocknum (1 + 1) over s2"
      "began s1 [DMA_TX OR SPI_VALID_CLKS_NUM ((txlen - ?M) * 8)] s2"
      using write_step [OF assms(1) _ bs2, of 1 blocknum data over s1] b1 by blast
    have "sum_list (map clocked ([DMA_TX OR SPI_VALID_CLKS_NUM (?M * 8)] @ [DMA_TX OR SPI_VALID_CLKS_NUM ((txlen - ?M) * 8)])) = 8 * unat txlen"
      using clocked_tx [of ?M] clocked_tx [of "txlen - ?M"] u M(1) big assms(3) by simp
    then show ?thesis using s1(1) s2(1) began_trans [OF s1(2) s2(2)] by (auto simp: write_ends)
  qed
qed

lemma block_write_starts:
  assumes "data \<noteq> 0" "unat len \<le> 8160"
  shows "\<exists>s' vs. SpiDmaBlockWrite log_env data len False 0 s = Some (TLS_SPI_STATUS_OK, s') \<and> began s vs s' \<and> sum_list (map clocked vs) = 8 * unat len"
proof -
  let ?M = SPI_DMA_MAX_TRANS_SIZE
  define tx where "tx = (if len mod 4 \<noteq> 0 then len AND 0xFFFFFFFC else len)"
  have tx: "unat tx = unat len - unat len mod 4" unfolding tx_def by (rule words_of)
  obtain s1 where s1: "clear_fifos log_io s = Some s1" "began s [] s1" using log_clear by blast
  define blocks where "blocks = (if tx > 0 then do {
               let (ch, s) = tls_dma_request log_io 1 (TLS_DMA_FLAGS_CHANNEL_SEL 5 OR TLS_DMA_FLAGS_HARD_MODE) s1;
               (ret, over, s) \<leftarrow> write_blocks log_env ch data False tx (unat (tx div ?M)) 0 False s;
               s \<leftarrow> tls_dma_free log_io ch s;
               Some (ret, over, s) }
             else Some (TLS_SPI_STATUS_OK, False, s1))"
  obtain s4 vs where b: "blocks = Some (TLS_SPI_STATUS_OK, False, s4)" "began s1 vs s4" "sum_list (map clocked vs) = 8 * unat tx"
  proof (cases "tx > 0")
    case True
    obtain ch s2 where s2: "tls_dma_request log_io 1 (TLS_DMA_FLAGS_CHANNEL_SEL 5 OR TLS_DMA_FLAGS_HARD_MODE) s1 = (ch, s2)" "ch = 0 \<or> ch = 1" "began s1 [] s2"
      using log_request by blast
    have "unat tx \<le> 8160" using tx assms(2) by simp
    then obtain s3 vs where s3: "write_blocks log_env ch data False tx (unat (tx div ?M)) 0 False s2 = Some (TLS_SPI_STATUS_OK, False, s3)" "began s2 vs s3"
      "sum_list (map clocked vs) = 8 * unat tx"
      using write_all [OF s2(2) True _ refl, of data False s2] by blast
    obtain s4 where "tls_dma_free log_io ch s3 = Some s4" "began s3 [] s4" using log_free [OF s2(2)] by blast
    then show ?thesis using that [of s4 vs] True s2(1,3) s3 by (simp add: blocks_def began_def)
  next
    case False
    then show ?thesis using that [of s1 "[]"] by (simp add: blocks_def began_def word_gt_0)
  qed
  define rest where "rest = (if len > tx then [DMA_TX OR SPI_VALID_CLKS_NUM ((len - tx) * 8)] else [])"
  let ?w = "pack SPI_WORD_TRANSFER (replicate (unat (len - tx)) 0)"
  define s5 where "s5 = (if len > tx then s4\<lparr>dev := (((dev s4 @ [(HR_SPI_TXDATA_REG, ?w)]) @ [(HR_SPI_MODECFG_REG, SPI_RX_TRIGGER_LEVEL 0 OR SPI_TX_TRIGGER_LEVEL 0)])
     @ [(HR_SPI_TIMEOUT_REG, SPI_TIMER_EN OR SPI_TIME_OUT 0xFFFF)]) @ [(HR_SPI_CHCFG_REG, DMA_TX OR SPI_VALID_CLKS_NUM ((len - tx) * 8))]\<rparr> else s4)"
  have b5: "began s4 rest s5" by (simp add: began_def rest_def s5_def spi_regs started)
  have left: "unat (len - tx) = unat len mod 4" using tx by (simp add: unat_sub_if')
  have c5: "sum_list (map clocked rest) = 8 * (unat len - unat tx)"
    using clocked_tx [of "len - tx"] left tx by (auto simp: rest_def word_less_nat_alt)
  let ?s6 = "s5\<lparr>dev := ((dev s5 @ [(HR_SPI_CHCFG_REG, 0)]) @ [(HR_SPI_MODECFG_REG, 0)]) @ [(HR_SPI_TIMEOUT_REG, 0)]\<rparr>"
  have "SpiDmaBlockWrite log_env data len False 0 s = Some (TLS_SPI_STATUS_OK, ?s6)"
  proof (cases "len > tx")
    case True
    then show ?thesis using assms(1) s1(1) b(1)
      by (simp add: SpiDmaBlockWrite_def tx_def [symmetric] blocks_def [symmetric] s5_def reg_timeout_def DMA_TX_def or.assoc Let_def del: append_assoc)
  next
    case False
    then show ?thesis using assms(1) s1(1) b(1)
      by (simp add: SpiDmaBlockWrite_def tx_def [symmetric] blocks_def [symmetric] s5_def Let_def del: append_assoc)
  qed
  moreover have "began s (vs @ rest) ?s6" using s1(2) b(2) b5 by (simp add: began_def spi_regs)
  moreover have "sum_list (map clocked (vs @ rest)) = 8 * unat len" using b(3) c5 tx by simp
  ultimately show ?thesis by blast
qed

lemma short_write_starts:
  assumes "unat len \<le> 4"
  shows "\<exists>s' v. short_transfer log_env (Some w) len s = Some (0, s') \<and> began s [v] s' \<and> clocked v = 8 * unat len"
proof -
  obtain s1 where s1: "clear_fifos log_io s = Some s1" "began s [] s1" using log_clear by blast
  let ?v = "SPI_FORCE_SPI_CS_OUT OR SPI_CS_LOW OR SPI_TX_CHANNEL_ON OR SPI_RX_CHANNEL_ON OR SPI_CONTINUE_MODE OR SPI_START OR SPI_VALID_CLKS_NUM (8 * len)"
  let ?s2 = "s1\<lparr>dev := (((((dev s1 @ [(HR_SPI_TXDATA_REG, w)]) @ [(HR_SPI_CHCFG_REG, ?v)]) @ [(HR_SPI_CHCFG_REG, 0 OR SPI_CS_HIGH)]) @ [(HR_SPI_CHCFG_REG, 0)])) @ [(HR_SPI_MODECFG_REG, 0)]\<rparr>"
  have "?v = DMA_BOTH OR SPI_VALID_CLKS_NUM (len * 8) OR SPI_RX_INVALID_BITS 0"
    by (rule u32_eqI) (simp add: upt_32 DMA_BOTH_def spi_bits bit_simps mult.commute)
  moreover have e: "unat (len * 8) = 8 * unat len" using unat_eight [of len] assms by simp
  moreover from e have "len * 8 < 65536" using assms by (simp add: word_less_nat_alt)
  ultimately have v: "clocked ?v = 8 * unat len" using fields(3) [of "len * 8" 0] by simp
  have "bit ?v 0" by (simp add: spi_bits bit_simps)
  then have "began s [?v] ?s2" using s1(2) by (simp add: began_def spi_regs SPI_CS_HIGH_def)
  moreover have "short_transfer log_env (Some w) len s = Some (0, ?s2)"
    using s1(1) by (simp add: short_transfer_def Let_def del: append_assoc)
  ultimately show ?thesis using v by blast
qed



end
