(* ===== verification/Spec2Isabelle.thy ===== *)
theory Spec2Isabelle
  imports Crc Str_Utils Flash_Fast Dhcp_Correct Params_Props Fwup_Props Timers_Correct Ota_Correct Dns
    Ext_Flash_Correct Efuse_Correct Hw_Timer_Correct
    Dma_Props Uart_Props Uart_Limits Uart_Tx_End Uart_Config Uart_Dma Hostspi_Props Hostspi_Dma
begin

text \<open>
  A verification development of the firmware platform of the W600 SDK, a Wi-Fi microcontroller.

  \<^bold>\<open>The program and its parts.\<close> Persistent state lives in a serial flash chip. The internal flash driver reads
  and writes it; the parameter manager keeps the configuration of the device in two partitions of it, and
  the firmware updater writes new images to it and tells the boot loader about them. Images reach the updater
  in requests of an application, here the receiver for packets that come over a TCP socket. Checksums guard
  images and parameters. Tasks with mailboxes and timers carry the work of the wireless side. The soft access
  point gives addresses to its clients with a DHCP server and answers queries for its own name with a DNS
  server. An external flash chip, the hardware timers, the efuse store of factory parameters, the DMA channels, the
  UARTs and the SPI master have drivers of their own. Strings and addresses are converted by a small library.

  \<^bold>\<open>Theories and sources\<close> (paths under \<^verbatim>\<open>src/\<close>). Definitions have the names of the C functions; a loop or a long
  branch of a function is a definition of its own, named after what it does.

  \<^item> \<open>Prelude\<close>: machine integers as words of their width, objects as lists of bytes (\<open>bslice\<close>, \<open>bsplice\<close>), byte
    orders, C strings, the allocator.
  \<^item> \<open>Crc\<close>: CRC-8, CRC-32 and the folded sum of \<^verbatim>\<open>Platform/Common/utils/utils.c\<close>.
  \<^item> \<open>Str_Utils\<close>: the conversions of strings and addresses of the same file.
  \<^item> \<open>Nor_Chip\<close>: the contract of the flash chip, the locale \<open>nor_chip\<close>, and a chip that obeys it.
  \<^item> \<open>Internal_Flash\<close>: every function of \<^verbatim>\<open>Platform/Drivers/internalflash/wm_internal_fls.c\<close>. \<open>Flash_Correct\<close>,
    \<open>Flash_Fast\<close> and \<open>Flash_Secure\<close> (protected area, security registers) hold its proofs. The record \<open>fls\<close> is the
    driver's static variables with the chip.
  \<^item> \<open>Ext_Flash\<close>, \<open>Ext_Flash_Correct\<close>: both layers of the external flash driver, \<^verbatim>\<open>wm_fls.c\<close> and \<^verbatim>\<open>wm_fls_gd25qxx.c\<close> of
    \<^verbatim>\<open>Platform/Drivers/flash\<close>; the record \<open>exfls\<close> is the module. \<open>Block_Store\<close> is the contract it shares with the
    internal flash.
  \<^item> \<open>Hw_Timer\<close>, \<open>Hw_Timer_Correct\<close>: \<^verbatim>\<open>wm_timer.c\<close>, \<^verbatim>\<open>wm_cpu.c\<close> and the delays of \<^verbatim>\<open>wm_efuse.c\<close>, over registers.
  \<^item> \<open>Efuse\<close>, \<open>Efuse_Correct\<close>: \<^verbatim>\<open>Platform/Drivers/efuse/wm_efuse.c\<close>, on top of the internal flash and the CRC engine.
  \<^item> \<open>Dma\<close>, \<open>Dma_Correct\<close>, \<open>Dma_Props\<close>: \<^verbatim>\<open>Platform/Drivers/dma/wm_dma.c\<close>; the record \<open>dma\<close> is its two static tables.
  \<^item> \<open>Uart\<close> (data and settings) and \<open>Uart_Io\<close> (sending, interrupts, reading, writing): \<^verbatim>\<open>Platform/Drivers/uart/wm_uart.c\<close>;
    the record \<open>uarts\<close> extends \<open>dma\<close> by the array of ports. \<open>Uart_Ring\<close> reads the ring buffer as a queue,
    \<open>Uart_Correct\<close> holds the proofs about runs, \<open>Uart_Device\<close> a device for witnesses; \<open>Uart_Props\<close>, \<open>Uart_Limits\<close>,
    \<open>Uart_Tx_End\<close>, \<open>Uart_Config\<close> and \<open>Uart_Dma\<close> are the properties.
  \<^item> \<open>Hostspi\<close> (data, registers), \<open>Hostspi_Engine\<close> (messages, scheduler, interrupt) and \<open>Hostspi_Api\<close> (DMA, settings, calls of an
    application): \<^verbatim>\<open>wm_hostspi.c\<close> and \<^verbatim>\<open>wm_spi_hal.h\<close> of \<^verbatim>\<open>Platform/Drivers/spi\<close>; the record \<open>spis\<close> extends \<open>dma\<close> by the port and
    the messages. \<open>Hostspi_Device\<close> is the contract of the hardware, the locale \<open>spi_line\<close>, and a device with a slave that
    obeys it; \<open>Hostspi_Fifo\<close>, \<open>Hostspi_Correct\<close> and \<open>Hostspi_Run\<close> prove the FIFOs, one step and whole runs over it;
    \<open>Hostspi_Props\<close> and \<open>Hostspi_Dma\<close> hold the properties.
  \<^item> \<open>Params\<close>, \<open>Params_Correct\<close>, \<open>Params_Props\<close>: \<^verbatim>\<open>Platform/Common/Params/wm_param.c\<close>. The record \<open>params\<close> is the
    image of the flash partition, the parameters in memory and the user's defaults, as byte slabs with
    the layout of the C structures; the switches over parameter identifiers are tables.
  \<^item> \<open>Crypto_Crc\<close>: the CRC functions of \<^verbatim>\<open>Platform/Common/crypto/wm_crypto_hard.c\<close> over the locale \<open>crc_engine\<close>.
  \<^item> \<open>Fwup\<close>, \<open>Fwup_Correct\<close>, \<open>Fwup_Props\<close>: \<^verbatim>\<open>Platform/Common/fwup/wm_fwup.c\<close>. The record \<open>fwup_sys\<close> is the module's
    variables and those its task keeps between requests, on top of \<open>params\<close> and \<open>fls\<close>.
  \<^item> \<open>Ota\<close>, \<open>Ota_Correct\<close>: \<^verbatim>\<open>Src/App/OTA/wm_socket_fwup.c\<close>, on top of \<open>fwup_sys\<close>.
  \<^item> \<open>Timers\<close>, \<open>Timers_Correct\<close>: \<^verbatim>\<open>wm_wl_timers.c\<close>, \<^verbatim>\<open>wm_wl_mbox.c\<close> and \<^verbatim>\<open>wm_wl_task.c\<close> of \<^verbatim>\<open>Platform/Common/task\<close>.
  \<^item> \<open>Dhcp\<close>, \<open>Dhcp_Correct\<close>: \<^verbatim>\<open>Src/App/dhcpserver/dhcp_server.c\<close>, its static structure as \<open>dhcp_server\<close>.
  \<^item> \<open>Dns\<close>: \<^verbatim>\<open>Src/App/dnsserver/dns_server.c\<close>, its static structure as \<open>dns_server\<close>.

  \<^bold>\<open>Interfaces.\<close> A component is proved against the contract of the one below it, and the contract is
  discharged for the model of the code. \<open>nor_chip\<close> is what data sheets promise of the chip; \<open>nor_driver\<close> adds
  an allocator; a \<open>sublocale\<close> shows that the driver then provides \<open>flash_store\<close>, a store whose reads return and
  whose writes replace exactly the addressed range. \<open>param_device\<close> is a store with what the parameter manager
  asks of it; \<open>fwup_platform\<close> joins driver and CRC engine, and \<open>ota_platform\<close> adds a session over the socket.
  \<open>timer_queue\<close> is a queue of deadlines, interpreted on the list whose entries count from the one before.
  \<open>block_store\<close> is what both flash drivers provide: \<open>nor_driver\<close> and \<open>ext_driver\<close> (over the contract \<open>ext_chip\<close> of
  the external chip) are its two providers. \<open>sec_chip\<close> and \<open>sec_driver\<close> add the protected area and the security
  registers. \<open>timer_block\<close>, \<open>uart_block\<close>, \<open>line_register\<close> and \<open>spi_line\<close> say what the registers of the timers, of a UART and of the SPI master do; each
  is interpreted on a device whose registers, FIFOs and counters are written out.

  \<^bold>\<open>What is shown.\<close>

  \<^item> Checksums: the unrolled equations and tables compute the standard CRCs; changes of a byte are found.
  \<^item> Conversions: parsers read back what printers print, and what they accept.
  \<^item> Flash: reads, writes over sector ends and sessions of buffered writes do to the contents of the chip
    what they promise and nothing else; refused requests; the semaphore is given back on every path.
  \<^item> Parameters: a start loads the newest valid image and repairs damaged partitions, a write that is cut off
    loses nothing that was saved before, and runs of operations keep memory and flash in agreement.
  \<^item> Updates: an image with a right checksum is installed however it is cut into requests, packets and TCP
    segments (but not inside a header), a corrupt one is refused and leaves the boot header alone; requests
    out of order are refused; opening a session returns.
  \<^item> Timers: the list refines a sorted list of deadlines, so every timer runs out on time; waiting returns.
  \<^item> DHCP and DNS: leases are unique in every run, the handshake ends in a lease, addresses in use are refused,
    leases end on time; queries are answered byte for byte as they should be.
  \<^item> External flash: a write replaces exactly its range and a read returns it, over both layers; a failing
    transfer gives the lock back twice.
  \<^item> Hardware timers: creating one takes a free timer, which belongs to its owner in every run; delays end.
  \<^item> Efuse: loading the factory parameters picks a valid copy and repairs the other; a value that was set survives
    restarts.
  \<^item> DMA: runs refine an allocator of channels; an interrupt reaches the callback of its channel.
  \<^item> UART: in every run of interrupts and calls the receiving side refines a queue, and what is sent on a port is
    the data of the accepted writes in order; divisors, the line control register and writes by DMA.
  \<^item> SPI: a message is carried out byte for byte, in order, within one interrupt for each 32 bytes, and leaves the driver
    idle; installation makes it so; transfers by DMA clock the bytes they are asked for, but for the exceptions stated.
  \<^item> Where the code does not do what it means to, a theorem states what it does instead: the buffered writer
    overwrites a sector, a count or a sum wraps around, a short request resets the system, an oversized packet
    hangs the receiver, names and options run past their arrays, the pool of addresses repeats one, a full
    ring is lost, a transmit interrupt never ends, a DMA channel is handed out twice, bytes are read that were never
    clocked, two modes are swapped.

  \<^bold>\<open>Conventions.\<close> Integers keep the width of the C type, so that wrap-around is that of the code; lengths and
  indexes that the code bounds are natural numbers. Errors are the returned codes. The result \<open>None\<close> is
  undefined behaviour (a null pointer, an access outside an object) or a loop that does not end. Loops are
  recursive functions with a measure; there is no fuel. The loops that may not end (\<open>session_loop\<close>, \<open>recv_loop\<close>,
  \<open>tls_timeouts_mbox_fetch_p\<close>, the polling of the external chip, of timer 0, of a DMA channel, of the UART FIFOs and of the SPI FIFOs, and
  \<open>tx_loop\<close>) are partial functions into \<open>option\<close>; that the first three, the chip, the timer and \<open>tx_loop\<close> return, or do
  not, is proved.

  \<^bold>\<open>Parameters of the model.\<close> The flash controller with its chip (\<open>spi\<close>), the SPI transfers
  to the external chip (\<open>bus\<close>), registers and the interrupt controller (\<open>io\<close>; for the UART and the SPI master, with their callbacks
  and objects of the operating system, \<open>env\<close>),
  the delay of the operating system (\<open>wait\<close>), the allocator (\<open>heap\<close>, which may fail at
  any call), the CRC engine (\<open>hw\<close>), the queues and the clock of the operating system (\<open>os_ops\<close>), the flags of the
  wireless library (\<open>wifi_ops\<close>), the random numbers (\<open>rnd\<close>), the functions that timers and messages call, and what
  lwIP provides to the servers (\<open>dhcp_env\<close>, \<open>dns_env\<close>). The witnesses instantiate them.

  \<^bold>\<open>Not modelled.\<close> Tasks do not interleave: the update task serves its queue while a synchronous caller waits, and
  a semaphore is a count; interrupts of the UART, the SPI master and the timers run between two operations, not inside one. Debug
  output has no effect. The TCP/IP stack, the operating system, MatrixSSL, PolarSSL, libupnp, mDNS, libwebsockets,
  libcoap, MQTT, cJSON and AllJoyn are vendored code; the wireless library is a binary. The AT commands are compiled
  only with a switch that the configuration leaves off, and updates over HTTP use the updater as the modelled
  receiver does. Demos, boot code, the SPI slave and drivers that only access single registers are left
  aside, as are ciphers and digests, which drive hardware.
\<close>

end
